(* ===== verification/Prelude.thy ===== *)
theory Prelude
  imports Main "HOL-Library.AList"
begin

text \<open>
  What every component shares.  Go errors are values: a function of the source that returns
  \<open>error\<close> is a function into \<open>go_error option\<close> (\<open>None\<close> is the nil error), one that returns
  \<open>(T, error)\<close> is a function into \<open>go_error + 'a\<close>.  The sentinel errors of
  \<open>internal/app/errors.go\<close> and of the generation files are constructors, an error made by
  \<open>fmt.Errorf\<close> or \<open>errors.New\<close> inside a function carries its message.  An instant
  (\<open>time.Time\<close>) is the number of nanoseconds since the zero instant, so \<open>IsZero\<close> is equality
  with 0; a \<open>time.Duration\<close> is a number of nanoseconds.
\<close>

section \<open>Proof collections\<close>

named_theorems valid_simps \<open>characterisations of the validation functions as plain conjunctions\<close>
named_theorems store_defs \<open>definitions of the store operations\<close>

section \<open>Errors\<close>

datatype go_error =
    ErrInvalidID | ErrUnauthenticated | ErrForbidden | ErrNotFound | ErrConflict | ErrDeleted
  | ErrUnavailable | ErrInvalidCredentials | ErrBusy
  | ErrInvalidHandle | ErrInvalidReactionKind | ErrInvalidIdempotencyKey
  | ErrGenerationOutput | ErrGenerationUnsafe | ErrGenerationRepetition
  | ValidationError "(string \<times> string) list"
  | Errorf string

text \<open>
  A validation function of the source is a chain of guarded early returns.  The chain is a list of
  (condition, error) pairs and its value is the error of the first condition that holds.
\<close>

fun first_error :: "(bool \<times> 'e) list \<Rightarrow> 'e option" where
  "first_error [] = None"
| "first_error ((b, e) # gs) = (if b then Some e else first_error gs)"

lemma first_error_None [simp]: "first_error gs = None \<longleftrightarrow> (\<forall>g \<in> set gs. \<not> fst g)"
  by (induction gs rule: first_error.induct) auto

lemma first_error_append:
  "first_error (gs @ hs) = (case first_error gs of Some e \<Rightarrow> Some e | None \<Rightarrow> first_error hs)"
  by (induction gs rule: first_error.induct) auto

text \<open>Propagation of an error of a callee: \<open>if err := f(); err != nil { return err }\<close>.\<close>

definition or_else :: "'e option \<Rightarrow> 'e option \<Rightarrow> 'e option" where
  "or_else a b = (case a of Some e \<Rightarrow> Some e | None \<Rightarrow> b)"

lemma or_else_None [simp]: "or_else a b = None \<longleftrightarrow> a = None \<and> b = None"
  by (simp add: or_else_def split: option.splits)

text \<open>Sequencing of fallible steps: \<open>x, err := f(); if err != nil { return err }\<close>.\<close>

definition and_then :: "'e + 'a \<Rightarrow> ('a \<Rightarrow> 'e + 'b) \<Rightarrow> 'e + 'b" where
  "and_then m f = (case m of Inl e \<Rightarrow> Inl e | Inr x \<Rightarrow> f x)"

lemma and_then_simps [simp]: "and_then (Inl e) f = Inl e" "and_then (Inr x) f = f x"
  by (simp_all add: and_then_def)

lemma and_then_Inr [simp]: "and_then m f = Inr y \<longleftrightarrow> (\<exists>x. m = Inr x \<and> f x = Inr y)"
  by (cases m) simp_all

text \<open>A guard: the error if the condition fails.\<close>

definition ensure :: "bool \<Rightarrow> 'e \<Rightarrow> 'e + unit" where
  "ensure b e = (if b then Inr () else Inl e)"

lemma ensure_Inr [simp]: "ensure b e = Inr u \<longleftrightarrow> b"
  by (simp add: ensure_def)

section \<open>Time\<close>

type_synonym time = int
type_synonym duration = int

abbreviation (input) is_zero :: "time \<Rightarrow> bool" where "is_zero t \<equiv> t = 0"
abbreviation (input) microsecond :: duration where "microsecond \<equiv> 1000"
abbreviation (input) second :: duration where "second \<equiv> 1000000000"

section \<open>Association lists as Go maps\<close>

text \<open>
  A Go map with iteration and \<open>len\<close> is an association list with distinct keys; \<open>AList.update\<close> is
  the assignment \<open>m[k] = v\<close>.
\<close>

lemma length_alist_update:
  "length (AList.update k v al) = (if map_of al k = None then Suc (length al) else length al)"
  by (induction al) auto

lemma set_alist_update: "set (AList.update k v al) \<subseteq> insert (k, v) (set al)"
  by (induction al) auto

lemma map_of_alist_update [simp]:
  "map_of (AList.update k v al) k' = (if k' = k then Some v else map_of al k')"
  by (simp add: update_conv)

lemma map_of_filter_key:
  assumes "distinct (map fst al)"
  shows "map_of (filter (\<lambda>(k, v). P v) al) k
    = (case map_of al k of None \<Rightarrow> None | Some v \<Rightarrow> if P v then Some v else None)"
  using assms
  by (induction al) (auto split: option.splits dest: map_of_SomeD intro: rev_image_eqI)

lemma distinct_filter_keys:
  "distinct (map fst al) \<Longrightarrow> distinct (map fst (filter P al))"
  by (induction al) auto

section \<open>Lists\<close>

lemma filter_full: "length (filter P xs) = length xs \<longleftrightarrow> (\<forall>x \<in> set xs. P x)"
  by (metis filter_True length_filter_less less_irrefl)

lemma drop_chunk:
  "n + k < length s \<Longrightarrow> drop n s = take k (drop n s) @ s ! (n + k) # drop (Suc (n + k)) s"
  by (metis Cons_nth_drop_Suc append_take_drop_id drop_drop add.commute)

end
