(* ===== verification/GoString.thy ===== *)
theory GoString
  imports Prelude
begin

text \<open>
  What the code uses of Go's strings.  A Go string is a sequence of bytes: a HOL \<open>string\<close>, whose
  characters are bytes.  \<open>decode_rune\<close> and \<open>decode_last_rune\<close> are
  \<open>utf8.DecodeRuneInString\<close> and \<open>utf8.DecodeLastRuneInString\<close>, \<open>runes\<close> the runes of a \<open>range\<close> loop,
  \<open>valid_utf8\<close> is \<open>utf8.ValidString\<close>, \<open>trim_space\<close> is \<open>strings.TrimSpace\<close>.  The Unicode classes
  whose tables are too large to write down (letters, digits, marks, numbers, format characters,
  lower case) are the record \<open>unicode\<close>, a parameter of the functions that consult them.
\<close>

section \<open>Bytes\<close>

abbreviation byte :: "char \<Rightarrow> nat" where "byte c \<equiv> of_char c"

lemma byte_less_256 [simp]: "byte c < 256"
  using nat_of_char_less_256 [of c] by simp

definition is_lower :: "nat \<Rightarrow> bool" where "is_lower c \<longleftrightarrow> 97 \<le> c \<and> c \<le> 122"
definition is_upper :: "nat \<Rightarrow> bool" where "is_upper c \<longleftrightarrow> 65 \<le> c \<and> c \<le> 90"
definition is_digit :: "nat \<Rightarrow> bool" where "is_digit c \<longleftrightarrow> 48 \<le> c \<and> c \<le> 57"
definition is_alnum :: "nat \<Rightarrow> bool" where "is_alnum c \<longleftrightarrow> is_lower c \<or> is_upper c \<or> is_digit c"

lemmas class_defs = is_lower_def is_upper_def is_digit_def is_alnum_def

definition ascii_lower :: "char \<Rightarrow> char" where
  "ascii_lower c = (if is_upper (byte c) then char_of (byte c + 32) else c)"

lemma byte_ascii_lower: "byte (ascii_lower c) = (if is_upper (byte c) then byte c + 32 else byte c)"
  by (simp add: ascii_lower_def class_defs)

lemma ascii_lower_idem [simp]: "ascii_lower (ascii_lower c) = ascii_lower c"
  by (auto simp: ascii_lower_def class_defs)

section \<open>UTF-8\<close>

abbreviation rune_error :: nat where "rune_error \<equiv> 65533"

definition cont :: "nat \<Rightarrow> bool" where "cont b \<longleftrightarrow> 128 \<le> b \<and> b \<le> 191"

definition second_ok :: "nat \<Rightarrow> nat \<Rightarrow> bool" where
  "second_ok b0 b1 \<longleftrightarrow>
     (if b0 = 224 then 160 else if b0 = 240 then 144 else 128) \<le> b1 \<and>
     b1 \<le> (if b0 = 237 then 159 else if b0 = 244 then 143 else 191)"

fun decode_rune :: "string \<Rightarrow> nat \<times> nat" where
  "decode_rune [] = (rune_error, 0)"
| "decode_rune (c0 # s) =
     (let b0 = byte c0 in
      if b0 < 128 then (b0, 1)
      else if 194 \<le> b0 \<and> b0 \<le> 223 then
        (case s of
           c1 # _ \<Rightarrow> if cont (byte c1) then ((b0 - 192) * 64 + (byte c1 - 128), 2) else (rune_error, 1)
         | _ \<Rightarrow> (rune_error, 1))
      else if 224 \<le> b0 \<and> b0 \<le> 239 then
        (case s of
           c1 # c2 # _ \<Rightarrow>
             if second_ok b0 (byte c1) \<and> cont (byte c2)
             then ((b0 - 224) * 4096 + (byte c1 - 128) * 64 + (byte c2 - 128), 3) else (rune_error, 1)
         | _ \<Rightarrow> (rune_error, 1))
      else if 240 \<le> b0 \<and> b0 \<le> 244 then
        (case s of
           c1 # c2 # c3 # _ \<Rightarrow>
             if second_ok b0 (byte c1) \<and> cont (byte c2) \<and> cont (byte c3)
             then ((b0 - 240) * 262144 + (byte c1 - 128) * 4096 + (byte c2 - 128) * 64 + (byte c3 - 128), 4)
             else (rune_error, 1)
         | _ \<Rightarrow> (rune_error, 1))
      else (rune_error, 1))"

definition encode_rune :: "nat \<Rightarrow> string" where
  "encode_rune r0 =
     (let r = (if 1114111 < r0 \<or> 55296 \<le> r0 \<and> r0 \<le> 57343 then rune_error else r0) in
      map char_of
        (if r < 128 then [r]
         else if r < 2048 then [192 + r div 64, 128 + r mod 64]
         else if r < 65536 then [224 + r div 4096, 128 + r div 64 mod 64, 128 + r mod 64]
         else [240 + r div 262144, 128 + r div 4096 mod 64, 128 + r div 64 mod 64, 128 + r mod 64]))"

lemma decode_rune_width:
  "s \<noteq> [] \<Longrightarrow> 0 < snd (decode_rune s) \<and> snd (decode_rune s) \<le> length s"
  by (cases s) (auto simp: Let_def split: list.splits)

lemma decode_rune_width_le_4: "snd (decode_rune s) \<le> 4"
  by (cases s) (auto simp: Let_def split: list.splits)

declare decode_rune.simps(2) [simp del]

lemma decode_rune_ascii: "byte c < 128 \<Longrightarrow> decode_rune (c # s) = (byte c, 1)"
  by (simp add: decode_rune.simps)

lemma decode_rune_shrinks [simp, termination_simp]:
  "s \<noteq> [] \<Longrightarrow> length s - snd (decode_rune s) < length s"
  using decode_rune_width [of s] by simp

text \<open>The runes a \<open>range\<close> loop visits, with the byte offset of each.\<close>

function runes_from :: "nat \<Rightarrow> string \<Rightarrow> (nat \<times> nat) list" where
  "runes_from i s =
     (if s = [] then []
      else (i, fst (decode_rune s)) #
           runes_from (i + snd (decode_rune s)) (drop (snd (decode_rune s)) s))"
  by pat_completeness auto
termination
  by (relation "measure (\<lambda>(i, s). length s)") simp_all

declare runes_from.simps [simp del]

definition runes :: "string \<Rightarrow> nat list" where
  "runes s = map snd (runes_from 0 s)"

function valid_utf8 :: "string \<Rightarrow> bool" where
  "valid_utf8 s =
     (if s = [] then True
      else if decode_rune s = (rune_error, 1) then False
      else valid_utf8 (drop (snd (decode_rune s)) s))"
  by pat_completeness auto
termination
  by (relation "measure length") simp_all

declare valid_utf8.simps [simp del]

definition rune_count :: "string \<Rightarrow> nat" where
  "rune_count s = length (runes s)"

lemma runes_Nil [simp]: "runes [] = []"
  by (simp add: runes_def runes_from.simps [of 0 "[]"])

lemma valid_utf8_Nil [simp]: "valid_utf8 []"
  by (simp add: valid_utf8.simps [of "[]"])

lemma map_snd_runes_from: "map snd (runes_from i s) = map snd (runes_from j s)"
proof (induction i s arbitrary: j rule: runes_from.induct)
  case (1 i s)
  show ?case
  proof (cases "s = []")
    case True
    then show ?thesis by (simp add: runes_from.simps [of i "[]"] runes_from.simps [of j "[]"])
  next
    case False
    then show ?thesis
      using "1.IH" [OF False, of "j + snd (decode_rune s)"]
      by (simp add: runes_from.simps [of i s] runes_from.simps [of j s])
  qed
qed

lemma runes_unfold:
  assumes "s \<noteq> []"
  shows "runes s = fst (decode_rune s) # runes (drop (snd (decode_rune s)) s)"
  using assms map_snd_runes_from [of "snd (decode_rune s)" "drop (snd (decode_rune s)) s" 0]
  by (simp add: runes_def runes_from.simps [of 0 s])

lemma runes_ascii: "byte c < 128 \<Longrightarrow> runes (c # s) = byte c # runes s"
  by (simp add: runes_unfold decode_rune_ascii)

lemma valid_utf8_ascii: "byte c < 128 \<Longrightarrow> valid_utf8 (c # s) = valid_utf8 s"
  by (simp add: valid_utf8.simps [of "c # s"] decode_rune_ascii)

text \<open>A loop that accepts only ASCII runes accepts exactly the ASCII byte strings of that class.\<close>

lemma decode_rune_high:
  assumes "128 \<le> byte c"
  shows "128 \<le> fst (decode_rune (c # s))"
proof -
  let ?b = "byte c :: nat"
  have two: "128 \<le> (?b - 192) * 64 + n" if "194 \<le> ?b" for n using that by linarith
  have three: "128 \<le> (?b - 224) * 4096 + (b1 - 128) * 64 + n"
    if "224 \<le> ?b" "second_ok ?b b1" for b1 n
    using that by (cases "?b = 224") (auto simp: second_ok_def split: if_splits)
  have four: "128 \<le> (?b - 240) * 262144 + (b1 - 128) * 4096 + m + n"
    if "240 \<le> ?b" "second_ok ?b b1" for b1 m n
    using that by (cases "?b = 240") (auto simp: second_ok_def split: if_splits)
  show ?thesis
    using assms two three four by (simp add: decode_rune.simps Let_def split: list.split)
qed

lemma runes_all_ascii:
  assumes "\<And>r. P r \<Longrightarrow> r < 128"
  shows "(\<forall>r \<in> set (runes s). P r) \<longleftrightarrow> (\<forall>c \<in> set s. P (byte c))"
proof (induction s rule: valid_utf8.induct)
  case (1 s)
  show ?case
  proof (cases s)
    case (Cons c s')
    show ?thesis
    proof (cases "byte c < 128")
      case True
      with Cons "1.IH" show ?thesis
        by (auto simp: runes_ascii decode_rune_ascii)
    next
      case False
      with Cons have "\<not> P (byte c)" "\<not> P (fst (decode_rune s))"
        using assms decode_rune_high [of c s'] by (force, force)
      with Cons show ?thesis by (simp add: runes_unfold)
    qed
  qed simp
qed

lemma ascii_runes: "\<forall>c \<in> set s. byte c < 128 \<Longrightarrow> runes s = map byte s"
  by (induction s) (simp_all add: runes_ascii)

lemma ascii_valid: "\<forall>c \<in> set s. byte c < 128 \<Longrightarrow> valid_utf8 s"
  by (induction s) (simp_all add: valid_utf8_ascii)

section \<open>Trimming\<close>

text \<open>
  \<open>unicode.IsSpace\<close> and \<open>unicode.IsControl\<close>, written out: both classes are small.
\<close>

definition is_space :: "nat \<Rightarrow> bool" where
  "is_space r \<longleftrightarrow> 9 \<le> r \<and> r \<le> 13 \<or> r = 32 \<or> r = 133 \<or> r = 160 \<or> r = 5760 \<or>
     8192 \<le> r \<and> r \<le> 8202 \<or> r = 8232 \<or> r = 8233 \<or> r = 8239 \<or> r = 8287 \<or> r = 12288"

definition is_control :: "nat \<Rightarrow> bool" where
  "is_control r \<longleftrightarrow> r < 32 \<or> 127 \<le> r \<and> r < 160"

definition decode_last_rune :: "string \<Rightarrow> nat \<times> nat" where
  "decode_last_rune s =
     (if s = [] then (rune_error, 0)
      else if byte (last s) < 128 then (byte (last s), 1)
      else case find (\<lambda>k. \<not> cont (byte (s ! (length s - k)))) [2..<min 5 (Suc (length s))] of
             None \<Rightarrow> (rune_error, 1)
           | Some k \<Rightarrow> if snd (decode_rune (drop (length s - k) s)) = k
                       then decode_rune (drop (length s - k) s) else (rune_error, 1))"

lemma find_in_set: "find P xs = Some x \<Longrightarrow> x \<in> set xs \<and> P x"
  by (auto simp: find_Some_iff)

lemma decode_last_rune_width: "s \<noteq> [] \<Longrightarrow> 0 < snd (decode_last_rune s)"
  by (auto simp: decode_last_rune_def split: option.splits dest!: find_in_set)

function trim_left :: "string \<Rightarrow> string" where
  "trim_left s =
     (if s = [] then []
      else if is_space (fst (decode_rune s)) then trim_left (drop (snd (decode_rune s)) s) else s)"
  by pat_completeness auto
termination
  by (relation "measure length") simp_all

declare trim_left.simps [simp del]

function trim_right :: "string \<Rightarrow> string" where
  "trim_right s =
     (if s = [] then []
      else if is_space (fst (decode_last_rune s))
      then trim_right (take (length s - snd (decode_last_rune s)) s) else s)"
  by pat_completeness auto
termination
  by (relation "measure length") (simp_all add: decode_last_rune_width)

declare trim_right.simps [simp del]

definition trim_space :: "string \<Rightarrow> string" where
  "trim_space s = trim_right (trim_left s)"

lemma trim_left_id: "s = [] \<or> \<not> is_space (fst (decode_rune s)) \<Longrightarrow> trim_left s = s"
  by (auto simp: trim_left.simps [of s])

lemma trim_right_id: "s = [] \<or> \<not> is_space (fst (decode_last_rune s)) \<Longrightarrow> trim_right s = s"
  by (auto simp: trim_right.simps [of s])

text \<open>A string of visible ASCII characters is its own trimming.\<close>

lemma trim_space_ascii:
  assumes "\<forall>c \<in> set s. 32 < byte c \<and> byte c < 127"
  shows "trim_space s = s"
proof (cases "s = []")
  case True
  then show ?thesis by (simp add: trim_space_def trim_left_id trim_right_id)
next
  case False
  then obtain c s' where s: "s = c # s'" by (cases s) auto
  have "32 < byte c \<and> byte c < 127" "32 < byte (last s) \<and> byte (last s) < 127"
    using assms False s by auto
  then have "\<not> is_space (fst (decode_rune s))" "\<not> is_space (fst (decode_last_rune s))"
    using False by (auto simp: s decode_rune_ascii decode_last_rune_def is_space_def)
  then show ?thesis by (simp add: trim_space_def trim_left_id trim_right_id)
qed

section \<open>Unicode tables and lower case\<close>

record unicode =
  uc_letter :: "nat \<Rightarrow> bool"
  uc_digit :: "nat \<Rightarrow> bool"
  uc_mark :: "nat \<Rightarrow> bool"
  uc_number :: "nat \<Rightarrow> bool"
  uc_format :: "nat \<Rightarrow> bool"
  uc_lower :: "nat \<Rightarrow> nat"

text \<open>What the tables say of ASCII; the properties that need it name it as a hypothesis.\<close>

definition unicode_ascii :: "unicode \<Rightarrow> bool" where
  "unicode_ascii uc \<longleftrightarrow>
     (\<forall>r < 128. (uc_letter uc r \<longleftrightarrow> is_lower r \<or> is_upper r) \<and> (uc_digit uc r \<longleftrightarrow> is_digit r) \<and>
        \<not> uc_mark uc r \<and> (uc_number uc r \<longleftrightarrow> is_digit r) \<and> \<not> uc_format uc r \<and>
        uc_lower uc r = (if is_upper r then r + 32 else r))"

text \<open>A concrete table that knows only ASCII, for evaluating the model.\<close>

definition ascii_unicode :: unicode where
  "ascii_unicode = \<lparr>uc_letter = (\<lambda>r. is_lower r \<or> is_upper r), uc_digit = is_digit,
     uc_mark = (\<lambda>_. False), uc_number = is_digit, uc_format = (\<lambda>_. False),
     uc_lower = (\<lambda>r. if is_upper r then r + 32 else r)\<rparr>"

lemma ascii_unicode_ok: "unicode_ascii ascii_unicode"
  by (simp add: unicode_ascii_def ascii_unicode_def)

text \<open>\<open>strings.ToLower\<close>: bytewise on ASCII, rune by rune otherwise.\<close>

definition to_lower :: "unicode \<Rightarrow> string \<Rightarrow> string" where
  "to_lower uc s =
     (if \<forall>c \<in> set s. byte c < (128 :: nat) then map ascii_lower s
      else concat (map (encode_rune \<circ> uc_lower uc) (runes s)))"

lemma to_lower_ascii: "\<forall>c \<in> set s. byte c < (128 :: nat) \<Longrightarrow> to_lower uc s = map ascii_lower s"
  by (simp add: to_lower_def)

definition contains :: "string \<Rightarrow> string \<Rightarrow> bool" where
  "contains s p \<longleftrightarrow> list_ex (\<lambda>i. take (length p) (drop i s) = p) [0..<Suc (length s)]"

definition has_prefix :: "string \<Rightarrow> string \<Rightarrow> bool" where
  "has_prefix s p \<longleftrightarrow> take (length p) s = p"

lemma has_prefix_append [simp]: "has_prefix (p @ s) p"
  by (simp add: has_prefix_def)

section \<open>Hexadecimal\<close>

definition hex_digit :: "nat \<Rightarrow> char" where
  "hex_digit n = char_of (if n < 10 then 48 + n else 87 + n)"

definition hex_value :: "char \<Rightarrow> nat option" where
  "hex_value c =
     (let b = byte c in
      if 48 \<le> b \<and> b \<le> 57 then Some (b - 48)
      else if 97 \<le> b \<and> b \<le> 102 then Some (b - 87)
      else if 65 \<le> b \<and> b \<le> 70 then Some (b - 55) else None)"

definition hex_encode :: "string \<Rightarrow> string" where
  "hex_encode s = concat (map (\<lambda>c. [hex_digit (byte c div 16), hex_digit (byte c mod 16)]) s)"

fun hex_decode :: "string \<Rightarrow> string option" where
  "hex_decode [] = Some []"
| "hex_decode [_] = None"
| "hex_decode (a # b # s) =
     (case (hex_value a, hex_value b, hex_decode s) of
        (Some x, Some y, Some r) \<Rightarrow> Some (char_of (x * 16 + y) # r)
      | _ \<Rightarrow> None)"

definition is_hex :: "char \<Rightarrow> bool" where
  "is_hex c \<longleftrightarrow> hex_value c \<noteq> None"

lemma byte_hex_digit: "n < 16 \<Longrightarrow> byte (hex_digit n) = (if n < 10 then 48 + n else 87 + n)"
  by (simp add: hex_digit_def)

lemma hex_value_digit [simp]: "n < 16 \<Longrightarrow> hex_value (hex_digit n) = Some n"
  by (simp add: hex_value_def byte_hex_digit Let_def)

lemma hex_decode_encode [simp]: "hex_decode (hex_encode s) = Some s"
proof (induction s)
  case (Cons c s)
  have "byte c div 16 < (16 :: nat)" using byte_less_256 [of c] by linarith
  with Cons show ?case
    by (simp add: hex_encode_def)
qed (simp add: hex_encode_def)

lemma length_hex_encode [simp]: "length (hex_encode s) = 2 * length s"
  by (induction s) (simp_all add: hex_encode_def)

lemma hex_decode_Some_iff:
  "(\<exists>r. hex_decode s = Some r) \<longleftrightarrow> even (length s) \<and> (\<forall>c \<in> set s. is_hex c)"
  by (induction s rule: hex_decode.induct) (auto simp: is_hex_def split: option.splits)

lemma hex_decode_length: "hex_decode s = Some r \<Longrightarrow> length s = 2 * length r"
  by (induction s arbitrary: r rule: hex_decode.induct) (auto split: option.splits)

lemma is_hex_alnum: "is_hex c \<Longrightarrow> is_alnum (byte c)"
  by (auto simp: is_hex_def hex_value_def class_defs Let_def split: if_splits)

lemma is_hex_lower [simp]: "is_hex (ascii_lower c) = is_hex c"
  by (auto simp: is_hex_def hex_value_def byte_ascii_lower class_defs Let_def)

end
