(* ===== verification/Ident.thy ===== *)
theory Ident
  imports GoString "HOL-Library.Word"
begin

unbundle bit_operations_syntax

text \<open>
  Identifiers, handles and accounts: \<open>internal/app/id.go\<close> and \<open>internal/app/model.go\<close>, with the
  identifier checks of \<open>internal/app/generation_persona.go\<close>.  An \<open>ID\<close> is a string; a map of
  validation messages is an association list in the order the code assigns it.
\<close>

section \<open>Identifiers\<close>

type_synonym ID = string

definition zero_uuid :: ID where
  "zero_uuid = ''00000000-0000-0000-0000-000000000000''"

text \<open>The 16 bytes that \<open>rand.Read\<close> fills are the argument of \<open>new_id\<close>.\<close>

definition new_id :: "8 word list \<Rightarrow> ID" where
  "new_id raw =
     (let v1 = raw[6 := (raw ! 6 AND 0x0f) OR 0x40];
          v2 = v1[8 := (v1 ! 8 AND 0x3f) OR 0x80];
          encoded = hex_encode (map (\<lambda>w. char_of (unat w)) v2)
      in take 8 encoded @ ''-'' @ take 4 (drop 8 encoded) @ ''-'' @ take 4 (drop 12 encoded) @ ''-'' @
         take 4 (drop 16 encoded) @ ''-'' @ drop 20 encoded)"

definition parse_id :: "string \<Rightarrow> go_error + ID" where
  "parse_id raw =
     (if length raw \<noteq> 36 \<or> raw ! 8 \<noteq> CHR ''-'' \<or> raw ! 13 \<noteq> CHR ''-'' \<or> raw ! 18 \<noteq> CHR ''-'' \<or> raw ! 23 \<noteq> CHR ''-''
      then Inl ErrInvalidID
      else let encoded = filter (\<lambda>c. c \<noteq> CHR ''-'') raw in
           if length encoded \<noteq> 32 then Inl ErrInvalidID
           else if hex_decode encoded = None then Inl ErrInvalidID
           else Inr (map ascii_lower raw))"

definition valid_generation_id :: "ID \<Rightarrow> bool" where
  "valid_generation_id i \<longleftrightarrow> parse_id i = Inr i \<and> i \<noteq> zero_uuid"

text \<open>\<open>validGenerationText\<close> and \<open>validGenerationCode\<close>: the bounded texts and codes of generation records.\<close>

definition valid_generation_text :: "string \<Rightarrow> nat \<Rightarrow> bool" where
  "valid_generation_text v n \<longleftrightarrow>
     length v \<le> n \<and> trim_space v \<noteq> [] \<and> valid_utf8 v \<and> CHR 0x00 \<notin> set v"

definition valid_generation_code :: "string \<Rightarrow> bool" where
  "valid_generation_code v \<longleftrightarrow>
     \<not> (length v < 1 \<or> length v > 64) \<and>
     (\<forall>c \<in> set (runes v). is_lower c \<or> is_digit c \<or> c = 95)"

text \<open>A text of visible ASCII characters is judged by its length alone.\<close>

lemma visible_text:
  assumes "\<forall>c \<in> set v. 32 < byte c \<and> byte c < (127 :: nat)"
  shows "valid_generation_text v n \<longleftrightarrow> v \<noteq> [] \<and> length v \<le> n"
proof -
  have "trim_space v = v" using assms by (rule trim_space_ascii)
  moreover have "valid_utf8 v" using assms by (intro ascii_valid) force
  moreover have "CHR 0x00 \<notin> set v" using assms by force
  ultimately show ?thesis by (auto simp: valid_generation_text_def)
qed

subsection \<open>The shape of an identifier\<close>

text \<open>The five groups of hexadecimal digits between the four hyphens.\<close>

definition uuid_groups :: "string \<Rightarrow> string list" where
  "uuid_groups s = [take 8 s, take 4 (drop 9 s), take 4 (drop 14 s), take 4 (drop 19 s), drop 24 s]"

definition uuid_shape :: "string \<Rightarrow> bool" where
  "uuid_shape s \<longleftrightarrow> length s = 36 \<and> s ! 8 = CHR ''-'' \<and> s ! 13 = CHR ''-'' \<and> s ! 18 = CHR ''-'' \<and>
     s ! 23 = CHR ''-'' \<and> (\<forall>g \<in> set (uuid_groups s). \<forall>c \<in> set g. is_hex c)"

lemma dash_not_hex [simp]: "\<not> is_hex CHR ''-''"
  by (simp add: is_hex_def hex_value_def)

lemma hex_decode_None_iff: "hex_decode s = None \<longleftrightarrow> odd (length s) \<or> (\<exists>c \<in> set s. \<not> is_hex c)"
  using hex_decode_Some_iff [of s] by auto


lemma uuid_split:
  assumes "length s = 36"
  shows "s = take 8 s @ s ! 8 # take 4 (drop 9 s) @ s ! 13 # take 4 (drop 14 s) @ s ! 18 #
             take 4 (drop 19 s) @ s ! 23 # drop 24 s"
  using drop_chunk [of 0 8 s] drop_chunk [of 9 4 s] drop_chunk [of 14 4 s] drop_chunk [of 19 4 s] assms
  by simp

lemma uuid_shape_parts:
  assumes "length a = 8" "length b = 4" "length c = 4" "length d = 4" "length e = 12"
  shows "uuid_shape (a @ CHR ''-'' # b @ CHR ''-'' # c @ CHR ''-'' # d @ CHR ''-'' # e) \<longleftrightarrow>
    (\<forall>x \<in> set (a @ b @ c @ d @ e). is_hex x)"
  using assms by (auto simp: uuid_shape_def uuid_groups_def nth_append)

lemma parse_id_parts:
  assumes len: "length a = 8" "length b = 4" "length c = 4" "length d = 4" "length e = 12"
    and s: "s = a @ CHR ''-'' # b @ CHR ''-'' # c @ CHR ''-'' # d @ CHR ''-'' # e"
  shows "parse_id s = (if uuid_shape s then Inr (map ascii_lower s) else Inl ErrInvalidID)"
proof -
  let ?P = "\<lambda>x. x \<noteq> CHR ''-''" and ?x = "a @ b @ c @ d @ e"
  have enc: "filter ?P s = filter ?P ?x" by (simp add: s)
  have "length ?x = 32" using len by simp
  then have full: "length (filter ?P ?x) = 32 \<longleftrightarrow> (\<forall>x \<in> set ?x. ?P x)"
    using filter_full [of ?P ?x] by (simp only:)
  have shape: "uuid_shape s \<longleftrightarrow> (\<forall>x \<in> set ?x. is_hex x)"
    unfolding s using len by (rule uuid_shape_parts)
  have dec: "hex_decode (filter ?P ?x) = None \<longleftrightarrow> (\<exists>x \<in> set ?x. \<not> is_hex x)"
    if "length (filter ?P ?x) = 32"
  proof -
    have "filter ?P ?x = ?x" using that full by (intro filter_True) blast
    then show ?thesis using that by (simp only: hex_decode_None_iff) simp
  qed
  have pos: "length s = 36" "s ! 8 = CHR ''-''" "s ! 13 = CHR ''-''" "s ! 18 = CHR ''-''"
    "s ! 23 = CHR ''-''"
    using len by (simp_all add: s nth_append)
  show ?thesis
  proof (cases "uuid_shape s")
    case True
    then have "\<forall>x \<in> set ?x. ?P x" using shape dash_not_hex by blast
    with full have "length (filter ?P ?x) = 32" by blast
    with dec True shape pos enc show ?thesis by (simp add: parse_id_def Let_def del: filter_append)
  next
    case False
    with dec shape pos enc show ?thesis by (simp add: parse_id_def Let_def del: filter_append)
  qed
qed

text \<open>The two loops and the two length checks of \<open>ParseID\<close> accept exactly the canonical shape.\<close>

lemma parse_id_shape:
  "parse_id s = (if uuid_shape s then Inr (map ascii_lower s) else Inl ErrInvalidID)"
proof (cases "length s = 36 \<and> s ! 8 = CHR ''-'' \<and> s ! 13 = CHR ''-'' \<and> s ! 18 = CHR ''-'' \<and> s ! 23 = CHR ''-''")
  case True
  then show ?thesis
    using uuid_split [of s]
      parse_id_parts [of "take 8 s" "take 4 (drop 9 s)" "take 4 (drop 14 s)" "take 4 (drop 19 s)" "drop 24 s" s]
    by simp
next
  case False
  then show ?thesis by (auto simp: parse_id_def uuid_shape_def)
qed

lemma ascii_lower_dash [simp]: "ascii_lower c = CHR ''-'' \<longleftrightarrow> c = CHR ''-''"
proof -
  have "(ascii_lower c = CHR ''-'') = (byte (ascii_lower c) = byte CHR ''-'')"
    by (simp only: of_char_eq_iff)
  also have "\<dots> = (byte c = byte CHR ''-'')" by (simp add: byte_ascii_lower class_defs)
  finally show ?thesis by (simp only: of_char_eq_iff)
qed

lemma uuid_shape_lower [simp]: "uuid_shape (map ascii_lower s) = uuid_shape s"
  by (cases "length s = 36") (simp_all add: uuid_shape_def uuid_groups_def take_map drop_map)

lemma valid_generation_id_iff:
  "valid_generation_id i \<longleftrightarrow> uuid_shape i \<and> map ascii_lower i = i \<and> i \<noteq> zero_uuid"
  by (auto simp: valid_generation_id_def parse_id_shape)

subsection \<open>Fresh identifiers\<close>

lemma hex_encode_digits:
  "c \<in> set (hex_encode s) \<Longrightarrow> is_hex c \<and> ascii_lower c = c"
proof -
  have *: "is_hex (hex_digit n) \<and> ascii_lower (hex_digit n) = hex_digit n" if "n < 16" for n
    using that by (simp add: is_hex_def ascii_lower_def byte_hex_digit class_defs)
  have "byte c div 16 < (16 :: nat)" for c using byte_less_256 [of c] by linarith
  then show "c \<in> set (hex_encode s) \<Longrightarrow> is_hex c \<and> ascii_lower c = c"
    by (auto simp: hex_encode_def *)
qed

lemma nth_hex_encode_even:
  "i < length s \<Longrightarrow> hex_encode s ! (2 * i) = hex_digit (byte (s ! i) div 16)"
proof (induction s arbitrary: i)
  case (Cons c s)
  then show ?case by (cases i) (simp_all add: hex_encode_def)
qed simp

lemma hex_digit_4: "hex_digit 4 = CHR ''4''"
  by code_simp

text \<open>
  C7: a fresh identifier is canonical.  Whatever 16 random bytes it is made from, \<open>NewID\<close> passes
  \<open>ParseID\<close> unchanged, is never the reserved zero identifier, and carries the version 4 nibble.
\<close>

theorem new_id_valid:
  assumes "length raw = 16"
  shows "parse_id (new_id raw) = Inr (new_id raw) \<and> valid_generation_id (new_id raw) \<and>
    new_id raw ! 14 = CHR ''4''"
proof -
  define v where "v = (raw[6 := (raw ! 6 AND 0x0f) OR 0x40])[8 := (raw[6 := (raw ! 6 AND 0x0f) OR 0x40] ! 8 AND 0x3f) OR 0x80]"
  define e where "e = hex_encode (map (\<lambda>w. char_of (unat w)) v)"
  have len: "length e = 32" using assms by (simp add: e_def v_def)
  have eq: "new_id raw = take 8 e @ CHR ''-'' # take 4 (drop 8 e) @ CHR ''-'' # take 4 (drop 12 e) @
      CHR ''-'' # take 4 (drop 16 e) @ CHR ''-'' # drop 20 e"
    by (simp add: new_id_def Let_def e_def v_def)
  have dig: "is_hex c \<and> ascii_lower c = c" if "c \<in> set e" for c
    using that by (simp add: e_def hex_encode_digits)
  have shape: "uuid_shape (new_id raw)"
    unfolding eq using len dig
    by (subst uuid_shape_parts) (auto dest: in_set_takeD in_set_dropD)
  have lower: "map ascii_lower (new_id raw) = new_id raw"
    unfolding eq using dig by (intro map_idI) (auto dest: in_set_takeD in_set_dropD)
  have "unat ((raw ! 6 AND 0x0f) OR 0x40) div 16 = unat (drop_bit 4 ((raw ! 6 AND 0x0f) OR 0x40))"
    by (simp only: unat_drop_bit_eq drop_bit_nat_def) simp
  also have "\<dots> = 4" by (simp only: drop_bit_or drop_bit_and) simp
  finally have "unat ((raw ! 6 AND 0x0f) OR 0x40) div 16 = 4" .
  then have "e ! 12 = hex_digit 4"
    using nth_hex_encode_even [of 6 "map (\<lambda>w. char_of (unat w)) v"] assms
    by (simp add: e_def v_def)
  then have four: "new_id raw ! 14 = CHR ''4''"
    using len hex_digit_4 by (simp add: eq nth_append)
  then have "new_id raw \<noteq> zero_uuid" by (auto simp: zero_uuid_def)
  with shape lower four show ?thesis by (simp add: parse_id_shape valid_generation_id_iff)
qed

theorem new_id_valid_witness:
  "valid_generation_id (new_id (replicate 16 0xff)) \<and> new_id (replicate 16 0xff) ! 14 = CHR ''4''"
  using new_id_valid [of "replicate 16 0xff"] by simp

text \<open>Parsing is idempotent and forgets nothing but letter case.\<close>

lemma parse_id_idem: "parse_id s = Inr i \<Longrightarrow> parse_id i = Inr i"
  by (auto simp: parse_id_shape comp_def split: if_splits)

lemma parse_id_case: "parse_id (map ascii_lower s) = parse_id s"
  by (simp add: parse_id_shape comp_def)

section \<open>Handles\<close>

definition handle_rune :: "nat \<Rightarrow> bool" where
  "handle_rune c \<longleftrightarrow> is_lower c \<or> is_upper c \<or> is_digit c \<or> c = 95"

definition normalize_handle :: "string \<Rightarrow> go_error + string" where
  "normalize_handle raw =
     (let value = trim_space raw in
      if length value < 3 \<or> 32 < length value then Inl ErrInvalidHandle
      else if \<exists>c \<in> set (runes value). \<not> handle_rune c then Inl ErrInvalidHandle
      else Inr (map ascii_lower value))"

lemma handle_rune_ascii: "handle_rune r \<Longrightarrow> 32 < r \<and> r < 127"
  by (auto simp: handle_rune_def class_defs)

lemma handle_runes: "(\<exists>c \<in> set (runes s). \<not> handle_rune c) \<longleftrightarrow> (\<exists>c \<in> set s. \<not> handle_rune (byte c))"
  using runes_all_ascii [of handle_rune s] handle_rune_ascii by fastforce

definition canonical_handle :: "string \<Rightarrow> bool" where
  "canonical_handle h \<longleftrightarrow> 3 \<le> length h \<and> length h \<le> 32 \<and>
     (\<forall>c \<in> set h. is_lower (byte c) \<or> is_digit (byte c) \<or> byte c = (95 :: nat))"

lemma handle_rune_lower:
  "handle_rune (byte c) \<Longrightarrow>
   is_lower (byte (ascii_lower c)) \<or> is_digit (byte (ascii_lower c)) \<or> byte (ascii_lower c) = (95 :: nat)"
  by (auto simp: handle_rune_def byte_ascii_lower class_defs)

lemma normalize_canonical: "canonical_handle h \<Longrightarrow> normalize_handle h = Inr h"
proof -
  assume h: "canonical_handle h"
  then have run: "\<forall>c \<in> set h. handle_rune (byte c)"
    by (simp add: canonical_handle_def handle_rune_def) blast
  then have "trim_space h = h" using handle_rune_ascii by (intro trim_space_ascii) blast
  moreover have "map ascii_lower h = h"
    using h by (intro map_idI) (auto simp: canonical_handle_def ascii_lower_def class_defs)
  moreover have "\<not> (\<exists>c \<in> set (runes h). \<not> handle_rune c)" using run handle_runes [of h] by blast
  moreover have "\<not> (length h < 3 \<or> 32 < length h)" using h by (simp add: canonical_handle_def)
  ultimately show ?thesis by (simp only: normalize_handle_def Let_def if_False)
qed

lemma normalize_handle_Inr:
  assumes "normalize_handle raw = Inr h"
  shows "canonical_handle h"
proof -
  let ?v = "trim_space raw"
  have h: "h = map ascii_lower ?v" and len: "3 \<le> length ?v" "length ?v \<le> 32"
    and run: "\<not> (\<exists>c \<in> set (runes ?v). \<not> handle_rune c)"
    using assms by (simp_all add: normalize_handle_def Let_def split: if_splits)
  from run have "\<forall>c \<in> set ?v. handle_rune (byte c)" using handle_runes [of ?v] by blast
  then show ?thesis using h len handle_rune_lower by (simp add: canonical_handle_def)
qed

text \<open>
  C8: a normalised handle is canonical (3 to 32 lowercase letters, digits or underscores), and
  normalising it again changes nothing, so a stored handle is a fixed point of every later lookup.
\<close>

theorem normalize_handle_canonical:
  assumes "normalize_handle raw = Inr h"
  shows "canonical_handle h \<and> normalize_handle h = Inr h"
  using normalize_handle_Inr [OF assms] normalize_canonical by blast

theorem normalize_handle_canonical_witness:
  "normalize_handle '' Go_Lang '' = Inr ''go_lang'' \<and> canonical_handle ''go_lang''"
proof -
  have "normalize_handle '' Go_Lang '' = Inr ''go_lang''" by code_simp
  then show ?thesis using normalize_handle_canonical [of "'' Go_Lang ''" "''go_lang''"] by simp
qed

section \<open>Accounts\<close>

datatype AccountType = AccountHuman | AccountAgent | AccountTypeOther string

record Account =
  acc_ID :: ID
  acc_Type :: AccountType
  Handle :: string
  DisplayName :: string
  Initials :: string
  Bio :: string
  RoleLabel :: string
  StatusText :: string
  Specialty :: string
  AppearanceKey :: "string option"
  VerifiedAt :: "time option"
  acc_CreatedAt :: time
  acc_UpdatedAt :: time
  DisabledAt :: "time option"

definition valid_display_name :: "string \<Rightarrow> bool" where
  "valid_display_name d \<longleftrightarrow> valid_utf8 d \<and> 1 \<le> rune_count d \<and> rune_count d \<le> 80 \<and> CHR 0x00 \<notin> set d"

definition new_account ::
  "ID \<Rightarrow> AccountType \<Rightarrow> string \<Rightarrow> string \<Rightarrow> time \<Rightarrow> go_error + Account" where
  "new_account fresh ty handle display now =
     (let d = trim_space display;
          fields =
            (if ty \<noteq> AccountHuman \<and> ty \<noteq> AccountAgent then [(''type'', ''Must be human or agent'')] else []) @
            (case normalize_handle handle of
               Inl _ \<Rightarrow> [(''handle'', ''handle must contain 3-32 ASCII letters, digits, or underscores'')]
             | Inr _ \<Rightarrow> []) @
            (if valid_display_name d then []
             else [(''display_name'', ''Must contain 1-80 Unicode code points'')])
      in if fields \<noteq> [] then Inl (ValidationError fields)
         else case normalize_handle handle of
                Inl e \<Rightarrow> Inl e
              | Inr h \<Rightarrow> Inr \<lparr>acc_ID = fresh, acc_Type = ty, Handle = h, DisplayName = d, Initials = [],
                   Bio = [], RoleLabel = [], StatusText = [], Specialty = [], AppearanceKey = None,
                   VerifiedAt = None, acc_CreatedAt = now, acc_UpdatedAt = now, DisabledAt = None\<rparr>)"

lemma new_account_ok:
  "new_account fresh ty handle display now = Inr a \<Longrightarrow>
     canonical_handle (Handle a) \<and> valid_display_name (DisplayName a) \<and>
     acc_Type a \<in> {AccountHuman, AccountAgent} \<and> acc_ID a = fresh \<and> DisabledAt a = None"
  by (auto simp: new_account_def Let_def split: if_splits sum.splits
           dest: normalize_handle_Inr)

section \<open>Concrete identifiers\<close>

text \<open>Identifiers for evaluating the model on examples.\<close>

definition sample_id :: "char \<Rightarrow> ID" where
  "sample_id c = ''00000000-0000-4000-8000-00000000000'' @ [c]"

lemma sample_id_valid [simp]: "is_digit (byte c) \<Longrightarrow> valid_generation_id (sample_id c)"
  by (simp add: valid_generation_id_iff uuid_shape_def uuid_groups_def sample_id_def zero_uuid_def
      is_hex_def hex_value_def ascii_lower_def class_defs)

lemma sample_id_eq [simp]: "sample_id c = sample_id d \<longleftrightarrow> c = d"
  by (simp add: sample_id_def)

end
