(* ===== verification/GoTime.thy ===== *)
theory GoTime
  imports GoString
begin

text \<open>
  The part of Go's \<open>time\<close> package the program uses.  An instant is the number of nanoseconds since
  the zero instant 0001-01-01T00:00:00Z, so its UTC calendar date is that of the day number
  \<open>t div 86400 s\<close>.  \<open>Format\<close> and \<open>Parse\<close> are written out for the layouts of the program
  (\<open>time.DateOnly\<close> and \<open>15:04\<close>).  A location is a parameter: the time zone database gives for an
  instant the offset in force and the instant at which it ends.
\<close>

section \<open>Decimal numbers\<close>

fun dec_digits :: "nat \<Rightarrow> string" where
  "dec_digits n = (if n < 10 then [char_of (48 + n)] else dec_digits (n div 10) @ [char_of (48 + n mod 10)])"

declare dec_digits.simps [simp del]

text \<open>\<open>appendInt\<close> of the time package: zero-padded to a width, with the sign in front.\<close>

definition pad_left :: "nat \<Rightarrow> string \<Rightarrow> string" where
  "pad_left w s = replicate (w - length s) CHR ''0'' @ s"

definition append_int :: "int \<Rightarrow> nat \<Rightarrow> string" where
  "append_int x w = (if x < 0 then ''-'' else []) @ pad_left w (dec_digits (nat \<bar>x\<bar>))"

definition digits_val :: "string \<Rightarrow> int option" where
  "digits_val s = (if \<forall>c \<in> set s. is_digit (byte c)
     then Some (foldl (\<lambda>n c. 10 * n + (int (byte c) - 48)) 0 s) else None)"

section \<open>The calendar\<close>

definition day_ns :: duration where "day_ns = 86400000000000"

definition leap_year :: "int \<Rightarrow> bool" where
  "leap_year y \<longleftrightarrow> y mod 4 = 0 \<and> (y mod 100 \<noteq> 0 \<or> y mod 400 = 0)"

definition days_before_year :: "int \<Rightarrow> int" where
  "days_before_year y = 365 * (y - 1) + (y - 1) div 4 - (y - 1) div 100 + (y - 1) div 400"

definition days_in :: "int \<Rightarrow> int \<Rightarrow> int" where
  "days_in m y = (if m = 2 then if leap_year y then 29 else 28
                  else if m \<in> {4, 6, 9, 11} then 30 else 31)"

text \<open>Cumulative lengths: \<open>days_before_month leap m\<close> days precede month \<open>m\<close>.\<close>

definition days_before_month :: "bool \<Rightarrow> int \<Rightarrow> int" where
  "days_before_month leap m =
     (let n = [0, 31, 59, 90, 120, 151, 181, 212, 243, 273, 304, 334] ! nat (m - 1)
      in if leap \<and> 2 < m then n + 1 else n)"

definition month_of_yday :: "bool \<Rightarrow> int \<Rightarrow> int" where
  "month_of_yday leap d =
     (if d < days_before_month leap 2 then 1 else if d < days_before_month leap 3 then 2
      else if d < days_before_month leap 4 then 3 else if d < days_before_month leap 5 then 4
      else if d < days_before_month leap 6 then 5 else if d < days_before_month leap 7 then 6
      else if d < days_before_month leap 8 then 7 else if d < days_before_month leap 9 then 8
      else if d < days_before_month leap 10 then 9 else if d < days_before_month leap 11 then 10
      else if d < days_before_month leap 12 then 11 else 12)"

text \<open>The year of a day number, by 400-, 100-, 4- and 1-year cycles.\<close>

definition year_of_day :: "int \<Rightarrow> int \<times> int" where
  "year_of_day d =
     (let r = d mod 146097; n100 = min 3 (r div 36524); r1 = r - 36524 * n100;
          n4 = r1 div 1461; r2 = r1 mod 1461; n1 = min 3 (r2 div 365)
      in (400 * (d div 146097) + 100 * n100 + 4 * n4 + n1 + 1, r2 - 365 * n1))"

definition date_of_day :: "int \<Rightarrow> int \<times> int \<times> int" where
  "date_of_day d =
     (let (y, yd) = year_of_day d; m = month_of_yday (leap_year y) yd
      in (y, m, yd - days_before_month (leap_year y) m + 1))"

definition day_of_date :: "int \<Rightarrow> int \<Rightarrow> int \<Rightarrow> int" where
  "day_of_date y m d = days_before_year y + days_before_month (leap_year y) m + (d - 1)"

definition valid_date :: "int \<Rightarrow> int \<Rightarrow> int \<Rightarrow> bool" where
  "valid_date y m d \<longleftrightarrow> 1 \<le> m \<and> m \<le> 12 \<and> 1 \<le> d \<and> d \<le> days_in m y"

definition utc_day :: "time \<Rightarrow> int" where "utc_day t = t div day_ns"

definition utc_year :: "time \<Rightarrow> int" where "utc_year t = fst (date_of_day (utc_day t))"

subsection \<open>Day numbers and dates are inverse\<close>

definition year_len :: "int \<Rightarrow> int" where "year_len y = (if leap_year y then 366 else 365)"

lemma days_before_year_cycle:
  assumes "0 \<le> b" "b \<le> 3" "0 \<le> c" "c \<le> 24" "0 \<le> e" "e \<le> 3"
  shows "days_before_year (400 * a + 100 * b + 4 * c + e + 1) = 146097 * a + 36524 * b + 1461 * c + 365 * e"
proof -
  let ?x = "400 * a + 100 * b + 4 * c + e"
  have "?x div 4 = 100 * a + 25 * b + c"
    by (rule int_div_pos_eq [where r = e]) (use assms in auto)
  moreover have "?x div 100 = 4 * a + b"
    by (rule int_div_pos_eq [where r = "4 * c + e"]) (use assms in auto)
  moreover have "?x div 400 = a"
    by (rule int_div_pos_eq [where r = "100 * b + 4 * c + e"]) (use assms in auto)
  ultimately show ?thesis by (simp add: days_before_year_def)
qed

lemma leap_year_cycle:
  assumes "0 \<le> b" "b \<le> 3" "0 \<le> c" "c \<le> 24" "0 \<le> e" "e \<le> 3"
  shows "leap_year (400 * a + 100 * b + 4 * c + e + 1) \<longleftrightarrow> e = 3 \<and> (c \<noteq> 24 \<or> b = 3)"
proof -
  let ?x = "400 * a + 100 * b + 4 * c + e + 1"
  have "?x mod 4 = 0 \<longleftrightarrow> e = 3"
  proof (cases "e = 3")
    case True
    then have "?x mod 4 = 0" by (intro int_mod_pos_eq [where q = "100 * a + 25 * b + c + 1"]) auto
    with True show ?thesis by simp
  next
    case False
    then have "?x mod 4 = e + 1"
      using assms by (intro int_mod_pos_eq [where q = "100 * a + 25 * b + c"]) auto
    with False assms show ?thesis by auto
  qed
  moreover have "?x mod 100 = 0 \<longleftrightarrow> e = 3 \<and> c = 24"
  proof (cases "e = 3 \<and> c = 24")
    case True
    then have "?x mod 100 = 0" by (intro int_mod_pos_eq [where q = "4 * a + b + 1"]) auto
    with True show ?thesis by simp
  next
    case False
    then have "?x mod 100 = 4 * c + e + 1"
      using assms by (intro int_mod_pos_eq [where q = "4 * a + b"]) auto
    with False assms show ?thesis by auto
  qed
  moreover have "?x mod 400 = 0 \<longleftrightarrow> e = 3 \<and> c = 24 \<and> b = 3"
  proof (cases "e = 3 \<and> c = 24 \<and> b = 3")
    case True
    then have "?x mod 400 = 0" by (intro int_mod_pos_eq [where q = "a + 1"]) auto
    with True show ?thesis by simp
  next
    case False
    then have "?x mod 400 = 100 * b + 4 * c + e + 1"
      using assms by (intro int_mod_pos_eq [where q = a]) auto
    with False assms show ?thesis by auto
  qed
  ultimately show ?thesis by (auto simp: leap_year_def)
qed

lemma year_of_day_sound:
  assumes "year_of_day d = (y, yd)"
  shows "d = days_before_year y + yd \<and> 0 \<le> yd \<and> yd < year_len y"
proof -
  define r where "r = d mod 146097"
  define b where "b = min 3 (r div 36524)"
  define r1 where "r1 = r - 36524 * b"
  define c where "c = r1 div 1461"
  define r2 where "r2 = r1 mod 1461"
  define e where "e = min 3 (r2 div 365)"
  define a where "a = d div 146097"
  have r: "0 \<le> r" "r < 146097" "d = 146097 * a + r"
    using div_mult_mod_eq [of d 146097] by (simp_all add: r_def a_def mult.commute)
  have b: "0 \<le> b" "b \<le> 3" using r by (auto simp: b_def)
  have r1: "0 \<le> r1" "r1 \<le> 36524" "b < 3 \<longrightarrow> r1 < 36524"
    using r div_mult_mod_eq [of r 36524] pos_mod_bound [of 36524 r] pos_mod_sign [of 36524 r]
    unfolding r1_def b_def by (simp_all only: min_def split: if_splits) linarith+
  have c: "0 \<le> c" "c \<le> 24" "r1 = 1461 * c + r2" "0 \<le> r2" "r2 < 1461"
    using r1 by (auto simp: c_def r2_def)
  have e: "0 \<le> e" "e \<le> 3" "0 \<le> r2 - 365 * e" "r2 - 365 * e \<le> 365" "e < 3 \<longrightarrow> r2 - 365 * e < 365"
    using c(4,5) div_mult_mod_eq [of r2 365] pos_mod_bound [of 365 r2] pos_mod_sign [of 365 r2]
    unfolding e_def by (simp_all only: min_def split: if_splits) linarith+
  have y: "y = 400 * a + 100 * b + 4 * c + e + 1" "yd = r2 - 365 * e"
    using assms by (simp_all add: year_of_day_def Let_def r_def b_def r1_def c_def r2_def e_def a_def)
  have dby: "days_before_year y = 146097 * a + 36524 * b + 1461 * c + 365 * e"
    unfolding y by (rule days_before_year_cycle) (use b c e in auto)
  have ly: "leap_year y \<longleftrightarrow> e = 3 \<and> (c \<noteq> 24 \<or> b = 3)"
    unfolding y by (rule leap_year_cycle) (use b c e in auto)
  have "d = days_before_year y + yd"
    using dby y c(3) r(3) r1_def by linarith
  moreover have "yd < year_len y"
    using ly e y(2) c r1 b(2) unfolding year_len_def by (cases "b < 3 \<or> b = 3"; cases "e = 3"; cases "c = 24"; cases "b = 3") auto
  ultimately show ?thesis using e y by simp
qed

lemma div_pred:
  fixes y k :: int
  assumes "1 < k"
  shows "y div k = (y - 1) div k + (if y mod k = 0 then 1 else 0)"
proof (cases "y mod k = 0")
  case True
  then have "(y - 1) div k = y div k - 1"
    using assms div_mult_mod_eq [of y k]
    by (intro int_div_pos_eq [where r = "k - 1"]) (auto simp: algebra_simps)
  with True show ?thesis by simp
next
  case False
  then have r: "0 \<le> y mod k - 1" "y mod k - 1 < k"
    using assms pos_mod_bound [of k y] pos_mod_sign [of k y] by linarith+
  have "y - 1 = k * (y div k) + (y mod k - 1)"
    using div_mult_mod_eq [of y k] by (simp add: mult.commute)
  from int_div_pos_eq [OF this r] have "(y - 1) div k = y div k" .
  with False show ?thesis by simp
qed

lemma cycle_count:
  fixes x y4 y100 y400 z4 z100 z400 :: int
  assumes "z4 = y4 + (if p then 1 else 0)" "z100 = y100 + (if q then 1 else 0)"
    "z400 = y400 + (if r then 1 else 0)" "q \<longrightarrow> p" "r \<longrightarrow> q"
  shows "365 * x + z4 - z100 + z400
    = 365 * (x - 1) + y4 - y100 + y400 + (if p \<and> (\<not> q \<or> r) then 366 else 365)"
  using assms by (cases p; cases q; cases r) simp_all

lemma days_before_year_Suc: "days_before_year (y + 1) = days_before_year y + year_len y"
proof -
  have "y mod 100 = 0 \<longrightarrow> y mod 4 = 0" "y mod 400 = 0 \<longrightarrow> y mod 100 = 0"
    by (auto simp: mod_eq_0_iff_dvd intro: dvd_trans [of 4 100] dvd_trans [of 100 400])
  then show ?thesis
    unfolding days_before_year_def year_len_def leap_year_def add_diff_cancel_right'
    by (intro cycle_count div_pred) auto
qed

lemma days_before_year_mono: "x \<le> y \<Longrightarrow> days_before_year x + 365 * (y - x) \<le> days_before_year y"
proof (induction y rule: int_ge_induct)
  case (step i)
  then show ?case using days_before_year_Suc [of i] by (auto simp: year_len_def split: if_splits)
qed simp

lemma year_of_day_unique:
  assumes "0 \<le> yd" "yd < year_len y"
  shows "year_of_day (days_before_year y + yd) = (y, yd)"
proof -
  obtain y' yd' where eq: "year_of_day (days_before_year y + yd) = (y', yd')" by force
  note s = year_of_day_sound [OF eq]
  have "y' = y"
  proof (rule ccontr)
    assume "y' \<noteq> y"
    then consider "y + 1 \<le> y'" | "y' + 1 \<le> y" by linarith
    then show False
      using s assms days_before_year_mono [of "y + 1" y'] days_before_year_mono [of "y' + 1" y]
        days_before_year_Suc [of y] days_before_year_Suc [of y']
      by cases auto
  qed
  with s eq show ?thesis by simp
qed

lemma days_before_month_table [simp]:
  "days_before_month l 1 = 0" "days_before_month l 2 = 31"
  "days_before_month l 3 = (if l then 60 else 59)" "days_before_month l 4 = (if l then 91 else 90)"
  "days_before_month l 5 = (if l then 121 else 120)" "days_before_month l 6 = (if l then 152 else 151)"
  "days_before_month l 7 = (if l then 182 else 181)" "days_before_month l 8 = (if l then 213 else 212)"
  "days_before_month l 9 = (if l then 244 else 243)" "days_before_month l 10 = (if l then 274 else 273)"
  "days_before_month l 11 = (if l then 305 else 304)" "days_before_month l 12 = (if l then 335 else 334)"
  by (simp_all add: days_before_month_def eval_nat_numeral)

lemma month_of_yday_sound:
  assumes "0 \<le> d" "d < year_len y"
  shows "1 \<le> month_of_yday (leap_year y) d \<and> month_of_yday (leap_year y) d \<le> 12 \<and>
    days_before_month (leap_year y) (month_of_yday (leap_year y) d) \<le> d \<and>
    d < days_before_month (leap_year y) (month_of_yday (leap_year y) d) + days_in (month_of_yday (leap_year y) d) y"
  using assms
  by (cases "leap_year y")
     (auto simp: month_of_yday_def days_in_def year_len_def)

lemma month_cases:
  "1 \<le> m \<Longrightarrow> m \<le> 12 \<Longrightarrow> m \<in> {1, 2, 3, 4, 5, 6, 7, 8, 9, 10, 11, 12 :: int}"
  by (simp only: insert_iff empty_iff) presburger

lemma month_of_yday_unique:
  assumes "valid_date y m d"
  shows "month_of_yday (leap_year y) (days_before_month (leap_year y) m + (d - 1)) = m \<and>
    0 \<le> days_before_month (leap_year y) m \<and>
    days_before_month (leap_year y) m + (d - 1) < year_len y"
proof -
  have m: "m \<in> {1, 2, 3, 4, 5, 6, 7, 8, 9, 10, 11, 12}" and d: "1 \<le> d" "d \<le> days_in m y"
    using assms month_cases [of m] by (simp_all add: valid_date_def)
  from m show ?thesis
    apply (simp only: insert_iff empty_iff)
    apply (elim disjE)
    using d apply (simp_all add: month_of_yday_def days_in_def year_len_def split: if_splits)
    done
qed

lemma date_of_day_sound:
  assumes "date_of_day n = (y, m, d)"
  shows "valid_date y m d \<and> day_of_date y m d = n"
proof -
  obtain yd where yd: "year_of_day n = (y, yd)" "m = month_of_yday (leap_year y) yd"
    "d = yd - days_before_month (leap_year y) m + 1"
    using assms by (auto simp: date_of_day_def Let_def split: prod.splits)
  note s = year_of_day_sound [OF yd(1)]
  with month_of_yday_sound [of yd y] yd show ?thesis
    by (auto simp: valid_date_def day_of_date_def)
qed

lemma date_of_day_of_date:
  assumes "valid_date y m d"
  shows "date_of_day (day_of_date y m d) = (y, m, d)"
proof -
  let ?k = "days_before_month (leap_year y) m + (d - 1)"
  have "year_of_day (days_before_year y + ?k) = (y, ?k)"
    using month_of_yday_unique [OF assms] assms
    by (intro year_of_day_unique) (auto simp: valid_date_def)
  with month_of_yday_unique [OF assms] show ?thesis
    by (simp add: date_of_day_def day_of_date_def Let_def add.assoc)
qed

section \<open>Layouts\<close>

definition format_day :: "int \<Rightarrow> string" where
  "format_day n = (let (y, m, d) = date_of_day n in append_int y 4 @ ''-'' @ append_int m 2 @ ''-'' @ append_int d 2)"

text \<open>\<open>t.UTC().Format(time.DateOnly)\<close>\<close>

definition format_date :: "time \<Rightarrow> string" where
  "format_date t = format_day (utc_day t)"

text \<open>\<open>time.Parse(time.DateOnly, s)\<close>: the instant of midnight UTC.\<close>

definition parse_date :: "string \<Rightarrow> time option" where
  "parse_date s =
     (if length s \<noteq> 10 \<or> s ! 4 \<noteq> CHR ''-'' \<or> s ! 7 \<noteq> CHR ''-'' then None
      else case (digits_val (take 4 s), digits_val (take 2 (drop 5 s)), digits_val (drop 8 s)) of
        (Some y, Some m, Some d) \<Rightarrow> if valid_date y m d then Some (day_of_date y m d * day_ns) else None
      | _ \<Rightarrow> None)"

definition valid_generation_date :: "string \<Rightarrow> bool" where
  "valid_generation_date v =
     (case parse_date v of None \<Rightarrow> False | Some t \<Rightarrow> format_date t = v \<and> 0 < utc_year t)"

definition valid_outcome_time :: "time \<Rightarrow> bool" where
  "valid_outcome_time t \<longleftrightarrow> t \<noteq> 0 \<and> 1 \<le> utc_year t \<and> utc_year t \<le> 9999"

text \<open>\<open>GenerationInstant\<close>: the microsecond precision of the store.\<close>

definition generation_instant :: "time \<Rightarrow> time" where
  "generation_instant t = t - t mod microsecond"

subsection \<open>Formatting and parsing are inverse\<close>

definition dec_value :: "string \<Rightarrow> int" where
  "dec_value s = foldl (\<lambda>n c. 10 * n + (int (byte c) - 48)) 0 s"

lemma digits_val_iff:
  "digits_val s = Some n \<longleftrightarrow> (\<forall>c \<in> set s. is_digit (byte c)) \<and> dec_value s = n"
  by (auto simp: digits_val_def dec_value_def)

lemma dec_value_snoc [simp]: "dec_value (s @ [c]) = 10 * dec_value s + (int (byte c) - 48)"
  by (simp add: dec_value_def)

lemma dec_digits_digit: "c \<in> set (dec_digits n) \<Longrightarrow> is_digit (byte c)"
proof (induction n rule: less_induct)
  case (less n)
  have m: "n mod 10 < 10" by simp
  show ?case
  proof (cases "n < 10")
    case True
    with less.prems show ?thesis by (simp add: dec_digits.simps [of n] is_digit_def)
  next
    case False
    then have "n div 10 < n" by simp
    with False m less.prems less.IH [of "n div 10"] show ?thesis
      by (auto simp: dec_digits.simps [of n] is_digit_def)
  qed
qed

lemma dec_value_digits [simp]: "dec_value (dec_digits n) = int n"
proof (induction n rule: less_induct)
  case (less n)
  show ?case
  proof (cases "n < 10")
    case True
    then show ?thesis by (subst dec_digits.simps) (simp add: dec_value_def)
  next
    case False
    have "int (n mod 10) = int n - 10 * int (n div 10)" "n mod 10 < 10" by presburger+
    with False less [of "n div 10"] show ?thesis
      by (simp add: dec_digits.simps [of n])
  qed
qed

lemma length_dec_digits: "n < 10 ^ Suc w \<Longrightarrow> length (dec_digits n) \<le> Suc w"
proof (induction w arbitrary: n)
  case 0
  then show ?case by (subst dec_digits.simps) simp
next
  case (Suc w)
  then have "n div 10 < 10 ^ Suc w" by (simp add: less_mult_imp_div_less)
  with Suc.IH [of "n div 10"] show ?case by (subst dec_digits.simps) simp
qed

lemma dec_value_zeros [simp]: "dec_value (replicate k CHR ''0'' @ s) = dec_value s"
proof (induction s rule: rev_induct)
  case Nil
  show ?case by (induction k) (simp_all add: dec_value_def)
next
  case (snoc c s)
  then show ?case by (simp flip: append_assoc)
qed

lemma append_int_digits:
  assumes "0 \<le> x" "x < 10 ^ Suc w"
  shows "length (append_int x (Suc w)) = Suc w" "digits_val (append_int x (Suc w)) = Some x"
proof -
  have "nat x < 10 ^ Suc w" using assms by (simp add: nat_less_iff)
  from length_dec_digits [OF this] show "length (append_int x (Suc w)) = Suc w"
    using assms by (simp add: append_int_def pad_left_def)
  show "digits_val (append_int x (Suc w)) = Some x"
    using assms dec_digits_digit [of _ "nat x"]
    by (auto simp: append_int_def pad_left_def digits_val_iff is_digit_def)
qed

lemma append_int_2: "0 \<le> x \<Longrightarrow> x < 100 \<Longrightarrow> length (append_int x 2) = 2 \<and> digits_val (append_int x 2) = Some x"
  using append_int_digits [of x 1] by (simp add: numeral_2_eq_2)

lemma append_int_4: "0 \<le> x \<Longrightarrow> x < 10000 \<Longrightarrow> length (append_int x 4) = 4 \<and> digits_val (append_int x 4) = Some x"
  using append_int_digits [of x 3] by (simp add: eval_nat_numeral)

lemma valid_date_bounds: "valid_date y m d \<Longrightarrow> 1 \<le> m \<and> m < 100 \<and> 1 \<le> d \<and> d < 100"
  by (auto simp: valid_date_def days_in_def split: if_splits)

lemma utc_day_midnight [simp]: "utc_day (n * day_ns) = n"
  by (simp add: utc_day_def day_ns_def)

lemma parse_format_day:
  assumes "date_of_day n = (y, m, d)" "0 \<le> y" "y \<le> 9999"
  shows "parse_date (format_day n) = Some (n * day_ns)"
proof -
  note v = date_of_day_sound [OF assms(1)]
  with valid_date_bounds have b: "1 \<le> m" "m < 100" "1 \<le> d" "d < 100" by blast+
  have y: "length (append_int y 4) = 4" "digits_val (append_int y 4) = Some y"
    using append_int_4 [of y] assms by auto
  have m: "length (append_int m 2) = 2" "digits_val (append_int m 2) = Some m"
    using append_int_2 [of m] b by auto
  have d: "length (append_int d 2) = 2" "digits_val (append_int d 2) = Some d"
    using append_int_2 [of d] b by auto
  show ?thesis
    using v y m d by (simp add: parse_date_def format_day_def assms(1) nth_append)
qed

lemma valid_format_day:
  assumes "date_of_day n = (y, m, d)" "1 \<le> y" "y \<le> 9999"
  shows "valid_generation_date (format_day n)"
  using parse_format_day [OF assms(1)] assms
  by (simp add: valid_generation_date_def format_date_def utc_year_def)

lemma digits_val_less: "digits_val s = Some n \<Longrightarrow> n < 10 ^ length s"
proof (induction s arbitrary: n rule: rev_induct)
  case (snoc c s)
  then have "digits_val s = Some (dec_value s)" "is_digit (byte c)" "n = 10 * dec_value s + (int (byte c) - 48)"
    by (auto simp: digits_val_iff)
  with snoc.IH show ?case by (auto simp: is_digit_def)
qed (auto simp: digits_val_iff dec_value_def)

text \<open>The accepted dates are exactly the formatted days of the years 1 to 9999.\<close>

lemma valid_generation_date_iff:
  "valid_generation_date v \<longleftrightarrow>
   (\<exists>n. v = format_day n \<and> 1 \<le> fst (date_of_day n) \<and> fst (date_of_day n) \<le> 9999)"
proof
  assume v: "valid_generation_date v"
  then obtain y m d where p: "digits_val (take 4 v) = Some y" "valid_date y m d" "length v = 10"
      and f: "v = format_day (day_of_date y m d)"
      and g: "0 < fst (date_of_day (day_of_date y m d))"
    by (auto simp: valid_generation_date_def parse_date_def format_date_def utc_year_def
             split: option.splits if_splits)
  have "y < 10 ^ 4" using digits_val_less [OF p(1)] p(3) by simp
  then show "\<exists>n. v = format_day n \<and> 1 \<le> fst (date_of_day n) \<and> fst (date_of_day n) \<le> 9999"
    using f g date_of_day_of_date [OF p(2)] by (intro exI [of _ "day_of_date y m d"]) simp
next
  assume "\<exists>n. v = format_day n \<and> 1 \<le> fst (date_of_day n) \<and> fst (date_of_day n) \<le> 9999"
  then obtain n y m d where "v = format_day n" "date_of_day n = (y, m, d)" "1 \<le> y" "y \<le> 9999"
    by (metis prod.collapse)
  then show "valid_generation_date v" using valid_format_day by simp
qed

lemma format_date_valid: "1 \<le> utc_year t \<Longrightarrow> utc_year t \<le> 9999 \<Longrightarrow> valid_generation_date (format_date t)"
  by (auto simp: valid_generation_date_iff format_date_def utc_year_def)

lemma format_day_inj:
  assumes "format_day m = format_day n" "0 \<le> fst (date_of_day m)" "fst (date_of_day m) \<le> 9999"
    "0 \<le> fst (date_of_day n)" "fst (date_of_day n) \<le> 9999"
  shows "m = n"
proof -
  have "Some (m * day_ns) = parse_date (format_day m)"
    using assms(2,3) parse_format_day [of m] by (cases "date_of_day m") auto
  also have "\<dots> = Some (n * day_ns)"
    using assms parse_format_day [of n] by (cases "date_of_day n") auto
  finally show ?thesis by (simp add: day_ns_def)
qed

lemma generation_instant_bounds: "generation_instant t \<le> t \<and> t < generation_instant t + microsecond"
  using pos_mod_bound [of 1000 t] pos_mod_sign [of 1000 t] by (simp add: generation_instant_def)

lemma generation_instant_idem [simp]: "generation_instant (generation_instant t) = generation_instant t"
  by (simp add: generation_instant_def mod_diff_eq)

lemma generation_instant_mono: "s \<le> t \<Longrightarrow> generation_instant s \<le> generation_instant t"
proof -
  assume "s \<le> t"
  then have "s div 1000 \<le> t div 1000" by (simp add: zdiv_mono1)
  then show ?thesis using div_mult_mod_eq [of s 1000] div_mult_mod_eq [of t 1000]
    unfolding generation_instant_def by linarith
qed

end
