(* ===== verification/Job.thy ===== *)
theory Job
  imports Ident GoTime
begin

text \<open>
  Generation jobs: \<open>internal/app/generation_job.go\<close> and \<open>generation_denial.go\<close>, with the attempt
  record of \<open>generation_attempt.go\<close>, which the lifecycle contract reads.  A \<open>type X string\<close>
  enumeration is a datatype whose last constructor holds any other string; a pointer is an option.
  The \<open>int64\<close> lease version is an \<open>int\<close>: the only increment is guarded by \<open>math.MaxInt64\<close>.
\<close>

section \<open>Enumerations\<close>

datatype GenerationTrigger = TriggerScheduled | TriggerReply | TriggerRepost | TriggerQuote
  | TriggerHumanPost | TriggerContinuation | TriggerOther string

datatype GenerationOutput = OutputPost | OutputQuote | OutputReply | OutputOther string

datatype GenerationJobStatus = JobPending | JobRunning | JobRetryWait | JobSucceeded | JobSkipped
  | JobCancelled | JobFailed | JobStatusOther string

datatype GenerationAttemptStatus = AttemptReserved | AttemptSucceeded | AttemptFailed
  | AttemptUnknown | AttemptStatusOther string

text \<open>The empty decision of legacy attempts is \<open>NoDecision\<close>.\<close>

datatype GenerationDecision = NoDecision | GenerationPublish | GenerationSkip | DecisionOther string

section \<open>Records\<close>

record GenerationJob =
  jID :: ID
  jAgentID :: ID
  jPersonaVersion :: int
  jTriggerKind :: GenerationTrigger
  jTriggerKey :: string
  jTriggerActorID :: "ID option"
  jCooldownKey :: string
  jSourcePostID :: "ID option"
  jSourceReplyID :: "ID option"
  jSourceRepostID :: "ID option"
  jOutputKind :: GenerationOutput
  jRootJobID :: ID
  jChainDepth :: int
  jMaxChainDepth :: int
  jMaxChainJobs :: int
  jStatus :: GenerationJobStatus
  jAvailableAt :: time
  jExpiresAt :: time
  jLeaseVersion :: int
  jLeaseExpiresAt :: "time option"
  jResultPostID :: "ID option"
  jResultReplyID :: "ID option"
  jPublishedAttemptID :: "ID option"
  jReasonCode :: string
  jCreatedAt :: time
  jFinishedAt :: "time option"

record GenerationAttempt =
  aID :: ID
  aJobID :: ID
  aAttemptNumber :: int
  aLeaseVersion :: int
  aPauseRevision :: "int option"
  aProvider :: string
  aModel :: string
  aProviderRequestID :: string
  aContextHash :: string
  aContextBuilderVersion :: string
  aOutputDigest :: string
  aDecision :: GenerationDecision
  aSkipReason :: string
  aNotBefore :: "time option"
  aBudgetDay :: string
  aReservedTokens :: int
  aInputTokens :: "int option"
  aOutputTokens :: "int option"
  aStatus :: GenerationAttemptStatus
  aErrorCode :: string
  aStartedAt :: time
  aFinishedAt :: "time option"

section \<open>Validation\<close>

definition validate_trigger :: "GenerationJob \<Rightarrow> go_error option" where
  "validate_trigger j =
     (if jTriggerKind j = TriggerScheduled then
        first_error
          [(jTriggerActorID j \<noteq> None \<or> jCooldownKey j \<noteq> [] \<or> jSourcePostID j \<noteq> None \<or>
            jSourceReplyID j \<noteq> None \<or> jSourceRepostID j \<noteq> None \<or> jOutputKind j \<noteq> OutputPost \<or>
            jChainDepth j \<noteq> 0, Errorf ''scheduled jobs must be source-free root posts'')]
      else
        first_error
          [(jTriggerActorID j = None \<or> jTriggerActorID j = Some (jAgentID j) \<or>
            \<not> valid_generation_text (jCooldownKey j) 256 \<or> jSourcePostID j = None \<or>
            jOutputKind j = OutputPost,
            Errorf ''interaction jobs require another actor, cooldown and source conversation''),
           (case jTriggerKind j of
              TriggerReply \<Rightarrow>
                (jSourceReplyID j = None \<or> jSourceRepostID j \<noteq> None,
                 Errorf ''reply trigger requires a source reply'')
            | TriggerRepost \<Rightarrow>
                (jSourceReplyID j \<noteq> None, Errorf ''repost trigger cannot reference a reply'')
            | TriggerQuote \<Rightarrow>
                (jSourceReplyID j \<noteq> None \<or> jSourceRepostID j \<noteq> None,
                 Errorf ''post trigger cannot reference a reply or repost'')
            | TriggerHumanPost \<Rightarrow>
                (jSourceReplyID j \<noteq> None \<or> jSourceRepostID j \<noteq> None,
                 Errorf ''post trigger cannot reference a reply or repost'')
            | TriggerContinuation \<Rightarrow>
                (jSourceRepostID j \<noteq> None \<or> jChainDepth j = 0,
                 Errorf ''continuation must belong to an existing chain'')
            | _ \<Rightarrow> (True, Errorf ''invalid trigger kind'')),
           (jTriggerKind j \<noteq> TriggerContinuation \<and> jChainDepth j \<noteq> 0,
            Errorf ''direct triggers must start a chain'')])"

definition job_terminal :: "GenerationJobStatus \<Rightarrow> bool" where
  "job_terminal s \<longleftrightarrow> s = JobSucceeded \<or> s = JobSkipped \<or> s = JobCancelled \<or> s = JobFailed"

definition validate_status :: "GenerationJob \<Rightarrow> go_error option" where
  "validate_status j =
     first_error
       [(case jStatus j of
           JobPending \<Rightarrow> (jLeaseVersion j \<noteq> 0, Errorf ''pending job cannot have been leased'')
         | JobRunning \<Rightarrow> (jLeaseVersion j = 0, Errorf ''running or retry job requires a lease version'')
         | JobRetryWait \<Rightarrow> (jLeaseVersion j = 0, Errorf ''running or retry job requires a lease version'')
         | JobStatusOther _ \<Rightarrow> (True, Errorf ''invalid job status'')
         | _ \<Rightarrow> (False, Errorf []) ),
        (if jStatus j = JobRunning
         then (case jLeaseExpiresAt j of None \<Rightarrow> True | Some e \<Rightarrow> \<not> e > jAvailableAt j,
               Errorf ''running job requires a lease expiry'')
         else (jLeaseExpiresAt j \<noteq> None, Errorf ''non-running job cannot retain a lease'')),
        (if job_terminal (jStatus j)
         then (case jFinishedAt j of None \<Rightarrow> True | Some f \<Rightarrow> f < jCreatedAt j,
               Errorf ''terminal job requires a finish time'')
         else (jFinishedAt j \<noteq> None, Errorf ''unfinished job cannot have a finish time''))]"

definition validate_result :: "GenerationJob \<Rightarrow> go_error option" where
  "validate_result j =
     first_error
       ((if jStatus j = JobSucceeded then
           [(jLeaseVersion j = 0 \<or> jPublishedAttemptID j = None \<or> the (jFinishedAt j) < jAvailableAt j \<or>
             \<not> the (jFinishedAt j) < jExpiresAt j \<or> jReasonCode j \<noteq> [],
             Errorf ''success requires an attempt and unexpired publication''),
            (if jOutputKind j = OutputReply
             then (jResultReplyID j = None \<or> jResultPostID j \<noteq> None,
                   Errorf ''reply success requires exactly one reply result'')
             else (jResultPostID j = None \<or> jResultReplyID j \<noteq> None,
                   Errorf ''post or quote success requires exactly one post result''))]
         else
           [(jResultPostID j \<noteq> None \<or> jResultReplyID j \<noteq> None \<or> jPublishedAttemptID j \<noteq> None,
             Errorf ''only succeeded jobs may have publication results'')]) @
        [(if jStatus j \<in> {JobSkipped, JobCancelled, JobFailed, JobRetryWait}
          then (\<not> valid_generation_code (jReasonCode j), Errorf ''job requires a bounded reason code'')
          else (jReasonCode j \<noteq> [], Errorf ''job cannot have a reason code in this state''))])"

definition validate_job :: "GenerationJob \<Rightarrow> go_error option" where
  "validate_job j =
     or_else (first_error
       [(\<not> valid_generation_id (jID j) \<or> \<not> valid_generation_id (jAgentID j) \<or>
         \<not> valid_generation_id (jRootJobID j) \<or> jPersonaVersion j < 1 \<or> jPersonaVersion j > 2147483647,
         Errorf ''invalid job identity''),
        (list_ex (\<lambda>r. case r of None \<Rightarrow> False | Some i \<Rightarrow> \<not> valid_generation_id i)
           [jTriggerActorID j, jSourcePostID j, jSourceReplyID j, jSourceRepostID j, jResultPostID j,
            jResultReplyID j, jPublishedAttemptID j],
         Errorf ''invalid job reference''),
        (\<not> valid_generation_text (jTriggerKey j) 256 \<or> jChainDepth j < 0 \<or> jChainDepth j > 10 \<or>
         (jChainDepth j = 0) \<noteq> (jRootJobID j = jID j),
         Errorf ''invalid trigger key or chain identity''),
        (jMaxChainDepth j < 0 \<or> jMaxChainDepth j > 10 \<or> jMaxChainJobs j < 1 \<or> jMaxChainJobs j > 100 \<or>
         jMaxChainDepth j \<ge> jMaxChainJobs j \<or> jChainDepth j > jMaxChainDepth j,
         Errorf ''invalid immutable chain limits''),
        (jOutputKind j \<noteq> OutputPost \<and> jOutputKind j \<noteq> OutputQuote \<and> jOutputKind j \<noteq> OutputReply,
         Errorf ''invalid output kind'')])
    (or_else (validate_trigger j)
    (or_else (first_error
       [(jCreatedAt j = 0 \<or> jAvailableAt j < jCreatedAt j \<or> \<not> jExpiresAt j > jAvailableAt j \<or>
         jLeaseVersion j < 0, Errorf ''invalid job timing or lease version'')])
    (or_else (validate_status j) (validate_result j))))"

definition validate_lease :: "GenerationJob \<Rightarrow> int \<Rightarrow> time \<Rightarrow> go_error option" where
  "validate_lease j v now =
     (if jStatus j \<noteq> JobRunning \<or> v \<le> 0 \<or> jLeaseVersion j \<noteq> v \<or>
         (case jLeaseExpiresAt j of None \<Rightarrow> True | Some e \<Rightarrow> \<not> now < e) \<or>
         \<not> now < jExpiresAt j \<or> now < jAvailableAt j
      then Some (Errorf ''stale, unavailable or expired generation lease'') else None)"

definition same_identity :: "GenerationJob \<Rightarrow> GenerationJob \<Rightarrow> bool" where
  "same_identity a b \<longleftrightarrow>
     jID a = jID b \<and> jAgentID a = jAgentID b \<and> jPersonaVersion a = jPersonaVersion b \<and>
     jTriggerKind a = jTriggerKind b \<and> jTriggerKey a = jTriggerKey b \<and>
     jTriggerActorID a = jTriggerActorID b \<and> jCooldownKey a = jCooldownKey b \<and>
     jSourcePostID a = jSourcePostID b \<and> jSourceReplyID a = jSourceReplyID b \<and>
     jSourceRepostID a = jSourceRepostID b \<and> jOutputKind a = jOutputKind b \<and>
     jRootJobID a = jRootJobID b \<and> jChainDepth a = jChainDepth b \<and>
     jMaxChainDepth a = jMaxChainDepth b \<and> jMaxChainJobs a = jMaxChainJobs b \<and>
     jExpiresAt a = jExpiresAt b \<and> jCreatedAt a = jCreatedAt b"

definition removed_repost :: "GenerationJob \<Rightarrow> bool" where
  "removed_repost j \<longleftrightarrow> jTriggerKind j = TriggerRepost \<and> jSourceRepostID j = None"

definition max_int64 :: int where "max_int64 = 9223372036854775807"

definition validate_invalidation ::
  "GenerationJob \<Rightarrow> GenerationJob \<Rightarrow> int \<Rightarrow> time \<Rightarrow> go_error option" where
  "validate_invalidation before after v now =
     or_else (validate_job before) (or_else (validate_job after)
     (first_error
       [(jSourcePostID before = None \<or> (jStatus before \<noteq> JobPending \<and> jStatus before \<noteq> JobRetryWait \<and>
         jStatus before \<noteq> JobRunning), Errorf ''source invalidation requires active social work''),
        (\<not> same_identity before after \<or> v \<noteq> jLeaseVersion before \<or>
         jLeaseVersion after \<noteq> jLeaseVersion before \<or> jLeaseExpiresAt after \<noteq> None \<or>
         jAvailableAt after \<noteq> jAvailableAt before \<or> now < jCreatedAt before \<or>
         (case jFinishedAt after of None \<Rightarrow> True | Some f \<Rightarrow> f \<noteq> now),
         Errorf ''invalid source cleanup identity or fence''),
        (let (status, reason) = (if \<not> now < jExpiresAt before then (JobSkipped, ''stale_trigger'')
                                 else (JobCancelled, ''source_removed''))
         in jStatus after \<noteq> status \<or> jReasonCode after \<noteq> reason,
         Errorf ''invalid source cleanup outcome'')]))"

section \<open>Denials\<close>

datatype GenerationDenial = GenerationContextRejected | GenerationPublicationDenied
  | GenerationSourceRemoved | GenerationPolicyDenied | GenerationOutputUnavailable
  | GenerationExecutionCancelled | DenialOther string

fun denial_code :: "GenerationDenial \<Rightarrow> string" where
  "denial_code GenerationContextRejected = ''context_rejected''"
| "denial_code GenerationPublicationDenied = ''publication_denied''"
| "denial_code GenerationSourceRemoved = ''source_removed''"
| "denial_code GenerationPolicyDenied = ''policy_denied''"
| "denial_code GenerationOutputUnavailable = ''outcome_unavailable''"
| "denial_code GenerationExecutionCancelled = ''execution_cancelled''"
| "denial_code (DenialOther s) = s"

definition terminal_status :: "GenerationDenial \<Rightarrow> GenerationJobStatus option" where
  "terminal_status d =
     (case d of
        GenerationContextRejected \<Rightarrow> Some JobSkipped
      | GenerationPublicationDenied \<Rightarrow> Some JobSkipped
      | GenerationPolicyDenied \<Rightarrow> Some JobSkipped
      | GenerationSourceRemoved \<Rightarrow> Some JobCancelled
      | GenerationExecutionCancelled \<Rightarrow> Some JobCancelled
      | GenerationOutputUnavailable \<Rightarrow> Some JobFailed
      | DenialOther _ \<Rightarrow> None)"

end
