(* ===== verification/Attempt.thy ===== *)
theory Attempt
  imports Job
begin

text \<open>
  Attempts: \<open>internal/app/generation_attempt.go\<close> and the failure classes and retry schedule of
  \<open>generation_execution.go\<close>.  An attempt is one durable reservation before one provider call.
\<close>

section \<open>Failures\<close>

text \<open>\<open>NoFailure\<close> is the empty failure of a successful outcome.\<close>

datatype GenerationFailure = NoFailure | GenerationTransient | GenerationRateLimited | GenerationTimeout
  | GenerationInvalidOutput | GenerationUnsafeOutput | GenerationRepeatedOutput | GenerationCredentials
  | GenerationConfiguration | GenerationAccountingUnsupported | GenerationCancelled
  | GenerationPermanent | FailureOther string

fun failure_code :: "GenerationFailure \<Rightarrow> string" where
  "failure_code NoFailure = []"
| "failure_code GenerationTransient = ''provider_transient''"
| "failure_code GenerationRateLimited = ''provider_rate_limited''"
| "failure_code GenerationTimeout = ''provider_timeout''"
| "failure_code GenerationInvalidOutput = ''invalid_output''"
| "failure_code GenerationUnsafeOutput = ''unsafe_output''"
| "failure_code GenerationRepeatedOutput = ''repeated_output''"
| "failure_code GenerationCredentials = ''provider_credentials''"
| "failure_code GenerationConfiguration = ''provider_configuration''"
| "failure_code GenerationAccountingUnsupported = ''unsupported_accounting''"
| "failure_code GenerationCancelled = ''execution_cancelled''"
| "failure_code GenerationPermanent = ''provider_permanent''"
| "failure_code (FailureOther s) = s"

definition known_failures :: "GenerationFailure list" where
  "known_failures = [GenerationTransient, GenerationRateLimited, GenerationTimeout,
     GenerationInvalidOutput, GenerationUnsafeOutput, GenerationRepeatedOutput, GenerationCredentials,
     GenerationConfiguration, GenerationAccountingUnsupported, GenerationCancelled, GenerationPermanent]"

definition failure_valid :: "GenerationFailure \<Rightarrow> bool" where
  "failure_valid f \<longleftrightarrow> f \<in> set known_failures"

definition stops_execution :: "GenerationFailure \<Rightarrow> bool" where
  "stops_execution f \<longleftrightarrow> \<not> failure_valid f \<or> f = GenerationCredentials \<or>
     f = GenerationConfiguration \<or> f = GenerationAccountingUnsupported"

text \<open>The conversion \<open>GenerationFailure(code)\<close> of a stored error code.\<close>

definition failure_of :: "string \<Rightarrow> GenerationFailure" where
  "failure_of s = (case find (\<lambda>f. failure_code f = s) (NoFailure # known_failures) of
     Some f \<Rightarrow> f | None \<Rightarrow> FailureOther s)"

lemma failure_of_code: "f \<in> set (NoFailure # known_failures) \<Longrightarrow> failure_of (failure_code f) = f"
proof -
  have "list_all (\<lambda>f. failure_of (failure_code f) = f) (NoFailure # known_failures)"
    by code_simp
  then show "f \<in> set (NoFailure # known_failures) \<Longrightarrow> failure_of (failure_code f) = f"
    by (simp only: list_all_iff)
qed

lemma failure_code_of [simp]: "failure_code (failure_of s) = s"
  by (auto simp: failure_of_def dest: find_in_set split: option.splits)

section \<open>Validation\<close>

definition valid_skip_reason :: "string \<Rightarrow> bool" where
  "valid_skip_reason r \<longleftrightarrow> r = ''not_relevant'' \<or> r = ''insufficient_context'' \<or>
     r = ''unsafe_request'' \<or> r = ''repetition''"

definition digest_version :: string where "digest_version = ''generation_output_v1''"

text \<open>Lower-case hexadecimal of a 32-byte digest: decoding and encoding again gives it back.\<close>

definition sha256_hex :: "string \<Rightarrow> bool" where
  "sha256_hex s = (case hex_decode s of None \<Rightarrow> False
     | Some r \<Rightarrow> length r = 32 \<and> hex_encode r = s)"

definition valid_output_digest :: "string \<Rightarrow> bool" where
  "valid_output_digest d \<longleftrightarrow>
     (let p = digest_version @ '':''; ok = has_prefix d p; h = (if ok then drop (length p) d else d)
      in ok \<and> sha256_hex h)"

definition status_guards :: "GenerationAttempt \<Rightarrow> (bool \<times> go_error) list" where
  "status_guards a =
       (if aStatus a = AttemptReserved then
          [(aFinishedAt a \<noteq> None \<or> aInputTokens a \<noteq> None \<or> aErrorCode a \<noteq> [] \<or> aProviderRequestID a \<noteq> [],
            Errorf ''reserved attempt cannot have an outcome'')]
        else if aStatus a \<in> {AttemptSucceeded, AttemptFailed, AttemptUnknown} then
          [(case aFinishedAt a of None \<Rightarrow> True | Some f \<Rightarrow> f < aStartedAt a,
            Errorf ''completed attempt requires a finish time''),
           (if aStatus a = AttemptSucceeded
            then (aErrorCode a \<noteq> [], Errorf ''successful attempt cannot have an error'')
            else (\<not> valid_generation_code (aErrorCode a),
                  Errorf ''unsuccessful attempt requires a bounded error code'')),
           (aStatus a = AttemptUnknown \<and> aInputTokens a \<noteq> None,
            Errorf ''unknown outcome must retain reservation without settled usage'')]
        else [(True, Errorf ''invalid attempt status'')])"

definition validate_attempt :: "GenerationAttempt \<Rightarrow> go_error option" where
  "validate_attempt a =
     or_else (first_error
       [(\<not> valid_generation_id (aID a) \<or> \<not> valid_generation_id (aJobID a) \<or> aAttemptNumber a < 1 \<or>
         aAttemptNumber a > 2147483647 \<or> aLeaseVersion a < 1, Errorf ''invalid attempt identity''),
        (case aPauseRevision a of None \<Rightarrow> False | Some r \<Rightarrow> r < 0, Errorf ''invalid attempt pause revision''),
        (\<not> valid_generation_code (aProvider a) \<or> \<not> valid_generation_text (aModel a) 128 \<or>
         \<not> valid_generation_code (aContextBuilderVersion a) \<or> length (aProviderRequestID a) > 256 \<or>
         aProviderRequestID a \<noteq> [] \<and> \<not> valid_generation_text (aProviderRequestID a) 256,
         Errorf ''invalid attempt provider or context metadata''),
        (\<not> sha256_hex (aContextHash a), Errorf ''context hash must be lowercase SHA-256 hex''),
        (aOutputDigest a \<noteq> [] \<and> (aStatus a \<noteq> AttemptSucceeded \<or> \<not> valid_output_digest (aOutputDigest a)),
         Errorf ''invalid attempt output digest''),
        (aDecision a \<noteq> NoDecision \<and> (aStatus a \<noteq> AttemptSucceeded \<or> aOutputDigest a = [] \<or>
         (aDecision a \<noteq> GenerationPublish \<and> aDecision a \<noteq> GenerationSkip)),
         Errorf ''invalid attempt decision''),
        (if aDecision a = GenerationSkip
         then (\<not> valid_skip_reason (aSkipReason a), Errorf ''invalid attempt skip reason'')
         else (aSkipReason a \<noteq> [], Errorf ''only skip decisions may have a skip reason'')),
        (case aNotBefore a of None \<Rightarrow> False
         | Some n \<Rightarrow> (aStatus a \<noteq> AttemptFailed \<and> aStatus a \<noteq> AttemptUnknown) \<or> \<not> valid_outcome_time n,
         Errorf ''invalid attempt retry hint''),
        (aStartedAt a = 0 \<or> \<not> valid_generation_date (aBudgetDay a) \<or>
         aBudgetDay a \<noteq> format_date (aStartedAt a) \<or> aReservedTokens a \<le> 0,
         Errorf ''invalid attempt reservation or UTC budget day''),
        ((aInputTokens a = None) \<noteq> (aOutputTokens a = None),
         Errorf ''usage requires both input and output tokens''),
        (case aInputTokens a of None \<Rightarrow> False
         | Some i \<Rightarrow> i < 0 \<or> the (aOutputTokens a) < 0 \<or> i > aReservedTokens a \<or>
             the (aOutputTokens a) > aReservedTokens a - i,
         Errorf ''usage exceeds reservation or is negative'')])
     (first_error (status_guards a))"

definition accounted_tokens :: "GenerationAttempt \<Rightarrow> int" where
  "accounted_tokens a =
     (if aStatus a = AttemptReserved \<or> aStatus a = AttemptUnknown \<or> aInputTokens a = None \<or>
         aOutputTokens a = None \<or> validate_attempt a \<noteq> None
      then aReservedTokens a else the (aInputTokens a) + the (aOutputTokens a))"

definition validate_attempt_transition ::
  "GenerationAttempt \<Rightarrow> GenerationAttempt \<Rightarrow> go_error option" where
  "validate_attempt_transition b a =
     or_else (validate_attempt b) (or_else (validate_attempt a)
     (first_error
       [(aStatus b \<noteq> AttemptReserved \<or> aStatus a = AttemptReserved,
         Errorf ''only reserved attempts may finish''),
        (aPauseRevision b \<noteq> aPauseRevision a, Errorf ''attempt pause revision is immutable''),
        (aID b \<noteq> aID a \<or> aJobID b \<noteq> aJobID a \<or> aAttemptNumber b \<noteq> aAttemptNumber a \<or>
         aLeaseVersion b \<noteq> aLeaseVersion a \<or> aProvider b \<noteq> aProvider a \<or> aModel b \<noteq> aModel a \<or>
         aContextHash b \<noteq> aContextHash a \<or> aContextBuilderVersion b \<noteq> aContextBuilderVersion a \<or>
         aBudgetDay b \<noteq> aBudgetDay a \<or> aReservedTokens b \<noteq> aReservedTokens a \<or>
         aStartedAt b \<noteq> aStartedAt a, Errorf ''attempt identity and reservation are immutable'')]))"

section \<open>Retries\<close>

definition MaxGenerationAttempts :: int where "MaxGenerationAttempts = 3"
definition MaxGenerationInvalidRegenerations :: int where "MaxGenerationInvalidRegenerations = 1"
definition MaxGenerationRetryJitter :: duration where "MaxGenerationRetryJitter = second"

lemmas retry_limits = MaxGenerationAttempts_def MaxGenerationInvalidRegenerations_def
  MaxGenerationRetryJitter_def

definition next_retry ::
  "time \<Rightarrow> time \<Rightarrow> int \<Rightarrow> int \<Rightarrow> GenerationFailure \<Rightarrow> time \<Rightarrow> duration \<Rightarrow> time option" where
  "next_retry now expiresAt attempts invalid failure notBefore jitter =
     (if now = 0 \<or> attempts < 1 \<or> attempts \<ge> MaxGenerationAttempts \<or> invalid < 0 \<or> invalid > attempts \<or>
         jitter < 0 \<or> jitter > MaxGenerationRetryJitter then None
      else if \<not> (failure \<in> {GenerationTransient, GenerationRateLimited, GenerationTimeout} \<or>
                 failure = GenerationInvalidOutput \<and>
                 \<not> (invalid < 1 \<or> invalid > MaxGenerationInvalidRegenerations)) then None
      else let next0 = now + (push_bit (nat (attempts - 1)) (2 * second) + jitter);
               next = (if notBefore > next0 then notBefore else next0)
           in if \<not> next < expiresAt then None else Some next)"

section \<open>What a valid attempt is\<close>

lemma valid_code_ascii:
  assumes "\<forall>c \<in> set v. byte c < (128 :: nat)"
  shows "valid_generation_code v \<longleftrightarrow> 1 \<le> length v \<and> length v \<le> 64 \<and>
    (\<forall>c \<in> set v. is_lower (byte c) \<or> is_digit (byte c) \<or> byte c = (95 :: nat))"
  using ascii_runes [OF assms] by (auto simp: valid_generation_code_def not_less Suc_le_eq)

text \<open>The reason and error codes the program writes.\<close>

lemma program_codes [simp]:
  "valid_generation_code ''stale_trigger''" "valid_generation_code ''source_removed''"
  "valid_generation_code ''lease_lost''" "valid_generation_code ''operator_retry''"
  "valid_generation_code ''outcome_unavailable''" "valid_generation_code ''policy_denied''"
  "valid_generation_code ''policy_disabled''" "valid_generation_code ''invalid_output''"
  "valid_generation_code ''attempt_limit''" "valid_generation_code ''budget_exhausted''"
  "valid_generation_code ''context_rejected''" "valid_generation_code ''publication_denied''"
  "valid_generation_code ''execution_cancelled''" "valid_generation_code ''not_relevant''"
  "valid_generation_code ''insufficient_context''" "valid_generation_code ''unsafe_request''"
  "valid_generation_code ''repetition''" "valid_generation_code ''provider_transient''"
  "valid_generation_code ''provider_rate_limited''" "valid_generation_code ''provider_timeout''"
  "valid_generation_code ''unsafe_output''" "valid_generation_code ''repeated_output''"
  "valid_generation_code ''provider_credentials''" "valid_generation_code ''provider_configuration''"
  "valid_generation_code ''unsupported_accounting''" "valid_generation_code ''provider_permanent''"
  by (simp_all add: valid_code_ascii class_defs)

lemma known_failure_code: "failure_valid f \<Longrightarrow> valid_generation_code (failure_code f)"
  by (auto simp: failure_valid_def known_failures_def)

lemma skip_reason_code: "valid_skip_reason r \<Longrightarrow> valid_generation_code r"
  by (auto simp: valid_skip_reason_def)

lemma denial_code_valid: "terminal_status d = Some s \<Longrightarrow> valid_generation_code (denial_code d)"
  by (cases d) (simp_all add: terminal_status_def)

definition attempt_core :: "GenerationAttempt \<Rightarrow> bool" where
  "attempt_core a \<longleftrightarrow>
     valid_generation_id (aID a) \<and> valid_generation_id (aJobID a) \<and> 1 \<le> aAttemptNumber a \<and>
     aAttemptNumber a \<le> 2147483647 \<and> 1 \<le> aLeaseVersion a \<and>
     (case aPauseRevision a of None \<Rightarrow> True | Some r \<Rightarrow> 0 \<le> r) \<and>
     valid_generation_code (aProvider a) \<and> valid_generation_text (aModel a) 128 \<and>
     valid_generation_code (aContextBuilderVersion a) \<and> sha256_hex (aContextHash a) \<and>
     aStartedAt a \<noteq> 0 \<and> valid_generation_date (aBudgetDay a) \<and>
     aBudgetDay a = format_date (aStartedAt a) \<and> 0 < aReservedTokens a"

definition usage_ok :: "int \<Rightarrow> int option \<Rightarrow> int option \<Rightarrow> bool" where
  "usage_ok reserved i out =
     (case (i, out) of
        (None, None) \<Rightarrow> True
      | (Some i, Some u) \<Rightarrow> 0 \<le> i \<and> 0 \<le> u \<and> i + u \<le> reserved
      | _ \<Rightarrow> False)"

definition request_ok :: "string \<Rightarrow> bool" where
  "request_ok r \<longleftrightarrow> length r \<le> 256 \<and> (r \<noteq> [] \<longrightarrow> valid_generation_text r 256)"

definition decision_ok :: "GenerationAttempt \<Rightarrow> bool" where
  "decision_ok a \<longleftrightarrow>
     (aOutputDigest a \<noteq> [] \<longrightarrow> valid_output_digest (aOutputDigest a)) \<and>
     (aDecision a \<noteq> NoDecision \<longrightarrow> aOutputDigest a \<noteq> [] \<and>
        (aDecision a = GenerationPublish \<or> aDecision a = GenerationSkip)) \<and>
     (if aDecision a = GenerationSkip then valid_skip_reason (aSkipReason a) else aSkipReason a = [])"

definition attempt_state :: "GenerationAttempt \<Rightarrow> bool" where
  "attempt_state a =
     (case aStatus a of
        AttemptReserved \<Rightarrow> aFinishedAt a = None \<and> aInputTokens a = None \<and> aOutputTokens a = None \<and>
          aErrorCode a = [] \<and> aProviderRequestID a = [] \<and> aOutputDigest a = [] \<and> aDecision a = NoDecision \<and>
          aSkipReason a = [] \<and> aNotBefore a = None
      | AttemptSucceeded \<Rightarrow> (\<exists>f \<ge> aStartedAt a. aFinishedAt a = Some f) \<and> aErrorCode a = [] \<and>
          decision_ok a \<and> aNotBefore a = None \<and> request_ok (aProviderRequestID a) \<and>
          usage_ok (aReservedTokens a) (aInputTokens a) (aOutputTokens a)
      | AttemptStatusOther _ \<Rightarrow> False
      | s \<Rightarrow> (\<exists>f \<ge> aStartedAt a. aFinishedAt a = Some f) \<and> valid_generation_code (aErrorCode a) \<and>
          aOutputDigest a = [] \<and> aDecision a = NoDecision \<and> aSkipReason a = [] \<and>
          (case aNotBefore a of None \<Rightarrow> True | Some n \<Rightarrow> valid_outcome_time n) \<and>
          request_ok (aProviderRequestID a) \<and>
          usage_ok (aReservedTokens a) (aInputTokens a) (aOutputTokens a) \<and>
          (s = AttemptUnknown \<longrightarrow> aInputTokens a = None))"

lemma no_code_empty [simp]: "\<not> valid_generation_code []"
  by (simp add: valid_generation_code_def)

definition outcome_shape :: "GenerationAttempt \<Rightarrow> bool" where
  "outcome_shape a \<longleftrightarrow>
     (aOutputDigest a \<noteq> [] \<longrightarrow> aStatus a = AttemptSucceeded \<and> valid_output_digest (aOutputDigest a)) \<and>
     (aDecision a \<noteq> NoDecision \<longrightarrow> aStatus a = AttemptSucceeded \<and> aOutputDigest a \<noteq> [] \<and>
        (aDecision a = GenerationPublish \<or> aDecision a = GenerationSkip)) \<and>
     (if aDecision a = GenerationSkip then valid_skip_reason (aSkipReason a) else aSkipReason a = []) \<and>
     (case aNotBefore a of None \<Rightarrow> True
      | Some n \<Rightarrow> (aStatus a = AttemptFailed \<or> aStatus a = AttemptUnknown) \<and> valid_outcome_time n)"

lemma usage_ok_iff:
  "usage_ok r i u \<longleftrightarrow> (i = None) = (u = None) \<and>
     \<not> (case i of None \<Rightarrow> False | Some n \<Rightarrow> n < 0 \<or> the u < 0 \<or> n > r \<or> the u > r - n)"
  by (auto simp: usage_ok_def split: option.splits)

lemma nonneg_pause: "\<not> (case p of None \<Rightarrow> False | Some r \<Rightarrow> r < 0) \<longleftrightarrow>
    (case p of None \<Rightarrow> True | Some r \<Rightarrow> (0 :: int) \<le> r)"
  by (auto split: option.splits)

lemma hint_ok: "\<not> (case n of None \<Rightarrow> False | Some n \<Rightarrow> \<not> p \<and> \<not> q \<or> \<not> P n) \<longleftrightarrow>
    (case n of None \<Rightarrow> True | Some n \<Rightarrow> (p \<or> q) \<and> P n)"
  by (auto split: option.splits)

lemma validate_attempt_split:
  "validate_attempt a = None \<longleftrightarrow> attempt_core a \<and> outcome_shape a \<and> request_ok (aProviderRequestID a) \<and>
     usage_ok (aReservedTokens a) (aInputTokens a) (aOutputTokens a) \<and>
     (\<forall>g \<in> set (status_guards a). \<not> fst g)"
  unfolding validate_attempt_def attempt_core_def outcome_shape_def request_ok_def usage_ok_iff
    or_else_None first_error_None list.set ball_simps fst_conv
    de_Morgan_disj not_not not_less not_le not_imp de_Morgan_conj nonneg_pause hint_ok if_distrib [of fst]
  by (rule iffI; (elim conjE); (intro conjI); (assumption | simp add: not_le split: if_splits; fail | blast))

lemma validate_attempt_iff [valid_simps]:
  "validate_attempt a = None \<longleftrightarrow> attempt_core a \<and> attempt_state a"
  unfolding validate_attempt_split
  by (cases "aStatus a")
     (auto simp: outcome_shape_def attempt_state_def decision_ok_def status_guards_def request_ok_def
        usage_ok_def not_less not_le split: option.splits)


text \<open>\<open>sameGenerationReservation\<close>: the fields that a reservation fixes.\<close>

definition same_reservation :: "GenerationAttempt \<Rightarrow> GenerationAttempt \<Rightarrow> bool" where
  "same_reservation a b \<longleftrightarrow>
     aID a = aID b \<and> aJobID a = aJobID b \<and> aAttemptNumber a = aAttemptNumber b \<and>
     aLeaseVersion a = aLeaseVersion b \<and> aPauseRevision a = aPauseRevision b \<and>
     aProvider a = aProvider b \<and> aModel a = aModel b \<and> aContextHash a = aContextHash b \<and>
     aContextBuilderVersion a = aContextBuilderVersion b \<and> aBudgetDay a = aBudgetDay b \<and>
     aReservedTokens a = aReservedTokens b \<and> aStartedAt a = aStartedAt b"

lemma attempt_core_same: "same_reservation b a \<Longrightarrow> attempt_core a = attempt_core b"
  by (simp only: same_reservation_def attempt_core_def)

lemma attempt_transition_iff [valid_simps]:
  "validate_attempt_transition b a = None \<longleftrightarrow>
     attempt_core b \<and> attempt_state b \<and> attempt_state a \<and> aStatus b = AttemptReserved \<and>
     aStatus a \<noteq> AttemptReserved \<and> same_reservation b a"
  unfolding validate_attempt_transition_def or_else_None first_error_None validate_attempt_iff
  using attempt_core_same [of b a] by (auto simp: same_reservation_def)

lemma accounted_bounds:
  assumes "validate_attempt a = None"
  shows "0 \<le> accounted_tokens a" "accounted_tokens a \<le> aReservedTokens a"
  using assms
  by (auto simp: accounted_tokens_def validate_attempt_split usage_ok_def attempt_core_def
      split: option.splits)

lemma next_retry_Some:
  "next_retry now e n i f h j = Some t \<longleftrightarrow>
     now \<noteq> 0 \<and> 1 \<le> n \<and> n < MaxGenerationAttempts \<and> 0 \<le> i \<and> i \<le> n \<and> 0 \<le> j \<and> j \<le> MaxGenerationRetryJitter \<and>
     (f \<in> {GenerationTransient, GenerationRateLimited, GenerationTimeout} \<or>
      f = GenerationInvalidOutput \<and> 1 \<le> i \<and> i \<le> MaxGenerationInvalidRegenerations) \<and>
     t = max h (now + push_bit (nat (n - 1)) (2 * second) + j) \<and> t < e"
  by (auto simp: next_retry_def Let_def max_def not_less not_le)

end
