(* ===== verification/Lifecycle.thy ===== *)
theory Lifecycle
  imports Attempt
begin

text \<open>
  The lifecycle contract \<open>ValidateGenerationJobTransition\<close> of \<open>internal/app/generation_job.go\<close> and
  the relation it accepts.  \<open>validate_transition\<close> is the code, guard by guard; \<open>job_step\<close> is the
  lifecycle as a step relation with one rule for each kind of transition; the two are shown equal,
  and what follows of a job's life is proved on the steps.
\<close>

section \<open>The contract\<close>

definition is_claim :: "GenerationJob \<Rightarrow> GenerationJob \<Rightarrow> time \<Rightarrow> bool" where
  "is_claim b a now \<longleftrightarrow> jStatus a = JobRunning \<and>
     (jStatus b = JobPending \<or> jStatus b = JobRetryWait \<or>
      jStatus b = JobRunning \<and> \<not> now < the (jLeaseExpiresAt b))"

definition transition_guards :: "GenerationJob \<Rightarrow> GenerationJob \<Rightarrow> time \<Rightarrow> (bool \<times> go_error) list" where
  "transition_guards b a now =
     (if is_claim b a now then
        [(jLeaseVersion b = max_int64 \<or> jLeaseVersion a \<noteq> jLeaseVersion b + 1 \<or> now < jAvailableAt b \<or>
          \<not> now < jExpiresAt b \<or> \<not> the (jLeaseExpiresAt a) > now,
          Errorf ''invalid claim or lease fencing increment'')]
      else
        (jLeaseVersion a \<noteq> jLeaseVersion b, Errorf ''only claims may advance the lease version'') #
        (if jStatus b = JobPending \<or> jStatus b = JobRetryWait then
           [(jStatus a \<noteq> JobSkipped \<and> jStatus a \<noteq> JobCancelled \<and> jStatus a \<noteq> JobFailed,
             Errorf ''invalid queued job transition'')]
         else if jStatus b = JobFailed then
           [(jStatus a \<noteq> JobRetryWait \<or> jLeaseVersion b = 0 \<or> \<not> now < jExpiresAt b,
             Errorf ''invalid failed job retry'')]
         else if jStatus b = JobRunning then
           (let stale = (\<not> now < jExpiresAt b \<and> jStatus a = JobSkipped \<and> jReasonCode a = ''stale_trigger'');
                removed = (removed_repost b \<and> now < jExpiresAt b \<and> jStatus a = JobCancelled \<and>
                           jReasonCode a = ''source_removed'')
            in [(\<not> now < the (jLeaseExpiresAt b) \<and> \<not> stale \<and> \<not> removed, Errorf ''expired owner lease''),
                (jStatus a \<noteq> JobRunning \<and> jStatus a \<noteq> JobRetryWait \<and> jStatus a \<noteq> JobSucceeded \<and>
                 jStatus a \<noteq> JobSkipped \<and> jStatus a \<noteq> JobCancelled \<and> jStatus a \<noteq> JobFailed,
                 Errorf ''invalid running job transition''),
                (jStatus a = JobRunning \<and> (\<not> the (jLeaseExpiresAt a) > the (jLeaseExpiresAt b) \<or>
                 \<not> now < jExpiresAt b), Errorf ''lease renewal must extend an unexpired job'')])
         else []))"

definition validate_publication ::
  "GenerationJob \<Rightarrow> GenerationJob \<Rightarrow> int \<Rightarrow> time \<Rightarrow> GenerationAttempt option \<Rightarrow> go_error option" where
  "validate_publication b a v now att =
     (if jStatus a = JobSucceeded then
        or_else (validate_lease b v now)
        (case att of
           None \<Rightarrow> Some (Errorf ''publication requires its successful attempt'')
         | Some t \<Rightarrow> or_else (validate_attempt t)
             (first_error [(aID t \<noteq> the (jPublishedAttemptID a) \<or> aJobID t \<noteq> jID a \<or>
                aLeaseVersion t \<noteq> jLeaseVersion a \<or> aStatus t \<noteq> AttemptSucceeded \<or>
                aStartedAt t < jAvailableAt b \<or> the (aFinishedAt t) > now,
                Errorf ''published attempt must be successful and belong to this job and lease'')]))
      else if att \<noteq> None then Some (Errorf ''only publication accepts a published attempt'') else None)"

definition validate_transition ::
  "GenerationJob \<Rightarrow> GenerationJob \<Rightarrow> int \<Rightarrow> time \<Rightarrow> GenerationAttempt option \<Rightarrow> go_error option" where
  "validate_transition b a v now att =
     or_else (validate_job b) (or_else (validate_job a) (or_else (first_error
       ([(v \<noteq> jLeaseVersion b, Errorf ''stale generation lease version''),
         (\<not> same_identity b a, Errorf ''job identity, provenance and expiry are immutable''),
         (jStatus b = JobSucceeded \<or> jStatus b = JobSkipped \<or> jStatus b = JobCancelled,
          Errorf ''terminal job cannot change''),
         (now < jCreatedAt b \<or> (case jFinishedAt b of None \<Rightarrow> False | Some f \<Rightarrow> now < f),
          Errorf ''transition precedes job creation or previous outcome''),
         (removed_repost b \<and> jStatus a \<noteq> JobCancelled \<and>
          \<not> (jStatus a = JobSkipped \<and> jReasonCode a = ''stale_trigger'' \<and> \<not> now < jExpiresAt b),
          Errorf ''removed repost must cancel, not execute''),
         (case jFinishedAt a of None \<Rightarrow> False | Some f \<Rightarrow> f \<noteq> now,
          Errorf ''finish time must match transition time'')] @
        transition_guards b a now @
        [(if jStatus a = JobRetryWait
          then (jAvailableAt a < now \<or> \<not> now < jExpiresAt b,
                Errorf ''retry must be future eligible and retain original expiry'')
          else (jAvailableAt a \<noteq> jAvailableAt b, Errorf ''only retry may change availability'')),
         (\<not> now < jExpiresAt b \<and> (jStatus a \<noteq> JobSkipped \<or> jReasonCode a \<noteq> ''stale_trigger''),
          Errorf ''expired job must skip as stale_trigger'')]))
     (validate_publication b a v now att)))"

section \<open>Validity, split into the immutable part and the state\<close>

definition job_core :: "GenerationJob \<Rightarrow> bool" where
  "job_core j \<longleftrightarrow>
     valid_generation_id (jID j) \<and> valid_generation_id (jAgentID j) \<and> valid_generation_id (jRootJobID j) \<and>
     1 \<le> jPersonaVersion j \<and> jPersonaVersion j \<le> 2147483647 \<and>
     list_all (\<lambda>r. case r of None \<Rightarrow> True | Some i \<Rightarrow> valid_generation_id i)
       [jTriggerActorID j, jSourcePostID j, jSourceReplyID j, jSourceRepostID j] \<and>
     valid_generation_text (jTriggerKey j) 256 \<and> 0 \<le> jChainDepth j \<and> jChainDepth j \<le> 10 \<and>
     (jChainDepth j = 0 \<longleftrightarrow> jRootJobID j = jID j) \<and>
     0 \<le> jMaxChainDepth j \<and> jMaxChainDepth j \<le> 10 \<and> 1 \<le> jMaxChainJobs j \<and> jMaxChainJobs j \<le> 100 \<and>
     jMaxChainDepth j < jMaxChainJobs j \<and> jChainDepth j \<le> jMaxChainDepth j \<and>
     jOutputKind j \<in> {OutputPost, OutputQuote, OutputReply} \<and> validate_trigger j = None"

definition no_result :: "GenerationJob \<Rightarrow> bool" where
  "no_result j \<longleftrightarrow> jResultPostID j = None \<and> jResultReplyID j = None \<and> jPublishedAttemptID j = None"

definition job_result :: "GenerationJob \<Rightarrow> bool" where
  "job_result j \<longleftrightarrow>
     (\<exists>p f i. jPublishedAttemptID j = Some p \<and> valid_generation_id p \<and> valid_generation_id i \<and>
        jFinishedAt j = Some f \<and> jCreatedAt j \<le> f \<and> jAvailableAt j \<le> f \<and> f < jExpiresAt j \<and>
        (if jOutputKind j = OutputReply then jResultReplyID j = Some i \<and> jResultPostID j = None
         else jResultPostID j = Some i \<and> jResultReplyID j = None))"

definition job_state :: "GenerationJob \<Rightarrow> bool" where
  "job_state j \<longleftrightarrow>
     jCreatedAt j \<noteq> 0 \<and> jCreatedAt j \<le> jAvailableAt j \<and> jAvailableAt j < jExpiresAt j \<and>
     (case jStatus j of
        JobPending \<Rightarrow> jLeaseVersion j = 0 \<and> jLeaseExpiresAt j = None \<and> jFinishedAt j = None \<and>
          no_result j \<and> jReasonCode j = []
      | JobRunning \<Rightarrow> 0 < jLeaseVersion j \<and> (\<exists>e > jAvailableAt j. jLeaseExpiresAt j = Some e) \<and>
          jFinishedAt j = None \<and> no_result j \<and> jReasonCode j = []
      | JobRetryWait \<Rightarrow> 0 < jLeaseVersion j \<and> jLeaseExpiresAt j = None \<and> jFinishedAt j = None \<and>
          no_result j \<and> valid_generation_code (jReasonCode j)
      | JobSucceeded \<Rightarrow> 0 < jLeaseVersion j \<and> jLeaseExpiresAt j = None \<and> job_result j \<and>
          jReasonCode j = []
      | JobStatusOther _ \<Rightarrow> False
      | _ \<Rightarrow> 0 \<le> jLeaseVersion j \<and> jLeaseExpiresAt j = None \<and>
          (\<exists>f \<ge> jCreatedAt j. jFinishedAt j = Some f) \<and> no_result j \<and>
          valid_generation_code (jReasonCode j))"

definition result_refs :: "GenerationJob \<Rightarrow> bool" where
  "result_refs j \<longleftrightarrow> list_all (\<lambda>r. case r of None \<Rightarrow> True | Some i \<Rightarrow> valid_generation_id i)
     [jResultPostID j, jResultReplyID j, jPublishedAttemptID j]"

lemma job_state_iff:
  "job_state j \<longleftrightarrow> jCreatedAt j \<noteq> 0 \<and> jCreatedAt j \<le> jAvailableAt j \<and> jAvailableAt j < jExpiresAt j \<and>
     0 \<le> jLeaseVersion j \<and> result_refs j \<and> validate_status j = None \<and> validate_result j = None"
proof (cases "jStatus j")
  case JobSucceeded
  then show ?thesis
    by (cases "jFinishedAt j"; cases "jPublishedAttemptID j"; cases "jResultPostID j"; cases "jResultReplyID j")
       (auto simp: job_state_def result_refs_def validate_status_def validate_result_def job_terminal_def
         job_result_def)
next
  case JobRunning
  then show ?thesis
    by (cases "jLeaseExpiresAt j")
       (auto simp: job_state_def result_refs_def validate_status_def validate_result_def job_terminal_def
         no_result_def)
qed (cases "jFinishedAt j";
     auto simp: job_state_def result_refs_def validate_status_def validate_result_def job_terminal_def
       no_result_def)+

lemma bad_ref: "list_ex (\<lambda>r. case r of None \<Rightarrow> False | Some i \<Rightarrow> \<not> P i) xs
    \<longleftrightarrow> \<not> list_all (\<lambda>r. case r of None \<Rightarrow> True | Some i \<Rightarrow> P i) xs"
  by (induction xs) (auto split: option.splits)

lemma validate_job_iff [valid_simps]: "validate_job j = None \<longleftrightarrow> job_core j \<and> job_state j"
  unfolding validate_job_def job_core_def job_state_iff result_refs_def or_else_None first_error_None
    bad_ref list.set ball_simps fst_conv de_Morgan_disj not_not not_less not_le not_imp de_Morgan_conj
    list.pred_inject insert_iff empty_iff
  by (rule iffI; (elim conjE); (intro conjI); (assumption | simp))

section \<open>The lifecycle as a step relation\<close>

definition close_job :: "GenerationJobStatus \<Rightarrow> string \<Rightarrow> time \<Rightarrow> GenerationJob \<Rightarrow> GenerationJob" where
  "close_job s r now j = j\<lparr>jStatus := s, jReasonCode := r, jFinishedAt := Some now, jLeaseExpiresAt := None\<rparr>"

definition set_result :: "ID \<Rightarrow> GenerationJob \<Rightarrow> GenerationJob" where
  "set_result i j = (if jOutputKind j = OutputReply then j\<lparr>jResultReplyID := Some i\<rparr>
                     else j\<lparr>jResultPostID := Some i\<rparr>)"

definition queued :: "GenerationJob \<Rightarrow> bool" where
  "queued j \<longleftrightarrow> jStatus j = JobPending \<or> jStatus j = JobRetryWait"

definition lease_live :: "GenerationJob \<Rightarrow> time \<Rightarrow> bool" where
  "lease_live j now \<longleftrightarrow> jStatus j = JobRunning \<and> now < the (jLeaseExpiresAt j)"

definition closing :: "GenerationJobStatus \<Rightarrow> bool" where
  "closing s \<longleftrightarrow> s = JobSkipped \<or> s = JobCancelled \<or> s = JobFailed"

inductive job_step :: "time \<Rightarrow> GenerationAttempt option \<Rightarrow> GenerationJob \<Rightarrow> GenerationJob \<Rightarrow> bool" for now where
  claim: "queued j \<or> jStatus j = JobRunning \<and> \<not> lease_live j now \<Longrightarrow> jLeaseVersion j \<noteq> max_int64 \<Longrightarrow>
    jAvailableAt j \<le> now \<Longrightarrow> now < jExpiresAt j \<Longrightarrow> \<not> removed_repost j \<Longrightarrow> now < e \<Longrightarrow>
    job_step now None j (j\<lparr>jStatus := JobRunning, jLeaseVersion := jLeaseVersion j + 1,
      jLeaseExpiresAt := Some e, jReasonCode := []\<rparr>)"
| renew: "lease_live j now \<Longrightarrow> now < jExpiresAt j \<Longrightarrow> \<not> removed_repost j \<Longrightarrow>
    the (jLeaseExpiresAt j) < e \<Longrightarrow> job_step now None j (j\<lparr>jLeaseExpiresAt := Some e\<rparr>)"
| postpone: "lease_live j now \<Longrightarrow> \<not> removed_repost j \<Longrightarrow> now \<le> t \<Longrightarrow> t < jExpiresAt j \<Longrightarrow>
    valid_generation_code r \<Longrightarrow>
    job_step now None j (j\<lparr>jStatus := JobRetryWait, jAvailableAt := t, jLeaseExpiresAt := None, jReasonCode := r\<rparr>)"
| finish: "lease_live j now \<or> queued j \<Longrightarrow> now < jExpiresAt j \<Longrightarrow> closing s \<Longrightarrow>
    (removed_repost j \<longrightarrow> s = JobCancelled) \<Longrightarrow> valid_generation_code r \<Longrightarrow>
    job_step now None j (close_job s r now j)"
| expire: "queued j \<or> jStatus j = JobRunning \<Longrightarrow> jExpiresAt j \<le> now \<Longrightarrow>
    job_step now None j (close_job JobSkipped ''stale_trigger'' now j)"
| revoke: "jStatus j = JobRunning \<Longrightarrow> removed_repost j \<Longrightarrow> now < jExpiresAt j \<Longrightarrow>
    job_step now None j (close_job JobCancelled ''source_removed'' now j)"
| reopen: "jStatus j = JobFailed \<Longrightarrow> 0 < jLeaseVersion j \<Longrightarrow> the (jFinishedAt j) \<le> now \<Longrightarrow>
    \<not> removed_repost j \<Longrightarrow> now \<le> t \<Longrightarrow> t < jExpiresAt j \<Longrightarrow> valid_generation_code r \<Longrightarrow>
    job_step now None j (j\<lparr>jStatus := JobRetryWait, jAvailableAt := t, jFinishedAt := None, jReasonCode := r\<rparr>)"
| publish: "validate_lease j (jLeaseVersion j) now = None \<Longrightarrow> \<not> removed_repost j \<Longrightarrow>
    validate_attempt t = None \<Longrightarrow> aJobID t = jID j \<Longrightarrow> aLeaseVersion t = jLeaseVersion j \<Longrightarrow>
    aStatus t = AttemptSucceeded \<Longrightarrow> jAvailableAt j \<le> aStartedAt t \<Longrightarrow> the (aFinishedAt t) \<le> now \<Longrightarrow>
    valid_generation_id i \<Longrightarrow>
    job_step now (Some t) j (set_result i (close_job JobSucceeded [] now j\<lparr>jPublishedAttemptID := Some (aID t)\<rparr>))"

lemma identity_update [simp]:
  "same_identity j (j\<lparr>jStatus := s, jLeaseVersion := v, jLeaseExpiresAt := e, jReasonCode := r\<rparr>)"
  "same_identity j (j\<lparr>jLeaseExpiresAt := e\<rparr>)"
  "same_identity j (j\<lparr>jStatus := s, jAvailableAt := t, jLeaseExpiresAt := e, jReasonCode := r\<rparr>)"
  "same_identity j (j\<lparr>jStatus := s, jAvailableAt := t, jFinishedAt := f, jReasonCode := r\<rparr>)"
  "same_identity j (close_job s r now j)"
  "same_identity j (set_result i (close_job s r now j\<lparr>jPublishedAttemptID := p\<rparr>))"
  by (simp_all add: same_identity_def close_job_def set_result_def)

lemma job_eqI:
  assumes "same_identity b a" "same_identity b c"
    and "jStatus a = jStatus c" "jAvailableAt a = jAvailableAt c" "jLeaseVersion a = jLeaseVersion c"
    and "jLeaseExpiresAt a = jLeaseExpiresAt c" "jResultPostID a = jResultPostID c"
    and "jResultReplyID a = jResultReplyID c" "jPublishedAttemptID a = jPublishedAttemptID c"
    and "jReasonCode a = jReasonCode c" "jFinishedAt a = jFinishedAt c"
  shows "(a :: GenerationJob) = c"
  using assms by (intro GenerationJob.equality) (simp_all add: same_identity_def)

text \<open>The immutable part of validity belongs to the identity.\<close>

lemma job_core_identity: "same_identity b a \<Longrightarrow> job_core a = job_core b"
  by (simp only: same_identity_def job_core_def validate_trigger_def)

lemma removed_repost_identity: "same_identity b a \<Longrightarrow> removed_repost a = removed_repost b"
  by (simp add: same_identity_def removed_repost_def)

definition transition_ok :: "GenerationJob \<Rightarrow> GenerationJob \<Rightarrow> time \<Rightarrow> bool" where
  "transition_ok b a now \<longleftrightarrow> same_identity b a \<and> jStatus b \<notin> {JobSucceeded, JobSkipped, JobCancelled} \<and>
     jCreatedAt b \<le> now \<and> (\<forall>f. jFinishedAt b = Some f \<longrightarrow> f \<le> now) \<and>
     (removed_repost b \<longrightarrow> jStatus a = JobCancelled \<or>
        jStatus a = JobSkipped \<and> jReasonCode a = ''stale_trigger'' \<and> jExpiresAt b \<le> now) \<and>
     (\<forall>f. jFinishedAt a = Some f \<longrightarrow> f = now) \<and>
     (\<forall>g \<in> set (transition_guards b a now). \<not> fst g) \<and>
     (if jStatus a = JobRetryWait then now \<le> jAvailableAt a \<and> now < jExpiresAt b
      else jAvailableAt a = jAvailableAt b) \<and>
     (jExpiresAt b \<le> now \<longrightarrow> jStatus a = JobSkipped \<and> jReasonCode a = ''stale_trigger'')"

lemma validate_transition_iff:
  "validate_transition b a v now att = None \<longleftrightarrow>
     job_core b \<and> job_state b \<and> job_core a \<and> job_state a \<and> v = jLeaseVersion b \<and>
     transition_ok b a now \<and> validate_publication b a v now att = None"
  unfolding validate_transition_def transition_ok_def or_else_None first_error_None validate_job_iff
    set_append ball_Un list.set ball_simps fst_conv
  by (auto simp: not_less not_le split: option.splits if_splits)


lemmas step_state_defs = job_state_def no_result_def closing_def queued_def lease_live_def job_terminal_def


lemma validate_lease_iff [valid_simps]:
  "validate_lease j v now = None \<longleftrightarrow> jStatus j = JobRunning \<and> 0 < v \<and> jLeaseVersion j = v \<and>
     (\<exists>e > now. jLeaseExpiresAt j = Some e) \<and> now < jExpiresAt j \<and> jAvailableAt j \<le> now"
  by (auto simp: validate_lease_def not_less not_le split: option.splits)

lemma step_preserves_state:
  assumes "job_step now att b a" "job_state b" "jCreatedAt b \<le> now"
  shows "job_state a"
  using assms
proof (cases rule: job_step.cases)
  case (publish t i)
  then have "jStatus b = JobRunning" "valid_generation_id (aID t)" "now < jExpiresAt b" "jAvailableAt b \<le> now"
    by (auto simp: valid_simps attempt_core_def)
  with publish show ?thesis using assms(2,3)
    by (auto simp: job_state_def no_result_def close_job_def set_result_def job_result_def)
qed (auto simp: step_state_defs close_job_def valid_simps split: GenerationJobStatus.splits)

text \<open>Soundness of the step relation: every step passes the contract.\<close>

lemma job_step_accepted:
  assumes "job_step now att b a" "job_core b" "job_state b" "jCreatedAt b \<le> now"
  shows "validate_transition b a (jLeaseVersion b) now att = None"
proof -
  have id: "same_identity b a" using assms(1) by cases auto
  have st: "job_state a" using step_preserves_state assms by blast
  have "transition_ok b a now \<and> validate_publication b a (jLeaseVersion b) now att = None"
    using assms(1)
  proof (cases rule: job_step.cases)
    case (publish t i)
    then show ?thesis using assms(3,4) id
      by (auto simp: transition_ok_def transition_guards_def is_claim_def validate_publication_def
        step_state_defs close_job_def set_result_def job_result_def validate_lease_def
        split: option.splits if_splits)
  qed (use id assms(3,4) in \<open>auto simp: transition_ok_def transition_guards_def is_claim_def
    validate_publication_def step_state_defs close_job_def Let_def
    split: option.splits if_splits GenerationJobStatus.splits\<close>)
  with id st assms show ?thesis
    by (simp add: validate_transition_iff job_core_identity [OF id])
qed

subsection \<open>Completeness: the contract accepts nothing else\<close>

definition accepted :: "GenerationJob \<Rightarrow> GenerationJob \<Rightarrow> time \<Rightarrow> bool" where
  "accepted b a now \<longleftrightarrow> job_state b \<and> job_state a \<and> transition_ok b a now"

lemma accepted_same:
  assumes "accepted b a now"
  shows "same_identity b a" "jExpiresAt a = jExpiresAt b" "jOutputKind a = jOutputKind b" "jID a = jID b"
    "jCreatedAt b \<le> now"
  using assms by (auto simp: accepted_def transition_ok_def same_identity_def)

lemmas accepted_defs = accepted_def transition_ok_def transition_guards_def is_claim_def Let_def

lemma accepted_claim:
  assumes ok: "accepted b a now" and claim: "is_claim b a now"
  shows "job_step now None b a"
proof -
  obtain e where e: "jLeaseExpiresAt a = Some e"
    using ok claim by (auto simp: is_claim_def accepted_def job_state_def)
  have "a = b\<lparr>jStatus := JobRunning, jLeaseVersion := jLeaseVersion b + 1,
      jLeaseExpiresAt := Some e, jReasonCode := []\<rparr>"
    using claim ok e
    by (intro job_eqI [OF accepted_same(1) [OF ok]]) (auto simp: accepted_defs job_state_def no_result_def)
  then show ?thesis
    using claim ok e by (auto simp: accepted_defs queued_def lease_live_def intro!: job_step.claim)
qed

lemma accepted_renew:
  assumes ok: "accepted b a now" and run: "jStatus a = JobRunning" "\<not> is_claim b a now"
  shows "job_step now None b a"
proof -
  have b: "jStatus b = JobRunning"
    using ok run by (auto simp: accepted_defs job_state_def split: if_splits GenerationJobStatus.splits)
  obtain e where e: "jLeaseExpiresAt a = Some e" using ok run by (auto simp: accepted_def job_state_def)
  have "a = b\<lparr>jLeaseExpiresAt := Some e\<rparr>"
    using run b ok e
    by (intro job_eqI [OF accepted_same(1) [OF ok]]) (auto simp: accepted_defs job_state_def no_result_def)
  then show ?thesis
    using run b ok e by (auto simp: accepted_defs lease_live_def intro!: job_step.renew)
qed

lemma accepted_retry:
  assumes ok: "accepted b a now" and retry: "jStatus a = JobRetryWait"
  shows "job_step now None b a"
proof -
  note same = accepted_same [OF ok]
  have "jStatus b = JobRunning \<or> jStatus b = JobFailed"
    using ok retry by (auto simp: accepted_defs job_state_def split: if_splits GenerationJobStatus.splits)
  then show ?thesis
  proof
    assume b: "jStatus b = JobRunning"
    have "a = b\<lparr>jStatus := JobRetryWait, jAvailableAt := jAvailableAt a, jLeaseExpiresAt := None,
        jReasonCode := jReasonCode a\<rparr>"
      using retry b ok by (intro job_eqI [OF same(1)]) (auto simp: accepted_defs job_state_def no_result_def)
    moreover have "job_step now None b (b\<lparr>jStatus := JobRetryWait, jAvailableAt := jAvailableAt a,
        jLeaseExpiresAt := None, jReasonCode := jReasonCode a\<rparr>)"
      using retry b ok same by (intro job_step.postpone) (auto simp: accepted_defs lease_live_def job_state_def)
    ultimately show ?thesis by simp
  next
    assume b: "jStatus b = JobFailed"
    have "a = b\<lparr>jStatus := JobRetryWait, jAvailableAt := jAvailableAt a, jFinishedAt := None,
        jReasonCode := jReasonCode a\<rparr>"
      using retry b ok by (intro job_eqI [OF same(1)]) (auto simp: accepted_defs job_state_def no_result_def)
    moreover have "job_step now None b (b\<lparr>jStatus := JobRetryWait, jAvailableAt := jAvailableAt a,
        jFinishedAt := None, jReasonCode := jReasonCode a\<rparr>)"
      using retry b ok same by (intro job_step.reopen) (auto simp: accepted_defs lease_live_def job_state_def)
    ultimately show ?thesis by simp
  qed
qed

lemma accepted_close:
  assumes ok: "accepted b a now" and close: "closing (jStatus a)"
  shows "job_step now None b a"
proof -
  have s: "queued b \<or> jStatus b = JobRunning"
    using ok close
    by (auto simp: accepted_defs closing_def queued_def job_state_def split: if_splits GenerationJobStatus.splits)
  have fin: "jFinishedAt a = Some now" "valid_generation_code (jReasonCode a)"
    using close ok by (auto simp: accepted_def closing_def job_state_def transition_ok_def)
  have nc: "\<not> is_claim b a now" "jStatus a \<noteq> JobRetryWait" using close by (auto simp: is_claim_def closing_def)
  then have keep: "jLeaseVersion a = jLeaseVersion b" "jAvailableAt a = jAvailableAt b"
    using ok by (simp_all add: accepted_def transition_ok_def transition_guards_def)
  have "no_result a" "jLeaseExpiresAt a = None" "no_result b"
    using close ok s by (auto simp: accepted_def closing_def job_state_def queued_def)
  with keep fin have a: "a = close_job (jStatus a) (jReasonCode a) now b"
    by (intro job_eqI [OF accepted_same(1) [OF ok]]) (simp_all add: no_result_def close_job_def same_identity_def)
  consider "jExpiresAt b \<le> now" | "now < jExpiresAt b" "lease_live b now \<or> queued b"
    | "now < jExpiresAt b" "jStatus b = JobRunning" "\<not> lease_live b now" using s by force
  then have "job_step now None b (close_job (jStatus a) (jReasonCode a) now b)"
  proof cases
    case 1
    then have "jStatus a = JobSkipped" "jReasonCode a = ''stale_trigger''"
      using ok by (auto simp: accepted_def transition_ok_def)
    then show ?thesis using 1 s by (simp add: job_step.expire)
  next
    case 2
    then show ?thesis
      using close fin ok by (intro job_step.finish) (auto simp: accepted_def transition_ok_def)
  next
    case 3
    then have "jStatus a = JobCancelled" "jReasonCode a = ''source_removed''" "removed_repost b"
      using ok close nc by (auto simp: accepted_defs lease_live_def closing_def split: if_splits)
    then show ?thesis using 3 by (simp add: job_step.revoke)
  qed
  then show ?thesis using a by simp
qed

lemma accepted_publish:
  assumes ok: "accepted b a now" and s: "jStatus a = JobSucceeded"
    and pub: "validate_publication b a (jLeaseVersion b) now att = None"
  shows "job_step now att b a"
proof -
  note same = accepted_same [OF ok]
  obtain t where t: "att = Some t" "validate_lease b (jLeaseVersion b) now = None" "validate_attempt t = None"
      "aID t = the (jPublishedAttemptID a)" "aJobID t = jID a" "aLeaseVersion t = jLeaseVersion a"
      "aStatus t = AttemptSucceeded" "jAvailableAt b \<le> aStartedAt t" "the (aFinishedAt t) \<le> now"
    using pub s by (auto simp: validate_publication_def not_less split: option.splits if_splits)
  have b: "jStatus b = JobRunning" using t(2) by (simp add: validate_lease_iff)
  have keep: "jLeaseVersion a = jLeaseVersion b" "jAvailableAt a = jAvailableAt b" "\<not> removed_repost b"
    using ok s by (auto simp: accepted_def transition_ok_def transition_guards_def is_claim_def)
  obtain i where i: "valid_generation_id i" "(if jOutputKind b = OutputReply
        then jResultReplyID a = Some i \<and> jResultPostID a = None
        else jResultPostID a = Some i \<and> jResultReplyID a = None)"
      "jFinishedAt a = Some now" "jPublishedAttemptID a = Some (aID t)" "jLeaseExpiresAt a = None" "jReasonCode a = []"
    using ok s t(4) same by (auto simp: accepted_def job_state_def job_result_def transition_ok_def)
  have "no_result b" using ok b by (simp add: accepted_def job_state_def)
  with i keep s have "a = set_result i (close_job JobSucceeded [] now b\<lparr>jPublishedAttemptID := Some (aID t)\<rparr>)"
    by (intro job_eqI [OF same(1)])
       (auto simp: no_result_def close_job_def set_result_def same_identity_def split: if_splits)
  with t i keep same show ?thesis by (auto intro!: job_step.publish)
qed

lemma accepted_job_step:
  assumes ok: "accepted b a now" and pub: "validate_publication b a (jLeaseVersion b) now att = None"
  shows "job_step now att b a"
proof (cases "jStatus a = JobSucceeded")
  case True
  show ?thesis by (rule accepted_publish [OF ok True pub])
next
  case False
  then have att: "att = None" using pub by (simp add: validate_publication_def split: if_splits)
  have "jStatus a \<noteq> JobPending"
    using ok by (auto simp: accepted_defs job_state_def split: if_splits GenerationJobStatus.splits)
  moreover have "jStatus a \<noteq> JobStatusOther s" for s using ok by (auto simp: accepted_def job_state_def)
  ultimately show ?thesis
    using False accepted_claim [OF ok] accepted_renew [OF ok] accepted_retry [OF ok] accepted_close [OF ok]
    unfolding att by (cases "jStatus a") (auto simp: closing_def)
qed

lemma transition_step:
  assumes "validate_transition b a v now att = None"
  shows "job_step now att b a" "job_core b" "job_core a" "job_state b" "job_state a" "v = jLeaseVersion b"
    "jCreatedAt b \<le> now"
proof -
  have "accepted b a now" "validate_publication b a (jLeaseVersion b) now att = None"
    using assms unfolding validate_transition_iff accepted_def by auto
  then show "job_step now att b a" by (rule accepted_job_step)
qed (use assms in \<open>auto simp: validate_transition_iff transition_ok_def\<close>)

text \<open>
  C1: \<open>ValidateGenerationJobTransition\<close> accepts exactly the lifecycle.  Its guards let a change of a
  job through if and only if the job is valid, the caller's fence is current, the clock is not
  before the creation, and the change is one of the eight steps of \<open>job_step\<close>.
\<close>

theorem transition_iff_step:
  "validate_transition b a v now att = None \<longleftrightarrow>
     validate_job b = None \<and> v = jLeaseVersion b \<and> jCreatedAt b \<le> now \<and> job_step now att b a"
proof
  assume l: "validate_transition b a v now att = None"
  then have "accepted b a now" "job_core b" "v = jLeaseVersion b"
      "validate_publication b a (jLeaseVersion b) now att = None"
    unfolding validate_transition_iff accepted_def by auto
  then show "validate_job b = None \<and> v = jLeaseVersion b \<and> jCreatedAt b \<le> now \<and> job_step now att b a"
    using accepted_job_step [of b a now att] by (simp add: validate_job_iff accepted_def transition_ok_def)
next
  assume r: "validate_job b = None \<and> v = jLeaseVersion b \<and> jCreatedAt b \<le> now \<and> job_step now att b a"
  then show "validate_transition b a v now att = None"
    using job_step_accepted [of now att b a] by (auto simp only: validate_job_iff)
qed


section \<open>What follows of a job's life\<close>

inductive_cases job_stepE: "job_step now att b a"

definition final :: "GenerationJob \<Rightarrow> bool" where
  "final j \<longleftrightarrow> jStatus j = JobSucceeded \<or> jStatus j = JobSkipped \<or> jStatus j = JobCancelled"

text \<open>
  One accepted change of a job, by the lifecycle contract or by the source cleanup contract, at some
  clock reading; and any number of them.
\<close>

definition moves :: "GenerationJob \<Rightarrow> GenerationJob \<Rightarrow> bool" where
  "moves b a \<longleftrightarrow> (\<exists>v now att. validate_transition b a v now att = None) \<or>
     (\<exists>v now. validate_invalidation b a v now = None)"

abbreviation moves_on :: "GenerationJob \<Rightarrow> GenerationJob \<Rightarrow> bool" where
  "moves_on \<equiv> moves\<^sup>*\<^sup>*"

lemma step_version: "job_step now att b a \<Longrightarrow> jLeaseVersion a = jLeaseVersion b \<or>
    jLeaseVersion a = jLeaseVersion b + 1 \<and> jStatus a = JobRunning"
  by (erule job_stepE) (auto simp: close_job_def set_result_def)

lemma step_to_running: "job_step now att b a \<Longrightarrow> jStatus a = JobRunning \<Longrightarrow> jStatus b \<noteq> JobRunning \<Longrightarrow>
    jLeaseVersion a = jLeaseVersion b + 1"
  by (erule job_stepE) (auto simp: close_job_def set_result_def lease_live_def closing_def split: if_splits)

lemma step_not_final: "job_step now att b a \<Longrightarrow> \<not> final b"
  by (erule job_stepE) (auto simp: final_def queued_def lease_live_def validate_lease_iff)

lemma step_identity: "job_step now att b a \<Longrightarrow> same_identity b a"
  by (erule job_stepE) auto

text \<open>The cleanup contract closes a queued or running job and changes nothing else.\<close>

lemma invalidation_iff [valid_simps]:
  "validate_invalidation b a v now = None \<longleftrightarrow>
     job_core b \<and> job_state b \<and> job_core a \<and> job_state a \<and> v = jLeaseVersion b \<and>
     jSourcePostID b \<noteq> None \<and> jStatus b \<in> {JobPending, JobRetryWait, JobRunning} \<and> jCreatedAt b \<le> now \<and>
     same_identity b a \<and> jLeaseVersion a = jLeaseVersion b \<and> jLeaseExpiresAt a = None \<and>
     jAvailableAt a = jAvailableAt b \<and> jFinishedAt a = Some now \<and>
     (if jExpiresAt b \<le> now then jStatus a = JobSkipped \<and> jReasonCode a = ''stale_trigger''
      else jStatus a = JobCancelled \<and> jReasonCode a = ''source_removed'')"
  unfolding validate_invalidation_def or_else_None first_error_None validate_job_iff
  by (auto simp: not_less not_le Let_def split: option.splits if_splits)

lemma moves_facts:
  assumes "moves b a"
  shows "same_identity b a" "\<not> final b" "job_core b" "job_state b" "job_core a" "job_state a"
    "jLeaseVersion a = jLeaseVersion b \<or> jLeaseVersion a = jLeaseVersion b + 1 \<and> jStatus a = JobRunning"
    "jStatus a = JobRunning \<Longrightarrow> jStatus b \<noteq> JobRunning \<Longrightarrow> jLeaseVersion a = jLeaseVersion b + 1"
proof -
  have "same_identity b a \<and> \<not> final b \<and> job_core b \<and> job_state b \<and> job_core a \<and> job_state a \<and>
    (jLeaseVersion a = jLeaseVersion b \<or> jLeaseVersion a = jLeaseVersion b + 1 \<and> jStatus a = JobRunning) \<and>
    (jStatus a = JobRunning \<longrightarrow> jStatus b \<noteq> JobRunning \<longrightarrow> jLeaseVersion a = jLeaseVersion b + 1)"
    using assms unfolding moves_def
  proof (elim disjE exE)
    fix v now att
    assume t: "validate_transition b a v now att = None"
    note s = transition_step(1) [OF t]
    show ?thesis
      using step_identity [OF s] step_not_final [OF s] transition_step(2-5) [OF t] step_version [OF s]
        step_to_running [OF s] by blast
  next
    fix v now
    assume "validate_invalidation b a v now = None"
    then show ?thesis by (auto simp: invalidation_iff final_def split: if_splits)
  qed
  then show "same_identity b a" "\<not> final b" "job_core b" "job_state b" "job_core a" "job_state a"
    "jLeaseVersion a = jLeaseVersion b \<or> jLeaseVersion a = jLeaseVersion b + 1 \<and> jStatus a = JobRunning"
    "jStatus a = JobRunning \<Longrightarrow> jStatus b \<noteq> JobRunning \<Longrightarrow> jLeaseVersion a = jLeaseVersion b + 1" by blast+
qed

lemma same_identity_trans: "same_identity a b \<Longrightarrow> same_identity b c \<Longrightarrow> same_identity a c"
  by (simp add: same_identity_def)

lemma same_identity_refl [simp]: "same_identity a a"
  by (simp add: same_identity_def)

lemma moves_on_version: "moves_on b a \<Longrightarrow> jLeaseVersion b \<le> jLeaseVersion a"
  by (induction rule: rtranclp_induct) (auto dest: moves_facts(7))

lemma moves_on_identity: "moves_on b a \<Longrightarrow> same_identity b a"
  by (induction rule: rtranclp_induct) (auto dest: moves_facts(1) intro: same_identity_trans)

lemma moves_on_final: "moves_on b a \<Longrightarrow> final b \<Longrightarrow> a = b"
  by (induction rule: converse_rtranclp_induct) (auto dest: moves_facts(2))

lemma moves_on_valid: "moves_on b a \<Longrightarrow> validate_job b = None \<Longrightarrow> validate_job a = None"
  by (induction rule: rtranclp_induct) (auto simp: validate_job_iff dest: moves_facts(5,6))

lemma moves_on_not_running:
  "moves_on b a \<Longrightarrow> jStatus b \<noteq> JobRunning \<Longrightarrow> jStatus a = JobRunning \<Longrightarrow> jLeaseVersion b < jLeaseVersion a"
proof (induction rule: rtranclp_induct)
  case (step m a)
  show ?case
  proof (cases "jStatus m = JobRunning")
    case True
    with step show ?thesis by (auto dest: moves_facts(7))
  next
    case False
    then show ?thesis
      using moves_facts(8) [OF step.hyps(2)] step.prems moves_on_version [OF step.hyps(1)] by simp
  qed
qed simp

text \<open>A concrete reply job, for evaluating the contract.\<close>

definition sample_job :: GenerationJob where
  "sample_job = \<lparr>jID = sample_id CHR ''1'', jAgentID = sample_id CHR ''2'', jPersonaVersion = 1,
     jTriggerKind = TriggerReply, jTriggerKey = ''reply:k'', jTriggerActorID = Some (sample_id CHR ''3''),
     jCooldownKey = ''cooldown:k'', jSourcePostID = Some (sample_id CHR ''4''),
     jSourceReplyID = Some (sample_id CHR ''5''), jSourceRepostID = None, jOutputKind = OutputReply,
     jRootJobID = sample_id CHR ''1'', jChainDepth = 0, jMaxChainDepth = 2, jMaxChainJobs = 4,
     jStatus = JobPending, jAvailableAt = 1000000, jExpiresAt = 9000000, jLeaseVersion = 0,
     jLeaseExpiresAt = None, jResultPostID = None, jResultReplyID = None, jPublishedAttemptID = None,
     jReasonCode = [], jCreatedAt = 1000000, jFinishedAt = None\<rparr>"

lemma sample_job_valid: "validate_job sample_job = None"
  by (simp add: validate_job_iff job_core_def job_state_def no_result_def sample_job_def
    validate_trigger_def visible_text class_defs)

definition sample_claimed :: GenerationJob where
  "sample_claimed = sample_job\<lparr>jStatus := JobRunning, jLeaseVersion := 1, jLeaseExpiresAt := Some 3000000\<rparr>"

definition sample_renewed :: GenerationJob where
  "sample_renewed = sample_claimed\<lparr>jLeaseExpiresAt := Some 4000000\<rparr>"

definition sample_closed :: GenerationJob where
  "sample_closed = close_job JobSkipped ''not_relevant'' 3500000 sample_renewed"

lemma movesI:
  assumes "job_step now att b a" "validate_job b = None" "jCreatedAt b \<le> now"
  shows "moves b a"
  using job_step_accepted [OF assms(1)] assms(2,3) by (auto simp: moves_def validate_job_iff)

lemmas sample_defs = sample_closed_def sample_renewed_def sample_claimed_def sample_job_def

lemma sample_claimed_valid: "validate_job sample_claimed = None"
  using sample_job_valid
  by (simp add: validate_job_iff job_core_def job_state_def no_result_def sample_defs validate_trigger_def)

lemma sample_renewed_valid: "validate_job sample_renewed = None"
  using sample_job_valid
  by (simp add: validate_job_iff job_core_def job_state_def no_result_def sample_defs validate_trigger_def)

lemma sample_moves:
  "moves sample_job sample_claimed" "moves sample_claimed sample_renewed" "moves sample_renewed sample_closed"
proof -
  have "job_step 2000000 None sample_job (sample_job\<lparr>jStatus := JobRunning,
      jLeaseVersion := jLeaseVersion sample_job + 1, jLeaseExpiresAt := Some 3000000, jReasonCode := []\<rparr>)"
    by (intro job_step.claim) (simp_all add: sample_job_def queued_def max_int64_def removed_repost_def)
  moreover have "sample_claimed = sample_job\<lparr>jStatus := JobRunning,
      jLeaseVersion := jLeaseVersion sample_job + 1, jLeaseExpiresAt := Some 3000000, jReasonCode := []\<rparr>"
    by (simp add: sample_defs)
  ultimately show "moves sample_job sample_claimed"
    using sample_job_valid by (intro movesI [of 2000000 None]) (simp_all add: sample_job_def)
  have "job_step 2500000 None sample_claimed sample_renewed"
    unfolding sample_renewed_def
    by (intro job_step.renew) (simp_all add: sample_defs lease_live_def removed_repost_def)
  then show "moves sample_claimed sample_renewed"
    using sample_claimed_valid by (intro movesI [of 2500000 None]) (simp_all add: sample_defs)
  have "job_step 3500000 None sample_renewed sample_closed"
    unfolding sample_closed_def
    by (intro job_step.finish) (simp_all add: sample_defs lease_live_def closing_def removed_repost_def)
  then show "moves sample_renewed sample_closed"
    using sample_renewed_valid by (intro movesI [of 3500000 None]) (simp_all add: sample_defs)
qed

text \<open>
  The deletion of a repost is the one change of a job row that no contract sees: the foreign key of
  \<open>migrations/003_generation.sql\<close> sets \<open>source_repost_id\<close> to null, and the trigger \<open>protect_generation_job\<close> lets
  exactly this change through, whatever the status of the job, a terminal one included.
\<close>

definition clear_repost :: "GenerationJob \<Rightarrow> GenerationJob" where
  "clear_repost j = j\<lparr>jSourceRepostID := None\<rparr>"

definition row_step :: "GenerationJob \<Rightarrow> GenerationJob \<Rightarrow> bool" where
  "row_step b a \<longleftrightarrow> moves b a \<or> jSourceRepostID b \<noteq> None \<and> a = clear_repost b"

abbreviation row_steps :: "GenerationJob \<Rightarrow> GenerationJob \<Rightarrow> bool" where
  "row_steps \<equiv> row_step\<^sup>*\<^sup>*"

lemma moves_on_row_steps: "moves_on b a \<Longrightarrow> row_steps b a"
  by (induction rule: rtranclp_induct) (auto simp: row_step_def intro: rtranclp.rtrancl_into_rtrancl)

text \<open>The identity of a job, of which only the reference to a deleted repost may disappear.\<close>

definition kept_identity :: "GenerationJob \<Rightarrow> GenerationJob \<Rightarrow> bool" where
  "kept_identity b a \<longleftrightarrow>
     same_identity (b\<lparr>jSourceRepostID := jSourceRepostID a\<rparr>) a \<and>
     (jSourceRepostID a = jSourceRepostID b \<or> jSourceRepostID a = None)"

lemma row_step_facts:
  assumes "row_step b a"
  shows "kept_identity b a" "final b \<Longrightarrow> a = clear_repost b"
    "jLeaseVersion a = jLeaseVersion b \<or> jLeaseVersion a = jLeaseVersion b + 1 \<and> jStatus a = JobRunning"
    "jStatus a = JobRunning \<Longrightarrow> jStatus b \<noteq> JobRunning \<Longrightarrow> jLeaseVersion a = jLeaseVersion b + 1"
  using assms unfolding row_step_def
  by (auto simp: clear_repost_def kept_identity_def dest: moves_facts(1,2,7,8)) (auto simp: same_identity_def dest: moves_facts(1))

lemma row_steps_version: "row_steps b a \<Longrightarrow> jLeaseVersion b \<le> jLeaseVersion a"
  by (induction rule: rtranclp_induct) (auto dest: row_step_facts(3))

lemma kept_identity_trans: "kept_identity a b \<Longrightarrow> kept_identity b c \<Longrightarrow> kept_identity a c"
  by (auto simp: kept_identity_def same_identity_def)

lemma row_steps_identity: "row_steps b a \<Longrightarrow> kept_identity b a"
proof (induction rule: rtranclp_induct)
  case base
  then show ?case by (simp add: kept_identity_def)
next
  case (step m a)
  then show ?case using row_step_facts(1) kept_identity_trans by blast
qed

lemma row_steps_final: "row_steps b a \<Longrightarrow> final b \<Longrightarrow> a = b \<or> a = clear_repost b"
proof (induction rule: rtranclp_induct)
  case (step m a)
  then have "final m" "m = b \<or> m = clear_repost b" by (auto simp: final_def clear_repost_def)
  with row_step_facts(2) [OF step.hyps(2)] show ?case by (auto simp: clear_repost_def)
qed simp

lemma row_steps_not_running:
  "row_steps b a \<Longrightarrow> jStatus b \<noteq> JobRunning \<Longrightarrow> jStatus a = JobRunning \<Longrightarrow> jLeaseVersion b < jLeaseVersion a"
proof (induction rule: rtranclp_induct)
  case (step m a)
  show ?case
  proof (cases "jStatus m = JobRunning")
    case True
    with step show ?thesis using row_step_facts(3) [OF step.hyps(2)] by auto
  next
    case False
    then show ?thesis
      using row_step_facts(4) [OF step.hyps(2)] step.prems row_steps_version [OF step.hyps(1)] by simp
  qed
qed simp

text \<open>
  C2: fencing.  While two lease checks with the same version pass, the job was running under that
  version at every state of the row in between: no other worker claimed it, it was not finished, and it
  was not requeued.  Its identity, its creation and its expiry are still those of the first check, except
  that the reference to its repost may have been set to null because the repost was deleted.
\<close>

theorem lease_fencing:
  assumes "validate_lease b v t = None" "row_steps b m" "row_steps m a" "validate_lease a v t' = None"
  shows "jStatus m = JobRunning \<and> jLeaseVersion m = v \<and> same_identity (b\<lparr>jSourceRepostID := jSourceRepostID a\<rparr>) a \<and>
    (jSourceRepostID a = jSourceRepostID b \<or> jSourceRepostID a = None)"
proof -
  have v: "jLeaseVersion b = v" "jLeaseVersion a = v" "jStatus a = JobRunning"
    using assms(1,4) by (simp_all add: validate_lease_iff)
  then have "jLeaseVersion m = v"
    using row_steps_version [OF assms(2)] row_steps_version [OF assms(3)] by simp
  moreover have "jStatus m = JobRunning"
    using row_steps_not_running [OF assms(3)] v calculation by force
  moreover have "kept_identity b a"
    by (rule row_steps_identity [OF rtranclp_trans [OF assms(2,3)]])
  ultimately show ?thesis unfolding kept_identity_def by blast
qed

text \<open>A running reaction to a repost whose repost is deleted.\<close>

definition sample_reposted :: GenerationJob where
  "sample_reposted = sample_claimed\<lparr>jTriggerKind := TriggerRepost, jTriggerKey := ''repost:k'', jSourceReplyID := None,
     jSourceRepostID := Some (sample_id CHR ''6''), jOutputKind := OutputReply\<rparr>"

lemma sample_reposted_valid: "validate_job sample_reposted = None" "validate_job (clear_repost sample_reposted) = None"
  using sample_claimed_valid
  by (simp_all add: validate_job_iff job_core_def job_state_def no_result_def sample_reposted_def clear_repost_def sample_defs
      validate_trigger_def visible_text class_defs)

theorem lease_fencing_witness:
  "jStatus (clear_repost sample_reposted) = JobRunning \<and> jLeaseVersion (clear_repost sample_reposted) = 1"
proof -
  have "row_step sample_reposted (clear_repost sample_reposted)" by (simp add: row_step_def sample_reposted_def)
  moreover have "validate_lease sample_reposted 1 2000000 = None" "validate_lease (clear_repost sample_reposted) 1 2500000 = None"
    by (simp_all add: validate_lease_def clear_repost_def sample_reposted_def sample_defs)
  ultimately show ?thesis
    using lease_fencing [of sample_reposted 1 2000000 "clear_repost sample_reposted" "clear_repost sample_reposted" 2500000] by blast
qed

text \<open>
  C3: outcomes are final.  Of a job that succeeded, was skipped or was cancelled nothing ever changes
  again, except that the reference to its repost disappears when the repost is deleted; and along any
  life of a row the lease version never decreases.
\<close>

theorem outcomes_final:
  assumes "row_steps b a"
  shows "(final b \<longrightarrow> a = b \<or> a = b\<lparr>jSourceRepostID := None\<rparr>) \<and> jLeaseVersion b \<le> jLeaseVersion a"
  using row_steps_final [OF assms] row_steps_version [OF assms] by (auto simp: clear_repost_def)

theorem outcomes_final_witness: "jLeaseVersion sample_job \<le> jLeaseVersion sample_closed"
proof -
  have "row_step sample_job sample_claimed" "row_step sample_claimed sample_renewed" "row_step sample_renewed sample_closed"
    using sample_moves by (simp_all add: row_step_def)
  then have "row_steps sample_job sample_closed" by (meson r_into_rtranclp rtranclp.rtrancl_into_rtrancl)
  from outcomes_final [OF this] show ?thesis by blast
qed

end
