(* ===== verification/Zone.thy ===== *)
theory Zone
  imports GoTime
begin

text \<open>
  Time zones and wall clocks: the location parameter of Go's \<open>time\<close> package and the wall-clock
  boundaries of \<open>internal/app/generation_schedule.go\<close>.  A location gives for an instant the offset
  from UTC in seconds and the instant at which that offset ends, if it does (\<open>Zone\<close> and
  \<open>ZoneBounds\<close>).  The type carries what the package documents of the two: an interval ends after the
  instants it contains and its offset is constant.
\<close>

section \<open>Locations\<close>

definition zone_law :: "(time \<Rightarrow> int \<times> time option) \<Rightarrow> bool" where
  "zone_law z \<longleftrightarrow>
     (\<forall>t u. case snd (z t) of
        None \<Rightarrow> t \<le> u \<longrightarrow> z u = z t
      | Some e \<Rightarrow> t < e \<and> (t \<le> u \<and> u < e \<longrightarrow> z u = z t))"

typedef location = "{z. zone_law z}" morphisms zone_at Location
  by (intro exI [of _ "\<lambda>_. (0, None)"]) (simp add: zone_law_def)

setup_lifting type_definition_location

definition zone_offset :: "location \<Rightarrow> time \<Rightarrow> int" where
  "zone_offset loc t = fst (zone_at loc t)"

definition zone_end :: "location \<Rightarrow> time \<Rightarrow> time option" where
  "zone_end loc t = snd (zone_at loc t)"

lemma zone_step:
  "case zone_end loc t of
     None \<Rightarrow> t \<le> u \<longrightarrow> zone_at loc u = zone_at loc t
   | Some e \<Rightarrow> t < e \<and> (t \<le> u \<and> u < e \<longrightarrow> zone_at loc u = zone_at loc t)"
proof -
  have "zone_law (zone_at loc)" using zone_at [of loc] by simp
  then show ?thesis unfolding zone_law_def zone_end_def by blast
qed

lemma zone_end_after: "zone_end loc t = Some e \<Longrightarrow> t < e"
  using zone_step [where loc = loc and t = t] by simp

lemma zone_constant:
  assumes "t \<le> u" "case zone_end loc t of None \<Rightarrow> True | Some e \<Rightarrow> u < e"
  shows "zone_offset loc u = zone_offset loc t" "zone_end loc u = zone_end loc t"
proof -
  have "zone_at loc u = zone_at loc t"
    using zone_step [where loc = loc and t = t and u = u] assms by (cases "zone_end loc t") simp_all
  then show "zone_offset loc u = zone_offset loc t" "zone_end loc u = zone_end loc t"
    by (simp_all add: zone_offset_def zone_end_def)
qed

definition list_zone :: "int \<Rightarrow> (time \<times> int) list \<Rightarrow> time \<Rightarrow> int \<times> time option" where
  "list_zone base ts t =
     (foldl (\<lambda>o' (s, off). if s \<le> t then off else o') base (sort_key fst ts),
      (case filter (\<lambda>s. t < s) (sort (map fst ts)) of [] \<Rightarrow> None | e # _ \<Rightarrow> Some e))"

lemma list_zone_same:
  assumes "t \<le> u" "\<forall>s \<in> set (map fst ts). t < s \<longrightarrow> u < s"
  shows "list_zone base ts u = list_zone base ts t"
proof -
  have "filter (\<lambda>s. u < s) (sort (map fst ts)) = filter (\<lambda>s. t < s) (sort (map fst ts))"
    using assms by (intro filter_cong) auto
  moreover have "foldl (\<lambda>o' (s, off). if s \<le> u then off else o') base xs
      = foldl (\<lambda>o' (s, off). if s \<le> t then off else o') base xs" if "set xs \<subseteq> set ts" for xs
    using that
  proof (induction xs arbitrary: base)
    case (Cons x xs)
    obtain s off where x: "x = (s, off)" by force
    with Cons.prems assms(2) have "t < s \<longrightarrow> u < s" by force
    with assms(1) have "s \<le> u \<longleftrightarrow> s \<le> t" by linarith
    with Cons x show ?case by simp
  qed simp
  ultimately show ?thesis by (simp add: list_zone_def)
qed

lemma list_zone_least:
  assumes "filter (\<lambda>s. t < s) (sort (map fst ts)) = e # r"
  shows "t < e" "\<forall>s \<in> set (map fst ts). t < s \<longrightarrow> e \<le> s"
proof -
  have "sorted (e # r)" unfolding assms [symmetric] by (intro sorted_filter [of "\<lambda>x. x", simplified]) simp
  moreover have "set (e # r) = {s \<in> set (map fst ts). t < s}" unfolding assms [symmetric] by simp
  ultimately show "t < e" "\<forall>s \<in> set (map fst ts). t < s \<longrightarrow> e \<le> s" by auto
qed

lemma list_zone_law: "zone_law (list_zone base ts)"
  unfolding zone_law_def
proof (intro allI)
  fix t u
  show "case snd (list_zone base ts t) of
      None \<Rightarrow> t \<le> u \<longrightarrow> list_zone base ts u = list_zone base ts t
    | Some e \<Rightarrow> t < e \<and> (t \<le> u \<and> u < e \<longrightarrow> list_zone base ts u = list_zone base ts t)"
  proof (cases "filter (\<lambda>s. t < s) (sort (map fst ts))")
    case Nil
    then have "\<forall>s \<in> set (map fst ts). t < s \<longrightarrow> u < s" by (simp add: filter_empty_conv)
    then have "t \<le> u \<longrightarrow> list_zone base ts u = list_zone base ts t" using list_zone_same by blast
    with Nil show ?thesis by (simp add: list_zone_def)
  next
    case (Cons e r)
    note least = list_zone_least [OF Cons]
    have "u < e \<longrightarrow> (\<forall>s \<in> set (map fst ts). t < s \<longrightarrow> u < s)" using least(2) by fastforce
    then have "t \<le> u \<and> u < e \<longrightarrow> list_zone base ts u = list_zone base ts t" using list_zone_same by blast
    moreover have "snd (list_zone base ts t) = Some e" using Cons by (simp add: list_zone_def)
    ultimately show ?thesis using least(1) by simp
  qed
qed

text \<open>A location given by a base offset and a list of transitions (instant, offset from there on).\<close>

lift_definition zone_of :: "int \<Rightarrow> (time \<times> int) list \<Rightarrow> location" is list_zone
  by (rule list_zone_law)

definition utc :: location where "utc = zone_of 0 []"

lemma zone_of_offset:
  "zone_offset (zone_of b ts) t = foldl (\<lambda>o' (s, off). if s \<le> t then off else o') b (sort_key fst ts)"
  by (simp add: zone_offset_def zone_of.rep_eq list_zone_def)

lemma zone_of_end:
  "zone_end (zone_of b ts) t = (case filter (\<lambda>s. t < s) (sort (map fst ts)) of [] \<Rightarrow> None | e # _ \<Rightarrow> Some e)"
  by (simp add: zone_end_def zone_of.rep_eq list_zone_def)

lemma utc_zone [simp]: "zone_offset utc t = 0" "zone_end utc t = None"
  by (simp_all add: utc_def zone_of_offset zone_of_end)

section \<open>Wall clocks\<close>

text \<open>\<open>t.In(location).Format(time.DateOnly)\<close>\<close>

definition local_day :: "location \<Rightarrow> time \<Rightarrow> int" where
  "local_day loc t = (t + zone_offset loc t * second) div day_ns"

definition local_date :: "location \<Rightarrow> time \<Rightarrow> string" where
  "local_date loc t = format_day (local_day loc t)"

text \<open>
  \<open>time.Parse("15:04", s)\<close> as the duration since midnight: the hour may have one digit, the minute
  has two.  Formatting pads both.
\<close>

definition parse_clock :: "string \<Rightarrow> duration option" where
  "parse_clock s =
     (let (h, r) = (if length s \<ge> 2 \<and> is_digit (byte (s ! 1)) then (take 2 s, drop 2 s)
                    else (take 1 s, drop 1 s))
      in if h \<noteq> [] \<and> length r = 3 \<and> r ! 0 = CHR '':'' then
           (case (digits_val h, digits_val (drop 1 r)) of
              (Some x, Some y) \<Rightarrow> if x < 24 \<and> y < 60 then Some ((x * 60 + y) * (60 * second)) else None
            | _ \<Rightarrow> None)
         else None)"

definition format_clock :: "duration \<Rightarrow> string" where
  "format_clock d = append_int (d div (3600 * second) mod 24) 2 @ '':'' @
     append_int (d div (60 * second) mod 60) 2"

definition hour48 :: duration where "hour48 = 172800 * second"

text \<open>The instant whose UTC wall clock reads the date and the clock; the zero instant if either is malformed.\<close>

definition wall_time :: "string \<Rightarrow> string \<Rightarrow> time" where
  "wall_time date clock =
     (case (parse_date date, parse_clock clock) of (Some d, Some c) \<Rightarrow> d + c | _ \<Rightarrow> 0)"

definition later :: "time \<Rightarrow> time \<Rightarrow> time" where
  "later a b = (if a > b then a else b)"

lemma later_max: "later a b = max a b"
  by (simp add: later_def)

function boundary_loop :: "location \<Rightarrow> time \<Rightarrow> time \<Rightarrow> time \<Rightarrow> time \<Rightarrow> time" where
  "boundary_loop loc wall limit cursor best =
     (if cursor < limit then
        let candidate = later (wall - zone_offset loc cursor * second) cursor;
            inside = (case zone_end loc cursor of None \<Rightarrow> True | Some e \<Rightarrow> candidate < e);
            best' = (if inside \<and> (best = 0 \<or> candidate < best) then candidate else best)
        in (case zone_end loc cursor of
              None \<Rightarrow> best'
            | Some e \<Rightarrow> boundary_loop loc wall limit e best')
      else best)"
  by pat_completeness auto
termination
  by (relation "measure (\<lambda>(loc, wall, limit, cursor, best). nat (limit - cursor))")
     (auto dest: zone_end_after)

declare boundary_loop.simps [simp del]

definition generation_boundary :: "string \<Rightarrow> string \<Rightarrow> location \<Rightarrow> time" where
  "generation_boundary date clock loc =
     (let wall = wall_time date clock
      in boundary_loop loc wall (wall + hour48) (wall - hour48) 0)"

text \<open>\<open>GenerationLocalDayBounds\<close>: midnight of the local date and of the next one.\<close>

definition local_day_bounds :: "time \<Rightarrow> location \<Rightarrow> time \<times> time" where
  "local_day_bounds at loc =
     (let date = local_date loc at;
          calendar = (case parse_date date of None \<Rightarrow> 0 | Some d \<Rightarrow> d);
          next_date = format_date (calendar + day_ns)
      in (generation_boundary date ''00:00'' loc, generation_boundary next_date ''00:00'' loc))"

section \<open>The boundary is the first instant whose wall clock is not before it\<close>

definition wall_clock :: "location \<Rightarrow> time \<Rightarrow> time" where
  "wall_clock loc t = t + zone_offset loc t * second"

lemma wall_clock_interval:
  assumes "c \<le> t" "case zone_end loc c of None \<Rightarrow> True | Some e \<Rightarrow> t < e"
  shows "wall_clock loc t = t + zone_offset loc c * second"
  using zone_constant [OF assms] by (simp add: wall_clock_def)

lemma boundary_loop_found:
  "best \<noteq> 0 \<Longrightarrow> best < cursor \<Longrightarrow> boundary_loop loc wall limit cursor best = best"
proof (induction loc wall limit cursor best rule: boundary_loop.induct)
  case (1 loc wall limit cursor best)
  have "\<not> later (wall - zone_offset loc cursor * second) cursor < best"
    using 1(3) by (simp add: later_def)
  note nb = this
  show ?case
  proof (cases "cursor < limit")
    case True
    show ?thesis
    proof (cases "zone_end loc cursor")
      case None
      with True nb 1(2) show ?thesis by (subst boundary_loop.simps) (simp add: Let_def)
    next
      case (Some e)
      have "best < e" using zone_end_after [OF Some] 1(3) by simp
      then have "boundary_loop loc wall limit e best = best"
        using 1(1) [OF True refl refl refl Some] nb 1(2) by simp
      with True Some nb 1(2) show ?thesis by (subst boundary_loop.simps) (simp add: Let_def)
    qed
  qed (simp add: boundary_loop.simps [of loc wall limit cursor best])
qed

lemma boundary_loop_first:
  assumes "0 < cursor" and "boundary_loop loc wall limit cursor 0 = r"
  shows "r = 0 \<and> (\<forall>t. cursor \<le> t \<and> t < limit \<longrightarrow> wall_clock loc t < wall) \<or>
    cursor \<le> r \<and> wall \<le> wall_clock loc r \<and> (\<forall>t. cursor \<le> t \<and> t < r \<longrightarrow> wall_clock loc t < wall)"
  using assms
proof (induction loc wall limit cursor "0 :: time" rule: boundary_loop.induct)
  case (1 loc wall limit cursor)
  let ?c = "later (wall - zone_offset loc cursor * second) cursor"
  show ?case
  proof (cases "cursor < limit")
    case False
    with 1 show ?thesis by (auto simp: boundary_loop.simps [of loc wall limit cursor])
  next
    case lim: True
    show ?thesis
    proof (cases "case zone_end loc cursor of None \<Rightarrow> True | Some e \<Rightarrow> ?c < e")
      case True
      have c: "cursor \<le> ?c" "?c \<noteq> 0" using 1(2) by (auto simp: later_def)
      have "wall_clock loc ?c = ?c + zone_offset loc cursor * second"
        using c True by (intro wall_clock_interval) auto
      moreover have "wall_clock loc t = t + zone_offset loc cursor * second" if "cursor \<le> t" "t < ?c" for t
        using that True by (intro wall_clock_interval) (auto split: option.splits)
      moreover have "r = ?c"
        using 1(3) lim True boundary_loop_found [of ?c] c
        by (subst (asm) boundary_loop.simps) (auto simp: Let_def split: option.splits if_splits)
      ultimately show ?thesis using c by (auto simp: later_def split: if_splits)
    next
      case False
      then obtain e where e: "zone_end loc cursor = Some e" "e \<le> ?c" by (auto split: option.splits)
      note after = zone_end_after [OF e(1)]
      have low: "wall_clock loc t < wall" if "cursor \<le> t" "t < e" for t
        using that e after wall_clock_interval [of cursor t loc] by (auto simp: later_def split: if_splits)
      have "boundary_loop loc wall limit e 0 = r"
        using 1(3) lim False e by (subst (asm) boundary_loop.simps) (simp add: Let_def)
      then have "r = 0 \<and> (\<forall>t. e \<le> t \<and> t < limit \<longrightarrow> wall_clock loc t < wall) \<or>
          e \<le> r \<and> wall \<le> wall_clock loc r \<and> (\<forall>t. e \<le> t \<and> t < r \<longrightarrow> wall_clock loc t < wall)"
        using 1(1) [OF lim refl refl] e after 1(2) False by simp
      then show ?thesis using low after by (meson dual_order.trans less_imp_le not_le)
    qed
  qed
qed

text \<open>
  C13: DST-safe wall-clock boundaries.  In a zone whose offsets stay within a day, a boundary is the
  first instant, in the two days on either side of it, whose local wall clock reads at or after the
  requested time: a repeated wall time is its earliest occurrence, a missing one its first valid
  successor, and before the boundary the local clock always reads earlier.
\<close>

theorem boundary_first_instant:
  assumes "\<forall>t. \<bar>zone_offset loc t\<bar> \<le> 86400" and "hour48 < wall_time date clock"
  shows "wall_time date clock \<le> wall_clock loc (generation_boundary date clock loc) \<and>
    wall_time date clock - hour48 \<le> generation_boundary date clock loc \<and>
    (\<forall>t. wall_time date clock - hour48 \<le> t \<and> t < generation_boundary date clock loc \<longrightarrow>
       wall_clock loc t < wall_time date clock)"
proof -
  let ?w = "wall_time date clock" and ?b = "generation_boundary date clock loc"
  have "boundary_loop loc ?w (?w + hour48) (?w - hour48) 0 = ?b"
    by (simp add: generation_boundary_def Let_def)
  from boundary_loop_first [OF _ this] assms(2) consider
      "\<forall>t. ?w - hour48 \<le> t \<and> t < ?w + hour48 \<longrightarrow> wall_clock loc t < ?w"
    | "?w - hour48 \<le> ?b" "?w \<le> wall_clock loc ?b"
        "\<forall>t. ?w - hour48 \<le> t \<and> t < ?b \<longrightarrow> wall_clock loc t < ?w"
    by auto
  then show ?thesis
  proof cases
    case 1
    let ?t = "?w + 86400 * second"
    have "- 86400 \<le> zone_offset loc ?t" using assms(1) by (simp add: abs_le_iff) (metis minus_le_iff)
    then have "?w \<le> wall_clock loc ?t" by (simp add: wall_clock_def)
    moreover have "wall_clock loc ?t < ?w" using 1 by (simp add: hour48_def)
    ultimately show ?thesis by simp
  qed auto
qed

text \<open>A zone with a spring-forward gap at 2024-03-10 02:00 UTC wall time.\<close>

definition gap_zone :: location where
  "gap_zone = zone_of 0 [(63845632800000000000, 3600)]"

lemma gap_wall_time: "wall_time ''2024-03-10'' ''02:30'' = 63845634600000000000"
  by code_simp

theorem boundary_first_instant_witness:
  "wall_time ''2024-03-10'' ''02:30''
    \<le> wall_clock gap_zone (generation_boundary ''2024-03-10'' ''02:30'' gap_zone)"
  using boundary_first_instant [of gap_zone "''2024-03-10''" "''02:30''"]
  by (simp add: gap_wall_time hour48_def gap_zone_def zone_of_offset)

end
