(* ===== verification/Policy.thy ===== *)
theory Policy
  imports Zone Ident "HOL-Library.List_Lexorder" "HOL-Library.Char_ord"
begin

text \<open>
  Persisted configuration: \<open>internal/app/generation_policy.go\<close> (the policy and its validation),
  \<open>generation_persona.go\<close> (personas and agent settings) and \<open>generation_controls.go\<close> (policy
  changes).  The time zone database is the parameter \<open>tz\<close>; Go's order of strings is the
  lexicographic order of their bytes.
\<close>

section \<open>Policies\<close>

record GenerationPolicy =
  pVersion :: int
  pTimezone :: string
  pActiveStart :: string
  pActiveEnd :: string
  pScheduledMinPerDay :: int
  pScheduledMaxPerDay :: int
  pMinSpacingSeconds :: int
  pResponseMinDelaySeconds :: int
  pResponseMaxDelaySeconds :: int
  pSourceMaxAgeSeconds :: int
  pReplyProbabilityBPS :: int
  pRepostProbabilityBPS :: int
  pQuoteProbabilityBPS :: int
  pHumanPostProbabilityBPS :: int
  pContinuationProbabilityBPS :: int
  pCooldownSeconds :: int
  pScheduledPostCapPerDay :: int
  pReplyCapPerDay :: int
  pReplyCapPerConversation :: int
  pMaxAgentsPerTrigger :: int
  pHumanTriggerCapPerWindow :: int
  pHumanTriggerWindowSeconds :: int
  pMaxChainDepth :: int
  pMaxChainJobs :: int
  pDailyTokenBudget :: int

type_synonym timezones = "string \<Rightarrow> location option"

text \<open>The table of named bounds: name, value, least and greatest value.\<close>

definition policy_bounds :: "GenerationPolicy \<Rightarrow> (string \<times> int \<times> int \<times> int) list" where
  "policy_bounds p =
    [(''scheduled_min_per_day'', pScheduledMinPerDay p, 0, 100),
     (''scheduled_max_per_day'', pScheduledMaxPerDay p, 0, 100),
     (''min_spacing_seconds'', pMinSpacingSeconds p, 1, 86400),
     (''response_min_delay_seconds'', pResponseMinDelaySeconds p, 0, 86400),
     (''response_max_delay_seconds'', pResponseMaxDelaySeconds p, 0, 86400),
     (''source_max_age_seconds'', pSourceMaxAgeSeconds p, 1, 604800),
     (''reply_probability_bps'', pReplyProbabilityBPS p, 0, 10000),
     (''repost_probability_bps'', pRepostProbabilityBPS p, 0, 10000),
     (''quote_probability_bps'', pQuoteProbabilityBPS p, 0, 10000),
     (''human_post_probability_bps'', pHumanPostProbabilityBPS p, 0, 10000),
     (''continuation_probability_bps'', pContinuationProbabilityBPS p, 0, 10000),
     (''cooldown_seconds'', pCooldownSeconds p, 1, 604800),
     (''scheduled_post_cap_per_day'', pScheduledPostCapPerDay p, 0, 100),
     (''reply_cap_per_day'', pReplyCapPerDay p, 0, 1000),
     (''reply_cap_per_conversation'', pReplyCapPerConversation p, 0, 100),
     (''max_agents_per_trigger'', pMaxAgentsPerTrigger p, 0, 10),
     (''human_trigger_cap_per_window'', pHumanTriggerCapPerWindow p, 0, 1000),
     (''human_trigger_window_seconds'', pHumanTriggerWindowSeconds p, 1, 86400),
     (''max_chain_depth'', pMaxChainDepth p, 0, 10),
     (''max_chain_jobs'', pMaxChainJobs p, 1, 100),
     (''daily_token_budget'', pDailyTokenBudget p, 0, 10000000)]"

definition bound_error :: "string \<Rightarrow> int \<Rightarrow> int \<Rightarrow> go_error" where
  "bound_error name lo hi =
     Errorf (name @ '' must be between '' @ dec_digits (nat lo) @ '' and '' @ dec_digits (nat hi))"

definition clock_bad :: "string \<Rightarrow> bool" where
  "clock_bad s = (case parse_clock s of None \<Rightarrow> True | Some c \<Rightarrow> format_clock c \<noteq> s)"

definition validate_policy :: "timezones \<Rightarrow> GenerationPolicy \<Rightarrow> go_error option" where
  "validate_policy tz p =
     first_error
       ([(pVersion p \<noteq> 1, Errorf ''unsupported generation policy version''),
         (pTimezone p = [] \<or> pTimezone p = ''Local'', Errorf ''timezone must be an explicit IANA location''),
         (tz (pTimezone p) = None, Errorf ''invalid policy timezone''),
         (clock_bad (pActiveStart p), Errorf ''active_start must be HH:MM''),
         (clock_bad (pActiveEnd p) \<or> \<not> the (parse_clock (pActiveEnd p)) > the (parse_clock (pActiveStart p)),
          Errorf ''active_end must be HH:MM after active_start; overnight windows are unsupported'')] @
        map (\<lambda>(name, v, lo, hi). (v < lo \<or> v > hi, bound_error name lo hi)) (policy_bounds p) @
        [(pScheduledMinPerDay p > pScheduledMaxPerDay p \<or> pScheduledMaxPerDay p > pScheduledPostCapPerDay p,
          Errorf ''scheduled range exceeds daily cap or is reversed''),
         (pScheduledMaxPerDay p > 1 \<and>
          (pScheduledMaxPerDay p - 1) * pMinSpacingSeconds p * second \<ge>
            the (parse_clock (pActiveEnd p)) - the (parse_clock (pActiveStart p)),
          Errorf ''scheduled spacing does not fit active window''),
         (pResponseMinDelaySeconds p > pResponseMaxDelaySeconds p \<or>
          pResponseMaxDelaySeconds p \<ge> pSourceMaxAgeSeconds p,
          Errorf ''response delays must be ordered and less than source max age''),
         (pMaxChainDepth p \<ge> pMaxChainJobs p,
          Errorf ''chain jobs must include the root and every depth'')])"

section \<open>Personas\<close>

definition is_tag_character :: "char \<Rightarrow> bool" where
  "is_tag_character c \<longleftrightarrow> is_alnum (byte c) \<or> byte c = (95 :: nat)"

record Persona =
  perAgentID :: ID
  perVersion :: int
  perInstructions :: string
  perTopicTags :: "string list"
  perCreatedAt :: time

fun validate_tags :: "unicode \<Rightarrow> string list \<Rightarrow> string list \<Rightarrow> go_error option" where
  "validate_tags uc seen [] = None"
| "validate_tags uc seen (tag # tags) =
     (if length tag < 1 \<or> length tag > 64 \<or> tag \<noteq> to_lower uc tag \<or> tag \<in> set seen
      then Some (Errorf ''persona tags must be unique lowercase ASCII letter/digit/underscore slugs of 1-64 bytes'')
      else if \<exists>c \<in> set tag. \<not> is_tag_character c
      then Some (Errorf ''persona tags must contain only ASCII letters, digits or underscores'')
      else validate_tags uc (tag # seen) tags)"

definition validate_persona :: "unicode \<Rightarrow> Persona \<Rightarrow> go_error option" where
  "validate_persona uc p =
     or_else (first_error
       [(\<not> valid_generation_id (perAgentID p) \<or> perVersion p < 1 \<or> perVersion p > 2147483647 \<or>
         perCreatedAt p = 0, Errorf ''invalid persona identity or creation time''),
        (\<not> valid_generation_text (perInstructions p) 16000,
         Errorf ''persona instructions must contain 1-16000 UTF-8 bytes without NUL''),
        (length (perTopicTags p) < 1 \<or> length (perTopicTags p) > 20,
         Errorf ''persona must have 1-20 topic tags'')])
     (validate_tags uc [] (perTopicTags p))"

definition validate_persona_unchanged :: "unicode \<Rightarrow> Persona \<Rightarrow> Persona \<Rightarrow> go_error option" where
  "validate_persona_unchanged uc before after =
     or_else (validate_persona uc before) (or_else (validate_persona uc after)
     (first_error
       [(perAgentID before \<noteq> perAgentID after \<or> perVersion before \<noteq> perVersion after \<or>
         perInstructions before \<noteq> perInstructions after \<or> perTopicTags before \<noteq> perTopicTags after \<or>
         perCreatedAt before \<noteq> perCreatedAt after, Errorf ''persona versions are immutable'')]))"

section \<open>Agent settings\<close>

record AgentSettings =
  sAgentID :: ID
  sPersonaVersion :: int
  sEnabled :: bool
  sPauseRevision :: int
  sPolicy :: GenerationPolicy
  sNextPostAt :: "time option"
  sScheduleDate :: string
  sRemainingSlots :: int
  sLastPublishedAt :: "time option"
  sUpdatedAt :: time

definition policy_location :: "timezones \<Rightarrow> GenerationPolicy \<Rightarrow> location" where
  "policy_location tz p = the (tz (pTimezone p))"

definition validate_settings :: "timezones \<Rightarrow> AgentSettings \<Rightarrow> go_error option" where
  "validate_settings tz s =
     or_else (first_error
       [(\<not> valid_generation_id (sAgentID s) \<or> sPersonaVersion s < 1 \<or> sPersonaVersion s > 2147483647 \<or>
         sUpdatedAt s = 0 \<or> sPauseRevision s < 0,
         Errorf ''invalid agent settings identity or update time'')])
     (or_else (validate_policy tz (sPolicy s))
     (first_error
       [(sRemainingSlots s < 0 \<or> sRemainingSlots s > pScheduledMaxPerDay (sPolicy s),
         Errorf ''remaining slots exceed policy''),
        (sScheduleDate s \<noteq> [] \<and> \<not> valid_generation_date (sScheduleDate s),
         Errorf ''invalid local schedule date''),
        (sRemainingSlots s > 0 \<and> sScheduleDate s = [], Errorf ''remaining slots require a schedule date''),
        (case sNextPostAt s of None \<Rightarrow> False
         | Some n \<Rightarrow> n = 0 \<or> sScheduleDate s = [] \<or> sRemainingSlots s = 0,
         Errorf ''next post requires a dated remaining slot''),
        (case sNextPostAt s of None \<Rightarrow> False
         | Some n \<Rightarrow> local_date (policy_location tz (sPolicy s)) n \<noteq> sScheduleDate s,
         Errorf ''next post must fall on the local schedule date''),
        (sLastPublishedAt s = Some 0, Errorf ''invalid last publication time'')]))"

section \<open>Policy changes\<close>

definition schedule_changed :: "GenerationPolicy \<Rightarrow> GenerationPolicy \<Rightarrow> bool" where
  "schedule_changed old p \<longleftrightarrow>
     pTimezone old \<noteq> pTimezone p \<or> pActiveStart old \<noteq> pActiveStart p \<or> pActiveEnd old \<noteq> pActiveEnd p \<or>
     pScheduledMinPerDay old \<noteq> pScheduledMinPerDay p \<or> pScheduledMaxPerDay old \<noteq> pScheduledMaxPerDay p \<or>
     pScheduledPostCapPerDay old \<noteq> pScheduledPostCapPerDay p \<or>
     pMinSpacingSeconds old \<noteq> pMinSpacingSeconds p \<or> pSourceMaxAgeSeconds old \<noteq> pSourceMaxAgeSeconds p"

text \<open>The changed settings are returned with the error of their final validation, as in the code.\<close>

definition change_policy ::
  "timezones \<Rightarrow> AgentSettings \<Rightarrow> GenerationPolicy \<Rightarrow> time \<Rightarrow> AgentSettings \<times> go_error option" where
  "change_policy tz s p now =
     (case validate_settings tz s of Some e \<Rightarrow> (s, Some e) | None \<Rightarrow>
      case validate_policy tz p of Some e \<Rightarrow> (s, Some e) | None \<Rightarrow>
      if now = 0 then (s, Some (Errorf ''policy update requires an explicit time''))
      else
        let old = sPolicy s;
            s1 = (if schedule_changed old p
                  then s\<lparr>sScheduleDate := max (sScheduleDate s)
                           (max (local_date (policy_location tz old) now) (local_date (policy_location tz p) now)),
                         sRemainingSlots := 0, sNextPostAt := None\<rparr>
                  else s);
            s2 = s1\<lparr>sPolicy := p, sUpdatedAt := generation_instant now\<rparr>
        in (s2, validate_settings tz s2))"

end
