(* ===== verification/Sha256.thy ===== *)
theory Sha256
  imports GoString "HOL-Library.Word"
begin

unbundle bit_operations_syntax

text \<open>
  \<open>crypto/sha256\<close>, which the code uses for request hashes, output digests and prompt hashes: the
  hash of FIPS 180-4 on byte strings, executable.  The development uses of it that a digest has 32
  bytes.
\<close>

section \<open>The compression function\<close>

definition rotr :: "nat \<Rightarrow> 32 word \<Rightarrow> 32 word" where
  "rotr n w = drop_bit n w OR push_bit (32 - n) w"

definition round_constants :: "32 word list" where
  "round_constants =
    [1116352408, 1899447441, 3049323471, 3921009573, 961987163, 1508970993, 2453635748, 2870763221,
     3624381080, 310598401, 607225278, 1426881987, 1925078388, 2162078206, 2614888103, 3248222580,
     3835390401, 4022224774, 264347078, 604807628, 770255983, 1249150122, 1555081692, 1996064986,
     2554220882, 2821834349, 2952996808, 3210313671, 3336571891, 3584528711, 113926993, 338241895,
     666307205, 773529912, 1294757372, 1396182291, 1695183700, 1986661051, 2177026350, 2456956037,
     2730485921, 2820302411, 3259730800, 3345764771, 3516065817, 3600352804, 4094571909, 275423344,
     430227734, 506948616, 659060556, 883997877, 958139571, 1322822218, 1537002063, 1747873779,
     1955562222, 2024104815, 2227730452, 2361852424, 2428436474, 2756734187, 3204031479, 3329325298]"

definition initial_state :: "32 word list" where
  "initial_state = [1779033703, 3144134277, 1013904242, 2773480762, 1359893119, 2600822924, 528734635, 1541459225]"

definition small_sigma0 :: "32 word \<Rightarrow> 32 word" where
  "small_sigma0 w = rotr 7 w XOR rotr 18 w XOR drop_bit 3 w"

definition small_sigma1 :: "32 word \<Rightarrow> 32 word" where
  "small_sigma1 w = rotr 17 w XOR rotr 19 w XOR drop_bit 10 w"

text \<open>The message schedule, kept newest first: 16 words of the block, then 48 derived ones.\<close>

fun extend_schedule :: "nat \<Rightarrow> 32 word list \<Rightarrow> 32 word list" where
  "extend_schedule 0 ws = ws"
| "extend_schedule (Suc n) ws =
     extend_schedule n ((small_sigma1 (ws ! 1) + ws ! 6 + small_sigma0 (ws ! 14) + ws ! 15) # ws)"

definition sha_round :: "32 word list \<Rightarrow> 32 word \<times> 32 word \<Rightarrow> 32 word list" where
  "sha_round s kw =
     (case s of
        [a, b, c, d, e, f, g, h] \<Rightarrow>
          let t1 = h + (rotr 6 e XOR rotr 11 e XOR rotr 25 e) + ((e AND f) XOR (NOT e AND g)) + fst kw + snd kw;
              t2 = (rotr 2 a XOR rotr 13 a XOR rotr 22 a) + ((a AND b) XOR (a AND c) XOR (b AND c))
          in [t1 + t2, a, b, c, d + t1, e, f, g]
      | _ \<Rightarrow> s)"

definition compress :: "32 word list \<Rightarrow> 32 word list \<Rightarrow> 32 word list" where
  "compress h block = map2 (+) h (foldl sha_round h (zip round_constants (rev (extend_schedule 48 (rev block)))))"

section \<open>Bytes and words\<close>

definition word_of_bytes :: "string \<Rightarrow> 32 word" where
  "word_of_bytes bs = foldl (\<lambda>w c. push_bit 8 w OR word_of_nat (of_char c)) 0 bs"

definition bytes_of_word :: "32 word \<Rightarrow> string" where
  "bytes_of_word w = map (\<lambda>k. char_of (unat (drop_bit k w) mod 256)) [24, 16, 8, 0]"

fun words_of :: "nat \<Rightarrow> string \<Rightarrow> 32 word list" where
  "words_of 0 bs = []"
| "words_of (Suc n) bs = word_of_bytes (take 4 bs) # words_of n (drop 4 bs)"

text \<open>The length in bits as eight bytes, and the padding to a multiple of 64 bytes.\<close>

definition length_bytes :: "nat \<Rightarrow> string" where
  "length_bytes n = map (\<lambda>k. char_of (8 * n div 2 ^ k mod 256)) [56, 48, 40, 32, 24, 16, 8, 0]"

definition sha_padding :: "nat \<Rightarrow> string" where
  "sha_padding n = CHR 0x80 # replicate ((119 - n mod 64) mod 64) CHR 0x00 @ length_bytes n"

fun sha_blocks :: "nat \<Rightarrow> string \<Rightarrow> 32 word list \<Rightarrow> 32 word list" where
  "sha_blocks 0 bs h = h"
| "sha_blocks (Suc n) bs h = sha_blocks n (drop 64 bs) (compress h (words_of 16 (take 64 bs)))"

definition sha256 :: "string \<Rightarrow> string" where
  "sha256 m =
     (let bs = m @ sha_padding (length m)
      in concat (map bytes_of_word (sha_blocks (length bs div 64) bs initial_state)))"

section \<open>A digest has 32 bytes\<close>

lemma length_sha_round: "length s = 8 \<Longrightarrow> length (sha_round s kw) = 8"
  by (auto simp: sha_round_def Let_def split: list.splits)

lemma length_sha_rounds: "length s = 8 \<Longrightarrow> length (foldl sha_round s kws) = 8"
  by (induction kws arbitrary: s) (simp_all add: length_sha_round)

lemma length_sha_blocks: "length h = 8 \<Longrightarrow> length (sha_blocks n bs h) = 8"
  by (induction n arbitrary: bs h) (simp_all add: compress_def length_sha_rounds)

lemma length_bytes_of_words: "length (concat (map bytes_of_word ws)) = 4 * length ws"
  by (induction ws) (simp_all add: bytes_of_word_def)

lemma length_sha256 [simp]: "length (sha256 m) = 32"
  unfolding sha256_def Let_def length_bytes_of_words
  by (simp add: length_sha_blocks initial_state_def)

text \<open>The padded message is a whole number of blocks.\<close>

lemma sha_padding_blocks: "(n + length (sha_padding n)) mod 64 = 0"
proof -
  have "length (sha_padding n) = 9 + (119 - n mod 64) mod 64"
    by (simp add: sha_padding_def length_bytes_def)
  moreover have "(n + (9 + (119 - n mod 64) mod 64)) mod 64 = (n + 9 + (119 - n mod 64)) mod 64"
    using mod_add_right_eq [of "n + 9" "119 - n mod 64" 64] by (simp only: add.assoc)
  moreover have "n + 9 + (119 - n mod 64) = 128 + n div 64 * 64"
    using mod_less_divisor [of 64 n] div_mult_mod_eq [of n 64] by linarith
  ultimately show ?thesis by simp
qed

end
