(* ===== verification/Content.thy ===== *)
theory Content
  imports Ident Policy Sha256
begin

text \<open>
  Posts, replies and their text: \<open>internal/app/content.go\<close>.  Body and code normalisation, hashtags,
  reactions, creation requests with their idempotency key and request hash.
\<close>

section \<open>Content\<close>

definition MaxBodyRunes :: nat where "MaxBodyRunes = 320"
definition MaxCodeSourceBytes :: nat where "MaxCodeSourceBytes = 20 * 1024"
definition MaxTagsPerPost :: nat where "MaxTagsPerPost = 5"

record Code =
  cdLanguage :: string
  cdFilename :: string
  cdSource :: string

record Tag =
  tgSlug :: string
  tgDisplayName :: string

record Content =
  ctBody :: string
  ctTags :: "Tag list"
  ctCode :: "Code option"

definition valid_text :: "string \<Rightarrow> nat \<Rightarrow> nat \<Rightarrow> bool" where
  "valid_text v low high \<longleftrightarrow> valid_utf8 v \<and> CHR 0x00 \<notin> set v \<and> low \<le> rune_count v \<and> rune_count v \<le> high"

definition normalize_body :: "string \<Rightarrow> string \<times> bool" where
  "normalize_body body = (let b = trim_space body in (b, valid_text b 1 MaxBodyRunes))"

definition valid_code_language :: "string \<Rightarrow> bool" where
  "valid_code_language v \<longleftrightarrow>
     \<not> (length v < 1 \<or> length v > 32) \<and>
     (\<forall>c \<in> set (runes v). is_alnum c \<or> c = 95 \<or> c = 43 \<or> c = 46 \<or> c = 45)"

definition valid_filename :: "string \<Rightarrow> bool" where
  "valid_filename v \<longleftrightarrow> valid_text v 1 255 \<and> (\<forall>c \<in> set (runes v). \<not> is_control c)"

section \<open>Hashtags\<close>

definition tag_prefix_rune :: "unicode \<Rightarrow> string \<Rightarrow> bool" where
  "tag_prefix_rune uc prefix =
     (let c = fst (decode_last_rune prefix) in c = 35 \<or> c = 95 \<or> uc_letter uc c \<or> uc_digit uc c)"

fun extract_loop :: "unicode \<Rightarrow> string \<Rightarrow> (nat \<times> nat) list \<Rightarrow> Tag list \<Rightarrow> Tag list" where
  "extract_loop uc body [] tags = tags"
| "extract_loop uc body ((index, character) # rest) tags =
     (if character \<noteq> 35 \<or> index > 0 \<and> tag_prefix_rune uc (take index body) then extract_loop uc body rest tags
      else
        let candidate = takeWhile is_tag_character (drop (index + 1) body) in
        if length candidate = 0 \<or> length candidate > 64 then extract_loop uc body rest tags
        else
          let slug = to_lower uc candidate in
          if slug \<in> tgSlug ` set tags then extract_loop uc body rest tags
          else extract_loop uc body rest (tags @ [\<lparr>tgSlug = slug, tgDisplayName = candidate\<rparr>]))"

definition extract_tags :: "unicode \<Rightarrow> string \<Rightarrow> Tag list" where
  "extract_tags uc body = extract_loop uc body (runes_from 0 body) []"

section \<open>Normalisation\<close>

definition code_fields :: "Code \<Rightarrow> (string \<times> string) list" where
  "code_fields c =
     (if \<not> valid_code_language (cdLanguage c)
      then [(''code.language'', ''Must contain 1-32 ASCII letters, digits, underscores, plus signs, periods, or hyphens'')]
      else []) @
     (if \<not> valid_filename (cdFilename c)
      then [(''code.filename'', ''Must contain 1-255 Unicode code points without control characters'')] else []) @
     (if \<not> valid_utf8 (cdSource c) \<or> CHR 0x00 \<in> set (cdSource c) \<or> length (cdSource c) > MaxCodeSourceBytes \<or>
         trim_space (cdSource c) = []
      then [(''code.source'', ''Must be non-whitespace valid UTF-8 without NUL and at most 20 KiB'')] else [])"

definition normalize_code :: "Code \<Rightarrow> Code" where
  "normalize_code c = c\<lparr>cdLanguage := trim_space (cdLanguage c), cdFilename := trim_space (cdFilename c)\<rparr>"

definition new_content :: "unicode \<Rightarrow> string \<Rightarrow> Code option \<Rightarrow> go_error + Content" where
  "new_content uc body0 code =
     (let (body, valid) = normalize_body body0;
          tags = extract_tags uc body;
          normalized = map_option normalize_code code;
          fields = (if \<not> valid then [(''body'', ''Must contain 1-320 Unicode code points'')] else []) @
                   (case normalized of None \<Rightarrow> [] | Some c \<Rightarrow> code_fields c)
      in if fields \<noteq> [] then Inl (ValidationError fields)
         else Inr \<lparr>ctBody = body, ctTags = tags, ctCode = normalized\<rparr>)"

section \<open>Reactions\<close>

datatype ReactionKind = ReactionUseful | ReactionAgree | ReactionBrilliant | ReactionSpicy | ReactionShip

fun reaction_name :: "ReactionKind \<Rightarrow> string" where
  "reaction_name ReactionUseful = ''useful''"
| "reaction_name ReactionAgree = ''agree''"
| "reaction_name ReactionBrilliant = ''brilliant''"
| "reaction_name ReactionSpicy = ''spicy''"
| "reaction_name ReactionShip = ''ship''"

definition parse_reaction_kind :: "string \<Rightarrow> go_error + ReactionKind" where
  "parse_reaction_kind value =
     (case find (\<lambda>k. reaction_name k = value)
        [ReactionUseful, ReactionAgree, ReactionBrilliant, ReactionSpicy, ReactionShip] of
        None \<Rightarrow> Inl ErrInvalidReactionKind | Some k \<Rightarrow> Inr k)"

section \<open>Creation requests\<close>

record PostCreation =
  pcContent :: Content
  pcQuotedPostID :: "ID option"

definition new_post_creation :: "unicode \<Rightarrow> string \<Rightarrow> ID option \<Rightarrow> Code option \<Rightarrow> go_error + PostCreation" where
  "new_post_creation uc body quoted code =
     and_then (new_content uc body code) (\<lambda>content.
     if length (ctTags content) > MaxTagsPerPost
     then Inl (ValidationError [(''body'', ''Must contain at most 5 unique hashtags'')])
     else case quoted of
            None \<Rightarrow> Inr \<lparr>pcContent = content, pcQuotedPostID = None\<rparr>
          | Some q \<Rightarrow> and_then (parse_id q) (\<lambda>i. Inr \<lparr>pcContent = content, pcQuotedPostID = Some i\<rparr>))"

record ReplyCreation =
  rcPostID :: ID
  rcBody :: string

definition new_reply_creation :: "ID \<Rightarrow> string \<Rightarrow> go_error + ReplyCreation" where
  "new_reply_creation post body0 =
     and_then (parse_id post) (\<lambda>i.
     let (body, valid) = normalize_body body0 in
     if \<not> valid then Inl (ValidationError [(''body'', ''Must contain 1-320 Unicode code points'')])
     else Inr \<lparr>rcPostID = i, rcBody = body\<rparr>)"

definition validate_idempotency_key :: "string \<Rightarrow> go_error option" where
  "validate_idempotency_key key =
     (if length key < 1 \<or> length key > 128 then Some ErrInvalidIdempotencyKey
      else if \<exists>c \<in> set (runes key). \<not> (is_alnum c \<or> c = 46 \<or> c = 95 \<or> c = 58 \<or> c = 45)
      then Some ErrInvalidIdempotencyKey else None)"

section \<open>Request hashes\<close>

text \<open>
  The bytes that go into the hash: each field is preceded by its length in four bytes
  (\<open>writeHashField\<close>), an absent identifier or attachment is an empty field.
\<close>

definition hash_field :: "string \<Rightarrow> string" where
  "hash_field v = map (\<lambda>k. char_of (length v div 2 ^ k mod 256)) [24, 16, 8, 0] @ v"

definition hash_optional_id :: "ID option \<Rightarrow> string" where
  "hash_optional_id i = (case i of None \<Rightarrow> hash_field [] | Some j \<Rightarrow> hash_field ''id'' @ hash_field j)"

definition hash_code :: "Code option \<Rightarrow> string" where
  "hash_code c = (case c of None \<Rightarrow> hash_field []
     | Some d \<Rightarrow> hash_field ''code'' @ hash_field (cdLanguage d) @ hash_field (cdFilename d) @ hash_field (cdSource d))"

definition creation_bytes :: "string \<Rightarrow> string \<Rightarrow> Code option \<Rightarrow> ID option \<Rightarrow> ID option \<Rightarrow> string" where
  "creation_bytes operation body code quote reply_post =
     hash_field ''stacktrace-content-v1'' @ hash_field operation @ hash_field body @
     hash_optional_id quote @ hash_optional_id reply_post @ hash_code code"

definition hash_creation :: "string \<Rightarrow> string \<Rightarrow> Code option \<Rightarrow> ID option \<Rightarrow> ID option \<Rightarrow> string" where
  "hash_creation operation body code quote reply_post =
     hex_encode (sha256 (creation_bytes operation body code quote reply_post))"

definition post_request_hash :: "PostCreation \<Rightarrow> string" where
  "post_request_hash c =
     hash_creation ''POST /posts'' (ctBody (pcContent c)) (ctCode (pcContent c)) (pcQuotedPostID c) None"

definition reply_request_hash :: "ReplyCreation \<Rightarrow> string" where
  "reply_request_hash c =
     hash_creation ''POST /posts/{postID}/replies'' (rcBody c) None None (Some (rcPostID c))"

end
