(* ===== verification/Tables.thy ===== *)
theory Tables
  imports Lifecycle Policy Content
begin

text \<open>
  The tables of \<open>migrations/\<close> as lists of rows, and the database \<open>db\<close> that holds them.  A transaction
  is a function from the database to an error (it is rolled back) or the new database with its
  result; the row locks make transactions atomic, so a concurrent execution is a sequence of them.
  Keys and references that the schema declares are checked where rows are inserted.
\<close>

section \<open>Rows\<close>

record post_row =
  poID :: ID
  poAuthorID :: ID
  poBody :: string
  poQuotedPostID :: "ID option"
  poCode :: "Code option"
  poIsSpicy :: bool
  poCreatedAt :: time
  poDeletedAt :: "time option"

record reply_row =
  reID :: ID
  rePostID :: ID
  reAuthorID :: ID
  reBody :: string
  reCreatedAt :: time
  reDeletedAt :: "time option"

record repost_row =
  rpID :: ID
  rpAccountID :: ID
  rpPostID :: ID
  rpCreatedAt :: time

record reaction_row =
  rxAccountID :: ID
  rxPostID :: ID
  rxKind :: ReactionKind
  rxCreatedAt :: time
  rxUpdatedAt :: time

record bookmark_row =
  bkAccountID :: ID
  bkPostID :: ID
  bkCreatedAt :: time

record tag_row =
  trID :: ID
  trSlug :: string
  trDisplayName :: string

record follow_row =
  foFollowerID :: ID
  foFollowedID :: ID
  foCreatedAt :: time

text \<open>An idempotency key with the request hash and the post or reply it produced.\<close>

record key_row =
  kyAccountID :: ID
  kyKey :: string
  kyRequestHash :: string
  kyPostID :: "ID option"
  kyReplyID :: "ID option"
  kyCreatedAt :: time
  kyExpiresAt :: time

text \<open>\<open>Session\<close> of \<open>internal/app/auth.go\<close> is the row of a session.\<close>

record Session =
  seTokenHash :: string
  seAccountID :: ID
  seCreatedAt :: time
  seExpiresAt :: time

text \<open>A settings row; the stored policy may fail to decode.\<close>

record settings_row =
  srSettings :: AgentSettings
  srDecodable :: bool

section \<open>The database\<close>

record db =
  accounts :: "Account list"
  credentials :: "(ID \<times> string) list"
  sessions :: "Session list"
  follows :: "follow_row list"
  posts :: "post_row list"
  replies :: "reply_row list"
  reposts :: "repost_row list"
  reactions :: "reaction_row list"
  bookmarks :: "bookmark_row list"
  tags :: "tag_row list"
  post_tags :: "(ID \<times> ID) list"
  idempotency_keys :: "key_row list"
  personas :: "Persona list"
  settings :: "settings_row list"
  jobs :: "GenerationJob list"
  attempts :: "GenerationAttempt list"

definition empty_db :: db where
  "empty_db = \<lparr>accounts = [], credentials = [], sessions = [], follows = [], posts = [], replies = [],
     reposts = [], reactions = [], bookmarks = [], tags = [], post_tags = [], idempotency_keys = [],
     personas = [], settings = [], jobs = [], attempts = []\<rparr>"

definition post_by_id :: "db \<Rightarrow> ID \<Rightarrow> post_row option" where
  "post_by_id d i = find (\<lambda>p. poID p = i) (posts d)"

definition reply_by_id :: "db \<Rightarrow> ID \<Rightarrow> reply_row option" where
  "reply_by_id d i = find (\<lambda>r. reID r = i) (replies d)"

definition repost_by_id :: "db \<Rightarrow> ID \<Rightarrow> repost_row option" where
  "repost_by_id d i = find (\<lambda>r. rpID r = i) (reposts d)"

definition account_by_id :: "db \<Rightarrow> ID \<Rightarrow> Account option" where
  "account_by_id d i = find (\<lambda>a. acc_ID a = i) (accounts d)"

definition settings_by_id :: "db \<Rightarrow> ID \<Rightarrow> settings_row option" where
  "settings_by_id d i = find (\<lambda>s. sAgentID (srSettings s) = i) (settings d)"

definition persona_by_key :: "db \<Rightarrow> ID \<Rightarrow> int \<Rightarrow> Persona option" where
  "persona_by_key d i v = find (\<lambda>p. perAgentID p = i \<and> perVersion p = v) (personas d)"

end
