(* ===== verification/Json.thy ===== *)
theory Json
  imports GoString
begin

text \<open>
  What the code uses of \<open>encoding/json\<close>.  \<open>json_quote\<close> is the encoding of a string by
  \<open>json.Marshal\<close> (HTML-safe escapes, invalid UTF-8 replaced), \<open>parse_json\<close> reads one complete value
  and refuses anything but white space after it, as the strict decoders of the code do with
  \<open>Token\<close>, \<open>Decode\<close> and a final check for the end of the input.  The members of an object are kept in
  their order with their duplicates, since the code looks for duplicates itself; a number is kept as
  its literal.
\<close>

section \<open>Encoding\<close>

abbreviation quote :: char where "quote \<equiv> CHR 0x22"
abbreviation backslash :: char where "backslash \<equiv> CHR 0x5C"

definition escape_ascii :: "char \<Rightarrow> string" where
  "escape_ascii c =
     (let b = byte c :: nat in
      if b = 34 \<or> b = 92 then [backslash, c]
      else if b = 8 then [backslash, CHR ''b'']
      else if b = 12 then [backslash, CHR ''f'']
      else if b = 10 then [backslash, CHR ''n'']
      else if b = 13 then [backslash, CHR ''r'']
      else if b = 9 then [backslash, CHR ''t'']
      else if b < 32 \<or> b = 38 \<or> b = 60 \<or> b = 62
      then [backslash, CHR ''u'', CHR ''0'', CHR ''0'', hex_digit (b div 16), hex_digit (b mod 16)]
      else [c])"

function json_escape :: "string \<Rightarrow> string" where
  "json_escape s =
     (if s = [] then []
      else if byte (hd s) < (128 :: nat) then escape_ascii (hd s) @ json_escape (tl s)
      else
        let r = fst (decode_rune s); w = snd (decode_rune s) in
        (if r = rune_error \<and> w = 1 then backslash # ''ufffd''
         else if r = 8232 then backslash # ''u2028''
         else if r = 8233 then backslash # ''u2029''
         else take w s) @ json_escape (drop w s))"
  by pat_completeness auto
termination
  by (relation "measure length") simp_all

declare json_escape.simps [simp del]

definition json_quote :: "string \<Rightarrow> string" where
  "json_quote s = quote # json_escape s @ [quote]"

definition intersperse_comma :: "string list \<Rightarrow> string" where
  "intersperse_comma xs = (case xs of [] \<Rightarrow> [] | x # ys \<Rightarrow> x @ concat (map (\<lambda>y. CHR '','' # y) ys))"

definition json_array :: "string list \<Rightarrow> string" where
  "json_array xs = ''['' @ intersperse_comma xs @ '']''"

definition json_object :: "(string \<times> string) list \<Rightarrow> string" where
  "json_object fs = ''{'' @ intersperse_comma (map (\<lambda>(k, v). json_quote k @ '':'' @ v) fs) @ ''}''"

section \<open>Strings\<close>

definition simple_escapes :: "(char \<times> char) list" where
  "simple_escapes = [(quote, quote), (backslash, backslash), (CHR ''/'', CHR ''/''), (CHR ''b'', CHR 0x08),
     (CHR ''f'', CHR 0x0C), (CHR ''n'', CHR 0x0A), (CHR ''r'', CHR 0x0D), (CHR ''t'', CHR 0x09)]"

text \<open>The raw text of a string literal up to its closing quote, and what follows.\<close>

function scan_string :: "string \<Rightarrow> (string \<times> string) option" where
  "scan_string s =
     (if s = [] then None
      else if hd s = quote then Some ([], tl s)
      else if byte (hd s) < (32 :: nat) then None
      else if hd s = backslash then
        (if tl s = [] then None
         else if hd (tl s) = CHR ''u'' then
           (if length (take 4 (drop 2 s)) = 4 \<and> list_all is_hex (take 4 (drop 2 s))
            then map_option (apfst ((@) (take 6 s))) (scan_string (drop 6 s)) else None)
         else if map_of simple_escapes (hd (tl s)) \<noteq> None
         then map_option (apfst ((@) (take 2 s))) (scan_string (drop 2 s)) else None)
      else map_option (apfst ((#) (hd s))) (scan_string (tl s)))"
  by pat_completeness auto
termination
  by (relation "measure length") auto

declare scan_string.simps [simp del]

text \<open>\<open>getu4\<close>: the code unit of an escape \<open>uXXXX\<close> at the front, backslash included.\<close>

definition hex4 :: "string \<Rightarrow> nat" where
  "hex4 s = foldl (\<lambda>n c. 16 * n + the (hex_value c)) 0 s"

definition getu4 :: "string \<Rightarrow> nat option" where
  "getu4 s =
     (if length s < 6 \<or> s ! 0 \<noteq> backslash \<or> s ! 1 \<noteq> CHR ''u'' \<or> \<not> list_all is_hex (take 4 (drop 2 s)) then None
      else Some (hex4 (take 4 (drop 2 s))))"

definition surrogate :: "nat \<Rightarrow> bool" where "surrogate r \<longleftrightarrow> 55296 \<le> r \<and> r < 57344"

definition utf16_decode :: "nat \<Rightarrow> nat option \<Rightarrow> nat option" where
  "utf16_decode r1 r2 =
     (case r2 of None \<Rightarrow> None
      | Some r \<Rightarrow> if 55296 \<le> r1 \<and> r1 < 56320 \<and> 56320 \<le> r \<and> r < 57344
                  then Some ((r1 - 55296) * 1024 + (r - 56320) + 65536) else None)"

text \<open>\<open>unquote\<close>: escapes replaced, unpaired surrogates and invalid UTF-8 turned into U+FFFD.\<close>

function unquote :: "string \<Rightarrow> string" where
  "unquote s =
     (if s = [] then []
      else if hd s = backslash then
        (case getu4 s of
           Some r \<Rightarrow>
             (if surrogate r then
                (case utf16_decode r (getu4 (drop 6 s)) of
                   Some p \<Rightarrow> encode_rune p @ unquote (drop 12 s)
                 | None \<Rightarrow> encode_rune rune_error @ unquote (drop 6 s))
              else encode_rune r @ unquote (drop 6 s))
         | None \<Rightarrow> (case map_of simple_escapes (hd (tl s)) of None \<Rightarrow> [] | Some c \<Rightarrow> c # unquote (drop 2 s)))
      else if byte (hd s) < (128 :: nat) then hd s # unquote (tl s)
      else encode_rune (fst (decode_rune s)) @ unquote (drop (snd (decode_rune s)) s))"
  by pat_completeness auto
termination
  by (relation "measure length") (auto simp: getu4_def split: if_splits)

declare unquote.simps [simp del]

section \<open>Values\<close>

datatype json = JNull | JBool bool | JNumber string | JString string | JArray "json list"
  | JObject "(string \<times> json) list"

definition json_space :: "char \<Rightarrow> bool" where
  "json_space c \<longleftrightarrow> c = CHR 0x20 \<or> c = CHR 0x09 \<or> c = CHR 0x0A \<or> c = CHR 0x0D"

abbreviation skip_ws :: "string \<Rightarrow> string" where "skip_ws \<equiv> dropWhile json_space"

definition digit_char :: "char \<Rightarrow> bool" where "digit_char c \<longleftrightarrow> is_digit (byte c)"

text \<open>The literal of a number: sign, integer part without leading zeros, fraction, exponent.\<close>

definition scan_digits :: "string \<Rightarrow> (string \<times> string) option" where
  "scan_digits s = (let ds = takeWhile digit_char s in if ds = [] then None else Some (ds, drop (length ds) s))"

definition scan_integer :: "string \<Rightarrow> (string \<times> string) option" where
  "scan_integer s = (if s \<noteq> [] \<and> hd s = CHR ''0'' then Some (''0'', tl s) else scan_digits s)"

definition scan_fraction :: "string \<Rightarrow> (string \<times> string) option" where
  "scan_fraction s =
     (if s \<noteq> [] \<and> hd s = CHR ''.'' then map_option (apfst ((#) (hd s))) (scan_digits (tl s)) else Some ([], s))"

definition scan_exponent :: "string \<Rightarrow> (string \<times> string) option" where
  "scan_exponent s =
     (if s \<noteq> [] \<and> (hd s = CHR ''e'' \<or> hd s = CHR ''E'') then
        (if tl s \<noteq> [] \<and> (hd (tl s) = CHR ''+'' \<or> hd (tl s) = CHR ''-'')
         then map_option (apfst ((@) (take 2 s))) (scan_digits (drop 2 s))
         else map_option (apfst ((#) (hd s))) (scan_digits (tl s)))
      else Some ([], s))"

definition scan_number :: "string \<Rightarrow> (string \<times> string) option" where
  "scan_number s =
     (let sign = (if s \<noteq> [] \<and> hd s = CHR ''-'' then ''-'' else []) in
      case scan_integer (drop (length sign) s) of None \<Rightarrow> None | Some (i, s1) \<Rightarrow>
      case scan_fraction s1 of None \<Rightarrow> None | Some (f, s2) \<Rightarrow>
      case scan_exponent s2 of None \<Rightarrow> None | Some (e, s3) \<Rightarrow> Some (sign @ i @ f @ e, s3))"

definition scan_literal :: "string \<Rightarrow> json \<Rightarrow> string \<Rightarrow> (json \<times> string) option" where
  "scan_literal l v s = (if has_prefix s l then Some (v, drop (length l) s) else None)"

definition head_is :: "char \<Rightarrow> string \<Rightarrow> bool" where
  "head_is c s \<longleftrightarrow> s \<noteq> [] \<and> hd s = c"

text \<open>
  The parser recurses once for each value, element and member, each of which takes a character, so
  the length of the input plus one bounds the depth.
\<close>

fun parse_value :: "nat \<Rightarrow> string \<Rightarrow> (json \<times> string) option"
  and parse_items :: "nat \<Rightarrow> string \<Rightarrow> (json list \<times> string) option"
  and parse_members :: "nat \<Rightarrow> string \<Rightarrow> ((string \<times> json) list \<times> string) option" where
  "parse_value 0 s = None"
| "parse_value (Suc n) s0 =
     (let s = skip_ws s0 in
      if s = [] then None
      else if hd s = quote then map_option (apfst (JString \<circ> unquote)) (scan_string (tl s))
      else if hd s = CHR ''{'' then
        (if head_is (CHR ''}'') (skip_ws (tl s)) then Some (JObject [], tl (skip_ws (tl s)))
         else map_option (apfst JObject) (parse_members n (tl s)))
      else if hd s = CHR ''['' then
        (if head_is (CHR '']'') (skip_ws (tl s)) then Some (JArray [], tl (skip_ws (tl s)))
         else map_option (apfst JArray) (parse_items n (tl s)))
      else if hd s = CHR ''t'' then scan_literal ''true'' (JBool True) s
      else if hd s = CHR ''f'' then scan_literal ''false'' (JBool False) s
      else if hd s = CHR ''n'' then scan_literal ''null'' JNull s
      else map_option (apfst JNumber) (scan_number s))"
| "parse_items 0 s = None"
| "parse_items (Suc n) s =
     (case parse_value n s of None \<Rightarrow> None | Some (v, s1) \<Rightarrow>
        let s2 = skip_ws s1 in
        if head_is (CHR '','') s2 then map_option (apfst ((#) v)) (parse_items n (tl s2))
        else if head_is (CHR '']'') s2 then Some ([v], tl s2) else None)"
| "parse_members 0 s = None"
| "parse_members (Suc n) s =
     (let s1 = skip_ws s in
      if \<not> head_is quote s1 then None else
      case scan_string (tl s1) of None \<Rightarrow> None | Some (k, s2) \<Rightarrow>
      if \<not> head_is (CHR '':'') (skip_ws s2) then None else
      case parse_value n (tl (skip_ws s2)) of None \<Rightarrow> None | Some (v, s3) \<Rightarrow>
        let s4 = skip_ws s3 in
        if head_is (CHR '','') s4 then map_option (apfst ((#) (unquote k, v))) (parse_members n (tl s4))
        else if head_is (CHR ''}'') s4 then Some ([(unquote k, v)], tl s4) else None)"

definition parse_json :: "string \<Rightarrow> json option" where
  "parse_json s =
     (case parse_value (2 * length s + 2) s of
        None \<Rightarrow> None | Some (v, r) \<Rightarrow> if skip_ws r = [] then Some v else None)"

text \<open>\<open>strconv.ParseInt\<close> on the literal of a number, into 64 bits.\<close>

definition json_int64 :: "string \<Rightarrow> int option" where
  "json_int64 l =
     (let neg = head_is (CHR ''-'') l; ds = (if neg then tl l else l) in
      if ds = [] \<or> \<not> list_all digit_char ds then None
      else let n = foldl (\<lambda>n c. 10 * n + (int (byte c) - 48)) 0 ds; v = (if neg then - n else n)
           in if - (2 ^ 63) \<le> v \<and> v < 2 ^ 63 then Some v else None)"

section \<open>The fuel of the parser is enough\<close>

text \<open>Each scanner splits its input into what it took and what is left.\<close>

lemma scan_string_split: "scan_string s = Some (raw, r) \<Longrightarrow> s = raw @ quote # r"
proof (induction s arbitrary: raw r rule: scan_string.induct)
  case (1 s)
  show ?case
  proof (cases "s = [] \<or> hd s = quote \<or> byte (hd s) < (32 :: nat)")
    case True
    with "1.prems" show ?thesis unfolding scan_string.simps [of s] by (cases s) (auto split: if_splits)
  next
    case g: False
    show ?thesis
    proof (cases "hd s = backslash")
      case False
      with g "1.prems" obtain raw' where r: "raw = hd s # raw'" "scan_string (tl s) = Some (raw', r)"
        by (auto simp: scan_string.simps [of s] split: if_splits)
      have "tl s = raw' @ quote # r" using "1.IH"(3) g False r(2) by simp
      with g r(1) show ?thesis by (cases s) auto
    next
      case b: True
      show ?thesis
      proof (cases "hd (tl s) = CHR ''u''")
        case True
        with g b "1.prems" obtain raw' where r: "raw = take 6 s @ raw'" "scan_string (drop 6 s) = Some (raw', r)"
          and h: "tl s \<noteq> []" "length (take 4 (drop 2 s)) = 4 \<and> list_all is_hex (take 4 (drop 2 s))"
          by (auto simp: scan_string.simps [of s] split: if_splits)
        have "drop 6 s = raw' @ quote # r" using "1.IH"(1) g b True h r(2) by simp
        with r(1) show ?thesis by (metis append.assoc append_take_drop_id)
      next
        case False
        with g b "1.prems" obtain raw' where r: "raw = take 2 s @ raw'" "scan_string (drop 2 s) = Some (raw', r)"
          and h: "tl s \<noteq> []" "map_of simple_escapes (hd (tl s)) \<noteq> None"
          by (auto simp: scan_string.simps [of s] split: if_splits)
        have "drop 2 s = raw' @ quote # r" using "1.IH"(2) g b False h r(2) by simp
        with r(1) show ?thesis by (metis append.assoc append_take_drop_id)
      qed
    qed
  qed
qed

lemma scan_digits_split: "scan_digits s = Some (ds, r) \<Longrightarrow> s = ds @ r \<and> ds \<noteq> []"
  by (auto simp: scan_digits_def Let_def dropWhile_eq_drop [symmetric] split: if_splits)

lemma scan_integer_split: "scan_integer s = Some (x, r) \<Longrightarrow> s = x @ r \<and> x \<noteq> []"
  by (cases s) (auto simp: scan_integer_def split: if_splits dest: scan_digits_split)

lemma scan_fraction_split: "scan_fraction s = Some (x, r) \<Longrightarrow> s = x @ r"
  by (cases s) (auto simp: scan_fraction_def split: if_splits dest: scan_digits_split)

lemma scan_exponent_split: "scan_exponent s = Some (x, r) \<Longrightarrow> s = x @ r"
  by (cases s) (auto simp: scan_exponent_def split: if_splits dest!: scan_digits_split;
    metis append_take_drop_id)+

lemma scan_number_split: "scan_number s = Some (x, r) \<Longrightarrow> s = x @ r \<and> x \<noteq> []"
  by (cases s) (auto simp: scan_number_def Let_def split: if_splits option.splits
    dest!: scan_integer_split scan_fraction_split scan_exponent_split)

lemma scan_literal_split: "scan_literal l v s = Some (x, r) \<Longrightarrow> s = l @ r"
  by (auto simp: scan_literal_def has_prefix_def split: if_splits) (metis append_take_drop_id)


lemma skip_ws_shorter: "length (tl (skip_ws s)) \<le> length s - 1"
  using length_dropWhile_le [of json_space s] by simp

lemma head_is_shorter: "head_is c (skip_ws s) \<Longrightarrow> length (tl (skip_ws s)) < length s"
  using length_dropWhile_le [of json_space s] by (cases "skip_ws s") (auto simp: head_is_def)

lemma head_isE: "head_is c s \<Longrightarrow> length (tl s) < length s"
  by (cases s) (auto simp: head_is_def)

lemma parse_shorter:
  "parse_value n s = Some (v, r) \<Longrightarrow> length r < length s"
  "parse_items n s = Some (vs, r) \<Longrightarrow> length r < length s"
  "parse_members n s = Some (ms, r) \<Longrightarrow> length r < length s"
proof (induction n s and n s and n s arbitrary: v r and vs r and ms r
    rule: parse_value_parse_items_parse_members.induct)
  case (2 n s0)
  let ?s = "skip_ws s0"
  have l: "length ?s \<le> length s0" by (rule length_dropWhile_le)
  have ne: "?s \<noteq> []"
  proof
    assume "?s = []"
    with "2.prems" show False by simp
  qed
  then have t: "length (tl ?s) < length s0" using l by (cases ?s) auto
  have h: "length (tl (skip_ws (tl ?s))) < length s0" using skip_ws_shorter [of "tl ?s"] t by linarith
  from "2.prems" consider
    (str) raw where "scan_string (tl ?s) = Some (raw, r)"
  | (empty) "r = tl (skip_ws (tl ?s))"
  | (obj) ms where "hd ?s \<noteq> quote" "hd ?s = CHR ''{''" "\<not> head_is (CHR ''}'') (skip_ws (tl ?s))"
      "parse_members n (tl ?s) = Some (ms, r)"
  | (arr) vs where "hd ?s \<noteq> quote" "hd ?s \<noteq> CHR ''{''" "hd ?s = CHR ''[''"
      "\<not> head_is (CHR '']'') (skip_ws (tl ?s))" "parse_items n (tl ?s) = Some (vs, r)"
  | (lit) l v' where "l \<noteq> []" "scan_literal l v' ?s = Some (v, r)"
  | (num) x where "scan_number ?s = Some (x, r)"
    unfolding parse_value.simps Let_def if_not_P [OF ne]
    by (cases "hd ?s = quote"; cases "hd ?s = CHR ''{''"; cases "hd ?s = CHR ''[''";
        cases "hd ?s = CHR ''t''"; cases "hd ?s = CHR ''f''"; cases "hd ?s = CHR ''n''")
       (auto split: if_splits)
  then show ?case
  proof cases
    case str
    with t show ?thesis using scan_string_split [OF str] by simp
  next
    case empty
    with h show ?thesis by simp
  next
    case obj
    from "2.IH"(1) [OF refl ne obj] t show ?thesis by simp
  next
    case arr
    from "2.IH"(2) [OF refl ne arr] t show ?thesis by simp
  next
    case lit
    with l show ?thesis using scan_literal_split [OF lit(2)] by (cases l) auto
  next
    case num
    with l show ?thesis using scan_number_split [OF num] by (cases x) auto
  qed
next
  case (4 n s)
  from "4.prems" obtain v1 s1 where v: "parse_value n s = Some (v1, s1)"
    by (auto split: option.splits)
  have s1: "length s1 < length s" using "4.IH"(1) [OF v] .
  show ?case
  proof (cases "head_is (CHR '','') (skip_ws s1)")
    case True
    with "4.prems" v obtain vs' where "parse_items n (tl (skip_ws s1)) = Some (vs', r)"
      by (auto simp: Let_def)
    from "4.IH"(2) [OF v refl refl True this] head_is_shorter [OF True] s1 show ?thesis by linarith
  next
    case False
    with "4.prems" v have "head_is (CHR '']'') (skip_ws s1)" "r = tl (skip_ws s1)"
      by (auto simp: Let_def split: if_splits)
    with head_is_shorter s1 show ?thesis by fastforce
  qed
next
  case (6 n s)
  let ?s1 = "skip_ws s"
  from "6.prems" obtain k s2 v1 s3 where h: "head_is quote ?s1" and k: "scan_string (tl ?s1) = Some (k, s2)"
    and c: "head_is (CHR '':'') (skip_ws s2)" and v: "parse_value n (tl (skip_ws s2)) = Some (v1, s3)"
    by (auto simp: Let_def split: option.splits if_splits prod.splits)
  have l: "length (tl ?s1) < length s" using head_is_shorter [OF h] .
  have "length s2 < length (tl ?s1)" using scan_string_split [OF k] by simp
  moreover have "length s3 < length s2"
    using "6.IH"(1) [OF refl _ k refl _ v] h c head_is_shorter [OF c] by (auto simp: head_is_def)
  ultimately have s3: "length s3 < length s" using l by linarith
  show ?case
  proof (cases "head_is (CHR '','') (skip_ws s3)")
    case True
    with "6.prems" h k c v obtain ms' where m: "parse_members n (tl (skip_ws s3)) = Some (ms', r)"
      by (auto simp: Let_def)
    have "length r < length (tl (skip_ws s3))"
      using "6.IH"(2) [OF refl _ k refl _ v refl refl True m] h c by (auto simp: head_is_def)
    with head_is_shorter [OF True] s3 show ?thesis by linarith
  next
    case False
    with "6.prems" h k c v have "head_is (CHR ''}'') (skip_ws s3)" "r = tl (skip_ws s3)"
      by (auto simp: Let_def split: if_splits)
    with head_is_shorter s3 show ?thesis by fastforce
  qed
qed simp_all


text \<open>Twice the length of the input and one more step is all the parser can use.\<close>

lemma parse_fuel_step:
  "2 * length s + 1 \<le> n \<Longrightarrow> parse_value (Suc n) s = parse_value n s"
  "2 * length s + 2 \<le> n \<Longrightarrow> parse_items (Suc n) s = parse_items n s"
  "2 * length s + 2 \<le> n \<Longrightarrow> parse_members (Suc n) s = parse_members n s"
proof (induction n s and n s and n s rule: parse_value_parse_items_parse_members.induct)
  case (2 n s0)
  let ?s = "skip_ws s0"
  show ?case
  proof (cases "?s = []")
    case True
    then show ?thesis by simp
  next
    case ne: False
    have "length (tl ?s) < length s0"
      using length_dropWhile_le [of json_space s0] ne by (cases ?s) auto
    then have f: "2 * length (tl ?s) + 2 \<le> n" using "2.prems" by linarith
    have m: "hd ?s \<noteq> quote \<Longrightarrow> hd ?s = CHR ''{'' \<Longrightarrow> \<not> head_is (CHR ''}'') (skip_ws (tl ?s)) \<Longrightarrow>
        parse_members (Suc n) (tl ?s) = parse_members n (tl ?s)"
      by (rule "2.IH"(1) [OF refl ne]) (use f in auto)
    have i: "hd ?s \<noteq> quote \<Longrightarrow> hd ?s \<noteq> CHR ''{'' \<Longrightarrow> hd ?s = CHR ''['' \<Longrightarrow>
        \<not> head_is (CHR '']'') (skip_ws (tl ?s)) \<Longrightarrow> parse_items (Suc n) (tl ?s) = parse_items n (tl ?s)"
      by (rule "2.IH"(2) [OF refl ne]) (use f in auto)
    show ?thesis
      unfolding parse_value.simps(2) [of "Suc n"] parse_value.simps(2) [of n] Let_def if_not_P [OF ne]
      by (intro if_cong refl) (simp_all only: m i not_False_eq_True)
  qed
next
  case (4 n s)
  have v: "parse_value (Suc n) s = parse_value n s" using "4.IH"(1) "4.prems" by simp
  show ?case
  proof (cases "parse_value n s")
    case None
    with v show ?thesis by simp
  next
    case (Some p)
    then obtain v1 s1 where p: "parse_value n s = Some (v1, s1)" by (cases p) auto
    have "parse_items (Suc n) (tl (skip_ws s1)) = parse_items n (tl (skip_ws s1))"
      if "head_is (CHR '','') (skip_ws s1)"
      using "4.IH"(2) [OF p refl refl that] "4.prems" parse_shorter(1) [OF p] head_is_shorter [OF that] by simp
    then show ?thesis unfolding parse_items.simps(2) [of "Suc n"] parse_items.simps(2) [of n] v p
      by (simp add: Let_def del: parse_items.simps)
  qed
next
  case (6 n s)
  let ?s1 = "skip_ws s"
  show ?case
  proof (cases "head_is quote ?s1")
    case False
    then show ?thesis by simp
  next
    case h: True
    show ?thesis
    proof (cases "scan_string (tl ?s1)")
      case None
      with h show ?thesis by simp
    next
      case (Some q)
      then obtain k s2 where k: "scan_string (tl ?s1) = Some (k, s2)" by (cases q) auto
      have l2: "length s2 < length s" using scan_string_split [OF k] head_is_shorter [OF h] by simp
      show ?thesis
      proof (cases "head_is (CHR '':'') (skip_ws s2)")
        case False
        with h k show ?thesis by simp
      next
        case c: True
        have l3: "length (tl (skip_ws s2)) < length s" using head_is_shorter [OF c] l2 by simp
        have v: "parse_value (Suc n) (tl (skip_ws s2)) = parse_value n (tl (skip_ws s2))"
          by (rule "6.IH"(1) [OF refl _ k refl]) (use h c l3 "6.prems" in auto)
        show ?thesis
        proof (cases "parse_value n (tl (skip_ws s2))")
          case None
          with h k c v show ?thesis by simp
        next
          case (Some p)
          then obtain v1 s3 where p: "parse_value n (tl (skip_ws s2)) = Some (v1, s3)" by (cases p) auto
          have "parse_members (Suc n) (tl (skip_ws s3)) = parse_members n (tl (skip_ws s3))"
            if t: "head_is (CHR '','') (skip_ws s3)"
            by (rule "6.IH"(2) [OF refl _ k refl _ p refl refl t])
               (use h c l3 "6.prems" parse_shorter(1) [OF p] head_is_shorter [OF t] in auto)
          with h k c v p show ?thesis
            unfolding parse_members.simps(2) [of "Suc n"] parse_members.simps(2) [of n]
            by (simp add: Let_def del: parse_members.simps parse_value.simps)
        qed
      qed
    qed
  qed
qed simp_all

lemma parse_value_fuel:
  assumes "2 * length s + 1 \<le> n" "n \<le> m"
  shows "parse_value m s = parse_value n s"
  using assms(2)
proof (induction m rule: dec_induct)
  case (step m)
  then show ?case using parse_fuel_step(1) [of s m] assms(1) by simp
qed simp

section \<open>Round trips\<close>

text \<open>Decoding a valid rune and encoding it again gives back its bytes.\<close>

lemma mod_64: "b < 64 \<Longrightarrow> a * 64 + b = n \<Longrightarrow> n mod 64 = (b :: nat)"
  by auto

lemma decode_rune2:
  assumes "194 \<le> byte c0" "byte c0 \<le> (223 :: nat)" "cont (byte c1)"
  shows "encode_rune ((byte c0 - 192) * 64 + (byte c1 - 128)) = [c0, c1]"
proof -
  obtain x y :: nat where b: "byte c0 = 192 + x" "byte c1 = 128 + y"
    using assms le_Suc_ex [of 192 "byte c0"] le_Suc_ex [of 128 "byte c1"] by (auto simp: cont_def)
  then have xy: "2 \<le> x" "x < 32" "y < 64" using assms by (auto simp: cont_def)
  have c: "c0 = char_of (192 + x)" "c1 = char_of (128 + y)"
    using b by (metis char_of_char)+
  have r: "(byte c0 - 192) * 64 + (byte c1 - 128) = x * 64 + y" using b by simp
  have "x * 64 + y < 2048" "128 \<le> x * 64 + y" using xy by linarith+
  moreover have "(x * 64 + y) div 64 = x" "(x * 64 + y) mod 64 = y" using xy by simp_all
  ultimately show ?thesis unfolding r encode_rune_def Let_def by (simp add: c)
qed

lemma decode_rune3:
  assumes "224 \<le> byte c0" "byte c0 \<le> (239 :: nat)" "second_ok (byte c0) (byte c1)" "cont (byte c2)"
  shows "encode_rune ((byte c0 - 224) * 4096 + (byte c1 - 128) * 64 + (byte c2 - 128)) = [c0, c1, c2]"
proof -
  have "128 \<le> (byte c1 :: nat)" "byte c1 \<le> (191 :: nat)"
    using assms(3) by (auto simp: second_ok_def split: if_splits)
  then obtain x y z :: nat where b: "byte c0 = 224 + x" "byte c1 = 128 + y" "byte c2 = 128 + z"
    using assms le_Suc_ex [of 224 "byte c0"] le_Suc_ex [of 128 "byte c1"] le_Suc_ex [of 128 "byte c2"]
    by (auto simp: cont_def)
  then have xy: "x < 16" "y < 64" "z < 64" "x = 0 \<Longrightarrow> 32 \<le> y" "x = 13 \<Longrightarrow> y < 32"
    using assms by (auto simp: cont_def second_ok_def split: if_splits)
  have c: "c0 = char_of (224 + x)" "c1 = char_of (128 + y)" "c2 = char_of (128 + z)"
    using b by (metis char_of_char)+
  let ?r = "x * 4096 + y * 64 + z"
  have r: "(byte c0 - 224) * 4096 + (byte c1 - 128) * 64 + (byte c2 - 128) = ?r" using b by simp
  have lo: "2048 \<le> ?r"
  proof (cases "x = 0")
    case True
    with xy(4) show ?thesis by linarith
  next
    case False
    then show ?thesis by linarith
  qed
  have hi: "?r < 65536" using xy by linarith
  have sur: "\<not> (55296 \<le> ?r \<and> ?r \<le> 57343)"
  proof -
    consider "x \<le> 12" | "x = 13" | "14 \<le> x" by linarith
    then show ?thesis using xy by cases linarith+
  qed
  have "?r div 64 = x * 64 + y" "?r div 4096 = x"
    using xy by (simp_all add: div_nat_eqI)
  moreover have "?r mod 64 = z" by (rule mod_64 [where a = "x * 64 + y"]) (use xy in auto)
  moreover have "(x * 64 + y) mod 64 = y" by (rule mod_64 [where a = x]) (use xy in auto)
  ultimately have "?r div 64 = x * 64 + y" "?r mod 64 = z" "?r div 4096 = x" "(x * 64 + y) mod 64 = y" by blast+
  with lo hi sur show ?thesis unfolding r encode_rune_def Let_def by (simp add: c)
qed

lemma decode_rune4:
  assumes "240 \<le> byte c0" "byte c0 \<le> (244 :: nat)" "second_ok (byte c0) (byte c1)" "cont (byte c2)" "cont (byte c3)"
  shows "encode_rune ((byte c0 - 240) * 262144 + (byte c1 - 128) * 4096 + (byte c2 - 128) * 64 + (byte c3 - 128))
    = [c0, c1, c2, c3]"
proof -
  have "128 \<le> (byte c1 :: nat)" "byte c1 \<le> (191 :: nat)"
    using assms(3) by (auto simp: second_ok_def split: if_splits)
  then obtain w x y z :: nat where b: "byte c0 = 240 + w" "byte c1 = 128 + x" "byte c2 = 128 + y" "byte c3 = 128 + z"
    using assms le_Suc_ex [of 240 "byte c0"] le_Suc_ex [of 128 "byte c1"] le_Suc_ex [of 128 "byte c2"]
      le_Suc_ex [of 128 "byte c3"] by (auto simp: cont_def)
  then have xy: "w < 5" "x < 64" "y < 64" "z < 64" "w = 0 \<Longrightarrow> 16 \<le> x" "w = 4 \<Longrightarrow> x < 16"
    using assms by (auto simp: cont_def second_ok_def split: if_splits)
  have c: "c0 = char_of (240 + w)" "c1 = char_of (128 + x)" "c2 = char_of (128 + y)" "c3 = char_of (128 + z)"
    using b by (metis char_of_char)+
  let ?r = "w * 262144 + x * 4096 + y * 64 + z"
  have r: "(byte c0 - 240) * 262144 + (byte c1 - 128) * 4096 + (byte c2 - 128) * 64 + (byte c3 - 128) = ?r"
    using b by simp
  have lo: "65536 \<le> ?r"
    using xy(5) by (cases "w = 0") linarith+
  have hi: "?r \<le> 1114111"
  proof (cases "w = 4")
    case True
    then show ?thesis using xy by linarith
  next
    case False
    then have "w \<le> 3" using xy by linarith
    then show ?thesis using xy by linarith
  qed
  have d: "?r div 64 = w * 4096 + x * 64 + y" "?r div 4096 = w * 64 + x" "?r div 262144 = w"
    using xy by (simp_all add: div_nat_eqI)
  have "?r mod 64 = z" by (rule mod_64 [where a = "w * 4096 + x * 64 + y"]) (use xy in auto)
  moreover have "(w * 4096 + x * 64 + y) mod 64 = y" by (rule mod_64 [where a = "w * 64 + x"]) (use xy in auto)
  moreover have "(w * 64 + x) mod 64 = x" by (rule mod_64 [where a = w]) (use xy in auto)
  moreover note d
  ultimately have "?r div 64 = w * 4096 + x * 64 + y" "?r mod 64 = z" "(w * 4096 + x * 64 + y) mod 64 = y"
    "?r div 4096 = w * 64 + x" "(w * 64 + x) mod 64 = x" "?r div 262144 = w" by blast+
  with lo hi show ?thesis unfolding r encode_rune_def Let_def by (simp add: c)
qed


lemma second_ok_high: "second_ok b0 b1 \<Longrightarrow> 128 \<le> b1"
  by (auto simp: second_ok_def split: if_splits)

lemma valid_rune_bytes:
  assumes "128 \<le> (byte c0 :: nat)" "decode_rune (c0 # s) = (r, w)" "(r, w) \<noteq> (rune_error, 1)"
  shows "encode_rune r = take w (c0 # s) \<and> decode_rune (take w (c0 # s) @ t) = (r, w) \<and>
    (\<forall>c \<in> set (take w (c0 # s)). 128 \<le> (byte c :: nat))"
proof -
  let ?b = "byte c0 :: nat"
  have bad: "decode_rune (c0 # s) \<noteq> (rune_error, 1)" using assms(2,3) by simp
  consider (two) "194 \<le> ?b" "?b \<le> 223" | (three) "224 \<le> ?b" "?b \<le> 239" | (four) "240 \<le> ?b" "?b \<le> 244"
    | (none) "\<not> ?b < 128" "\<not> (194 \<le> ?b \<and> ?b \<le> 223)" "\<not> (224 \<le> ?b \<and> ?b \<le> 239)" "\<not> (240 \<le> ?b \<and> ?b \<le> 244)"
    using assms(1) by linarith
  then show ?thesis
  proof cases
    case none
    then have "decode_rune (c0 # s) = (rune_error, 1)"
      unfolding decode_rune.simps(2) Let_def by (simp only: if_False)
    with bad show ?thesis by simp
  next
    case two
    then have d: "decode_rune (c0 # s) = (case s of c1 # _ \<Rightarrow> if cont (byte c1) then ((?b - 192) * 64 + (byte c1 - 128), 2)
        else (rune_error, 1) | _ \<Rightarrow> (rune_error, 1))" for s
      by (simp add: decode_rune.simps(2) Let_def)
    obtain c1 s1 where s: "s = c1 # s1" using bad by (cases s) (auto simp: d)
    have k: "cont (byte c1)" using bad by (auto simp: d s split: if_splits)
    then have r: "r = (?b - 192) * 64 + (byte c1 - 128)" "w = 2" using assms(2) by (auto simp: d s)
    have e: "encode_rune r = [c0, c1]" unfolding r by (rule decode_rune2 [OF two k])
    have tk: "take w (c0 # s) = [c0, c1]" by (simp add: s r(2))
    have dd: "decode_rune ([c0, c1] @ t) = (r, w)" using k r by (simp add: d)
    have "\<forall>c \<in> set [c0, c1]. 128 \<le> (byte c :: nat)" using assms(1) k by (simp add: cont_def)
    with e dd show ?thesis unfolding tk by blast
  next
    case three
    then have d: "decode_rune (c0 # s) = (case s of c1 # c2 # _ \<Rightarrow> if second_ok ?b (byte c1) \<and> cont (byte c2)
        then ((?b - 224) * 4096 + (byte c1 - 128) * 64 + (byte c2 - 128), 3) else (rune_error, 1) | _ \<Rightarrow> (rune_error, 1))" for s
      by (simp add: decode_rune.simps(2) Let_def)
    obtain c1 c2 s1 where s: "s = c1 # c2 # s1" using bad by (auto simp: d split: list.splits)
    have k: "second_ok ?b (byte c1)" "cont (byte c2)" using bad by (auto simp: d s split: if_splits)
    then have r: "r = (?b - 224) * 4096 + (byte c1 - 128) * 64 + (byte c2 - 128)" "w = 3"
      using assms(2) by (auto simp: d s)
    have e: "encode_rune r = [c0, c1, c2]" unfolding r by (rule decode_rune3 [OF three k])
    have tk: "take w (c0 # s) = [c0, c1, c2]" by (simp add: s r(2))
    have dd: "decode_rune ([c0, c1, c2] @ t) = (r, w)" using k r by (simp add: d)
    have "\<forall>c \<in> set [c0, c1, c2]. 128 \<le> (byte c :: nat)" using assms(1) k second_ok_high [OF k(1)] by (simp add: cont_def)
    with e dd show ?thesis unfolding tk by blast
  next
    case four
    then have d: "decode_rune (c0 # s) = (case s of c1 # c2 # c3 # _ \<Rightarrow>
        if second_ok ?b (byte c1) \<and> cont (byte c2) \<and> cont (byte c3)
        then ((?b - 240) * 262144 + (byte c1 - 128) * 4096 + (byte c2 - 128) * 64 + (byte c3 - 128), 4)
        else (rune_error, 1) | _ \<Rightarrow> (rune_error, 1))" for s
      by (simp add: decode_rune.simps(2) Let_def)
    obtain c1 c2 c3 s1 where s: "s = c1 # c2 # c3 # s1" using bad by (auto simp: d split: list.splits)
    have k: "second_ok ?b (byte c1)" "cont (byte c2)" "cont (byte c3)" using bad by (auto simp: d s split: if_splits)
    then have r: "r = (?b - 240) * 262144 + (byte c1 - 128) * 4096 + (byte c2 - 128) * 64 + (byte c3 - 128)" "w = 4"
      using assms(2) by (auto simp: d s)
    have e: "encode_rune r = [c0, c1, c2, c3]" unfolding r by (rule decode_rune4 [OF four k])
    have tk: "take w (c0 # s) = [c0, c1, c2, c3]" by (simp add: s r(2))
    have dd: "decode_rune ([c0, c1, c2, c3] @ t) = (r, w)" using k r by (simp add: d)
    have "\<forall>c \<in> set [c0, c1, c2, c3]. 128 \<le> (byte c :: nat)" using assms(1) k second_ok_high [OF k(1)] by (simp add: cont_def)
    with e dd show ?thesis unfolding tk by blast
  qed
qed

text \<open>The scanner passes over characters that need no escape.\<close>

lemma scan_plain:
  assumes "\<forall>c \<in> set xs. 32 \<le> (byte c :: nat) \<and> c \<noteq> quote \<and> c \<noteq> backslash"
  shows "scan_string (xs @ t) = map_option (apfst ((@) xs)) (scan_string t)"
  using assms
proof (induction xs)
  case Nil
  show ?case by (cases "scan_string t") auto
next
  case (Cons c xs)
  then have "scan_string ((c # xs) @ t) = map_option (apfst ((#) c)) (scan_string (xs @ t))"
    by (subst scan_string.simps) simp
  with Cons show ?case by (simp add: option.map_comp o_def apfst_def map_prod_def split_beta)
qed

lemma escape_cases:
  "escape_ascii c = [c] \<and> 32 \<le> (byte c :: nat) \<and> c \<noteq> quote \<and> c \<noteq> backslash \<or>
   (\<exists>e. escape_ascii c = [backslash, e] \<and> e \<noteq> CHR ''u'' \<and> map_of simple_escapes e = Some c) \<or>
   (\<exists>h1 h2. escape_ascii c = [backslash, CHR ''u'', CHR ''0'', CHR ''0'', h1, h2] \<and> is_hex h1 \<and> is_hex h2 \<and>
      hex4 [CHR ''0'', CHR ''0'', h1, h2] = byte c \<and> byte c < (128 :: nat))" if "byte c < (128 :: nat)"
proof -
  have inv: "c = char_of n" if "byte c = n" for n :: nat
    using char_of_char [of c] that by metis
  have q: "byte c = n \<longleftrightarrow> c = char_of n" if "n < 256" for n :: nat
    using inv that by auto
  have q: "byte c = (34 :: nat) \<longleftrightarrow> c = quote" "byte c = (92 :: nat) \<longleftrightarrow> c = backslash"
    "byte c = (8 :: nat) \<longleftrightarrow> c = CHR 0x08" "byte c = (12 :: nat) \<longleftrightarrow> c = CHR 0x0C"
    "byte c = (10 :: nat) \<longleftrightarrow> c = CHR 0x0A" "byte c = (13 :: nat) \<longleftrightarrow> c = CHR 0x0D"
    "byte c = (9 :: nat) \<longleftrightarrow> c = CHR 0x09"
    by (simp_all add: q char_of_def bit_0)
  let ?h1 = "hex_digit (byte c div 16)" and ?h2 = "hex_digit (byte c mod 16)"
  have l: "byte c div 16 < (16 :: nat)" "byte c mod 16 < (16 :: nat)" using that by auto
  have hx: "is_hex ?h1" "is_hex ?h2" using l by (simp_all add: is_hex_def)
  have "hex4 [CHR ''0'', CHR ''0'', ?h1, ?h2] = byte c"
    using l by (simp add: hex4_def hex_value_def [of "CHR ''0''"] Let_def)
  with hx that show ?thesis
    by (auto simp: escape_ascii_def Let_def q simple_escapes_def)
qed

lemma scan_unicode_escape:
  assumes "is_hex a" "is_hex b" "is_hex c" "is_hex e"
  shows "scan_string (backslash # CHR ''u'' # a # b # c # e # t) =
    map_option (apfst ((@) [backslash, CHR ''u'', a, b, c, e])) (scan_string t)"
  using assms by (subst scan_string.simps) simp

lemma scan_simple_escape:
  assumes "e \<noteq> CHR ''u''" "map_of simple_escapes e = Some c"
  shows "scan_string (backslash # e # t) = map_option (apfst ((@) [backslash, e])) (scan_string t)"
  using assms by (subst scan_string.simps) simp

lemma map_apfst_append:
  "map_option (apfst ((@) xs)) (map_option (apfst ((@) ys)) o1) = map_option (apfst ((@) (xs @ ys))) o1"
  by (cases o1) auto

lemma hex_chars: "is_hex CHR ''0''" "is_hex CHR ''2''" "is_hex CHR ''8''" "is_hex CHR ''9''" "is_hex CHR ''f''" "is_hex CHR ''d''"
  by (simp_all add: is_hex_def hex_value_def Let_def)

text \<open>What one round of \<open>json_escape\<close> writes, and what is left.\<close>

definition escape_step :: "string \<Rightarrow> string" where
  "escape_step s =
     (if byte (hd s) < (128 :: nat) then escape_ascii (hd s)
      else let r = fst (decode_rune s); w = snd (decode_rune s) in
        if r = rune_error \<and> w = 1 then backslash # ''ufffd''
        else if r = 8232 then backslash # ''u2028''
        else if r = 8233 then backslash # ''u2029''
        else take w s)"

lemma json_escape_step:
  assumes "s \<noteq> []"
  shows "json_escape s = escape_step s @ json_escape (drop (snd (decode_rune s)) s)"
proof (cases "byte (hd s) < (128 :: nat)")
  case True
  with assms have "snd (decode_rune s) = 1" by (cases s) (simp_all add: decode_rune_ascii)
  with True assms show ?thesis by (simp add: json_escape.simps [of s] escape_step_def drop_Suc)
next
  case False
  with assms show ?thesis by (simp add: json_escape.simps [of s] escape_step_def Let_def)
qed

lemma json_escape_Nil [simp]: "json_escape [] = []"
  by (simp add: json_escape.simps)

lemma plain_high: "128 \<le> (byte c :: nat) \<Longrightarrow> 32 \<le> (byte c :: nat) \<and> c \<noteq> quote \<and> c \<noteq> backslash"
  by auto

lemma scan_escape_step:
  assumes "s \<noteq> []"
  shows "scan_string (escape_step s @ t) = map_option (apfst ((@) (escape_step s))) (scan_string t)"
proof (cases "byte (hd s) < (128 :: nat)")
  case True
  then have e: "escape_step s = escape_ascii (hd s)" by (simp add: escape_step_def)
  from escape_cases [OF True] show ?thesis
    unfolding e using scan_plain [of "[hd s]" t] scan_unicode_escape scan_simple_escape hex_chars
    by (elim disjE exE conjE) simp_all
next
  case False
  obtain c0 s' where s: "s = c0 # s'" using assms by (cases s) auto
  obtain r w where d: "decode_rune s = (r, w)" by fastforce
  show ?thesis
  proof (cases "(r = rune_error \<and> w = 1) \<or> r = 8232 \<or> r = 8233")
    case True
    with False d show ?thesis
      by (auto simp: escape_step_def scan_unicode_escape hex_chars)
  next
    case g: False
    then have e: "escape_step s = take w s" using False d by (auto simp: escape_step_def)
    have "\<forall>c \<in> set (take w s). 128 \<le> (byte c :: nat)"
      using valid_rune_bytes [of c0 s' r w] False d g s by simp
    then show ?thesis unfolding e by (intro scan_plain) (auto dest: plain_high)
  qed
qed

lemma scan_escape: "scan_string (json_escape s @ quote # r) = Some (json_escape s, r)"
proof (induction s rule: json_escape.induct)
  case (1 s)
  show ?case
  proof (cases "s = []")
    case True
    then show ?thesis by (simp add: scan_string.simps)
  next
    case False
    have ih: "scan_string (json_escape (drop (snd (decode_rune s)) s) @ quote # r) =
        Some (json_escape (drop (snd (decode_rune s)) s), r)"
    proof (cases "byte (hd s) < (128 :: nat)")
      case True
      with False have "drop (snd (decode_rune s)) s = tl s" by (cases s) (simp_all add: decode_rune_ascii)
      with 1(1) [OF False True] show ?thesis by simp
    next
      case b: False
      from 1(2) [OF False b refl refl] show ?thesis .
    qed
    then show ?thesis
      by (simp add: json_escape_step [OF False] scan_escape_step [OF False])
  qed
qed

lemma unquote_Nil [simp]: "unquote [] = []"
  by (simp add: unquote.simps)

lemma unquote_high:
  assumes "128 \<le> (byte (hd s) :: nat)" "s \<noteq> []" "decode_rune s = (r, w)" "(r, w) \<noteq> (rune_error, 1)"
  shows "unquote (take w s @ t) = take w s @ unquote t"
proof -
  obtain c0 s' where s: "s = c0 # s'" using assms(2) by (cases s) auto
  have e: "encode_rune r = take w s" "decode_rune (take w s @ t) = (r, w)"
    using valid_rune_bytes [of c0 s' r w t] assms s by auto
  have w: "0 < w" "w \<le> length s" using decode_rune_width [OF assms(2)] assms(3) by auto
  then have h: "take w s @ t \<noteq> []" "hd (take w s @ t) = c0"
    using s by (simp_all add: take_Cons')
  have h: "take w s @ t \<noteq> []" "hd (take w s @ t) = c0" "drop w (take w s @ t) = t"
    using h w by simp_all
  have c0: "\<not> byte c0 < (128 :: nat)" "c0 \<noteq> backslash" using assms(1) s by auto
  show ?thesis
    using h c0 e by (subst unquote.simps) simp
qed

lemma hex_values:
  "hex_value CHR ''0'' = Some 0" "hex_value CHR ''2'' = Some 2" "hex_value CHR ''8'' = Some 8" "hex_value CHR ''9'' = Some 9"
  by (simp_all add: hex_value_def Let_def)

lemma unquote_unicode:
  assumes "is_hex a" "is_hex b" "is_hex c" "is_hex e" "\<not> surrogate (hex4 [a, b, c, e])"
  shows "unquote (backslash # CHR ''u'' # a # b # c # e # t) = encode_rune (hex4 [a, b, c, e]) @ unquote t"
  using assms by (subst unquote.simps) (simp add: getu4_def)

lemma unquote_simple:
  assumes "e \<noteq> CHR ''u''" "map_of simple_escapes e = Some c"
  shows "unquote (backslash # e # t) = c # unquote t"
  using assms by (subst unquote.simps) (simp add: getu4_def)

lemma encode_rune_ascii: "byte c < (128 :: nat) \<Longrightarrow> encode_rune (byte c) = [c]"
  by (simp add: encode_rune_def Let_def)

lemma unquote_escape_step:
  assumes "s \<noteq> []" "valid_utf8 s"
  shows "unquote (escape_step s @ t) = take (snd (decode_rune s)) s @ unquote t"
proof (cases "byte (hd s) < (128 :: nat)")
  case True
  then have e: "escape_step s = escape_ascii (hd s)" by (simp add: escape_step_def)
  have w: "take (snd (decode_rune s)) s = [hd s]" using True assms(1) by (cases s) (simp_all add: decode_rune_ascii)
  have "unquote (escape_ascii (hd s) @ t) = hd s # unquote t"
    using escape_cases [OF True]
  proof (elim disjE exE conjE)
    assume a: "escape_ascii (hd s) = [hd s]" and b: "hd s \<noteq> backslash"
    with True show ?thesis by (subst unquote.simps) simp
  next
    fix e
    assume "escape_ascii (hd s) = [backslash, e]" "e \<noteq> CHR ''u''" "map_of simple_escapes e = Some (hd s)"
    then show ?thesis by (simp add: unquote_simple)
  next
    fix h1 h2
    assume a: "escape_ascii (hd s) = [backslash, CHR ''u'', CHR ''0'', CHR ''0'', h1, h2]" "is_hex h1" "is_hex h2"
      and x: "hex4 [CHR ''0'', CHR ''0'', h1, h2] = byte (hd s)"
    have "\<not> surrogate (hex4 [CHR ''0'', CHR ''0'', h1, h2])" unfolding x surrogate_def using True by simp
    with a show ?thesis by (simp add: unquote_unicode hex_chars x encode_rune_ascii [OF True])
  qed
  then show ?thesis unfolding e w by simp
next
  case False
  obtain c0 s' where s: "s = c0 # s'" using assms(1) by (cases s) auto
  obtain r w where d: "decode_rune s = (r, w)" by fastforce
  have v: "(r, w) \<noteq> (rune_error, 1)" using assms d by (auto simp: valid_utf8.simps [of s])
  have enc: "encode_rune r = take w s" using valid_rune_bytes [of c0 s' r w] False d v s by simp
  consider "r = 8232" | "r = 8233" | "r \<noteq> 8232" "r \<noteq> 8233" by blast
  then show ?thesis
  proof cases
    case 1
    then have "escape_step s = backslash # ''u2028''" using False d v by (simp add: escape_step_def)
    then show ?thesis using enc 1 d
      by (simp add: unquote_unicode hex_chars hex4_def hex_values surrogate_def)
  next
    case 2
    then have "escape_step s = backslash # ''u2029''" using False d v by (simp add: escape_step_def)
    then show ?thesis using enc 2 d
      by (simp add: unquote_unicode hex_chars hex4_def hex_values surrogate_def)
  next
    case 3
    then have "escape_step s = take w s" using False d v by (auto simp: escape_step_def)
    then show ?thesis using unquote_high [of s r w t] False assms(1) d v by simp
  qed
qed

lemma unquote_escape: "valid_utf8 s \<Longrightarrow> unquote (json_escape s) = s"
proof (induction s rule: valid_utf8.induct)
  case (1 s)
  show ?case
  proof (cases "s = []")
    case False
    then have v: "decode_rune s \<noteq> (rune_error, 1)" "valid_utf8 (drop (snd (decode_rune s)) s)"
      using "1.prems" by (auto simp: valid_utf8.simps [of s] split: if_splits)
    with 1(1) [OF False] show ?thesis
      by (simp add: json_escape_step [OF False] unquote_escape_step [OF False "1.prems"])
  qed simp
qed

lemma parse_json_quote:
  assumes "valid_utf8 s"
  shows "parse_value (Suc n) (json_quote s @ t) = Some (JString s, t)"
  using scan_escape [of s t] unquote_escape [OF assms]
  by (simp add: json_quote_def json_space_def Let_def)

lemma intersperse_comma_simps [simp]:
  "intersperse_comma [] = []" "intersperse_comma [x] = x"
  "intersperse_comma (x # y # ys) = x @ CHR '','' # intersperse_comma (y # ys)"
  by (simp_all add: intersperse_comma_def)

lemma json_quote_head: "json_quote s @ t = quote # json_escape s @ quote # t"
  by (simp add: json_quote_def)

lemma skip_ws_quote [simp]: "skip_ws (quote # s) = quote # s"
  by (simp add: json_space_def)

lemma parse_items_quotes:
  assumes "xs \<noteq> []" "\<forall>x \<in> set xs. valid_utf8 x" "length xs < n"
  shows "parse_items n (intersperse_comma (map json_quote xs) @ CHR '']'' # t) = Some (map JString xs, t)"
  using assms
proof (induction xs arbitrary: n)
  case (Cons x xs)
  obtain m where n: "n = Suc (Suc m)" using Cons.prems(3) by (cases n; cases "n - 1") auto
  have sp: "\<not> json_space CHR '']''" "\<not> json_space CHR '',''" by (simp_all add: json_space_def)
  have v: "valid_utf8 x" using Cons.prems(2) by simp
  show ?case
  proof (cases xs)
    case Nil
    with parse_json_quote [OF v] sp n show ?thesis
      by (simp add: Let_def head_is_def del: parse_value.simps)
  next
    case (Cons y ys)
    have "parse_items (Suc m) (intersperse_comma (map json_quote xs) @ CHR '']'' # t) = Some (map JString xs, t)"
      using Cons.IH [of "Suc m"] Cons.prems n Cons by simp
    with Cons parse_json_quote [OF v] sp n show ?thesis
      by (simp add: Let_def head_is_def del: parse_value.simps parse_items.simps
        add: parse_items.simps(2) [of "Suc m"])
  qed
qed simp

lemma parse_string_array:
  assumes "\<forall>x \<in> set xs. valid_utf8 x"
  shows "parse_value (Suc (Suc (length xs))) (json_array (map json_quote xs)) = Some (JArray (map JString xs), [])"
proof (cases xs)
  case Nil
  then show ?thesis by (simp add: json_array_def json_space_def head_is_def)
next
  case (Cons y ys)
  have i: "parse_items (Suc (length xs)) (intersperse_comma (map json_quote xs) @ '']'') = Some (map JString xs, [])"
    using parse_items_quotes [of xs "Suc (length xs)" "[]"] assms Cons by simp
  have "\<exists>u. intersperse_comma (map json_quote xs) @ '']'' = quote # u"
    unfolding Cons by (cases ys) (simp_all add: json_quote_def)
  then obtain u where u: "intersperse_comma (map json_quote xs) @ '']'' = quote # u" by blast
  have a: "json_array (map json_quote xs) = CHR ''['' # quote # u"
    using u by (simp add: json_array_def)
  show ?thesis
    unfolding a using i u
    by (simp add: json_space_def head_is_def Let_def del: parse_items.simps)
qed

text \<open>An array of strings determines the strings.\<close>

lemma json_array_inj:
  assumes "\<forall>x \<in> set xs. valid_utf8 x" "\<forall>y \<in> set ys. valid_utf8 y" "length xs = length ys"
    "json_array (map json_quote xs) = json_array (map json_quote ys)"
  shows "xs = ys"
proof -
  have "map JString xs = map JString ys"
    using parse_string_array [OF assms(1)] parse_string_array [OF assms(2)] assms(3,4) by simp
  then show ?thesis by (simp add: inj_map_eq_map inj_def)
qed

text \<open>What the encoder writes for a valid string is read back as that string.\<close>

lemma json_string_roundtrip:
  assumes "valid_utf8 s"
  shows "parse_json (json_quote s) = Some (JString s)"
  using parse_json_quote [OF assms, of "2 * length (json_quote s) + 1" "[]"]
  by (simp add: parse_json_def)

text \<open>The bound of \<open>parse_json\<close> is enough: a larger one gives the same answer.\<close>

lemma parse_json_bound_enough:
  assumes "2 * length s + 2 \<le> n"
  shows "parse_json s = (case parse_value n s of None \<Rightarrow> None | Some (v, r) \<Rightarrow> if skip_ws r = [] then Some v else None)"
proof -
  have "parse_value n s = parse_value (2 * length s + 2) s"
    using parse_value_fuel [of s "2 * length s + 2" n] assms by simp
  then show ?thesis by (simp add: parse_json_def del: parse_value.simps)
qed

section \<open>Raw messages\<close>

text \<open>
  \<open>json.RawMessage\<close>: the members of an object or the elements of an array with the text of each value,
  as \<open>Token\<close> and \<open>Decode\<close> deliver them to a decoder that looks at one level at a time.
\<close>

definition raw_value :: "nat \<Rightarrow> string \<Rightarrow> (string \<times> string) option" where
  "raw_value n s =
     (let v = skip_ws s in
      case parse_value n v of None \<Rightarrow> None | Some (_, r) \<Rightarrow> Some (take (length v - length r) v, r))"

fun raw_members :: "nat \<Rightarrow> string \<Rightarrow> ((string \<times> string) list \<times> string) option" where
  "raw_members 0 s = None"
| "raw_members (Suc n) s =
     (let s1 = skip_ws s in
      if \<not> head_is quote s1 then None else
      case scan_string (tl s1) of None \<Rightarrow> None | Some (k, s2) \<Rightarrow>
      if \<not> head_is (CHR '':'') (skip_ws s2) then None else
      case raw_value n (tl (skip_ws s2)) of None \<Rightarrow> None | Some (v, s3) \<Rightarrow>
        let s4 = skip_ws s3 in
        if head_is (CHR '','') s4 then map_option (apfst ((#) (unquote k, v))) (raw_members n (tl s4))
        else if head_is (CHR ''}'') s4 then Some ([(unquote k, v)], tl s4) else None)"

fun raw_items :: "nat \<Rightarrow> string \<Rightarrow> (string list \<times> string) option" where
  "raw_items 0 s = None"
| "raw_items (Suc n) s =
     (case raw_value n s of None \<Rightarrow> None | Some (v, s1) \<Rightarrow>
        let s2 = skip_ws s1 in
        if head_is (CHR '','') s2 then map_option (apfst ((#) v)) (raw_items n (tl s2))
        else if head_is (CHR '']'') s2 then Some ([v], tl s2) else None)"

definition at_end :: "('a \<times> string) option \<Rightarrow> 'a option" where
  "at_end p = (case p of None \<Rightarrow> None | Some (v, r) \<Rightarrow> if skip_ws r = [] then Some v else None)"

definition raw_object :: "string \<Rightarrow> (string \<times> string) list option" where
  "raw_object data =
     (let s = skip_ws data in
      if \<not> head_is (CHR ''{'') s then None
      else if head_is (CHR ''}'') (skip_ws (tl s)) then at_end (Some ([], tl (skip_ws (tl s))))
      else at_end (raw_members (2 * length s + 2) (tl s)))"

definition raw_array :: "string \<Rightarrow> string list option" where
  "raw_array data =
     (let s = skip_ws data in
      if \<not> head_is (CHR ''['') s then None
      else if head_is (CHR '']'') (skip_ws (tl s)) then at_end (Some ([], tl (skip_ws (tl s))))
      else at_end (raw_items (2 * length s + 2) (tl s)))"

end
