(* ===== verification/Output.thy ===== *)
theory Output
  imports Tables Json "HOL-Library.Multiset"
begin

text \<open>
  The output of a model: \<open>internal/app/generation_output.go\<close> (decoding, digest, the check before
  publication), \<open>generation_safety.go\<close> (the safety and repetition gate) and the outcome of a provider
  call of \<open>generation_execution.go\<close>.
\<close>

section \<open>Results and their digest\<close>

definition MaxGenerationOutputBytes :: nat where "MaxGenerationOutputBytes = 32 * 1024"

fun output_name :: "GenerationOutput \<Rightarrow> string" where
  "output_name OutputPost = ''post''"
| "output_name OutputQuote = ''quote''"
| "output_name OutputReply = ''reply''"
| "output_name (OutputOther s) = s"

fun decision_name :: "GenerationDecision \<Rightarrow> string" where
  "decision_name NoDecision = []"
| "decision_name GenerationPublish = ''publish''"
| "decision_name GenerationSkip = ''skip''"
| "decision_name (DecisionOther s) = s"

record GenerationResult =
  rDecision :: GenerationDecision
  rKind :: GenerationOutput
  rContent :: Content
  rReason :: string

definition empty_content :: Content where
  "empty_content = \<lparr>ctBody = [], ctTags = [], ctCode = None\<rparr>"

definition empty_result :: GenerationResult where
  "empty_result = \<lparr>rDecision = NoDecision, rKind = OutputOther [], rContent = empty_content, rReason = []\<rparr>"

definition result_bytes :: "GenerationResult \<Rightarrow> string" where
  "result_bytes r =
     hash_field digest_version @ hash_field (decision_name (rDecision r)) @ hash_field (output_name (rKind r)) @
     hash_field (rReason r) @ hash_field (ctBody (rContent r)) @ hash_code (ctCode (rContent r))"

definition digest :: "GenerationResult \<Rightarrow> string" where
  "digest r =
     (if rDecision r \<noteq> GenerationPublish \<and> rDecision r \<noteq> GenerationSkip then []
      else digest_version @ '':'' @ hex_encode (sha256 (result_bytes r)))"

section \<open>Decoding\<close>

text \<open>
  \<open>generationObject\<close>: one JSON object with none but the allowed names, each at most once, and the raw
  text of each value.
\<close>

definition generation_object :: "string \<Rightarrow> string list \<Rightarrow> go_error + (string \<times> string) list" where
  "generation_object data allowed =
     (case raw_object data of
        None \<Rightarrow> Inl ErrGenerationOutput
      | Some ms \<Rightarrow> if list_all (\<lambda>(k, _). k \<in> set allowed) ms \<and> distinct (map fst ms) then Inr ms
                   else Inl ErrGenerationOutput)"

definition generation_string :: "string option \<Rightarrow> go_error + string" where
  "generation_string raw =
     (case raw of None \<Rightarrow> Inl ErrGenerationOutput | Some data \<Rightarrow>
      (case parse_json data of
        Some (JString s) \<Rightarrow>
          if valid_utf8 s \<and> list_all (\<lambda>r. r \<noteq> 0 \<and> r \<noteq> rune_error) (runes s) then Inr s else Inl ErrGenerationOutput
      | _ \<Rightarrow> Inl ErrGenerationOutput))"

definition decode_code :: "string \<Rightarrow> go_error + Code" where
  "decode_code raw =
     and_then (generation_object raw [''language'', ''filename'', ''source'']) (\<lambda>fs.
     if length fs \<noteq> 3 then Inl ErrGenerationOutput
     else
       and_then (generation_string (map_of fs ''language'')) (\<lambda>l.
       and_then (generation_string (map_of fs ''filename'')) (\<lambda>f.
       and_then (generation_string (map_of fs ''source'')) (\<lambda>s.
       Inr \<lparr>cdLanguage = l, cdFilename = f, cdSource = s\<rparr>))))"

definition decode_publish :: "unicode \<Rightarrow> (string \<times> string) list \<Rightarrow> GenerationJob \<Rightarrow> go_error + GenerationResult" where
  "decode_publish uc ms job =
     (if map_of ms ''reason'' \<noteq> None then Inl ErrGenerationOutput
      else
      and_then (generation_string (map_of ms ''body'')) (\<lambda>body.
      and_then
        (case map_of ms ''code'' of
           None \<Rightarrow> Inr None
         | Some raw \<Rightarrow> if jOutputKind job = OutputReply then Inl ErrGenerationOutput
                       else and_then (decode_code raw) (\<lambda>c. Inr (Some c))) (\<lambda>code.
      if jOutputKind job = OutputReply then
        (case new_reply_creation (the (jSourcePostID job)) body of
           Inl _ \<Rightarrow> Inl ErrGenerationOutput
         | Inr c \<Rightarrow> Inr \<lparr>rDecision = GenerationPublish, rKind = jOutputKind job,
             rContent = empty_content\<lparr>ctBody := rcBody c\<rparr>, rReason = []\<rparr>)
      else
        (case new_post_creation uc body (if jOutputKind job = OutputQuote then jSourcePostID job else None) code of
           Inl _ \<Rightarrow> Inl ErrGenerationOutput
         | Inr c \<Rightarrow> Inr \<lparr>rDecision = GenerationPublish, rKind = jOutputKind job,
             rContent = pcContent c, rReason = []\<rparr>))))"

definition decode_generation_result :: "unicode \<Rightarrow> string \<Rightarrow> GenerationJob \<Rightarrow> go_error + GenerationResult" where
  "decode_generation_result uc data job =
     (if length data > MaxGenerationOutputBytes \<or> \<not> valid_utf8 data \<or> validate_job job \<noteq> None
      then Inl ErrGenerationOutput
      else
      and_then (generation_object data [''decision'', ''body'', ''code'', ''reason'']) (\<lambda>ms.
      and_then (generation_string (map_of ms ''decision'')) (\<lambda>decision.
      if decision = ''skip'' then
        (if length ms \<noteq> 2 then Inl ErrGenerationOutput
         else and_then (generation_string (map_of ms ''reason'')) (\<lambda>reason.
              if \<not> valid_skip_reason reason then Inl ErrGenerationOutput
              else Inr \<lparr>rDecision = GenerationSkip, rKind = jOutputKind job, rContent = empty_content,
                rReason = reason\<rparr>))
      else if decision = ''publish'' then decode_publish uc ms job
      else Inl ErrGenerationOutput)))"

section \<open>Safety and repetition\<close>

definition MaxGenerationRecentContent :: nat where "MaxGenerationRecentContent = 20"

text \<open>\<open>strings.FieldsFunc\<close>: the maximal runs of runes that are not separators.\<close>

function fields_func :: "(nat \<Rightarrow> bool) \<Rightarrow> string \<Rightarrow> string \<Rightarrow> string list" where
  "fields_func sep cur s =
     (if s = [] then (if cur = [] then [] else [cur])
      else
        let r = fst (decode_rune s); w = snd (decode_rune s) in
        if sep r then (if cur = [] then [] else [cur]) @ fields_func sep [] (drop w s)
        else fields_func sep (cur @ take w s) (drop w s))"
  by pat_completeness auto
termination
  by (relation "measure (\<lambda>(sep, cur, s). length s)") simp_all

declare fields_func.simps [simp del]

definition generation_words :: "unicode \<Rightarrow> string \<Rightarrow> string list" where
  "generation_words uc text = fields_func (\<lambda>r. \<not> uc_letter uc r \<and> \<not> uc_number uc r) [] (to_lower uc text)"

text \<open>The counted map of adjacent pairs, as a list from which a shared pair is taken once.\<close>

fun shared_pairs :: "'p list \<Rightarrow> 'p list \<Rightarrow> nat" where
  "shared_pairs ps [] = 0"
| "shared_pairs ps (q # qs) =
     (if q \<in> set ps then Suc (shared_pairs (remove1 q ps) qs) else shared_pairs ps qs)"

definition similar_words :: "string list \<Rightarrow> string list \<Rightarrow> bool" where
  "similar_words a b \<longleftrightarrow>
     \<not> (length a < 8 \<or> length b < 8) \<and>
     10 * shared_pairs (zip a (tl a)) (zip b (tl b)) \<ge> 4 * (length a + length b - 2)"

definition prompt_delimiters :: "string list" where
  "prompt_delimiters = [''<|'', ''[inst]'', ''[/inst]'']"

definition unsafe_phrases :: "string list" where
  "unsafe_phrases =
     [''officialrepresentative'', ''officialspokesperson'', ''onbehalfof'', ''iamhuman'', ''imahuman'',
      ''ihaveliveaccess'', ''ihaverealtimeaccess'', ''icanaccessyour'', ''iaccessedyour'', ''icheckedyour'',
      ''ijustran'', ''ijustbrowsed'', ''isearchedtheweb'', ''killyourself'', ''stealpasswords'',
      ''stealcredentials'', ''sendmeyourpassword'', ''sendmeyourapikey'']"

definition compact :: "unicode \<Rightarrow> string \<Rightarrow> string" where
  "compact uc text =
     concat (map (\<lambda>r. if uc_letter uc r \<or> uc_number uc r then encode_rune (uc_lower uc r) else []) (runes text))"

definition unsafe_text :: "unicode \<Rightarrow> string \<Rightarrow> bool" where
  "unsafe_text uc text \<longleftrightarrow>
     list_ex (\<lambda>r. uc_format uc r \<or> is_control r \<and> r \<noteq> 10 \<and> r \<noteq> 9) (runes text) \<or>
     list_ex (contains (to_lower uc text)) prompt_delimiters \<or>
     list_ex (contains (compact uc text)) unsafe_phrases"

definition content_texts :: "Content \<Rightarrow> string list" where
  "content_texts c = ctBody c # (case ctCode c of None \<Rightarrow> [] | Some d \<Rightarrow> [cdLanguage d, cdFilename d, cdSource d])"

definition repeats_code :: "Content \<Rightarrow> Content \<Rightarrow> bool" where
  "repeats_code c previous \<longleftrightarrow>
     (case (ctCode c, ctCode previous) of
        (Some d, Some e) \<Rightarrow> rune_count (cdSource d) \<ge> 40 \<and>
          fields_func is_space [] (cdSource d) = fields_func is_space [] (cdSource e)
      | _ \<Rightarrow> False)"

fun repetition_error :: "unicode \<Rightarrow> Content \<Rightarrow> Content list \<Rightarrow> go_error option" where
  "repetition_error uc content [] = None"
| "repetition_error uc content (previous # rest) =
     (case new_content uc (ctBody previous) (ctCode previous) of
        Inl _ \<Rightarrow> Some ErrGenerationOutput
      | Inr _ \<Rightarrow>
          let body = generation_words uc (ctBody content); words = generation_words uc (ctBody previous) in
          if body = words \<or> similar_words body words then Some ErrGenerationRepetition
          else if repeats_code content previous then Some ErrGenerationRepetition
          else repetition_error uc content rest)"

definition validate_safety :: "unicode \<Rightarrow> GenerationResult \<Rightarrow> Content list \<Rightarrow> go_error option" where
  "validate_safety uc result recent =
     (if digest result = [] \<or> length recent > MaxGenerationRecentContent then Some ErrGenerationOutput
      else if rDecision result = GenerationSkip then None
      else if list_ex (unsafe_text uc) (content_texts (rContent result)) then Some ErrGenerationUnsafe
      else repetition_error uc (rContent result) recent)"

section \<open>The check before publication\<close>

definition validate_publication_output ::
  "unicode \<Rightarrow> GenerationJob \<Rightarrow> GenerationAttempt \<Rightarrow> GenerationResult \<Rightarrow> Content list \<Rightarrow> time \<Rightarrow> go_error option" where
  "validate_publication_output uc job attempt result recent now =
     (if validate_job job \<noteq> None \<or> validate_lease job (aLeaseVersion attempt) now \<noteq> None \<or>
         validate_attempt attempt \<noteq> None \<or> aJobID attempt \<noteq> jID job \<or> aStatus attempt \<noteq> AttemptSucceeded \<or>
         aStartedAt attempt < jAvailableAt job \<or> the (aFinishedAt attempt) > now \<or>
         rDecision result \<noteq> GenerationPublish \<or> rKind result \<noteq> jOutputKind job \<or>
         aOutputDigest attempt = [] \<or> digest result \<noteq> aOutputDigest attempt
      then Some ErrGenerationOutput
      else validate_safety uc result recent)"

section \<open>Outcomes of a provider call\<close>

record GenerationOutcome =
  oProviderRequestID :: string
  oResult :: GenerationResult
  oFailure :: GenerationFailure
  oNotBefore :: time
  oInputTokens :: "int option"
  oOutputTokens :: "int option"

definition request_id_char :: "nat \<Rightarrow> bool" where
  "request_id_char c \<longleftrightarrow> is_alnum c \<or> c = 45 \<or> c = 95 \<or> c = 46 \<or> c = 58"

definition validate_outcome :: "GenerationOutcome \<Rightarrow> go_error option" where
  "validate_outcome o1 =
     first_error
       [(length (oProviderRequestID o1) > 256, ErrGenerationOutput),
        (list_ex (\<lambda>c. \<not> request_id_char c) (runes (oProviderRequestID o1)), ErrGenerationOutput),
        ((digest (oResult o1) \<noteq> []) = (oFailure o1 \<noteq> NoFailure) \<or>
         oFailure o1 \<noteq> NoFailure \<and> \<not> failure_valid (oFailure o1), ErrGenerationOutput),
        (oNotBefore o1 \<noteq> 0 \<and> (oFailure o1 = NoFailure \<or> \<not> valid_outcome_time (oNotBefore o1)), ErrGenerationOutput),
        ((oInputTokens o1 = None) \<noteq> (oOutputTokens o1 = None) \<or>
         (case oInputTokens o1 of None \<Rightarrow> False | Some i \<Rightarrow> i < 1 \<or> the (oOutputTokens o1) < 0), ErrGenerationOutput),
        ((oFailure o1 = GenerationTimeout \<or> oFailure o1 = GenerationCancelled \<or>
          oFailure o1 = GenerationAccountingUnsupported) \<and> oInputTokens o1 \<noteq> None, ErrGenerationOutput)]"

end
