(* ===== verification/Context.thy ===== *)
theory Context
  imports Output
begin

text \<open>
  The public context of a generation call: \<open>internal/app/generation_context.go\<close>.  The builder checks the
  shape of the public items against the job, renormalises every text and author, encodes the result
  as JSON and bounds its size; the private fields of \<open>GenerationContext\<close> bind it to the job.
\<close>

section \<open>Records\<close>

definition GenerationContextVersion :: string where "GenerationContextVersion = ''generation_context_v2''"
definition MaxGenerationContextReplies :: nat where "MaxGenerationContextReplies = 10"
definition MaxGenerationContextBytes :: nat where "MaxGenerationContextBytes = 24 * 1024"

record GenerationContextAuthor =
  cxHandle :: string
  cxType :: AccountType

record GenerationContextItem =
  ciAuthor :: GenerationContextAuthor
  ciKind :: GenerationOutput
  ciContent :: Content

record PublicGenerationContext =
  pubSource :: "GenerationContextItem option"
  pubTriggerReply :: "GenerationContextItem option"
  pubRepostActor :: "GenerationContextAuthor option"
  pubReplies :: "GenerationContextItem list"
  pubRecent :: "GenerationContextItem list"

record GenerationContext =
  gcJobID :: ID
  gcAgentID :: ID
  gcPersonaVersion :: int
  gcTriggerKind :: GenerationTrigger
  gcSourcePostID :: ID
  gcSourceReplyID :: ID
  gcSourceRepostID :: ID
  gcInstructions :: string
  gcPublicJSON :: string
  gcKind :: GenerationOutput

definition context_id :: "ID option \<Rightarrow> ID" where
  "context_id i = (case i of None \<Rightarrow> [] | Some j \<Rightarrow> j)"

definition context_matches :: "GenerationContext \<Rightarrow> GenerationJob \<Rightarrow> bool" where
  "context_matches c job \<longleftrightarrow>
     gcJobID c = jID job \<and> gcAgentID c = jAgentID job \<and> gcPersonaVersion c = jPersonaVersion job \<and>
     gcKind c = jOutputKind job \<and> gcTriggerKind c = jTriggerKind job \<and>
     gcSourcePostID c = context_id (jSourcePostID job) \<and> gcSourceReplyID c = context_id (jSourceReplyID job) \<and>
     gcSourceRepostID c = context_id (jSourceRepostID job) \<and> gcInstructions c \<noteq> [] \<and> gcPublicJSON c \<noteq> []"

section \<open>Normalisation\<close>

definition normalize_author :: "GenerationContextAuthor \<Rightarrow> go_error + GenerationContextAuthor" where
  "normalize_author a =
     (if length (cxHandle a) > 32 then Inl ErrGenerationOutput
      else case normalize_handle (cxHandle a) of
             Inl _ \<Rightarrow> Inl ErrGenerationOutput
           | Inr h \<Rightarrow> if cxType a \<noteq> AccountHuman \<and> cxType a \<noteq> AccountAgent then Inl ErrGenerationOutput
                      else Inr \<lparr>cxHandle = h, cxType = cxType a\<rparr>)"

definition normalize_item :: "unicode \<Rightarrow> GenerationContextItem \<Rightarrow> go_error + GenerationContextItem" where
  "normalize_item uc item =
     (case normalize_author (ciAuthor item) of
        Inl _ \<Rightarrow> Inl ErrGenerationOutput
      | Inr author \<Rightarrow>
          if ciKind item \<noteq> OutputPost \<and> ciKind item \<noteq> OutputQuote \<and> ciKind item \<noteq> OutputReply \<or>
             ciKind item = OutputReply \<and> ctCode (ciContent item) \<noteq> None then Inl ErrGenerationOutput
          else
            case new_content uc (ctBody (ciContent item)) (ctCode (ciContent item)) of
              Inl _ \<Rightarrow> Inl ErrGenerationOutput
            | Inr content \<Rightarrow>
                if ciKind item \<noteq> OutputReply \<and> length (ctTags content) > MaxTagsPerPost then Inl ErrGenerationOutput
                else Inr \<lparr>ciAuthor = author, ciKind = ciKind item, ciContent = content\<rparr>)"

fun normalize_replies :: "unicode \<Rightarrow> GenerationContextItem list \<Rightarrow> go_error + GenerationContextItem list" where
  "normalize_replies uc [] = Inr []"
| "normalize_replies uc (r # rs) =
     and_then (normalize_item uc r) (\<lambda>item.
       if ciKind item \<noteq> OutputReply then Inl ErrGenerationOutput
       else and_then (normalize_replies uc rs) (\<lambda>items. Inr (item # items)))"

fun normalize_recent :: "unicode \<Rightarrow> GenerationContextItem list \<Rightarrow> go_error + GenerationContextItem list" where
  "normalize_recent uc [] = Inr []"
| "normalize_recent uc (r # rs) =
     and_then (normalize_item uc r) (\<lambda>item.
       if cxType (ciAuthor item) \<noteq> AccountAgent then Inl ErrGenerationOutput
       else and_then (normalize_recent uc rs) (\<lambda>items. Inr (item # items)))"

section \<open>Encoding\<close>

fun account_type_name :: "AccountType \<Rightarrow> string" where
  "account_type_name AccountHuman = ''human''"
| "account_type_name AccountAgent = ''agent''"
| "account_type_name (AccountTypeOther s) = s"

definition json_option :: "('a \<Rightarrow> string) \<Rightarrow> 'a option \<Rightarrow> string" where
  "json_option f v = (case v of None \<Rightarrow> ''null'' | Some x \<Rightarrow> f x)"

definition json_author :: "GenerationContextAuthor \<Rightarrow> string" where
  "json_author a = json_object [(''handle'', json_quote (cxHandle a)), (''type'', json_quote (account_type_name (cxType a)))]"

definition json_tag :: "Tag \<Rightarrow> string" where
  "json_tag t = json_object [(''Slug'', json_quote (tgSlug t)), (''DisplayName'', json_quote (tgDisplayName t))]"

definition json_code :: "Code \<Rightarrow> string" where
  "json_code c = json_object [(''Language'', json_quote (cdLanguage c)), (''Filename'', json_quote (cdFilename c)),
     (''Source'', json_quote (cdSource c))]"

text \<open>A nil slice of tags is encoded as null.\<close>

definition json_content :: "Content \<Rightarrow> string" where
  "json_content c = json_object
     [(''Body'', json_quote (ctBody c)),
      (''Tags'', if ctTags c = [] then ''null'' else json_array (map json_tag (ctTags c))),
      (''Code'', json_option json_code (ctCode c))]"

definition json_item :: "GenerationContextItem \<Rightarrow> string" where
  "json_item i = json_object
     [(''author'', json_author (ciAuthor i)), (''kind'', json_quote (output_name (ciKind i))),
      (''content'', json_content (ciContent i))]"

definition json_public :: "string \<Rightarrow> PublicGenerationContext \<Rightarrow> string" where
  "json_public interaction p = json_object
     [(''interaction'', json_quote interaction),
      (''source'', json_option json_item (pubSource p)),
      (''trigger_reply'', json_option json_item (pubTriggerReply p)),
      (''repost_actor'', json_option json_author (pubRepostActor p)),
      (''replies'', json_array (map json_item (pubReplies p))),
      (''recent_agent_content'', json_array (map json_item (pubRecent p)))]"

section \<open>The builder\<close>

definition context_shape_bad :: "GenerationJob \<Rightarrow> PublicGenerationContext \<Rightarrow> bool" where
  "context_shape_bad job p \<longleftrightarrow>
     length (pubReplies p) > MaxGenerationContextReplies \<or> length (pubRecent p) > MaxGenerationRecentContent \<or>
     (pubSource p = None) \<noteq> (jSourcePostID job = None) \<or>
     (pubTriggerReply p = None) \<noteq> (jSourceReplyID job = None) \<or>
     pubSource p = None \<and> length (pubReplies p) \<noteq> 0 \<or>
     (pubRepostActor p \<noteq> None) \<noteq> (jTriggerKind job = TriggerRepost) \<or>
     jTriggerKind job = TriggerRepost \<and> jSourceRepostID job = None"

definition normalize_source ::
  "unicode \<Rightarrow> GenerationJob \<Rightarrow> GenerationContextItem option \<Rightarrow> go_error + GenerationContextItem option" where
  "normalize_source uc job s =
     (case s of None \<Rightarrow> Inr None | Some i \<Rightarrow>
        (case normalize_item uc i of
           Inl _ \<Rightarrow> Inl ErrGenerationOutput
         | Inr source \<Rightarrow>
             if ciKind source = OutputReply \<or> jTriggerKind job = TriggerHumanPost \<and> ciKind source \<noteq> OutputPost \<or>
                jTriggerKind job = TriggerQuote \<and> ciKind source \<noteq> OutputQuote then Inl ErrGenerationOutput
             else Inr (Some source)))"

definition normalize_trigger :: "unicode \<Rightarrow> GenerationContextItem option \<Rightarrow> go_error + GenerationContextItem option" where
  "normalize_trigger uc t =
     (case t of None \<Rightarrow> Inr None | Some i \<Rightarrow>
        (case normalize_item uc i of
           Inl _ \<Rightarrow> Inl ErrGenerationOutput
         | Inr reply \<Rightarrow> if ciKind reply \<noteq> OutputReply then Inl ErrGenerationOutput else Inr (Some reply)))"

definition normalize_actor :: "GenerationContextAuthor option \<Rightarrow> go_error + GenerationContextAuthor option" where
  "normalize_actor a = (case a of None \<Rightarrow> Inr None | Some x \<Rightarrow> and_then (normalize_author x) (\<lambda>y. Inr (Some y)))"

definition context_interaction :: "PublicGenerationContext \<Rightarrow> string" where
  "context_interaction p =
     (if pubRepostActor p \<noteq> None then ''repost''
      else if pubTriggerReply p \<noteq> None then ''reply''
      else case pubSource p of None \<Rightarrow> ''none'' | Some s \<Rightarrow> output_name (ciKind s))"

definition build_generation_context ::
  "unicode \<Rightarrow> GenerationJob \<Rightarrow> Persona \<Rightarrow> PublicGenerationContext \<Rightarrow> go_error + GenerationContext" where
  "build_generation_context uc job persona p =
     (if validate_job job \<noteq> None \<or> validate_persona uc persona \<noteq> None \<or> perAgentID persona \<noteq> jAgentID job \<or>
         perVersion persona \<noteq> jPersonaVersion job \<or> context_shape_bad job p then Inl ErrGenerationOutput
      else
      and_then (normalize_source uc job (pubSource p)) (\<lambda>source.
      and_then (normalize_trigger uc (pubTriggerReply p)) (\<lambda>reply.
      and_then (normalize_actor (pubRepostActor p)) (\<lambda>actor.
      and_then (normalize_replies uc (pubReplies p)) (\<lambda>rs.
      and_then (normalize_recent uc (pubRecent p)) (\<lambda>recent.
      let normalized = \<lparr>pubSource = source, pubTriggerReply = reply, pubRepostActor = actor, pubReplies = rs,
                        pubRecent = recent\<rparr>;
          encoded = json_public (context_interaction normalized) normalized
      in if length encoded + length (perInstructions persona) > MaxGenerationContextBytes then Inl ErrGenerationOutput
         else Inr \<lparr>gcJobID = jID job, gcAgentID = jAgentID job, gcPersonaVersion = jPersonaVersion job,
           gcTriggerKind = jTriggerKind job, gcSourcePostID = context_id (jSourcePostID job),
           gcSourceReplyID = context_id (jSourceReplyID job), gcSourceRepostID = context_id (jSourceRepostID job),
           gcInstructions = perInstructions persona, gcPublicJSON = encoded, gcKind = jOutputKind job\<rparr>))))))"

section \<open>A built context belongs to its job\<close>

lemma json_object_nonempty [simp]: "json_object fs \<noteq> []"
  by (simp add: json_object_def)

lemma persona_instructions: "validate_persona uc p = None \<Longrightarrow> perInstructions p \<noteq> []"
  unfolding validate_persona_def or_else_None first_error_None
  by (auto simp: valid_generation_text_def trim_space_def trim_left.simps trim_right.simps)

lemma build_context_matches:
  "build_generation_context uc job persona p = Inr c \<Longrightarrow> context_matches c job \<and> validate_job job = None \<and>
     length (gcPublicJSON c) + length (gcInstructions c) \<le> MaxGenerationContextBytes"
  by (auto simp: build_generation_context_def context_matches_def Let_def json_public_def persona_instructions
    split: if_splits)

end
