(* ===== verification/Worker.thy ===== *)
theory Worker
  imports Llm Attempt
begin

text \<open>
  The worker's execution pass (\<open>internal/worker/execute.go\<close>): recovery, expiry, up to eight claims, and for each
  claimed job the path from its prior attempt over the context, the reservation and the one provider call to
  settlement, completion and publication.  The store is the interface \<open>ExecutionStore\<close>, a record of operations
  on a state \<open>'s\<close>; each may fail in any way and change the state even then (a commit whose answer is lost).
  The environment answers what the program does not decide: whether the pass's context has ended, the
  jitter, the renewals that happen during a call and what the provider returns.
\<close>

section \<open>Errors and the summary\<close>

datatype ExecutionError = ExecutionStorage | ExecutionStopped | ExecutionCredentials | ExecutionConfiguration
  | ExecutionAccounting | ExecutionOther string

text \<open>What an operation can return: an error of the service, one of these codes, or the end of its context.\<close>

datatype exec_error = Service go_error | Safe ExecutionError | Canceled | DeadlineExceeded

record ExecutionSummary =
  smProbes :: int
  smClaimed :: int
  smCalls :: int
  smCallsSucceeded :: int
  smRecovered :: int
  smExpired :: int
  smPublished :: int
  smSkipped :: int
  smCancelled :: int
  smFailed :: int
  smRetried :: int
  smDenied :: int

definition empty_summary :: ExecutionSummary where
  "empty_summary = \<lparr>smProbes = 0, smClaimed = 0, smCalls = 0, smCallsSucceeded = 0, smRecovered = 0, smExpired = 0,
     smPublished = 0, smSkipped = 0, smCancelled = 0, smFailed = 0, smRetried = 0, smDenied = 0\<rparr>"

definition max_claim_probes :: nat where "max_claim_probes = 8"

section \<open>The interfaces\<close>

type_synonym ('s, 'a) op = "'s \<Rightarrow> 's \<times> (exec_error + 'a)"

record 's execution_store =
  esReady :: "('s, unit) op"
  esRecover :: "('s, nat) op"
  esExpire :: "('s, nat) op"
  esClaim :: "('s, GenerationJob option) op"
  esLatest :: "ID \<Rightarrow> ('s, GenerationAttempt option) op"
  esContext :: "ID \<Rightarrow> int \<Rightarrow> ('s, GenerationContext) op"
  esReserve :: "ID \<Rightarrow> int \<Rightarrow> GenerationContext \<Rightarrow> ('s, GenerationAttempt option \<times> string) op"
  esRenew :: "ID \<Rightarrow> int \<Rightarrow> ('s, time) op"
  esSettle :: "GenerationAttempt \<Rightarrow> GenerationOutcome \<Rightarrow> string \<Rightarrow> ('s, bool) op"
  esComplete :: "ID \<Rightarrow> int \<Rightarrow> ID \<Rightarrow> duration \<Rightarrow> ('s, GenerationJobStatus) op"
  esPublish :: "ID \<Rightarrow> int \<Rightarrow> ID \<Rightarrow> GenerationResult \<Rightarrow> ('s, GenerationJob) op"
  esDeny :: "ID \<Rightarrow> int \<Rightarrow> GenerationDenial \<Rightarrow> ('s, GenerationJobStatus) op"

text \<open>
  \<open>enRenewEnded\<close>: whether the renewals' context had ended when a renewal failed; \<open>enTicks\<close>: the renewals before the
  provider returns; \<open>enProvider\<close>, told whether a renewal failed: the outcome,
  whether the call's deadline has passed, and whether the call's context has ended when the renewals are joined.
\<close>

record 's execution_env =
  enErr :: "'s \<Rightarrow> 's \<times> exec_error option"
  enJitter :: "'s \<Rightarrow> 's \<times> duration"
  enRenewEnded :: "'s \<Rightarrow> 's \<times> bool"
  enTicks :: "GenerationJob \<Rightarrow> GenerationContext \<Rightarrow> 's \<Rightarrow> 's \<times> nat"
  enProvider :: "GenerationJob \<Rightarrow> GenerationContext \<Rightarrow> bool \<Rightarrow> 's \<Rightarrow> 's \<times> GenerationOutcome \<times> bool \<times> bool"

section \<open>Sequencing\<close>

text \<open>A step of the pass works on the state and the summary; \<open>attempt_op\<close> hands its result on, failed or not.\<close>

type_synonym ('s, 'a) pass = "('s \<times> ExecutionSummary, 'a) op"

definition attempt_op :: "('s, 'a) op \<Rightarrow> (exec_error + 'a \<Rightarrow> ('s, 'b) op) \<Rightarrow> ('s, 'b) op" where
  "attempt_op m f s = (case m s of (s', r) \<Rightarrow> f r s')"

definition bind_op :: "('s, 'a) op \<Rightarrow> ('a \<Rightarrow> ('s, 'b) op) \<Rightarrow> ('s, 'b) op" where
  "bind_op m f = attempt_op m (\<lambda>r s. case r of Inl e \<Rightarrow> (s, Inl e) | Inr x \<Rightarrow> f x s)"

definition return_op :: "'a \<Rightarrow> ('s, 'a) op" where "return_op x s = (s, Inr x)"
definition fail_op :: "exec_error \<Rightarrow> ('s, 'a) op" where "fail_op e s = (s, Inl e)"

definition on_store :: "('s, 'a) op \<Rightarrow> ('s, 'a) pass" where
  "on_store m st = (case m (fst st) of (s', r) \<Rightarrow> ((s', snd st), r))"

definition ask :: "('s \<Rightarrow> 's \<times> 'a) \<Rightarrow> ('s, 'a) pass" where
  "ask m st = (case m (fst st) of (s', x) \<Rightarrow> ((s', snd st), Inr x))"

definition tally :: "(ExecutionSummary \<Rightarrow> ExecutionSummary) \<Rightarrow> ('s, unit) pass" where
  "tally f st = ((fst st, f (snd st)), Inr ())"

definition check_context :: "'s execution_env \<Rightarrow> ('s, unit) pass" where
  "check_context en = bind_op (ask (enErr en)) (\<lambda>e. case e of None \<Rightarrow> return_op () | Some x \<Rightarrow> fail_op x)"

section \<open>One job\<close>

definition count_status :: "GenerationJobStatus \<Rightarrow> ExecutionSummary \<Rightarrow> ExecutionSummary" where
  "count_status status m =
     (case status of
        JobSucceeded \<Rightarrow> m\<lparr>smPublished := smPublished m + 1\<rparr>
      | JobSkipped \<Rightarrow> m\<lparr>smSkipped := smSkipped m + 1\<rparr>
      | JobCancelled \<Rightarrow> m\<lparr>smCancelled := smCancelled m + 1\<rparr>
      | JobFailed \<Rightarrow> m\<lparr>smFailed := smFailed m + 1\<rparr>
      | JobRetryWait \<Rightarrow> m\<lparr>smRetried := smRetried m + 1\<rparr>
      | _ \<Rightarrow> m)"

definition count_denied :: "ExecutionSummary \<Rightarrow> ExecutionSummary" where
  "count_denied m = m\<lparr>smDenied := smDenied m + 1\<rparr>"

definition durable_stop_accounting :: "GenerationAttempt option \<Rightarrow> ExecutionError option" where
  "durable_stop_accounting t =
     (case t of None \<Rightarrow> None
      | Some a \<Rightarrow> if aStatus a = AttemptReserved \<or> aStatus a = AttemptSucceeded then None
                  else if aErrorCode a = failure_code GenerationAccountingUnsupported then Some ExecutionAccounting else None)"

definition durable_stop :: "GenerationAttempt option \<Rightarrow> ExecutionError option" where
  "durable_stop t =
     (case t of None \<Rightarrow> None
      | Some a \<Rightarrow>
          if aStatus a = AttemptReserved \<or> aStatus a = AttemptSucceeded then None
          else if aErrorCode a = failure_code GenerationCredentials then Some ExecutionCredentials
          else if aErrorCode a = failure_code GenerationConfiguration then Some ExecutionConfiguration
          else if aErrorCode a = failure_code GenerationAccountingUnsupported then Some ExecutionAccounting else None)"

definition stop_if :: "ExecutionError option \<Rightarrow> ('s, 'a) op \<Rightarrow> ('s, 'a) op" where
  "stop_if e m = (case e of Some x \<Rightarrow> fail_op (Safe x) | None \<Rightarrow> m)"

definition complete_job ::
  "'s execution_store \<Rightarrow> 's execution_env \<Rightarrow> GenerationJob \<Rightarrow> ID \<Rightarrow> ('s, GenerationJobStatus) pass" where
  "complete_job es en job attempt_id =
     bind_op (ask (enJitter en)) (\<lambda>jitter.
     attempt_op (on_store (esComplete es (jID job) (jLeaseVersion job) attempt_id jitter)) (\<lambda>r.
     case r of
       Inl e \<Rightarrow> if e = Service ErrConflict
                then bind_op (tally count_denied) (\<lambda>_. return_op (JobStatusOther [])) else fail_op e
     | Inr status \<Rightarrow> bind_op (tally (count_status status)) (\<lambda>_. return_op status)))"

definition deny_job :: "'s execution_store \<Rightarrow> GenerationJob \<Rightarrow> GenerationDenial \<Rightarrow> ('s, unit) pass" where
  "deny_job es job reason =
     attempt_op (on_store (esDeny es (jID job) (jLeaseVersion job) reason)) (\<lambda>r.
     case r of
       Inl e \<Rightarrow> if e = Service ErrConflict then tally count_denied else fail_op e
     | Inr status \<Rightarrow> tally (count_status status))"

definition rejection :: "'s execution_store \<Rightarrow> GenerationJob \<Rightarrow> exec_error \<Rightarrow> bool \<Rightarrow> ('s, unit) pass" where
  "rejection es job e publication =
     (if e \<in> {Service ErrDeleted, Service ErrNotFound} then deny_job es job GenerationSourceRemoved
      else if e = Service ErrForbidden then deny_job es job GenerationPolicyDenied
      else if e = Service ErrConflict
      then if publication then deny_job es job GenerationPublicationDenied else tally count_denied
      else if e \<in> {Service ErrGenerationOutput, Service ErrGenerationUnsafe, Service ErrGenerationRepetition}
      then deny_job es job (if publication then GenerationPublicationDenied else GenerationContextRejected)
      else fail_op e)"

text \<open>\<open>cancelled\<close> runs on a context of its own; whatever fails in it is a storage failure.\<close>

definition storage_op :: "('s, 'a) op \<Rightarrow> ('s, 'a) op" where
  "storage_op m = attempt_op m (\<lambda>r. case r of Inl _ \<Rightarrow> fail_op (Safe ExecutionStorage) | Inr x \<Rightarrow> return_op x)"

definition cancelled_job ::
  "'s execution_store \<Rightarrow> GenerationJob \<Rightarrow> GenerationAttempt \<Rightarrow> bool \<Rightarrow> ('s, unit) pass" where
  "cancelled_job es job attempt acknowledge =
     bind_op (storage_op (on_store (esSettle es attempt (failed_outcome GenerationCancelled) []))) (\<lambda>_.
     if acknowledge then storage_op (deny_job es job GenerationExecutionCancelled) else return_op ())"

text \<open>The renewals during a call: a cancelled one after the call is its end, another failure loses the lease.\<close>

fun renew_loop :: "'s execution_store \<Rightarrow> 's execution_env \<Rightarrow> GenerationJob \<Rightarrow> nat \<Rightarrow> ('s, exec_error option) pass" where
  "renew_loop es en job 0 = return_op None"
| "renew_loop es en job (Suc n) =
     attempt_op (on_store (esRenew es (jID job) (jLeaseVersion job))) (\<lambda>r.
     case r of
       Inr _ \<Rightarrow> renew_loop es en job n
     | Inl e \<Rightarrow> bind_op (ask (enRenewEnded en)) (\<lambda>ended.
                  return_op (if ended \<and> e = Canceled then None else Some e)))"

definition provider_call ::
  "'s execution_store \<Rightarrow> 's execution_env \<Rightarrow> GenerationJob \<Rightarrow> GenerationContext \<Rightarrow>
   ('s, GenerationOutcome \<times> exec_error option) pass" where
  "provider_call es en job input =
     bind_op (ask (enTicks en job input)) (\<lambda>n.
     bind_op (renew_loop es en job n) (\<lambda>lease_err.
     bind_op (ask (enProvider en job input (lease_err \<noteq> None))) (\<lambda>(answer, late, ended).
     let outcome = (if late then failed_outcome GenerationTimeout else answer) in
     bind_op (tally (\<lambda>m. if lease_err = None \<and> \<not> late \<and> \<not> ended \<and> oFailure outcome = NoFailure
                          then m\<lparr>smCallsSucceeded := smCallsSucceeded m + 1\<rparr> else m)) (\<lambda>_.
     return_op (outcome, lease_err)))))"

definition finish_call ::
  "'s execution_store \<Rightarrow> 's execution_env \<Rightarrow> GenerationJob \<Rightarrow> GenerationAttempt \<Rightarrow> GenerationOutcome \<Rightarrow> ('s, unit) pass" where
  "finish_call es en job reserved outcome =
     bind_op (on_store (esSettle es reserved outcome (oProviderRequestID outcome))) (\<lambda>accepted.
     bind_op (on_store (esLatest es (jID job))) (\<lambda>found.
     case found of
       None \<Rightarrow> fail_op (Safe ExecutionStorage)
     | Some durable \<Rightarrow>
         bind_op (complete_job es en job (aID durable)) (\<lambda>status.
         stop_if (durable_stop (Some durable))
          (if status \<noteq> JobRunning then return_op ()
           else if \<not> accepted \<or> aID durable \<noteq> aID reserved \<or> aLeaseVersion durable \<noteq> jLeaseVersion job \<or>
                   aStatus durable \<noteq> AttemptSucceeded \<or> aDecision durable \<noteq> GenerationPublish \<or>
                   aOutputDigest durable = [] \<or> aOutputDigest durable \<noteq> digest (oResult outcome)
           then deny_job es job GenerationOutputUnavailable
           else
             bind_op (check_context en) (\<lambda>_.
             attempt_op (on_store (esPublish es (jID job) (jLeaseVersion job) (aID durable) (oResult outcome))) (\<lambda>r.
             case r of
               Inl e \<Rightarrow> rejection es job e True
             | Inr published \<Rightarrow> tally (count_status (jStatus published))))))))"

text \<open>From a new reservation on: the call, and its settlement on every path.\<close>

definition call_and_settle ::
  "'s execution_store \<Rightarrow> 's execution_env \<Rightarrow> GenerationJob \<Rightarrow> GenerationContext \<Rightarrow> GenerationAttempt \<Rightarrow> ('s, unit) pass" where
  "call_and_settle es en job input attempt =
     bind_op (ask (enErr en)) (\<lambda>ended.
     if ended \<noteq> None then cancelled_job es job attempt True
     else
       bind_op (tally (\<lambda>m. m\<lparr>smCalls := smCalls m + 1\<rparr>)) (\<lambda>_.
       bind_op (provider_call es en job input) (\<lambda>(outcome, lease_err).
       bind_op (ask (enErr en)) (\<lambda>ended.
       if ended \<noteq> None \<or> lease_err \<noteq> None
       then
         bind_op (cancelled_job es job attempt (lease_err = None)) (\<lambda>_.
         bind_op (ask (enErr en)) (\<lambda>ended'.
         if ended' \<noteq> None then fail_op (Safe ExecutionStopped)
         else (case lease_err of
                 None \<Rightarrow> return_op ()
               | Some e \<Rightarrow> if e = Service ErrConflict then return_op () else fail_op e)))
       else
         attempt_op (finish_call es en job attempt outcome) (\<lambda>r.
         bind_op (ask (enErr en)) (\<lambda>ended'.
         if ended' \<noteq> None
         then bind_op (cancelled_job es job attempt True) (\<lambda>_. fail_op (Safe ExecutionStopped))
         else (case r of Inl e \<Rightarrow> fail_op e | Inr _ \<Rightarrow> return_op ())))))))"

definition reserve_and_call ::
  "'s execution_store \<Rightarrow> 's execution_env \<Rightarrow> GenerationJob \<Rightarrow> ('s, unit) pass" where
  "reserve_and_call es en job =
     attempt_op (on_store (esContext es (jID job) (jLeaseVersion job))) (\<lambda>r.
     case r of
       Inl e \<Rightarrow> rejection es job e False
     | Inr input \<Rightarrow>
         (case and_then (build_prompt job input) admission_reservation of
            Inl _ \<Rightarrow> deny_job es job GenerationContextRejected
          | Inr _ \<Rightarrow>
              attempt_op (on_store (esReserve es (jID job) (jLeaseVersion job) input)) (\<lambda>r.
              case r of
                Inl e \<Rightarrow> rejection es job e False
              | Inr (None, _) \<Rightarrow> tally count_denied
              | Inr (Some attempt, _) \<Rightarrow> call_and_settle es en job input attempt)))"

text \<open>A retry that this attempt's own completion has scheduled, as opposed to an outcome nobody acknowledged.\<close>

definition acknowledged :: "GenerationJob \<Rightarrow> GenerationAttempt \<Rightarrow> bool" where
  "acknowledged job prior \<longleftrightarrow> aLeaseVersion prior < jLeaseVersion job \<and>
     (case aFinishedAt prior of None \<Rightarrow> False | Some f \<Rightarrow> jAvailableAt job > f)"

definition execute_job :: "'s execution_store \<Rightarrow> 's execution_env \<Rightarrow> GenerationJob \<Rightarrow> ('s, unit) pass" where
  "execute_job es en job =
     bind_op (on_store (esLatest es (jID job))) (\<lambda>prior.
     case prior of
       None \<Rightarrow> reserve_and_call es en job
     | Some p \<Rightarrow>
         if aStatus p = AttemptReserved then tally count_denied
         else if \<not> acknowledged job p
         then
           bind_op (complete_job es en job (aID p)) (\<lambda>status.
           stop_if (durable_stop (Some p))
             (if status = JobRunning then deny_job es job GenerationOutputUnavailable else return_op ()))
         else stop_if (durable_stop_accounting (Some p)) (reserve_and_call es en job))"

section \<open>The pass\<close>

fun probe_loop :: "'s execution_store \<Rightarrow> 's execution_env \<Rightarrow> nat \<Rightarrow> ('s, unit) pass" where
  "probe_loop es en 0 = check_context en"
| "probe_loop es en (Suc n) =
     bind_op (check_context en) (\<lambda>_.
     bind_op (tally (\<lambda>m. m\<lparr>smProbes := smProbes m + 1\<rparr>)) (\<lambda>_.
     bind_op (on_store (esClaim es)) (\<lambda>claimed.
     case claimed of
       None \<Rightarrow> probe_loop es en n
     | Some job \<Rightarrow>
         bind_op (tally (\<lambda>m. m\<lparr>smClaimed := smClaimed m + 1\<rparr>)) (\<lambda>_.
         bind_op (execute_job es en job) (\<lambda>_. probe_loop es en n)))))"

definition run_pass :: "'s execution_store \<Rightarrow> 's execution_env \<Rightarrow> ('s, unit) pass" where
  "run_pass es en =
     bind_op (check_context en) (\<lambda>_.
     bind_op (on_store (esReady es)) (\<lambda>_.
     bind_op (on_store (esRecover es)) (\<lambda>recovered.
     bind_op (tally (\<lambda>m. m\<lparr>smRecovered := int recovered\<rparr>)) (\<lambda>_.
     bind_op (on_store (esExpire es)) (\<lambda>expired.
     bind_op (tally (\<lambda>m. m\<lparr>smExpired := int expired\<rparr>)) (\<lambda>_.
     probe_loop es en max_claim_probes))))))"

definition known_code :: "ExecutionError \<Rightarrow> bool" where
  "known_code e \<longleftrightarrow>
     e \<in> {ExecutionStorage, ExecutionStopped, ExecutionCredentials, ExecutionConfiguration, ExecutionAccounting}"

definition execute :: "'s execution_store \<Rightarrow> 's execution_env \<Rightarrow> 's \<Rightarrow> 's \<times> ExecutionSummary \<times> ExecutionError option" where
  "execute es en s =
     (case run_pass es en (s, empty_summary) of
        ((s', m), Inr _) \<Rightarrow> (s', m, None)
      | ((s', m), Inl e) \<Rightarrow>
          (case e of
             Safe c \<Rightarrow> if known_code c then (s', m, Some c)
                       else (case enErr en s' of (s'', x) \<Rightarrow> (s'', m, Some (if x \<noteq> None then ExecutionStopped else ExecutionStorage)))
           | _ \<Rightarrow> (case enErr en s' of (s'', x) \<Rightarrow> (s'', m, Some (if x \<noteq> None then ExecutionStopped else ExecutionStorage)))))"

section \<open>Counting\<close>

text \<open>How a step of the pass changes the counters, whatever it returns.\<close>

definition counts :: "(ExecutionSummary \<Rightarrow> ExecutionSummary \<Rightarrow> bool) \<Rightarrow> ('s, 'a) pass \<Rightarrow> bool" where
  "counts R m \<longleftrightarrow> (\<forall>st. R (snd st) (snd (fst (m st))))"

lemma countsD: "counts R m \<Longrightarrow> m st = (st', r) \<Longrightarrow> R (snd st) (snd st')"
  unfolding counts_def by (drule spec [of _ st]) simp

definition calls_between :: "int \<Rightarrow> int \<Rightarrow> ExecutionSummary \<Rightarrow> ExecutionSummary \<Rightarrow> bool" where
  "calls_between k n a b \<longleftrightarrow>
     smProbes b = smProbes a \<and> smClaimed b = smClaimed a \<and> smCalls a \<le> smCalls b \<and> smCalls b \<le> smCalls a + k \<and>
     smCallsSucceeded a \<le> smCallsSucceeded b \<and> smCallsSucceeded b - smCallsSucceeded a \<le> smCalls b - smCalls a + n"

lemma calls_between_refl [simp]: "0 \<le> k \<Longrightarrow> 0 \<le> n \<Longrightarrow> calls_between k n a a"
  by (simp add: calls_between_def)

lemma calls_between_trans: "calls_between k n a b \<Longrightarrow> calls_between l m b c \<Longrightarrow> calls_between (k + l) (n + m) a c"
  by (simp add: calls_between_def)

lemma calls_between_mono: "calls_between k n a b \<Longrightarrow> k \<le> l \<Longrightarrow> n \<le> m \<Longrightarrow> calls_between l m a b"
  by (simp add: calls_between_def)

named_theorems counting

lemma counts_store [counting]: "0 \<le> k \<Longrightarrow> 0 \<le> n \<Longrightarrow> counts (calls_between k n) (on_store m)"
  by (simp add: counts_def on_store_def split: prod.split)

lemma counts_ask [counting]: "0 \<le> k \<Longrightarrow> 0 \<le> n \<Longrightarrow> counts (calls_between k n) (ask m)"
  by (simp add: counts_def ask_def split: prod.split)

lemma counts_return [counting]: "0 \<le> k \<Longrightarrow> 0 \<le> n \<Longrightarrow> counts (calls_between k n) (return_op x)"
  by (simp add: counts_def return_op_def)

lemma counts_fail [counting]: "0 \<le> k \<Longrightarrow> 0 \<le> n \<Longrightarrow> counts (calls_between k n) (fail_op e)"
  by (simp add: counts_def fail_op_def)

lemma counts_tally: "(\<And>a. calls_between k n a (f a)) \<Longrightarrow> counts (calls_between k n) (tally f)"
  by (simp add: counts_def tally_def)

lemma count_fields [simp]:
  "smCalls (count_status x m) = smCalls m" "smProbes (count_status x m) = smProbes m" "smClaimed (count_status x m) = smClaimed m"
  "smCallsSucceeded (count_status x m) = smCallsSucceeded m" "smCalls (count_denied m) = smCalls m"
  "smProbes (count_denied m) = smProbes m" "smClaimed (count_denied m) = smClaimed m"
  "smCallsSucceeded (count_denied m) = smCallsSucceeded m"
  by (simp_all add: count_status_def count_denied_def split: GenerationJobStatus.split)

lemma counts_tally_status [counting]: "counts (calls_between 0 0) (tally (count_status x))"
  by (rule counts_tally) (simp add: calls_between_def)

lemma counts_tally_denied [counting]: "counts (calls_between 0 0) (tally count_denied)"
  by (rule counts_tally) (simp add: calls_between_def)

lemma counts_attempt:
  assumes "counts (calls_between k n) m" "\<And>r. counts (calls_between l p) (f r)"
  shows "counts (calls_between (k + l) (n + p)) (attempt_op m f)"
  unfolding counts_def attempt_op_def
proof
  fix st
  obtain s' r where m: "m st = (s', r)" by (cases "m st")
  have "calls_between k n (snd st) (snd s')" using assms(1) m by (simp add: counts_def) (metis fst_conv snd_conv m prod.collapse)
  moreover have "calls_between l p (snd s') (snd (fst (f r s')))" using assms(2) by (simp add: counts_def) (metis prod.collapse)
  ultimately show "calls_between (k + l) (n + p) (snd st) (snd (fst (case m st of (s', r) \<Rightarrow> f r s')))"
    by (simp add: m calls_between_trans)
qed

lemma counts_bind:
  assumes "counts (calls_between k n) m" "\<And>x. counts (calls_between l p) (f x)" "0 \<le> l" "0 \<le> p"
  shows "counts (calls_between (k + l) (n + p)) (bind_op m f)"
  unfolding bind_op_def
  by (rule counts_attempt [OF assms(1)])
     (use assms(2-4) in \<open>auto simp: counts_def split: sum.split\<close>)

lemma counts_mono: "counts R m \<Longrightarrow> (\<And>a b. R a b \<Longrightarrow> S a b) \<Longrightarrow> counts S m"
  by (simp add: counts_def)

lemma counts_if: "(b \<Longrightarrow> counts R m) \<Longrightarrow> (\<not> b \<Longrightarrow> counts R n) \<Longrightarrow> counts R (if b then m else n)"
  by simp

lemma counts_call_free: "counts (calls_between 0 0) m \<Longrightarrow> counts (calls_between 1 0) m"
  by (erule counts_mono) (simp add: calls_between_def)

lemmas counts_bind_none = counts_bind [where k = 0 and n = 0 and l = 0 and p = 0, simplified]
lemmas counts_attempt_none = counts_attempt [where k = 0 and n = 0 and l = 0 and p = 0, simplified]

lemmas counts_bind_call = counts_bind [where k = 0 and n = 0 and l = 0 and p = 1, simplified]
lemmas counts_bind_more = counts_bind [where k = 0 and n = 0 and l = 1 and p = 0, simplified]
lemmas counts_attempt_more = counts_attempt [where k = 0 and n = 0 and l = 1 and p = 0, simplified]

lemma counts_check [counting]: "counts (calls_between 0 0) (check_context en)"
  unfolding check_context_def by (intro counts_bind_none) (auto intro: counting split: option.split)

lemma counts_stop [counting]: "counts (calls_between 0 0) m \<Longrightarrow> counts (calls_between 0 0) (stop_if e m)"
  by (auto simp: stop_if_def intro: counting split: option.split)

lemma counts_complete [counting]: "counts (calls_between 0 0) (complete_job es en job i)"
  unfolding complete_job_def
  by (intro counts_bind_none counts_attempt_none) (auto intro!: counting counts_bind_none split: sum.split)

lemma counts_deny [counting]: "counts (calls_between 0 0) (deny_job es job reason)"
  unfolding deny_job_def by (intro counts_attempt_none) (auto intro: counting split: sum.split)

lemma counts_rejection [counting]: "counts (calls_between 0 0) (rejection es job e publication)"
  unfolding rejection_def by (auto intro: counting)

lemma counts_storage [counting]: "counts (calls_between 0 0) m \<Longrightarrow> counts (calls_between 0 0) (storage_op m)"
  unfolding storage_op_def by (intro counts_attempt_none) (auto intro: counting split: sum.split)

lemma counts_cancelled [counting]: "counts (calls_between 0 0) (cancelled_job es job attempt b)"
  unfolding cancelled_job_def by (intro counts_bind_none) (auto intro: counting)

lemma counts_renew [counting]: "counts (calls_between 0 0) (renew_loop es en job n)"
  by (induction n) (auto intro!: counting counts_attempt_none counts_bind_none split: sum.split)

lemma counts_provider: "counts (calls_between 0 1) (provider_call es en job input)"
proof -
  have succeeded: "counts (calls_between 0 1) (tally (\<lambda>m. if b then m\<lparr>smCallsSucceeded := smCallsSucceeded m + 1\<rparr> else m))" for b
    by (rule counts_tally) (simp add: calls_between_def)
  have ending: "counts (calls_between 0 1) (bind_op (tally (\<lambda>m. if b then m\<lparr>smCallsSucceeded := smCallsSucceeded m + 1\<rparr> else m)) (\<lambda>_. return_op x))"
    for b and x :: "GenerationOutcome \<times> exec_error option"
    by (rule counts_bind [OF succeeded, where l = 0 and p = 0, simplified]) (auto intro: counting)
  show ?thesis
    unfolding provider_call_def Let_def prod.case_eq_if
    by (rule counts_bind_call, simp add: counting, rule counts_bind_call, simp add: counting, rule counts_bind_call,
        simp add: counting, rule ending)
qed

lemma counts_finish [counting]: "counts (calls_between 0 0) (finish_call es en job reserved outcome)"
  unfolding finish_call_def
  by (intro counts_bind_none) (auto intro!: counting counts_bind_none counts_attempt_none split: option.split sum.split)

lemma counts_settle: "counts (calls_between 1 0) (call_and_settle es en job input attempt)"
proof -
  have started: "counts (calls_between 1 (- 1)) (tally (\<lambda>m. m\<lparr>smCalls := smCalls m + 1\<rparr>))"
    by (rule counts_tally) (simp add: calls_between_def)
  have lease: "counts (calls_between 0 0) (bind_op (ask (enErr en)) (\<lambda>ended'.
      if ended' \<noteq> None then fail_op (Safe ExecutionStopped)
      else (case lease_err of None \<Rightarrow> return_op () | Some e \<Rightarrow> if e = Service ErrConflict then return_op () else fail_op e)))" for lease_err
    by (rule counts_bind_none) (auto intro: counting split: option.split)
  have finished: "counts (calls_between 0 0) (bind_op (ask (enErr en)) (\<lambda>ended'.
      if ended' \<noteq> None then bind_op (cancelled_job es job attempt True) (\<lambda>_. fail_op (Safe ExecutionStopped))
      else (case r of Inl e \<Rightarrow> fail_op e | Inr _ \<Rightarrow> return_op ())))" for r :: "exec_error + unit"
    by (rule counts_bind_none) (auto intro!: counts_bind_none intro: counting split: sum.split)
  have after: "counts (calls_between 0 0) (bind_op (ask (enErr en)) (\<lambda>ended.
      if ended \<noteq> None \<or> lease_err \<noteq> None
      then bind_op (cancelled_job es job attempt (lease_err = None)) (\<lambda>_. bind_op (ask (enErr en)) (\<lambda>ended'.
        if ended' \<noteq> None then fail_op (Safe ExecutionStopped)
        else (case lease_err of None \<Rightarrow> return_op () | Some e \<Rightarrow> if e = Service ErrConflict then return_op () else fail_op e)))
      else attempt_op (finish_call es en job attempt outcome) (\<lambda>r. bind_op (ask (enErr en)) (\<lambda>ended'.
        if ended' \<noteq> None then bind_op (cancelled_job es job attempt True) (\<lambda>_. fail_op (Safe ExecutionStopped))
        else (case r of Inl e \<Rightarrow> fail_op e | Inr _ \<Rightarrow> return_op ())))))" for lease_err outcome
    by (rule counts_bind_none) (auto intro!: counts_bind_none counts_attempt_none lease finished counting split: option.split sum.split)
  have called: "counts (calls_between 1 0) (bind_op (tally (\<lambda>m. m\<lparr>smCalls := smCalls m + 1\<rparr>)) (\<lambda>_.
      bind_op (provider_call es en job input) f))" if "\<And>x. counts (calls_between 0 0) (f x)" for f :: "_ \<Rightarrow> (_, unit) pass"
    using counts_bind [OF started counts_bind [OF counts_provider that]] by simp
  show ?thesis
    unfolding call_and_settle_def
    apply (rule counts_bind_more, simp add: counting)
    apply (rule counts_if)
     apply (rule counts_call_free, rule counts_cancelled)
    apply (rule called, simp only: prod.case_eq_if, rule after)
    done
qed

lemma counts_reserve: "counts (calls_between 1 0) (reserve_and_call es en job)"
proof -
  have reserved: "counts (calls_between 1 0) (attempt_op (on_store (esReserve es i v input)) (\<lambda>r. case r of
      Inl e \<Rightarrow> rejection es job e False | Inr (None, _) \<Rightarrow> tally count_denied
    | Inr (Some attempt, _) \<Rightarrow> call_and_settle es en job input attempt))" for i v input
    by (rule counts_attempt_more)
       (auto intro!: counts_settle counts_call_free intro: counting split: sum.split option.split)
  show ?thesis
    unfolding reserve_and_call_def
    by (rule counts_attempt_more)
       (auto intro!: reserved counts_call_free [OF counts_rejection] counts_call_free [OF counts_deny] intro: counting split: sum.split)
qed

lemma counts_execute: "counts (calls_between 1 0) (execute_job es en job)"
proof -
  have stop: "counts (calls_between 1 0) (stop_if e m)" if "counts (calls_between 1 0) m" for e and m :: "('s, unit) pass"
    using that by (auto simp: stop_if_def intro: counting split: option.split)
  show ?thesis
    unfolding execute_job_def
    by (intro counts_bind [where k = 0 and n = 0 and l = 1 and p = 0, simplified])
       (auto intro!: counting counts_call_free counts_reserve stop counts_bind_none split: option.split)
qed

text \<open>A pass probes at most eight times, claims at most once per probe and calls at most once per claim.\<close>

definition probes_between :: "int \<Rightarrow> int \<Rightarrow> ExecutionSummary \<Rightarrow> ExecutionSummary \<Rightarrow> bool" where
  "probes_between n k a b \<longleftrightarrow>
     smProbes a \<le> smProbes b \<and> smProbes b \<le> smProbes a + n \<and> smClaimed a \<le> smClaimed b \<and>
     smClaimed b - smClaimed a \<le> smProbes b - smProbes a + k \<and> smCalls a \<le> smCalls b \<and>
     smCalls b - smCalls a \<le> smClaimed b - smClaimed a \<and> smCallsSucceeded a \<le> smCallsSucceeded b \<and>
     smCallsSucceeded b - smCallsSucceeded a \<le> smCalls b - smCalls a"

lemma counts_then:
  assumes "counts R m" "\<And>x. counts S (f x)" "\<And>a b c. R a b \<Longrightarrow> S b c \<Longrightarrow> T a c" "\<And>a b. R a b \<Longrightarrow> T a b"
  shows "counts T (bind_op m f)"
  unfolding counts_def
proof
  fix st
  obtain s' r where m: "m st = (s', r)" by (cases "m st")
  have "R (snd st) (snd s')" using assms(1) m unfolding counts_def by (metis fst_conv)
  moreover have "S (snd s') (snd (fst (f x s')))" for x using assms(2) unfolding counts_def by blast
  ultimately show "T (snd st) (snd (fst (bind_op m f st)))"
    using assms(3,4) by (auto simp: bind_op_def attempt_op_def m split: sum.split)
qed

lemma counts_claimed:
  assumes "counts (probes_between n 0) m" "0 \<le> n"
  shows "counts (probes_between n 1)
    (bind_op (tally (\<lambda>m. m\<lparr>smClaimed := smClaimed m + 1\<rparr>)) (\<lambda>_. bind_op (execute_job es en job) (\<lambda>_. m)))"
proof (rule counts_then [where R = "\<lambda>a b. b = a\<lparr>smClaimed := smClaimed a + 1\<rparr>"])
  show "counts (\<lambda>a b. \<forall>c. c\<lparr>smClaimed := smClaimed c + 1\<rparr> = a \<longrightarrow> probes_between n 1 c b)
      (bind_op (execute_job es en job) (\<lambda>_. m))" for x :: unit
    by (rule counts_then [OF counts_execute assms(1)]) (use assms(2) in \<open>auto simp: calls_between_def probes_between_def\<close>)
qed (use assms(2) in \<open>auto simp: counts_def tally_def probes_between_def\<close>)

lemma counts_probe: "counts (probes_between (int n) 0) (probe_loop es en n)"
proof (induction n)
  case 0
  show ?case unfolding probe_loop.simps
    by (rule counts_mono [OF counts_check]) (simp add: calls_between_def probes_between_def)
next
  case (Suc n)
  have next_probe: "counts (probes_between (int n) 1) (case claimed of None \<Rightarrow> probe_loop es en n | Some job \<Rightarrow>
      bind_op (tally (\<lambda>m. m\<lparr>smClaimed := smClaimed m + 1\<rparr>)) (\<lambda>_. bind_op (execute_job es en job) (\<lambda>_. probe_loop es en n)))" for claimed
    using counts_mono [OF Suc.IH, of "probes_between (int n) 1"] counts_claimed [OF Suc.IH]
    by (auto simp: probes_between_def split: option.split)
  have "counts (probes_between (int n) 1) (bind_op (on_store (esClaim es)) (\<lambda>claimed. case claimed of None \<Rightarrow> probe_loop es en n | Some job \<Rightarrow>
      bind_op (tally (\<lambda>m. m\<lparr>smClaimed := smClaimed m + 1\<rparr>)) (\<lambda>_. bind_op (execute_job es en job) (\<lambda>_. probe_loop es en n))))"
    by (rule counts_then [OF counts_store [of 0 0] next_probe]) (auto simp: calls_between_def probes_between_def)
  then have "counts (probes_between (int (Suc n)) 0) (bind_op (tally (\<lambda>m. m\<lparr>smProbes := smProbes m + 1\<rparr>)) (\<lambda>_.
      bind_op (on_store (esClaim es)) (\<lambda>claimed. case claimed of None \<Rightarrow> probe_loop es en n | Some job \<Rightarrow>
      bind_op (tally (\<lambda>m. m\<lparr>smClaimed := smClaimed m + 1\<rparr>)) (\<lambda>_. bind_op (execute_job es en job) (\<lambda>_. probe_loop es en n)))))"
    by (rule counts_then [where R = "\<lambda>a b. b = a\<lparr>smProbes := smProbes a + 1\<rparr>", rotated])
       (auto simp: counts_def tally_def probes_between_def)
  then show ?case unfolding probe_loop.simps
    by (rule counts_then [OF counts_check]) (auto simp: calls_between_def probes_between_def)
qed

lemma counts_pass: "counts (probes_between 8 0) (run_pass es en)"
proof -
  let ?S = "\<lambda>a b :: ExecutionSummary. probes_between 8 0 a b"
  have probes: "counts ?S (probe_loop es en max_claim_probes)" using counts_probe [of max_claim_probes] by (simp add: max_claim_probes_def)
  have free: "counts ?S (bind_op m f)" if "counts (calls_between 0 0) m" "\<And>x. counts ?S (f x)" for m :: "('s, 'b) pass" and f :: "'b \<Rightarrow> ('s, unit) pass"
    by (rule counts_then [OF that]) (auto simp: calls_between_def probes_between_def)
  show ?thesis
    unfolding run_pass_def
    by (intro free counting probes counts_tally) (auto simp: calls_between_def)
qed

section \<open>The contract of a store\<close>

text \<open>
  \<open>owned\<close> are the reservations that this process has committed, \<open>unsettled\<close> those of them that are still open.
  An operation that fails in an uncertain way may have committed; only a known result can be relied on.
\<close>

definition uncertain :: "exec_error \<Rightarrow> bool" where
  "uncertain e \<longleftrightarrow> e \<in> {Service ErrUnavailable, Canceled, DeadlineExceeded}"

definition not_safe :: "exec_error + 'a \<Rightarrow> bool" where
  "not_safe r \<longleftrightarrow> (\<forall>c. r \<noteq> Inl (Safe c))"

text \<open>A pass whose result the process can trust: it ended, or stopped at a recorded outcome of the provider.\<close>

definition conclusion :: "exec_error \<Rightarrow> bool" where
  "conclusion e \<longleftrightarrow> e \<in> {Safe ExecutionCredentials, Safe ExecutionConfiguration, Safe ExecutionAccounting}"

definition concluded :: "exec_error + 'a \<Rightarrow> bool" where
  "concluded r \<longleftrightarrow> (case r of Inr _ \<Rightarrow> True | Inl e \<Rightarrow> conclusion e)"

lemma concluded_simps [simp]: "concluded (Inr x)" "concluded (Inl e) \<longleftrightarrow> conclusion e"
  by (simp_all add: concluded_def)

text \<open>
  What a step of a pass does to a store: it keeps the reservations; it leaves one settled whenever its result satisfies
  \<open>P\<close>; it fails only without a conclusion; or, over a reservation of its own, it is closed: a conclusion leaves
  nothing more open than before, and every call is covered by a new reservation.
\<close>

definition keeps :: "('s \<Rightarrow> bool) \<Rightarrow> ('s \<Rightarrow> ID set) \<Rightarrow> ('s \<Rightarrow> ID set) \<Rightarrow> ('s, 'a) pass \<Rightarrow> bool" where
  "keeps good owned unsettled m \<longleftrightarrow>
     (\<forall>st. good (fst st) \<longrightarrow> (case m st of (st', _) \<Rightarrow>
        good (fst st') \<and> owned (fst st') = owned (fst st) \<and> unsettled (fst st') \<subseteq> unsettled (fst st)))"

definition drops :: "('s \<Rightarrow> bool) \<Rightarrow> ('s \<Rightarrow> ID set) \<Rightarrow> ID \<Rightarrow> (exec_error + 'a \<Rightarrow> bool) \<Rightarrow> ('s, 'a) pass \<Rightarrow> bool" where
  "drops good unsettled i P m \<longleftrightarrow>
     (\<forall>st. good (fst st) \<longrightarrow> (case m st of (st', r) \<Rightarrow> P r \<longrightarrow> i \<notin> unsettled (fst st')))"

definition inconclusive :: "('s \<Rightarrow> bool) \<Rightarrow> ('s, 'a) pass \<Rightarrow> bool" where
  "inconclusive good m \<longleftrightarrow> (\<forall>st. good (fst st) \<longrightarrow> (case m st of (_, r) \<Rightarrow> (\<forall>e. r = Inl e \<longrightarrow> \<not> conclusion e)))"

definition closes :: "('s \<Rightarrow> bool) \<Rightarrow> ('s \<Rightarrow> ID set) \<Rightarrow> ('s \<Rightarrow> ID set) \<Rightarrow> ('s, 'a) pass \<Rightarrow> bool" where
  "closes good owned unsettled m \<longleftrightarrow>
     (\<forall>st. good (fst st) \<longrightarrow> (case m st of (st', r) \<Rightarrow>
        good (fst st') \<and> owned (fst st) \<subseteq> owned (fst st') \<and>
        (concluded r \<longrightarrow> unsettled (fst st') \<subseteq> unsettled (fst st)) \<and>
        smCalls (snd st') - smCalls (snd st) \<le> int (card (owned (fst st'))) - int (card (owned (fst st)))))"

lemma keepsD: "keeps good owned unsettled m \<Longrightarrow> good (fst st) \<Longrightarrow> m st = (st', r) \<Longrightarrow>
    good (fst st') \<and> owned (fst st') = owned (fst st) \<and> unsettled (fst st') \<subseteq> unsettled (fst st)"
  unfolding keeps_def by (drule spec [of _ st]) simp

lemma keepsI: "(\<And>st st' r. good (fst st) \<Longrightarrow> m st = (st', r) \<Longrightarrow>
    good (fst st') \<and> owned (fst st') = owned (fst st) \<and> unsettled (fst st') \<subseteq> unsettled (fst st)) \<Longrightarrow> keeps good owned unsettled m"
  unfolding keeps_def by (intro allI impI, rule case_prodI2, blast)

lemma dropsD: "drops good unsettled i P m \<Longrightarrow> good (fst st) \<Longrightarrow> m st = (st', r) \<Longrightarrow> P r \<Longrightarrow> i \<notin> unsettled (fst st')"
  unfolding drops_def by (drule spec [of _ st]) simp

lemma dropsI: "(\<And>st st' r. good (fst st) \<Longrightarrow> m st = (st', r) \<Longrightarrow> P r \<Longrightarrow> i \<notin> unsettled (fst st')) \<Longrightarrow> drops good unsettled i P m"
  unfolding drops_def by (intro allI impI, rule case_prodI2, blast)

lemma inconclusiveD: "inconclusive good m \<Longrightarrow> good (fst st) \<Longrightarrow> m st = (st', Inl e) \<Longrightarrow> \<not> conclusion e"
  unfolding inconclusive_def by (drule spec [of _ st]) simp

lemma closesD: "closes good owned unsettled m \<Longrightarrow> good (fst st) \<Longrightarrow> m st = (st', r) \<Longrightarrow>
    good (fst st') \<and> owned (fst st) \<subseteq> owned (fst st') \<and> (concluded r \<longrightarrow> unsettled (fst st') \<subseteq> unsettled (fst st)) \<and>
    smCalls (snd st') - smCalls (snd st) \<le> int (card (owned (fst st'))) - int (card (owned (fst st)))"
  unfolding closes_def by (drule spec [of _ st]) simp

lemma closesI: "(\<And>st st' r. good (fst st) \<Longrightarrow> m st = (st', r) \<Longrightarrow>
    good (fst st') \<and> owned (fst st) \<subseteq> owned (fst st') \<and> (concluded r \<longrightarrow> unsettled (fst st') \<subseteq> unsettled (fst st)) \<and>
    smCalls (snd st') - smCalls (snd st) \<le> int (card (owned (fst st'))) - int (card (owned (fst st)))) \<Longrightarrow> closes good owned unsettled m"
  unfolding closes_def by (intro allI impI, rule case_prodI2, blast)

named_theorems keeping

lemma keeps_attempt [keeping]:
  assumes "keeps good owned unsettled m" "\<And>r. keeps good owned unsettled (f r)"
  shows "keeps good owned unsettled (attempt_op m f)"
proof (rule keepsI)
  fix st st'' r
  assume i: "good (fst st)" and e: "attempt_op m f st = (st'', r)"
  obtain st' x where m: "m st = (st', x)" by (cases "m st")
  then have f: "f x st' = (st'', r)" using e by (simp add: attempt_op_def)
  from keepsD [OF assms(1) i m] keepsD [OF assms(2) _ f]
  show "good (fst st'') \<and> owned (fst st'') = owned (fst st) \<and> unsettled (fst st'') \<subseteq> unsettled (fst st)" by blast
qed

lemma keeps_pure [keeping]:
  "keeps good owned unsettled (return_op x)" "keeps good owned unsettled (fail_op e)" "keeps good owned unsettled (tally g)"
  by (auto simp: keeps_def return_op_def fail_op_def tally_def)

lemma keeps_bind [keeping]:
  assumes "keeps good owned unsettled m" "\<And>x. keeps good owned unsettled (f x)"
  shows "keeps good owned unsettled (bind_op m f)"
  unfolding bind_op_def
proof (rule keeps_attempt [OF assms(1)])
  show "keeps good owned unsettled (\<lambda>s. case r of Inl e \<Rightarrow> (s, Inl e) | Inr x \<Rightarrow> f x s)" for r
    using assms(2) by (cases r) (auto simp: keeps_def)
qed

lemma drops_then:
  assumes "keeps good owned unsettled m" "drops good unsettled i (\<lambda>r. \<not> (\<exists>e. r = Inl e)) m" "inconclusive good m"
    "\<And>x. keeps good owned unsettled (f x)"
  shows "drops good unsettled i concluded (bind_op m f)"
proof (rule dropsI)
  fix st st'' r
  assume i: "good (fst st)" and e: "bind_op m f st = (st'', r)" and c: "concluded r"
  obtain st' x where m: "m st = (st', x)" by (cases "m st")
  show "i \<notin> unsettled (fst st'')"
  proof (cases x)
    case (Inl er)
    then show ?thesis using e c m inconclusiveD [OF assms(3) i] by (auto simp: bind_op_def attempt_op_def)
  next
    case (Inr y)
    then have f: "f y st' = (st'', r)" using e m by (simp add: bind_op_def attempt_op_def)
    have "i \<notin> unsettled (fst st')" using dropsD [OF assms(2) i m] Inr by simp
    then show ?thesis using keepsD [OF assms(4) _ f] keepsD [OF assms(1) i m] by blast
  qed
qed

lemma drops_later:
  assumes "keeps good owned unsettled m" "inconclusive good m" "\<And>x. drops good unsettled i concluded (f x)"
  shows "drops good unsettled i concluded (bind_op m f)"
proof (rule dropsI)
  fix st st'' r
  assume i: "good (fst st)" and e: "bind_op m f st = (st'', r)" and c: "concluded r"
  obtain st' x where m: "m st = (st', x)" by (cases "m st")
  show "i \<notin> unsettled (fst st'')"
  proof (cases x)
    case (Inl er)
    then show ?thesis using e c m inconclusiveD [OF assms(2) i] by (auto simp: bind_op_def attempt_op_def)
  next
    case (Inr y)
    then have "f y st' = (st'', r)" using e m by (simp add: bind_op_def attempt_op_def)
    then show ?thesis using dropsD [OF assms(3) _ _ c] keepsD [OF assms(1) i m] by blast
  qed
qed

lemma drops_if: "drops good unsettled i P m \<Longrightarrow> drops good unsettled i P n \<Longrightarrow> drops good unsettled i P (if b then m else n)"
  by simp

lemma inconclusive_bind:
  assumes "keeps good owned unsettled m" "inconclusive good m" "\<And>x. inconclusive good (f x)"
  shows "inconclusive good (bind_op m f)"
  unfolding inconclusive_def
proof (intro allI impI, clarsimp)
  fix s sm s'' sm'' e
  assume i: "good s" and e: "bind_op m f (s, sm) = ((s'', sm''), Inl e)" and c: "conclusion e"
  obtain st' x where m: "m (s, sm) = (st', x)" by (cases "m (s, sm)")
  show False
  proof (cases x)
    case (Inl er)
    then show ?thesis using e c m inconclusiveD [OF assms(2), of "(s, sm)"] i by (auto simp: bind_op_def attempt_op_def)
  next
    case (Inr y)
    then have "f y st' = ((s'', sm''), Inl e)" using e m by (simp add: bind_op_def attempt_op_def)
    then show ?thesis using inconclusiveD [OF assms(3)] keepsD [OF assms(1) _ m] i c by (metis fst_conv)
  qed
qed

lemma closes_bind:
  assumes "closes good owned unsettled m" "\<And>x. closes good owned unsettled (f x)"
  shows "closes good owned unsettled (bind_op m f)"
proof (rule closesI)
  fix st st'' r
  assume i: "good (fst st)" and e: "bind_op m f st = (st'', r)"
  obtain st' x where m: "m st = (st', x)" by (cases "m st")
  note first = closesD [OF assms(1) i m]
  show "good (fst st'') \<and> owned (fst st) \<subseteq> owned (fst st'') \<and> (concluded r \<longrightarrow> unsettled (fst st'') \<subseteq> unsettled (fst st)) \<and>
    smCalls (snd st'') - smCalls (snd st) \<le> int (card (owned (fst st''))) - int (card (owned (fst st)))"
  proof (cases x)
    case (Inl er)
    then show ?thesis using e m first by (auto simp: bind_op_def attempt_op_def)
  next
    case (Inr y)
    then have "f y st' = (st'', r)" using e m by (simp add: bind_op_def attempt_op_def)
    from closesD [OF assms(2) _ this] first Inr show ?thesis by auto
  qed
qed

lemma closes_attempt:
  assumes "keeps good owned unsettled m" "counts (calls_between 0 0) m" "\<And>r. closes good owned unsettled (f r)"
  shows "closes good owned unsettled (attempt_op m f)"
proof (rule closesI)
  fix st st'' r
  assume i: "good (fst st)" and e: "attempt_op m f st = (st'', r)"
  obtain st' x where m: "m st = (st', x)" by (cases "m st")
  then have f: "f x st' = (st'', r)" using e by (simp add: attempt_op_def)
  have "calls_between 0 0 (snd st) (snd st')" using assms(2) m unfolding counts_def by (metis fst_conv)
  then show "good (fst st'') \<and> owned (fst st) \<subseteq> owned (fst st'') \<and> (concluded r \<longrightarrow> unsettled (fst st'') \<subseteq> unsettled (fst st)) \<and>
    smCalls (snd st'') - smCalls (snd st) \<le> int (card (owned (fst st''))) - int (card (owned (fst st)))"
    using closesD [OF assms(3) _ f] keepsD [OF assms(1) i m] by (auto simp: calls_between_def)
qed

lemma closes_keeping:
  assumes "keeps good owned unsettled m" "counts (calls_between 0 0) m"
  shows "closes good owned unsettled m"
proof (rule closesI)
  fix st st' r
  assume i: "good (fst st)" and m: "m st = (st', r)"
  have "calls_between 0 0 (snd st) (snd st')" using assms(2) m unfolding counts_def by (metis fst_conv)
  then show "good (fst st') \<and> owned (fst st) \<subseteq> owned (fst st') \<and> (concluded r \<longrightarrow> unsettled (fst st') \<subseteq> unsettled (fst st)) \<and>
    smCalls (snd st') - smCalls (snd st) \<le> int (card (owned (fst st'))) - int (card (owned (fst st)))"
    using keepsD [OF assms(1) i m] by (auto simp: calls_between_def)
qed

text \<open>An answer of the environment, or an operation of the store, that reserves nothing and opens nothing.\<close>

definition quiet_env :: "('s \<Rightarrow> bool) \<Rightarrow> ('s \<Rightarrow> ID set) \<Rightarrow> ('s \<Rightarrow> ID set) \<Rightarrow> ('s \<Rightarrow> 's \<times> 'x) \<Rightarrow> bool" where
  "quiet_env good owned unsettled m \<longleftrightarrow>
     (\<forall>s s' x. good s \<longrightarrow> m s = (s', x) \<longrightarrow> good s' \<and> owned s' = owned s \<and> unsettled s' \<subseteq> unsettled s)"

definition quiet :: "('s \<Rightarrow> bool) \<Rightarrow> ('s \<Rightarrow> ID set) \<Rightarrow> ('s \<Rightarrow> ID set) \<Rightarrow> ('s, 'a) op \<Rightarrow> bool" where
  "quiet good owned unsettled m \<longleftrightarrow>
     quiet_env good owned unsettled m \<and> (\<forall>s s' r. good s \<longrightarrow> m s = (s', r) \<longrightarrow> not_safe r)"

locale settling_store =
  fixes es :: "'s execution_store" and en :: "'s execution_env" and good :: "'s \<Rightarrow> bool"
    and owned :: "'s \<Rightarrow> ID set" and unsettled :: "'s \<Rightarrow> ID set"
  assumes ready: "quiet good owned unsettled (esReady es)"
    and recover: "quiet good owned unsettled (esRecover es)"
    and expire: "quiet good owned unsettled (esExpire es)"
    and claim: "quiet good owned unsettled (esClaim es)"
    and latest: "quiet good owned unsettled (esLatest es i)"
    and snapshot: "quiet good owned unsettled (esContext es i v)"
    and renew: "quiet good owned unsettled (esRenew es i v)"
    and settle: "quiet good owned unsettled (esSettle es t outcome q)"
    and settled: "good s \<Longrightarrow> esSettle es t outcome q s = (s', Inr ok) \<Longrightarrow> aID t \<notin> unsettled s'"
    and complete: "quiet good owned unsettled (esComplete es i v k jit)"
    and publish: "quiet good owned unsettled (esPublish es i v k result)"
    and deny: "quiet good owned unsettled (esDeny es i v reason)"
    and reserve: "good s \<Longrightarrow> esReserve es i v input s = (s', l) \<Longrightarrow> good s' \<and> not_safe l \<and>
      (case l of
         Inr (Some t, why) \<Rightarrow> aID t \<notin> owned s \<and> owned s' = insert (aID t) (owned s) \<and> unsettled s' \<subseteq> insert (aID t) (unsettled s)
       | Inr (None, why) \<Rightarrow> owned s' = owned s \<and> unsettled s' \<subseteq> unsettled s
       | Inl e \<Rightarrow> owned s' = owned s \<and> unsettled s' \<subseteq> unsettled s \<or> uncertain e \<and> owned s \<subseteq> owned s')"
    and ended: "quiet_env good owned unsettled (enErr en)"
    and jitter: "quiet_env good owned unsettled (enJitter en)"
    and renew_ended: "quiet_env good owned unsettled (enRenewEnded en)"
    and ticks: "quiet_env good owned unsettled (enTicks en job input)"
    and provider: "quiet_env good owned unsettled (enProvider en job input lost)"
    and owned_finite: "good s \<Longrightarrow> finite (owned s)"
begin

lemma on_store_keeps:
  assumes "quiet good owned unsettled m"
  shows "keeps good owned unsettled (on_store m)" "inconclusive good (on_store m)"
proof -
  have q: "good s' \<and> owned s' = owned s \<and> unsettled s' \<subseteq> unsettled s \<and> not_safe r" if "good s" "m s = (s', r)" for s s' r
    using assms that unfolding quiet_def quiet_env_def by blast
  show "keeps good owned unsettled (on_store m)"
    using q by (fastforce simp: keeps_def on_store_def split: prod.split)
  show "inconclusive good (on_store m)"
    using q by (fastforce simp: inconclusive_def on_store_def not_safe_def conclusion_def split: prod.split)
qed

lemma ask_keeps: "quiet_env good owned unsettled m \<Longrightarrow> keeps good owned unsettled (ask m)"
  unfolding quiet_env_def by (fastforce simp: keeps_def ask_def split: prod.split)

lemmas store_keeps [keeping] =
  on_store_keeps(1) [OF ready] on_store_keeps(1) [OF recover] on_store_keeps(1) [OF expire] on_store_keeps(1) [OF claim]
  on_store_keeps(1) [OF latest] on_store_keeps(1) [OF snapshot] on_store_keeps(1) [OF renew] on_store_keeps(1) [OF settle]
  on_store_keeps(1) [OF complete] on_store_keeps(1) [OF publish] on_store_keeps(1) [OF deny]

lemmas env_keeps [keeping] =
  ask_keeps [OF ended] ask_keeps [OF jitter] ask_keeps [OF renew_ended] ask_keeps [OF ticks] ask_keeps [OF provider]

lemma check_keeps [keeping]: "keeps good owned unsettled (check_context en)"
  unfolding check_context_def by (intro keeping) (auto intro: keeping split: option.split)

lemma stop_keeps [keeping]: "keeps good owned unsettled m \<Longrightarrow> keeps good owned unsettled (stop_if e m)"
  by (auto simp: stop_if_def intro: keeping split: option.split)

lemma complete_keeps [keeping]: "keeps good owned unsettled (complete_job es en job i)"
  unfolding complete_job_def by (intro keeping) (auto intro!: keeping split: sum.split)

lemma deny_keeps [keeping]: "keeps good owned unsettled (deny_job es job reason)"
  unfolding deny_job_def by (intro keeping) (auto intro: keeping split: sum.split)

lemma rejection_keeps [keeping]: "keeps good owned unsettled (rejection es job e publication)"
  unfolding rejection_def by (auto intro: keeping)

lemma storage_keeps [keeping]: "keeps good owned unsettled m \<Longrightarrow> keeps good owned unsettled (storage_op m)"
  unfolding storage_op_def by (intro keeping) (auto intro: keeping split: sum.split)

lemma cancelled_keeps [keeping]: "keeps good owned unsettled (cancelled_job es job attempt b)"
  unfolding cancelled_job_def by (intro keeping) (auto intro: keeping)

lemma renew_keeps [keeping]: "keeps good owned unsettled (renew_loop es en job n)"
  by (induction n) (auto intro!: keeping split: sum.split)

lemma provider_keeps [keeping]: "keeps good owned unsettled (provider_call es en job input)"
  unfolding provider_call_def Let_def prod.case_eq_if by (intro keeping)

lemma finish_keeps [keeping]: "keeps good owned unsettled (finish_call es en job reserved outcome)"
  unfolding finish_call_def by (intro keeping) (auto intro!: keeping split: option.split sum.split)

lemma settle_keeps [keeping]: "keeps good owned unsettled (call_and_settle es en job input attempt)"
  unfolding call_and_settle_def prod.case_eq_if by (intro keeping) (auto intro!: keeping split: option.split sum.split)

lemma renew_sure: "inconclusive good (renew_loop es en job n)"
proof -
  have "\<exists>x. snd (renew_loop es en job n st) = Inr x" for st
    by (induction n arbitrary: st)
       (auto simp: return_op_def attempt_op_def bind_op_def ask_def on_store_def split: prod.split sum.split)
  then show ?thesis
    unfolding inconclusive_def prod.case_eq_if by (metis sum.distinct(1))
qed

lemma ended_sure: "inconclusive good (ask m)"
  by (simp add: inconclusive_def ask_def split: prod.split)

lemma storage_sure: "inconclusive good (storage_op m)"
  by (auto simp: inconclusive_def storage_op_def attempt_op_def fail_op_def return_op_def conclusion_def split: prod.split sum.split)

lemma tally_sure: "inconclusive good (tally g)" "inconclusive good (return_op x)"
  by (simp_all add: inconclusive_def tally_def return_op_def)

lemma provider_sure: "inconclusive good (provider_call es en job input)"
  unfolding provider_call_def Let_def prod.case_eq_if
  by (rule inconclusive_bind [OF env_keeps(4) ended_sure], rule inconclusive_bind [OF renew_keeps renew_sure],
      rule inconclusive_bind [OF env_keeps(5) ended_sure], rule inconclusive_bind [OF keeps_pure(3) tally_sure(1) tally_sure(2)])

lemma settling_drops: "drops good unsettled (aID t) (\<lambda>r. \<not> (\<exists>e. r = Inl e)) (on_store (esSettle es t outcome q))"
proof (rule dropsI)
  fix st st' and r :: "exec_error + bool"
  assume i: "good (fst st)" and e: "on_store (esSettle es t outcome q) st = (st', r)" and r: "\<not> (\<exists>e. r = Inl e)"
  obtain s' g where g: "esSettle es t outcome q (fst st) = (s', g)" by (cases "esSettle es t outcome q (fst st)")
  with e have "st' = (s', snd st)" "r = g" by (simp_all add: on_store_def)
  with settled [OF i] g r show "aID t \<notin> unsettled (fst st')" by (cases g) auto
qed

lemma cancelled_drops: "drops good unsettled (aID t) concluded (cancelled_job es job t b)"
proof -
  have s: "drops good unsettled (aID t) (\<lambda>r. \<not> (\<exists>e. r = Inl e)) (storage_op (on_store (esSettle es t outcome q)))" for outcome q
  proof (rule dropsI)
    fix st st' and r :: "exec_error + bool"
    assume i: "good (fst st)" and e: "storage_op (on_store (esSettle es t outcome q)) st = (st', r)" and r: "\<not> (\<exists>e. r = Inl e)"
    obtain s' g where g: "on_store (esSettle es t outcome q) st = (s', g)" by (cases "on_store (esSettle es t outcome q) st")
    with e r have "s' = st'" "\<not> (\<exists>e. g = Inl e)"
      by (cases g; auto simp: storage_op_def attempt_op_def fail_op_def return_op_def)+
    with dropsD [OF settling_drops i g] show "aID t \<notin> unsettled (fst st')" by simp
  qed
  show ?thesis
    unfolding cancelled_job_def by (intro drops_then [OF _ s storage_sure]) (auto intro: keeping)
qed

lemma cancelled_sure: "inconclusive good (cancelled_job es job t b)"
  unfolding cancelled_job_def
  by (rule inconclusive_bind [OF storage_keeps [OF store_keeps(8)] storage_sure]) (simp add: storage_sure tally_sure)

lemma finish_drops: "drops good unsettled (aID t) concluded (finish_call es en job t outcome)"
proof -
  note on_store_keeps(2) [OF settle]
  then show ?thesis
    unfolding finish_call_def
    by (intro drops_then [OF _ settling_drops]) (auto intro!: keeping split: option.split sum.split)
qed

text \<open>After a reservation of its own, a pass that reaches a conclusion has settled it.\<close>

lemma call_drops: "drops good unsettled (aID t) concluded (call_and_settle es en job input t)"
proof -
  have stopped: "drops good unsettled i concluded (fail_op (Safe ExecutionStopped) :: ('s, unit) pass)" for i
    by (simp add: drops_def fail_op_def conclusion_def)
  have lost: "drops good unsettled (aID t) concluded (bind_op (cancelled_job es job t b) f)"
    if "\<And>x. keeps good owned unsettled (f x)" for b and f :: "unit \<Rightarrow> ('s, unit) pass"
  proof (rule dropsI)
    fix st st'' and r :: "exec_error + unit"
    assume i: "good (fst st)" and e: "bind_op (cancelled_job es job t b) f st = (st'', r)" and c: "concluded r"
    obtain st' x where m: "cancelled_job es job t b st = (st', x)" by (cases "cancelled_job es job t b st")
    show "aID t \<notin> unsettled (fst st'')"
    proof (cases x)
      case (Inl er)
      then show ?thesis using e c m inconclusiveD [OF cancelled_sure i m [unfolded Inl]] by (simp add: bind_op_def attempt_op_def) auto
    next
      case (Inr y)
      then have f: "f y st' = (st'', r)" using e m by (simp add: bind_op_def attempt_op_def)
      have g: "good (fst st')" using keepsD [OF cancelled_keeps i m] by simp
      show ?thesis using keepsD [OF that g f] dropsD [OF cancelled_drops i m] Inr by auto
    qed
  qed
  have finished: "drops good unsettled (aID t) concluded (attempt_op (finish_call es en job t outcome) (\<lambda>r. bind_op (ask (enErr en)) (\<lambda>ended'.
      if ended' \<noteq> None then bind_op (cancelled_job es job t True) (\<lambda>_. fail_op (Safe ExecutionStopped))
      else (case r of Inl e \<Rightarrow> fail_op e | Inr _ \<Rightarrow> return_op ()))))" for outcome
  proof (rule dropsI)
    fix st st'' and r :: "exec_error + unit"
    let ?f = "\<lambda>r. bind_op (ask (enErr en)) (\<lambda>ended'.
      if ended' \<noteq> None then bind_op (cancelled_job es job t True) (\<lambda>_. fail_op (Safe ExecutionStopped))
      else (case r of Inl e \<Rightarrow> fail_op e | Inr _ \<Rightarrow> return_op ()))"
    assume i: "good (fst st)" and e: "attempt_op (finish_call es en job t outcome) ?f st = (st'', r)" and c: "concluded r"
    obtain st' x where m: "finish_call es en job t outcome st = (st', x)" by (cases "finish_call es en job t outcome st")
    then have f: "?f x st' = (st'', r)" using e by (simp add: attempt_op_def)
    have keep: "keeps good owned unsettled (?f x)" by (intro keeping) (auto intro!: keeping split: sum.split)
    note good' = keepsD [OF finish_keeps i m]
    show "aID t \<notin> unsettled (fst st'')"
    proof (cases "concluded x")
      case True
      with dropsD [OF finish_drops i m] keepsD [OF keep _ f] good' show ?thesis by blast
    next
      case False
      then obtain er where er: "x = Inl er" "\<not> conclusion er" by (cases x) auto
      have "drops good unsettled (aID t) concluded (?f x)"
        by (intro drops_later [OF env_keeps(1) ended_sure])
           (use er in \<open>auto intro!: lost keeping simp: drops_def [of good unsettled _ _ "fail_op er"] fail_op_def [of er]\<close>)
      with f c good' show ?thesis using dropsD by blast
    qed
  qed
  show ?thesis
    unfolding call_and_settle_def prod.case_eq_if
    apply (rule drops_later [OF env_keeps(1) ended_sure])
    apply (rule drops_if, rule cancelled_drops)
    apply (rule drops_later [OF keeps_pure(3) tally_sure(1)], rule drops_later [OF provider_keeps provider_sure])
    apply (rule drops_later [OF env_keeps(1) ended_sure])
    apply (rule drops_if)
     apply (rule lost, intro keeping)
     apply (auto intro!: keeping split: option.split) []
    apply (rule finished)
    done
qed

lemma reserve_closes: "closes good owned unsettled (reserve_and_call es en job)"
proof -
  let ?cont = "\<lambda>input r. case r of
      Inl e \<Rightarrow> rejection es job e False | Inr (None, _) \<Rightarrow> tally count_denied
    | Inr (Some attempt, _) \<Rightarrow> call_and_settle es en job input attempt"
  have reserved: "closes good owned unsettled (attempt_op (on_store (esReserve es i v input)) (?cont input))" for i v input
  proof (rule closesI)
    fix st st'' and r :: "exec_error + unit"
    assume g: "good (fst st)" and e: "attempt_op (on_store (esReserve es i v input)) (?cont input) st = (st'', r)"
    obtain s' x where m: "esReserve es i v input (fst st) = (s', x)" by (cases "esReserve es i v input (fst st)")
    then have f: "?cont input x (s', snd st) = (st'', r)" using e by (simp add: attempt_op_def on_store_def)
    have g': "good (fst (s', snd st))" using reserve [OF g m] by simp
    note law = reserve [OF g m]
    have keep: "keeps good owned unsettled (?cont input x)"
      by (auto intro!: keeping split: sum.split option.split prod.split)
    note kept = keepsD [OF keep g' f]
    show "good (fst st'') \<and> owned (fst st) \<subseteq> owned (fst st'') \<and> (concluded r \<longrightarrow> unsettled (fst st'') \<subseteq> unsettled (fst st)) \<and>
      smCalls (snd st'') - smCalls (snd st) \<le> int (card (owned (fst st''))) - int (card (owned (fst st)))"
    proof (cases "\<exists>t w. x = Inr (Some t, w)")
      case True
      then obtain t w where x: "x = Inr (Some t, w)" by blast
      then have f': "call_and_settle es en job input t (s', snd st) = (st'', r)" using f by simp
      have "aID t \<notin> unsettled (fst st'')" if "concluded r" using dropsD [OF call_drops g' f' that] .
      then show ?thesis
        using kept law x countsD [OF counts_settle f'] owned_finite [OF g] by (auto simp: calls_between_def)
    next
      case False
      then have "counts (calls_between 0 0) (?cont input x)"
        by (auto simp: counting split: sum.split option.split prod.split)
      from countsD [OF this f] have calls: "smCalls (snd st'') = smCalls (snd st)" by (simp add: calls_between_def)
      have grows: "owned (fst st) \<subseteq> owned s'" using law False by (auto split: sum.splits option.splits)
      have "finite (owned s')" using owned_finite law by blast
      then have "card (owned (fst st)) \<le> card (owned s')" using grows by (rule card_mono)
      moreover have "unsettled s' \<subseteq> unsettled (fst st)" if "concluded r"
      proof (cases x)
        case (Inl er)
        have "\<not> uncertain er"
        proof
          assume u: "uncertain er"
          then have "rejection es job er False = fail_op er" by (auto simp: uncertain_def rejection_def)
          with f Inl have "r = Inl er" by (simp add: fail_op_def)
          with that u show False by (auto simp: uncertain_def conclusion_def)
        qed
        then show ?thesis using law Inl by simp
      qed (use law False in \<open>auto split: option.splits\<close>)
      ultimately show ?thesis using kept calls grows by auto
    qed
  qed
  show ?thesis
    unfolding reserve_and_call_def
    apply (rule closes_attempt [OF store_keeps(6) counts_store], simp, simp)
    apply (auto intro!: reserved closes_keeping keeping counting split: sum.split)
    done
qed

lemma execute_closes: "closes good owned unsettled (execute_job es en job)"
proof -
  have stop: "closes good owned unsettled (stop_if e m)" if "closes good owned unsettled m" for e and m :: "('s, unit) pass"
    using that by (auto simp: stop_if_def intro!: closes_keeping keeping counting split: option.split)
  have historical: "closes good owned unsettled (bind_op (complete_job es en job i) (\<lambda>status. stop_if (durable_stop p)
      (if status = JobRunning then deny_job es job GenerationOutputUnavailable else return_op ())))" for i p
    by (rule closes_bind) (auto intro!: stop closes_keeping keeping counting)
  show ?thesis
    unfolding execute_job_def
    by (rule closes_bind, rule closes_keeping, intro keeping, intro counting, simp, simp)
       (auto intro!: historical stop reserve_closes intro: closes_keeping keeping counting split: option.split)
qed

lemma probe_closes: "closes good owned unsettled (probe_loop es en n)"
proof -
  have tallies: "closes good owned unsettled (tally g)" if "\<And>m. smCalls (g m) = smCalls m" for g
    using that by (auto simp: closes_def tally_def)
  have claims: "closes good owned unsettled (on_store (esClaim es))"
    by (rule closes_keeping, intro keeping, intro counting) simp_all
  have checks: "closes good owned unsettled (check_context en)" by (rule closes_keeping; intro keeping counting)
  show ?thesis
  proof (induction n)
    case 0
    show ?case unfolding probe_loop.simps by (rule checks)
  next
    case (Suc n)
    have "closes good owned unsettled (case claimed of None \<Rightarrow> probe_loop es en n | Some job \<Rightarrow>
        bind_op (tally (\<lambda>m. m\<lparr>smClaimed := smClaimed m + 1\<rparr>)) (\<lambda>_. bind_op (execute_job es en job) (\<lambda>_. probe_loop es en n)))" for claimed
      by (auto intro!: closes_bind tallies execute_closes Suc.IH split: option.split)
    then show ?case unfolding probe_loop.simps
      by (intro closes_bind [OF checks] closes_bind [OF tallies] closes_bind [OF claims]) simp_all
  qed
qed

lemma pass_closes: "closes good owned unsettled (run_pass es en)"
proof -
  have tallies: "closes good owned unsettled (tally g)" if "\<And>m. smCalls (g m) = smCalls m" for g
    using that by (auto simp: closes_def tally_def)
  have kept: "closes good owned unsettled (on_store m)" if "keeps good owned unsettled (on_store m)" for m :: "('s, 'x) op"
    by (rule closes_keeping [OF that]) (intro counting; simp)
  show ?thesis
    unfolding run_pass_def
    by (intro closes_bind probe_closes tallies closes_keeping keeping counting) simp_all
qed

text \<open>
  The contract of a pass: a result other than a storage failure or a stop leaves nothing open that it reserved, and
  whatever the result, its provider calls are covered one by one by reservations of its own.
\<close>

theorem execute_settles:
  assumes "good s" "execute es en s = (s', m, result)"
  shows "good s' \<and> owned s \<subseteq> owned s' \<and> smCalls m \<le> int (card (owned s')) - int (card (owned s)) \<and>
    (result \<notin> {Some ExecutionStorage, Some ExecutionStopped} \<longrightarrow> unsettled s' \<subseteq> unsettled s)"
proof -
  obtain s1 m1 r where r: "run_pass es en (s, empty_summary) = ((s1, m1), r)" by (metis prod.collapse)
  have pass: "good s1 \<and> owned s \<subseteq> owned s1 \<and> (concluded r \<longrightarrow> unsettled s1 \<subseteq> unsettled s) \<and>
      smCalls m1 \<le> int (card (owned s1)) - int (card (owned s))"
    using closesD [OF pass_closes _ r] assms(1) by (simp add: empty_summary_def)
  obtain s2 x where x: "enErr en s1 = (s2, x)" by (cases "enErr en s1")
  have last: "good s2 \<and> owned s2 = owned s1 \<and> unsettled s2 \<subseteq> unsettled s1" using ended x pass unfolding quiet_env_def by blast
  show ?thesis
  proof (cases r)
    case (Inr u)
    with assms(2) r pass show ?thesis by (auto simp: execute_def)
  next
    case (Inl e)
    show ?thesis
    proof (cases "\<exists>c. e = Safe c \<and> known_code c")
      case True
      with assms(2) r pass Inl show ?thesis by (auto simp: execute_def known_code_def conclusion_def)
    next
      case False
      then have "s' = s2" "m = m1" "result = Some (if x \<noteq> None then ExecutionStopped else ExecutionStorage)"
        using assms(2) r x Inl by (cases e; auto simp: execute_def)+
      with pass last show ?thesis by auto
    qed
  qed
qed

end

end
