(* ===== verification/Store.thy ===== *)
theory Store
  imports Tables "HOL-Library.Product_Lexorder"
begin

text \<open>
  The PostgreSQL store of generation work, part one: row access (\<open>internal/postgres/generation.go\<close>,
  \<open>generation_attempt.go\<close>, \<open>generation_worker.go\<close>) and the operations that take job locks only
  (\<open>generation_claim.go\<close>, \<open>generation_cleanup.go\<close>, \<open>generation_finish.go\<close>,
  \<open>generation_transition.go\<close>).  Each reading of the database clock is an argument; \<open>locked\<close> tells which
  job rows another transaction holds, for the statements that skip locked rows.
\<close>

section \<open>Row access\<close>

definition job_row :: "db \<Rightarrow> ID \<Rightarrow> GenerationJob option" where
  "job_row d i = find (\<lambda>j. jID j = i) (jobs d)"

text \<open>\<open>GenerationJobByID\<close>: the row joined with its agent's account, validated.\<close>

definition job_by_id :: "db \<Rightarrow> ID \<Rightarrow> go_error + GenerationJob" where
  "job_by_id d i =
     (case job_row d i of
        None \<Rightarrow> Inl ErrNotFound
      | Some j \<Rightarrow>
          (case account_by_id d (jAgentID j) of
             None \<Rightarrow> Inl ErrNotFound
           | Some a \<Rightarrow> if validate_job j \<noteq> None \<or> acc_Type a \<noteq> AccountAgent then Inl ErrUnavailable
                       else Inr j))"

definition attempt_row :: "db \<Rightarrow> ID \<Rightarrow> GenerationAttempt option" where
  "attempt_row d i = find (\<lambda>a. aID a = i) (attempts d)"

definition attempt_by_id :: "db \<Rightarrow> ID \<Rightarrow> go_error + GenerationAttempt" where
  "attempt_by_id d i =
     (case attempt_row d i of
        None \<Rightarrow> Inl ErrNotFound
      | Some t \<Rightarrow>
          (case job_row d (aJobID t) of
             None \<Rightarrow> Inl ErrNotFound
           | Some j \<Rightarrow>
             (case account_by_id d (jAgentID j) of
                None \<Rightarrow> Inl ErrNotFound
              | Some a \<Rightarrow> if validate_attempt t \<noteq> None \<or> acc_Type a \<noteq> AccountAgent then Inl ErrUnavailable
                          else Inr t)))"

fun all_attempts :: "db \<Rightarrow> ID list \<Rightarrow> go_error + GenerationAttempt list" where
  "all_attempts d [] = Inr []"
| "all_attempts d (i # is) =
     and_then (attempt_by_id d i) (\<lambda>t. and_then (all_attempts d is) (\<lambda>ts. Inr (t # ts)))"

text \<open>\<open>executionAttempts\<close>: at most one more than the allowed number, in attempt order.\<close>

definition execution_attempts :: "db \<Rightarrow> ID \<Rightarrow> go_error + GenerationAttempt list" where
  "execution_attempts d i =
     all_attempts d (map aID (take (nat (MaxGenerationAttempts + 1))
       (sort_key aAttemptNumber (filter (\<lambda>t. aJobID t = i) (attempts d)))))"

definition latest_attempt :: "db \<Rightarrow> ID \<Rightarrow> go_error + GenerationAttempt option" where
  "latest_attempt d i =
     (case rev (sort_key aAttemptNumber (filter (\<lambda>t. aJobID t = i) (attempts d))) of
        [] \<Rightarrow> Inr None
      | t # _ \<Rightarrow> and_then (attempt_by_id d (aID t)) (\<lambda>t'. Inr (Some t')))"

text \<open>
  A fenced \<open>UPDATE\<close> of one job row: the identifier, the lease version and the status that were read
  must still be there, and exactly one row must change (\<open>generationClaimMutation\<close>).
\<close>

definition fenced :: "GenerationJob \<Rightarrow> GenerationJob \<Rightarrow> bool" where
  "fenced before j \<longleftrightarrow> jID j = jID before \<and> jLeaseVersion j = jLeaseVersion before \<and> jStatus j = jStatus before"

definition update_jobs :: "db \<Rightarrow> (GenerationJob \<Rightarrow> bool) \<Rightarrow> (GenerationJob \<Rightarrow> GenerationJob) \<Rightarrow> go_error + db" where
  "update_jobs d p f =
     (if length (filter p (jobs d)) = 1 then Inr (d\<lparr>jobs := map (\<lambda>j. if p j then f j else j) (jobs d)\<rparr>)
      else Inl ErrUnavailable)"

definition update_attempts ::
  "db \<Rightarrow> (GenerationAttempt \<Rightarrow> bool) \<Rightarrow> (GenerationAttempt \<Rightarrow> GenerationAttempt) \<Rightarrow> go_error + db" where
  "update_attempts d p f =
     (if length (filter p (attempts d)) = 1
      then Inr (d\<lparr>attempts := map (\<lambda>t. if p t then f t else t) (attempts d)\<rparr>)
      else Inl ErrUnavailable)"

section \<open>Finishing a locked job\<close>

definition skip_expired :: "db \<Rightarrow> GenerationJob \<Rightarrow> time \<Rightarrow> go_error + db" where
  "skip_expired d before now =
     (let after = close_job JobSkipped ''stale_trigger'' now before in
      and_then (ensure (validate_transition before after (jLeaseVersion before) now None = None) ErrUnavailable)
        (\<lambda>_. update_jobs d (\<lambda>j. fenced before j \<and> jExpiresAt j \<le> now) (close_job JobSkipped ''stale_trigger'' now)))"

definition finish_job ::
  "db \<Rightarrow> GenerationJob \<Rightarrow> GenerationJobStatus \<Rightarrow> string \<Rightarrow> time \<Rightarrow> time \<Rightarrow> go_error + db" where
  "finish_job d before status reason now available =
     and_then (ensure (\<not> (jStatus before \<noteq> JobRunning \<or> validate_lease before (jLeaseVersion before) now \<noteq> None \<or>
        (status \<noteq> JobRetryWait \<and> status \<noteq> JobSkipped \<and> status \<noteq> JobCancelled \<and> status \<noteq> JobFailed))) ErrConflict)
     (\<lambda>_. let after1 = before\<lparr>jStatus := status, jReasonCode := reason, jLeaseExpiresAt := None\<rparr>;
              after = (if status = JobRetryWait then after1\<lparr>jAvailableAt := available, jFinishedAt := None\<rparr>
                       else after1\<lparr>jFinishedAt := Some now\<rparr>)
          in and_then (ensure (validate_transition before after (jLeaseVersion before) now None = None) ErrConflict)
             (\<lambda>_. update_jobs d (fenced before)
                (\<lambda>j. j\<lparr>jStatus := status, jReasonCode := reason, jLeaseExpiresAt := None,
                      jAvailableAt := jAvailableAt after, jFinishedAt := jFinishedAt after\<rparr>)))"

text \<open>
  The cancellation of a job whose repost was removed, written out in the claim, the completion and
  the denial with their own error for a rejected transition.
\<close>

definition cancel_removed :: "db \<Rightarrow> GenerationJob \<Rightarrow> int \<Rightarrow> time \<Rightarrow> go_error \<Rightarrow> go_error + db" where
  "cancel_removed d before v now err =
     (let after = close_job JobCancelled ''source_removed'' now before in
      and_then (ensure (validate_invalidation before after v now = None) err)
        (\<lambda>_. update_jobs d (\<lambda>j. fenced before j \<and> jSourceRepostID j = None)
               (close_job JobCancelled ''source_removed'' now)))"

section \<open>Claim and renewal\<close>

definition lease_duration :: duration where "lease_duration = 90 * second"

definition claimable :: "time \<Rightarrow> GenerationJob \<Rightarrow> bool" where
  "claimable now j \<longleftrightarrow> jExpiresAt j > now \<and> jAvailableAt j \<le> now \<and>
     (jStatus j = JobPending \<or> jStatus j = JobRetryWait \<or>
      jStatus j = JobRunning \<and> (case jLeaseExpiresAt j of None \<Rightarrow> False | Some e \<Rightarrow> e \<le> now))"

definition claim_order :: "GenerationJob \<Rightarrow> time \<times> ID" where
  "claim_order j = (jAvailableAt j, jID j)"

definition claim_generation ::
  "(ID \<Rightarrow> bool) \<Rightarrow> time \<Rightarrow> time \<Rightarrow> db \<Rightarrow> go_error + db \<times> GenerationJob option" where
  "claim_generation locked c1 c2 d =
     (case sort_key claim_order (filter (\<lambda>j. claimable (generation_instant c1) j \<and> \<not> locked (jID j)) (jobs d)) of
        [] \<Rightarrow> Inr (d, None)
      | candidate # _ \<Rightarrow>
        and_then (job_by_id d (jID candidate)) (\<lambda>before.
        let now = generation_instant c2 in
        if \<not> now < jExpiresAt before then and_then (skip_expired d before now) (\<lambda>d'. Inr (d', None))
        else if removed_repost before
        then and_then (cancel_removed d before (jLeaseVersion before) now ErrUnavailable) (\<lambda>d'. Inr (d', None))
        else if jLeaseVersion before = max_int64 then Inl ErrUnavailable
        else
          let set = (\<lambda>j. j\<lparr>jStatus := JobRunning, jLeaseVersion := jLeaseVersion before + 1,
                          jLeaseExpiresAt := Some (now + lease_duration), jReasonCode := []\<rparr>);
              after = set before
          in and_then (ensure (validate_transition before after (jLeaseVersion before) now None = None) ErrConflict)
             (\<lambda>_. and_then (update_jobs d (fenced before) set) (\<lambda>d'. Inr (d', Some after)))))"

definition renew_generation :: "ID \<Rightarrow> int \<Rightarrow> time \<Rightarrow> db \<Rightarrow> go_error + db \<times> time" where
  "renew_generation i v c d =
     and_then (job_by_id d i) (\<lambda>job.
     let now = generation_instant c in
     and_then (ensure (validate_lease job v now = None) ErrConflict) (\<lambda>_.
     and_then (ensure (\<not> removed_repost job) ErrConflict) (\<lambda>_.
     let expiry = now + lease_duration in
     if \<not> expiry > the (jLeaseExpiresAt job) then Inr (d, the (jLeaseExpiresAt job))
     else
       let after = job\<lparr>jLeaseExpiresAt := Some expiry\<rparr> in
       and_then (ensure (validate_transition job after v now None = None) ErrConflict) (\<lambda>_.
       and_then (update_jobs d (\<lambda>j. jID j = i \<and> jLeaseVersion j = v \<and> jStatus j = JobRunning \<and>
                                    jLeaseExpiresAt j = jLeaseExpiresAt job)
                   (\<lambda>j. j\<lparr>jLeaseExpiresAt := Some expiry\<rparr>)) (\<lambda>d'. Inr (d', expiry))))))"

section \<open>Expiry\<close>

definition cleanup_batch :: nat where "cleanup_batch = 32"

definition active_status :: "GenerationJobStatus \<Rightarrow> bool" where
  "active_status s \<longleftrightarrow> s = JobPending \<or> s = JobRetryWait \<or> s = JobRunning"

definition expire_order :: "GenerationJob \<Rightarrow> time \<times> ID" where
  "expire_order j = (jExpiresAt j, jID j)"

fun expire_ids :: "db \<Rightarrow> time \<Rightarrow> ID list \<Rightarrow> go_error + db \<times> nat" where
  "expire_ids d clock [] = Inr (d, 0)"
| "expire_ids d clock (i # is) =
     and_then (job_by_id d i) (\<lambda>job.
       if clock < jExpiresAt job then expire_ids d clock is
       else and_then (skip_expired d job clock) (\<lambda>d'.
            and_then (expire_ids d' clock is) (\<lambda>(d'', n). Inr (d'', Suc n))))"

definition expire_jobs :: "(ID \<Rightarrow> bool) \<Rightarrow> time \<Rightarrow> time \<Rightarrow> db \<Rightarrow> go_error + db \<times> nat" where
  "expire_jobs locked c1 c2 d =
     (let cutoff = generation_instant c1;
          due = filter (\<lambda>j. active_status (jStatus j) \<and> jExpiresAt j \<le> cutoff \<and> \<not> locked (jID j)) (jobs d)
      in expire_ids d (generation_instant c2) (map jID (take cleanup_batch (sort_key expire_order due))))"

section \<open>Denial and completion\<close>

definition deny_generation :: "ID \<Rightarrow> int \<Rightarrow> GenerationDenial \<Rightarrow> time \<Rightarrow> db \<Rightarrow> go_error + db \<times> GenerationJobStatus" where
  "deny_generation i v denial c d =
     (case terminal_status denial of None \<Rightarrow> Inl ErrConflict | Some status \<Rightarrow>
      and_then (job_by_id d i) (\<lambda>job.
      and_then (ensure (\<not> (v < 1 \<or> jLeaseVersion job \<noteq> v)) ErrConflict) (\<lambda>_.
      if jStatus job \<noteq> JobRunning then
        if jStatus job = status \<and> jReasonCode job = denial_code denial \<or>
           jStatus job = JobSkipped \<and> jReasonCode job = ''stale_trigger'' \<or>
           jStatus job = JobCancelled \<and> jReasonCode job = ''source_removed''
        then Inr (d, jStatus job) else Inl ErrConflict
      else
        let now = generation_instant c in
        if \<not> now < jExpiresAt job then and_then (skip_expired d job now) (\<lambda>d'. Inr (d', JobSkipped))
        else if removed_repost job
        then and_then (cancel_removed d job v now ErrConflict) (\<lambda>d'. Inr (d', JobCancelled))
        else and_then (finish_job d job status (denial_code denial) now now) (\<lambda>d'. Inr (d', status)))))"

text \<open>
  What \<open>completeGeneration\<close> decides from the attempts of a running job under a live lease: the status
  to take with its reason and availability, or to stay running.
\<close>

definition completion_outcome ::
  "GenerationJob \<Rightarrow> GenerationAttempt list \<Rightarrow> int \<Rightarrow> time \<Rightarrow> duration
   \<Rightarrow> (GenerationJobStatus \<times> string \<times> time) option" where
  "completion_outcome job ts v now jitter =
     (let attempt = last ts in
      if aStatus attempt = AttemptSucceeded then
        (if aDecision attempt = GenerationSkip then Some (JobSkipped, aSkipReason attempt, now)
         else if aDecision attempt = GenerationPublish \<and> aLeaseVersion attempt = v then None
         else Some (JobFailed, ''outcome_unavailable'', now))
      else
        let failure = (if aStatus attempt = AttemptUnknown \<and> aErrorCode attempt = ''lease_lost''
                       then GenerationTimeout else failure_of (aErrorCode attempt))
        in if \<not> failure_valid failure then Some (JobFailed, ''outcome_unavailable'', now)
           else
             let invalid = int (length (filter (\<lambda>t. aErrorCode t = failure_code GenerationInvalidOutput) ts));
                 hint = (case aNotBefore attempt of None \<Rightarrow> 0 | Some n \<Rightarrow> n)
             in (case next_retry now (jExpiresAt job) (int (length ts)) invalid failure hint jitter of
                   Some next \<Rightarrow> Some (JobRetryWait, aErrorCode attempt, next)
                 | None \<Rightarrow>
                     if failure = GenerationCancelled then Some (JobCancelled, aErrorCode attempt, now)
                     else if failure = GenerationUnsafeOutput \<or> failure = GenerationRepeatedOutput
                     then Some (JobSkipped, aErrorCode attempt, now)
                     else Some (JobFailed, aErrorCode attempt, now)))"

definition invalid_generation :: "string \<Rightarrow> go_error" where
  "invalid_generation field = ValidationError [(field, ''Invalid generation configuration or record'')]"

definition complete_generation ::
  "ID \<Rightarrow> int \<Rightarrow> ID \<Rightarrow> duration \<Rightarrow> time \<Rightarrow> db \<Rightarrow> go_error + db \<times> GenerationJobStatus" where
  "complete_generation i v attempt_id jitter c d =
     (if jitter < 0 \<or> jitter > MaxGenerationRetryJitter then Inl (invalid_generation ''jitter'')
      else
      and_then (job_by_id d i) (\<lambda>job.
      and_then (execution_attempts d i) (\<lambda>ts.
      and_then (ensure (\<not> (ts = [] \<or> int (length ts) > MaxGenerationAttempts \<or> jLeaseVersion job \<noteq> v \<or> v < 1)) ErrConflict) (\<lambda>_.
      let attempt = last ts in
      and_then (ensure (\<not> (aID attempt \<noteq> attempt_id \<or> aLeaseVersion attempt > v \<or> aStatus attempt = AttemptReserved)) ErrConflict) (\<lambda>_.
      if jStatus job \<noteq> JobRunning then
        (if jStatus job = JobPending then Inl ErrConflict else Inr (d, jStatus job))
      else
        let now = generation_instant c in
        if \<not> now < jExpiresAt job then and_then (skip_expired d job now) (\<lambda>d'. Inr (d', JobSkipped))
        else if removed_repost job
        then and_then (cancel_removed d job v now ErrConflict) (\<lambda>d'. Inr (d', JobCancelled))
        else if validate_lease job v now \<noteq> None \<or> now < the (aFinishedAt attempt) then Inl ErrConflict
        else if aLeaseVersion attempt < v \<and> jAvailableAt job > the (aFinishedAt attempt) then Inr (d, JobRunning)
        else
          (case completion_outcome job ts v now jitter of
             None \<Rightarrow> Inr (d, JobRunning)
           | Some (status, reason, available) \<Rightarrow>
               and_then (finish_job d job status reason now available) (\<lambda>d'. Inr (d', status))))))))"

section \<open>What a store operation does to the rows\<close>

definition rows_ok :: "db \<Rightarrow> bool" where
  "rows_ok d \<longleftrightarrow> distinct (map jID (jobs d)) \<and> distinct (map aID (attempts d))"

definition replace_job :: "GenerationJob \<Rightarrow> db \<Rightarrow> db" where
  "replace_job a d = d\<lparr>jobs := map (\<lambda>j. if jID j = jID a then a else j) (jobs d)\<rparr>"

definition replace_attempt :: "GenerationAttempt \<Rightarrow> db \<Rightarrow> db" where
  "replace_attempt a d = d\<lparr>attempts := map (\<lambda>t. if aID t = aID a then a else t) (attempts d)\<rparr>"

lemma find_key:
  assumes "distinct (map k xs)"
  shows "find (\<lambda>x. k x = i) xs = Some x \<longleftrightarrow> x \<in> set xs \<and> k x = i"
  using assms
proof (induction xs)
  case (Cons y ys)
  then show ?case by (auto intro: rev_image_eqI)
qed simp

lemma filter_key_single:
  assumes "distinct (map k xs)" "x \<in> set xs" "\<And>y. p y \<Longrightarrow> k y = k x"
  shows "length (filter p xs) = (if p x then 1 else 0)"
  using assms
proof (induction xs)
  case (Cons y ys)
  show ?case
  proof (cases "y = x")
    case True
    then have "filter p ys = []" using Cons.prems by (auto simp: filter_empty_conv intro: rev_image_eqI)
    with True show ?thesis by simp
  next
    case False
    then have "k y \<noteq> k x" using Cons.prems(1,2) by (auto intro: rev_image_eqI)
    then have "\<not> p y" using Cons.prems(3) by blast
    with Cons False show ?thesis by simp
  qed
qed simp

lemma map_replace_key:
  assumes "distinct (map k xs)" "x \<in> set xs" "p x" "\<And>y. p y \<Longrightarrow> k y = k x"
  shows "map (\<lambda>y. if p y then f y else y) xs = map (\<lambda>y. if k y = k x then f x else y) xs"
proof (rule map_cong [OF refl])
  fix y assume y: "y \<in> set xs"
  have "inj_on k (set xs)" using assms(1) by (simp only: distinct_map)
  then have e: "k y = k x \<Longrightarrow> y = x" using inj_onD [of k "set xs" y x] y assms(2) by blast
  show "(if p y then f y else y) = (if k y = k x then f x else y)"
  proof (cases "k y = k x")
    case True
    with e have "y = x" .
    with assms(3) show ?thesis by simp
  next
    case False
    with assms(4) have "\<not> p y" by blast
    with False show ?thesis by simp
  qed
qed

lemma job_row_iff: "rows_ok d \<Longrightarrow> job_row d i = Some j \<longleftrightarrow> j \<in> set (jobs d) \<and> jID j = i"
  by (simp add: rows_ok_def job_row_def find_key)

lemma attempt_row_iff: "rows_ok d \<Longrightarrow> attempt_row d i = Some t \<longleftrightarrow> t \<in> set (attempts d) \<and> aID t = i"
  by (simp add: rows_ok_def attempt_row_def find_key)

lemma job_by_id_Inr:
  "rows_ok d \<Longrightarrow> job_by_id d i = Inr j \<Longrightarrow> j \<in> set (jobs d) \<and> jID j = i \<and> validate_job j = None"
  by (auto simp: job_by_id_def job_row_iff split: option.splits if_splits)

lemma attempt_by_id_Inr:
  "rows_ok d \<Longrightarrow> attempt_by_id d i = Inr t \<Longrightarrow> t \<in> set (attempts d) \<and> aID t = i \<and> validate_attempt t = None"
  by (auto simp: attempt_by_id_def attempt_row_iff split: option.splits if_splits)

lemma update_jobs_replace:
  assumes "rows_ok d" "j \<in> set (jobs d)" "\<And>x. p x \<Longrightarrow> jID x = jID j" "jID (f j) = jID j"
  shows "update_jobs d p f = (if p j then Inr (replace_job (f j) d) else Inl ErrUnavailable)"
proof -
  have d: "distinct (map jID (jobs d))" using assms(1) by (simp add: rows_ok_def)
  have l: "length (filter p (jobs d)) = (if p j then 1 else 0)"
    by (rule filter_key_single [OF d assms(2,3)])
  show ?thesis
  proof (cases "p j")
    case True
    have "map (\<lambda>x. if p x then f x else x) (jobs d) = map (\<lambda>x. if jID x = jID j then f j else x) (jobs d)"
      by (rule map_replace_key [of jID "jobs d" j p f, OF d assms(2) True assms(3)])
    with True l assms(4) show ?thesis by (simp only: update_jobs_def replace_job_def if_True refl)
  next
    case False
    with l show ?thesis by (simp add: update_jobs_def)
  qed
qed

lemma update_attempts_replace:
  assumes "rows_ok d" "t \<in> set (attempts d)" "\<And>x. p x \<Longrightarrow> aID x = aID t" "aID (f t) = aID t"
  shows "update_attempts d p f = (if p t then Inr (replace_attempt (f t) d) else Inl ErrUnavailable)"
proof -
  have d: "distinct (map aID (attempts d))" using assms(1) by (simp add: rows_ok_def)
  have l: "length (filter p (attempts d)) = (if p t then 1 else 0)"
    by (rule filter_key_single [OF d assms(2,3)])
  show ?thesis
  proof (cases "p t")
    case True
    have "map (\<lambda>x. if p x then f x else x) (attempts d) = map (\<lambda>x. if aID x = aID t then f t else x) (attempts d)"
      by (rule map_replace_key [of aID "attempts d" t p f, OF d assms(2) True assms(3)])
    with True l assms(4) show ?thesis by (simp only: update_attempts_def replace_attempt_def if_True refl)
  next
    case False
    with l show ?thesis by (simp add: update_attempts_def)
  qed
qed

text \<open>The identifiers are never touched by the updates of this theory.\<close>

lemma replace_job_ids [simp]: "map jID (jobs (replace_job a d)) = map jID (jobs d)"
  by (induction "jobs d") (auto simp: replace_job_def)

lemma replace_job_attempts [simp]: "attempts (replace_job a d) = attempts d"
  by (simp add: replace_job_def)

lemma replace_job_rows_ok [simp]: "rows_ok (replace_job a d) = rows_ok d"
  by (simp add: rows_ok_def)

lemma find_replace:
  "find (\<lambda>x. k x = i) (map (\<lambda>x. if k x = k a then a else x) xs)
     = (if k a = i \<and> find (\<lambda>x. k x = i) xs \<noteq> None then Some a else find (\<lambda>x. k x = i) xs)"
  by (induction xs) auto

lemma job_row_replace:
  "job_row (replace_job a d) i = (if jID a = i \<and> job_row d i \<noteq> None then Some a else job_row d i)"
  by (simp add: job_row_def replace_job_def find_replace)

text \<open>The step of the whole database that one accepted change of one job makes.\<close>

definition job_change :: "db \<Rightarrow> db \<Rightarrow> bool" where
  "job_change d d' \<longleftrightarrow> (\<exists>b a. b \<in> set (jobs d) \<and> moves b a \<and> d' = replace_job a d)"

lemma moves_id: "moves b a \<Longrightarrow> jID a = jID b"
  using moves_facts(1) [of b a] by (simp add: same_identity_def)

lemma job_changeI: "b \<in> set (jobs d) \<Longrightarrow> validate_transition b a v now att = None \<Longrightarrow> job_change d (replace_job a d)"
  unfolding job_change_def moves_def by blast

lemma job_changeI': "b \<in> set (jobs d) \<Longrightarrow> validate_invalidation b a v now = None \<Longrightarrow> job_change d (replace_job a d)"
  unfolding job_change_def moves_def by blast

lemma skip_expired_change:
  assumes "skip_expired d j now = Inr d'" "rows_ok d" "j \<in> set (jobs d)"
  shows "d' = replace_job (close_job JobSkipped ''stale_trigger'' now j) d \<and> job_change d d'"
proof -
  let ?a = "close_job JobSkipped ''stale_trigger'' now j"
  have t: "validate_transition j ?a (jLeaseVersion j) now None = None"
    using assms(1) by (auto simp: skip_expired_def Let_def)
  have "update_jobs d (\<lambda>x. fenced j x \<and> jExpiresAt x \<le> now) (close_job JobSkipped ''stale_trigger'' now) = Inr d'"
    using assms(1) by (auto simp: skip_expired_def Let_def)
  then have "d' = replace_job ?a d"
    using assms(2,3) by (subst (asm) update_jobs_replace [of d j]) (auto simp: fenced_def close_job_def split: if_splits)
  with job_changeI [OF assms(3) t] show ?thesis by simp
qed

lemma cancel_removed_change:
  assumes "cancel_removed d j v now e = Inr d'" "rows_ok d" "j \<in> set (jobs d)"
  shows "d' = replace_job (close_job JobCancelled ''source_removed'' now j) d \<and> job_change d d'"
proof -
  let ?a = "close_job JobCancelled ''source_removed'' now j"
  have t: "validate_invalidation j ?a v now = None"
    using assms(1) by (auto simp: cancel_removed_def Let_def)
  have "update_jobs d (\<lambda>x. fenced j x \<and> jSourceRepostID x = None) (close_job JobCancelled ''source_removed'' now) = Inr d'"
    using assms(1) by (auto simp: cancel_removed_def Let_def)
  then have "d' = replace_job ?a d"
    using assms(2,3) by (subst (asm) update_jobs_replace [of d j]) (auto simp: fenced_def close_job_def split: if_splits)
  with job_changeI' [OF assms(3) t] show ?thesis by simp
qed

definition finished_as :: "GenerationJobStatus \<Rightarrow> string \<Rightarrow> time \<Rightarrow> time \<Rightarrow> GenerationJob \<Rightarrow> GenerationJob" where
  "finished_as s r now available j =
     (if s = JobRetryWait
      then j\<lparr>jStatus := s, jReasonCode := r, jLeaseExpiresAt := None, jAvailableAt := available, jFinishedAt := None\<rparr>
      else close_job s r now j)"

lemma finish_job_change:
  assumes "finish_job d j s r now available = Inr d'" "rows_ok d" "j \<in> set (jobs d)"
  shows "d' = replace_job (finished_as s r now available j) d \<and> job_change d d' \<and>
    jStatus j = JobRunning \<and> validate_lease j (jLeaseVersion j) now = None"
proof -
  let ?a = "finished_as s r now available j"
  have a: "?a = (if s = JobRetryWait
      then j\<lparr>jStatus := s, jReasonCode := r, jLeaseExpiresAt := None, jAvailableAt := available, jFinishedAt := None\<rparr>
      else j\<lparr>jStatus := s, jReasonCode := r, jLeaseExpiresAt := None, jFinishedAt := Some now\<rparr>)"
    by (simp add: finished_as_def close_job_def)
  have t: "validate_transition j ?a (jLeaseVersion j) now None = None"
    and g: "jStatus j = JobRunning" "validate_lease j (jLeaseVersion j) now = None"
    using assms(1) unfolding a by (auto simp: finish_job_def Let_def)
  let ?after = "if s = JobRetryWait then j\<lparr>jStatus := s, jReasonCode := r, jLeaseExpiresAt := None, jAvailableAt := available, jFinishedAt := None\<rparr>
      else j\<lparr>jStatus := s, jReasonCode := r, jLeaseExpiresAt := None, jFinishedAt := Some now\<rparr>"
  let ?f = "\<lambda>x. x\<lparr>jStatus := s, jReasonCode := r, jLeaseExpiresAt := None,
                      jAvailableAt := jAvailableAt ?after, jFinishedAt := jFinishedAt ?after\<rparr>"
  have u: "update_jobs d (fenced j) ?f = Inr d'"
    using assms(1) by (auto simp: finish_job_def Let_def)
  have "?f j = ?a" unfolding a by simp
  moreover have "update_jobs d (fenced j) ?f = (if fenced j j then Inr (replace_job (?f j) d) else Inl ErrUnavailable)"
    by (rule update_jobs_replace [OF assms(2,3)]) (simp_all add: fenced_def)
  ultimately have "d' = replace_job ?a d" using u by (simp only: fenced_def) simp
  with g job_changeI [OF assms(3) t] show ?thesis by simp
qed

section \<open>Every operation moves jobs along the lifecycle\<close>

abbreviation job_changes :: "db \<Rightarrow> db \<Rightarrow> bool" where
  "job_changes \<equiv> job_change\<^sup>*\<^sup>*"

lemma job_change_rows_ok: "job_change d d' \<Longrightarrow> rows_ok d' = rows_ok d"
  by (auto simp: job_change_def)

lemma job_changes_rows_ok: "job_changes d d' \<Longrightarrow> rows_ok d' = rows_ok d"
  by (induction rule: rtranclp_induct) (auto dest: job_change_rows_ok)

lemma job_changes_tables: "job_changes d d' \<Longrightarrow> \<exists>js. d' = d\<lparr>jobs := js\<rparr>"
  by (induction rule: rtranclp_induct) (auto simp: job_change_def replace_job_def intro: exI [of _ "jobs d"])

text \<open>The row of each job moves along \<open>moves_on\<close>, and no row appears or disappears.\<close>

lemma job_change_row:
  assumes "job_change d d'" "rows_ok d"
  shows "(job_row d i = None \<longleftrightarrow> job_row d' i = None) \<and>
    (\<forall>j. job_row d i = Some j \<longrightarrow> (\<exists>j'. job_row d' i = Some j' \<and> moves_on j j'))"
proof -
  from assms(1) obtain b a where b: "b \<in> set (jobs d)" and m: "moves b a" and d': "d' = replace_job a d"
    by (auto simp: job_change_def)
  have i: "jID a = jID b" using m by (rule moves_id)
  have r: "job_row d (jID b) = Some b" using b assms(2) by (simp add: job_row_iff)
  show ?thesis
  proof (cases "jID a = i")
    case True
    with r i have "job_row d i = Some b" by simp
    with True m d' show ?thesis by (auto simp: job_row_replace)
  next
    case False
    then have "job_row d' i = job_row d i" by (simp add: d' job_row_replace)
    then show ?thesis by simp
  qed
qed

lemma job_changes_row:
  assumes "job_changes d d'" "rows_ok d"
  shows "(job_row d i = None \<longleftrightarrow> job_row d' i = None) \<and>
    (\<forall>j. job_row d i = Some j \<longrightarrow> (\<exists>j'. job_row d' i = Some j' \<and> moves_on j j'))"
  using assms(1)
proof (induction rule: rtranclp_induct)
  case (step e f)
  have "rows_ok e" using job_changes_rows_ok [OF step.hyps(1)] assms(2) by simp
  from job_change_row [OF step.hyps(2) this, of i] step.IH
  show ?case by (meson rtranclp_trans)
qed simp

lemma claim_generation_cases:
  assumes "claim_generation locked c1 c2 d = Inr (d', r)" "rows_ok d"
  shows "r = None \<and> job_changes d d' \<or>
    (\<exists>b. b \<in> set (jobs d) \<and> claimable (generation_instant c1) b \<and> \<not> locked (jID b) \<and>
      (\<forall>j \<in> set (jobs d). claimable (generation_instant c1) j \<and> \<not> locked (jID j) \<longrightarrow> claim_order b \<le> claim_order j) \<and>
      r = Some (b\<lparr>jStatus := JobRunning, jLeaseVersion := jLeaseVersion b + 1,
                  jLeaseExpiresAt := Some (generation_instant c2 + lease_duration), jReasonCode := []\<rparr>) \<and>
      d' = replace_job (the r) d \<and> job_change d d')"
proof -
  let ?due = "sort_key claim_order (filter (\<lambda>j. claimable (generation_instant c1) j \<and> \<not> locked (jID j)) (jobs d))"
  let ?now = "generation_instant c2"
  show ?thesis
  proof (cases ?due)
    case Nil
    with assms(1) show ?thesis by (simp add: claim_generation_def)
  next
    case (Cons c cs)
    have "c \<in> set ?due" using Cons by simp
    then have c: "c \<in> set (jobs d)" "claimable (generation_instant c1) c" "\<not> locked (jID c)" by auto
    have "sorted (map claim_order ?due)" by (rule sorted_sort_key)
    then have "\<forall>j \<in> set ?due. claim_order c \<le> claim_order j" using Cons by auto
    then have least: "\<forall>j \<in> set (jobs d). claimable (generation_instant c1) j \<and> \<not> locked (jID j) \<longrightarrow> claim_order c \<le> claim_order j"
      by simp
    from assms(1) Cons obtain b where b: "job_by_id d (jID c) = Inr b"
      by (auto simp: claim_generation_def)
    have "b \<in> set (jobs d)" "jID b = jID c" using job_by_id_Inr [OF assms(2) b] by auto
    with c(1) assms(2) have [simp]: "b = c"
      using job_row_iff [OF assms(2)] by (metis option.inject)
    consider (expired) "\<not> ?now < jExpiresAt c" | (removed) "?now < jExpiresAt c" "removed_repost c"
      | (claim) "?now < jExpiresAt c" "\<not> removed_repost c" by blast
    then show ?thesis
    proof cases
      case expired
      then have "skip_expired d c ?now = Inr d'" "r = None"
        using assms(1) Cons b by (auto simp: claim_generation_def)
      with skip_expired_change [OF _ assms(2) c(1)] show ?thesis by blast
    next
      case removed
      then have "cancel_removed d c (jLeaseVersion c) ?now ErrUnavailable = Inr d'" "r = None"
        using assms(1) Cons b by (auto simp: claim_generation_def)
      with cancel_removed_change [OF _ assms(2) c(1)] show ?thesis by blast
    next
      case claim
      let ?set = "\<lambda>j. j\<lparr>jStatus := JobRunning, jLeaseVersion := jLeaseVersion c + 1,
                          jLeaseExpiresAt := Some (?now + lease_duration), jReasonCode := []\<rparr>"
      have u: "update_jobs d (fenced c) ?set = Inr d'" "r = Some (?set c)"
        and t: "validate_transition c (?set c) (jLeaseVersion c) ?now None = None"
        using assms(1) Cons b claim by (auto simp: claim_generation_def Let_def split: if_splits)
      have "update_jobs d (fenced c) ?set = (if fenced c c then Inr (replace_job (?set c) d) else Inl ErrUnavailable)"
        by (rule update_jobs_replace [OF assms(2) c(1)]) (simp_all add: fenced_def)
      then have d': "d' = replace_job (?set c) d" using u by (simp add: fenced_def)
      have "job_change d d'" unfolding d' by (rule job_changeI [OF c(1) t])
      with c least u(2) d' show ?thesis by (intro disjI2 exI [of _ c]) simp
    qed
  qed
qed

lemma job_changeD: "job_change d d' \<Longrightarrow> job_changes d d'"
  by (rule r_into_rtranclp)

lemma renew_generation_changes:
  assumes "renew_generation i v c d = Inr (d', e)" "rows_ok d"
  shows "job_changes d d'"
proof -
  let ?now = "generation_instant c"
  let ?exp = "?now + lease_duration"
  from assms(1) obtain j where j: "job_by_id d i = Inr j" and l: "validate_lease j v ?now = None"
    by (auto simp: renew_generation_def Let_def)
  have jd: "j \<in> set (jobs d)" "jID j = i" using job_by_id_Inr [OF assms(2) j] by auto
  show ?thesis
  proof (cases "?exp > the (jLeaseExpiresAt j)")
    case False
    with assms(1) j show ?thesis by (auto simp: renew_generation_def Let_def)
  next
    case True
    let ?p = "\<lambda>x. jID x = i \<and> jLeaseVersion x = v \<and> jStatus x = JobRunning \<and> jLeaseExpiresAt x = jLeaseExpiresAt j"
    let ?f = "\<lambda>x. x\<lparr>jLeaseExpiresAt := Some ?exp\<rparr>"
    have u: "update_jobs d ?p ?f = Inr d'" and t: "validate_transition j (?f j) v ?now None = None"
      using assms(1) j True by (auto simp: renew_generation_def Let_def)
    have "update_jobs d ?p ?f = (if ?p j then Inr (replace_job (?f j) d) else Inl ErrUnavailable)"
      by (rule update_jobs_replace [OF assms(2) jd(1)]) (simp_all add: jd(2))
    then have "d' = replace_job (?f j) d" using u by (simp split: if_splits)
    with job_changeI [OF jd(1) t] show ?thesis by (simp add: job_changeD)
  qed
qed

lemma skip_expired_changes:
  "skip_expired d j now = Inr d' \<Longrightarrow> rows_ok d \<Longrightarrow> j \<in> set (jobs d) \<Longrightarrow> job_changes d d'"
  using skip_expired_change job_changeD by blast

lemma cancel_removed_changes:
  "cancel_removed d j v now e = Inr d' \<Longrightarrow> rows_ok d \<Longrightarrow> j \<in> set (jobs d) \<Longrightarrow> job_changes d d'"
  using cancel_removed_change job_changeD by blast

lemma finish_job_changes:
  "finish_job d j s r now av = Inr d' \<Longrightarrow> rows_ok d \<Longrightarrow> j \<in> set (jobs d) \<Longrightarrow> job_changes d d'"
  using finish_job_change job_changeD by blast

lemmas closing_changes = skip_expired_changes cancel_removed_changes finish_job_changes

lemma expire_ids_changes:
  "expire_ids d clock is = Inr (d', n) \<Longrightarrow> rows_ok d \<Longrightarrow> job_changes d d'"
proof (induction d clock "is" arbitrary: d' n rule: expire_ids.induct)
  case (2 d clock i "is")
  from "2.prems"(1) obtain job where j: "job_by_id d i = Inr job" by auto
  have jd: "job \<in> set (jobs d)" using job_by_id_Inr [OF "2.prems"(2) j] by simp
  show ?case
  proof (cases "clock < jExpiresAt job")
    case True
    with "2.IH"(1) [OF True] "2.prems" j show ?thesis by simp
  next
    case False
    with "2.prems"(1) j obtain e m where e: "skip_expired d job clock = Inr e" "expire_ids e clock is = Inr (d', m)"
      by auto
    have c: "job_changes d e" using skip_expired_changes [OF e(1) "2.prems"(2) jd] .
    have "rows_ok e" using job_changes_rows_ok [OF c] "2.prems"(2) by simp
    with "2.IH"(2) [OF False, of e d' m] e(2) c show ?thesis by simp
  qed
qed simp

lemma expire_jobs_changes:
  "expire_jobs locked c1 c2 d = Inr (d', n) \<Longrightarrow> rows_ok d \<Longrightarrow> job_changes d d'"
  by (simp add: expire_jobs_def Let_def expire_ids_changes)

lemma deny_generation_changes:
  assumes "deny_generation i v denial c d = Inr (d', s)" "rows_ok d"
  shows "job_changes d d'"
proof -
  from assms(1) obtain st j where j: "job_by_id d i = Inr j" and st: "terminal_status denial = Some st"
    by (auto simp: deny_generation_def split: option.splits)
  have jd: "j \<in> set (jobs d)" using job_by_id_Inr [OF assms(2) j] by simp
  show ?thesis
    using assms(1) j st closing_changes [OF _ assms(2) jd]
    by (auto simp: deny_generation_def Let_def split: if_splits)
qed

lemma complete_generation_changes:
  assumes "complete_generation i v att jitter c d = Inr (d', s)" "rows_ok d"
  shows "job_changes d d'"
proof -
  from assms(1) obtain j ts where j: "job_by_id d i = Inr j" and ts: "execution_attempts d i = Inr ts"
    by (auto simp: complete_generation_def split: if_splits)
  have jd: "j \<in> set (jobs d)" using job_by_id_Inr [OF assms(2) j] by simp
  show ?thesis
    using assms(1) j ts closing_changes [OF _ assms(2) jd]
    by (auto simp: complete_generation_def Let_def split: if_splits option.splits prod.splits)
qed

end
