(* ===== verification/Schedule.thy ===== *)
theory Schedule
  imports Policy
begin

text \<open>
  The daily schedule of original posts: \<open>internal/app/generation_schedule.go\<close>.  The bounded draw
  (\<open>rand.Int64N\<close>) is the argument \<open>draw\<close>; a sequence of draws is read from a stream of functions,
  so that two calls with the same bound may answer differently.  The settings are updated in place
  in the code and returned here.
\<close>

section \<open>Draws\<close>

text \<open>
  One call of the draw function: the bound, the answer of this call, and the error of a bound or an
  answer out of range.  The remaining calls are the tail of the list of answers; a nil draw function
  is the empty list.
\<close>

type_synonym draws = "(int \<Rightarrow> int) list"

definition generation_draw :: "draws \<Rightarrow> int \<Rightarrow> go_error + int \<times> draws" where
  "generation_draw ds n =
     (if n = 1 then Inr (0, ds)
      else if n < 1 \<or> ds = [] then Inl (Errorf ''schedule requires a bounded random draw'')
      else let v = hd ds n in
           if v < 0 \<or> v \<ge> n then Inl (Errorf ''random draw is outside its bound'')
           else Inr (v, tl ds))"

section \<open>Windows and slots\<close>

record ScheduledSlot =
  slotAt :: time
  slotExpiresAt :: time

definition generation_window :: "string \<Rightarrow> GenerationPolicy \<Rightarrow> location \<Rightarrow> time \<times> time" where
  "generation_window date p loc =
     (generation_boundary date (pActiveStart p) loc, generation_boundary date (pActiveEnd p) loc)"

definition spacing :: "AgentSettings \<Rightarrow> duration" where
  "spacing s = pMinSpacingSeconds (sPolicy s) * second"

text \<open>\<open>sampleGenerationSlot\<close>; Go's integer division truncates toward zero.\<close>

definition quot :: "int \<Rightarrow> int \<Rightarrow> int" where
  "quot a b = sgn a * sgn b * (\<bar>a\<bar> div \<bar>b\<bar>)"

definition sample_slot :: "draws \<Rightarrow> AgentSettings \<Rightarrow> time \<Rightarrow> time \<Rightarrow> go_error + AgentSettings \<times> draws" where
  "sample_slot ds s0 lower end =
     (let s1 = s0\<lparr>sNextPostAt := None\<rparr>;
          s2 = (if \<not> lower < end then s1\<lparr>sRemainingSlots := 0\<rparr> else s1)
      in if sRemainingSlots s2 = 0 then Inr (s2, ds)
         else let capacity = quot (end - lower - microsecond) (spacing s2) + 1;
                  s3 = s2\<lparr>sRemainingSlots := min (sRemainingSlots s2) capacity\<rparr>;
                  latest = end - (sRemainingSlots s3 - 1) * spacing s3
              in case generation_draw ds (quot (latest - lower) microsecond) of
                   Inl e \<Rightarrow> Inl e
                 | Inr (offset, ds') \<Rightarrow> Inr (s3\<lparr>sNextPostAt := Some (lower + offset * microsecond)\<rparr>, ds'))"

section \<open>Advancing the schedule\<close>

text \<open>
  The loop over elapsed slots.  Each round uses up one of the remaining slots, so as many rounds of
  fuel as there are remaining slots are enough (\<open>advance_loop_fuel\<close> below); \<open>None\<close> is running out.
\<close>

fun advance_loop ::
  "nat \<Rightarrow> draws \<Rightarrow> time \<Rightarrow> time \<Rightarrow> time \<Rightarrow> time \<Rightarrow> AgentSettings \<Rightarrow> ScheduledSlot option
   \<Rightarrow> (go_error + AgentSettings \<times> ScheduledSlot option \<times> draws) option" where
  "advance_loop fuel ds now start end lower s due =
     (case sNextPostAt s of
        None \<Rightarrow> Some (Inr (s, due, ds))
      | Some next \<Rightarrow>
          if next > now then Some (Inr (s, due, ds))
          else case fuel of
            0 \<Rightarrow> None
          | Suc fuel' \<Rightarrow>
            let at = generation_instant next;
                expires = at + pSourceMaxAgeSeconds (sPolicy s) * second;
                due' = (if \<not> at < lower \<and> \<not> now < start \<and> now < end \<and> now < expires
                        then Some \<lparr>slotAt = at, slotExpiresAt = expires\<rparr> else due)
            in case sample_slot ds (s\<lparr>sRemainingSlots := sRemainingSlots s - 1\<rparr>) (at + spacing s) end of
                 Inl e \<Rightarrow> Some (Inl e)
               | Inr (s', ds') \<Rightarrow> advance_loop fuel' ds' now start end lower s' due')"

declare advance_loop.simps [simp del]

definition schedule_lower :: "AgentSettings \<Rightarrow> time \<Rightarrow> time" where
  "schedule_lower s start =
     (case sLastPublishedAt s of None \<Rightarrow> start
      | Some t \<Rightarrow> later start (generation_instant t + spacing s))"

text \<open>Sampling the day: the persisted sample, or a fresh one when the stored date is another day.\<close>

definition sample_day ::
  "draws \<Rightarrow> AgentSettings \<Rightarrow> string \<Rightarrow> time \<Rightarrow> time \<Rightarrow> go_error + AgentSettings \<times> draws" where
  "sample_day ds s date lower end =
     (if sScheduleDate s \<noteq> date then
        (case generation_draw ds (pScheduledMaxPerDay (sPolicy s) - pScheduledMinPerDay (sPolicy s) + 1) of
           Inl e \<Rightarrow> Inl e
         | Inr (count, ds1) \<Rightarrow>
             sample_slot ds1 (s\<lparr>sScheduleDate := date,
               sRemainingSlots := pScheduledMinPerDay (sPolicy s) + count, sNextPostAt := None\<rparr>) lower end)
      else if sRemainingSlots s > 0 \<and> sNextPostAt s = None
      then Inl (Errorf ''sampled schedule is missing its next slot'')
      else Inr (s, ds))"

text \<open>The coalescing step and the final update of the inspection time.\<close>

definition coalesce ::
  "draws \<Rightarrow> AgentSettings \<Rightarrow> time \<Rightarrow> time \<Rightarrow> ScheduledSlot option \<Rightarrow> go_error + AgentSettings" where
  "coalesce ds s now end due =
     (if due \<noteq> None \<and> (case sNextPostAt s of None \<Rightarrow> False | Some n \<Rightarrow> n < now + spacing s)
      then (case sample_slot ds s (now + spacing s) end of
              Inl e \<Rightarrow> Inl e | Inr (s', _) \<Rightarrow> Inr (s'\<lparr>sUpdatedAt := now\<rparr>))
      else Inr (s\<lparr>sUpdatedAt := now\<rparr>))"

text \<open>"RemainingSlots bounds this loop to at most 100": the rounds allowed to the loop.\<close>

definition slot_rounds :: nat where "slot_rounds = 100"

definition advance_schedule ::
  "timezones \<Rightarrow> draws \<Rightarrow> AgentSettings \<Rightarrow> time
   \<Rightarrow> (go_error + AgentSettings \<times> ScheduledSlot option) option" where
  "advance_schedule tz ds s now0 =
     (case validate_settings tz s of Some e \<Rightarrow> Some (Inl e) | None \<Rightarrow>
      if now0 = 0 then Some (Inl (Errorf ''schedule requires an explicit time''))
      else if \<not> sEnabled s then Some (Inr (s, None))
      else
        let now = generation_instant now0;
            loc = policy_location tz (sPolicy s);
            date = local_date loc now
        in if sScheduleDate s > date then Some (Inr (s, None))
           else
             let (start, end) = generation_window date (sPolicy s) loc;
                 lower = schedule_lower s start
             in case sample_day ds s date (later lower now) end of
                  Inl e \<Rightarrow> Some (Inl e)
                | Inr (s1, ds1) \<Rightarrow>
                  case advance_loop slot_rounds ds1 now start end lower s1 None of
                    None \<Rightarrow> None
                  | Some (Inl e) \<Rightarrow> Some (Inl e)
                  | Some (Inr (s2, due, ds2)) \<Rightarrow>
                    Some (case coalesce ds2 s2 now end due of
                            Inl e \<Rightarrow> Inl e | Inr s3 \<Rightarrow> Inr (s3, due)))"

section \<open>Sampling\<close>

lemma quot_nonneg: "0 \<le> a \<Longrightarrow> 0 < b \<Longrightarrow> quot a b = a div b"
  by (simp add: quot_def sgn_if)

lemma quot_small: "- b < a \<Longrightarrow> a < 0 \<Longrightarrow> quot a b = 0"
  by (simp add: quot_def)

lemma generation_draw_Inr:
  "generation_draw ds n = Inr (v, ds') \<Longrightarrow> 0 \<le> v \<and> v < n"
  by (auto simp: generation_draw_def Let_def split: if_splits)

definition same_agent :: "AgentSettings \<Rightarrow> AgentSettings \<Rightarrow> bool" where
  "same_agent s s' \<longleftrightarrow> s' = s\<lparr>sNextPostAt := sNextPostAt s', sScheduleDate := sScheduleDate s',
     sRemainingSlots := sRemainingSlots s', sUpdatedAt := sUpdatedAt s'\<rparr>"

lemma same_agentI:
  assumes "sAgentID s' = sAgentID s" "sPersonaVersion s' = sPersonaVersion s" "sEnabled s' = sEnabled s"
    "sPauseRevision s' = sPauseRevision s" "sPolicy s' = sPolicy s" "sLastPublishedAt s' = sLastPublishedAt s"
  shows "same_agent s s'"
  unfolding same_agent_def by (rule AgentSettings.equality) (simp_all add: assms)

lemma same_agentD:
  assumes "same_agent s s'"
  shows "sAgentID s' = sAgentID s" "sPersonaVersion s' = sPersonaVersion s" "sEnabled s' = sEnabled s"
    "sPauseRevision s' = sPauseRevision s" "sPolicy s' = sPolicy s" "sLastPublishedAt s' = sLastPublishedAt s"
  using arg_cong [OF assms [unfolded same_agent_def], of sAgentID]
    arg_cong [OF assms [unfolded same_agent_def], of sPersonaVersion]
    arg_cong [OF assms [unfolded same_agent_def], of sEnabled]
    arg_cong [OF assms [unfolded same_agent_def], of sPauseRevision]
    arg_cong [OF assms [unfolded same_agent_def], of sPolicy]
    arg_cong [OF assms [unfolded same_agent_def], of sLastPublishedAt]
  by simp_all

text \<open>
  What a sample leaves: the date is kept, the count never grows, and the next slot lies in
  [lower, end), with no slot exactly when nothing remains.
\<close>

lemma sample_slot_Inr:
  assumes "sample_slot ds s lower end = Inr (s', ds')" "0 \<le> sRemainingSlots s" "0 < spacing s"
  shows "same_agent s s'" "sScheduleDate s' = sScheduleDate s" "sUpdatedAt s' = sUpdatedAt s"
    "0 \<le> sRemainingSlots s'" "sRemainingSlots s' \<le> sRemainingSlots s"
    "sNextPostAt s' = None \<longleftrightarrow> sRemainingSlots s' = 0"
    "sNextPostAt s' = Some n \<Longrightarrow> lower \<le> n \<and> n < end"
proof -
  let ?r = "sRemainingSlots s"
  let ?cap = "quot (end - lower - microsecond) (spacing s) + 1"
  have sp: "spacing (s\<lparr>sNextPostAt := None\<rparr>) = spacing s"
    "spacing (s\<lparr>sNextPostAt := None, sRemainingSlots := x\<rparr>) = spacing s" for x
    by (simp_all add: spacing_def)
  show "same_agent s s'"
    using assms(1) by (intro same_agentI) (auto simp: sample_slot_def Let_def split: if_splits sum.splits prod.splits)
  show d: "sScheduleDate s' = sScheduleDate s" and "sUpdatedAt s' = sUpdatedAt s"
    using assms(1) by (auto simp: sample_slot_def Let_def split: if_splits sum.splits prod.splits)
  consider "lower \<ge> end \<or> ?r = 0" "s' = s\<lparr>sNextPostAt := None, sRemainingSlots := 0\<rparr>"
    | off where "lower < end" "0 < ?r"
        "generation_draw ds (quot (end - (min ?r ?cap - 1) * spacing s - lower) microsecond) = Inr (off, ds')"
        "s' = s\<lparr>sNextPostAt := Some (lower + off * microsecond), sRemainingSlots := min ?r ?cap\<rparr>"
    using assms(1,2) sp
    by (auto simp: sample_slot_def Let_def split: if_splits sum.splits prod.splits)
  then have "0 \<le> sRemainingSlots s' \<and> sRemainingSlots s' \<le> sRemainingSlots s \<and>
    (sNextPostAt s' = None \<longleftrightarrow> sRemainingSlots s' = 0) \<and>
    (\<forall>n. sNextPostAt s' = Some n \<longrightarrow> lower \<le> n \<and> n < end)"
  proof cases
    case 1
    then show ?thesis using assms(2) by auto
  next
    case (2 off)
    have sps: "1000000000 \<le> spacing s" using assms(3) by (simp add: spacing_def zero_less_mult_iff)
    have cap: "1 \<le> ?cap"
    proof (cases "0 \<le> end - lower - microsecond")
      case True
      then show ?thesis using assms(3) by (simp add: quot_nonneg pos_imp_zdiv_nonneg_iff)
    next
      case False
      then show ?thesis using 2(1) sps by (subst quot_small) auto
    qed
    let ?m = "min ?r ?cap"
    have m: "1 \<le> ?m" using cap 2(2) by linarith
    let ?d = "end - (?m - 1) * spacing s - lower"
    have off: "0 \<le> off" "off < quot ?d microsecond" using generation_draw_Inr [OF 2(3)] by auto
    have d0: "0 \<le> ?d"
    proof (rule ccontr)
      assume neg: "\<not> 0 \<le> ?d"
      then have "quot ?d microsecond \<le> 0" by (simp add: quot_def sgn_if)
      with off show False by linarith
    qed
    then have "off + 1 \<le> ?d div 1000" using off(2) by (simp add: quot_nonneg)
    then have "off * 1000 < ?d"
      using div_mult_mod_eq [of ?d 1000] pos_mod_sign [of 1000 ?d] by linarith
    moreover have "0 \<le> (?m - 1) * spacing s" using m assms(3) by simp
    ultimately have "lower + off * microsecond < end" by simp
    then show ?thesis using 2 off m by auto
  qed
  then show "0 \<le> sRemainingSlots s'" "sRemainingSlots s' \<le> sRemainingSlots s"
    "sNextPostAt s' = None \<longleftrightarrow> sRemainingSlots s' = 0"
    "sNextPostAt s' = Some n \<Longrightarrow> lower \<le> n \<and> n < end" by auto
qed


section \<open>The loop over elapsed slots\<close>

definition slots_wf :: "AgentSettings \<Rightarrow> bool" where
  "slots_wf s \<longleftrightarrow> 0 \<le> sRemainingSlots s \<and> 0 < spacing s \<and> (sNextPostAt s \<noteq> None \<longrightarrow> 0 < sRemainingSlots s)"

lemma same_agent_refl [simp]: "same_agent s s"
  by (intro same_agentI) simp_all

lemma same_agent_trans: "same_agent a b \<Longrightarrow> same_agent b c \<Longrightarrow> same_agent a c"
  by (intro same_agentI) (simp_all add: same_agentD)

lemma same_agent_spacing: "same_agent a b \<Longrightarrow> spacing b = spacing a"
  by (simp add: spacing_def same_agentD)

lemma sample_slot_wf:
  assumes "sample_slot ds s lower end = Inr (s', ds')" "0 \<le> sRemainingSlots s" "0 < spacing s"
  shows "slots_wf s'"
  using sample_slot_Inr [OF assms] same_agent_spacing [of s s'] assms(3)
  by (auto simp: slots_wf_def)

text \<open>A slot that may be admitted now: not before the publication spacing, inside the window, fresh.\<close>

definition slot_ok :: "time \<Rightarrow> time \<Rightarrow> time \<Rightarrow> time \<Rightarrow> duration \<Rightarrow> ScheduledSlot \<Rightarrow> bool" where
  "slot_ok now start end lower age slot \<longleftrightarrow>
     lower \<le> slotAt slot \<and> slotAt slot \<le> now \<and> start \<le> now \<and> now < end \<and> now < slotExpiresAt slot \<and>
     slotExpiresAt slot = slotAt slot + age \<and> generation_instant (slotAt slot) = slotAt slot"

lemma advance_loop_returns:
  assumes "slots_wf s" "nat (sRemainingSlots s) \<le> fuel"
  shows "advance_loop fuel ds now start end lower s due \<noteq> None"
  using assms
proof (induction fuel arbitrary: ds s due)
  case 0
  then show ?case by (subst advance_loop.simps) (auto simp: slots_wf_def split: option.splits)
next
  case (Suc fuel)
  show ?case
  proof (cases "sNextPostAt s")
    case None
    then show ?thesis by (subst advance_loop.simps) simp
  next
    case (Some n)
    let ?s1 = "s\<lparr>sRemainingSlots := sRemainingSlots s - 1\<rparr>"
    have r: "0 \<le> sRemainingSlots ?s1" "0 < spacing ?s1" "nat (sRemainingSlots ?s1) \<le> fuel"
      using Suc.prems Some by (auto simp: slots_wf_def spacing_def)
    have "advance_loop fuel ds' now start end lower s' due' \<noteq> None"
      if "sample_slot ds ?s1 x end = Inr (s', ds')" for s' ds' due' x
      using that sample_slot_wf [OF that r(1,2)] sample_slot_Inr(5) [OF that r(1,2)] r(3)
      by (intro Suc.IH) auto
    then show ?thesis using Some
      by (subst advance_loop.simps) (auto simp: Let_def split: sum.splits prod.splits)
  qed
qed

lemma advance_loop_Inr:
  assumes "advance_loop fuel ds now start end lower s due = Some (Inr (s', due', ds'))" "slots_wf s"
    and "\<forall>d. due = Some d \<longrightarrow> slot_ok now start end lower (pSourceMaxAgeSeconds (sPolicy s) * second) d"
  shows "same_agent s s' \<and> slots_wf s' \<and> sScheduleDate s' = sScheduleDate s \<and>
    (\<forall>n. sNextPostAt s' = Some n \<longrightarrow> now < n) \<and>
    sRemainingSlots s' + (if due' \<noteq> None \<and> due = None then 1 else 0) \<le> sRemainingSlots s \<and>
    (\<forall>d. due' = Some d \<longrightarrow> slot_ok now start end lower (pSourceMaxAgeSeconds (sPolicy s) * second) d)"
  using assms
proof (induction fuel arbitrary: ds s due)
  case 0
  then show ?case
    by (subst (asm) advance_loop.simps) (auto split: option.splits if_splits)
next
  case (Suc fuel)
  show ?case
  proof (cases "sNextPostAt s = None \<or> the (sNextPostAt s) > now")
    case True
    with Suc.prems show ?thesis
      by (subst (asm) advance_loop.simps) (auto split: option.splits if_splits)
  next
    case False
    then obtain n where n: "sNextPostAt s = Some n" "n \<le> now" by (cases "sNextPostAt s") auto
    let ?s1 = "s\<lparr>sRemainingSlots := sRemainingSlots s - 1\<rparr>"
    let ?at = "generation_instant n"
    let ?age = "pSourceMaxAgeSeconds (sPolicy s) * second"
    define due1 where "due1 = (if \<not> ?at < lower \<and> \<not> now < start \<and> now < end \<and> now < ?at + ?age
        then Some \<lparr>slotAt = ?at, slotExpiresAt = ?at + ?age\<rparr> else due)"
    have r: "0 \<le> sRemainingSlots ?s1" "0 < spacing ?s1"
      using Suc.prems(2) n by (auto simp: slots_wf_def spacing_def)
    obtain s2 ds2 where s2: "sample_slot ds ?s1 (?at + spacing s) end = Inr (s2, ds2)"
        and loop: "advance_loop fuel ds2 now start end lower s2 due1 = Some (Inr (s', due', ds'))"
      using Suc.prems(1) n
      by (subst (asm) advance_loop.simps) (auto simp: Let_def due1_def split: sum.splits prod.splits)
    have a: "same_agent s s2"
      using sample_slot_Inr(1) [OF s2 r] by (intro same_agentI) (simp_all add: same_agentD)
    have ok: "slot_ok now start end lower ?age d" if "due1 = Some d" for d
      using that Suc.prems(3) n generation_instant_bounds [of n]
      by (auto simp: due1_def slot_ok_def split: if_splits)
    have IH: "same_agent s2 s' \<and> slots_wf s' \<and> sScheduleDate s' = sScheduleDate s2 \<and>
      (\<forall>n. sNextPostAt s' = Some n \<longrightarrow> now < n) \<and>
      sRemainingSlots s' + (if due' \<noteq> None \<and> due1 = None then 1 else 0) \<le> sRemainingSlots s2 \<and>
      (\<forall>d. due' = Some d \<longrightarrow> slot_ok now start end lower (pSourceMaxAgeSeconds (sPolicy s2) * second) d)"
      using ok same_agentD(5) [OF a] by (intro Suc.IH [OF loop sample_slot_wf [OF s2 r]]) simp
    then show ?thesis
      using sample_slot_Inr(2,5) [OF s2 r] same_agent_trans [OF a] same_agentD(5) [OF a]
      by (auto simp: due1_def split: if_splits)
  qed
qed


section \<open>One advance\<close>

lemma policy_spacing: "validate_policy tz p = None \<Longrightarrow> 1 \<le> pMinSpacingSeconds p \<and> 0 \<le> pScheduledMinPerDay p \<and>
    pScheduledMaxPerDay p \<le> 100 \<and> 1 \<le> pSourceMaxAgeSeconds p \<and> pScheduledMinPerDay p \<le> pScheduledMaxPerDay p"
  unfolding validate_policy_def first_error_None by (simp add: policy_bounds_def)

lemma settings_facts:
  assumes "validate_settings tz s = None"
  shows "validate_policy tz (sPolicy s) = None" "0 \<le> sRemainingSlots s"
    "sRemainingSlots s \<le> pScheduledMaxPerDay (sPolicy s)" "slots_wf s"
proof -
  show p: "validate_policy tz (sPolicy s) = None" "0 \<le> sRemainingSlots s"
    "sRemainingSlots s \<le> pScheduledMaxPerDay (sPolicy s)"
    using assms unfolding validate_settings_def or_else_None first_error_None by simp_all
  show "slots_wf s"
    using assms p policy_spacing [OF p(1)]
    unfolding validate_settings_def or_else_None first_error_None
    by (auto simp: slots_wf_def spacing_def split: option.splits)
qed

definition now_date :: "timezones \<Rightarrow> AgentSettings \<Rightarrow> time \<Rightarrow> string" where
  "now_date tz s now = local_date (policy_location tz (sPolicy s)) (generation_instant now)"

text \<open>What the sample of the day has left: the persisted one, or a fresh one of at most the maximum.\<close>

definition day_allowance :: "AgentSettings \<Rightarrow> string \<Rightarrow> int" where
  "day_allowance s date = (if sScheduleDate s = date then sRemainingSlots s else pScheduledMaxPerDay (sPolicy s))"

lemma sample_day_Inr:
  assumes "sample_day ds s date lower end = Inr (s1, ds1)" "slots_wf s" "validate_policy tz (sPolicy s) = None"
  shows "same_agent s s1" "slots_wf s1" "sScheduleDate s1 = date" "sRemainingSlots s1 \<le> day_allowance s date"
proof -
  have "same_agent s s1 \<and> slots_wf s1 \<and> sScheduleDate s1 = date \<and> sRemainingSlots s1 \<le> day_allowance s date"
  proof (cases "sScheduleDate s = date")
    case True
    with assms show ?thesis by (auto simp: sample_day_def day_allowance_def split: if_splits)
  next
    case False
    let ?p = "sPolicy s"
    obtain count ds2 where c:
        "generation_draw ds (pScheduledMaxPerDay ?p - pScheduledMinPerDay ?p + 1) = Inr (count, ds2)"
      and smp: "sample_slot ds2 (s\<lparr>sScheduleDate := date, sRemainingSlots := pScheduledMinPerDay ?p + count,
          sNextPostAt := None\<rparr>) lower end = Inr (s1, ds1)"
      using assms(1) False by (auto simp: sample_day_def split: sum.splits prod.splits)
    let ?s0 = "s\<lparr>sScheduleDate := date, sRemainingSlots := pScheduledMinPerDay ?p + count, sNextPostAt := None\<rparr>"
    have r: "0 \<le> sRemainingSlots ?s0" "0 < spacing ?s0"
      using generation_draw_Inr [OF c] policy_spacing [OF assms(3)] assms(2)
      by (auto simp: slots_wf_def spacing_def)
    have "same_agent s s1" using sample_slot_Inr(1) [OF smp r] by (intro same_agentI) (simp_all add: same_agentD)
    then show ?thesis
      using sample_slot_Inr(2,5) [OF smp r] sample_slot_wf [OF smp r] generation_draw_Inr [OF c] False
      by (simp add: day_allowance_def)
  qed
  then show "same_agent s s1" "slots_wf s1" "sScheduleDate s1 = date" "sRemainingSlots s1 \<le> day_allowance s date"
    by auto
qed

lemma coalesce_Inr:
  assumes "coalesce ds s now end due = Inr s'" "slots_wf s" "\<forall>n. sNextPostAt s = Some n \<longrightarrow> now < n"
  shows "same_agent s s'" "slots_wf s'" "sScheduleDate s' = sScheduleDate s"
    "sRemainingSlots s' \<le> sRemainingSlots s" "sUpdatedAt s' = now"
    "sNextPostAt s' = Some n \<Longrightarrow> now < n \<and> (due \<noteq> None \<longrightarrow> now + spacing s \<le> n)"
proof -
  have "same_agent s s' \<and> slots_wf s' \<and> sScheduleDate s' = sScheduleDate s \<and>
    sRemainingSlots s' \<le> sRemainingSlots s \<and> sUpdatedAt s' = now \<and>
    (\<forall>n. sNextPostAt s' = Some n \<longrightarrow> now < n \<and> (due \<noteq> None \<longrightarrow> now + spacing s \<le> n))"
  proof (cases "due \<noteq> None \<and> (case sNextPostAt s of None \<Rightarrow> False | Some n \<Rightarrow> n < now + spacing s)")
    case True
    then obtain s2 ds2 where s2: "sample_slot ds s (now + spacing s) end = Inr (s2, ds2)" "s' = s2\<lparr>sUpdatedAt := now\<rparr>"
      using assms(1) by (auto simp: coalesce_def split: sum.splits prod.splits)
    have r: "0 \<le> sRemainingSlots s" "0 < spacing s" using assms(2) by (auto simp: slots_wf_def)
    have "same_agent s s'"
      using sample_slot_Inr(1) [OF s2(1) r] by (intro same_agentI) (simp_all add: s2(2) same_agentD)
    moreover have "slots_wf s'" using sample_slot_wf [OF s2(1) r] by (simp add: s2(2) slots_wf_def spacing_def)
    ultimately show ?thesis using sample_slot_Inr [OF s2(1) r] r(2) by (auto simp: s2(2))
  next
    case False
    then have "s' = s\<lparr>sUpdatedAt := now\<rparr>" using assms(1) by (auto simp: coalesce_def split: if_splits)
    then show ?thesis using False assms(2,3)
      by (auto simp: slots_wf_def spacing_def intro!: same_agentI split: option.splits)
  qed
  then show "same_agent s s'" "slots_wf s'" "sScheduleDate s' = sScheduleDate s"
    "sRemainingSlots s' \<le> sRemainingSlots s" "sUpdatedAt s' = now"
    "sNextPostAt s' = Some n \<Longrightarrow> now < n \<and> (due \<noteq> None \<longrightarrow> now + spacing s \<le> n)" by auto
qed


text \<open>An advance either leaves the settings alone or moves them to the sample of today.\<close>

lemma advance_cases [consumes 1, case_names idle today]:
  assumes "advance_schedule tz ds s now0 = Some (Inr (s', due))"
  obtains "s' = s" "due = None" "validate_settings tz s = None"
  | "validate_settings tz s = None" "sEnabled s" "\<not> now_date tz s now0 < sScheduleDate s"
    "same_agent s s'" "slots_wf s'" "sScheduleDate s' = now_date tz s now0"
    "sUpdatedAt s' = generation_instant now0"
    "sRemainingSlots s' + (if due \<noteq> None then 1 else 0) \<le> day_allowance s (now_date tz s now0)"
    "\<And>n. sNextPostAt s' = Some n \<Longrightarrow> generation_instant now0 < n \<and>
        (due \<noteq> None \<longrightarrow> generation_instant now0 + spacing s \<le> n)"
    "\<And>slot. due = Some slot \<Longrightarrow>
        (case generation_window (now_date tz s now0) (sPolicy s) (policy_location tz (sPolicy s)) of
          (start, end) \<Rightarrow> slot_ok (generation_instant now0) start end (schedule_lower s start)
             (pSourceMaxAgeSeconds (sPolicy s) * second) slot)"
proof -
  have v: "validate_settings tz s = None" and "now0 \<noteq> 0"
    using assms by (auto simp: advance_schedule_def split: option.splits if_splits)
  show ?thesis
  proof (cases "\<not> sEnabled s \<or> now_date tz s now0 < sScheduleDate s")
    case True
    with assms v \<open>now0 \<noteq> 0\<close> that(1) show ?thesis
      by (auto simp: advance_schedule_def Let_def now_date_def split: if_splits)
  next
    case False
    let ?now = "generation_instant now0" and ?loc = "policy_location tz (sPolicy s)"
    obtain start "end" where w: "generation_window (now_date tz s now0) (sPolicy s) ?loc = (start, end)" by force
    let ?lower = "schedule_lower s start"
    obtain s1 ds1 s2 ds2 where
      sd: "sample_day ds s (now_date tz s now0) (later ?lower ?now) end = Inr (s1, ds1)"
      and lp: "advance_loop slot_rounds ds1 ?now start end ?lower s1 None = Some (Inr (s2, due, ds2))"
      and co: "coalesce ds2 s2 ?now end due = Inr s'"
      using assms v \<open>now0 \<noteq> 0\<close> False w
      by (auto simp: advance_schedule_def Let_def now_date_def split: option.splits sum.splits prod.splits)
    note sd = sample_day_Inr [OF sd settings_facts(4,1) [OF v]]
    note lp = advance_loop_Inr [OF lp sd(2)]
    have "slots_wf s2" "\<forall>n. sNextPostAt s2 = Some n \<longrightarrow> ?now < n" using lp by auto
    note co = coalesce_Inr [OF co this]
    show ?thesis
    proof (rule that(2))
      show "same_agent s s'" using sd(1) lp co(1) same_agent_trans by (meson option.distinct(1))
      show "sRemainingSlots s' + (if due \<noteq> None then 1 else 0) \<le> day_allowance s (now_date tz s now0)"
        using lp co(4) sd(4) by auto
      show "generation_instant now0 < n \<and> (due \<noteq> None \<longrightarrow> generation_instant now0 + spacing s \<le> n)"
        if "sNextPostAt s' = Some n" for n
        using co(6) [OF that] lp same_agent_spacing [of s s1] same_agent_spacing [of s1 s2] sd(1) by auto
      show "case generation_window (now_date tz s now0) (sPolicy s) ?loc of (start, end) \<Rightarrow>
          slot_ok ?now start end (schedule_lower s start) (pSourceMaxAgeSeconds (sPolicy s) * second) slot"
        if "due = Some slot" for slot
        using that lp w same_agentD(5) [OF sd(1)] by auto
    qed (use False v sd lp co in auto)
  qed
qed

text \<open>
  C10: the loop over elapsed slots always ends within its hundred rounds, whatever the settings, the
  clock and the draws: advancing a schedule returns settings or an error.
\<close>

theorem advance_schedule_returns: "advance_schedule tz ds s now \<noteq> None"
proof -
  have "advance_loop slot_rounds ds1 t start end lower s1 None \<noteq> None"
    if v: "validate_settings tz s = None" and sd: "sample_day ds s date l end = Inr (s1, ds1)"
    for date l s1 ds1 t start "end" lower
  proof -
    note sd = sample_day_Inr [OF sd settings_facts(4,1) [OF v]]
    have "day_allowance s date \<le> 100"
      using settings_facts [OF v] policy_spacing [OF settings_facts(1) [OF v]] by (auto simp: day_allowance_def)
    with sd show ?thesis by (intro advance_loop_returns) (auto simp: slot_rounds_def)
  qed
  then show ?thesis
    by (auto simp: advance_schedule_def Let_def split: option.splits sum.splits prod.splits)
       (metis option.discI)
qed

section \<open>What an agent's days can yield\<close>

text \<open>
  The settings of an agent over time.  Advances happen at any clock readings and with any draws; in
  between the rest of the system may change anything but the policy and the three schedule fields
  (a publication sets the publication time, an operator pauses and resumes).  Each advance is logged
  with the local date it was asked for and the slot it returned.
\<close>

inductive schedule_history :: "timezones \<Rightarrow> AgentSettings \<Rightarrow> (string \<times> ScheduledSlot option) list \<Rightarrow> AgentSettings \<Rightarrow> bool"
  for tz s0 where
  start: "schedule_history tz s0 [] s0"
| advance: "schedule_history tz s0 log s \<Longrightarrow> advance_schedule tz ds s now = Some (Inr (s', due)) \<Longrightarrow>
    schedule_history tz s0 (log @ [(now_date tz s now, due)]) s'"
| other: "schedule_history tz s0 log s \<Longrightarrow> sPolicy s' = sPolicy s \<Longrightarrow> sScheduleDate s' = sScheduleDate s \<Longrightarrow>
    sRemainingSlots s' = sRemainingSlots s \<Longrightarrow> sNextPostAt s' = sNextPostAt s \<Longrightarrow>
    schedule_history tz s0 log s'"

definition due_on :: "string \<Rightarrow> (string \<times> ScheduledSlot option) list \<Rightarrow> nat" where
  "due_on D log = length (filter (\<lambda>(d, slot). d = D \<and> slot \<noteq> None) log)"

definition potential :: "AgentSettings \<Rightarrow> string \<Rightarrow> int" where
  "potential s D = (if sScheduleDate s = D then sRemainingSlots s
     else if sScheduleDate s < D then pScheduledMaxPerDay (sPolicy s) else 0)"

lemma due_on_snoc: "due_on D (log @ [(d, due)]) = due_on D log + (if d = D \<and> due \<noteq> None then 1 else 0)"
  by (simp add: due_on_def)

lemma advance_potential:
  assumes "advance_schedule tz ds s now = Some (Inr (s', due))"
  shows "potential s' D + (if now_date tz s now = D \<and> due \<noteq> None then 1 else 0) \<le> potential s D \<and>
    sPolicy s' = sPolicy s \<and> 0 \<le> sRemainingSlots s'"
  using assms
proof (cases rule: advance_cases)
  case idle
  then show ?thesis using settings_facts(2) by auto
next
  case today
  note f = settings_facts [OF today(1)]
  show ?thesis
    using today(3,5,6,8) f policy_spacing [OF f(1)] same_agentD(5) [OF today(4)]
    by (auto simp: potential_def day_allowance_def slots_wf_def split: if_splits)
qed

lemma history_potential:
  assumes "schedule_history tz s0 log s" "validate_settings tz s0 = None"
  shows "int (due_on D log) + potential s D \<le> potential s0 D \<and> sPolicy s = sPolicy s0 \<and> 0 \<le> sRemainingSlots s"
  using assms
proof (induction rule: schedule_history.induct)
  case start
  then show ?case using settings_facts(2) [of tz s0] by (simp add: due_on_def)
next
  case (advance log s ds now s' due)
  then show ?case using advance_potential [OF advance.hyps(2), of D] by (auto simp: due_on_snoc)
next
  case (other log s s')
  then have "potential s' D = potential s D" by (simp add: potential_def)
  with other show ?case by simp
qed

text \<open>
  C9: no day is sampled twice.  Over any history of an agent's settings under one policy - clocks
  that run backwards or jump, restarts, publications, pauses - the advances of one local date yield
  at most the policy's daily maximum of due slots.
\<close>

theorem schedule_daily_maximum:
  assumes "schedule_history tz s0 log s" "validate_settings tz s0 = None"
  shows "int (due_on D log) \<le> pScheduledMaxPerDay (sPolicy s0)"
proof -
  note f = settings_facts [OF assms(2)]
  have "potential s0 D \<le> pScheduledMaxPerDay (sPolicy s0)" "0 \<le> potential s D"
    using f policy_spacing [OF f(1)] history_potential [OF assms] by (auto simp: potential_def)
  then show ?thesis using history_potential [OF assms, of D] by linarith
qed

text \<open>
  C11: a due slot is admissible when it is returned.  It lies between the opening of today's window and
  the clock, at least the policy's spacing after the last publication; the clock is inside the window,
  the slot is still fresh and expires the policy's age after its original instant; and the next slot is
  at least one spacing away, so polling after downtime never turns into a burst.
\<close>

theorem due_slot_admissible:
  assumes "advance_schedule tz ds s now = Some (Inr (s', Some slot))"
    and "generation_window (now_date tz s now) (sPolicy s) (policy_location tz (sPolicy s)) = (start, end)"
  shows "start \<le> slotAt slot \<and> slotAt slot \<le> generation_instant now \<and> start \<le> generation_instant now \<and> generation_instant now < end \<and>
    (\<forall>t. sLastPublishedAt s = Some t \<longrightarrow> generation_instant t + pMinSpacingSeconds (sPolicy s) * second \<le> slotAt slot) \<and>
    slotExpiresAt slot = slotAt slot + pSourceMaxAgeSeconds (sPolicy s) * second \<and> generation_instant now < slotExpiresAt slot \<and>
    (\<forall>n. sNextPostAt s' = Some n \<longrightarrow> generation_instant now + pMinSpacingSeconds (sPolicy s) * second \<le> n)"
  using assms(1)
proof (cases rule: advance_cases)
  case today
  then have ok: "slot_ok (generation_instant now) start end (schedule_lower s start) (pSourceMaxAgeSeconds (sPolicy s) * second) slot"
    and n: "\<forall>n. sNextPostAt s' = Some n \<longrightarrow> generation_instant now + spacing s \<le> n"
    using assms(2) by auto
  have "start \<le> schedule_lower s start"
    "\<forall>t. sLastPublishedAt s = Some t \<longrightarrow> generation_instant t + spacing s \<le> schedule_lower s start"
    by (auto simp: schedule_lower_def later_def split: option.split)
  with ok n show ?thesis unfolding slot_ok_def spacing_def by force
qed simp


text \<open>A concrete policy in UTC with one slot a day, and settings whose slot is due.\<close>

definition sample_tz :: timezones where
  "sample_tz n = (if n = ''UTC'' then Some utc else None)"

definition sample_policy :: GenerationPolicy where
  "sample_policy = \<lparr>pVersion = 1, pTimezone = ''UTC'', pActiveStart = ''00:00'', pActiveEnd = ''23:00'',
     pScheduledMinPerDay = 1, pScheduledMaxPerDay = 2, pMinSpacingSeconds = 3600,
     pResponseMinDelaySeconds = 0, pResponseMaxDelaySeconds = 60, pSourceMaxAgeSeconds = 7200,
     pReplyProbabilityBPS = 10000, pRepostProbabilityBPS = 5000, pQuoteProbabilityBPS = 5000,
     pHumanPostProbabilityBPS = 2000, pContinuationProbabilityBPS = 2000, pCooldownSeconds = 600,
     pScheduledPostCapPerDay = 2, pReplyCapPerDay = 10, pReplyCapPerConversation = 3,
     pMaxAgentsPerTrigger = 2, pHumanTriggerCapPerWindow = 5, pHumanTriggerWindowSeconds = 3600,
     pMaxChainDepth = 2, pMaxChainJobs = 4, pDailyTokenBudget = 100000\<rparr>"

definition sample_settings :: AgentSettings where
  "sample_settings = \<lparr>sAgentID = sample_id CHR ''2'', sPersonaVersion = 1, sEnabled = True,
     sPauseRevision = 0, sPolicy = sample_policy, sNextPostAt = Some 63845634600000000000,
     sScheduleDate = ''2024-03-10'', sRemainingSlots = 1, sLastPublishedAt = None,
     sUpdatedAt = 63845600000000000000\<rparr>"

lemma sample_clocks:
  "parse_clock ''00:00'' = Some 0" "parse_clock ''23:00'' = Some 82800000000000"
  "format_clock 0 = ''00:00''" "format_clock 82800000000000 = ''23:00''"
  by code_simp+

lemma sample_policy_valid: "validate_policy sample_tz sample_policy = None"
  unfolding validate_policy_def first_error_None
  by (simp add: policy_bounds_def clock_bad_def sample_policy_def sample_clocks sample_tz_def)

lemma sample_date:
  "valid_generation_date ''2024-03-10''" "local_date utc 63845634600000000000 = ''2024-03-10''"
  by code_simp+

lemma sample_settings_valid: "validate_settings sample_tz sample_settings = None"
  using sample_policy_valid
  unfolding validate_settings_def or_else_None first_error_None
  by (simp add: sample_settings_def sample_date policy_location_def sample_policy_def sample_tz_def class_defs)

lemma sample_window:
  "generation_window ''2024-03-10'' sample_policy utc = (63845625600000000000, 63845708400000000000)"
  by code_simp

lemma sample_advance:
  "advance_schedule sample_tz [] sample_settings 63845634600000000001 =
     Some (Inr (sample_settings\<lparr>sNextPostAt := None, sRemainingSlots := 0, sUpdatedAt := 63845634600000000000\<rparr>,
       Some \<lparr>slotAt = 63845634600000000000, slotExpiresAt = 63845641800000000000\<rparr>))"
proof -
  have w: "generation_window ''2024-03-10'' (sPolicy sample_settings) utc = (63845625600000000000, 63845708400000000000)"
    using sample_window by (simp add: sample_settings_def)
  have l: "policy_location sample_tz (sPolicy sample_settings) = utc"
    by (simp add: policy_location_def sample_settings_def sample_policy_def sample_tz_def)
  show ?thesis
    using sample_settings_valid
    by (simp add: advance_schedule_def l w sample_date generation_instant_def Let_def)
       (simp add: sample_settings_def sample_policy_def sample_day_def slot_rounds_def
         advance_loop.simps sample_slot_def spacing_def coalesce_def schedule_lower_def generation_instant_def
         eval_nat_numeral)
qed

theorem schedule_daily_maximum_witness:
  "int (due_on ''2024-03-10'' [(''2024-03-10'',
      Some \<lparr>slotAt = 63845634600000000000, slotExpiresAt = 63845641800000000000\<rparr>)]) \<le> 2"
proof -
  have d: "now_date sample_tz sample_settings 63845634600000000001 = ''2024-03-10''"
    using sample_date
    by (simp add: now_date_def generation_instant_def policy_location_def sample_settings_def sample_policy_def sample_tz_def)
  note h = schedule_history.advance [OF schedule_history.start sample_advance]
  show ?thesis
    using schedule_daily_maximum [OF h sample_settings_valid, of "''2024-03-10''"] d
    by (simp add: sample_settings_def sample_policy_def)
qed

text \<open>The same day after a publication at its start, one spacing of an hour before the slot or earlier.\<close>

definition published_settings :: AgentSettings where
  "published_settings = sample_settings\<lparr>sLastPublishedAt := Some 63845625600000000000\<rparr>"

lemma published_settings_valid: "validate_settings sample_tz published_settings = None"
  using sample_policy_valid
  unfolding validate_settings_def or_else_None first_error_None
  by (simp add: published_settings_def sample_settings_def sample_date policy_location_def sample_policy_def sample_tz_def class_defs)

lemma published_advance:
  "advance_schedule sample_tz [] published_settings 63845634600000000001 =
     Some (Inr (published_settings\<lparr>sNextPostAt := None, sRemainingSlots := 0, sUpdatedAt := 63845634600000000000\<rparr>,
       Some \<lparr>slotAt = 63845634600000000000, slotExpiresAt = 63845641800000000000\<rparr>))"
proof -
  have w: "generation_window ''2024-03-10'' (sPolicy published_settings) utc = (63845625600000000000, 63845708400000000000)"
    using sample_window by (simp add: published_settings_def sample_settings_def)
  have l: "policy_location sample_tz (sPolicy published_settings) = utc"
    by (simp add: policy_location_def published_settings_def sample_settings_def sample_policy_def sample_tz_def)
  show ?thesis
    using published_settings_valid
    by (simp add: advance_schedule_def l w sample_date generation_instant_def Let_def)
       (simp add: published_settings_def sample_settings_def sample_policy_def sample_day_def slot_rounds_def
         advance_loop.simps sample_slot_def spacing_def coalesce_def schedule_lower_def generation_instant_def later_def
         eval_nat_numeral)
qed

theorem due_slot_admissible_witness:
  "sLastPublishedAt published_settings = Some 63845625600000000000 \<and>
   63845625600000000000 + 3600 * second \<le> slotAt \<lparr>slotAt = 63845634600000000000, slotExpiresAt = 63845641800000000000\<rparr>"
proof -
  have d: "now_date sample_tz published_settings 63845634600000000001 = ''2024-03-10''"
    using sample_date
    by (simp add: now_date_def generation_instant_def policy_location_def published_settings_def sample_settings_def sample_policy_def sample_tz_def)
  have w: "generation_window (now_date sample_tz published_settings 63845634600000000001) (sPolicy published_settings)
      (policy_location sample_tz (sPolicy published_settings)) = (63845625600000000000, 63845708400000000000)"
    using sample_window unfolding d
    by (simp add: policy_location_def published_settings_def sample_settings_def sample_policy_def sample_tz_def)
  show ?thesis
    using due_slot_admissible [OF published_advance w]
    by (simp add: generation_instant_def published_settings_def sample_settings_def sample_policy_def)
qed

section \<open>Policy changes and the schedule\<close>

lemma change_policy_None:
  assumes "change_policy tz s p now = (s', None)"
  shows "validate_settings tz s = None" "validate_policy tz p = None" "validate_settings tz s' = None"
    "sPolicy s' = p" "sLastPublishedAt s' = sLastPublishedAt s" "sPauseRevision s' = sPauseRevision s"
    "sEnabled s' = sEnabled s" "sAgentID s' = sAgentID s"
    "sScheduleDate s' = (if schedule_changed (sPolicy s) p
       then max (sScheduleDate s) (max (local_date (policy_location tz (sPolicy s)) now)
              (local_date (policy_location tz p) now)) else sScheduleDate s)"
    "schedule_changed (sPolicy s) p \<Longrightarrow> sRemainingSlots s' = 0 \<and> sNextPostAt s' = None"
  using assms by (auto simp: change_policy_def Let_def split: option.splits if_splits)

lemma retired_day_idle:
  assumes "advance_schedule tz ds s t = Some (Inr (s', due))"
    and "sRemainingSlots s = 0" "now_date tz s t \<le> sScheduleDate s"
  shows "due = None"
  using assms(1)
proof (cases rule: advance_cases)
  case today
  then have "day_allowance s (now_date tz s t) = 0" using assms(2,3) by (simp add: day_allowance_def)
  with today(5,8) show ?thesis by (auto simp: slots_wf_def split: if_splits)
qed

text \<open>
  C12: a policy edit cannot draw a second sample of a day.  After an accepted change of any scheduling
  field the stored date is at least today's in the old and in the new time zone, and no advance for
  that date or an earlier one returns a slot; the publication history and the pause revision are kept.
\<close>

theorem policy_change_no_reroll:
  assumes "change_policy tz s p now = (s', None)"
    "pTimezone (sPolicy s) \<noteq> pTimezone p \<or> pActiveStart (sPolicy s) \<noteq> pActiveStart p \<or> pActiveEnd (sPolicy s) \<noteq> pActiveEnd p \<or>
     pScheduledMinPerDay (sPolicy s) \<noteq> pScheduledMinPerDay p \<or> pScheduledMaxPerDay (sPolicy s) \<noteq> pScheduledMaxPerDay p \<or>
     pScheduledPostCapPerDay (sPolicy s) \<noteq> pScheduledPostCapPerDay p \<or> pMinSpacingSeconds (sPolicy s) \<noteq> pMinSpacingSeconds p \<or>
     pSourceMaxAgeSeconds (sPolicy s) \<noteq> pSourceMaxAgeSeconds p"
  shows "local_date (policy_location tz (sPolicy s)) now \<le> sScheduleDate s' \<and>
    local_date (policy_location tz p) now \<le> sScheduleDate s' \<and> sScheduleDate s \<le> sScheduleDate s' \<and>
    sLastPublishedAt s' = sLastPublishedAt s \<and> sPauseRevision s' = sPauseRevision s \<and>
    (\<forall>ds t s'' due. advance_schedule tz ds s' t = Some (Inr (s'', due)) \<and>
       now_date tz s' t \<le> sScheduleDate s' \<longrightarrow> due = None)"
proof -
  have "schedule_changed (sPolicy s) p" unfolding schedule_changed_def by (rule assms(2))
  then show ?thesis
    using change_policy_None [OF assms(1)] retired_day_idle [of tz _ s'] by (auto simp: le_max_iff_disj)
qed

definition sample_policy' :: GenerationPolicy where
  "sample_policy' = sample_policy\<lparr>pScheduledMinPerDay := 0\<rparr>"

theorem policy_change_no_reroll_witness:
  "snd (change_policy sample_tz sample_settings sample_policy' 63845634600000000001) = None \<and>
   ''2024-03-10'' \<le> sScheduleDate (fst (change_policy sample_tz sample_settings sample_policy' 63845634600000000001))"
proof -
  let ?t = "63845634600000000001" and ?s = "sample_settings"
  have p: "validate_policy sample_tz sample_policy' = None"
    using sample_policy_valid unfolding validate_policy_def first_error_None
    by (simp add: policy_bounds_def sample_policy'_def)
  have ch: "schedule_changed (sPolicy ?s) sample_policy'"
    by (simp add: schedule_changed_def sample_settings_def sample_policy'_def sample_policy_def)
  have d: "local_date utc ?t = ''2024-03-10''" by code_simp
  have l: "policy_location sample_tz (sPolicy ?s) = utc" "policy_location sample_tz sample_policy' = utc"
    by (simp_all add: policy_location_def sample_settings_def sample_policy'_def sample_policy_def sample_tz_def)
  have "snd (change_policy sample_tz ?s sample_policy' ?t) = None"
    using sample_settings_valid p ch d l
    by (simp add: change_policy_def Let_def)
       (simp add: validate_settings_def sample_settings_def sample_date generation_instant_def
         sample_policy'_def sample_policy_def class_defs)
  then have c: "change_policy sample_tz ?s sample_policy' ?t = (fst (change_policy sample_tz ?s sample_policy' ?t), None)"
    by (metis prod.collapse)
  show ?thesis using policy_change_no_reroll [OF c ch [unfolded schedule_changed_def]] c d l by (simp add: prod_eq_iff)
qed

end
