(* ===== verification/Trigger.thy ===== *)
theory Trigger
  imports Schedule Content Job
begin

text \<open>
  Triggers of generation work: \<open>internal/app/generation_trigger.go\<close> (mentions, idempotency and cooldown
  keys, response timing) and the recheck of a scheduled slot in \<open>generation_schedule.go\<close>.
\<close>

section \<open>Mentions\<close>

definition MaxGenerationMentions :: nat where "MaxGenerationMentions = 32"

definition embedded_rune :: "unicode \<Rightarrow> nat \<Rightarrow> bool" where
  "embedded_rune uc r \<longleftrightarrow> uc_letter uc r \<or> uc_digit uc r \<or> uc_mark uc r \<or> r \<in> {95, 64, 47, 92}"

text \<open>Whether the text before and after a candidate \<open>@name\<close> makes it part of something else.\<close>

definition embedded_before :: "unicode \<Rightarrow> string \<Rightarrow> bool" where
  "embedded_before uc before \<longleftrightarrow> before \<noteq> [] \<and>
     (let previous = fst (decode_last_rune before) in embedded_rune uc previous \<or> previous \<in> {46, 37, 43, 45})"

definition embedded_after :: "unicode \<Rightarrow> string \<Rightarrow> bool" where
  "embedded_after uc after \<longleftrightarrow> after \<noteq> [] \<and>
     (let next = fst (decode_rune after) in
      embedded_rune uc next \<or> next \<in> {45, 43, 37} \<or>
      next = 46 \<and> tl after \<noteq> [] \<and> embedded_rune uc (fst (decode_rune (tl after))))"

text \<open>
  The scan goes byte by byte; after a name that ends a mention it resumes behind the name, after a
  rejected candidate at the next byte.
\<close>

function mention_loop :: "unicode \<Rightarrow> string \<Rightarrow> nat \<Rightarrow> string list \<Rightarrow> string list" where
  "mention_loop uc body i handles =
     (if \<not> (i < length body \<and> length handles < MaxGenerationMentions) then handles
      else if body ! i \<noteq> CHR ''@'' \<or> embedded_before uc (take i body) then mention_loop uc body (i + 1) handles
      else
        let name = takeWhile is_tag_character (drop (i + 1) body); end = i + 1 + length name in
        if embedded_after uc (drop end body) then mention_loop uc body (i + 1) handles
        else mention_loop uc body end
          (case normalize_handle name of
             Inl _ \<Rightarrow> handles
           | Inr h \<Rightarrow> if h \<in> set handles then handles else handles @ [h]))"
  by pat_completeness auto
termination
  by (relation "measure (\<lambda>(uc, body, i, handles). length body - i)") auto

declare mention_loop.simps [simp del]

definition generation_mentions :: "unicode \<Rightarrow> string \<Rightarrow> string list" where
  "generation_mentions uc body =
     (if length body > MaxBodyRunes * 4 \<or> \<not> valid_utf8 body then [] else mention_loop uc body 0 [])"

section \<open>Keys\<close>

text \<open>\<open>time.RFC3339Nano\<close> of an instant in UTC: the fraction without its trailing zeros.\<close>

definition format_fraction :: "int \<Rightarrow> string" where
  "format_fraction n =
     (if n = 0 then [] else ''.'' @ rev (dropWhile (\<lambda>c. c = CHR ''0'') (rev (append_int n 9))))"

definition format_instant :: "time \<Rightarrow> string" where
  "format_instant t =
     (let s = t mod day_ns div second in
      format_date t @ ''T'' @ append_int (s div 3600) 2 @ '':'' @ append_int (s div 60 mod 60) 2 @ '':'' @
      append_int (s mod 60) 2 @ format_fraction (t mod second) @ ''Z'')"

text \<open>
  \<open>time.Parse(time.RFC3339Nano, s)\<close> on the strings that \<open>Format\<close> can write for an instant in UTC.  Its
  only use here compares the key that the parsed slot formats to with the input, so what \<open>Parse\<close>
  makes of other strings does not matter.
\<close>

definition parse_fraction :: "string \<Rightarrow> int option" where
  "parse_fraction s =
     (case s of
        [] \<Rightarrow> Some 0
      | c # ds \<Rightarrow> if c \<noteq> CHR ''.'' \<or> ds = [] \<or> 9 < length ds then None
                   else digits_val (ds @ replicate (9 - length ds) CHR ''0''))"

definition parse_clock_time :: "string \<Rightarrow> int option" where
  "parse_clock_time s =
     (if length s \<noteq> 8 \<or> s ! 2 \<noteq> CHR '':'' \<or> s ! 5 \<noteq> CHR '':'' then None
      else case (digits_val (take 2 s), digits_val (take 2 (drop 3 s)), digits_val (drop 6 s)) of
        (Some h, Some m, Some x) \<Rightarrow> if h < 24 \<and> m < 60 \<and> x < 60 then Some (3600 * h + 60 * m + x) else None
      | _ \<Rightarrow> None)"

definition parse_instant :: "string \<Rightarrow> time option" where
  "parse_instant s =
     (if length s < 20 \<or> s ! 10 \<noteq> CHR ''T'' \<or> last s \<noteq> CHR ''Z'' then None
      else case (parse_date (take 10 s), parse_clock_time (take 8 (drop 11 s)), parse_fraction (butlast (drop 19 s))) of
        (Some d, Some c, Some f) \<Rightarrow> Some (d + c * second + f)
      | _ \<Rightarrow> None)"

definition scheduled_prefix :: string where "scheduled_prefix = ''scheduled:v1:''"

definition scheduled_key :: "time \<Rightarrow> go_error + string" where
  "scheduled_key slot =
     (if slot = 0 then Inl (Errorf ''scheduled key requires a slot'')
      else Inr (scheduled_prefix @ format_instant (generation_instant slot)))"

fun trigger_name :: "GenerationTrigger \<Rightarrow> string" where
  "trigger_name TriggerScheduled = ''scheduled''"
| "trigger_name TriggerReply = ''reply''"
| "trigger_name TriggerRepost = ''repost''"
| "trigger_name TriggerQuote = ''quote''"
| "trigger_name TriggerHumanPost = ''human_post''"
| "trigger_name TriggerContinuation = ''continuation''"
| "trigger_name (TriggerOther s) = s"

definition social_trigger :: "GenerationTrigger \<Rightarrow> bool" where
  "social_trigger k \<longleftrightarrow>
     k = TriggerReply \<or> k = TriggerRepost \<or> k = TriggerQuote \<or> k = TriggerHumanPost \<or> k = TriggerContinuation"

definition social_key :: "GenerationTrigger \<Rightarrow> ID \<Rightarrow> go_error + string" where
  "social_key kind action =
     (if \<not> social_trigger kind \<or> \<not> valid_generation_id action then Inl (Errorf ''invalid social trigger identity'')
      else Inr (trigger_name kind @ '':v1:'' @ action))"

definition cooldown_key :: "ID \<Rightarrow> ID \<Rightarrow> ID \<Rightarrow> GenerationTrigger \<Rightarrow> go_error + string" where
  "cooldown_key actor agent conversation kind =
     (if \<not> valid_generation_id actor \<or> \<not> valid_generation_id agent \<or> \<not> valid_generation_id conversation \<or>
         actor = agent \<or> \<not> social_trigger kind
      then Inl (Errorf ''invalid cooldown identity'')
      else Inr (''cooldown:v1:'' @ actor @ '':'' @ agent @ '':'' @ conversation @ '':'' @ trigger_name kind))"

section \<open>Timing\<close>

text \<open>\<open>GenerationResponseTiming\<close>: when the response becomes available and when its source expires.\<close>

definition response_timing ::
  "timezones \<Rightarrow> GenerationPolicy \<Rightarrow> time \<Rightarrow> time \<Rightarrow> draws \<Rightarrow> go_error + (time \<times> time) \<times> draws" where
  "response_timing tz p source_at now draw =
     (case validate_policy tz p of Some e \<Rightarrow> Inl e | None \<Rightarrow>
      if source_at = 0 \<or> now = 0 \<or> source_at > now then Inl (Errorf ''invalid source time'')
      else
        let source_at = generation_instant source_at; now = generation_instant now;
            expires_at = source_at + pSourceMaxAgeSeconds p * second
        in if \<not> now < expires_at then Inl (Errorf ''expired generation source'')
           else and_then (generation_draw draw (pResponseMaxDelaySeconds p - pResponseMinDelaySeconds p + 1))
                  (\<lambda>(delay, draw'). Inr ((later now (source_at + (pResponseMinDelaySeconds p + delay) * second), expires_at), draw')))"

text \<open>\<open>ScheduledGenerationExecutionAllowed\<close>: the key must be the canonical one of a slot that is still current.\<close>

definition scheduled_execution_allowed ::
  "timezones \<Rightarrow> string \<Rightarrow> GenerationPolicy \<Rightarrow> time \<Rightarrow> time \<Rightarrow> time \<Rightarrow> bool" where
  "scheduled_execution_allowed tz key p created_at expires_at now =
     (if validate_policy tz p \<noteq> None \<or> created_at = 0 \<or> now = 0 \<or> now < created_at \<or> \<not> now < expires_at \<or>
         pScheduledMaxPerDay p = 0
      then False
      else
        (case parse_instant (if has_prefix key scheduled_prefix then drop (length scheduled_prefix) key else key) of
           None \<Rightarrow> False
         | Some slot \<Rightarrow>
             if slot = 0 \<or> scheduled_key slot \<noteq> Inr key \<or> slot > created_at \<or>
                \<not> now < slot + pSourceMaxAgeSeconds p * second
             then False
             else
               (case tz (pTimezone p) of
                  None \<Rightarrow> False
                | Some loc \<Rightarrow>
                    let date = local_date loc slot; (start, end) = generation_window date p loc in
                    local_date loc now = date \<and> \<not> slot < start \<and> slot < end \<and> \<not> now < start \<and> now < end)))"

section \<open>Formatting and parsing instants\<close>

lemma strip_trailing:
  "rev (dropWhile (\<lambda>c. c = z) (rev xs)) @ replicate (length xs - length (rev (dropWhile (\<lambda>c. c = z) (rev xs)))) z = xs"
proof (induction xs rule: rev_induct)
  case (snoc x xs)
  let ?d = "rev (dropWhile (\<lambda>c. c = z) (rev xs))"
  show ?case
  proof (cases "x = z")
    case True
    have "length ?d \<le> length xs" using length_dropWhile_le [of "\<lambda>c. c = z" "rev xs"] by simp
    then have "replicate (Suc (length xs) - length ?d) z = replicate (length xs - length ?d) z @ [z]"
      by (simp add: Suc_diff_le replicate_append_same)
    with True snoc show ?thesis by (simp flip: append_assoc)
  qed simp
qed simp

lemma append_int_9: "0 \<le> x \<Longrightarrow> x < 1000000000 \<Longrightarrow> length (append_int x 9) = 9 \<and> digits_val (append_int x 9) = Some x"
  using append_int_digits [of x 8] by (simp add: eval_nat_numeral)

lemma parse_format_fraction:
  assumes "0 \<le> n" "n < 1000000000"
  shows "parse_fraction (format_fraction n) = Some n"
proof (cases "n = 0")
  case True
  then show ?thesis by (simp add: parse_fraction_def format_fraction_def)
next
  case False
  define a where "a = append_int n 9"
  have a: "length a = 9" "digits_val a = Some n" using append_int_9 [OF assms] by (simp_all add: a_def)
  define ds where "ds = rev (dropWhile (\<lambda>c. c = CHR ''0'') (rev a))"
  have e: "ds @ replicate (9 - length ds) CHR ''0'' = a"
    using strip_trailing [of "CHR ''0''" a] a(1) by (simp add: ds_def)
  then have l: "length ds \<le> 9" using a(1) by (metis le_add1 length_append)
  have "ds \<noteq> []"
  proof
    assume "ds = []"
    with e have "a = replicate 9 CHR ''0'' @ []" by simp
    then have "dec_value a = dec_value []" using dec_value_zeros by metis
    with a(2) False show False by (simp add: digits_val_iff dec_value_def)
  qed
  with False l e a(2) show ?thesis
    by (simp add: parse_fraction_def format_fraction_def flip: a_def ds_def)
qed

lemma clock_parts:
  fixes t :: int
  defines "s \<equiv> t mod day_ns div second"
  shows "0 \<le> s div 3600" "s div 3600 < 24" "t mod day_ns = (3600 * (s div 3600) + 60 * (s div 60 mod 60) + s mod 60) * second + t mod second"
proof -
  have b: "0 \<le> t mod day_ns" "t mod day_ns < day_ns" by (simp_all add: day_ns_def)
  then show "0 \<le> s div 3600" "s div 3600 < 24" by (simp_all add: s_def day_ns_def)
  have m: "t mod day_ns mod second = t mod second" by (simp add: day_ns_def mod_mod_cancel)
  have "s = 3600 * (s div 3600) + 60 * (s div 60 mod 60) + s mod 60"
  proof -
    have "s div 60 * 60 + s mod 60 = s" "s div 60 div 60 * 60 + s div 60 mod 60 = s div 60"
      by (rule div_mult_mod_eq)+
    moreover have "s div 60 div 60 = s div 3600" by (simp add: zdiv_zmult2_eq [symmetric])
    ultimately show ?thesis by linarith
  qed
  moreover have "t mod day_ns = s * second + t mod second"
    unfolding s_def m [symmetric] by (rule div_mult_mod_eq [symmetric])
  ultimately show "t mod day_ns = (3600 * (s div 3600) + 60 * (s div 60 mod 60) + s mod 60) * second + t mod second"
    by simp
qed

lemma parse_format_clock_time:
  assumes "0 \<le> h" "h < 24" "0 \<le> m" "m < 60" "0 \<le> x" "x < 60"
  shows "parse_clock_time (append_int h 2 @ '':'' @ append_int m 2 @ '':'' @ append_int x 2) = Some (3600 * h + 60 * m + x)"
proof -
  have "length (append_int h 2) = 2 \<and> digits_val (append_int h 2) = Some h"
    "length (append_int m 2) = 2 \<and> digits_val (append_int m 2) = Some m"
    "length (append_int x 2) = 2 \<and> digits_val (append_int x 2) = Some x"
    using assms append_int_2 by auto
  then show ?thesis using assms by (simp add: parse_clock_time_def nth_append)
qed

lemma length_format_day:
  assumes "date_of_day n = (y, m, d)" "0 \<le> y" "y \<le> 9999"
  shows "length (format_day n) = 10"
proof -
  note v = date_of_day_sound [OF assms(1)]
  with valid_date_bounds have b: "1 \<le> m" "m < 100" "1 \<le> d" "d < 100" by blast+
  have "length (append_int y 4) = 4" using append_int_4 [of y] assms by auto
  moreover have "length (append_int m 2) = 2" using append_int_2 [of m] b by auto
  moreover have "length (append_int d 2) = 2" using append_int_2 [of d] b by auto
  ultimately show ?thesis by (simp add: format_day_def assms(1))
qed

lemma parse_format_instant:
  assumes "0 \<le> utc_year t" "utc_year t \<le> 9999"
  shows "parse_instant (format_instant t) = Some t"
proof -
  define s where "s = t mod day_ns div second"
  define c where "c = append_int (s div 3600) 2 @ '':'' @ append_int (s div 60 mod 60) 2 @ '':'' @ append_int (s mod 60) 2"
  define f where "f = format_fraction (t mod second)"
  obtain y m d where n: "date_of_day (utc_day t) = (y, m, d)" by (metis prod.collapse)
  then have y: "0 \<le> y" "y \<le> 9999" using assms by (simp_all add: utc_year_def)
  note parts = clock_parts [of t, folded s_def]
  have date: "parse_date (format_date t) = Some (utc_day t * day_ns)" "length (format_date t) = 10"
    using parse_format_day [OF n y] length_format_day [OF n y] by (simp_all add: format_date_def)
  have clock: "parse_clock_time c = Some (3600 * (s div 3600) + 60 * (s div 60 mod 60) + s mod 60)"
    unfolding c_def by (rule parse_format_clock_time) (use parts(1,2) in simp_all)
  have lc: "length c = 8"
    using append_int_2 [of "s div 3600"] append_int_2 [of "s div 60 mod 60"] append_int_2 [of "s mod 60"] parts(1,2)
    by (simp add: c_def)
  have frac: "parse_fraction f = Some (t mod second)"
    unfolding f_def by (rule parse_format_fraction) simp_all
  have e: "format_instant t = format_date t @ ''T'' @ c @ f @ ''Z''"
    unfolding format_instant_def Let_def c_def f_def s_def by (simp only: append_assoc)
  have "t = utc_day t * day_ns + t mod day_ns" by (simp add: utc_day_def)
  also have "\<dots> = utc_day t * day_ns + (3600 * (s div 3600) + 60 * (s div 60 mod 60) + s mod 60) * second + t mod second"
    using parts(3) by simp
  finally have t: "utc_day t * day_ns + (3600 * (s div 3600) + 60 * (s div 60 mod 60) + s mod 60) * second + t mod second = t"
    by (rule sym)
  have "take 10 (format_instant t) = format_date t" "take 8 (drop 11 (format_instant t)) = c"
    "butlast (drop 19 (format_instant t)) = f" "length (format_instant t) \<ge> 20"
    "format_instant t ! 10 = CHR ''T''" "last (format_instant t) = CHR ''Z''"
    unfolding e using date(2) lc by (simp_all add: nth_append butlast_append)
  with date(1) clock frac show ?thesis
    unfolding parse_instant_def using t by (simp add: algebra_simps)
qed

section \<open>What keys, mentions and timings promise\<close>

lemma generation_id_length: "valid_generation_id i \<Longrightarrow> length i = 36"
  by (auto simp: valid_generation_id_def parse_id_def split: if_splits)

lemma social_name_inj: "social_trigger k \<Longrightarrow> social_trigger k' \<Longrightarrow> trigger_name k = trigger_name k' \<Longrightarrow> k = k'"
  by (auto simp: social_trigger_def)

text \<open>
  C15: a cooldown key determines the actor, the agent, the conversation and the kind of the trigger it
  was made from, so two interactions share a cooldown exactly when they agree in all four.
\<close>

theorem cooldown_key_identity:
  assumes "cooldown_key actor agent post kind = Inr key" "cooldown_key actor' agent' post' kind' = Inr key"
  shows "actor = actor' \<and> agent = agent' \<and> post = post' \<and> kind = kind'"
proof -
  have "length actor = 36" "length agent = 36" "length post = 36" "social_trigger kind"
    "length actor' = 36" "length agent' = 36" "length post' = 36" "social_trigger kind'"
    using assms by (auto simp: cooldown_key_def generation_id_length split: if_splits)
  moreover from assms have "actor @ '':'' @ agent @ '':'' @ post @ '':'' @ trigger_name kind =
      actor' @ '':'' @ agent' @ '':'' @ post' @ '':'' @ trigger_name kind'"
    by (auto simp: cooldown_key_def split: if_splits)
  ultimately show ?thesis using social_name_inj by (simp add: append_eq_append_conv)
qed

theorem cooldown_key_identity_witness:
  "cooldown_key (sample_id CHR ''a'') (sample_id CHR ''b'') (sample_id CHR ''c'') TriggerReply =
     Inr (''cooldown:v1:'' @ sample_id CHR ''a'' @ '':'' @ sample_id CHR ''b'' @ '':'' @ sample_id CHR ''c'' @ '':reply'') \<and>
   sample_id CHR ''a'' = sample_id CHR ''a'' \<and> sample_id CHR ''b'' = sample_id CHR ''b'' \<and>
   sample_id CHR ''c'' = sample_id CHR ''c'' \<and> TriggerReply = TriggerReply"
proof -
  have k: "cooldown_key (sample_id CHR ''a'') (sample_id CHR ''b'') (sample_id CHR ''c'') TriggerReply =
    Inr (''cooldown:v1:'' @ sample_id CHR ''a'' @ '':'' @ sample_id CHR ''b'' @ '':'' @ sample_id CHR ''c'' @ '':reply'')"
    by code_simp
  from k cooldown_key_identity [OF k k] show ?thesis by blast
qed

lemma scheduled_key_inj:
  assumes "scheduled_key s = Inr k" "scheduled_key t = Inr k"
    "1 \<le> utc_year (generation_instant s)" "utc_year (generation_instant s) \<le> 9999"
    "1 \<le> utc_year (generation_instant t)" "utc_year (generation_instant t) \<le> 9999"
  shows "generation_instant s = generation_instant t"
proof -
  have "format_instant (generation_instant s) = format_instant (generation_instant t)"
    using assms(1,2) by (auto simp: scheduled_key_def split: if_splits)
  then have "parse_instant (format_instant (generation_instant s)) = parse_instant (format_instant (generation_instant t))"
    by simp
  with assms show ?thesis by (simp add: parse_format_instant)
qed

text \<open>
  C16: for the key of a slot the recheck before execution decides exactly the conditions on that slot:
  enabled policy, work created after the slot, slot and lifetime not expired, the same local date now,
  and both the slot and the current time inside the active window of that date.
\<close>

theorem scheduled_recheck_exact:
  assumes "scheduled_key slot = Inr key" "generation_instant slot = slot"
    "1 \<le> utc_year slot" "utc_year slot \<le> 9999" "validate_policy tz p = None" "tz (pTimezone p) = Some loc"
  shows "scheduled_execution_allowed tz key p created_at expires_at now \<longleftrightarrow>
    created_at \<noteq> 0 \<and> now \<noteq> 0 \<and> created_at \<le> now \<and> now < expires_at \<and> pScheduledMaxPerDay p \<noteq> 0 \<and>
    slot \<le> created_at \<and> now < slot + pSourceMaxAgeSeconds p * second \<and> local_date loc now = local_date loc slot \<and>
    (let (start, end) = generation_window (local_date loc slot) p loc
     in start \<le> slot \<and> slot < end \<and> start \<le> now \<and> now < end)"
proof -
  have key: "key = scheduled_prefix @ format_instant slot" and nz: "slot \<noteq> 0"
    using assms(1,2) by (auto simp: scheduled_key_def split: if_splits)
  have p: "parse_instant (if has_prefix key scheduled_prefix then drop (length scheduled_prefix) key else key) = Some slot"
    using parse_format_instant [of slot] assms(3,4) by (simp add: key)
  show ?thesis
    unfolding scheduled_execution_allowed_def p using assms nz
    by (cases "generation_window (local_date loc slot) p loc") (auto simp: Let_def not_less not_le)
qed

theorem scheduled_recheck_exact_witness:
  "scheduled_execution_allowed sample_tz ''scheduled:v1:2024-03-10T02:30:00Z'' sample_policy
     63845634600000000000 63845641800000000000 63845634601000000000"
proof -
  have k: "scheduled_key 63845634600000000000 = Inr ''scheduled:v1:2024-03-10T02:30:00Z''"
    "generation_instant 63845634600000000000 = 63845634600000000000" "utc_year 63845634600000000000 = 2024"
    "local_date utc 63845634601000000000 = ''2024-03-10''"
    by code_simp+
  have tz: "sample_tz (pTimezone sample_policy) = Some utc" by (simp add: sample_tz_def sample_policy_def)
  show ?thesis
    using scheduled_recheck_exact [OF k(1,2) _ _ sample_policy_valid tz,
        of 63845634600000000000 63845641800000000000 63845634601000000000] k(3,4) sample_date(2) sample_window
    by (simp add: sample_policy_def)
qed

section \<open>Mentions\<close>

lemma takeWhile_drop_less: "i < length s \<Longrightarrow> i + 1 + length (takeWhile P (drop (i + 1) s)) \<le> length s"
  using length_takeWhile_le [of P "drop (i + 1) s"] by simp

text \<open>A handle comes from an occurrence of \<open>@name\<close> that is not embedded on either side.\<close>

definition mentioned :: "unicode \<Rightarrow> string \<Rightarrow> string \<Rightarrow> bool" where
  "mentioned uc body h \<longleftrightarrow>
     (\<exists>i < length body. body ! i = CHR ''@'' \<and> \<not> embedded_before uc (take i body) \<and>
        (let name = takeWhile is_tag_character (drop (i + 1) body) in
         \<not> embedded_after uc (drop (i + 1 + length name) body) \<and> normalize_handle name = Inr h))"

lemma mention_loop_sound:
  assumes "distinct handles" "length handles \<le> MaxGenerationMentions" "\<forall>h \<in> set handles. mentioned uc body h"
  shows "distinct (mention_loop uc body i handles) \<and> length (mention_loop uc body i handles) \<le> MaxGenerationMentions \<and>
    (\<forall>h \<in> set (mention_loop uc body i handles). mentioned uc body h)"
  using assms
proof (induction uc body i handles rule: mention_loop.induct)
  case (1 uc body i handles)
  let ?name = "takeWhile is_tag_character (drop (i + 1) body)"
  let ?stop = "i + 1 + length ?name"
  consider (stop) "\<not> (i < length body \<and> length handles < MaxGenerationMentions)"
    | (skip) "i < length body \<and> length handles < MaxGenerationMentions" "body ! i \<noteq> CHR ''@'' \<or> embedded_before uc (take i body)"
    | (after) "i < length body \<and> length handles < MaxGenerationMentions" "\<not> (body ! i \<noteq> CHR ''@'' \<or> embedded_before uc (take i body))"
        "embedded_after uc (drop ?stop body)"
    | (take) "i < length body \<and> length handles < MaxGenerationMentions" "\<not> (body ! i \<noteq> CHR ''@'' \<or> embedded_before uc (take i body))"
        "\<not> embedded_after uc (drop ?stop body)"
    by blast
  then show ?case
  proof cases
    case stop
    then show ?thesis using 1(4-) by (simp only: mention_loop.simps [of uc body i handles] not_False_eq_True if_True)
  next
    case skip
    then have "mention_loop uc body i handles = mention_loop uc body (i + 1) handles"
      by (simp only: mention_loop.simps [of uc body i handles] not_not if_True if_False simp_thms)
    with 1(1) [OF _ skip(2) 1(4-6)] skip show ?thesis by simp
  next
    case after
    then have "mention_loop uc body i handles = mention_loop uc body (i + 1) handles"
      by (simp only: mention_loop.simps [of uc body i handles] Let_def not_not if_True if_False simp_thms)
    with 1(2) [OF _ after(2) refl refl after(3) 1(4-6)] after show ?thesis by simp
  next
    case take
    let ?hs = "case normalize_handle ?name of Inl _ \<Rightarrow> handles | Inr h \<Rightarrow> if h \<in> set handles then handles else handles @ [h]"
    have hs: "distinct ?hs" "length ?hs \<le> MaxGenerationMentions" "\<forall>h \<in> set ?hs. mentioned uc body h"
      using 1(4-) take by (auto simp: mentioned_def split: sum.splits)
    have "mention_loop uc body i handles = mention_loop uc body ?stop ?hs"
      using take by (simp only: mention_loop.simps [of uc body i handles] Let_def not_not if_True if_False simp_thms)
    with 1(3) [OF _ _ refl refl _ hs] take show ?thesis by simp
  qed
qed

text \<open>
  C17: whatever the text, the extracted mentions are at most 32 distinct canonical handles, each from an
  occurrence of \<open>@name\<close> that no neighbouring rune makes part of an address or a longer word.
\<close>

theorem mentions_sound:
  "length (generation_mentions uc body) \<le> 32 \<and> distinct (generation_mentions uc body) \<and>
   list_all (\<lambda>h. canonical_handle h) (generation_mentions uc body) \<and>
   list_all (mentioned uc body) (generation_mentions uc body)"
proof -
  have s: "distinct (generation_mentions uc body) \<and> length (generation_mentions uc body) \<le> MaxGenerationMentions \<and>
      (\<forall>h \<in> set (generation_mentions uc body). mentioned uc body h)"
    using mention_loop_sound [of "[]" uc body 0] by (simp add: generation_mentions_def)
  moreover have "mentioned uc body h \<Longrightarrow> canonical_handle h" for h
    by (auto simp: mentioned_def Let_def normalize_handle_Inr)
  ultimately show ?thesis by (simp add: list_all_iff MaxGenerationMentions_def)
qed

text \<open>
  C14: a response is never available before it is admitted, waits at least the minimal and at most the
  maximal delay after its source unless the admission is later than that, and always becomes
  available before its source expires, at the fixed age after the source was created.
\<close>

theorem response_timing_bounds:
  assumes "response_timing tz p source_at now draw = Inr ((available, expires), draw')"
  shows "generation_instant now \<le> available \<and> available < expires \<and>
    expires = generation_instant source_at + pSourceMaxAgeSeconds p * second \<and>
    generation_instant source_at + pResponseMinDelaySeconds p * second \<le> available \<and>
    available \<le> max (generation_instant now) (generation_instant source_at + pResponseMaxDelaySeconds p * second)"
proof -
  let ?s = "generation_instant source_at" and ?n = "generation_instant now"
  let ?w = "pResponseMaxDelaySeconds p - pResponseMinDelaySeconds p + 1"
  from assms obtain delay where d: "generation_draw draw ?w = Inr (delay, draw')"
      and a: "available = later ?n (?s + (pResponseMinDelaySeconds p + delay) * second)"
      and e: "expires = ?s + pSourceMaxAgeSeconds p * second" and n: "?n < expires"
      and v: "validate_policy tz p = None"
    by (auto simp: response_timing_def Let_def and_then_Inr split: option.splits if_splits)
  from d have "0 \<le> delay" "delay < ?w"
    by (auto simp: generation_draw_def Let_def split: if_splits)
  moreover have "pResponseMaxDelaySeconds p < pSourceMaxAgeSeconds p"
    using v unfolding validate_policy_def first_error_None by simp
  ultimately show ?thesis using a e n by (auto simp: later_def)
qed

theorem response_timing_bounds_witness:
  "response_timing sample_tz sample_policy 1000000000 2000000000 [\<lambda>_. 5] =
     Inr ((6000000000, 7201000000000), []) \<and> (6000000000 :: time) < 7201000000000"
proof -
  have r: "response_timing sample_tz sample_policy 1000000000 2000000000 [\<lambda>_. 5] = Inr ((6000000000, 7201000000000), [])"
    unfolding response_timing_def sample_policy_valid option.case
    by (simp add: generation_draw_def Let_def later_def generation_instant_def sample_policy_def)
  from r response_timing_bounds [OF r] show ?thesis by blast
qed

end
