(* ===== verification/Eligibility.thy ===== *)
theory Eligibility
  imports Store Trigger
begin

text \<open>
  Whether a job may still run: its source and persona (\<open>executionSourceValid\<close>, \<open>executionPersona\<close> of
  \<open>generation_context.go\<close>), the account and settings of its agent, and the quotas and time limits of the
  current policy (\<open>generation_eligibility.go\<close>); and the cancellation of jobs whose source was removed
  (\<open>generation_source_cleanup.go\<close>).
\<close>

section \<open>The source\<close>

text \<open>An author as the queries see it: the row joined with its account.\<close>

definition account_disabled :: "db \<Rightarrow> ID \<Rightarrow> bool option" where
  "account_disabled d i = map_option (\<lambda>a. DisabledAt a \<noteq> None) (account_by_id d i)"

text \<open>
  The actor that the remaining checks must find, or \<open>None\<close> when the source is invalid: the reply's author,
  the reposter, or the author of the post.
\<close>

definition post_source :: "db \<Rightarrow> ID \<Rightarrow> post_row option" where
  "post_source d i =
     (case post_by_id d i of None \<Rightarrow> None
      | Some p \<Rightarrow> if poDeletedAt p \<noteq> None \<or> account_disabled d (poAuthorID p) \<noteq> Some False then None else Some p)"

definition source_actor :: "db \<Rightarrow> GenerationJob \<Rightarrow> post_row \<Rightarrow> ID option" where
  "source_actor d job p =
     (case jSourceReplyID job of
        Some i \<Rightarrow>
          (case reply_by_id d i of None \<Rightarrow> None
           | Some r \<Rightarrow> if rePostID r \<noteq> poID p \<or> reDeletedAt r \<noteq> None \<or> account_disabled d (reAuthorID r) \<noteq> Some False
                       then None else Some (reAuthorID r))
      | None \<Rightarrow>
        if jTriggerKind job = TriggerRepost then
          (case jSourceRepostID job of None \<Rightarrow> None
           | Some i \<Rightarrow>
             (case repost_by_id d i of None \<Rightarrow> None
              | Some r \<Rightarrow> if rpPostID r \<noteq> poID p \<or> account_disabled d (rpAccountID r) \<noteq> Some False
                          then None else Some (rpAccountID r)))
        else if jTriggerKind job = TriggerHumanPost \<and> poQuotedPostID p \<noteq> None \<or>
                jTriggerKind job = TriggerQuote \<and> poQuotedPostID p = None
        then None else Some (poAuthorID p))"

definition source_valid :: "db \<Rightarrow> GenerationJob \<Rightarrow> go_error + bool" where
  "source_valid d job =
     (if validate_job job \<noteq> None then Inl ErrGenerationOutput
      else
        (case jSourcePostID job of
           None \<Rightarrow> Inr True
         | Some i \<Rightarrow>
             (case post_source d i of None \<Rightarrow> Inr False
              | Some p \<Rightarrow> Inr (case source_actor d job p of None \<Rightarrow> False | Some a \<Rightarrow> Some a = jTriggerActorID job))))"

text \<open>
  \<open>executionPersona\<close>: the byte limits of the query only hide rows that fail the validation anyway.
\<close>

definition execution_persona :: "unicode \<Rightarrow> db \<Rightarrow> GenerationJob \<Rightarrow> go_error + Persona" where
  "execution_persona uc d job =
     (case persona_by_key d (jAgentID job) (jPersonaVersion job) of
        None \<Rightarrow> Inl ErrNotFound
      | Some p \<Rightarrow> if validate_persona uc p \<noteq> None then Inl ErrGenerationOutput else Inr p)"

section \<open>The agent\<close>

text \<open>
  \<open>lockExecutionEligibility\<close>: a denial reason, or the current policy with the last publication.  The
  query does not read the pause revision.
\<close>

definition lock_eligibility ::
  "unicode \<Rightarrow> timezones \<Rightarrow> db \<Rightarrow> GenerationJob \<Rightarrow> go_error + (string + GenerationPolicy \<times> time option)" where
  "lock_eligibility uc tz d job =
     and_then (source_valid d job) (\<lambda>valid.
     if \<not> valid then Inr (Inl ''source_removed'')
     else
       (case (account_by_id d (jAgentID job), settings_by_id d (jAgentID job)) of
          (Some a, Some r) \<Rightarrow>
            let s = (srSettings r)\<lparr>sPauseRevision := 0\<rparr> in
            if \<not> srDecodable r \<or> DisabledAt a \<noteq> None \<or> \<not> sEnabled s \<or> acc_Type a \<noteq> AccountAgent \<or>
               validate_settings tz s \<noteq> None \<or> sRemainingSlots s > 0 \<and> sNextPostAt s = None
            then Inr (Inl ''policy_disabled'')
            else and_then (execution_persona uc d job) (\<lambda>_. Inr (Inr (sPolicy s, sLastPublishedAt s)))
        | _ \<Rightarrow> Inr (Inl ''policy_disabled'')))"

section \<open>Quotas\<close>

text \<open>
  Reservations are ranked by creation and identifier; a job competes with the jobs that rank before it.
  The row limits of the counting queries are one above the cap they are compared with.
\<close>

definition rank :: "GenerationJob \<Rightarrow> time \<times> ID" where
  "rank j = (jCreatedAt j, jID j)"

definition response_output :: "GenerationOutput \<Rightarrow> bool" where
  "response_output k \<longleftrightarrow> k = OutputReply \<or> k = OutputQuote"

definition count_jobs :: "db \<Rightarrow> (GenerationJob \<Rightarrow> bool) \<Rightarrow> int" where
  "count_jobs d q = int (length (filter q (jobs d)))"

definition spacing_blocked :: "db \<Rightarrow> GenerationJob \<Rightarrow> GenerationPolicy \<Rightarrow> bool" where
  "spacing_blocked d job p \<longleftrightarrow>
     list_ex (\<lambda>j. jAgentID j = jAgentID job \<and> (jOutputKind j = OutputPost \<or> response_output (jOutputKind j)) \<and>
        rank j < rank job \<and> jCreatedAt j > jCreatedAt job - pMinSpacingSeconds p * second) (jobs d)"

definition day_cap :: "GenerationJob \<Rightarrow> GenerationPolicy \<Rightarrow> int" where
  "day_cap job p =
     (if jOutputKind job = OutputPost then min (pScheduledPostCapPerDay p) (pScheduledMaxPerDay p) else pReplyCapPerDay p)"

definition day_rank :: "db \<Rightarrow> GenerationJob \<Rightarrow> time \<Rightarrow> time \<Rightarrow> int" where
  "day_rank d job start end =
     count_jobs d (\<lambda>j. jAgentID j = jAgentID job \<and>
        (if jOutputKind job = OutputPost then jOutputKind j = OutputPost else response_output (jOutputKind j)) \<and>
        start \<le> jCreatedAt j \<and> jCreatedAt j < end \<and> rank j \<le> rank job)"

definition cooldown_blocked :: "db \<Rightarrow> GenerationJob \<Rightarrow> GenerationPolicy \<Rightarrow> bool" where
  "cooldown_blocked d job p \<longleftrightarrow>
     list_ex (\<lambda>j. jCooldownKey j = jCooldownKey job \<and> jCooldownKey j \<noteq> [] \<and> rank j < rank job \<and>
        jCreatedAt j \<ge> jCreatedAt job - pCooldownSeconds p * second) (jobs d)"

definition conversation_rank :: "db \<Rightarrow> GenerationJob \<Rightarrow> int" where
  "conversation_rank d job =
     count_jobs d (\<lambda>j. jAgentID j = jAgentID job \<and> jSourcePostID job \<noteq> None \<and> jSourcePostID j = jSourcePostID job \<and>
        response_output (jOutputKind j) \<and> rank j \<le> rank job)"

definition action_rank :: "db \<Rightarrow> GenerationJob \<Rightarrow> int" where
  "action_rank d job =
     count_jobs d (\<lambda>j. jTriggerKey j = jTriggerKey job \<and>
        (if jChainDepth job = 0 then jChainDepth j = 0
         else jChainDepth job > 0 \<and> jChainDepth j > 0 \<and> jRootJobID j = jRootJobID job) \<and> rank j \<le> rank job)"

definition human_trigger :: "GenerationTrigger \<Rightarrow> bool" where
  "human_trigger k \<longleftrightarrow> k = TriggerReply \<or> k = TriggerRepost \<or> k = TriggerQuote \<or> k = TriggerHumanPost"

definition human_rank :: "db \<Rightarrow> GenerationJob \<Rightarrow> GenerationPolicy \<Rightarrow> int" where
  "human_rank d job p =
     count_jobs d (\<lambda>j. jTriggerActorID job \<noteq> None \<and> jTriggerActorID j = jTriggerActorID job \<and>
        human_trigger (jTriggerKind j) \<and>
        jCreatedAt j \<ge> jCreatedAt job - pHumanTriggerWindowSeconds p * second \<and> rank j \<le> rank job)"

definition chain_rank :: "db \<Rightarrow> GenerationJob \<Rightarrow> int" where
  "chain_rank d job =
     count_jobs d (\<lambda>j. jRootJobID j = jRootJobID job \<and> (jID j = jRootJobID job \<or> rank j \<le> rank job))"

fun generation_probability :: "GenerationPolicy \<Rightarrow> GenerationTrigger \<Rightarrow> int" where
  "generation_probability p TriggerReply = pReplyProbabilityBPS p"
| "generation_probability p TriggerRepost = pRepostProbabilityBPS p"
| "generation_probability p TriggerQuote = pQuoteProbabilityBPS p"
| "generation_probability p TriggerHumanPost = pHumanPostProbabilityBPS p"
| "generation_probability p TriggerContinuation = pContinuationProbabilityBPS p"
| "generation_probability p _ = 0"

definition source_created_at :: "db \<Rightarrow> GenerationJob \<Rightarrow> go_error + time" where
  "source_created_at d job =
     (case Option.bind (jSourcePostID job) (post_by_id d) of
        None \<Rightarrow> Inl ErrNotFound
      | Some p \<Rightarrow>
          (case Option.bind (jSourceReplyID job) (reply_by_id d) of
             Some r \<Rightarrow> Inr (reCreatedAt r)
           | None \<Rightarrow>
             (case Option.bind (jSourceRepostID job) (repost_by_id d) of
                Some r \<Rightarrow> Inr (rpCreatedAt r)
              | None \<Rightarrow> Inr (poCreatedAt p))))"

definition trigger_time_allowed :: "timezones \<Rightarrow> GenerationJob \<Rightarrow> GenerationPolicy \<Rightarrow> time \<Rightarrow> time \<Rightarrow> bool" where
  "trigger_time_allowed tz job p source_created now =
     (if jTriggerKind job = TriggerScheduled
      then scheduled_execution_allowed tz (jTriggerKey job) p (jCreatedAt job) (jExpiresAt job) now
      else source_created \<noteq> 0 \<and> \<not> now < source_created \<and> now < source_created + pSourceMaxAgeSeconds p * second)"

text \<open>What a continuation needs of its chain.\<close>

definition chain_allowed :: "db \<Rightarrow> GenerationJob \<Rightarrow> GenerationPolicy \<Rightarrow> go_error + bool" where
  "chain_allowed d job p =
     and_then (job_by_id d (jRootJobID job)) (\<lambda>root.
     if jChainDepth root \<noteq> 0 \<or> jMaxChainDepth root \<noteq> jMaxChainDepth job \<or> jMaxChainJobs root \<noteq> jMaxChainJobs job \<or>
        jCreatedAt root > jCreatedAt job \<or> jChainDepth job > min (jMaxChainDepth root) (pMaxChainDepth p)
     then Inr False
     else Inr (chain_rank d job \<le> min (jMaxChainJobs root) (pMaxChainJobs p)))"

definition social_allowed :: "timezones \<Rightarrow> db \<Rightarrow> GenerationJob \<Rightarrow> GenerationPolicy \<Rightarrow> time \<Rightarrow> go_error + bool" where
  "social_allowed tz d job p now =
     (if generation_probability p (jTriggerKind job) = 0 \<or> pMaxAgentsPerTrigger p = 0 \<or> pReplyCapPerConversation p = 0
      then Inr False
      else if cooldown_blocked d job p \<or> conversation_rank d job > pReplyCapPerConversation p then Inr False
      else
        and_then (source_created_at d job) (\<lambda>created.
        if \<not> trigger_time_allowed tz job p created now \<or> action_rank d job > pMaxAgentsPerTrigger p then Inr False
        else if jTriggerKind job \<noteq> TriggerContinuation
        then Inr (pHumanTriggerCapPerWindow p \<noteq> 0 \<and> human_rank d job p \<le> pHumanTriggerCapPerWindow p)
        else chain_allowed d job p))"

definition policy_allowed ::
  "timezones \<Rightarrow> db \<Rightarrow> GenerationJob \<Rightarrow> GenerationPolicy \<Rightarrow> time option \<Rightarrow> time \<Rightarrow> go_error + bool" where
  "policy_allowed tz d job p last_published now =
     (if validate_job job \<noteq> None \<or> validate_policy tz p \<noteq> None \<or> now = 0 \<or> now < jCreatedAt job \<or>
         \<not> now < jExpiresAt job
      then Inr False
      else if pDailyTokenBudget p = 0 \<or>
              (case last_published of None \<Rightarrow> False | Some l \<Rightarrow> now < l + pMinSpacingSeconds p * second)
      then Inr False
      else if spacing_blocked d job p then Inr False
      else
        (case tz (pTimezone p) of
           None \<Rightarrow> Inr False
         | Some loc \<Rightarrow>
             let (start, end) = local_day_bounds (jCreatedAt job) loc; cap = day_cap job p in
             if cap = 0 \<or> day_rank d job start end > cap then Inr False
             else if jTriggerKind job = TriggerScheduled then Inr (trigger_time_allowed tz job p 0 now)
             else social_allowed tz d job p now))"

section \<open>Jobs whose source was removed\<close>

definition source_cleanup_batch :: nat where "source_cleanup_batch = 32"

definition source_removed_job :: "db \<Rightarrow> ID \<Rightarrow> GenerationJob \<Rightarrow> bool" where
  "source_removed_job d post j \<longleftrightarrow>
     jSourcePostID j = Some post \<and> active_status (jStatus j) \<and>
     (case post_by_id d post of None \<Rightarrow> False
      | Some p \<Rightarrow> poDeletedAt p \<noteq> None \<or>
          (case Option.bind (jSourceReplyID j) (reply_by_id d) of None \<Rightarrow> False | Some r \<Rightarrow> reDeletedAt r \<noteq> None) \<or>
          removed_repost j)"

fun cancel_ids :: "db \<Rightarrow> time \<Rightarrow> ID list \<Rightarrow> go_error + db" where
  "cancel_ids d now [] = Inr d"
| "cancel_ids d now (i # is) =
     and_then (job_by_id d i) (\<lambda>before.
     let (status, reason) = (if now < jExpiresAt before then (JobCancelled, ''source_removed'') else (JobSkipped, ''stale_trigger''))
     in and_then (ensure (validate_invalidation before (close_job status reason now before) (jLeaseVersion before) now = None) ErrUnavailable)
          (\<lambda>_. and_then (update_jobs d (fenced before) (close_job status reason now)) (\<lambda>d'. cancel_ids d' now is)))"

definition cancel_removed_sources :: "(ID \<Rightarrow> bool) \<Rightarrow> ID \<Rightarrow> time \<Rightarrow> db \<Rightarrow> go_error + db \<times> nat" where
  "cancel_removed_sources locked post c d =
     (let ids = take source_cleanup_batch
            (sort (map jID (filter (\<lambda>j. source_removed_job d post j \<and> \<not> locked (jID j)) (jobs d))))
      in and_then (cancel_ids d (generation_instant c) ids) (\<lambda>d'. Inr (d', length ids)))"

section \<open>Cancellation moves jobs along the lifecycle\<close>

lemma fenced_update:
  assumes "rows_ok d" "j \<in> set (jobs d)" "jID (f j) = jID j"
  shows "update_jobs d (fenced j) f = Inr (replace_job (f j) d)"
  using update_jobs_replace [of d j "fenced j" f] assms by (simp add: fenced_def)

lemma cancel_ids_changes: "cancel_ids d now is = Inr d' \<Longrightarrow> rows_ok d \<Longrightarrow> job_changes d d'"
proof (induction d now "is" rule: cancel_ids.induct)
  case (2 d now i "is")
  from "2.prems"(1) obtain b where b: "job_by_id d i = Inr b" by auto
  have bd: "b \<in> set (jobs d)" using job_by_id_Inr [OF "2.prems"(2) b] by simp
  obtain st r where sr: "(if now < jExpiresAt b then (JobCancelled, ''source_removed'') else (JobSkipped, ''stale_trigger'')) = (st, r)"
    by (metis prod.collapse)
  let ?a = "close_job st r now b"
  have i: "jID ?a = jID b" by (simp add: close_job_def)
  note u = fenced_update [of d b "close_job st r now", OF "2.prems"(2) bd i]
  from "2.prems"(1) b sr u have v: "validate_invalidation b ?a (jLeaseVersion b) now = None"
    and rest: "cancel_ids (replace_job ?a d) now is = Inr d'"
    by (auto simp: Let_def)
  have c: "job_changes d (replace_job ?a d)" using job_changeI' [OF bd v] by (rule job_changeD)
  have "rows_ok (replace_job ?a d)" using "2.prems"(2) by simp
  with "2.IH" [OF refl sr [symmetric], of "replace_job ?a d"] rest c show ?case by simp
qed simp

lemma cancel_removed_sources_changes:
  "cancel_removed_sources locked post c d = Inr (d', n) \<Longrightarrow> rows_ok d \<Longrightarrow> job_changes d d'"
  by (auto simp: cancel_removed_sources_def Let_def intro: cancel_ids_changes)

end
