(* ===== verification/Spend.thy ===== *)
theory Spend
  imports Eligibility Llm
begin

text \<open>
  Spending on provider calls: the reservation of an attempt (\<open>internal/postgres/generation_attempt.go\<close>),
  its settlement (\<open>generation_settlement.go\<close>), the recovery of abandoned reservations
  (\<open>generation_recovery.go\<close>) and the operator's retry of a failed job (\<open>generation_retry.go\<close>).  The first,
  unlocked read of the job may see an older database \<open>d0\<close>; everything after it holds locks.
\<close>

section \<open>What is spent on a day\<close>

definition generation_daily_budget :: int where "generation_daily_budget = 500000"

text \<open>The cost column of the accounting query: the reservation unless trustworthy usage is recorded.\<close>

definition spent_cost :: "GenerationAttempt \<Rightarrow> int" where
  "spent_cost t =
     (if aStatus t = AttemptReserved \<or> aStatus t = AttemptUnknown \<or> aInputTokens t = None \<or> aOutputTokens t = None \<or>
         the (aInputTokens t) < 1 \<or> the (aInputTokens t) > MaxInputTokens \<or>
         the (aOutputTokens t) < 0 \<or> the (aOutputTokens t) > MaxOutputTokens \<or>
         aErrorCode t = ''unsupported_accounting''
      then aReservedTokens t else the (aInputTokens t) + the (aOutputTokens t))"

definition spent_on :: "db \<Rightarrow> string \<Rightarrow> GenerationAttempt list" where
  "spent_on d day = filter (\<lambda>t. aBudgetDay t = day \<and> job_row d (aJobID t) \<noteq> None) (attempts d)"

definition global_spent :: "db \<Rightarrow> string \<Rightarrow> int" where
  "global_spent d day = sum_list (map spent_cost (spent_on d day))"

definition agent_spent :: "db \<Rightarrow> string \<Rightarrow> ID \<Rightarrow> int" where
  "agent_spent d day agent =
     sum_list (map spent_cost (filter (\<lambda>t. map_option jAgentID (job_row d (aJobID t)) = Some agent) (spent_on d day)))"

section \<open>Reservation\<close>

text \<open>\<open>GenerationAdmission\<close>: the attempt that permits one call, or the reason for none.\<close>

type_synonym admission = "GenerationAttempt option \<times> string"

text \<open>A refused reservation that finishes the job in the same transaction.\<close>

definition refuse :: "go_error + db \<Rightarrow> string \<Rightarrow> go_error + db \<times> admission" where
  "refuse m reason = and_then m (\<lambda>d'. Inr (d', None, reason))"

text \<open>\<open>INSERT INTO generation_attempts\<close> with its keys.\<close>

definition insert_attempt :: "GenerationAttempt \<Rightarrow> db \<Rightarrow> go_error + db" where
  "insert_attempt t d =
     (if list_ex (\<lambda>x. aID x = aID t \<or> aJobID x = aJobID t \<and> aAttemptNumber x = aAttemptNumber t) (attempts d)
      then Inl ErrConflict
      else if job_row d (aJobID t) = None then Inl ErrUnavailable
      else Inr (d\<lparr>attempts := attempts d @ [t]\<rparr>))"

definition new_attempt ::
  "ID \<Rightarrow> ID \<Rightarrow> int \<Rightarrow> int \<Rightarrow> int \<Rightarrow> Prompt \<Rightarrow> string \<Rightarrow> int \<Rightarrow> time \<Rightarrow> GenerationAttempt" where
  "new_attempt fresh job number version revision prompt day reserved started =
     \<lparr>aID = fresh, aJobID = job, aAttemptNumber = number, aLeaseVersion = version, aPauseRevision = Some revision,
      aProvider = Provider, aModel = Model, aProviderRequestID = [], aContextHash = prHash prompt,
      aContextBuilderVersion = ContextBuilderVersion, aOutputDigest = [], aDecision = NoDecision, aSkipReason = [],
      aNotBefore = None, aBudgetDay = day, aReservedTokens = reserved, aInputTokens = None, aOutputTokens = None,
      aStatus = AttemptReserved, aErrorCode = [], aStartedAt = started, aFinishedAt = None\<rparr>"

definition invalid_outputs :: "GenerationAttempt list \<Rightarrow> int" where
  "invalid_outputs ts = int (length (filter (\<lambda>t. aErrorCode t = failure_code GenerationInvalidOutput) ts))"

text \<open>
  The last third of a reservation: every read is done, \<open>checked\<close> is the clock before and \<open>fresh\<close> the clock
  after the final policy check, \<open>day\<close> the day that was accounted.
\<close>

definition reserve_commit ::
  "timezones \<Rightarrow> ID \<Rightarrow> string \<Rightarrow> time \<Rightarrow> time \<Rightarrow> GenerationJob \<Rightarrow> int \<Rightarrow> GenerationPolicy \<Rightarrow> int \<Rightarrow> Prompt \<Rightarrow> int \<Rightarrow>
   GenerationAttempt list \<Rightarrow> bool \<Rightarrow> time \<Rightarrow> db \<Rightarrow> go_error + db \<times> admission" where
  "reserve_commit tz fresh_id day checked fresh job version policy revision prompt reserved ts allowed created d =
     (let global = global_spent d day; agent = agent_spent d day (jAgentID job);
          attempt = new_attempt fresh_id (jID job) (int (length ts) + 1) version revision prompt day reserved fresh
      in if \<not> fresh < jExpiresAt job then refuse (skip_expired d job fresh) ''stale_trigger''
         else if fresh < checked \<or> validate_lease job version fresh \<noteq> None \<or> format_date fresh \<noteq> day
         then Inl ErrConflict
         else if \<not> allowed \<or> \<not> trigger_time_allowed tz job policy created fresh
         then refuse (finish_job d job JobSkipped ''policy_denied'' fresh fresh) ''policy_denied''
         else if global < 0 \<or> agent < 0 \<or> global > generation_daily_budget - reserved \<or>
                 agent > pDailyTokenBudget policy - reserved
         then refuse (finish_job d job JobSkipped ''budget_exhausted'' fresh fresh) ''budget_exhausted''
         else if validate_attempt attempt \<noteq> None then Inl (invalid_generation ''preparation'')
         else and_then (insert_attempt attempt d) (\<lambda>d'. Inr (d', Some attempt, [])))"

text \<open>The second third, from the accounting on; \<open>c2\<close> and \<open>c3\<close> are the clock readings.\<close>

definition reserve_spend ::
  "timezones \<Rightarrow> ID \<Rightarrow> time \<Rightarrow> time \<Rightarrow> time \<Rightarrow> GenerationJob \<Rightarrow> int \<Rightarrow> GenerationPolicy \<Rightarrow> time option \<Rightarrow> int \<Rightarrow>
   Prompt \<Rightarrow> int \<Rightarrow> GenerationAttempt list \<Rightarrow> db \<Rightarrow> go_error + db \<times> admission" where
  "reserve_spend tz fresh_id now c2 c3 job version policy last_published revision prompt reserved ts d =
     (let day = format_date now; checked = generation_instant c2
      in if \<not> checked < jExpiresAt job then refuse (skip_expired d job checked) ''stale_trigger''
         else if validate_lease job version checked \<noteq> None \<or> format_date checked \<noteq> day then Inl ErrConflict
         else
           and_then (policy_allowed tz d job policy last_published checked) (\<lambda>allowed.
           and_then (if allowed \<and> jTriggerKind job \<noteq> TriggerScheduled then source_created_at d job else Inr 0) (\<lambda>created.
           reserve_commit tz fresh_id day checked (generation_instant c3) job version policy revision prompt reserved ts
             allowed created d)))"

text \<open>The first third: the job is eligible, and its attempts leave room for another.\<close>

definition reserve_attempts ::
  "timezones \<Rightarrow> ID \<Rightarrow> time \<Rightarrow> time \<Rightarrow> time \<Rightarrow> GenerationJob \<Rightarrow> int \<Rightarrow> GenerationPolicy \<Rightarrow> time option \<Rightarrow> int \<Rightarrow>
   Prompt \<Rightarrow> int \<Rightarrow> GenerationAttempt list \<Rightarrow> db \<Rightarrow> go_error + db \<times> admission" where
  "reserve_attempts tz fresh_id now c2 c3 job version policy last_published revision prompt reserved ts d =
     (if list_ex (\<lambda>t. aLeaseVersion t = version) ts then Inr (d, None, ''already_admitted'')
      else if invalid_outputs ts > MaxGenerationInvalidRegenerations
      then refuse (finish_job d job JobFailed ''invalid_output'' now now) ''invalid_output''
      else if int (length ts) \<ge> MaxGenerationAttempts
      then refuse (finish_job d job JobFailed ''attempt_limit'' now now) ''attempt_limit''
      else if ts \<noteq> [] \<and> (case aFinishedAt (last ts) of None \<Rightarrow> True | Some f \<Rightarrow> \<not> jAvailableAt job > f)
      then Inr (d, None, ''recovery_required'')
      else reserve_spend tz fresh_id now c2 c3 job version policy last_published revision prompt reserved ts d)"

definition reserve_eligible ::
  "timezones \<Rightarrow> ID \<Rightarrow> time \<Rightarrow> time \<Rightarrow> time \<Rightarrow> GenerationJob \<Rightarrow> int \<Rightarrow> GenerationPolicy \<Rightarrow> time option \<Rightarrow>
   GenerationContext \<Rightarrow> GenerationAttempt list \<Rightarrow> db \<Rightarrow> go_error + db \<times> admission" where
  "reserve_eligible tz fresh_id now c2 c3 job version policy last_published input ts d =
     and_then (policy_allowed tz d job policy last_published now) (\<lambda>allowed.
     if \<not> allowed then refuse (finish_job d job JobSkipped ''policy_denied'' now now) ''policy_denied''
     else
       (case settings_by_id d (jAgentID job) of
          None \<Rightarrow> Inl ErrNotFound
        | Some s \<Rightarrow>
            (case build_prompt job input of
               Inl _ \<Rightarrow> Inl (invalid_generation ''context'')
             | Inr prompt \<Rightarrow>
                 (case admission_reservation prompt of
                    Inl _ \<Rightarrow> Inl (invalid_generation ''preparation'')
                  | Inr reserved \<Rightarrow>
                      reserve_attempts tz fresh_id now c2 c3 job version policy last_published
                        (sPauseRevision (srSettings s)) prompt reserved ts d))))"

definition reserve_generation ::
  "unicode \<Rightarrow> timezones \<Rightarrow> ID \<Rightarrow> db \<Rightarrow> time \<Rightarrow> time \<Rightarrow> time \<Rightarrow> ID \<Rightarrow> int \<Rightarrow> GenerationContext \<Rightarrow> db \<Rightarrow> go_error + db \<times> admission" where
  "reserve_generation uc tz fresh_id d0 c1 c2 c3 i version input d =
     and_then (job_by_id d0 i) (\<lambda>refs.
     and_then (lock_eligibility uc tz d refs) (\<lambda>eligible.
     and_then (if jRootJobID refs \<noteq> i then job_by_id d (jRootJobID refs) else Inr refs) (\<lambda>_.
     and_then (job_by_id d i) (\<lambda>job.
     if jStatus refs \<noteq> jStatus job \<or> jLeaseVersion refs \<noteq> jLeaseVersion job \<or> jStatus job \<noteq> JobRunning \<or>
        jLeaseVersion job \<noteq> version \<or> jSourcePostID refs \<noteq> jSourcePostID job \<or>
        jSourceReplyID refs \<noteq> jSourceReplyID job \<or> jSourceRepostID refs \<noteq> jSourceRepostID job
     then Inl ErrConflict
     else
       and_then (execution_attempts d i) (\<lambda>ts.
       let now = generation_instant c1 in
       if \<not> now < jExpiresAt job then refuse (skip_expired d job now) ''stale_trigger''
       else if validate_lease job version now \<noteq> None then Inl ErrConflict
       else
         (case eligible of
            Inl denial \<Rightarrow>
              refuse (finish_job d job
                (if denial = ''source_removed'' \<or> denial = ''policy_disabled'' then JobCancelled else JobSkipped)
                denial now now) denial
          | Inr (policy, last_published) \<Rightarrow>
              reserve_eligible tz fresh_id now c2 c3 job version policy last_published input ts d))))))"

section \<open>Settlement\<close>

definition safe_request_id_text :: "string \<Rightarrow> bool" where
  "safe_request_id_text i \<longleftrightarrow> length i \<le> 256 \<and> list_all request_id_char (runes i)"

text \<open>
  What the store makes of an outcome before it opens the transaction: the retry hint is rounded up to
  the stored precision, uncertain calls lose their counts, and counts above the targets turn the
  outcome into an accounting stop.
\<close>

definition round_up :: "time \<Rightarrow> time" where
  "round_up t = (let n = generation_instant t in if n < t then n + microsecond else n)"

definition normalize_usage :: "int option \<Rightarrow> int option \<Rightarrow> GenerationOutcome \<Rightarrow> GenerationOutcome" where
  "normalize_usage input output o1 =
     (let stopped = o1\<lparr>oResult := empty_result, oFailure := GenerationAccountingUnsupported\<rparr> in
      case (input, output) of
        (Some i, Some n) \<Rightarrow>
          if i > MaxInputTokens \<or> n > MaxOutputTokens then stopped
          else if i \<ge> 1 \<and> n \<ge> 0 then o1\<lparr>oInputTokens := Some i, oOutputTokens := Some n\<rparr> else o1
      | _ \<Rightarrow>
          if (case input of None \<Rightarrow> False | Some i \<Rightarrow> i > MaxInputTokens) \<or>
             (case output of None \<Rightarrow> False | Some n \<Rightarrow> n > MaxOutputTokens) then stopped else o1)"

definition normalize_outcome :: "GenerationOutcome \<Rightarrow> go_error + GenerationOutcome" where
  "normalize_outcome o0 =
     (let o1 = o0\<lparr>oInputTokens := None, oOutputTokens := None\<rparr>;
          o2 = (if oNotBefore o1 = 0 then o1 else o1\<lparr>oNotBefore := round_up (oNotBefore o1)\<rparr>);
          uncertain = (oFailure o2 = GenerationTimeout \<or> oFailure o2 = GenerationCancelled \<or>
                       oFailure o2 = GenerationAccountingUnsupported)
      in if validate_outcome o1 \<noteq> None then Inl (invalid_generation ''outcome'')
         else if oNotBefore o1 \<noteq> 0 \<and> (oNotBefore o2 = 0 \<or> validate_outcome o2 \<noteq> None)
         then Inl (invalid_generation ''outcome'')
         else Inr (if uncertain then o2 else normalize_usage (oInputTokens o0) (oOutputTokens o0) o2))"

text \<open>The settled attempt.\<close>

definition settled_status :: "GenerationOutcome \<Rightarrow> GenerationAttemptStatus" where
  "settled_status o1 =
     (if oFailure o1 = GenerationTimeout \<or> oFailure o1 = GenerationCancelled then AttemptUnknown
      else if digest (oResult o1) \<noteq> [] then AttemptSucceeded else AttemptFailed)"

definition settle_fields :: "GenerationOutcome \<Rightarrow> string \<Rightarrow> time \<Rightarrow> GenerationAttempt \<Rightarrow> GenerationAttempt" where
  "settle_fields o1 request_id now t =
     (let done = digest (oResult o1) \<noteq> [] in
      t\<lparr>aStatus := settled_status o1, aErrorCode := failure_code (oFailure o1), aInputTokens := oInputTokens o1,
        aOutputTokens := oOutputTokens o1, aOutputDigest := if done then digest (oResult o1) else aOutputDigest t,
        aProviderRequestID := request_id, aFinishedAt := Some now,
        aDecision := if done then rDecision (oResult o1) else aDecision t,
        aSkipReason := if done then rReason (oResult o1) else aSkipReason t,
        aNotBefore := if oNotBefore o1 = 0 then aNotBefore t else Some (oNotBefore o1)\<rparr>)"

definition same_settlement :: "GenerationAttempt \<Rightarrow> GenerationAttempt \<Rightarrow> bool" where
  "same_settlement a b \<longleftrightarrow>
     aStatus a = aStatus b \<and> aErrorCode a = aErrorCode b \<and> aOutputDigest a = aOutputDigest b \<and>
     aDecision a = aDecision b \<and> aSkipReason a = aSkipReason b \<and> aNotBefore a = aNotBefore b \<and>
     aProviderRequestID a = aProviderRequestID b \<and> aInputTokens a = aInputTokens b \<and> aOutputTokens a = aOutputTokens b"

definition settle_kind :: "db \<Rightarrow> GenerationAttempt \<Rightarrow> GenerationOutcome \<Rightarrow> go_error + unit" where
  "settle_kind d before o1 =
     (if digest (oResult o1) = [] then Inr ()
      else (case job_row d (aJobID before) of
              None \<Rightarrow> Inl ErrNotFound
            | Some j \<Rightarrow> ensure (rKind (oResult o1) = jOutputKind j) (invalid_generation ''outcome'')))"

text \<open>The columns that the settling \<open>UPDATE\<close> writes.\<close>

definition settle_row :: "GenerationAttempt \<Rightarrow> GenerationAttempt \<Rightarrow> GenerationAttempt" where
  "settle_row after t =
     t\<lparr>aStatus := aStatus after, aErrorCode := aErrorCode after, aInputTokens := aInputTokens after,
       aOutputTokens := aOutputTokens after, aOutputDigest := aOutputDigest after,
       aProviderRequestID := aProviderRequestID after, aFinishedAt := aFinishedAt after,
       aDecision := aDecision after, aSkipReason := aSkipReason after, aNotBefore := aNotBefore after\<rparr>"

definition settle_generation ::
  "GenerationAttempt \<Rightarrow> GenerationOutcome \<Rightarrow> string \<Rightarrow> time \<Rightarrow> db \<Rightarrow> go_error + db \<times> bool" where
  "settle_generation reserved outcome request_id c d =
     (if validate_attempt reserved \<noteq> None \<or> aStatus reserved \<noteq> AttemptReserved \<or> \<not> safe_request_id_text request_id
      then Inl (invalid_generation ''outcome'')
      else
        and_then (normalize_outcome outcome) (\<lambda>o1.
        and_then (attempt_by_id d (aID reserved)) (\<lambda>before.
        if \<not> same_reservation before reserved then Inl ErrConflict
        else
          and_then (settle_kind d before o1) (\<lambda>_.
          let after = settle_fields o1 request_id (generation_instant c) reserved in
          if aStatus before \<noteq> AttemptReserved then Inr (d, same_settlement before after)
          else
            and_then (ensure (validate_attempt_transition before after = None) (invalid_generation ''outcome'')) (\<lambda>_.
            and_then (update_attempts d (\<lambda>t. aID t = aID before \<and> aStatus t = AttemptReserved) (settle_row after)) (\<lambda>d'.
            Inr (d', True)))))))"

section \<open>Recovery\<close>

text \<open>A reservation is abandoned when its lease can no longer settle it.\<close>

definition abandoned :: "db \<Rightarrow> time \<Rightarrow> GenerationAttempt \<Rightarrow> bool" where
  "abandoned d now t \<longleftrightarrow> aStatus t = AttemptReserved \<and>
     (case job_row d (aJobID t) of None \<Rightarrow> False
      | Some j \<Rightarrow> jStatus j \<noteq> JobRunning \<or> jLeaseVersion j \<noteq> aLeaseVersion t \<or>
          (case jLeaseExpiresAt j of None \<Rightarrow> False | Some e \<Rightarrow> e \<le> now) \<or> jExpiresAt j \<le> now)"

definition lose_lease :: "time \<Rightarrow> GenerationAttempt \<Rightarrow> GenerationAttempt" where
  "lose_lease now t = t\<lparr>aStatus := AttemptUnknown, aErrorCode := ''lease_lost'', aFinishedAt := Some now\<rparr>"

fun recover_ids :: "time list \<Rightarrow> ID list \<Rightarrow> db \<Rightarrow> go_error + db \<times> nat" where
  "recover_ids clocks [] d = Inr (d, 0)"
| "recover_ids [] (i # is) d = Inl ErrUnavailable"
| "recover_ids (c # clocks) (i # is) d =
     and_then (attempt_by_id d i) (\<lambda>before.
     and_then (job_by_id d (aJobID before)) (\<lambda>job.
     let now = generation_instant c in
     if aStatus before \<noteq> AttemptReserved \<or>
        jStatus job = JobRunning \<and> jLeaseVersion job = aLeaseVersion before \<and>
          (case jLeaseExpiresAt job of None \<Rightarrow> False | Some e \<Rightarrow> now < e) \<and> now < jExpiresAt job
     then recover_ids clocks is d
     else
       and_then (ensure (validate_attempt_transition before (lose_lease now before) = None) ErrConflict) (\<lambda>_.
       and_then (update_attempts d (\<lambda>t. aID t = i \<and> aStatus t = AttemptReserved) (lose_lease now)) (\<lambda>d'.
       and_then (recover_ids clocks is d') (\<lambda>(d'', n). Inr (d'', Suc n))))))"

text \<open>The readings of the clock in the loop are a list, one for each attempt; a failed reading ends it.\<close>

definition recover_attempts :: "(ID \<Rightarrow> bool) \<Rightarrow> time \<Rightarrow> time list \<Rightarrow> db \<Rightarrow> go_error + db \<times> nat" where
  "recover_attempts locked c clocks d =
     recover_ids clocks
       (map aID (take cleanup_batch (sort_key (\<lambda>t. (aStartedAt t, aID t))
          (filter (\<lambda>t. abandoned d (generation_instant c) t \<and> \<not> locked (aID t)) (attempts d))))) d"

section \<open>The operator's retry\<close>

definition retry_reason :: string where "retry_reason = ''operator_retry''"

text \<open>Whether the retained history leaves a failed job open to a retry.\<close>

definition retry_history_open :: "GenerationJob \<Rightarrow> GenerationAttempt list \<Rightarrow> bool" where
  "retry_history_open job ts \<longleftrightarrow>
     int (length ts) < MaxGenerationAttempts \<and>
     list_all (\<lambda>t. aStatus t \<noteq> AttemptReserved \<and> aErrorCode t \<noteq> failure_code GenerationAccountingUnsupported) ts \<and>
     invalid_outputs ts \<le> MaxGenerationInvalidRegenerations \<and>
     (if ts \<noteq> [] \<and> aStatus (last ts) = AttemptSucceeded
      then jReasonCode job = ''outcome_unavailable'' \<and> aDecision (last ts) \<noteq> GenerationSkip
      else let f = failure_of (jReasonCode job) in
        failure_valid f \<and> f \<noteq> GenerationUnsafeOutput \<and> f \<noteq> GenerationRepeatedOutput \<and> f \<noteq> GenerationCancelled)"

text \<open>Never before now, the provider's hint, or the microsecond after the last attempt finished.\<close>

definition retry_available :: "GenerationAttempt list \<Rightarrow> time \<Rightarrow> time" where
  "retry_available ts now =
     (if ts = [] then now
      else
        let a = (case aNotBefore (last ts) of None \<Rightarrow> now | Some n \<Rightarrow> max now n)
        in (case aFinishedAt (last ts) of
              None \<Rightarrow> a
            | Some f \<Rightarrow> if a > generation_instant f then a else generation_instant f + microsecond))"

definition retried :: "time \<Rightarrow> GenerationJob \<Rightarrow> GenerationJob" where
  "retried available j =
     j\<lparr>jStatus := JobRetryWait, jReasonCode := retry_reason, jAvailableAt := available, jFinishedAt := None,
       jLeaseExpiresAt := None\<rparr>"

definition retry_locked ::
  "timezones \<Rightarrow> time \<Rightarrow> GenerationJob \<Rightarrow> GenerationPolicy \<Rightarrow> time option \<Rightarrow> db \<Rightarrow> go_error + db \<times> GenerationJob" where
  "retry_locked tz c job policy last_published d =
     (if jStatus job \<noteq> JobFailed then Inl ErrConflict
      else
        and_then (execution_attempts d (jID job)) (\<lambda>ts.
        let now = generation_instant c; available = retry_available ts now in
        if \<not> retry_history_open job ts \<or> \<not> now < jExpiresAt job then Inl ErrForbidden
        else
          and_then (policy_allowed tz d job policy last_published now) (\<lambda>allowed.
          if \<not> allowed \<or> \<not> available < jExpiresAt job then Inl ErrForbidden
          else
            and_then (ensure (validate_transition job (retried available job) (jLeaseVersion job) now None = None) ErrConflict) (\<lambda>_.
            and_then (update_jobs d (\<lambda>j. jID j = jID job \<and> jLeaseVersion j = jLeaseVersion job \<and> jStatus j = JobFailed)
                        (retried available)) (\<lambda>d'.
            Inr (d', retried available job))))))"

definition retry_generation ::
  "unicode \<Rightarrow> timezones \<Rightarrow> db \<Rightarrow> time \<Rightarrow> ID \<Rightarrow> db \<Rightarrow> go_error + db \<times> GenerationJob" where
  "retry_generation uc tz d0 c i d =
     (case parse_id i of Inl _ \<Rightarrow> Inl (invalid_generation ''job_id'') | Inr _ \<Rightarrow>
      and_then (job_by_id d0 i) (\<lambda>read.
      and_then (lock_eligibility uc tz d read) (\<lambda>eligible.
      (case eligible of
         Inl denial \<Rightarrow> Inl (if denial = ''source_removed'' then ErrDeleted else ErrForbidden)
       | Inr (policy, last_published) \<Rightarrow>
           and_then (if jRootJobID read \<noteq> jID read then job_by_id d (jRootJobID read) else Inr read) (\<lambda>_.
           and_then (job_by_id d i) (\<lambda>job. retry_locked tz c job policy last_published d))))))"

end
