(* ===== verification/Effects.thy ===== *)
theory Effects
  imports Spend
begin

text \<open>
  What the operations of the store do to the generation tables, as sequences of elementary effects:
  a move of one job, the settlement of one attempt, the addition of an attempt or of a job, the loss
  of a repost reference, and anything that leaves jobs and attempts alone.  The locale
  \<open>effect_invariant\<close> states what a property of the database needs to hold forever; the ledger of attempts
  is its interpretation.
\<close>

section \<open>Elementary effects\<close>

definition attempts_of :: "db \<Rightarrow> ID \<Rightarrow> GenerationAttempt list" where
  "attempts_of d i = filter (\<lambda>t. aJobID t = i) (attempts d)"

text \<open>
  The guard under which an attempt is added: a running job under the attempt's lease, room among the
  three attempts, no attempt of the same lease, no open observation, and the day's budget.
\<close>

definition reservable :: "db \<Rightarrow> GenerationAttempt \<Rightarrow> bool" where
  "reservable d t \<longleftrightarrow>
     aStatus t = AttemptReserved \<and> validate_attempt t = None \<and> aReservedTokens t = ReservedTokensPerCall \<and>
     aID t \<notin> aID ` set (attempts d) \<and>
     (\<exists>j. job_row d (aJobID t) = Some j \<and> validate_lease j (aLeaseVersion t) (aStartedAt t) = None) \<and>
     aAttemptNumber t = int (length (attempts_of d (aJobID t))) + 1 \<and> aAttemptNumber t \<le> MaxGenerationAttempts \<and>
     (\<forall>x \<in> set (attempts_of d (aJobID t)). aLeaseVersion x \<noteq> aLeaseVersion t) \<and>
     (attempts_of d (aJobID t) \<noteq> [] \<longrightarrow> aStatus (last (sort_key aAttemptNumber (attempts_of d (aJobID t)))) \<noteq> AttemptReserved) \<and>
     0 \<le> global_spent d (aBudgetDay t) \<and> global_spent d (aBudgetDay t) + aReservedTokens t \<le> generation_daily_budget"

definition detach_repost :: "ID \<Rightarrow> GenerationJob \<Rightarrow> GenerationJob" where
  "detach_repost r j = (if jSourceRepostID j = Some r then j\<lparr>jSourceRepostID := None\<rparr> else j)"

text \<open>
  The guard under which a job is added: valid and pending, under a new identifier and a new trigger key of
  its agent, and at the root of its chain or under a stored root with the same limits.
\<close>

definition same_trigger :: "GenerationJob \<Rightarrow> GenerationJob \<Rightarrow> bool" where
  "same_trigger j k \<longleftrightarrow> jAgentID k = jAgentID j \<and> jTriggerKey k = jTriggerKey j"

definition root_ok :: "db \<Rightarrow> GenerationJob \<Rightarrow> bool" where
  "root_ok d j \<longleftrightarrow> jRootJobID j = jID j \<or>
     (case job_row d (jRootJobID j) of None \<Rightarrow> False
      | Some r \<Rightarrow> jChainDepth r = 0 \<and> jMaxChainDepth r = jMaxChainDepth j \<and> jMaxChainJobs r = jMaxChainJobs j)"

definition creatable :: "db \<Rightarrow> GenerationJob \<Rightarrow> bool" where
  "creatable d j \<longleftrightarrow> job_row d (jID j) = None \<and> validate_job j = None \<and> jStatus j = JobPending \<and>
     \<not> list_ex (same_trigger j) (jobs d) \<and> root_ok d j"

inductive effect :: "db \<Rightarrow> db \<Rightarrow> bool" where
  moved: "job_change d d' \<Longrightarrow> effect d d'"
| settled: "b \<in> set (attempts d) \<Longrightarrow> validate_attempt_transition b a = None \<Longrightarrow> effect d (replace_attempt a d)"
| reserved: "reservable d t \<Longrightarrow> effect d (d\<lparr>attempts := attempts d @ [t]\<rparr>)"
| created: "creatable d j \<Longrightarrow> effect d (d\<lparr>jobs := jobs d @ [j]\<rparr>)"
| detached: "effect d (d\<lparr>jobs := map (detach_repost r) (jobs d)\<rparr>)"
| elsewhere: "jobs d' = jobs d \<Longrightarrow> attempts d' = attempts d \<Longrightarrow> effect d d'"

abbreviation effects :: "db \<Rightarrow> db \<Rightarrow> bool" where
  "effects \<equiv> effect\<^sup>*\<^sup>*"

lemma job_changes_effects: "job_changes d d' \<Longrightarrow> effects d d'"
  by (induction rule: rtranclp_induct) (auto intro: effect.moved rtranclp.rtrancl_into_rtrancl)

lemma effects_elsewhere: "jobs d' = jobs d \<Longrightarrow> attempts d' = attempts d \<Longrightarrow> effects d d'"
  by (rule r_into_rtranclp) (rule effect.elsewhere)

text \<open>A property kept by every elementary effect, under rows that are addressed by their keys.\<close>

locale effect_invariant =
  fixes inv :: "db \<Rightarrow> bool"
  assumes inv_moved: "inv d \<Longrightarrow> rows_ok d \<Longrightarrow> job_change d d' \<Longrightarrow> inv d'"
    and inv_settled: "inv d \<Longrightarrow> rows_ok d \<Longrightarrow> b \<in> set (attempts d) \<Longrightarrow> validate_attempt_transition b a = None \<Longrightarrow>
      inv (replace_attempt a d)"
    and inv_reserved: "inv d \<Longrightarrow> rows_ok d \<Longrightarrow> reservable d t \<Longrightarrow> inv (d\<lparr>attempts := attempts d @ [t]\<rparr>)"
    and inv_created: "inv d \<Longrightarrow> rows_ok d \<Longrightarrow> creatable d j \<Longrightarrow> inv (d\<lparr>jobs := jobs d @ [j]\<rparr>)"
    and inv_detached: "inv d \<Longrightarrow> rows_ok d \<Longrightarrow> inv (d\<lparr>jobs := map (detach_repost r) (jobs d)\<rparr>)"
    and inv_elsewhere: "inv d \<Longrightarrow> jobs d' = jobs d \<Longrightarrow> attempts d' = attempts d \<Longrightarrow> inv d'"

lemma replace_attempt_ids: "map aID (attempts (replace_attempt a d)) = map aID (attempts d)"
  by (induction "attempts d") (auto simp: replace_attempt_def)

lemma detach_id [simp]: "jID (detach_repost r j) = jID j"
  by (simp add: detach_repost_def)

lemma job_row_None: "job_row d i = None \<longleftrightarrow> i \<notin> jID ` set (jobs d)"
  by (auto simp: job_row_def find_None_iff)

lemma effect_rows_ok: "effect d d' \<Longrightarrow> rows_ok d \<Longrightarrow> rows_ok d'"
proof (induction rule: effect.induct)
  case (moved d d')
  then show ?case using job_change_rows_ok by simp
next
  case (settled b d a)
  then show ?case by (simp add: rows_ok_def replace_attempt_ids) (simp add: replace_attempt_def)
next
  case (reserved d t)
  then show ?case by (auto simp: rows_ok_def reservable_def)
next
  case (created d j)
  then show ?case by (auto simp: rows_ok_def creatable_def job_row_None)
next
  case (detached d r)
  then show ?case by (simp add: rows_ok_def comp_def)
next
  case (elsewhere d' d)
  then show ?case by (simp add: rows_ok_def)
qed

lemma effects_rows_ok: "effects d d' \<Longrightarrow> rows_ok d \<Longrightarrow> rows_ok d'"
  by (induction rule: rtranclp_induct) (auto dest: effect_rows_ok)

context effect_invariant
begin

lemma step: "effect d d' \<Longrightarrow> rows_ok d \<Longrightarrow> inv d \<Longrightarrow> inv d'"
  by (induction rule: effect.induct)
     (blast intro: inv_moved inv_settled inv_reserved inv_created inv_detached inv_elsewhere)+

lemma forever: "effects d d' \<Longrightarrow> rows_ok d \<Longrightarrow> inv d \<Longrightarrow> inv d' \<and> rows_ok d'"
  by (induction rule: rtranclp_induct) (auto intro: step effect_rows_ok)

end

section \<open>The ledger of attempts\<close>

text \<open>
  The attempts of each job are numbered in the order of their insertion, at most three, each under a
  lease version of its own that the job has reached; all but the last are settled.  Every attempt is
  valid, belongs to a job and reserves the full price of a call, and no day is overspent.
\<close>

definition numbered :: "GenerationAttempt list \<Rightarrow> bool" where
  "numbered ts \<longleftrightarrow> map aAttemptNumber ts = map int [1..<Suc (length ts)] \<and> int (length ts) \<le> MaxGenerationAttempts \<and>
     distinct (map aLeaseVersion ts) \<and> (\<forall>t \<in> set (butlast ts). aStatus t \<noteq> AttemptReserved)"

definition ledger_row :: "db \<Rightarrow> GenerationAttempt \<Rightarrow> bool" where
  "ledger_row d t \<longleftrightarrow> validate_attempt t = None \<and> aReservedTokens t = ReservedTokensPerCall \<and>
     (\<exists>j. job_row d (aJobID t) = Some j \<and> aLeaseVersion t \<le> jLeaseVersion j)"

definition ledger :: "db \<Rightarrow> bool" where
  "ledger d \<longleftrightarrow> (\<forall>t \<in> set (attempts d). ledger_row d t) \<and> (\<forall>i. numbered (attempts_of d i)) \<and>
     (\<forall>day. global_spent d day \<le> generation_daily_budget)"

text \<open>A settlement keeps the reservation and never costs more than it.\<close>

lemma settled_cost:
  assumes "validate_attempt_transition b a = None"
  shows "spent_cost a \<le> spent_cost b"
proof -
  have r: "aStatus b = AttemptReserved" "aReservedTokens a = aReservedTokens b" "validate_attempt a = None"
    using assms attempt_core_same [of b a] by (auto simp: attempt_transition_iff validate_attempt_iff same_reservation_def)
  then have "aInputTokens a \<noteq> None \<Longrightarrow> aOutputTokens a \<noteq> None \<Longrightarrow>
      the (aInputTokens a) + the (aOutputTokens a) \<le> aReservedTokens a"
    by (auto simp: validate_attempt_split usage_ok_def split: option.splits)
  with r show ?thesis by (auto simp: spent_cost_def)
qed

lemma filter_map_same: "(\<And>x. x \<in> set xs \<Longrightarrow> P (f x) = P x) \<Longrightarrow> filter P (map f xs) = map f (filter P xs)"
  by (induction xs) auto

lemma replace_attempt_view:
  assumes "rows_ok d" "b \<in> set (attempts d)" "same_reservation b a"
  obtains f where "attempts (replace_attempt a d) = map f (attempts d)"
    "\<And>x. x \<in> set (attempts d) \<Longrightarrow> f x = x \<or> x = b \<and> f x = a" "\<And>x. x \<in> set (attempts d) \<Longrightarrow> same_reservation x (f x)"
proof
  let ?f = "\<lambda>x. if aID x = aID a then a else x"
  show "attempts (replace_attempt a d) = map ?f (attempts d)" by (simp add: replace_attempt_def)
  fix x assume x: "x \<in> set (attempts d)"
  have i: "inj_on aID (set (attempts d))" using assms(1) by (simp add: rows_ok_def distinct_map)
  have "aID a = aID b" using assms(3) by (simp add: same_reservation_def)
  then have e: "x = b" if "aID x = aID a" using inj_onD [OF i _ x assms(2)] that by simp
  show "?f x = x \<or> x = b \<and> ?f x = a" using e by (cases "aID x = aID a") simp_all
  show "same_reservation x (?f x)"
  proof (cases "aID x = aID a")
    case True
    with e assms(3) show ?thesis by simp
  next
    case False
    then show ?thesis by (simp add: same_reservation_def)
  qed
qed

lemma numbered_map:
  assumes "numbered ts" "\<And>x. x \<in> set ts \<Longrightarrow> same_reservation x (f x)"
    "\<And>x. x \<in> set ts \<Longrightarrow> aStatus x \<noteq> AttemptReserved \<Longrightarrow> aStatus (f x) \<noteq> AttemptReserved"
  shows "numbered (map f ts)"
proof -
  have s: "aAttemptNumber (f x) = aAttemptNumber x \<and> aLeaseVersion (f x) = aLeaseVersion x" if "x \<in> set ts" for x
    using assms(2) [OF that] unfolding same_reservation_def by simp
  have n: "map aAttemptNumber (map f ts) = map aAttemptNumber ts" and l: "map aLeaseVersion (map f ts) = map aLeaseVersion ts"
    using s by simp_all
  have b: "aStatus t \<noteq> AttemptReserved" if "t \<in> set (butlast (map f ts))" for t
  proof -
    from that have "t \<in> f ` set (butlast ts)" unfolding map_butlast [symmetric] set_map .
    then obtain x where x: "x \<in> set (butlast ts)" "t = f x" by blast
    then have "aStatus x \<noteq> AttemptReserved" using assms(1) by (simp add: numbered_def)
    with assms(3) [OF in_set_butlastD [OF x(1)]] x(2) show ?thesis by simp
  qed
  then have "\<forall>t \<in> set (butlast (map f ts)). aStatus t \<noteq> AttemptReserved" by blast
  with assms(1) n l show ?thesis by (simp only: numbered_def length_map)
qed

lemma job_row_attempts [simp]: "job_row (d\<lparr>attempts := ts\<rparr>) i = job_row d i"
  by (simp add: job_row_def)

lemma job_row_replace_attempt [simp]: "job_row (replace_attempt a d) i = job_row d i"
  by (simp add: replace_attempt_def)

lemma ledger_settled:
  assumes "ledger d" "rows_ok d" "b \<in> set (attempts d)" "validate_attempt_transition b a = None"
  shows "ledger (replace_attempt a d)"
proof -
  let ?d = "replace_attempt a d"
  have same: "same_reservation b a" and va: "validate_attempt a = None" "aStatus a \<noteq> AttemptReserved" "aStatus b = AttemptReserved"
    using assms(4) attempt_core_same [of b a] by (auto simp: attempt_transition_iff validate_attempt_iff)
  obtain f where f: "attempts ?d = map f (attempts d)"
    and fx: "\<And>x. x \<in> set (attempts d) \<Longrightarrow> f x = x \<or> x = b \<and> f x = a"
    and fs: "\<And>x. x \<in> set (attempts d) \<Longrightarrow> same_reservation x (f x)"
    using replace_attempt_view [OF assms(2,3) same] by blast
  have row: "ledger_row ?d (f x)" if "x \<in> set (attempts d)" for x
    using fx [OF that] fs [OF that] that assms(1) va(1) by (auto simp: ledger_def ledger_row_def same_reservation_def)
  have of: "attempts_of ?d i = map f (attempts_of d i)" for i
    unfolding attempts_of_def f using fs by (intro filter_map_same) (auto simp: same_reservation_def)
  have num: "numbered (attempts_of ?d i)" for i
    unfolding of
  proof (rule numbered_map)
    show "numbered (attempts_of d i)" using assms(1) by (simp add: ledger_def)
    fix x assume "x \<in> set (attempts_of d i)"
    then have x: "x \<in> set (attempts d)" by (simp add: attempts_of_def)
    from fs [OF x] show "same_reservation x (f x)" .
    show "aStatus x \<noteq> AttemptReserved \<Longrightarrow> aStatus (f x) \<noteq> AttemptReserved" using fx [OF x] va(3) by auto
  qed
  have spent: "global_spent ?d day \<le> global_spent d day" for day
  proof -
    have "spent_on ?d day = map f (spent_on d day)"
      unfolding spent_on_def f job_row_replace_attempt using fs by (intro filter_map_same) (auto simp: same_reservation_def)
    moreover have "spent_cost (f x) \<le> spent_cost x" if "x \<in> set (spent_on d day)" for x
      using fx [of x] that settled_cost [OF assms(4)] by (auto simp: spent_on_def)
    ultimately show ?thesis unfolding global_spent_def by (simp add: sum_list_mono comp_def)
  qed
  have "global_spent ?d day \<le> generation_daily_budget" for day
    using spent [of day] assms(1) unfolding ledger_def by (meson order_trans)
  with row num show ?thesis by (auto simp: ledger_def f)
qed

text \<open>Nothing else touches the attempts; the jobs only gain lease versions.\<close>

lemma ledger_jobs:
  assumes "ledger d" "attempts d' = attempts d"
    "\<And>i j. job_row d i = Some j \<Longrightarrow> \<exists>j'. job_row d' i = Some j' \<and> jLeaseVersion j \<le> jLeaseVersion j'"
  shows "ledger d'"
proof -
  have row: "ledger_row d' t" if t: "t \<in> set (attempts d)" for t
  proof -
    from t assms(1) obtain j where "job_row d (aJobID t) = Some j" "aLeaseVersion t \<le> jLeaseVersion j"
      "validate_attempt t = None" "aReservedTokens t = ReservedTokensPerCall"
      by (auto simp: ledger_def ledger_row_def)
    with assms(3) [of "aJobID t" j] show ?thesis by (auto simp: ledger_row_def intro: order_trans)
  qed
  have "job_row d (aJobID t) \<noteq> None \<and> job_row d' (aJobID t) \<noteq> None" if t: "t \<in> set (attempts d)" for t
    using row [OF t] t assms(1) by (auto simp: ledger_def ledger_row_def)
  then have "spent_on d' day = spent_on d day" for day
    unfolding spent_on_def assms(2) by (intro filter_cong) auto
  with row assms(1,2) show ?thesis by (simp add: ledger_def global_spent_def attempts_of_def)
qed

lemma ledger_reserved:
  assumes "ledger d" "reservable d t"
  shows "ledger (d\<lparr>attempts := attempts d @ [t]\<rparr>)"
proof -
  let ?d = "d\<lparr>attempts := attempts d @ [t]\<rparr>"
  let ?ts = "attempts_of d (aJobID t)"
  obtain j where j: "job_row d (aJobID t) = Some j" "validate_lease j (aLeaseVersion t) (aStartedAt t) = None"
    using assms(2) by (auto simp: reservable_def)
  then have "ledger_row ?d t"
    using assms(2) by (auto simp: ledger_row_def reservable_def validate_lease_def split: if_splits)
  moreover have "ledger_row ?d x" if "x \<in> set (attempts d)" for x
    using that assms(1) by (auto simp: ledger_def ledger_row_def)
  moreover have "numbered (attempts_of ?d i)" for i
  proof (cases "i = aJobID t")
    case False
    then show ?thesis using assms(1) by (simp add: ledger_def attempts_of_def)
  next
    case True
    have n: "numbered ?ts" using assms(1) by (simp add: ledger_def)
    have e: "attempts_of ?d i = ?ts @ [t]" using True by (simp add: attempts_of_def)
    have "aStatus x \<noteq> AttemptReserved" if x: "x \<in> set ?ts" for x
    proof (cases "x \<in> set (butlast ?ts)")
      case True
      with n show ?thesis by (auto simp: numbered_def)
    next
      case False
      with x have xl: "x = last ?ts" "?ts \<noteq> []"
        by (metis append_butlast_last_id empty_iff empty_set rotate1.simps(2) set_ConsD set_rotate1)+
      have "map aAttemptNumber ?ts = map int [1..<Suc (length ?ts)]" using n by (simp only: numbered_def)
      moreover have "sorted (map int [1..<Suc (length ?ts)])" by (simp add: sorted_map del: upt_Suc)
      ultimately have "sort_key aAttemptNumber ?ts = ?ts" by (intro sort_key_id_if_sorted) (simp only:)
      with xl assms(2) show ?thesis by (simp add: reservable_def)
    qed
    with n assms(2) show ?thesis
      unfolding e by (auto simp: numbered_def reservable_def butlast_append)
  qed
  moreover have "global_spent ?d day \<le> generation_daily_budget" for day
  proof (cases "day = aBudgetDay t")
    case False
    then show ?thesis using assms(1) by (simp add: ledger_def global_spent_def spent_on_def)
  next
    case True
    have "spent_on ?d day = spent_on d day @ [t]" using True j(1) by (simp add: spent_on_def)
    moreover have "spent_cost t = aReservedTokens t" using assms(2) by (simp add: reservable_def spent_cost_def)
    ultimately show ?thesis using assms(2) True by (simp add: global_spent_def reservable_def)
  qed
  ultimately show ?thesis by (auto simp: ledger_def)
qed

lemma find_append: "find P (xs @ ys) = (case find P xs of Some x \<Rightarrow> Some x | None \<Rightarrow> find P ys)"
  by (induction xs) auto

lemma job_row_append: "job_row (d\<lparr>jobs := jobs d @ [j]\<rparr>) i = (case job_row d i of Some x \<Rightarrow> Some x | None \<Rightarrow> if jID j = i then Some j else None)"
  by (auto simp: job_row_def find_append split: option.splits)

lemma job_row_map:
  "(\<And>x. jID (f x) = jID x) \<Longrightarrow> job_row (d\<lparr>jobs := map f (jobs d)\<rparr>) i = map_option f (job_row d i)"
proof -
  assume f: "\<And>x. jID (f x) = jID x"
  have "find (\<lambda>j. jID j = i) (map f xs) = map_option f (find (\<lambda>j. jID j = i) xs)" for xs
    by (induction xs) (auto simp: f)
  then show ?thesis by (simp add: job_row_def)
qed

interpretation ledger: effect_invariant ledger
proof
  fix d d' assume l: "ledger d" and r: "rows_ok d"
  { assume c: "job_change d d'"
    have "attempts d' = attempts d" using c by (auto simp: job_change_def)
    moreover have "\<exists>j'. job_row d' i = Some j' \<and> jLeaseVersion j \<le> jLeaseVersion j'" if "job_row d i = Some j" for i j
      using job_change_row [OF c r, of i] that moves_on_version by blast
    ultimately show "ledger d'" using ledger_jobs [OF l] by blast }
  { fix b a assume "b \<in> set (attempts d)" "validate_attempt_transition b a = None"
    with l r show "ledger (replace_attempt a d)" by (rule ledger_settled) }
  { fix t assume "reservable d t"
    with l show "ledger (d\<lparr>attempts := attempts d @ [t]\<rparr>)" by (rule ledger_reserved) }
  { fix j show "ledger (d\<lparr>jobs := jobs d @ [j]\<rparr>)"
      using l by (rule ledger_jobs) (auto simp: job_row_append) }
  { fix i show "ledger (d\<lparr>jobs := map (detach_repost i) (jobs d)\<rparr>)"
      using l by (rule ledger_jobs) (auto simp: job_row_map, simp add: detach_repost_def) }
next
  fix d d' :: db assume "ledger d" "jobs d' = jobs d" "attempts d' = attempts d"
  then show "ledger d'" by (intro ledger_jobs [of d d']) (auto simp: job_row_def)
qed

lemma ledger_empty: "ledger empty_db \<and> rows_ok empty_db"
  by (simp add: ledger_def rows_ok_def empty_db_def attempts_of_def numbered_def global_spent_def spent_on_def
      generation_daily_budget_def MaxGenerationAttempts_def)

section \<open>The spending operations as effects\<close>

lemma all_attempts_rows:
  "all_attempts d is = Inr ts \<Longrightarrow> rows_ok d \<Longrightarrow>
   map aID ts = is \<and> (\<forall>t \<in> set ts. t \<in> set (attempts d) \<and> validate_attempt t = None)"
proof (induction "is" arbitrary: ts)
  case (Cons i "is")
  from Cons.prems(1) obtain t us where t: "attempt_by_id d i = Inr t" "all_attempts d is = Inr us" "ts = t # us" by auto
  with Cons.IH [OF t(2) Cons.prems(2)] attempt_by_id_Inr [OF Cons.prems(2) t(1)] show ?case by simp
qed simp

lemma execution_attempts_valid:
  assumes "execution_attempts d i = Inr ts" "rows_ok d" "t \<in> set ts"
  shows "validate_attempt t = None \<and> t \<in> set (attempts d)"
  using all_attempts_rows [OF assms(1) [unfolded execution_attempts_def] assms(2)] assms(3) by blast

lemma execution_attempts_complete:
  assumes "execution_attempts d i = Inr ts" "rows_ok d" "length ts < 4"
  shows "ts = sort_key aAttemptNumber (attempts_of d i)"
proof -
  let ?xs = "sort_key aAttemptNumber (attempts_of d i)"
  have e: "all_attempts d (map aID (take 4 ?xs)) = Inr ts"
    using assms(1) by (simp add: execution_attempts_def MaxGenerationAttempts_def attempts_of_def)
  note m = all_attempts_rows [OF e assms(2)]
  have "length (map aID ts) = length (map aID (take 4 ?xs))" using m by simp
  with assms(3) have t: "take 4 ?xs = ?xs" by simp
  have "set ?xs \<subseteq> set (attempts d)" "set ts \<subseteq> set (attempts d)" using m by (auto simp: attempts_of_def)
  moreover have "inj_on aID (set (attempts d))" using assms(2) by (simp add: rows_ok_def distinct_map)
  ultimately have i: "inj_on aID (set ts \<union> set ?xs)" by (meson Un_least inj_on_subset)
  have "map aID ts = map aID ?xs" using m t by simp
  then show ?thesis using inj_on_map_eq_map [OF i] by blast
qed

lemma refuse_Inr: "refuse m r = Inr (d', a) \<longleftrightarrow> m = Inr d' \<and> a = (None, r)"
  by (cases m) (auto simp: refuse_def)

text \<open>A closing move of the job at hand.\<close>

lemma refuse_effects:
  assumes "rows_ok d" "j \<in> set (jobs d)"
  shows "refuse (skip_expired d j now) r = Inr (d', a) \<Longrightarrow> effects d d' \<and> fst a = None"
    "refuse (finish_job d j s r now av) r' = Inr (d', a) \<Longrightarrow> effects d d' \<and> fst a = None"
proof -
  assume "refuse (skip_expired d j now) r = Inr (d', a)"
  then have "job_changes d d'" "fst a = None" using skip_expired_changes [OF _ assms, of now d'] by (auto simp: refuse_Inr)
  then show "effects d d' \<and> fst a = None" using job_changes_effects by blast
next
  assume "refuse (finish_job d j s r now av) r' = Inr (d', a)"
  then have "job_changes d d'" "fst a = None" using finish_job_changes [OF _ assms, of s r now av d'] by (auto simp: refuse_Inr)
  then show "effects d d' \<and> fst a = None" using job_changes_effects by blast
qed

text \<open>The attempt that a reservation adds, and what was checked of it.\<close>

definition admitted ::
  "timezones \<Rightarrow> ID \<Rightarrow> time \<Rightarrow> GenerationJob \<Rightarrow> int \<Rightarrow> GenerationPolicy \<Rightarrow> int \<Rightarrow> Prompt \<Rightarrow> int \<Rightarrow>
   GenerationAttempt list \<Rightarrow> db \<Rightarrow> GenerationAttempt \<Rightarrow> bool" where
  "admitted tz fresh_id fresh job version policy revision prompt reserved ts d t \<longleftrightarrow>
     t = new_attempt fresh_id (jID job) (int (length ts) + 1) version revision prompt (format_date fresh) reserved fresh \<and>
     validate_attempt t = None \<and> validate_lease job version fresh = None \<and>
     0 \<le> global_spent d (aBudgetDay t) \<and> global_spent d (aBudgetDay t) + reserved \<le> generation_daily_budget \<and>
     agent_spent d (aBudgetDay t) (jAgentID job) + reserved \<le> pDailyTokenBudget policy"

lemma reserve_commit_cases:
  assumes "reserve_commit tz fresh_id day checked fresh job version policy revision prompt reserved ts allowed created d = Inr (d', a)"
    "rows_ok d" "job \<in> set (jobs d)"
  shows "fst a = None \<and> effects d d' \<or>
    (\<exists>t. a = (Some t, []) \<and> insert_attempt t d = Inr d' \<and> allowed \<and>
       admitted tz fresh_id fresh job version policy revision prompt reserved ts d t)"
proof -
  note r = refuse_effects [OF assms(2,3)]
  let ?g = "global_spent d day" and ?a = "agent_spent d day (jAgentID job)"
  let ?t = "new_attempt fresh_id (jID job) (int (length ts) + 1) version revision prompt day reserved fresh"
  let ?c1 = "\<not> fresh < jExpiresAt job"
  let ?c2 = "fresh < checked \<or> validate_lease job version fresh \<noteq> None \<or> format_date fresh \<noteq> day"
  let ?c3 = "\<not> allowed \<or> \<not> trigger_time_allowed tz job policy created fresh"
  let ?c4 = "?g < 0 \<or> ?a < 0 \<or> ?g > generation_daily_budget - reserved \<or> ?a > pDailyTokenBudget policy - reserved"
  note e = assms(1) [unfolded reserve_commit_def Let_def]
  consider "?c1" | "\<not> ?c1" "\<not> ?c2" "?c3" | "\<not> ?c1" "\<not> ?c2" "\<not> ?c3" "?c4"
    | "\<not> ?c2" "\<not> ?c3" "\<not> ?c4" "validate_attempt ?t = None" "insert_attempt ?t d = Inr d'" "a = (Some ?t, [])"
    using e by (auto split: if_splits)
  then show ?thesis
  proof cases
    case 1
    with e r(1) show ?thesis by (simp only: simp_thms if_True if_False; blast)
  next
    case 2
    with e r(2) show ?thesis by (simp only: simp_thms if_True if_False; blast)
  next
    case 3
    with e r(2) show ?thesis by (simp only: simp_thms if_True if_False; blast)
  next
    case 4
    then have "admitted tz fresh_id fresh job version policy revision prompt reserved ts d ?t"
      by (auto simp: admitted_def) (simp_all add: new_attempt_def)
    with 4 show ?thesis by blast
  qed
qed

lemma reserve_spend_cases:
  assumes "reserve_spend tz fresh_id now c2 c3 job version policy lastp revision prompt reserved ts d = Inr (d', a)"
    "rows_ok d" "job \<in> set (jobs d)"
  shows "fst a = None \<and> effects d d' \<or>
    (\<exists>t. a = (Some t, []) \<and> insert_attempt t d = Inr d' \<and> policy_allowed tz d job policy lastp (generation_instant c2) = Inr True \<and>
       admitted tz fresh_id (generation_instant c3) job version policy revision prompt reserved ts d t)"
proof (cases "generation_instant c2 < jExpiresAt job")
  case False
  with assms(1) refuse_effects(1) [OF assms(2,3)] show ?thesis by (auto simp: reserve_spend_def Let_def)
next
  case True
  with assms(1) obtain allowed created where c: "policy_allowed tz d job policy lastp (generation_instant c2) = Inr allowed"
    "reserve_commit tz fresh_id (format_date now) (generation_instant c2) (generation_instant c3) job version policy
       revision prompt reserved ts allowed created d = Inr (d', a)"
    by (auto simp: reserve_spend_def Let_def split: if_splits)
  from reserve_commit_cases [OF c(2) assms(2,3)] c(1) show ?thesis by auto
qed

lemma insert_attempt_Inr:
  "insert_attempt t d = Inr d' \<longleftrightarrow> d' = d\<lparr>attempts := attempts d @ [t]\<rparr> \<and> job_row d (aJobID t) \<noteq> None \<and>
     (\<forall>x \<in> set (attempts d). aID x \<noteq> aID t \<and> \<not> (aJobID x = aJobID t \<and> aAttemptNumber x = aAttemptNumber t))"
  by (auto simp: insert_attempt_def list_ex_iff)

lemma reserve_attempts_cases:
  assumes "reserve_attempts tz fresh_id now c2 c3 job version policy lastp revision prompt reserved ts d = Inr (d', a)"
    "rows_ok d" "job_row d (jID job) = Some job" "execution_attempts d (jID job) = Inr ts"
    "reserved = ReservedTokensPerCall"
  shows "effects d d' \<and> (\<forall>t. fst a = Some t \<longrightarrow> reservable d t \<and> d' = d\<lparr>attempts := attempts d @ [t]\<rparr> \<and>
       aID t = fresh_id \<and> aJobID t = jID job \<and> aLeaseVersion t = version \<and> aPauseRevision t = Some revision \<and>
       aContextHash t = prHash prompt \<and> aStartedAt t = generation_instant c3 \<and>
       policy_allowed tz d job policy lastp (generation_instant c2) = Inr True \<and>
       agent_spent d (aBudgetDay t) (jAgentID job) + aReservedTokens t \<le> pDailyTokenBudget policy)"
proof -
  have j: "job \<in> set (jobs d)" using assms(3) by (simp add: job_row_iff [OF assms(2)])
  note r = refuse_effects [OF assms(2) j]
  let ?leases = "list_ex (\<lambda>t. aLeaseVersion t = version) ts"
  let ?open = "ts \<noteq> [] \<and> (case aFinishedAt (last ts) of None \<Rightarrow> True | Some f \<Rightarrow> \<not> jAvailableAt job > f)"
  note e = assms(1) [unfolded reserve_attempts_def]
  consider (closed) "fst a = None \<and> effects d d'"
    | (spend) "\<not> ?leases" "int (length ts) < MaxGenerationAttempts" "\<not> ?open"
        "reserve_spend tz fresh_id now c2 c3 job version policy lastp revision prompt reserved ts d = Inr (d', a)"
  proof -
    consider "?leases" | "\<not> ?leases" "invalid_outputs ts > MaxGenerationInvalidRegenerations"
      | "\<not> ?leases" "\<not> invalid_outputs ts > MaxGenerationInvalidRegenerations" "int (length ts) \<ge> MaxGenerationAttempts"
      | "\<not> ?leases" "\<not> invalid_outputs ts > MaxGenerationInvalidRegenerations" "\<not> int (length ts) \<ge> MaxGenerationAttempts" "?open"
      | "\<not> ?leases" "\<not> invalid_outputs ts > MaxGenerationInvalidRegenerations" "\<not> int (length ts) \<ge> MaxGenerationAttempts" "\<not> ?open"
      by argo
    then show thesis
    proof cases
      case 1
      with e have "d' = d \<and> fst a = None" by (simp only: simp_thms if_True; auto)
      then show thesis using closed by simp
    next
      case 2
      with e r(2) have "fst a = None \<and> effects d d'" by (simp only: simp_thms if_True if_False; blast)
      then show thesis by (rule closed)
    next
      case 3
      with e r(2) have "fst a = None \<and> effects d d'" by (simp only: simp_thms if_True if_False; blast)
      then show thesis by (rule closed)
    next
      case 4
      with e have "d' = d \<and> fst a = None" by (simp only: if_True if_False simp_thms; auto)
      then show thesis using closed by simp
    next
      case 5
      with e have "reserve_spend tz fresh_id now c2 c3 job version policy lastp revision prompt reserved ts d = Inr (d', a)"
        by (simp only: simp_thms if_False)
      with 5 show thesis by (intro spend) simp_all
    qed
  qed
  then show ?thesis
  proof cases
    case spend
    have ts: "ts = sort_key aAttemptNumber (attempts_of d (jID job))"
      using spend(2) by (intro execution_attempts_complete [OF assms(4,2)]) (simp add: MaxGenerationAttempts_def)
    have l: "aLeaseVersion x \<noteq> version" if "x \<in> set (attempts_of d (jID job))" for x
      using spend(1) that unfolding list_ex_iff by (simp add: ts)
    have last: "aStatus (last ts) \<noteq> AttemptReserved" if "ts \<noteq> []"
    proof -
      from that have "validate_attempt (last ts) = None" using execution_attempts_valid [OF assms(4,2), of "last ts"] by simp
      moreover have "aFinishedAt (last ts) \<noteq> None" using spend(3) that by (cases "aFinishedAt (last ts)") auto
      ultimately show ?thesis by (auto simp: validate_attempt_iff attempt_state_def)
    qed
    from reserve_spend_cases [OF spend(4) assms(2) j] show ?thesis
    proof (elim disjE exE conjE)
      fix t
      assume a: "a = (Some t, [])" and ins: "insert_attempt t d = Inr d'"
        and p: "policy_allowed tz d job policy lastp (generation_instant c2) = Inr True"
        and ad: "admitted tz fresh_id (generation_instant c3) job version policy revision prompt reserved ts d t"
      have t: "t = new_attempt fresh_id (jID job) (int (length ts) + 1) version revision prompt
          (format_date (generation_instant c3)) reserved (generation_instant c3)"
        and v: "validate_attempt t = None"
        and lease: "validate_lease job version (generation_instant c3) = None"
        and g: "0 \<le> global_spent d (aBudgetDay t)" "global_spent d (aBudgetDay t) + reserved \<le> generation_daily_budget"
        and ag: "agent_spent d (aBudgetDay t) (jAgentID job) + reserved \<le> pDailyTokenBudget policy"
        using ad unfolding admitted_def by blast+
      have f: "aStatus t = AttemptReserved" "aReservedTokens t = reserved" "aJobID t = jID job" "aLeaseVersion t = version"
        "aAttemptNumber t = int (length ts) + 1" "aPauseRevision t = Some revision" "aContextHash t = prHash prompt" "aID t = fresh_id"
        "aStartedAt t = generation_instant c3"
        by (subst t, simp add: new_attempt_def)+
      have ne: "ts \<noteq> []" if "attempts_of d (jID job) \<noteq> []" using that ts by (metis length_0_conv length_sort)
      have lst: "attempts_of d (jID job) \<noteq> [] \<longrightarrow> aStatus (last (sort_key aAttemptNumber (attempts_of d (jID job)))) \<noteq> AttemptReserved"
        using last ne unfolding ts by blast
      have len: "length ts = length (attempts_of d (jID job))" unfolding ts by simp
      have "reservable d t"
        unfolding reservable_def using f v lease g l lst spend(2) ins assms(3,5) len
        by (auto simp: insert_attempt_Inr)
      moreover have "d' = d\<lparr>attempts := attempts d @ [t]\<rparr>" using ins by (simp add: insert_attempt_Inr)
      ultimately show ?thesis using a f ag p assms(5)
        by (auto intro: effect.reserved r_into_rtranclp)
    qed simp
  qed simp
qed

lemma if_Inl: "(if P then Inl e else m) = Inr y \<longleftrightarrow> \<not> P \<and> m = Inr y"
  by simp

lemma token_reservation_Inr: "token_reservation e m = Inr r \<Longrightarrow> r = ReservedTokensPerCall"
  by (auto simp: token_reservation_def split: if_splits)

lemma admission_reservation_Inr: "admission_reservation p = Inr r \<Longrightarrow> r = ReservedTokensPerCall"
  by (auto simp: admission_reservation_def dest: token_reservation_Inr split: if_splits)

text \<open>
  What a committed reservation has checked: the attempt is bound to the lease, to the pause revision of
  the agent's settings and to the hash of the prompt built from the given context; the current policy
  allows the job and its agent's daily budget covers the full price.
\<close>

definition reservation_checked ::
  "unicode \<Rightarrow> timezones \<Rightarrow> db \<Rightarrow> GenerationJob \<Rightarrow> GenerationContext \<Rightarrow> GenerationAttempt \<Rightarrow> time \<Rightarrow> bool" where
  "reservation_checked uc tz d job input t c \<longleftrightarrow>
     (\<exists>s prompt policy lastp. settings_by_id d (jAgentID job) = Some s \<and> aPauseRevision t = Some (sPauseRevision (srSettings s)) \<and>
        build_prompt job input = Inr prompt \<and> aContextHash t = prHash prompt \<and>
        policy_allowed tz d job policy lastp c = Inr True \<and>
        agent_spent d (aBudgetDay t) (jAgentID job) + aReservedTokens t \<le> pDailyTokenBudget policy \<and>
        (\<exists>refs. lock_eligibility uc tz d refs = Inr (Inr (policy, lastp))))"

lemma reserve_eligible_cases:
  assumes "reserve_eligible tz fresh_id now c2 c3 job version policy lastp input ts d = Inr (d', a)"
    "rows_ok d" "job_row d (jID job) = Some job" "execution_attempts d (jID job) = Inr ts"
    "lock_eligibility uc tz d refs = Inr (Inr (policy, lastp))"
  shows "effects d d' \<and> (\<forall>t. fst a = Some t \<longrightarrow> reservable d t \<and> d' = d\<lparr>attempts := attempts d @ [t]\<rparr> \<and>
       aID t = fresh_id \<and> aJobID t = jID job \<and> aLeaseVersion t = version \<and> aStartedAt t = generation_instant c3 \<and>
       reservation_checked uc tz d job input t (generation_instant c2))"
proof -
  have j: "job \<in> set (jobs d)" using assms(3) by (simp add: job_row_iff [OF assms(2)])
  from assms(1) obtain allowed where al: "policy_allowed tz d job policy lastp now = Inr allowed"
    by (auto simp: reserve_eligible_def)
  show ?thesis
  proof (cases allowed)
    case False
    with assms(1) al have "refuse (finish_job d job JobSkipped ''policy_denied'' now now) ''policy_denied'' = Inr (d', a)"
      by (simp add: reserve_eligible_def)
    with refuse_effects(2) [OF assms(2) j] show ?thesis by (metis option.distinct(1))
  next
    case True
    with assms(1) al obtain s prompt reserved where s: "settings_by_id d (jAgentID job) = Some s"
      and p: "build_prompt job input = Inr prompt" and r: "admission_reservation prompt = Inr reserved"
      and e: "reserve_attempts tz fresh_id now c2 c3 job version policy lastp (sPauseRevision (srSettings s)) prompt reserved ts d = Inr (d', a)"
      by (auto simp: reserve_eligible_def split: option.splits sum.splits)
    from reserve_attempts_cases [OF e assms(2,3,4) admission_reservation_Inr [OF r]] s p assms(5)
    show ?thesis unfolding reservation_checked_def by blast
  qed
qed

lemma reserve_generation_cases:
  assumes "reserve_generation uc tz fresh_id d0 c1 c2 c3 i version input d = Inr (d', a)" "rows_ok d"
  shows "effects d d' \<and> (\<forall>t. fst a = Some t \<longrightarrow> reservable d t \<and> d' = d\<lparr>attempts := attempts d @ [t]\<rparr> \<and>
       aID t = fresh_id \<and> aJobID t = i \<and> aLeaseVersion t = version \<and> aStartedAt t = generation_instant c3 \<and>
       (\<exists>job. job_row d i = Some job \<and> reservation_checked uc tz d job input t (generation_instant c2)))"
proof -
  let ?now = "generation_instant c1"
  from assms(1) obtain refs eligible job where
      el: "lock_eligibility uc tz d refs = Inr eligible" and jb: "job_by_id d i = Inr job"
    and rest: "(if jStatus refs \<noteq> jStatus job \<or> jLeaseVersion refs \<noteq> jLeaseVersion job \<or> jStatus job \<noteq> JobRunning \<or>
        jLeaseVersion job \<noteq> version \<or> jSourcePostID refs \<noteq> jSourcePostID job \<or>
        jSourceReplyID refs \<noteq> jSourceReplyID job \<or> jSourceRepostID refs \<noteq> jSourceRepostID job
     then Inl ErrConflict
     else
       and_then (execution_attempts d i) (\<lambda>ts.
       if \<not> ?now < jExpiresAt job then refuse (skip_expired d job ?now) ''stale_trigger''
       else if validate_lease job version ?now \<noteq> None then Inl ErrConflict
       else
         (case eligible of
            Inl denial \<Rightarrow>
              refuse (finish_job d job
                (if denial = ''source_removed'' \<or> denial = ''policy_disabled'' then JobCancelled else JobSkipped)
                denial ?now ?now) denial
          | Inr (policy, lastp) \<Rightarrow>
              reserve_eligible tz fresh_id ?now c2 c3 job version policy lastp input ts d))) = Inr (d', a)"
    unfolding reserve_generation_def Let_def and_then_Inr by blast
  from rest obtain ts where ts: "execution_attempts d i = Inr ts"
    and body: "(if \<not> ?now < jExpiresAt job then refuse (skip_expired d job ?now) ''stale_trigger''
       else if validate_lease job version ?now \<noteq> None then Inl ErrConflict
       else
         (case eligible of
            Inl denial \<Rightarrow>
              refuse (finish_job d job
                (if denial = ''source_removed'' \<or> denial = ''policy_disabled'' then JobCancelled else JobSkipped)
                denial ?now ?now) denial
          | Inr (policy, lastp) \<Rightarrow>
              reserve_eligible tz fresh_id ?now c2 c3 job version policy lastp input ts d)) = Inr (d', a)"
    by (simp only: if_Inl and_then_Inr) blast
  have j: "job \<in> set (jobs d)" "jID job = i" using job_by_id_Inr [OF assms(2) jb] by auto
  then have jr: "job_row d (jID job) = Some job" by (simp add: job_row_iff [OF assms(2)])
  note r = refuse_effects [OF assms(2) j(1)]
  show ?thesis
  proof (cases "?now < jExpiresAt job")
    case False
    with body have "refuse (skip_expired d job ?now) ''stale_trigger'' = Inr (d', a)" by simp
    from r(1) [OF this] show ?thesis by simp
  next
    case live: True
    show ?thesis
    proof (cases eligible)
      case (Inl denial)
      with body live have "refuse (finish_job d job
                (if denial = ''source_removed'' \<or> denial = ''policy_disabled'' then JobCancelled else JobSkipped)
                denial ?now ?now) denial = Inr (d', a)"
        by (auto split: if_split_asm)
      from r(2) [OF this] show ?thesis by simp
    next
      case (Inr pl)
      then obtain policy lastp where pl: "eligible = Inr (policy, lastp)" by (cases pl) auto
      with body live have "reserve_eligible tz fresh_id ?now c2 c3 job version policy lastp input ts d = Inr (d', a)"
        by (auto split: if_split_asm)
      from reserve_eligible_cases [OF this assms(2) jr] ts el pl jr j(2) show ?thesis by auto
    qed
  qed
qed

text \<open>Settling and recovering replace one reserved attempt by an accepted successor.\<close>

lemma settle_effect:
  assumes "rows_ok d" "b \<in> set (attempts d)" "aStatus b = AttemptReserved" "validate_attempt_transition b (f b) = None"
    "update_attempts d (\<lambda>t. aID t = aID b \<and> aStatus t = AttemptReserved) f = Inr d'"
  shows "d' = replace_attempt (f b) d \<and> effect d d'"
proof -
  have "aID (f b) = aID b" using assms(4) by (simp add: attempt_transition_iff same_reservation_def)
  from update_attempts_replace [of d b "\<lambda>t. aID t = aID b \<and> aStatus t = AttemptReserved" f, OF assms(1,2) _ this] assms(3,5)
  have "d' = replace_attempt (f b) d" by simp
  with effect.settled [OF assms(2,4)] show ?thesis by simp
qed

lemma settle_row_after:
  assumes "same_reservation b reserved" "validate_attempt reserved = None" "aStatus reserved = AttemptReserved"
  shows "settle_row (settle_fields o1 r now reserved) b = settle_fields o1 r now reserved"
  using assms by (simp add: settle_row_def settle_fields_def Let_def same_reservation_def)

lemma settle_generation_cases:
  assumes "settle_generation reserved outcome request_id c d = Inr (d', ok)" "rows_ok d"
  obtains (repeated) o1 b where "d' = d" "normalize_outcome outcome = Inr o1" "b \<in> set (attempts d)"
      "same_reservation b reserved" "aStatus b \<noteq> AttemptReserved"
      "ok = same_settlement b (settle_fields o1 request_id (generation_instant c) reserved)"
  | (settled) o1 b where "normalize_outcome outcome = Inr o1" "b \<in> set (attempts d)" "same_reservation b reserved"
      "aStatus b = AttemptReserved" "ok"
      "validate_attempt_transition b (settle_fields o1 request_id (generation_instant c) reserved) = None"
      "d' = replace_attempt (settle_fields o1 request_id (generation_instant c) reserved) d" "effect d d'"
proof -
  let ?after = "\<lambda>o1. settle_fields o1 request_id (generation_instant c) reserved"
  note e = assms(1) [unfolded settle_generation_def Let_def if_Inl and_then_Inr]
  then have v: "validate_attempt reserved = None" "aStatus reserved = AttemptReserved" by auto
  from e obtain o1 b where o1: "normalize_outcome outcome = Inr o1" and b: "attempt_by_id d (aID reserved) = Inr b"
    and same: "same_reservation b reserved"
    and body: "(if aStatus b \<noteq> AttemptReserved then Inr (d, same_settlement b (?after o1))
            else
              and_then (ensure (validate_attempt_transition b (?after o1) = None) (invalid_generation ''outcome'')) (\<lambda>_.
              and_then (update_attempts d (\<lambda>t. aID t = aID b \<and> aStatus t = AttemptReserved) (settle_row (?after o1))) (\<lambda>d'.
              Inr (d', True)))) = Inr (d', ok)"
    by blast
  have bd: "b \<in> set (attempts d)" using attempt_by_id_Inr [OF assms(2) b] by simp
  show thesis
  proof (cases "aStatus b = AttemptReserved")
    case False
    with body have "d' = d" "ok = same_settlement b (?after o1)" by auto
    with o1 bd same False show thesis by (intro repeated)
  next
    case True
    with body have t: "validate_attempt_transition b (?after o1) = None"
      and u: "update_attempts d (\<lambda>t. aID t = aID b \<and> aStatus t = AttemptReserved) (settle_row (?after o1)) = Inr d'" and ok
      by auto
    note r = settle_row_after [OF same v, of o1 request_id "generation_instant c"]
    from settle_effect [OF assms(2) bd True _ u] t r have "d' = replace_attempt (?after o1) d" "effect d d'" by auto
    with o1 bd same True \<open>ok\<close> t show thesis by (intro settled)
  qed
qed

lemma settle_generation_effects:
  assumes "settle_generation reserved outcome request_id c d = Inr (d', ok)" "rows_ok d"
  shows "effects d d'"
  using assms by (cases rule: settle_generation_cases) auto

lemma recover_ids_effects:
  "recover_ids clocks is d = Inr (d', n) \<Longrightarrow> rows_ok d \<Longrightarrow> effects d d'"
proof (induction clocks "is" d arbitrary: d' n rule: recover_ids.induct)
  case (3 c clocks i "is" d)
  let ?now = "generation_instant c"
  from "3.prems"(1) obtain b job where b: "attempt_by_id d i = Inr b" and job: "job_by_id d (aJobID b) = Inr job" by auto
  let ?keep = "aStatus b \<noteq> AttemptReserved \<or> jStatus job = JobRunning \<and> jLeaseVersion job = aLeaseVersion b \<and>
          (case jLeaseExpiresAt job of None \<Rightarrow> False | Some e \<Rightarrow> ?now < e) \<and> ?now < jExpiresAt job"
  have bd: "b \<in> set (attempts d)" "aID b = i" using attempt_by_id_Inr [OF "3.prems"(2) b] by auto
  show ?case
  proof (cases ?keep)
    case True
    with "3.prems"(1) b job have "recover_ids clocks is d = Inr (d', n)" by (simp add: Let_def)
    with "3.IH"(1) [OF refl True] "3.prems"(2) show ?thesis by blast
  next
    case False
    then have s: "aStatus b = AttemptReserved" by blast
    from "3.prems"(1) b job have "(if ?keep then recover_ids clocks is d else
       and_then (ensure (validate_attempt_transition b (lose_lease ?now b) = None) ErrConflict) (\<lambda>_.
       and_then (update_attempts d (\<lambda>t. aID t = i \<and> aStatus t = AttemptReserved) (lose_lease ?now)) (\<lambda>d'.
       and_then (recover_ids clocks is d') (\<lambda>(d'', n). Inr (d'', Suc n))))) = Inr (d', n)"
      by (simp only: recover_ids.simps and_then_simps Let_def)
    with False obtain e m where t: "validate_attempt_transition b (lose_lease ?now b) = None"
      and u: "update_attempts d (\<lambda>t. aID t = i \<and> aStatus t = AttemptReserved) (lose_lease ?now) = Inr e"
      and rest: "recover_ids clocks is e = Inr (d', m)"
      by (simp only: if_False) auto
    from settle_effect [of d b "lose_lease ?now" e, OF "3.prems"(2) bd(1) s t] u bd(2) have ef: "effect d e" by blast
    have "rows_ok e" using effect_rows_ok [OF ef "3.prems"(2)] .
    from "3.IH"(2) [OF refl False rest this] ef show ?thesis by simp
  qed
qed auto

lemma recover_attempts_effects:
  "recover_attempts locked c clocks d = Inr (d', n) \<Longrightarrow> rows_ok d \<Longrightarrow> effects d d'"
  unfolding recover_attempts_def by (rule recover_ids_effects)

lemma retry_locked_cases:
  assumes "retry_locked tz c job policy lastp d = Inr (d', r)" "rows_ok d" "job_row d (jID job) = Some job"
  shows "d' = replace_job r d \<and> job_change d d' \<and>
    (\<exists>ts. execution_attempts d (jID job) = Inr ts \<and> retry_history_open job ts \<and>
       r = retried (retry_available ts (generation_instant c)) job \<and> jStatus job = JobFailed \<and>
       policy_allowed tz d job policy lastp (generation_instant c) = Inr True \<and>
       retry_available ts (generation_instant c) < jExpiresAt job)"
proof -
  let ?now = "generation_instant c"
  have j: "job \<in> set (jobs d)" using assms(3) by (simp add: job_row_iff [OF assms(2)])
  from assms(1) obtain ts where ts: "execution_attempts d (jID job) = Inr ts" and s: "jStatus job = JobFailed"
    and h: "retry_history_open job ts" and al: "policy_allowed tz d job policy lastp ?now = Inr True"
    and lt: "retry_available ts ?now < jExpiresAt job"
    and t: "validate_transition job (retried (retry_available ts ?now) job) (jLeaseVersion job) ?now None = None"
    and u: "update_jobs d (\<lambda>j. jID j = jID job \<and> jLeaseVersion j = jLeaseVersion job \<and> jStatus j = JobFailed)
        (retried (retry_available ts ?now)) = Inr d'"
    and r: "r = retried (retry_available ts ?now) job"
    unfolding retry_locked_def Let_def if_Inl and_then_Inr by auto
  have "jID (retried (retry_available ts ?now) job) = jID job" by (simp add: retried_def)
  from update_jobs_replace [of d job "\<lambda>j. jID j = jID job \<and> jLeaseVersion j = jLeaseVersion job \<and> jStatus j = JobFailed"
        "retried (retry_available ts ?now)", OF assms(2) j _ this] u s
  have "d' = replace_job r d" by (simp add: r)
  with job_changeI [OF j t] r ts s h al lt show ?thesis by blast
qed

lemma retry_generation_cases:
  assumes "retry_generation uc tz d0 c i d = Inr (d', r)" "rows_ok d"
  shows "job_change d d' \<and> d' = replace_job r d \<and>
    (\<exists>job ts. job_row d i = Some job \<and> execution_attempts d i = Inr ts \<and> retry_history_open job ts \<and>
       jStatus job = JobFailed \<and> r = retried (retry_available ts (generation_instant c)) job)"
proof -
  from assms(1) obtain read el where
    el: "(case el of
         Inl denial \<Rightarrow> Inl (if denial = ''source_removed'' then ErrDeleted else ErrForbidden)
       | Inr (policy, last_published) \<Rightarrow>
           and_then (if jRootJobID read \<noteq> jID read then job_by_id d (jRootJobID read) else Inr read) (\<lambda>_.
           and_then (job_by_id d i) (\<lambda>job. retry_locked tz c job policy last_published d))) = Inr (d', r)"
    by (cases "parse_id i") (auto simp: retry_generation_def)
  then obtain job policy lastp where jb: "job_by_id d i = Inr job"
    and l: "retry_locked tz c job policy lastp d = Inr (d', r)"
    by (cases el) auto
  have j: "job \<in> set (jobs d)" "jID job = i" using job_by_id_Inr [OF assms(2) jb] by auto
  then have "job_row d (jID job) = Some job" by (simp add: job_row_iff [OF assms(2)])
  from retry_locked_cases [OF l assms(2) this] j(2) this show ?thesis by auto
qed

end
