(* ===== verification/Admission.thy ===== *)
theory Admission
  imports Effects
begin

text \<open>
  Admission of generation work: the derived source of a social action (\<open>internal/postgres/generation_source.go\<close>),
  the candidates among the configured agents (\<open>generation_candidates.go\<close>), the quotas of an enqueue
  (\<open>generation_admission.go\<close>) and the continuation of a published job (\<open>generation_continuation.go\<close>); and
  \<open>ValidateGenerationContinuation\<close> of \<open>internal/app/generation_job.go\<close>.
\<close>

section \<open>Continuations of a chain\<close>

definition validate_continuation :: "GenerationJob \<Rightarrow> GenerationJob \<Rightarrow> GenerationJob \<Rightarrow> go_error option" where
  "validate_continuation root parent child =
     or_else (validate_job root) (or_else (validate_job parent) (or_else (validate_job child)
     (first_error
       [(jChainDepth root \<noteq> 0 \<or> jRootJobID parent \<noteq> jID root \<or> jRootJobID child \<noteq> jID root \<or>
         jTriggerKind child \<noteq> TriggerContinuation \<or> jChainDepth child \<noteq> jChainDepth parent + 1,
         Errorf ''invalid continuation lineage''),
        (jMaxChainDepth parent \<noteq> jMaxChainDepth root \<or> jMaxChainJobs parent \<noteq> jMaxChainJobs root \<or>
         jMaxChainDepth child \<noteq> jMaxChainDepth root \<or> jMaxChainJobs child \<noteq> jMaxChainJobs root,
         Errorf ''continuations must inherit immutable root limits'')])))"

section \<open>Inserting a job\<close>

text \<open>
  \<open>INSERT INTO generation_jobs ... ON CONFLICT (agent_id, trigger_key) DO NOTHING\<close>: the references the schema
  declares must exist, a child must match its root's limits, and the primary key must be free.
\<close>

definition job_references_ok :: "db \<Rightarrow> GenerationJob \<Rightarrow> bool" where
  "job_references_ok d j \<longleftrightarrow>
     persona_by_key d (jAgentID j) (jPersonaVersion j) \<noteq> None \<and>
     (case jTriggerActorID j of None \<Rightarrow> True | Some i \<Rightarrow> account_by_id d i \<noteq> None) \<and>
     (case jSourcePostID j of None \<Rightarrow> True | Some i \<Rightarrow> post_by_id d i \<noteq> None) \<and>
     (case jSourceReplyID j of None \<Rightarrow> True | Some i \<Rightarrow> reply_by_id d i \<noteq> None) \<and>
     (case jSourceRepostID j of None \<Rightarrow> True | Some i \<Rightarrow> repost_by_id d i \<noteq> None) \<and>
     root_ok d j"

definition insert_job :: "GenerationJob \<Rightarrow> db \<Rightarrow> go_error + db \<times> bool" where
  "insert_job j d =
     (if list_ex (same_trigger j) (jobs d) then Inr (d, False)
      else if job_row d (jID j) \<noteq> None then Inl ErrConflict
      else if \<not> job_references_ok d j then Inl ErrUnavailable
      else Inr (d\<lparr>jobs := jobs d @ [j]\<rparr>, True))"

section \<open>Sources\<close>

record generation_source =
  gsKind :: GenerationTrigger
  gsAction :: ID
  gsActor :: ID
  gsPost :: ID
  gsPriorityAuthor :: ID
  gsReply :: "ID option"
  gsRepost :: "ID option"
  gsQuoted :: "ID option"
  gsBody :: string
  gsCreated :: time

text \<open>The post an action belongs to, and the reply or repost it is.\<close>

definition source_post :: "db \<Rightarrow> GenerationTrigger \<Rightarrow> ID \<Rightarrow> go_error + ID" where
  "source_post d kind action =
     (if kind = TriggerReply then
        (case reply_by_id d action of None \<Rightarrow> Inl ErrNotFound | Some r \<Rightarrow> Inr (rePostID r))
      else if kind = TriggerRepost then
        (case repost_by_id d action of None \<Rightarrow> Inl ErrNotFound | Some r \<Rightarrow> Inr (rpPostID r))
      else if kind = TriggerHumanPost \<or> kind = TriggerQuote then Inr action
      else Inl ErrForbidden)"

definition social_source :: "db \<Rightarrow> GenerationTrigger \<Rightarrow> ID \<Rightarrow> go_error + generation_source" where
  "social_source d kind action =
     and_then (source_post d kind action) (\<lambda>post.
     (case post_by_id d post of
        None \<Rightarrow> Inl ErrNotFound
      | Some p \<Rightarrow>
          if poDeletedAt p \<noteq> None then Inl ErrDeleted
          else
            let s = \<lparr>gsKind = kind, gsAction = action, gsActor = poAuthorID p, gsPost = post,
                     gsPriorityAuthor = poAuthorID p, gsReply = None, gsRepost = None,
                     gsQuoted = poQuotedPostID p, gsBody = poBody p, gsCreated = poCreatedAt p\<rparr>
            in if kind = TriggerReply then
                 (case reply_by_id d action of
                    None \<Rightarrow> Inl ErrNotFound
                  | Some r \<Rightarrow> if rePostID r \<noteq> post then Inl ErrNotFound
                              else if reDeletedAt r \<noteq> None then Inl ErrDeleted
                              else Inr (s\<lparr>gsReply := Some action, gsActor := reAuthorID r, gsBody := reBody r,
                                          gsCreated := reCreatedAt r\<rparr>))
               else if kind = TriggerRepost then
                 (case repost_by_id d action of
                    None \<Rightarrow> Inl ErrNotFound
                  | Some r \<Rightarrow> if rpPostID r \<noteq> post then Inl ErrNotFound
                              else Inr (s\<lparr>gsRepost := Some action, gsActor := rpAccountID r, gsCreated := rpCreatedAt r\<rparr>))
               else if kind = TriggerQuote then
                 (case poQuotedPostID p of
                    None \<Rightarrow> Inl ErrForbidden
                  | Some q \<Rightarrow> (case post_by_id d q of None \<Rightarrow> Inl ErrNotFound
                              | Some o1 \<Rightarrow> Inr (s\<lparr>gsPriorityAuthor := poAuthorID o1\<rparr>)))
               else if poQuotedPostID p \<noteq> None then Inl ErrForbidden else Inr s))"

section \<open>Candidates\<close>

definition max_configured_agents :: nat where "max_configured_agents = 1000"
definition generation_candidate_limit :: nat where "generation_candidate_limit = 32"

fun position :: "'a \<Rightarrow> 'a list \<Rightarrow> nat option" where
  "position x [] = None"
| "position x (y # ys) = (if x = y then Some 0 else map_option Suc (position x ys))"

text \<open>The rank of an agent for a source: its author, then mentions in their order, then topics; \<open>-1\<close> for none.\<close>

definition candidate_rank :: "unicode \<Rightarrow> ID \<Rightarrow> string \<Rightarrow> string list \<Rightarrow> generation_source \<Rightarrow> int" where
  "candidate_rank uc i handle topics source =
     (if i = gsActor source then - 1
      else if i = gsPriorityAuthor source then 0
      else (case position handle (generation_mentions uc (gsBody source)) of
              Some n \<Rightarrow> int n + 1
            | None \<Rightarrow> if list_ex (\<lambda>t. tgSlug t \<in> set topics) (extract_tags uc (gsBody source))
                      then int MaxGenerationMentions + 1 else - 1))"

type_synonym candidate = "AgentSettings \<times> int"

definition candidate_order :: "int \<times> ID \<Rightarrow> int \<times> ID" where
  "candidate_order c = c"

text \<open>The fleet query: settings joined with account and selected persona, at most one row above the limit.\<close>

definition fleet_rows :: "db \<Rightarrow> (Account \<times> AgentSettings \<times> Persona) list" where
  "fleet_rows d =
     concat (map (\<lambda>i. case (account_by_id d i, settings_by_id d i) of
          (Some a, Some r) \<Rightarrow>
            (case persona_by_key d i (sPersonaVersion (srSettings r)) of
               None \<Rightarrow> [] | Some p \<Rightarrow> [(a, srSettings r, p)])
        | _ \<Rightarrow> [])
       (take (max_configured_agents + 1) (sort (map (\<lambda>r. sAgentID (srSettings r)) (settings d)))))"

definition topics_json_limit :: nat where "topics_json_limit = 4096"

definition candidate_ids :: "unicode \<Rightarrow> db \<Rightarrow> generation_source \<Rightarrow> ID list" where
  "candidate_ids uc d source =
     (let rows = fleet_rows d;
          ranked = concat (map (\<lambda>(a, s, p).
             if \<not> sEnabled s \<or> DisabledAt a \<noteq> None \<or> acc_Type a \<noteq> AccountAgent \<or>
                length (json_array (map json_quote (perTopicTags p))) > topics_json_limit
             then []
             else let r = candidate_rank uc (acc_ID a) (Handle a) (perTopicTags p) source in
                  if r \<ge> 0 then [(r, acc_ID a)] else []) rows)
      in if length rows > max_configured_agents then []
         else map snd (take generation_candidate_limit (sort_key candidate_order ranked)))"

definition agent_handle :: "db \<Rightarrow> ID \<Rightarrow> string" where
  "agent_handle d i =
     (case account_by_id d i of None \<Rightarrow> []
      | Some a \<Rightarrow> if acc_Type a = AccountAgent \<and> DisabledAt a = None then Handle a else [])"

text \<open>
  \<open>lockPreparedGenerationCandidates\<close>: the discovered agents, revalidated under their locks, in rank order;
  a publisher's own settings come back apart and are checked against its pinned persona.
\<close>

fun lock_loop ::
  "unicode \<Rightarrow> timezones \<Rightarrow> db \<Rightarrow> generation_source \<Rightarrow> GenerationJob option \<Rightarrow> ID list \<Rightarrow> candidate list \<Rightarrow>
   AgentSettings option \<Rightarrow> go_error + candidate list \<times> AgentSettings option" where
  "lock_loop uc tz d source publisher [] cs own = Inr (cs, own)"
| "lock_loop uc tz d source publisher (i # is) cs own =
     (if i = gsActor source \<and> publisher = None \<or> agent_handle d i = []
      then lock_loop uc tz d source publisher is cs own
      else
        (case settings_by_id d i of
           None \<Rightarrow> lock_loop uc tz d source publisher is cs own
         | Some r \<Rightarrow>
             let s = srSettings r in
             if \<not> srDecodable r \<or> \<not> sEnabled s \<or> validate_settings tz s \<noteq> None
             then lock_loop uc tz d source publisher is cs own
             else if map_option jAgentID publisher = Some i then
               (if sRemainingSlots s > 0 \<and> sNextPostAt s = None then lock_loop uc tz d source publisher is cs own
                else and_then (execution_persona uc d (the publisher)) (\<lambda>_.
                     lock_loop uc tz d source publisher is cs (Some s)))
             else
               (case persona_by_key d i (sPersonaVersion s) of
                  None \<Rightarrow> lock_loop uc tz d source publisher is cs own
                | Some p \<Rightarrow>
                    if validate_persona uc p \<noteq> None then lock_loop uc tz d source publisher is cs own
                    else let k = candidate_rank uc i (agent_handle d i) (perTopicTags p) source in
                         lock_loop uc tz d source publisher is (if k \<ge> 0 then cs @ [(s, k)] else cs) own)))"

definition lock_prepared ::
  "unicode \<Rightarrow> timezones \<Rightarrow> db \<Rightarrow> generation_source \<Rightarrow> ID list \<Rightarrow> bool \<Rightarrow> GenerationJob option \<Rightarrow>
   go_error + candidate list \<times> AgentSettings option" where
  "lock_prepared uc tz d source ids continuation publisher =
     (let all = remdups_adj (sort (ids @ (if continuation then [gsActor source] else [])))
      in if continuation \<and> agent_handle d (gsActor source) = [] then Inr ([], None)
         else and_then (lock_loop uc tz d source publisher all [] None) (\<lambda>(cs, own).
              Inr (sort_key (\<lambda>(s, k). (k, sAgentID s)) cs, own)))"

section \<open>Quotas of an enqueue\<close>

definition reply_allowance :: "timezones \<Rightarrow> db \<Rightarrow> AgentSettings \<Rightarrow> ID \<Rightarrow> string \<Rightarrow> time \<Rightarrow> bool" where
  "reply_allowance tz d s post cooldown now =
     (let p = sPolicy s; mine = (\<lambda>j. jAgentID j = sAgentID s); (start, end) = local_day_bounds now (policy_location tz p)
      in \<not> (case sLastPublishedAt s of None \<Rightarrow> False | Some l \<Rightarrow> now < l + pMinSpacingSeconds p * second) \<and>
         \<not> list_ex (\<lambda>j. jCooldownKey j = cooldown \<and> jCreatedAt j \<ge> now - pCooldownSeconds p * second) (jobs d) \<and>
         \<not> list_ex (\<lambda>j. mine j \<and> (jOutputKind j = OutputPost \<or> response_output (jOutputKind j)) \<and>
                      jCreatedAt j > now - pMinSpacingSeconds p * second) (jobs d) \<and>
         count_jobs d (\<lambda>j. mine j \<and> response_output (jOutputKind j) \<and> start \<le> jCreatedAt j \<and> jCreatedAt j < end)
           < pReplyCapPerDay p \<and>
         count_jobs d (\<lambda>j. mine j \<and> response_output (jOutputKind j) \<and> jSourcePostID j = Some post)
           < pReplyCapPerConversation p)"

text \<open>Whether a candidate's policy admits the source at all; the shared caps are the strictest of those that do.\<close>

definition candidate_admits :: "generation_source \<Rightarrow> bool \<Rightarrow> candidate \<Rightarrow> bool" where
  "candidate_admits source direct c =
     (let p = sPolicy (fst c) in
      \<not> (generation_probability p (gsKind source) = 0 \<or> pMaxAgentsPerTrigger p = 0 \<or> pReplyCapPerDay p = 0 \<or>
         pReplyCapPerConversation p = 0) \<and>
      \<not> (direct \<and> pHumanTriggerCapPerWindow p = 0 \<or> \<not> direct \<and> pMaxChainDepth p = 0))"

definition action_cap :: "candidate list \<Rightarrow> int" where
  "action_cap cs = foldl (\<lambda>m c. min m (pMaxAgentsPerTrigger (sPolicy (fst c)))) 10 cs"

definition human_cap :: "candidate list \<Rightarrow> int" where
  "human_cap cs = foldl (\<lambda>m c. min m (pHumanTriggerCapPerWindow (sPolicy (fst c)))) 1000 cs"

definition human_window :: "candidate list \<Rightarrow> int" where
  "human_window cs = foldl (\<lambda>m c. max m (pHumanTriggerWindowSeconds (sPolicy (fst c)))) 0 cs"

definition social_job ::
  "ID \<Rightarrow> generation_source \<Rightarrow> AgentSettings \<Rightarrow> string \<Rightarrow> string \<Rightarrow> time \<Rightarrow> time \<Rightarrow> time \<Rightarrow> GenerationJob" where
  "social_job i source s key cooldown clock available expires =
     \<lparr>jID = i, jAgentID = sAgentID s, jPersonaVersion = sPersonaVersion s, jTriggerKind = gsKind source,
      jTriggerKey = key, jTriggerActorID = Some (gsActor source), jCooldownKey = cooldown,
      jSourcePostID = Some (gsPost source), jSourceReplyID = gsReply source, jSourceRepostID = gsRepost source,
      jOutputKind = OutputReply, jRootJobID = i, jChainDepth = 0, jMaxChainDepth = pMaxChainDepth (sPolicy s),
      jMaxChainJobs = pMaxChainJobs (sPolicy s), jStatus = JobPending, jAvailableAt = available,
      jExpiresAt = expires, jLeaseVersion = 0, jLeaseExpiresAt = None, jResultPostID = None, jResultReplyID = None,
      jPublishedAttemptID = None, jReasonCode = [], jCreatedAt = clock, jFinishedAt = None\<rparr>"

definition continued :: "GenerationJob \<Rightarrow> GenerationJob \<Rightarrow> GenerationJob \<Rightarrow> GenerationJob" where
  "continued root parent j =
     j\<lparr>jRootJobID := jID root, jChainDepth := jChainDepth parent + 1, jMaxChainDepth := jMaxChainDepth root,
       jMaxChainJobs := jMaxChainJobs root\<rparr>"

section \<open>The admission loop\<close>

text \<open>Drawing an out-of-range delay consumes the draw; every other failure of the timing comes before it.\<close>

definition draws_after :: "go_error \<Rightarrow> draws \<Rightarrow> draws" where
  "draws_after e draw = (if e = Errorf ''random draw is outside its bound'' then tl draw else draw)"

text \<open>
  One candidate: \<open>Inr\<close> with the flag whether a job was inserted.  \<open>fresh k\<close> is the identifier that the
  \<open>k\<close>-th call of \<open>NewID\<close> returns.
\<close>

type_synonym admission_state = "db \<times> draws \<times> nat"

definition admit_job ::
  "(nat \<Rightarrow> ID) \<Rightarrow> generation_source \<Rightarrow> GenerationJob option \<Rightarrow> GenerationJob \<Rightarrow> AgentSettings \<Rightarrow> string \<Rightarrow> string \<Rightarrow>
   time \<Rightarrow> time \<Rightarrow> time \<Rightarrow> draws \<Rightarrow> nat \<Rightarrow> db \<Rightarrow> go_error + admission_state \<times> bool" where
  "admit_job fresh source parent root s key cooldown clock available expires draw k d =
     (let j0 = social_job (fresh k) source s key cooldown clock available expires;
          j = (case parent of None \<Rightarrow> j0 | Some p \<Rightarrow> continued root p j0)
      in if parent \<noteq> None \<and> validate_continuation root (the parent) j \<noteq> None then Inl ErrUnavailable
         else if validate_job j \<noteq> None then Inl ErrUnavailable
         else and_then (insert_job j d) (\<lambda>(d', inserted). Inr ((d', draw, Suc k), inserted)))"

definition admit_timed ::
  "timezones \<Rightarrow> (nat \<Rightarrow> ID) \<Rightarrow> generation_source \<Rightarrow> GenerationJob option \<Rightarrow> GenerationJob \<Rightarrow> AgentSettings \<Rightarrow> string \<Rightarrow>
   time \<Rightarrow> admission_state \<Rightarrow> go_error + admission_state \<times> bool" where
  "admit_timed tz fresh source parent root s key clock st =
     (case st of (d, draw, k) \<Rightarrow>
      (case response_timing tz (sPolicy s) (gsCreated source) clock draw of
         Inl e \<Rightarrow> Inr ((d, draws_after e draw, k), False)
       | Inr ((available, expires), draw') \<Rightarrow>
           (case cooldown_key (gsActor source) (sAgentID s) (gsPost source) (gsKind source) of
              Inl _ \<Rightarrow> Inl ErrUnavailable
            | Inr cooldown \<Rightarrow>
                if \<not> reply_allowance tz d s (gsPost source) cooldown clock then Inr ((d, draw', k), False)
                else admit_job fresh source parent root s key cooldown clock available expires draw' k d)))"

definition admit_candidate ::
  "timezones \<Rightarrow> (nat \<Rightarrow> ID) \<Rightarrow> generation_source \<Rightarrow> GenerationJob option \<Rightarrow> GenerationJob \<Rightarrow> string \<Rightarrow> time \<Rightarrow> int \<Rightarrow>
   AgentSettings \<Rightarrow> admission_state \<Rightarrow> go_error + admission_state \<times> bool" where
  "admit_candidate tz fresh source parent root key clock chain_jobs s st =
     (case st of (d, draw, k) \<Rightarrow>
      let p = sPolicy s; probability = generation_probability p (gsKind source) in
      if parent \<noteq> None \<and>
         (jChainDepth (the parent) + 1 > min (jMaxChainDepth root) (pMaxChainDepth p) \<or>
          chain_jobs \<ge> min (jMaxChainJobs root) (pMaxChainJobs p))
      then Inr (st, False)
      else if probability < 10000 then
        (if draw = [] then Inl ErrUnavailable
         else let sample = hd draw 10000 in
              if sample < 0 \<or> sample \<ge> 10000 then Inl ErrUnavailable
              else if sample \<ge> probability then Inr ((d, tl draw, k), False)
              else admit_timed tz fresh source parent root s key clock (d, tl draw, k))
      else admit_timed tz fresh source parent root s key clock st)"

text \<open>The loop with its three counters; it stops at the action cap and at the human cap.\<close>

fun admit_loop ::
  "timezones \<Rightarrow> (nat \<Rightarrow> ID) \<Rightarrow> generation_source \<Rightarrow> GenerationJob option \<Rightarrow> GenerationJob \<Rightarrow> string \<Rightarrow> time \<Rightarrow>
   int \<Rightarrow> int \<Rightarrow> int \<Rightarrow> candidate list \<Rightarrow> nat \<Rightarrow> int \<Rightarrow> int \<Rightarrow> admission_state \<Rightarrow> go_error + db \<times> nat" where
  "admit_loop tz fresh source parent root key clock acap hcap prior [] enqueued human chain st = Inr (fst st, enqueued)"
| "admit_loop tz fresh source parent root key clock acap hcap prior (c # cs) enqueued human chain st =
     (if int enqueued + prior \<ge> acap \<or> parent = None \<and> human \<ge> hcap then Inr (fst st, enqueued)
      else
        and_then (admit_candidate tz fresh source parent root key clock chain (fst c) st) (\<lambda>(st', inserted).
        if inserted
        then admit_loop tz fresh source parent root key clock acap hcap prior cs (Suc enqueued)
               (if parent = None then human + 1 else human) (if parent = None then chain else chain + 1) st'
        else admit_loop tz fresh source parent root key clock acap hcap prior cs enqueued human chain st'))"

definition at_most :: "int \<Rightarrow> int \<Rightarrow> int" where
  "at_most limit n = min n limit"

text \<open>\<open>admitPreparedGenerationSource\<close>; counting queries stop at their row limit.\<close>

definition admit_prepared ::
  "timezones \<Rightarrow> (nat \<Rightarrow> ID) \<Rightarrow> generation_source \<Rightarrow> GenerationJob option \<Rightarrow> GenerationJob \<Rightarrow> candidate list \<Rightarrow> time \<Rightarrow>
   draws \<Rightarrow> db \<Rightarrow> go_error + db \<times> nat" where
  "admit_prepared tz fresh source parent root candidates c draw d =
     (let eligible = filter (candidate_admits source (parent = None)) candidates;
          clock = generation_instant c;
          acap = action_cap eligible; hcap = human_cap eligible;
          human = at_most hcap (count_jobs d (\<lambda>j. jTriggerActorID j = Some (gsActor source) \<and>
             human_trigger (jTriggerKind j) \<and> jCreatedAt j \<ge> clock - human_window eligible * second));
          chain = at_most (jMaxChainJobs root) (count_jobs d (\<lambda>j. jRootJobID j = jID root))
      in if eligible = [] \<or> clock < gsCreated source then Inr (d, 0)
         else
           (case social_key (gsKind source) (gsAction source) of
              Inl _ \<Rightarrow> Inl ErrUnavailable
            | Inr key \<Rightarrow>
                if parent = None
                then admit_loop tz fresh source parent root key clock acap hcap 0 eligible 0 human 0 (d, draw, 0)
                else admit_loop tz fresh source parent root key clock acap hcap
                       (at_most acap (count_jobs d (\<lambda>j. jRootJobID j = jID root \<and> jTriggerKey j = key)))
                       eligible 0 0 chain (d, draw, 0)))"

text \<open>The zero value that stands for the absent root of a direct action.\<close>

definition no_root :: GenerationJob where
  "no_root = \<lparr>jID = [], jAgentID = [], jPersonaVersion = 0, jTriggerKind = TriggerOther [], jTriggerKey = [],
     jTriggerActorID = None, jCooldownKey = [], jSourcePostID = None, jSourceReplyID = None, jSourceRepostID = None,
     jOutputKind = OutputOther [], jRootJobID = [], jChainDepth = 0, jMaxChainDepth = 0, jMaxChainJobs = 0,
     jStatus = JobStatusOther [], jAvailableAt = 0, jExpiresAt = 0, jLeaseVersion = 0, jLeaseExpiresAt = None,
     jResultPostID = None, jResultReplyID = None, jPublishedAttemptID = None, jReasonCode = [], jCreatedAt = 0,
     jFinishedAt = None\<rparr>"

definition admit_source ::
  "unicode \<Rightarrow> timezones \<Rightarrow> (nat \<Rightarrow> ID) \<Rightarrow> generation_source \<Rightarrow> GenerationJob option \<Rightarrow> time \<Rightarrow> draws \<Rightarrow> db \<Rightarrow>
   go_error + db \<times> nat" where
  "admit_source uc tz fresh source parent c draw d =
     and_then (lock_prepared uc tz d source (candidate_ids uc d source) (parent \<noteq> None) None) (\<lambda>(candidates, _).
     (case parent of
        None \<Rightarrow> admit_prepared tz fresh source None no_root candidates c draw d
      | Some p \<Rightarrow> and_then (job_by_id d (jRootJobID p)) (\<lambda>root.
                    admit_prepared tz fresh source parent root candidates c draw d)))"

section \<open>Social actions and continuations\<close>

definition enqueue_social ::
  "unicode \<Rightarrow> timezones \<Rightarrow> (nat \<Rightarrow> ID) \<Rightarrow> GenerationTrigger \<Rightarrow> ID \<Rightarrow> ID \<Rightarrow> time \<Rightarrow> draws \<Rightarrow> db \<Rightarrow> go_error + db \<times> nat" where
  "enqueue_social uc tz fresh kind action actor c draw d =
     and_then (social_source d kind action) (\<lambda>source.
     if gsActor source \<noteq> actor then Inl ErrForbidden
     else admit_source uc tz fresh source None c draw d)"

text \<open>
  The source that a published job continues with: the kind and action of its result, and the checks
  that the stored post or reply is that result.
\<close>

definition continuation_action :: "GenerationJob \<Rightarrow> GenerationTrigger \<times> ID option" where
  "continuation_action parent =
     (if jOutputKind parent = OutputReply then (TriggerReply, jResultReplyID parent)
      else if jOutputKind parent = OutputQuote then (TriggerQuote, jResultPostID parent)
      else (TriggerHumanPost, jResultPostID parent))"

definition continuation_source_bad :: "GenerationJob \<Rightarrow> generation_source \<Rightarrow> bool" where
  "continuation_source_bad parent source \<longleftrightarrow>
     gsActor source \<noteq> jAgentID parent \<or> gsCreated source < jCreatedAt parent \<or>
     gsCreated source > the (jFinishedAt parent) \<or>
     jOutputKind parent = OutputReply \<and> jSourcePostID parent \<noteq> Some (gsPost source) \<or>
     jOutputKind parent = OutputQuote \<and>
       (jSourcePostID parent = None \<or> gsQuoted source = None \<or> gsQuoted source \<noteq> jSourcePostID parent)"

definition continuation_attempt_bad :: "GenerationJob \<Rightarrow> GenerationAttempt \<Rightarrow> bool" where
  "continuation_attempt_bad parent attempt \<longleftrightarrow>
     aJobID attempt \<noteq> jID parent \<or> aStatus attempt \<noteq> AttemptSucceeded \<or>
     aLeaseVersion attempt \<noteq> jLeaseVersion parent \<or> the (aFinishedAt attempt) > the (jFinishedAt parent) \<or>
     aStartedAt attempt < jAvailableAt parent"

definition enqueue_continuations ::
  "unicode \<Rightarrow> timezones \<Rightarrow> (nat \<Rightarrow> ID) \<Rightarrow> ID \<Rightarrow> time \<Rightarrow> draws \<Rightarrow> db \<Rightarrow> go_error + db \<times> nat" where
  "enqueue_continuations uc tz fresh parent_id c draw d =
     and_then (job_by_id d parent_id) (\<lambda>parent.
     if jStatus parent \<noteq> JobSucceeded \<or> jPublishedAttemptID parent = None then Inl ErrForbidden
     else
       and_then (attempt_by_id d (the (jPublishedAttemptID parent))) (\<lambda>attempt.
       if continuation_attempt_bad parent attempt then Inl ErrForbidden
       else
         (case continuation_action parent of
            (kind, None) \<Rightarrow> Inl ErrForbidden
          | (kind, Some action) \<Rightarrow>
              and_then (social_source d kind action) (\<lambda>source.
              if continuation_source_bad parent source then Inl ErrForbidden
              else admit_source uc tz fresh (source\<lparr>gsKind := TriggerContinuation\<rparr>) (Some parent) c draw d))))"

section \<open>Admission as effects\<close>

lemma insert_job_cases:
  assumes "insert_job j d = Inr (d', b)" "validate_job j = None" "jStatus j = JobPending"
  shows "\<not> b \<and> d' = d \<or> b \<and> creatable d j \<and> d' = d\<lparr>jobs := jobs d @ [j]\<rparr>"
  using assms by (auto simp: insert_job_def creatable_def job_references_ok_def split: if_splits)

lemma insert_job_effects:
  assumes "insert_job j d = Inr (d', b)" "validate_job j = None" "jStatus j = JobPending"
  shows "effects d d'"
  using insert_job_cases [OF assms] by (auto intro: effect.created r_into_rtranclp)

lemma admit_job_status [simp]: "jStatus (social_job i source s key cooldown clock av ex) = JobPending"
  "jStatus (continued root p j) = jStatus j"
  by (simp_all add: social_job_def continued_def)

text \<open>What one candidate adds: nothing, or one job that passed the agent's allowance.\<close>

definition admitted_job ::
  "timezones \<Rightarrow> generation_source \<Rightarrow> GenerationJob option \<Rightarrow> GenerationJob \<Rightarrow> string \<Rightarrow> time \<Rightarrow> AgentSettings \<Rightarrow> db \<Rightarrow> GenerationJob \<Rightarrow> bool" where
  "admitted_job tz source parent root key clock s d j \<longleftrightarrow>
     creatable d j \<and> jAgentID j = sAgentID s \<and> jTriggerKey j = key \<and> jCreatedAt j = clock \<and>
     jOutputKind j = OutputReply \<and> jSourcePostID j = Some (gsPost source) \<and> jTriggerKind j = gsKind source \<and>
     jTriggerActorID j = Some (gsActor source) \<and>
     jRootJobID j = (if parent = None then jID j else jID root) \<and>
     cooldown_key (gsActor source) (sAgentID s) (gsPost source) (gsKind source) = Inr (jCooldownKey j) \<and>
     reply_allowance tz d s (gsPost source) (jCooldownKey j) clock"

lemma admit_job_cases:
  assumes "admit_job fresh source parent root s key cooldown clock available expires draw k d = Inr (st, b)"
    "cooldown_key (gsActor source) (sAgentID s) (gsPost source) (gsKind source) = Inr cooldown"
    "reply_allowance tz d s (gsPost source) cooldown clock"
  shows "\<not> b \<and> fst st = d \<or>
    b \<and> (\<exists>j. admitted_job tz source parent root key clock s d j \<and> fst st = d\<lparr>jobs := jobs d @ [j]\<rparr>)"
proof -
  let ?j = "case parent of None \<Rightarrow> social_job (fresh k) source s key cooldown clock available expires
      | Some p \<Rightarrow> continued root p (social_job (fresh k) source s key cooldown clock available expires)"
  from assms(1) obtain d' where v: "validate_job ?j = None" and i: "insert_job ?j d = Inr (d', b)" and d': "fst st = d'"
    by (auto simp: admit_job_def Let_def split: if_splits)
  have fs: "jStatus ?j = JobPending" "jAgentID ?j = sAgentID s" "jTriggerKey ?j = key" "jCreatedAt ?j = clock"
    "jOutputKind ?j = OutputReply" "jSourcePostID ?j = Some (gsPost source)" "jTriggerKind ?j = gsKind source"
    "jTriggerActorID ?j = Some (gsActor source)" "jRootJobID ?j = (if parent = None then jID ?j else jID root)"
    "jCooldownKey ?j = cooldown"
    by (cases parent; simp add: social_job_def continued_def)+
  from insert_job_cases [OF i v fs(1)] consider "\<not> b" "d' = d"
    | "b" "creatable d ?j" "d' = d\<lparr>jobs := jobs d @ [?j]\<rparr>" by blast
  then show ?thesis
  proof cases
    case 1
    with d' show ?thesis by simp
  next
    case 2
    have "admitted_job tz source parent root key clock s d ?j"
      unfolding admitted_job_def using 2(2) fs assms(2,3) by (simp only: simp_thms)
    with 2 d' show ?thesis by blast
  qed
qed

lemma admit_timed_cases:
  assumes "admit_timed tz fresh source parent root s key clock st = Inr (st', b)"
  shows "\<not> b \<and> fst st' = fst st \<or>
    b \<and> (\<exists>j. admitted_job tz source parent root key clock s (fst st) j \<and> fst st' = (fst st)\<lparr>jobs := jobs (fst st) @ [j]\<rparr>)"
proof -
  obtain d draw k where st: "st = (d, draw, k)" by (cases st)
  show ?thesis
  proof (cases "response_timing tz (sPolicy s) (gsCreated source) clock draw")
    case (Inl e)
    with assms show ?thesis by (auto simp: admit_timed_def st)
  next
    case (Inr r)
    then obtain av ex draw' where r: "response_timing tz (sPolicy s) (gsCreated source) clock draw = Inr ((av, ex), draw')"
      by (metis prod.exhaust)
    with assms obtain cd where cd: "cooldown_key (gsActor source) (sAgentID s) (gsPost source) (gsKind source) = Inr cd"
      by (auto simp: admit_timed_def st split: sum.splits)
    show ?thesis
    proof (cases "reply_allowance tz d s (gsPost source) cd clock")
      case False
      with assms r cd show ?thesis by (auto simp: admit_timed_def st)
    next
      case True
      with assms r cd have "admit_job fresh source parent root s key cd clock av ex draw' k d = Inr (st', b)"
        by (simp add: admit_timed_def st)
      from admit_job_cases [OF this cd True] show ?thesis by (simp add: st)
    qed
  qed
qed

lemma admit_candidate_cases:
  assumes "admit_candidate tz fresh source parent root key clock chain s st = Inr (st', b)"
  shows "\<not> b \<and> fst st' = fst st \<or>
    b \<and> (parent \<noteq> None \<longrightarrow> chain < jMaxChainJobs root \<and> chain < pMaxChainJobs (sPolicy s)) \<and>
    (\<exists>j. admitted_job tz source parent root key clock s (fst st) j \<and> fst st' = (fst st)\<lparr>jobs := jobs (fst st) @ [j]\<rparr>)"
proof -
  obtain d draw k where st: "st = (d, draw, k)" by (cases st)
  let ?closed = "parent \<noteq> None \<and>
         (jChainDepth (the parent) + 1 > min (jMaxChainDepth root) (pMaxChainDepth (sPolicy s)) \<or>
          chain \<ge> min (jMaxChainJobs root) (pMaxChainJobs (sPolicy s)))"
  show ?thesis
  proof (cases ?closed)
    case True
    with assms show ?thesis by (simp add: admit_candidate_def st)
  next
    case below: False
    from assms below consider "\<not> b" "fst st' = d"
      | draw' where "admit_timed tz fresh source parent root s key clock (d, draw', k) = Inr (st', b)"
      by (auto simp: admit_candidate_def st Let_def split: if_splits)
    then show ?thesis
    proof cases
      case 1
      then show ?thesis by (simp add: st)
    next
      case 2
      from admit_timed_cases [OF this] below show ?thesis by (auto simp: st)
    qed
  qed
qed

text \<open>The loop as a chain of such additions, counted.\<close>

inductive admissions ::
  "timezones \<Rightarrow> generation_source \<Rightarrow> GenerationJob option \<Rightarrow> GenerationJob \<Rightarrow> string \<Rightarrow> time \<Rightarrow> db \<Rightarrow> nat \<Rightarrow> db \<Rightarrow> bool"
  for tz source parent root key clock where
  none: "admissions tz source parent root key clock d 0 d"
| one: "admitted_job tz source parent root key clock s d j \<Longrightarrow>
    admissions tz source parent root key clock (d\<lparr>jobs := jobs d @ [j]\<rparr>) n d' \<Longrightarrow>
    admissions tz source parent root key clock d (Suc n) d'"

lemma admissions_effects: "admissions tz source parent root key clock d n d' \<Longrightarrow> effects d d'"
proof (induction rule: admissions.induct)
  case (one s d j n d')
  from one.hyps(1) have "effect d (d\<lparr>jobs := jobs d @ [j]\<rparr>)" by (auto simp: admitted_job_def intro: effect.created)
  with one.IH show ?case by simp
qed simp

lemma admissions_jobs:
  "admissions tz source parent root key clock d n d' \<Longrightarrow>
   \<exists>js. length js = n \<and> d' = d\<lparr>jobs := jobs d @ js\<rparr> \<and>
     (\<forall>j \<in> set js. jTriggerKey j = key \<and> jCreatedAt j = clock \<and> jTriggerActorID j = Some (gsActor source) \<and>
        jTriggerKind j = gsKind source \<and> jRootJobID j = (if parent = None then jID j else jID root))"
proof (induction rule: admissions.induct)
  case (one s d j n d')
  then obtain js where "length js = n" "d' = d\<lparr>jobs := (jobs d @ [j]) @ js\<rparr>"
    "\<forall>j \<in> set js. jTriggerKey j = key \<and> jCreatedAt j = clock \<and> jTriggerActorID j = Some (gsActor source) \<and>
        jTriggerKind j = gsKind source \<and> jRootJobID j = (if parent = None then jID j else jID root)"
    by auto
  with one.hyps(1) show ?case by (intro exI [of _ "j # js"]) (auto simp: admitted_job_def)
qed (auto intro: exI [of _ "[]"])

lemma admit_loop_cases:
  assumes "admit_loop tz fresh source parent root key clock acap hcap prior cs m human chain st = Inr (d', n)"
  shows "\<exists>k. n = m + k \<and> admissions tz source parent root key clock (fst st) k d' \<and>
    (k > 0 \<longrightarrow> int n + prior \<le> acap \<and> (parent = None \<longrightarrow> human + int k \<le> hcap) \<and>
       (parent \<noteq> None \<longrightarrow> chain + int k \<le> jMaxChainJobs root))"
  using assms
proof (induction cs arbitrary: m human chain st)
  case Nil
  then show ?case by (auto intro: admissions.none)
next
  case (Cons c cs)
  show ?case
  proof (cases "int m + prior \<ge> acap \<or> parent = None \<and> human \<ge> hcap")
    case True
    with Cons.prems show ?thesis by (auto intro: admissions.none)
  next
    case False
    with Cons.prems obtain st' b where
      cand: "admit_candidate tz fresh source parent root key clock chain (fst c) st = Inr (st', b)" and
      rest: "(if b
        then admit_loop tz fresh source parent root key clock acap hcap prior cs (Suc m)
               (if parent = None then human + 1 else human) (if parent = None then chain else chain + 1) st'
        else admit_loop tz fresh source parent root key clock acap hcap prior cs m human chain st') = Inr (d', n)"
      by auto
    show ?thesis
    proof (cases b)
      case False
      with admit_candidate_cases [OF cand] have "fst st' = fst st" by simp
      with Cons.IH [of m human chain st'] rest False show ?thesis by simp
    next
      case True
      with admit_candidate_cases [OF cand] obtain j where
        ch: "parent \<noteq> None \<longrightarrow> chain < jMaxChainJobs root" and
        j: "admitted_job tz source parent root key clock (fst c) (fst st) j" "fst st' = (fst st)\<lparr>jobs := jobs (fst st) @ [j]\<rparr>"
        by auto
      from True rest have "admit_loop tz fresh source parent root key clock acap hcap prior cs (Suc m)
               (if parent = None then human + 1 else human) (if parent = None then chain else chain + 1) st' = Inr (d', n)"
        by (simp only: if_True)
      from Cons.IH [OF this] obtain k where k: "n = Suc m + k"
        "admissions tz source parent root key clock (fst st') k d'"
        "k > 0 \<longrightarrow> int n + prior \<le> acap \<and> (parent = None \<longrightarrow> human + 1 + int k \<le> hcap) \<and>
           (parent \<noteq> None \<longrightarrow> chain + 1 + int k \<le> jMaxChainJobs root)" by (auto split: if_splits)
      have "admissions tz source parent root key clock (fst st) (Suc k) d'"
        using admissions.one [OF j(1)] k(2) j(2) by simp
      then show ?thesis using k(1,3) False ch
        by (intro exI [of _ "Suc k"]) (cases k; auto)
    qed
  qed
qed

text \<open>What an admission yields: a counted chain of additions within every cap.\<close>

definition admission_bounds ::
  "timezones \<Rightarrow> generation_source \<Rightarrow> GenerationJob option \<Rightarrow> GenerationJob \<Rightarrow> time \<Rightarrow> db \<Rightarrow> db \<Rightarrow> nat \<Rightarrow> bool" where
  "admission_bounds tz source parent root clock d d' n \<longleftrightarrow>
     (\<exists>key. social_key (gsKind source) (gsAction source) = Inr key \<and>
        admissions tz source parent root key clock d n d') \<and> n \<le> 10 \<and>
     (parent \<noteq> None \<longrightarrow> count_jobs d (\<lambda>j. jRootJobID j = jID root) + int n \<le> jMaxChainJobs root)"

lemma foldl_min: "foldl (\<lambda>m c. min m (f c)) (a :: int) cs \<le> a"
proof (induction cs arbitrary: a)
  case (Cons c cs)
  from Cons.IH [of "min a (f c)"] show ?case by (simp add: min_def split: if_splits)
qed simp

lemma admit_prepared_cases:
  assumes "admit_prepared tz fresh source parent root candidates c draw d = Inr (d', n)"
  shows "n = 0 \<and> d' = d \<or>
    n > 0 \<and> generation_instant c \<ge> gsCreated source \<and> admission_bounds tz source parent root (generation_instant c) d d' n"
proof -
  let ?el = "filter (candidate_admits source (parent = None)) candidates"
  let ?clock = "generation_instant c"
  show ?thesis
  proof (cases "?el = [] \<or> ?clock < gsCreated source")
    case True
    with assms show ?thesis by (auto simp: admit_prepared_def Let_def)
  next
    case False
    then have fresh_enough: "gsCreated source \<le> ?clock" by simp
    from assms False obtain key where key: "social_key (gsKind source) (gsAction source) = Inr key"
      by (cases "social_key (gsKind source) (gsAction source)") (simp_all add: admit_prepared_def Let_def)
    have count: "0 \<le> count_jobs d q" for q by (simp add: count_jobs_def)
    have "\<exists>prior human chain.
      admit_loop tz fresh source parent root key ?clock (action_cap ?el) (human_cap ?el) prior ?el 0 human chain (d, draw, 0) = Inr (d', n) \<and>
      (0 \<le> prior \<or> prior = action_cap ?el) \<and>
      (parent \<noteq> None \<longrightarrow> chain = at_most (jMaxChainJobs root) (count_jobs d (\<lambda>j. jRootJobID j = jID root)))"
    proof (cases parent)
      case None
      with assms False key show ?thesis
        by (intro exI [of _ 0] exI [of _ "at_most (human_cap ?el) (count_jobs d (\<lambda>j. jTriggerActorID j = Some (gsActor source) \<and>
             human_trigger (jTriggerKind j) \<and> jCreatedAt j \<ge> ?clock - human_window ?el * second))"])
           (simp add: admit_prepared_def Let_def)
    next
      case (Some p)
      let ?prior = "at_most (action_cap ?el) (count_jobs d (\<lambda>j. jRootJobID j = jID root \<and> jTriggerKey j = key))"
      have "0 \<le> ?prior \<or> ?prior = action_cap ?el" by (simp add: at_most_def min_def count)
      with Some assms False key show ?thesis
        by (intro exI [of _ ?prior] exI [of _ 0] exI [of _ "at_most (jMaxChainJobs root) (count_jobs d (\<lambda>j. jRootJobID j = jID root))"])
           (simp add: admit_prepared_def Let_def)
    qed
    then obtain prior human chain where
      loop: "admit_loop tz fresh source parent root key ?clock (action_cap ?el) (human_cap ?el) prior ?el 0 human chain (d, draw, 0) = Inr (d', n)"
      and prior: "0 \<le> prior \<or> prior = action_cap ?el" and
      chain: "parent \<noteq> None \<longrightarrow> chain = at_most (jMaxChainJobs root) (count_jobs d (\<lambda>j. jRootJobID j = jID root))"
      by blast
    from admit_loop_cases [OF loop] have n: "admissions tz source parent root key ?clock d n d'"
      "n > 0 \<longrightarrow> int n + prior \<le> action_cap ?el \<and> (parent \<noteq> None \<longrightarrow> chain + int n \<le> jMaxChainJobs root)" by auto
    have cap: "action_cap ?el \<le> 10" unfolding action_cap_def by (rule foldl_min)
    show ?thesis
    proof (cases "n = 0")
      case True
      with n(1) show ?thesis by (auto elim: admissions.cases)
    next
      case f: False
      with n(2) cap prior have "n \<le> 10" by auto
      moreover from f n(2) chain have "parent \<noteq> None \<longrightarrow> count_jobs d (\<lambda>j. jRootJobID j = jID root) + int n \<le> jMaxChainJobs root"
        by (auto simp: at_most_def min_def split: if_splits)
      ultimately show ?thesis using f n(1) key fresh_enough unfolding admission_bounds_def by auto
    qed
  qed
qed

lemma admission_bounds_effects: "admission_bounds tz source parent root clock d d' n \<Longrightarrow> effects d d'"
  by (auto simp: admission_bounds_def dest: admissions_effects)

lemma admit_source_cases:
  assumes "admit_source uc tz fresh source parent c draw d = Inr (d', n)"
  shows "n = 0 \<and> d' = d \<or>
    n > 0 \<and> generation_instant c \<ge> gsCreated source \<and>
    (\<exists>root. (case parent of None \<Rightarrow> root = no_root | Some p \<Rightarrow> job_by_id d (jRootJobID p) = Inr root) \<and>
       admission_bounds tz source parent root (generation_instant c) d d' n)"
proof -
  from assms obtain cs root where
    r: "case parent of None \<Rightarrow> root = no_root | Some p \<Rightarrow> job_by_id d (jRootJobID p) = Inr root"
    and p: "admit_prepared tz fresh source parent root cs c draw d = Inr (d', n)"
    by (cases parent) (auto simp: admit_source_def)
  from admit_prepared_cases [OF p] r show ?thesis by blast
qed

lemma admit_source_effects:
  "admit_source uc tz fresh source parent c draw d = Inr (d', n) \<Longrightarrow> effects d d'"
  using admit_source_cases [of uc tz fresh source parent c draw d d' n] admission_bounds_effects by auto

lemma enqueue_social_cases:
  assumes "enqueue_social uc tz fresh kind action actor c draw d = Inr (d', n)"
  shows "\<exists>source. social_source d kind action = Inr source \<and> gsActor source = actor \<and>
    admit_source uc tz fresh source None c draw d = Inr (d', n)"
  using assms by (auto simp: enqueue_social_def split: if_splits)

lemma enqueue_social_effects:
  "enqueue_social uc tz fresh kind action actor c draw d = Inr (d', n) \<Longrightarrow> effects d d'"
  by (blast dest: enqueue_social_cases admit_source_effects)

lemma enqueue_continuations_cases:
  assumes "enqueue_continuations uc tz fresh i c draw d = Inr (d', n)"
  shows "\<exists>parent kind action source. job_by_id d i = Inr parent \<and> jStatus parent = JobSucceeded \<and>
    continuation_action parent = (kind, Some action) \<and> social_source d kind action = Inr source \<and>
    \<not> continuation_source_bad parent source \<and>
    admit_source uc tz fresh (source\<lparr>gsKind := TriggerContinuation\<rparr>) (Some parent) c draw d = Inr (d', n)"
  using assms
  by (auto simp: enqueue_continuations_def split: if_splits prod.splits option.splits)

lemma enqueue_continuations_effects:
  "enqueue_continuations uc tz fresh i c draw d = Inr (d', n) \<Longrightarrow> effects d d'"
  by (blast dest: enqueue_continuations_cases admit_source_effects)

end
