(* ===== verification/Posting.thy ===== *)
theory Posting
  imports Admission
begin

text \<open>
  What humans write: posts, replies and their deletion (\<open>internal/postgres/content.go\<close>), reactions,
  reposts and bookmarks (\<open>interactions.go\<close>) and follows (\<open>accounts.go\<close>).  Each operation is one
  transaction; \<open>c\<close> is the statement's clock reading, \<open>c'\<close> that of the hook or the cancellation after it, \<open>fresh k\<close> the identifier that the \<open>k\<close>-th call of
  \<open>NewID\<close> returns, \<open>draw\<close> the random draws of the hooks and \<open>locked\<close> the job rows that another
  transaction holds.  The projection that the operations return is read after the commit.
\<close>

section \<open>The actor\<close>

definition session_by_hash :: "db \<Rightarrow> string \<Rightarrow> Session option" where
  "session_by_hash d h = find (\<lambda>s. seTokenHash s = h) (sessions d)"

definition lock_human_actor :: "string \<Rightarrow> time \<Rightarrow> db \<Rightarrow> go_error + ID" where
  "lock_human_actor h c d =
     (case session_by_hash d h of
        None \<Rightarrow> Inl ErrUnauthenticated
      | Some s \<Rightarrow>
          (case account_by_id d (seAccountID s) of
             None \<Rightarrow> Inl ErrUnauthenticated
           | Some a \<Rightarrow>
               if acc_Type a \<noteq> AccountHuman \<or> DisabledAt a \<noteq> None \<or> \<not> seExpiresAt s > c then Inl ErrUnauthenticated
               else Inr (acc_ID a)))"

definition lock_visible_post :: "ID \<Rightarrow> db \<Rightarrow> go_error + unit" where
  "lock_visible_post i d =
     (case post_by_id d i of None \<Rightarrow> Inl ErrNotFound
      | Some p \<Rightarrow> if poDeletedAt p \<noteq> None then Inl ErrDeleted else Inr ())"

section \<open>Tags\<close>

text \<open>\<open>INSERT ... ON CONFLICT(slug) DO NOTHING\<close> and the identifier of the slug.\<close>

definition tag_by_slug :: "db \<Rightarrow> string \<Rightarrow> tag_row option" where
  "tag_by_slug d s = find (\<lambda>t. trSlug t = s) (tags d)"

definition resolve_tag :: "ID \<Rightarrow> Tag \<Rightarrow> db \<Rightarrow> go_error + db \<times> ID" where
  "resolve_tag i t d =
     (case tag_by_slug d (tgSlug t) of
        Some r \<Rightarrow> Inr (d, trID r)
      | None \<Rightarrow>
          if i \<in> trID ` set (tags d) then Inl ErrConflict
          else Inr (d\<lparr>tags := tags d @ [\<lparr>trID = i, trSlug = tgSlug t, trDisplayName = tgDisplayName t\<rparr>]\<rparr>, i))"

fun resolve_list :: "(nat \<Rightarrow> ID) \<Rightarrow> nat \<Rightarrow> Tag list \<Rightarrow> db \<Rightarrow> go_error + db \<times> ID list" where
  "resolve_list fresh k [] d = Inr (d, [])"
| "resolve_list fresh k (t # ts) d =
     and_then (resolve_tag (fresh k) t d) (\<lambda>(d', i).
     and_then (resolve_list fresh (Suc k) ts d') (\<lambda>(d'', is). Inr (d'', i # is)))"

definition resolve_tags :: "(nat \<Rightarrow> ID) \<Rightarrow> nat \<Rightarrow> Tag list \<Rightarrow> db \<Rightarrow> go_error + db \<times> ID list" where
  "resolve_tags fresh k ts d = resolve_list fresh k (sort_key tgSlug ts) d"

fun link_tags :: "ID \<Rightarrow> ID list \<Rightarrow> db \<Rightarrow> go_error + db" where
  "link_tags post [] d = Inr d"
| "link_tags post (i # is) d =
     (if (post, i) \<in> set (post_tags d) then Inl ErrConflict
      else link_tags post is (d\<lparr>post_tags := post_tags d @ [(post, i)]\<rparr>))"

fun insert_list :: "(nat \<Rightarrow> ID) \<Rightarrow> nat \<Rightarrow> ID \<Rightarrow> Tag list \<Rightarrow> db \<Rightarrow> go_error + db" where
  "insert_list fresh k post [] d = Inr d"
| "insert_list fresh k post (t # ts) d =
     and_then (resolve_tag (fresh k) t d) (\<lambda>(d', i).
     and_then (link_tags post [i] d') (\<lambda>d''. insert_list fresh (Suc k) post ts d''))"

definition insert_tags :: "(nat \<Rightarrow> ID) \<Rightarrow> nat \<Rightarrow> ID \<Rightarrow> Tag list \<Rightarrow> db \<Rightarrow> go_error + db" where
  "insert_tags fresh k post ts d = insert_list fresh k post (sort_key tgSlug ts) d"

section \<open>Idempotency keys\<close>

definition key_lifetime :: duration where "key_lifetime = 24 * 3600 * second"

definition key_row_of :: "db \<Rightarrow> ID \<Rightarrow> string \<Rightarrow> key_row option" where
  "key_row_of d actor key = find (\<lambda>r. kyAccountID r = actor \<and> kyKey r = key) (idempotency_keys d)"

text \<open>\<open>Inr (d, True, i)\<close>: the key was free and now stands for \<open>i\<close>; \<open>Inr (d, False, i)\<close>: it already stood for \<open>i\<close>.\<close>

definition reserve_post :: "ID \<Rightarrow> string \<Rightarrow> string \<Rightarrow> ID \<Rightarrow> time \<Rightarrow> db \<Rightarrow> go_error + db \<times> bool \<times> ID" where
  "reserve_post actor key h i c d =
     (case key_row_of d actor key of
        None \<Rightarrow>
          Inr (d\<lparr>idempotency_keys := idempotency_keys d @
            [\<lparr>kyAccountID = actor, kyKey = key, kyRequestHash = h, kyPostID = Some i, kyReplyID = None,
              kyCreatedAt = c, kyExpiresAt = c + key_lifetime\<rparr>]\<rparr>, True, i)
      | Some r \<Rightarrow>
          if kyRequestHash r \<noteq> h \<or> kyPostID r = None \<or> kyReplyID r \<noteq> None then Inl ErrConflict
          else Inr (d, False, the (kyPostID r)))"

definition reserve_reply :: "ID \<Rightarrow> string \<Rightarrow> string \<Rightarrow> ID \<Rightarrow> time \<Rightarrow> db \<Rightarrow> go_error + db \<times> bool \<times> ID" where
  "reserve_reply actor key h i c d =
     (case key_row_of d actor key of
        None \<Rightarrow>
          Inr (d\<lparr>idempotency_keys := idempotency_keys d @
            [\<lparr>kyAccountID = actor, kyKey = key, kyRequestHash = h, kyPostID = None, kyReplyID = Some i,
              kyCreatedAt = c, kyExpiresAt = c + key_lifetime\<rparr>]\<rparr>, True, i)
      | Some r \<Rightarrow>
          if kyRequestHash r \<noteq> h \<or> kyPostID r \<noteq> None \<or> kyReplyID r = None then Inl ErrConflict
          else Inr (d, False, the (kyReplyID r)))"

section \<open>Rows\<close>

definition insert_post :: "post_row \<Rightarrow> db \<Rightarrow> go_error + db" where
  "insert_post p d =
     (if post_by_id d (poID p) \<noteq> None then Inl ErrConflict
      else if account_by_id d (poAuthorID p) = None \<or>
              (case poQuotedPostID p of None \<Rightarrow> False | Some q \<Rightarrow> post_by_id d q = None) then Inl ErrUnavailable
      else Inr (d\<lparr>posts := posts d @ [p]\<rparr>))"

definition insert_reply :: "reply_row \<Rightarrow> db \<Rightarrow> go_error + db" where
  "insert_reply r d =
     (if reply_by_id d (reID r) \<noteq> None then Inl ErrConflict
      else if account_by_id d (reAuthorID r) = None \<or> post_by_id d (rePostID r) = None then Inl ErrUnavailable
      else Inr (d\<lparr>replies := replies d @ [r]\<rparr>))"

section \<open>Creation\<close>

definition normalize_post_creation :: "unicode \<Rightarrow> PostCreation \<Rightarrow> go_error + PostCreation" where
  "normalize_post_creation uc p = new_post_creation uc (ctBody (pcContent p)) (pcQuotedPostID p) (ctCode (pcContent p))"

definition normalize_reply_creation :: "ReplyCreation \<Rightarrow> go_error + ReplyCreation" where
  "normalize_reply_creation r = new_reply_creation (rcPostID r) (rcBody r)"

definition new_post :: "ID \<Rightarrow> ID \<Rightarrow> PostCreation \<Rightarrow> time \<Rightarrow> post_row" where
  "new_post i actor p c =
     \<lparr>poID = i, poAuthorID = actor, poBody = ctBody (pcContent p), poQuotedPostID = pcQuotedPostID p,
      poCode = ctCode (pcContent p), poIsSpicy = False, poCreatedAt = c, poDeletedAt = None\<rparr>"

text \<open>The write of a post under a fresh key: quote lock, row, tags, then the hook of the action.\<close>

definition write_post ::
  "unicode \<Rightarrow> timezones \<Rightarrow> (nat \<Rightarrow> ID) \<Rightarrow> PostCreation \<Rightarrow> ID \<Rightarrow> time \<Rightarrow> time \<Rightarrow> draws \<Rightarrow> db \<Rightarrow> go_error + db" where
  "write_post uc tz fresh p actor c c' draw d =
     and_then (case pcQuotedPostID p of None \<Rightarrow> Inr () | Some q \<Rightarrow> lock_visible_post q d) (\<lambda>_.
     and_then (insert_post (new_post (fresh 0) actor p c) d) (\<lambda>d1.
     and_then (insert_tags fresh 1 (fresh 0) (ctTags (pcContent p)) d1) (\<lambda>d2.
     and_then (enqueue_social uc tz (\<lambda>k. fresh (Suc (length (ctTags (pcContent p))) + k))
        (if pcQuotedPostID p = None then TriggerHumanPost else TriggerQuote) (fresh 0) actor c' draw d2) (\<lambda>(d3, _).
     Inr d3))))"

definition create_post ::
  "unicode \<Rightarrow> timezones \<Rightarrow> (nat \<Rightarrow> ID) \<Rightarrow> string \<Rightarrow> string \<Rightarrow> PostCreation \<Rightarrow> time \<Rightarrow> time \<Rightarrow> draws \<Rightarrow> db \<Rightarrow>
   go_error + db \<times> ID \<times> ID" where
  "create_post uc tz fresh session key supplied c c' draw d =
     (case validate_idempotency_key key of Some e \<Rightarrow> Inl e | None \<Rightarrow>
      and_then (normalize_post_creation uc supplied) (\<lambda>p.
      and_then (lock_human_actor session c d) (\<lambda>actor.
      and_then (reserve_post actor key (post_request_hash p) (fresh 0) (generation_instant c) d) (\<lambda>(d1, new, i).
      if \<not> new then Inr (d1, i, actor)
      else and_then (write_post uc tz fresh p actor (generation_instant c) c' draw d1) (\<lambda>d2. Inr (d2, i, actor))))))"

definition write_reply ::
  "unicode \<Rightarrow> timezones \<Rightarrow> (nat \<Rightarrow> ID) \<Rightarrow> ReplyCreation \<Rightarrow> ID \<Rightarrow> time \<Rightarrow> time \<Rightarrow> draws \<Rightarrow> db \<Rightarrow> go_error + db" where
  "write_reply uc tz fresh r actor c c' draw d =
     and_then (lock_visible_post (rcPostID r) d) (\<lambda>_.
     and_then (insert_reply \<lparr>reID = fresh 0, rePostID = rcPostID r, reAuthorID = actor, reBody = rcBody r,
        reCreatedAt = c, reDeletedAt = None\<rparr> d) (\<lambda>d1.
     and_then (enqueue_social uc tz (\<lambda>k. fresh (Suc k)) TriggerReply (fresh 0) actor c' draw d1) (\<lambda>(d2, _). Inr d2)))"

definition create_reply ::
  "unicode \<Rightarrow> timezones \<Rightarrow> (nat \<Rightarrow> ID) \<Rightarrow> string \<Rightarrow> string \<Rightarrow> ReplyCreation \<Rightarrow> time \<Rightarrow> time \<Rightarrow> draws \<Rightarrow> db \<Rightarrow>
   go_error + db \<times> ID" where
  "create_reply uc tz fresh session key supplied c c' draw d =
     (case validate_idempotency_key key of Some e \<Rightarrow> Inl e | None \<Rightarrow>
      and_then (normalize_reply_creation supplied) (\<lambda>r.
      and_then (lock_human_actor session c d) (\<lambda>actor.
      and_then (reserve_reply actor key (reply_request_hash r) (fresh 0) (generation_instant c) d) (\<lambda>(d1, new, i).
      if \<not> new then Inr (d1, i)
      else and_then (write_reply uc tz fresh r actor (generation_instant c) c' draw d1) (\<lambda>d2. Inr (d2, i))))))"

section \<open>Deletion\<close>

definition mark_post :: "ID \<Rightarrow> time \<Rightarrow> db \<Rightarrow> db" where
  "mark_post i c d = d\<lparr>posts := map (\<lambda>p. if poID p = i then p\<lparr>poDeletedAt := Some c\<rparr> else p) (posts d)\<rparr>"

definition mark_reply :: "ID \<Rightarrow> time \<Rightarrow> db \<Rightarrow> db" where
  "mark_reply i c d = d\<lparr>replies := map (\<lambda>r. if reID r = i then r\<lparr>reDeletedAt := Some c\<rparr> else r) (replies d)\<rparr>"

definition delete_post :: "(ID \<Rightarrow> bool) \<Rightarrow> string \<Rightarrow> ID \<Rightarrow> time \<Rightarrow> time \<Rightarrow> db \<Rightarrow> go_error + db" where
  "delete_post locked session i c c' d =
     and_then (parse_id i) (\<lambda>i.
     and_then (lock_human_actor session c d) (\<lambda>actor.
     (case post_by_id d i of
        None \<Rightarrow> Inl ErrNotFound
      | Some p \<Rightarrow>
          if poDeletedAt p \<noteq> None then Inl ErrDeleted
          else if poAuthorID p \<noteq> actor then Inl ErrForbidden
          else and_then (cancel_removed_sources locked i c' (mark_post i (generation_instant c) d)) (\<lambda>(d', _). Inr d'))))"

definition delete_reply :: "(ID \<Rightarrow> bool) \<Rightarrow> string \<Rightarrow> ID \<Rightarrow> time \<Rightarrow> time \<Rightarrow> db \<Rightarrow> go_error + db" where
  "delete_reply locked session i c c' d =
     and_then (parse_id i) (\<lambda>i.
     and_then (lock_human_actor session c d) (\<lambda>actor.
     (case reply_by_id d i of
        None \<Rightarrow> Inl ErrNotFound
      | Some r \<Rightarrow>
         (case post_by_id d (rePostID r) of
            None \<Rightarrow> Inl ErrNotFound
          | Some p \<Rightarrow>
              if poDeletedAt p \<noteq> None then Inl ErrDeleted
              else if reDeletedAt r \<noteq> None then Inl ErrDeleted
              else if reAuthorID r \<noteq> actor then Inl ErrForbidden
              else and_then (cancel_removed_sources locked (poID p) c' (mark_reply i (generation_instant c) d)) (\<lambda>(d', _).
                   Inr d')))))"

section \<open>Interactions\<close>

text \<open>What the four switches share: the parsed post, the actor, and a visible post.\<close>

definition with_visible :: "string \<Rightarrow> ID \<Rightarrow> time \<Rightarrow> db \<Rightarrow> (ID \<Rightarrow> ID \<Rightarrow> go_error + db) \<Rightarrow> go_error + db \<times> ID" where
  "with_visible session post c d act =
     and_then (parse_id post) (\<lambda>i.
     and_then (lock_human_actor session c d) (\<lambda>actor.
     and_then (lock_visible_post i d) (\<lambda>_.
     and_then (act i actor) (\<lambda>d'. Inr (d', actor)))))"

definition put_reaction :: "ID \<Rightarrow> ID \<Rightarrow> ReactionKind \<Rightarrow> time \<Rightarrow> reaction_row list \<Rightarrow> reaction_row list" where
  "put_reaction actor post k c rs =
     (if list_ex (\<lambda>r. rxAccountID r = actor \<and> rxPostID r = post) rs
      then map (\<lambda>r. if rxAccountID r = actor \<and> rxPostID r = post
             then r\<lparr>rxKind := k, rxUpdatedAt := if rxKind r \<noteq> k then c else rxUpdatedAt r\<rparr> else r) rs
      else rs @ [\<lparr>rxAccountID = actor, rxPostID = post, rxKind = k, rxCreatedAt = c, rxUpdatedAt = c\<rparr>])"

definition set_reaction :: "string \<Rightarrow> ID \<Rightarrow> ReactionKind option \<Rightarrow> time \<Rightarrow> db \<Rightarrow> go_error + db \<times> ID" where
  "set_reaction session post kind c d =
     with_visible session post c d (\<lambda>i actor.
       Inr (d\<lparr>reactions :=
         (case kind of
            None \<Rightarrow> filter (\<lambda>r. \<not> (rxAccountID r = actor \<and> rxPostID r = i)) (reactions d)
          | Some k \<Rightarrow> put_reaction actor i k (generation_instant c) (reactions d))\<rparr>))"

text \<open>
  Removing a repost also clears the reference of the jobs that it triggered (\<open>ON DELETE SET NULL\<close>).
\<close>

definition remove_reposts :: "ID \<Rightarrow> ID \<Rightarrow> db \<Rightarrow> db" where
  "remove_reposts actor post d =
     (let gone = filter (\<lambda>r. rpAccountID r = actor \<and> rpPostID r = post) (reposts d)
      in d\<lparr>reposts := filter (\<lambda>r. \<not> (rpAccountID r = actor \<and> rpPostID r = post)) (reposts d),
           jobs := fold (\<lambda>r. map (detach_repost (rpID r))) gone (jobs d)\<rparr>)"

definition add_repost ::
  "unicode \<Rightarrow> timezones \<Rightarrow> (nat \<Rightarrow> ID) \<Rightarrow> ID \<Rightarrow> ID \<Rightarrow> time \<Rightarrow> time \<Rightarrow> draws \<Rightarrow> db \<Rightarrow> go_error + db" where
  "add_repost uc tz fresh actor post c c' draw d =
     (if list_ex (\<lambda>r. rpAccountID r = actor \<and> rpPostID r = post) (reposts d) then Inr d
      else if repost_by_id d (fresh 0) \<noteq> None then Inl ErrConflict
      else and_then (enqueue_social uc tz (\<lambda>k. fresh (Suc k)) TriggerRepost (fresh 0) actor c' draw
             (d\<lparr>reposts := reposts d @ [\<lparr>rpID = fresh 0, rpAccountID = actor, rpPostID = post, rpCreatedAt = c\<rparr>]\<rparr>))
           (\<lambda>(d', _). Inr d'))"

definition set_repost ::
  "unicode \<Rightarrow> timezones \<Rightarrow> (nat \<Rightarrow> ID) \<Rightarrow> (ID \<Rightarrow> bool) \<Rightarrow> string \<Rightarrow> ID \<Rightarrow> bool \<Rightarrow> time \<Rightarrow> time \<Rightarrow> draws \<Rightarrow> db \<Rightarrow>
   go_error + db \<times> ID" where
  "set_repost uc tz fresh locked session post desired c c' draw d =
     with_visible session post c d (\<lambda>i actor.
       if desired then add_repost uc tz fresh actor i (generation_instant c) c' draw d
       else and_then (cancel_removed_sources locked i c' (remove_reposts actor i d)) (\<lambda>(d', _). Inr d'))"

definition set_bookmark :: "string \<Rightarrow> ID \<Rightarrow> bool \<Rightarrow> time \<Rightarrow> db \<Rightarrow> go_error + db \<times> ID" where
  "set_bookmark session post desired c d =
     with_visible session post c d (\<lambda>i actor.
       Inr (d\<lparr>bookmarks :=
         (if desired then
            (if list_ex (\<lambda>b. bkAccountID b = actor \<and> bkPostID b = i) (bookmarks d) then bookmarks d
             else bookmarks d @ [\<lparr>bkAccountID = actor, bkPostID = i, bkCreatedAt = generation_instant c\<rparr>])
          else filter (\<lambda>b. \<not> (bkAccountID b = actor \<and> bkPostID b = i)) (bookmarks d))\<rparr>))"

definition set_follow :: "string \<Rightarrow> ID \<Rightarrow> bool \<Rightarrow> time \<Rightarrow> db \<Rightarrow> go_error + db \<times> ID" where
  "set_follow session target follow c d =
     and_then (lock_human_actor session c d) (\<lambda>actor.
     if actor = target then Inl (ValidationError [(''account_id'', ''Cannot follow yourself'')])
     else
       (case account_by_id d target of
          None \<Rightarrow> Inl ErrNotFound
        | Some a \<Rightarrow>
            if DisabledAt a \<noteq> None then Inl ErrNotFound
            else Inr (d\<lparr>follows :=
              (if follow then
                 (if list_ex (\<lambda>f. foFollowerID f = actor \<and> foFollowedID f = target) (follows d) then follows d
                  else follows d @ [\<lparr>foFollowerID = actor, foFollowedID = target, foCreatedAt = generation_instant c\<rparr>])
               else filter (\<lambda>f. \<not> (foFollowerID f = actor \<and> foFollowedID f = target)) (follows d))\<rparr>, actor)))"

section \<open>Writes as effects\<close>

text \<open>Same jobs and attempts.\<close>

definition same_work :: "db \<Rightarrow> db \<Rightarrow> bool" where
  "same_work d d' \<longleftrightarrow> jobs d' = jobs d \<and> attempts d' = attempts d"

lemma same_work_effects: "same_work d d' \<Longrightarrow> effects d d'"
  by (simp add: same_work_def effects_elsewhere)

lemma same_work_trans: "same_work d d' \<Longrightarrow> same_work d' d'' \<Longrightarrow> same_work d d''"
  by (simp add: same_work_def)

lemma resolve_tag_work: "resolve_tag i t d = Inr (d', x) \<Longrightarrow> same_work d d'"
  by (auto simp: resolve_tag_def same_work_def split: option.splits if_splits)

lemma link_tags_work: "link_tags post is d = Inr d' \<Longrightarrow> same_work d d'"
  by (induction post "is" d rule: link_tags.induct) (auto simp: same_work_def split: if_splits)

lemma resolve_tags_work: "resolve_tags fresh k ts d = Inr (d', is) \<Longrightarrow> same_work d d'"
proof -
  have "resolve_list fresh k ts d = Inr (d', is) \<Longrightarrow> same_work d d'" for ts
  proof (induction fresh k ts d arbitrary: "is" rule: resolve_list.induct)
    case (2 fresh k t ts d)
    then show ?case by (fastforce dest: resolve_tag_work intro: same_work_trans)
  qed (simp add: same_work_def)
  then show "resolve_tags fresh k ts d = Inr (d', is) \<Longrightarrow> same_work d d'" by (simp add: resolve_tags_def)
qed

lemma insert_tags_work: "insert_tags fresh k post ts d = Inr d' \<Longrightarrow> same_work d d'"
proof -
  have "insert_list fresh k post ts d = Inr d' \<Longrightarrow> same_work d d'" for ts
  proof (induction fresh k post ts d rule: insert_list.induct)
    case (2 fresh k post t ts d)
    from "2.prems" obtain d1 i d2 where s: "resolve_tag (fresh k) t d = Inr (d1, i)" "link_tags post [i] d1 = Inr d2"
      "insert_list fresh (Suc k) post ts d2 = Inr d'" by (auto simp del: link_tags.simps)
    from "2.IH" [OF s(3)] s show ?case
      by (meson resolve_tag_work link_tags_work same_work_trans)
  qed (simp add: same_work_def)
  then show "insert_tags fresh k post ts d = Inr d' \<Longrightarrow> same_work d d'" by (simp add: insert_tags_def)
qed

lemma insert_work: "insert_post p d = Inr d' \<Longrightarrow> same_work d d'" "insert_reply r d = Inr d' \<Longrightarrow> same_work d d'"
  by (auto simp: insert_post_def insert_reply_def same_work_def split: if_splits)

lemma reserve_work: "reserve_post actor key h i c d = Inr (d', b, x) \<Longrightarrow> same_work d d'"
  "reserve_reply actor key h i c d = Inr (d', b, x) \<Longrightarrow> same_work d d'"
  by (auto simp: reserve_post_def reserve_reply_def same_work_def split: option.splits if_splits)

lemmas posting_work = resolve_tag_work link_tags_work resolve_tags_work insert_tags_work insert_work reserve_work

lemma write_post_effects:
  assumes "write_post uc tz fresh p actor c c' draw d = Inr d'"
  shows "effects d d'"
proof -
  from assms obtain d1 d2 n where "insert_post (new_post (fresh 0) actor p c) d = Inr d1"
    "insert_tags fresh 1 (fresh 0) (ctTags (pcContent p)) d1 = Inr d2"
    "enqueue_social uc tz (\<lambda>k. fresh (Suc (length (ctTags (pcContent p))) + k))
        (if pcQuotedPostID p = None then TriggerHumanPost else TriggerQuote) (fresh 0) actor c' draw d2 = Inr (d', n)"
    unfolding write_post_def by auto
  then show ?thesis
    by (meson posting_work same_work_effects same_work_trans enqueue_social_effects rtranclp_trans)
qed

lemma write_reply_effects:
  assumes "write_reply uc tz fresh r actor c c' draw d = Inr d'"
  shows "effects d d'"
  using assms unfolding write_reply_def
  by (auto dest!: enqueue_social_effects insert_work(2) same_work_effects)

lemma create_post_effects:
  assumes "create_post uc tz fresh session key supplied c c' draw d = Inr (d', i, a)"
  shows "effects d d'"
  using assms unfolding create_post_def
  by (auto split: option.splits if_splits dest!: reserve_work(1) same_work_effects write_post_effects)

lemma create_reply_effects:
  assumes "create_reply uc tz fresh session key supplied c c' draw d = Inr (d', i)"
  shows "effects d d'"
  using assms unfolding create_reply_def
  by (auto split: option.splits if_splits dest!: reserve_work(2) same_work_effects write_reply_effects)

lemma cancel_effects:
  assumes "cancel_removed_sources locked i c d1 = Inr (d', n)" "rows_ok d" "effects d d1"
  shows "effects d d'"
proof -
  from assms have "rows_ok d1" using effects_rows_ok by blast
  then have "effects d1 d'" using assms(1) cancel_removed_sources_changes job_changes_effects by blast
  with assms(3) show ?thesis by (rule rtranclp_trans)
qed

lemma delete_post_cases:
  assumes "delete_post locked session i c c' d = Inr d'"
  shows "\<exists>j actor p n. parse_id i = Inr j \<and> lock_human_actor session c d = Inr actor \<and> post_by_id d j = Some p \<and>
    poDeletedAt p = None \<and> poAuthorID p = actor \<and>
    cancel_removed_sources locked j c' (mark_post j (generation_instant c) d) = Inr (d', n)"
proof -
  from assms obtain j actor where 1: "parse_id i = Inr j" "lock_human_actor session c d = Inr actor"
    by (auto simp: delete_post_def)
  with assms obtain p where 2: "post_by_id d j = Some p"
    by (cases "post_by_id d j") (auto simp: delete_post_def)
  with assms 1 have "poDeletedAt p = None" "poAuthorID p = actor"
    "\<exists>n. cancel_removed_sources locked j c' (mark_post j (generation_instant c) d) = Inr (d', n)"
    by (simp_all add: delete_post_def if_Inl)
  with 1 2 show ?thesis by blast
qed

lemma delete_reply_cases:
  assumes "delete_reply locked session i c c' d = Inr d'"
  shows "\<exists>j actor r p n. parse_id i = Inr j \<and> lock_human_actor session c d = Inr actor \<and> reply_by_id d j = Some r \<and>
    post_by_id d (rePostID r) = Some p \<and> poDeletedAt p = None \<and> reDeletedAt r = None \<and> reAuthorID r = actor \<and>
    cancel_removed_sources locked (poID p) c' (mark_reply j (generation_instant c) d) = Inr (d', n)"
proof -
  from assms obtain j actor where 1: "parse_id i = Inr j" "lock_human_actor session c d = Inr actor"
    by (auto simp: delete_reply_def)
  with assms obtain r where 2: "reply_by_id d j = Some r"
    by (cases "reply_by_id d j") (auto simp: delete_reply_def)
  with assms 1 obtain p where 3: "post_by_id d (rePostID r) = Some p"
    by (cases "post_by_id d (rePostID r)") (auto simp: delete_reply_def)
  with assms 1 2 have "poDeletedAt p = None" "reDeletedAt r = None" "reAuthorID r = actor"
    "\<exists>n. cancel_removed_sources locked (poID p) c' (mark_reply j (generation_instant c) d) = Inr (d', n)"
    by (simp_all add: delete_reply_def if_Inl)
  with 1 2 3 show ?thesis by blast
qed

lemma delete_post_effects:
  assumes "delete_post locked session i c c' d = Inr d'" "rows_ok d"
  shows "effects d d'"
proof -
  have "effects d (mark_post j (generation_instant c) d)" for j by (rule effects_elsewhere) (simp_all add: mark_post_def)
  with delete_post_cases [OF assms(1)] assms(2) show ?thesis using cancel_effects by blast
qed

lemma delete_reply_effects:
  assumes "delete_reply locked session i c c' d = Inr d'" "rows_ok d"
  shows "effects d d'"
proof -
  have "effects d (mark_reply j (generation_instant c) d)" for j by (rule effects_elsewhere) (simp_all add: mark_reply_def)
  with delete_reply_cases [OF assms(1)] assms(2) show ?thesis using cancel_effects by blast
qed

lemma detach_effects: "effects d (d\<lparr>jobs := fold (\<lambda>r. map (detach_repost (rpID r))) gone (jobs d)\<rparr>)"
proof (induction gone arbitrary: d)
  case (Cons r gone)
  have "effect d (d\<lparr>jobs := map (detach_repost (rpID r)) (jobs d)\<rparr>)" by (rule effect.detached)
  moreover have "effects (d\<lparr>jobs := map (detach_repost (rpID r)) (jobs d)\<rparr>)
     (d\<lparr>jobs := fold (\<lambda>r. map (detach_repost (rpID r))) (r # gone) (jobs d)\<rparr>)"
    using Cons.IH [of "d\<lparr>jobs := map (detach_repost (rpID r)) (jobs d)\<rparr>"] by simp
  ultimately show ?case by (rule converse_rtranclp_into_rtranclp)
qed simp

lemma remove_reposts_effects: "effects d (remove_reposts actor post d)"
proof -
  let ?gone = "filter (\<lambda>r. rpAccountID r = actor \<and> rpPostID r = post) (reposts d)"
  let ?rest = "filter (\<lambda>r. \<not> (rpAccountID r = actor \<and> rpPostID r = post)) (reposts d)"
  have "effects d (d\<lparr>reposts := ?rest\<rparr>)" by (rule effects_elsewhere) simp_all
  moreover have "effects (d\<lparr>reposts := ?rest\<rparr>) (remove_reposts actor post d)"
    using detach_effects [of "d\<lparr>reposts := ?rest\<rparr>" ?gone] by (simp add: remove_reposts_def Let_def)
  ultimately show ?thesis by (rule rtranclp_trans)
qed

lemma add_repost_effects:
  assumes "add_repost uc tz fresh actor post c c' draw d = Inr d'"
  shows "effects d d'"
proof -
  let ?d = "d\<lparr>reposts := reposts d @ [\<lparr>rpID = fresh 0, rpAccountID = actor, rpPostID = post, rpCreatedAt = c\<rparr>]\<rparr>"
  from assms consider "d' = d"
    | n where "enqueue_social uc tz (\<lambda>k. fresh (Suc k)) TriggerRepost (fresh 0) actor c' draw ?d = Inr (d', n)"
    by (auto simp: add_repost_def split: if_splits)
  then show ?thesis
  proof cases
    case 2
    have "effects d ?d" by (rule effects_elsewhere) simp_all
    with enqueue_social_effects [OF 2] show ?thesis by (rule rtranclp_trans [rotated])
  qed simp
qed

lemma set_repost_effects:
  assumes "set_repost uc tz fresh locked session post desired c c' draw d = Inr (d', a)" "rows_ok d"
  shows "effects d d'"
  using assms unfolding set_repost_def with_visible_def
  by (auto split: if_splits dest: add_repost_effects intro: cancel_effects [OF _ _ remove_reposts_effects])

lemma with_visible_cases:
  assumes "with_visible session post c d act = Inr (d', a)"
  shows "\<exists>i p. parse_id post = Inr i \<and> lock_human_actor session c d = Inr a \<and> post_by_id d i = Some p \<and>
    poDeletedAt p = None \<and> act i a = Inr d'"
proof -
  from assms obtain i where "parse_id post = Inr i" "lock_human_actor session c d = Inr a" "lock_visible_post i d = Inr ()"
    "act i a = Inr d'" by (auto simp: with_visible_def)
  moreover from this(3) obtain p where "post_by_id d i = Some p" "poDeletedAt p = None"
    by (auto simp: lock_visible_post_def split: option.splits if_splits)
  ultimately show ?thesis by blast
qed

lemma set_reaction_effects: "set_reaction session post kind c d = Inr (d', a) \<Longrightarrow> effects d d'"
  unfolding set_reaction_def by (drule with_visible_cases) (auto intro: effects_elsewhere)

lemma set_bookmark_effects: "set_bookmark session post desired c d = Inr (d', a) \<Longrightarrow> effects d d'"
  unfolding set_bookmark_def by (drule with_visible_cases) (auto intro: effects_elsewhere)

lemma set_follow_cases:
  assumes "set_follow session target follow c d = Inr (d', a)"
  shows "lock_human_actor session c d = Inr a \<and> a \<noteq> target \<and> account_by_id d target \<noteq> None \<and>
    d' = d\<lparr>follows :=
      (if follow then
         (if list_ex (\<lambda>f. foFollowerID f = a \<and> foFollowedID f = target) (follows d) then follows d
          else follows d @ [\<lparr>foFollowerID = a, foFollowedID = target, foCreatedAt = generation_instant c\<rparr>])
       else filter (\<lambda>f. \<not> (foFollowerID f = a \<and> foFollowedID f = target)) (follows d))\<rparr>"
proof -
  from assms obtain x where 1: "lock_human_actor session c d = Inr x" by (auto simp: set_follow_def)
  with assms obtain t where 2: "account_by_id d target = Some t" "x \<noteq> target"
    by (cases "account_by_id d target") (auto simp: set_follow_def if_Inl)
  from assms 1 2 show ?thesis
    by (simp only: set_follow_def if_Inl option.case and_then_simps if_False) blast
qed

lemma set_follow_effects: "set_follow session target follow c d = Inr (d', a) \<Longrightarrow> effects d d'"
  by (drule set_follow_cases) (auto intro: effects_elsewhere)

end
