(* ===== verification/Publication.thy ===== *)
theory Publication
  imports Posting
begin

text \<open>
  Publication of a generated result (\<open>internal/postgres/generation_publication.go\<close> and
  \<open>generation_publication_recent.go\<close>): the authority checks, the content rows, the finished job, the
  publisher's settings and the continuations, in one transaction.  \<open>d0\<close> is the state that the first,
  unlocked read of the job sees, \<open>d\<close> the state under the locks; \<open>c1\<close>, \<open>c2\<close>, \<open>c3\<close> are the clock readings.
\<close>

section \<open>Recent content\<close>

type_synonym recent_row = "(time \<times> ID \<times> bool) \<times> string \<times> Code option"

definition newest :: "nat \<Rightarrow> recent_row list \<Rightarrow> recent_row list" where
  "newest n rows = take n (rev (sort_key fst rows))"

definition recent_posts :: "db \<Rightarrow> ID \<Rightarrow> recent_row list" where
  "recent_posts d agent =
     map (\<lambda>p. ((poCreatedAt p, poID p, False), poBody p, poCode p))
       (filter (\<lambda>p. poAuthorID p = agent \<and> poDeletedAt p = None) (posts d))"

definition recent_replies :: "db \<Rightarrow> ID \<Rightarrow> recent_row list" where
  "recent_replies d agent =
     map (\<lambda>r. ((reCreatedAt r, reID r, True), reBody r, None))
       (filter (\<lambda>r. reAuthorID r = agent \<and> reDeletedAt r = None \<and>
          (case post_by_id d (rePostID r) of None \<Rightarrow> False
           | Some p \<Rightarrow> poDeletedAt p = None \<and> account_disabled d (poAuthorID p) = Some False)) (replies d))"

text \<open>Stored texts beyond the byte limits are not read back but rejected.\<close>

definition oversized :: "string \<Rightarrow> Code option \<Rightarrow> bool" where
  "oversized body code \<longleftrightarrow>
     length body > 1280 \<or>
     (case code of None \<Rightarrow> False
      | Some k \<Rightarrow> length (cdLanguage k) > 32 \<or> length (cdFilename k) > 1020 \<or> length (cdSource k) > 20480)"

fun recent_contents :: "unicode \<Rightarrow> recent_row list \<Rightarrow> go_error + Content list" where
  "recent_contents uc [] = Inr []"
| "recent_contents uc ((_, body, code) # rows) =
     (if oversized body code then Inl ErrGenerationOutput
      else (case new_content uc body code of
              Inl _ \<Rightarrow> Inl ErrGenerationOutput
            | Inr c \<Rightarrow> and_then (recent_contents uc rows) (\<lambda>cs. Inr (c # cs))))"

definition publication_recent :: "unicode \<Rightarrow> db \<Rightarrow> ID \<Rightarrow> go_error + Content list" where
  "publication_recent uc d agent =
     recent_contents uc (newest MaxGenerationRecentContent
       (newest MaxGenerationRecentContent (recent_posts d agent) @
        newest MaxGenerationRecentContent (recent_replies d agent)))"

section \<open>Replay\<close>

definition publication_replay ::
  "db \<Rightarrow> GenerationJob \<Rightarrow> int \<Rightarrow> ID \<Rightarrow> GenerationResult \<Rightarrow> go_error + GenerationJob" where
  "publication_replay d job version attempt_id result =
     (if jLeaseVersion job \<noteq> version \<or> jPublishedAttemptID job \<noteq> Some attempt_id then Inl ErrConflict
      else
        and_then (attempt_by_id d attempt_id) (\<lambda>t.
        if aJobID t \<noteq> jID job \<or> aLeaseVersion t \<noteq> version \<or> aStatus t \<noteq> AttemptSucceeded \<or>
           aDecision t \<noteq> GenerationPublish \<or> aOutputDigest t = [] \<or> aOutputDigest t \<noteq> digest result \<or>
           rDecision result \<noteq> GenerationPublish \<or> rKind result \<noteq> jOutputKind job
        then Inl ErrGenerationOutput
        else Inr job))"

section \<open>The published rows\<close>

definition publication_source :: "db \<Rightarrow> GenerationJob \<Rightarrow> ID \<Rightarrow> string \<Rightarrow> go_error + generation_source" where
  "publication_source d refs i body =
     (let reply = (jOutputKind refs = OutputReply);
          s = \<lparr>gsKind = TriggerContinuation, gsAction = i, gsActor = jAgentID refs,
               gsPost = (if reply then the (jSourcePostID refs) else i), gsPriorityAuthor = jAgentID refs,
               gsReply = (if reply then Some i else None), gsRepost = None,
               gsQuoted = (if jOutputKind refs = OutputQuote then jSourcePostID refs else None),
               gsBody = body, gsCreated = 0\<rparr>
      in if jOutputKind refs = OutputPost then Inr s
         else (case Option.bind (jSourcePostID refs) (post_by_id d) of
                 None \<Rightarrow> Inl ErrNotFound
               | Some p \<Rightarrow> Inr (s\<lparr>gsPriorityAuthor := poAuthorID p\<rparr>)))"

definition published_as :: "ID \<Rightarrow> ID \<Rightarrow> time \<Rightarrow> GenerationJob \<Rightarrow> GenerationJob" where
  "published_as attempt_id i now j =
     (let j' = j\<lparr>jStatus := JobSucceeded, jFinishedAt := Some now, jLeaseExpiresAt := None,
                 jPublishedAttemptID := Some attempt_id\<rparr>
      in if jOutputKind j = OutputReply then j'\<lparr>jResultReplyID := Some i\<rparr> else j'\<lparr>jResultPostID := Some i\<rparr>)"

definition insert_content :: "GenerationJob \<Rightarrow> Content \<Rightarrow> ID \<Rightarrow> ID list \<Rightarrow> time \<Rightarrow> db \<Rightarrow> go_error + db" where
  "insert_content job content i tag_ids now d =
     (if jOutputKind job = OutputReply
      then insert_reply \<lparr>reID = i, rePostID = the (jSourcePostID job), reAuthorID = jAgentID job,
             reBody = ctBody content, reCreatedAt = now, reDeletedAt = None\<rparr> d
      else and_then (insert_post \<lparr>poID = i, poAuthorID = jAgentID job, poBody = ctBody content,
             poQuotedPostID = (if jOutputKind job = OutputQuote then jSourcePostID job else None),
             poCode = ctCode content, poIsSpicy = False, poCreatedAt = now, poDeletedAt = None\<rparr> d)
           (link_tags i tag_ids))"

definition update_settings :: "db \<Rightarrow> ID \<Rightarrow> (AgentSettings \<Rightarrow> AgentSettings) \<Rightarrow> go_error + db" where
  "update_settings d i f =
     (if length (filter (\<lambda>r. sAgentID (srSettings r) = i) (settings d)) = 1
      then Inr (d\<lparr>settings := map (\<lambda>r. if sAgentID (srSettings r) = i then r\<lparr>srSettings := f (srSettings r)\<rparr> else r)
             (settings d)\<rparr>)
      else Inl ErrUnavailable)"

definition mark_published :: "time \<Rightarrow> AgentSettings \<Rightarrow> AgentSettings" where
  "mark_published now s = s\<lparr>sLastPublishedAt := Some now, sUpdatedAt := now\<rparr>"

section \<open>Publication\<close>

text \<open>The writes after every check: content, job, settings, continuations.\<close>

definition publish_rows ::
  "timezones \<Rightarrow> (nat \<Rightarrow> ID) \<Rightarrow> time \<Rightarrow> time \<Rightarrow> draws \<Rightarrow> generation_source \<Rightarrow> GenerationJob \<Rightarrow> GenerationJob \<Rightarrow> GenerationJob \<Rightarrow>
   ID \<Rightarrow> ID list \<Rightarrow> Content \<Rightarrow> candidate list \<Rightarrow> db \<Rightarrow> go_error + db" where
  "publish_rows tz fresh now c2 draw source root job after i tag_ids content candidates d =
     and_then (insert_content after content i tag_ids now d) (\<lambda>d1.
     and_then (update_jobs d1 (\<lambda>j. jID j = jID job \<and> jLeaseVersion j = jLeaseVersion job \<and> jStatus j = JobRunning)
        (\<lambda>j. j\<lparr>jStatus := JobSucceeded, jResultPostID := jResultPostID after, jResultReplyID := jResultReplyID after,
              jPublishedAttemptID := jPublishedAttemptID after, jFinishedAt := Some now, jLeaseExpiresAt := None\<rparr>)) (\<lambda>d2.
     and_then (update_settings d2 (jAgentID job) (mark_published now)) (\<lambda>d3.
     and_then (admit_prepared tz fresh (source\<lparr>gsCreated := now\<rparr>) (Some after)
        (if jID root = jID job then after else root) candidates c2 draw d3) (\<lambda>(d4, _). Inr d4))))"

text \<open>The checks against the attempt and the current policy, at the instant \<open>now\<close> of the publication.\<close>

definition publication_allowed ::
  "unicode \<Rightarrow> timezones \<Rightarrow> time \<Rightarrow> GenerationJob \<Rightarrow> int \<Rightarrow> GenerationAttempt \<Rightarrow> GenerationResult \<Rightarrow> AgentSettings \<Rightarrow> db \<Rightarrow>
   go_error + time" where
  "publication_allowed uc tz now job version attempt result s d =
     (if aDecision attempt \<noteq> GenerationPublish then Inl ErrGenerationOutput
      else if aPauseRevision attempt = None \<or> aPauseRevision attempt \<noteq> Some (sPauseRevision s) then Inl ErrForbidden
      else
        and_then (publication_recent uc d (jAgentID job)) (\<lambda>recent.
        if validate_lease job version now \<noteq> None then Inl ErrConflict
        else
          (case validate_publication_output uc job attempt result recent now of Some e \<Rightarrow> Inl e | None \<Rightarrow>
           and_then (policy_allowed tz d job (sPolicy s) (sLastPublishedAt s) now) (\<lambda>allowed.
           if \<not> allowed then Inl ErrForbidden
           else if jTriggerKind job \<noteq> TriggerScheduled then source_created_at d job
           else Inr 0))))"

definition attempt_of_job :: "db \<Rightarrow> ID \<Rightarrow> ID \<Rightarrow> go_error + GenerationAttempt" where
  "attempt_of_job d attempt_id i =
     (case attempt_row d attempt_id of
        None \<Rightarrow> Inl ErrNotFound
      | Some t \<Rightarrow> if aJobID t \<noteq> i then Inl ErrNotFound else attempt_by_id d attempt_id)"

definition publish_job ::
  "unicode \<Rightarrow> timezones \<Rightarrow> (nat \<Rightarrow> ID) \<Rightarrow> time \<Rightarrow> time \<Rightarrow> time \<Rightarrow> draws \<Rightarrow> generation_source \<Rightarrow> ID list \<Rightarrow> candidate list \<Rightarrow>
   AgentSettings \<Rightarrow> GenerationJob \<Rightarrow> GenerationJob \<Rightarrow> int \<Rightarrow> ID \<Rightarrow> ID \<Rightarrow> GenerationResult \<Rightarrow> db \<Rightarrow>
   go_error + db \<times> GenerationJob" where
  "publish_job uc tz fresh c1 c2 c3 draw source tag_ids candidates s root job version attempt_id i result d =
     and_then (attempt_of_job d attempt_id (jID job)) (\<lambda>attempt.
     let now = generation_instant c1; after = published_as attempt_id i now job; last_check = generation_instant c3 in
     and_then (publication_allowed uc tz now job version attempt result s d) (\<lambda>created.
     if validate_transition job after version now (Some attempt) \<noteq> None then Inl ErrGenerationOutput
     else
       and_then (publish_rows tz fresh now c2 draw source root job after i tag_ids (rContent result) candidates d) (\<lambda>d1.
       and_then (source_valid d1 job) (\<lambda>valid.
       if \<not> valid then Inl ErrDeleted
       else if last_check < now \<or> validate_lease job version last_check \<noteq> None then Inl ErrConflict
       else if \<not> trigger_time_allowed tz job (sPolicy s) created last_check then Inl ErrForbidden
       else Inr (d1, after)))))"

text \<open>
  What the locked job must still be: it was published meanwhile (a replay), or it runs under the version
  with the repost that was read.
\<close>

definition publish_locked ::
  "unicode \<Rightarrow> timezones \<Rightarrow> (nat \<Rightarrow> ID) \<Rightarrow> time \<Rightarrow> time \<Rightarrow> time \<Rightarrow> draws \<Rightarrow> generation_source \<Rightarrow> ID list \<Rightarrow> candidate list \<Rightarrow>
   AgentSettings \<Rightarrow> GenerationJob \<Rightarrow> int \<Rightarrow> ID \<Rightarrow> ID \<Rightarrow> GenerationResult \<Rightarrow> db \<Rightarrow> db \<Rightarrow> go_error + db \<times> GenerationJob" where
  "publish_locked uc tz fresh c1 c2 c3 draw source tag_ids candidates s refs version attempt_id i result d d1 =
     and_then (job_by_id d (jRootJobID refs)) (\<lambda>root.
     and_then (if jRootJobID refs \<noteq> jID refs then job_by_id d (jID refs) else Inr root) (\<lambda>job.
     if jStatus job = JobSucceeded
     then and_then (publication_replay d job version attempt_id result) (\<lambda>j. Inr (d, j))
     else if jStatus job \<noteq> JobRunning \<or> jLeaseVersion job \<noteq> version \<or> jSourceRepostID refs \<noteq> jSourceRepostID job
     then Inl ErrConflict
     else publish_job uc tz fresh c1 c2 c3 draw source tag_ids candidates s root job version attempt_id i result d1))"

definition publish_generation ::
  "unicode \<Rightarrow> timezones \<Rightarrow> (nat \<Rightarrow> ID) \<Rightarrow> db \<Rightarrow> time \<Rightarrow> time \<Rightarrow> time \<Rightarrow> draws \<Rightarrow> ID \<Rightarrow> int \<Rightarrow> ID \<Rightarrow> GenerationResult \<Rightarrow> db \<Rightarrow>
   go_error + db \<times> GenerationJob" where
  "publish_generation uc tz fresh d0 c1 c2 c3 draw job_id version attempt_id result d =
     and_then (job_by_id d0 job_id) (\<lambda>refs.
     if jStatus refs = JobSucceeded
     then and_then (publication_replay d refs version attempt_id result) (\<lambda>j. Inr (d, j))
     else if jStatus refs \<noteq> JobRunning \<or> jLeaseVersion refs \<noteq> version then Inl ErrConflict
     else if rDecision result \<noteq> GenerationPublish \<or> rKind result \<noteq> jOutputKind refs \<or> digest result = []
     then Inl ErrGenerationOutput
     else
       and_then (source_valid d refs) (\<lambda>valid.
       if \<not> valid then Inl ErrDeleted
       else
         and_then (publication_source d refs (fresh 0) (ctBody (rContent result))) (\<lambda>source.
         let ts = (if jOutputKind refs \<noteq> OutputReply then ctTags (rContent result) else []) in
         and_then (resolve_tags fresh 1 ts d) (\<lambda>(d1, tag_ids).
         and_then (lock_prepared uc tz d source (candidate_ids uc d source) True (Some refs)) (\<lambda>(candidates, own).
         (case own of
            None \<Rightarrow> Inl ErrForbidden
          | Some s \<Rightarrow>
              publish_locked uc tz (\<lambda>k. fresh (Suc (length ts) + k)) c1 c2 c3 draw source tag_ids candidates s refs
                version attempt_id (fresh 0) result d d1))))))"

section \<open>Publication as effects\<close>

lemma insert_content_work: "insert_content job content i is now d = Inr d' \<Longrightarrow> same_work d d'"
  by (auto simp: insert_content_def split: if_splits dest!: posting_work intro: same_work_trans)

lemma update_settings_work: "update_settings d i f = Inr d' \<Longrightarrow> same_work d d'"
  by (auto simp: update_settings_def same_work_def split: if_splits)

lemma published_as_id [simp]: "jID (published_as t i now j) = jID j" "jStatus (published_as t i now j) = JobSucceeded"
  "jPublishedAttemptID (published_as t i now j) = Some t" "jLeaseVersion (published_as t i now j) = jLeaseVersion j"
  "jAgentID (published_as t i now j) = jAgentID j" "jOutputKind (published_as t i now j) = jOutputKind j"
  "jSourcePostID (published_as t i now j) = jSourcePostID j"
  by (simp_all add: published_as_def Let_def)

lemma same_work_rows: "same_work d d' \<Longrightarrow> rows_ok d' = rows_ok d" "same_work d d' \<Longrightarrow> job_row d' i = job_row d i"
  by (simp_all add: same_work_def rows_ok_def job_row_def)

lemma publish_rows_cases:
  assumes "publish_rows tz fresh now c2 draw source root job after i is content cs d = Inr d'"
    "rows_ok d" "job \<in> set (jobs d)" "jStatus job = JobRunning" "after = published_as t i now job"
    "validate_transition job after version now att = None"
  shows "\<exists>d1 d3 n. insert_content after content i is now d = Inr d1 \<and>
    update_settings (replace_job after d1) (jAgentID job) (mark_published now) = Inr d3 \<and>
    admit_prepared tz fresh (source\<lparr>gsCreated := now\<rparr>) (Some after) (if jID root = jID job then after else root) cs c2 draw d3
      = Inr (d', n) \<and>
    same_work d d1 \<and> job_change d1 (replace_job after d1) \<and> effects d d'"
proof -
  let ?p = "\<lambda>j. jID j = jID job \<and> jLeaseVersion j = jLeaseVersion job \<and> jStatus j = JobRunning"
  let ?f = "\<lambda>j. j\<lparr>jStatus := JobSucceeded, jResultPostID := jResultPostID after, jResultReplyID := jResultReplyID after,
              jPublishedAttemptID := jPublishedAttemptID after, jFinishedAt := Some now, jLeaseExpiresAt := None\<rparr>"
  from assms(1) obtain d1 d2 d3 n where s: "insert_content after content i is now d = Inr d1"
    "update_jobs d1 ?p ?f = Inr d2" "update_settings d2 (jAgentID job) (mark_published now) = Inr d3"
    "admit_prepared tz fresh (source\<lparr>gsCreated := now\<rparr>) (Some after) (if jID root = jID job then after else root) cs c2 draw d3
      = Inr (d', n)"
    by (auto simp: publish_rows_def)
  note w = insert_content_work [OF s(1)]
  have f: "?f job = after" by (simp add: assms(5) published_as_def Let_def)
  have job1: "job \<in> set (jobs d1)" using w assms(3) by (simp add: same_work_def)
  have rows1: "rows_ok d1" using w assms(2) by (simp add: same_work_rows)
  have "update_jobs d1 ?p ?f = Inr (replace_job after d1)"
    using update_jobs_replace [OF rows1 job1, of ?p ?f] f assms(4,5) by simp
  with s(2) have d2: "d2 = replace_job after d1" by simp
  have c: "job_change d1 (replace_job after d1)" by (rule job_changeI [OF job1 assms(6)])
  have "effects d d1" by (rule same_work_effects [OF w])
  moreover have "effect d1 d2" unfolding d2 by (rule effect.moved [OF c])
  moreover have "effects d2 d3" using s(3) by (intro same_work_effects update_settings_work)
  moreover have "effects d3 d'" using admit_prepared_cases [OF s(4)] admission_bounds_effects by auto
  ultimately have "effects d d'" by (meson rtranclp.rtrancl_into_rtrancl rtranclp_trans)
  with s d2 w c show ?thesis by blast
qed

lemma publish_job_cases:
  assumes "publish_job uc tz fresh c1 c2 c3 draw source is cs s root job version t i result d = Inr (d', a)"
    "rows_ok d" "job \<in> set (jobs d)" "jStatus job = JobRunning"
  shows "\<exists>attempt created. attempt_of_job d t (jID job) = Inr attempt \<and>
    a = published_as t i (generation_instant c1) job \<and>
    publication_allowed uc tz (generation_instant c1) job version attempt result s d = Inr created \<and>
    validate_transition job a version (generation_instant c1) (Some attempt) = None \<and>
    publish_rows tz fresh (generation_instant c1) c2 draw source root job a i is (rContent result) cs d = Inr d' \<and>
    source_valid d' job = Inr True \<and> generation_instant c1 \<le> generation_instant c3 \<and>
    validate_lease job version (generation_instant c3) = None \<and>
    trigger_time_allowed tz job (sPolicy s) created (generation_instant c3) \<and> effects d d'"
proof -
  let ?now = "generation_instant c1" let ?a = "published_as t i ?now job"
  from assms(1) obtain attempt created where 1: "attempt_of_job d t (jID job) = Inr attempt"
    "publication_allowed uc tz ?now job version attempt result s d = Inr created"
    by (auto simp: publish_job_def Let_def)
  with assms(1) have 2: "validate_transition job ?a version ?now (Some attempt) = None"
    by (simp add: publish_job_def Let_def if_Inl)
  with assms(1) 1 obtain d1 valid where 3:
    "publish_rows tz fresh ?now c2 draw source root job ?a i is (rContent result) cs d = Inr d1"
    "source_valid d1 job = Inr valid"
    by (auto simp: publish_job_def Let_def)
  from assms(1) 1 2 3 have "valid \<and> \<not> generation_instant c3 < ?now \<and> validate_lease job version (generation_instant c3) = None \<and>
    trigger_time_allowed tz job (sPolicy s) created (generation_instant c3) \<and> d' = d1 \<and> a = ?a"
    by (simp add: publish_job_def Let_def if_Inl)
  moreover obtain x where "effects d d1"
    using publish_rows_cases [OF 3(1) assms(2,3,4) refl 2] by blast
  ultimately show ?thesis using 1 2 3 by auto
qed

lemma publication_allowed_cases:
  assumes "publication_allowed uc tz now job version attempt result s d = Inr created"
  shows "aDecision attempt = GenerationPublish \<and> aPauseRevision attempt = Some (sPauseRevision s) \<and>
    validate_lease job version now = None \<and>
    (\<exists>recent. publication_recent uc d (jAgentID job) = Inr recent \<and>
       validate_publication_output uc job attempt result recent now = None) \<and>
    policy_allowed tz d job (sPolicy s) (sLastPublishedAt s) now = Inr True"
proof -
  from assms obtain recent where r: "publication_recent uc d (jAgentID job) = Inr recent"
    by (auto simp: publication_allowed_def if_Inl)
  with assms obtain allowed where "validate_publication_output uc job attempt result recent now = None"
    "policy_allowed tz d job (sPolicy s) (sLastPublishedAt s) now = Inr allowed"
    by (cases "validate_publication_output uc job attempt result recent now") (auto simp: publication_allowed_def if_Inl)
  with assms r show ?thesis by (auto simp: publication_allowed_def if_Inl)
qed

definition own_settings :: "timezones \<Rightarrow> db \<Rightarrow> GenerationJob \<Rightarrow> AgentSettings \<Rightarrow> bool" where
  "own_settings tz d p s \<longleftrightarrow> (\<exists>r. settings_by_id d (jAgentID p) = Some r \<and> s = srSettings r \<and> srDecodable r \<and> sEnabled s \<and>
     validate_settings tz s = None)"

lemma lock_loop_step:
  assumes "lock_loop uc tz d source (Some p) (i # is) cs own = Inr r"
  shows "\<exists>cs2 own2. lock_loop uc tz d source (Some p) is cs2 own2 = Inr r \<and>
    (own2 = own \<or> (\<exists>s. own2 = Some s \<and> own_settings tz d p s))"
proof (cases "settings_by_id d i")
  case None
  with assms have "lock_loop uc tz d source (Some p) is cs own = Inr r" by (simp split: if_splits)
  then show ?thesis by blast
next
  case (Some x)
  let ?s = "srSettings x"
  show ?thesis
  proof (cases "agent_handle d i = [] \<or> \<not> srDecodable x \<or> \<not> sEnabled ?s \<or> validate_settings tz ?s \<noteq> None")
    case True
    with assms Some have "lock_loop uc tz d source (Some p) is cs own = Inr r" by (auto simp: Let_def split: if_splits)
    then show ?thesis by blast
  next
    case ok: False
    show ?thesis
    proof (cases "jAgentID p = i")
      case True
      with ok Some have own: "own_settings tz d p ?s" by (simp add: own_settings_def)
      from assms ok Some True consider "lock_loop uc tz d source (Some p) is cs own = Inr r"
        | "lock_loop uc tz d source (Some p) is cs (Some ?s) = Inr r"
        by (auto simp: Let_def split: if_splits)
      with own show ?thesis by blast
    next
      case False
      with assms ok Some consider "lock_loop uc tz d source (Some p) is cs own = Inr r"
        | k where "lock_loop uc tz d source (Some p) is (cs @ [(?s, k)]) own = Inr r"
        by (auto simp: Let_def split: option.splits if_splits)
      then show ?thesis by blast
    qed
  qed
qed

lemma lock_loop_own:
  "lock_loop uc tz d source (Some p) is cs own = Inr (cs', Some s) \<Longrightarrow> own = Some s \<or> own_settings tz d p s"
proof (induction "is" arbitrary: cs own)
  case (Cons i "is")
  from lock_loop_step [OF Cons.prems] Cons.IH show ?case by fastforce
qed simp

lemma lock_prepared_own:
  assumes "lock_prepared uc tz d source ids True (Some p) = Inr (cs, Some s)"
  shows "own_settings tz d p s"
  using assms by (auto simp: lock_prepared_def Let_def split: if_splits dest!: lock_loop_own)

text \<open>The two ways in which a publication returns.\<close>

definition replayed :: "db \<Rightarrow> int \<Rightarrow> ID \<Rightarrow> GenerationResult \<Rightarrow> GenerationJob \<Rightarrow> bool" where
  "replayed d version t result j \<longleftrightarrow> publication_replay d j version t result = Inr j"

lemma publication_replay_Inr: "publication_replay d job version t result = Inr j \<Longrightarrow> j = job"
  by (auto simp: publication_replay_def if_Inl)

lemma publish_locked_cases:
  assumes "publish_locked uc tz fresh c1 c2 c3 draw source is cs s refs version t i result d d1 = Inr (d', a)"
    "rows_ok d" "same_work d d1"
  shows "d' = d \<and> replayed d version t result a \<or>
    (\<exists>root job. job_by_id d (jID refs) = Inr job \<and> jStatus job = JobRunning \<and> jLeaseVersion job = version \<and>
       jSourceRepostID refs = jSourceRepostID job \<and> job_by_id d (jRootJobID refs) = Inr root \<and>
       publish_job uc tz fresh c1 c2 c3 draw source is cs s root job version t i result d1 = Inr (d', a))"
proof -
  from assms(1) obtain root job where j: "job_by_id d (jRootJobID refs) = Inr root"
    "(if jRootJobID refs \<noteq> jID refs then job_by_id d (jID refs) else Inr root) = Inr job"
    by (auto simp: publish_locked_def)
  then have "job_by_id d (jID refs) = Inr job" by (auto split: if_splits)
  with assms(1) j show ?thesis
    by (auto simp: publish_locked_def if_Inl replayed_def split: if_splits dest: publication_replay_Inr)
qed

lemma publish_generation_cases:
  assumes "publish_generation uc tz fresh d0 c1 c2 c3 draw i version t result d = Inr (d', a)"
    "rows_ok d0" "rows_ok d"
  shows "d' = d \<and> replayed d version t result a \<or>
    (\<exists>refs source d1 is cs s root job k. job_by_id d0 i = Inr refs \<and> own_settings tz d refs s \<and>
       resolve_tags fresh 1 (if jOutputKind refs \<noteq> OutputReply then ctTags (rContent result) else []) d = Inr (d1, is) \<and>
       same_work d d1 \<and> job_by_id d i = Inr job \<and> jStatus job = JobRunning \<and> jLeaseVersion job = version \<and>
       job_by_id d (jRootJobID refs) = Inr root \<and>
       publish_job uc tz (\<lambda>n. fresh (Suc k + n)) c1 c2 c3 draw source is cs s root job version t (fresh 0) result d1 = Inr (d', a))"
proof -
  from assms(1) obtain refs where refs: "job_by_id d0 i = Inr refs" by (auto simp: publish_generation_def)
  have id: "jID refs = i" using job_by_id_Inr [OF assms(2) refs] by simp
  let ?ts = "if jOutputKind refs \<noteq> OutputReply then ctTags (rContent result) else []"
  show ?thesis
  proof (cases "jStatus refs = JobSucceeded")
    case True
    with assms(1) refs show ?thesis
      by (auto simp: publish_generation_def replayed_def dest: publication_replay_Inr)
  next
    case False
    with assms(1) refs obtain source d1 "is" cs s where l: "resolve_tags fresh 1 ?ts d = Inr (d1, is)"
      "lock_prepared uc tz d source (candidate_ids uc d source) True (Some refs) = Inr (cs, Some s)"
      "publish_locked uc tz (\<lambda>k. fresh (Suc (length ?ts) + k)) c1 c2 c3 draw source is cs s refs version t (fresh 0) result d d1
        = Inr (d', a)"
      unfolding publish_generation_def by (auto simp: if_Inl Let_def split: option.splits)
    note w = resolve_tags_work [OF l(1)]
    from publish_locked_cases [OF l(3) assms(3) w] show ?thesis
      using refs id lock_prepared_own [OF l(2)] l(1) w by blast
  qed
qed

lemma publish_generation_effects:
  assumes "publish_generation uc tz fresh d0 c1 c2 c3 draw i version t result d = Inr (d', a)"
    "rows_ok d0" "rows_ok d"
  shows "effects d d'"
proof -
  from publish_generation_cases [OF assms] show ?thesis
  proof (elim disjE exE conjE)
    fix refs source d1 "is" cs s root job k
    assume w: "same_work d d1" and j: "job_by_id d i = Inr job" "jStatus job = JobRunning"
      and p: "publish_job uc tz (\<lambda>n. fresh (Suc k + n)) c1 c2 c3 draw source is cs s root job version t (fresh 0) result d1 = Inr (d', a)"
    have "job \<in> set (jobs d1)" using job_by_id_Inr [OF assms(3) j(1)] w by (simp add: same_work_def)
    with publish_job_cases [OF p _ _ j(2)] w assms(3) have "effects d1 d'" by (auto simp: same_work_rows)
    with same_work_effects [OF w] show ?thesis by (rule rtranclp_trans)
  qed simp
qed

section \<open>What a publication leaves behind\<close>

lemma same_work_accounts:
  "resolve_tag i t d = Inr (d', x) \<Longrightarrow> accounts d' = accounts d \<and> posts d' = posts d \<and> replies d' = replies d"
  by (auto simp: resolve_tag_def split: option.splits if_splits)

lemma resolve_tags_frame:
  "resolve_tags fresh k ts d = Inr (d', is) \<Longrightarrow> accounts d' = accounts d \<and> posts d' = posts d \<and> replies d' = replies d"
proof -
  have "resolve_list fresh k ts d = Inr (d', is) \<Longrightarrow> accounts d' = accounts d \<and> posts d' = posts d \<and> replies d' = replies d" for ts
  proof (induction fresh k ts d arbitrary: "is" rule: resolve_list.induct)
    case (2 fresh k t ts d)
    then show ?case by (fastforce dest: same_work_accounts)
  qed simp
  then show "resolve_tags fresh k ts d = Inr (d', is) \<Longrightarrow> ?thesis" by (simp add: resolve_tags_def)
qed

lemma link_tags_frame: "link_tags post is d = Inr d' \<Longrightarrow> accounts d' = accounts d \<and> posts d' = posts d \<and> replies d' = replies d"
  by (induction post "is" d rule: link_tags.induct) (auto split: if_splits)

lemma insert_content_frame:
  assumes "insert_content job content i is now d = Inr d'"
  shows "accounts d' = accounts d"
    "jOutputKind job = OutputReply \<Longrightarrow> replies d' = replies d @ [\<lparr>reID = i, rePostID = the (jSourcePostID job),
       reAuthorID = jAgentID job, reBody = ctBody content, reCreatedAt = now, reDeletedAt = None\<rparr>]"
    "jOutputKind job \<noteq> OutputReply \<Longrightarrow> posts d' = posts d @ [\<lparr>poID = i, poAuthorID = jAgentID job, poBody = ctBody content,
       poQuotedPostID = (if jOutputKind job = OutputQuote then jSourcePostID job else None),
       poCode = ctCode content, poIsSpicy = False, poCreatedAt = now, poDeletedAt = None\<rparr>]"
  using assms
  by (auto simp: insert_content_def insert_post_def insert_reply_def dest: link_tags_frame split: if_splits)

lemma update_settings_frame:
  "update_settings d i f = Inr d' \<Longrightarrow> accounts d' = accounts d \<and> posts d' = posts d \<and> replies d' = replies d"
  by (auto simp: update_settings_def split: if_splits)

lemma admit_prepared_frame:
  assumes "admit_prepared tz fresh source parent root cs c draw d = Inr (d', n)"
  shows "\<exists>js. d' = d\<lparr>jobs := jobs d @ js\<rparr> \<and> (\<forall>j \<in> set js. validate_job j = None \<and> jStatus j = JobPending)"
proof -
  have e: "admissions tz source parent root key clock d n d' \<Longrightarrow>
      \<exists>js. d' = d\<lparr>jobs := jobs d @ js\<rparr> \<and> (\<forall>j \<in> set js. validate_job j = None \<and> jStatus j = JobPending)" for key clock
  proof (induction rule: admissions.induct)
    case (one s d j n d')
    then obtain js where "d' = d\<lparr>jobs := (jobs d @ [j]) @ js\<rparr>" "\<forall>j \<in> set js. validate_job j = None \<and> jStatus j = JobPending" by auto
    with one.hyps(1) show ?case by (intro exI [of _ "j # js"]) (auto simp: admitted_job_def creatable_def)
  qed (auto intro: exI [of _ "[]"])
  from admit_prepared_cases [OF assms] show ?thesis
    by (auto simp: admission_bounds_def intro: exI [of _ "[]"] dest: e)
qed

lemma publish_rows_frame:
  assumes "publish_rows tz fresh now c2 draw source root job after i is content cs d = Inr d'"
    "rows_ok d" "job \<in> set (jobs d)" "jStatus job = JobRunning" "after = published_as t i now job"
    "validate_transition job after version now att = None"
  shows "accounts d' = accounts d" "attempts d' = attempts d" "job_row d' (jID job) = Some after"
    "jOutputKind job = OutputReply \<Longrightarrow> \<exists>r \<in> set (replies d'). reID r = i \<and> reAuthorID r = jAgentID job \<and>
       reBody r = ctBody content \<and> rePostID r = the (jSourcePostID job)"
    "jOutputKind job \<noteq> OutputReply \<Longrightarrow> \<exists>p \<in> set (posts d'). poID p = i \<and> poAuthorID p = jAgentID job \<and>
       poBody p = ctBody content \<and> poCode p = ctCode content"
proof -
  from publish_rows_cases [OF assms] obtain d1 d3 n where s: "insert_content after content i is now d = Inr d1"
    "update_settings (replace_job after d1) (jAgentID job) (mark_published now) = Inr d3"
    "admit_prepared tz fresh (source\<lparr>gsCreated := now\<rparr>) (Some after) (if jID root = jID job then after else root) cs c2 draw d3
      = Inr (d', n)" "same_work d d1" by blast
  from admit_prepared_frame [OF s(3)] obtain js where d': "d' = d3\<lparr>jobs := jobs d3 @ js\<rparr>" by blast
  have job1: "job \<in> set (jobs d1)" "rows_ok d1" using s(4) assms(2,3) by (simp_all add: same_work_def rows_ok_def)
  note w3 = update_settings_work [OF s(2)]
  have k: "jID after = jID job" "jOutputKind after = jOutputKind job" "jAgentID after = jAgentID job" "jSourcePostID after = jSourcePostID job"
    using assms(5) by simp_all
  have "job_row (replace_job after d1) (jID job) = Some after"
    using job1 k(1) by (auto simp: job_row_replace job_row_iff)
  then have "job_row d3 (jID job) = Some after" using w3 by (simp add: same_work_rows)
  then show "job_row d' (jID job) = Some after" by (simp add: d' job_row_def find_append)
  have f: "accounts d3 = accounts d1" "posts d3 = posts d1" "replies d3 = replies d1"
    using update_settings_frame [OF s(2)] by (simp_all add: replace_job_def)
  show "accounts d' = accounts d" using f insert_content_frame(1) [OF s(1)] by (simp add: d')
  show "attempts d' = attempts d" using w3 s(4) by (simp add: d' same_work_def)
  show "jOutputKind job = OutputReply \<Longrightarrow> \<exists>r \<in> set (replies d'). reID r = i \<and> reAuthorID r = jAgentID job \<and>
       reBody r = ctBody content \<and> rePostID r = the (jSourcePostID job)"
    using insert_content_frame(2) [OF s(1)] f k by (auto simp: d')
  show "jOutputKind job \<noteq> OutputReply \<Longrightarrow> \<exists>p \<in> set (posts d'). poID p = i \<and> poAuthorID p = jAgentID job \<and>
       poBody p = ctBody content \<and> poCode p = ctCode content"
    using insert_content_frame(3) [OF s(1)] f k by (auto simp: d')
qed

section \<open>Jobs keep their identity\<close>

lemma effect_job_row:
  assumes "effect d d'" "rows_ok d" "job_row d i = Some j"
  shows "\<exists>j'. job_row d' i = Some j' \<and> jAgentID j' = jAgentID j \<and> jRootJobID j' = jRootJobID j \<and>
    jOutputKind j' = jOutputKind j \<and> jLeaseVersion j \<le> jLeaseVersion j'"
  using assms
proof (induction rule: effect.induct)
  case (moved d d')
  from job_change_row [OF moved.hyps moved.prems(1), of i] moved.prems(2) obtain j' where
    j': "job_row d' i = Some j'" "moves_on j j'" by blast
  from moves_on_identity [OF j'(2)] moves_on_version [OF j'(2)] j'(1) show ?case by (auto simp: same_identity_def)
next
  case (detached d r)
  then show ?case using job_row_map [of "detach_repost r" d i] by (auto simp: detach_repost_def)
next
  case (created d j')
  then show ?case by (simp add: job_row_append)
qed (simp_all add: job_row_def replace_attempt_def)

lemma effects_job_row:
  assumes "effects d d'" "rows_ok d" "job_row d i = Some j"
  shows "\<exists>j'. job_row d' i = Some j' \<and> jAgentID j' = jAgentID j \<and> jRootJobID j' = jRootJobID j \<and>
    jOutputKind j' = jOutputKind j \<and> jLeaseVersion j \<le> jLeaseVersion j'"
  using assms(1)
proof (induction rule: rtranclp_induct)
  case (step e f)
  then obtain j' where j': "job_row e i = Some j'" "jAgentID j' = jAgentID j \<and> jRootJobID j' = jRootJobID j \<and>
    jOutputKind j' = jOutputKind j \<and> jLeaseVersion j \<le> jLeaseVersion j'" by blast
  from effect_job_row [OF step.hyps(2) effects_rows_ok [OF step.hyps(1) assms(2)] j'(1)] j'(2) show ?case
    by fastforce
qed (use assms(3) in auto)


section \<open>Authority\<close>

lemma job_by_id_row: "job_by_id d i = Inr j \<Longrightarrow> job_row d i = Some j"
  by (auto simp: job_by_id_def split: option.splits if_splits)

text \<open>
  whatever a worker asks for, new content appears only for a job that is running under the asked lease
  version, with the lease live at the first and at the last clock reading, for an attempt of this job and
  lease that succeeded with exactly this output, and while the agent is enabled under the pause revision
  that the attempt was reserved with; the stored content is then that output under the agent's name.
\<close>

theorem publication_authority:
  assumes "publish_generation uc tz fresh d0 c1 c2 c3 draw i version t result d = Inr (d', a)"
    "rows_ok d0" "effects d0 d" "d' \<noteq> d"
  shows "\<exists>job attempt r. job_by_id d i = Inr job \<and> jStatus job = JobRunning \<and>
    validate_lease job version (generation_instant c1) = None \<and>
    validate_lease job version (generation_instant c3) = None \<and>
    attempt_row d t = Some attempt \<and> aJobID attempt = i \<and> aLeaseVersion attempt = version \<and>
    aStatus attempt = AttemptSucceeded \<and> aOutputDigest attempt = digest result \<and>
    settings_by_id d (jAgentID job) = Some r \<and> sEnabled (srSettings r) \<and>
    aPauseRevision attempt = Some (sPauseRevision (srSettings r)) \<and>
    a = published_as t (fresh 0) (generation_instant c1) job \<and> job_row d' i = Some a \<and>
    (if jOutputKind job = OutputReply
     then \<exists>x \<in> set (replies d'). reID x = fresh 0 \<and> reAuthorID x = jAgentID job \<and> reBody x = ctBody (rContent result) \<and>
       rePostID x = the (jSourcePostID job)
     else \<exists>x \<in> set (posts d'). poID x = fresh 0 \<and> poAuthorID x = jAgentID job \<and> poBody x = ctBody (rContent result) \<and>
       poCode x = ctCode (rContent result))"
proof -
  note rows = effects_rows_ok [OF assms(3,2)]
  from publish_generation_cases [OF assms(1,2) rows] assms(4) obtain refs source d1 "is" cs s root job k where
    refs: "job_by_id d0 i = Inr refs" "own_settings tz d refs s" and w: "same_work d d1" and
    job: "job_by_id d i = Inr job" "jStatus job = JobRunning" "jLeaseVersion job = version" and
    p: "publish_job uc tz (\<lambda>n. fresh (Suc k + n)) c1 c2 c3 draw source is cs s root job version t (fresh 0) result d1 = Inr (d', a)"
    by blast
  have jd: "job \<in> set (jobs d1)" "jID job = i" "rows_ok d1"
    using job_by_id_Inr [OF rows job(1)] w rows by (simp_all add: same_work_def rows_ok_def)
  have "jAgentID job = jAgentID refs"
    using effects_job_row [OF assms(3,2) job_by_id_row [OF refs(1)]] job_by_id_row [OF job(1)] by auto
  with refs(2) obtain r where r: "settings_by_id d (jAgentID job) = Some r" "s = srSettings r" "sEnabled s"
    by (auto simp: own_settings_def)
  from publish_job_cases [OF p jd(3,1) job(2)] obtain attempt created where
    at: "attempt_of_job d1 t (jID job) = Inr attempt" and a: "a = published_as t (fresh 0) (generation_instant c1) job" and
    al: "publication_allowed uc tz (generation_instant c1) job version attempt result s d1 = Inr created" and
    v: "validate_transition job a version (generation_instant c1) (Some attempt) = None" and
    pr: "publish_rows tz (\<lambda>n. fresh (Suc k + n)) (generation_instant c1) c2 draw source root job a (fresh 0) is (rContent result) cs d1 = Inr d'" and
    l3: "validate_lease job version (generation_instant c3) = None"
    by blast
  note f = publish_rows_frame [OF pr jd(3,1) job(2) a v]
  note c = publication_allowed_cases [OF al]
  from at have at': "attempt_row d1 t = Some attempt" "aJobID attempt = i"
    by (auto simp: attempt_of_job_def attempt_by_id_def jd(2) split: option.splits if_splits)
  have "attempt_row d t = Some attempt" using at'(1) w by (simp add: attempt_row_def same_work_def)
  moreover from c have "aStatus attempt = AttemptSucceeded \<and> aOutputDigest attempt = digest result"
    by (auto simp: validate_publication_output_def split: if_splits)
  moreover have "validate_publication job a version (generation_instant c1) (Some attempt) = None"
    using v unfolding validate_transition_def or_else_None by blast
  then have "aLeaseVersion attempt = version" using a job(3) by (simp add: validate_publication_def split: if_splits)
  ultimately show ?thesis using job jd a at' c l3 r f by (auto simp: Let_def)
qed

end
