(* ===== verification/Snapshot.thy ===== *)
theory Snapshot
  imports Publication
begin

text \<open>
  The public snapshot of a leased job (\<open>internal/postgres/generation_context.go\<close>): one repeatable read selects the
  source, the trigger reply, ten replies and the agent's recent content, validates every selected row, and drops
  optional history, oldest first, until the builder of \<open>internal/app/generation_context.go\<close> accepts the size.
\<close>

section \<open>Selection\<close>

text \<open>The columns by which the selected rows are ordered: creation time, identifier, is it a reply, section.\<close>

type_synonym context_key = "time \<times> ID \<times> bool \<times> string"

definition bounded_text :: "nat \<Rightarrow> string \<Rightarrow> string" where
  "bounded_text n s = (if length s \<le> n then s else [])"

text \<open>The public columns of an author; names beyond the byte limits read as empty.\<close>

definition context_author :: "Account \<Rightarrow> GenerationContextAuthor" where
  "context_author a =
     \<lparr>cxHandle = bounded_text 32 (Handle a),
      cxType = (if length (account_type_name (acc_Type a)) \<le> 5 then acc_Type a else AccountTypeOther [])\<rparr>"

definition visible_author :: "db \<Rightarrow> ID \<Rightarrow> bool" where
  "visible_author d i \<longleftrightarrow> account_disabled d i = Some False"

definition newest_keys :: "nat \<Rightarrow> context_key list \<Rightarrow> context_key list" where
  "newest_keys n keys = take n (rev (sort keys))"

definition source_key :: "db \<Rightarrow> GenerationJob \<Rightarrow> context_key list" where
  "source_key d job =
     (case Option.bind (jSourcePostID job) (post_by_id d) of
        None \<Rightarrow> []
      | Some p \<Rightarrow> [(poCreatedAt p, poID p, False, ''source'')])"

definition trigger_key :: "db \<Rightarrow> GenerationJob \<Rightarrow> context_key list" where
  "trigger_key d job =
     (case Option.bind (jSourceReplyID job) (reply_by_id d) of
        None \<Rightarrow> []
      | Some r \<Rightarrow> [(reCreatedAt r, reID r, True, ''trigger'')])"

definition reply_keys :: "db \<Rightarrow> GenerationJob \<Rightarrow> context_key list" where
  "reply_keys d job =
     (case jSourcePostID job of
        None \<Rightarrow> []
      | Some i \<Rightarrow>
          newest_keys MaxGenerationContextReplies
            (map (\<lambda>r. (reCreatedAt r, reID r, True, ''replies''))
              (filter (\<lambda>r. rePostID r = i \<and> reDeletedAt r = None \<and> visible_author d (reAuthorID r)) (replies d))))"

definition recent_keys :: "db \<Rightarrow> GenerationJob \<Rightarrow> context_key list" where
  "recent_keys d job =
     newest_keys MaxGenerationRecentContent
       (newest_keys MaxGenerationRecentContent
          (map (\<lambda>p. (poCreatedAt p, poID p, False, ''recent''))
            (filter (\<lambda>p. poAuthorID p = jAgentID job \<and> poDeletedAt p = None \<and> visible_author d (poAuthorID p)) (posts d))) @
        newest_keys MaxGenerationRecentContent
          (map (\<lambda>r. (reCreatedAt r, reID r, True, ''recent''))
            (filter (\<lambda>r. reAuthorID r = jAgentID job \<and> reDeletedAt r = None \<and> visible_author d (reAuthorID r) \<and>
               (case post_by_id d (rePostID r) of
                  None \<Rightarrow> False
                | Some p \<Rightarrow> poDeletedAt p = None \<and> visible_author d (poAuthorID p))) (replies d))))"

definition context_keys :: "db \<Rightarrow> GenerationJob \<Rightarrow> context_key list" where
  "context_keys d job = sort (source_key d job @ trigger_key d job @ reply_keys d job @ recent_keys d job)"

section \<open>Hydration\<close>

text \<open>One row: its author, kind, body and code; a row whose author is missing does not join.\<close>

definition context_row :: "db \<Rightarrow> context_key \<Rightarrow> (Account \<times> GenerationOutput \<times> string \<times> Code option) option" where
  "context_row d k =
     (case k of (_, i, is_reply, _) \<Rightarrow>
        if is_reply
        then Option.bind (reply_by_id d i) (\<lambda>r.
             Option.bind (account_by_id d (reAuthorID r)) (\<lambda>a. Some (a, OutputReply, reBody r, None)))
        else Option.bind (post_by_id d i) (\<lambda>p.
             Option.bind (account_by_id d (poAuthorID p)) (\<lambda>a.
               Some (a, if poQuotedPostID p = None then OutputPost else OutputQuote, poBody p, poCode p))))"

definition context_item ::
  "unicode \<Rightarrow> string \<Rightarrow> Account \<times> GenerationOutput \<times> string \<times> Code option \<Rightarrow> go_error + GenerationContextItem" where
  "context_item uc section row =
     (case row of (account, kind, body, code) \<Rightarrow>
        if oversized body code then Inl ErrGenerationOutput
        else
          (case new_content uc body code of
             Inl _ \<Rightarrow> Inl ErrGenerationOutput
           | Inr content \<Rightarrow>
               if kind \<noteq> OutputReply \<and> length (ctTags content) > MaxTagsPerPost then Inl ErrGenerationOutput
               else
                 (case normalize_handle (cxHandle (context_author account)) of
                    Inl _ \<Rightarrow> Inl ErrGenerationOutput
                  | Inr h \<Rightarrow>
                      let type = cxType (context_author account) in
                      if type \<noteq> AccountHuman \<and> type \<noteq> AccountAgent \<or> section = ''recent'' \<and> type \<noteq> AccountAgent
                      then Inl ErrGenerationOutput
                      else Inr \<lparr>ciAuthor = \<lparr>cxHandle = h, cxType = type\<rparr>, ciKind = kind, ciContent = content\<rparr>)))"

fun context_items :: "unicode \<Rightarrow> db \<Rightarrow> context_key list \<Rightarrow> go_error + (string \<times> GenerationContextItem) list" where
  "context_items uc d [] = Inr []"
| "context_items uc d (k # ks) =
     (case context_row d k of
        None \<Rightarrow> context_items uc d ks
      | Some row \<Rightarrow>
          and_then (context_item uc (snd (snd (snd k))) row) (\<lambda>item.
          and_then (context_items uc d ks) (\<lambda>items. Inr ((snd (snd (snd k)), item) # items))))"

definition section_items :: "string \<Rightarrow> (string \<times> 'a) list \<Rightarrow> 'a list" where
  "section_items name items = map snd (filter (\<lambda>x. fst x = name) items)"

definition pinned_item :: "string \<Rightarrow> (string \<times> 'a) list \<Rightarrow> 'a option" where
  "pinned_item name items = (case rev (section_items name items) of [] \<Rightarrow> None | x # _ \<Rightarrow> Some x)"

definition repost_actor :: "db \<Rightarrow> GenerationJob \<Rightarrow> go_error + GenerationContextAuthor option" where
  "repost_actor d job =
     (if jTriggerKind job \<noteq> TriggerRepost then Inr None
      else (case Option.bind (jTriggerActorID job) (account_by_id d) of
              None \<Rightarrow> Inl ErrNotFound
            | Some a \<Rightarrow> if DisabledAt a \<noteq> None then Inl ErrNotFound else Inr (Some (context_author a))))"

section \<open>Trimming\<close>

definition with_history ::
  "PublicGenerationContext \<Rightarrow> (string \<times> GenerationContextItem) list \<Rightarrow> PublicGenerationContext" where
  "with_history p history = p\<lparr>pubReplies := section_items ''replies'' history,
     pubRecent := map snd (filter (\<lambda>x. fst x \<noteq> ''replies'') history)\<rparr>"

fun trim_history ::
  "(PublicGenerationContext \<Rightarrow> go_error + GenerationContext) \<Rightarrow> PublicGenerationContext \<Rightarrow>
   (string \<times> GenerationContextItem) list \<Rightarrow> go_error + GenerationContext" where
  "trim_history build p history =
     (case build (with_history p history) of
        Inr c \<Rightarrow> Inr c
      | Inl e \<Rightarrow> (case history of [] \<Rightarrow> Inl e | _ # rest \<Rightarrow> trim_history build p rest))"

declare trim_history.simps [simp del]

definition context_lease :: "GenerationJob \<Rightarrow> int \<Rightarrow> time \<Rightarrow> go_error + unit" where
  "context_lease job version c = ensure (validate_lease job version (generation_instant c) = None) ErrConflict"

definition public_context ::
  "GenerationContextAuthor option \<Rightarrow> (string \<times> GenerationContextItem) list \<Rightarrow> PublicGenerationContext" where
  "public_context actor items =
     \<lparr>pubSource = pinned_item ''source'' items, pubTriggerReply = pinned_item ''trigger'' items, pubRepostActor = actor,
      pubReplies = [], pubRecent = []\<rparr>"

definition optional_items :: "(string \<times> 'a) list \<Rightarrow> (string \<times> 'a) list" where
  "optional_items items = filter (\<lambda>x. fst x \<noteq> ''source'' \<and> fst x \<noteq> ''trigger'') items"

definition generation_context ::
  "unicode \<Rightarrow> time \<Rightarrow> time \<Rightarrow> ID \<Rightarrow> int \<Rightarrow> db \<Rightarrow> go_error + GenerationContext" where
  "generation_context uc c1 c2 i version d =
     and_then (job_by_id d i) (\<lambda>job.
     and_then (context_lease job version c1) (\<lambda>_.
     and_then (source_valid d job) (\<lambda>valid.
     if \<not> valid then Inl ErrDeleted
     else
       and_then (execution_persona uc d job) (\<lambda>persona.
       and_then (repost_actor d job) (\<lambda>actor.
       and_then (context_items uc d (context_keys d job)) (\<lambda>items.
       let public = public_context actor items; build = build_generation_context uc job persona in
       and_then (build public) (\<lambda>_.
       and_then (trim_history build public (optional_items items)) (\<lambda>built.
       and_then (context_lease job version c2) (\<lambda>_. Inr built)))))))))"

section \<open>What a snapshot gives\<close>

text \<open>Trimming keeps the longest part of the history, from its end, that the builder accepts.\<close>

lemma trim_history_longest:
  "trim_history build p history = Inr c \<Longrightarrow>
   \<exists>n \<le> length history. build (with_history p (drop n history)) = Inr c \<and>
     (\<forall>k < n. \<exists>e. build (with_history p (drop k history)) = Inl e)"
proof (induction history)
  case Nil
  then show ?case by (simp add: trim_history.simps split: sum.splits)
next
  case (Cons x xs)
  show ?case
  proof (cases "build (with_history p (x # xs))")
    case (Inr c')
    with Cons.prems have "build (with_history p (drop 0 (x # xs))) = Inr c" by (simp add: trim_history.simps)
    then show ?thesis by blast
  next
    case (Inl e)
    with Cons.prems have "trim_history build p xs = Inr c" by (simp add: trim_history.simps)
    then obtain n where n: "n \<le> length xs" "build (with_history p (drop n xs)) = Inr c"
      "\<forall>k < n. \<exists>e. build (with_history p (drop k xs)) = Inl e" using Cons.IH by blast
    have "\<exists>e. build (with_history p (drop k (x # xs))) = Inl e" if "k < Suc n" for k
      using that n(3) Inl by (cases k) auto
    with n(1,2) show ?thesis by (intro exI [of _ "Suc n"]) simp
  qed
qed

text \<open>When the required part fits, trimming ends with a context.\<close>

lemma trim_history_total:
  "build (with_history p []) = Inr c \<Longrightarrow> \<exists>c'. trim_history build p history = Inr c'"
  by (induction history) (simp_all add: trim_history.simps split: sum.split)

lemma with_history_empty [simp]: "with_history (public_context actor items) [] = public_context actor items"
  by (simp add: with_history_def public_context_def section_items_def)

lemma generation_context_cases:
  assumes "generation_context uc c1 c2 i version d = Inr built"
  obtains job persona actor items where
    "job_by_id d i = Inr job" "validate_lease job version (generation_instant c1) = None"
    "validate_lease job version (generation_instant c2) = None" "source_valid d job = Inr True"
    "execution_persona uc d job = Inr persona" "repost_actor d job = Inr actor"
    "context_items uc d (context_keys d job) = Inr items"
    "trim_history (build_generation_context uc job persona) (public_context actor items) (optional_items items) = Inr built"
  using assms unfolding generation_context_def context_lease_def
  by (auto simp: and_then_Inr ensure_Inr Let_def if_Inl split: if_splits)

end
