(* ===== verification/Controls.thy ===== *)
theory Controls
  imports Publication
begin

text \<open>
  The trusted controls of agents: personas, settings and raw job creation (\<open>internal/postgres/generation.go\<close>),
  selection, policy, pause and resume (\<open>generation_controls.go\<close>), and the scheduling pass
  (\<open>generation_schedule.go\<close>).
\<close>

section \<open>Personas and settings\<close>

definition lock_agent :: "ID \<Rightarrow> db \<Rightarrow> go_error + unit" where
  "lock_agent i d =
     (case account_by_id d i of
        None \<Rightarrow> Inl ErrNotFound
      | Some a \<Rightarrow> ensure (acc_Type a = AccountAgent) (invalid_generation ''agent_id''))"

definition create_persona :: "unicode \<Rightarrow> Persona \<Rightarrow> db \<Rightarrow> go_error + db" where
  "create_persona uc p d =
     (if validate_persona uc p \<noteq> None then Inl (invalid_generation ''persona'')
      else
        and_then (lock_agent (perAgentID p) d) (\<lambda>_.
        if persona_by_key d (perAgentID p) (perVersion p) \<noteq> None then Inl ErrConflict
        else Inr (d\<lparr>personas := personas d @ [p\<lparr>perCreatedAt := generation_instant (perCreatedAt p)\<rparr>]\<rparr>)))"

definition persona_by_version :: "unicode \<Rightarrow> db \<Rightarrow> ID \<Rightarrow> int \<Rightarrow> go_error + Persona" where
  "persona_by_version uc d i v =
     (case (persona_by_key d i v, account_by_id d i) of
        (Some p, Some a) \<Rightarrow>
          if validate_persona uc p \<noteq> None \<or> acc_Type a \<noteq> AccountAgent then Inl ErrUnavailable else Inr p
      | _ \<Rightarrow> Inl ErrNotFound)"

text \<open>\<open>readAgentSettings\<close>; the public reader maps malformed settings to an unavailable store.\<close>

definition read_settings :: "timezones \<Rightarrow> db \<Rightarrow> ID \<Rightarrow> go_error + AgentSettings" where
  "read_settings tz d i =
     (case (settings_by_id d i, account_by_id d i) of
        (Some r, Some a) \<Rightarrow>
          if \<not> srDecodable r \<or> validate_settings tz (srSettings r) \<noteq> None \<or> acc_Type a \<noteq> AccountAgent
          then Inl (invalid_generation ''settings'') else Inr (srSettings r)
      | _ \<Rightarrow> Inl ErrNotFound)"

definition agent_settings :: "timezones \<Rightarrow> db \<Rightarrow> ID \<Rightarrow> go_error + AgentSettings" where
  "agent_settings tz d i =
     (case read_settings tz d i of
        Inl (ValidationError _) \<Rightarrow> Inl ErrUnavailable | r \<Rightarrow> r)"

definition stored_settings :: "AgentSettings \<Rightarrow> AgentSettings" where
  "stored_settings s = s\<lparr>sNextPostAt := map_option generation_instant (sNextPostAt s),
     sLastPublishedAt := map_option generation_instant (sLastPublishedAt s), sUpdatedAt := generation_instant (sUpdatedAt s)\<rparr>"

definition initialize_settings :: "unicode \<Rightarrow> timezones \<Rightarrow> AgentSettings \<Rightarrow> db \<Rightarrow> go_error + db \<times> AgentSettings" where
  "initialize_settings uc tz s d =
     (if validate_settings tz s \<noteq> None \<or> sPauseRevision s \<noteq> 0 then Inl (invalid_generation ''settings'')
      else
        and_then (lock_agent (sAgentID s) d) (\<lambda>_.
        and_then (persona_by_version uc d (sAgentID s) (sPersonaVersion s)) (\<lambda>_.
        let d' = (if settings_by_id d (sAgentID s) \<noteq> None then d
                  else d\<lparr>settings := settings d @ [\<lparr>srSettings = stored_settings s, srDecodable = True\<rparr>]\<rparr>)
        in and_then (agent_settings tz d' (sAgentID s)) (\<lambda>saved. Inr (d', saved)))))"

text \<open>Stored instants lose what PostgreSQL does not keep; the table's own checks reject a row that this breaks.\<close>

definition stored_job :: "GenerationJob \<Rightarrow> GenerationJob" where
  "stored_job j = j\<lparr>jAvailableAt := generation_instant (jAvailableAt j), jExpiresAt := generation_instant (jExpiresAt j),
     jCreatedAt := generation_instant (jCreatedAt j)\<rparr>"

definition create_job :: "unicode \<Rightarrow> GenerationJob \<Rightarrow> db \<Rightarrow> go_error + db" where
  "create_job uc j d =
     (if validate_job j \<noteq> None \<or> jStatus j \<noteq> JobPending then Inl (invalid_generation ''job'')
      else
        and_then (lock_agent (jAgentID j) d) (\<lambda>_.
        and_then (persona_by_version uc d (jAgentID j) (jPersonaVersion j)) (\<lambda>_.
        if validate_job (stored_job j) \<noteq> None then Inl ErrUnavailable
        else and_then (insert_job (stored_job j) d) (\<lambda>(d', inserted). if inserted then Inr d' else Inl ErrConflict))))"

section \<open>Controls\<close>

text \<open>The answer is whether the account is disabled.\<close>

definition lock_controlled_agent :: "ID \<Rightarrow> db \<Rightarrow> go_error + bool" where
  "lock_controlled_agent i d =
     (if \<not> valid_generation_id i then Inl (invalid_generation ''agent_id'')
      else (case account_by_id d i of
              None \<Rightarrow> Inl ErrNotFound
            | Some a \<Rightarrow> if acc_Type a \<noteq> AccountAgent then Inl (invalid_generation ''agent_id'')
                        else Inr (DisabledAt a \<noteq> None)))"

definition lock_controlled_settings :: "ID \<Rightarrow> db \<Rightarrow> go_error + unit" where
  "lock_controlled_settings i d = ensure (settings_by_id d i \<noteq> None) ErrNotFound"

definition pinned_persona :: "unicode \<Rightarrow> db \<Rightarrow> ID \<Rightarrow> int \<Rightarrow> go_error + Persona" where
  "pinned_persona uc d i v = execution_persona uc d (no_root\<lparr>jAgentID := i, jPersonaVersion := v\<rparr>)"

definition select_persona :: "unicode \<Rightarrow> ID \<Rightarrow> int \<Rightarrow> time \<Rightarrow> db \<Rightarrow> go_error + db" where
  "select_persona uc i v c d =
     and_then (lock_controlled_agent i d) (\<lambda>_.
     and_then (lock_controlled_settings i d) (\<lambda>_.
     and_then (pinned_persona uc d i v) (\<lambda>_.
     update_settings d i (\<lambda>s. s\<lparr>sPersonaVersion := v, sUpdatedAt := generation_instant c\<rparr>))))"

definition create_and_select :: "unicode \<Rightarrow> Persona \<Rightarrow> time \<Rightarrow> db \<Rightarrow> go_error + db" where
  "create_and_select uc p c d = and_then (create_persona uc p d) (select_persona uc (perAgentID p) (perVersion p) c)"

definition set_policy :: "timezones \<Rightarrow> ID \<Rightarrow> GenerationPolicy \<Rightarrow> time \<Rightarrow> db \<Rightarrow> go_error + db" where
  "set_policy tz i p c d =
     (if validate_policy tz p \<noteq> None then Inl (invalid_generation ''policy'')
      else
        and_then (lock_controlled_agent i d) (\<lambda>_.
        and_then (lock_controlled_settings i d) (\<lambda>_.
        and_then (read_settings tz d i) (\<lambda>s.
        let now = generation_instant c in
        (case change_policy tz s p now of
           (_, Some _) \<Rightarrow> Inl (invalid_generation ''policy'')
         | (s', None) \<Rightarrow>
             update_settings d i (\<lambda>x. x\<lparr>sPolicy := p, sNextPostAt := sNextPostAt s', sScheduleDate := sScheduleDate s',
               sRemainingSlots := sRemainingSlots s', sUpdatedAt := now\<rparr>))))))"

definition validate_resume :: "unicode \<Rightarrow> timezones \<Rightarrow> ID \<Rightarrow> db \<Rightarrow> go_error + unit" where
  "validate_resume uc tz i d =
     and_then (read_settings tz d i) (\<lambda>s.
     if sRemainingSlots s > 0 \<and> sNextPostAt s = None then Inl (invalid_generation ''settings'')
     else and_then (pinned_persona uc d i (sPersonaVersion s)) (\<lambda>_. Inr ()))"

definition switch_enabled :: "bool \<Rightarrow> time \<Rightarrow> AgentSettings \<Rightarrow> AgentSettings" where
  "switch_enabled enabled c s =
     s\<lparr>sEnabled := enabled, sPauseRevision := (if enabled then sPauseRevision s else sPauseRevision s + 1),
        sUpdatedAt := generation_instant c\<rparr>"

text \<open>Errors that a fleet-wide resume passes over.\<close>

fun skippable :: "go_error \<Rightarrow> bool" where
  "skippable (ValidationError _) = True"
| "skippable ErrGenerationOutput = True"
| "skippable ErrNotFound = True"
| "skippable _ = False"

fun lock_all :: "db \<Rightarrow> ID list \<Rightarrow> go_error + bool list" where
  "lock_all d [] = Inr []"
| "lock_all d (i # is) =
     and_then (lock_controlled_agent i d) (\<lambda>b. and_then (lock_all d is) (\<lambda>bs. Inr (b # bs)))"

text \<open>\<open>Inr False\<close>: this agent is passed over.\<close>

definition resume_checked :: "unicode \<Rightarrow> timezones \<Rightarrow> bool \<Rightarrow> ID \<Rightarrow> bool \<Rightarrow> db \<Rightarrow> go_error + bool" where
  "resume_checked uc tz single i disabled d =
     (if disabled then (if single then Inl ErrForbidden else Inr False)
      else (case validate_resume uc tz i d of
              Inr _ \<Rightarrow> Inr True
            | Inl e \<Rightarrow> if \<not> single \<and> skippable e then Inr False else Inl e))"

fun switch_loop ::
  "unicode \<Rightarrow> timezones \<Rightarrow> bool \<Rightarrow> bool \<Rightarrow> (ID \<Rightarrow> time) \<Rightarrow> (ID \<times> bool) list \<Rightarrow> db \<Rightarrow> go_error + db \<times> nat" where
  "switch_loop uc tz single enabled c [] d = Inr (d, 0)"
| "switch_loop uc tz single enabled c ((i, disabled) # is) d =
     and_then (lock_controlled_settings i d) (\<lambda>_.
     and_then (if enabled then resume_checked uc tz single i disabled d else Inr True) (\<lambda>go.
     if go
     then and_then (update_settings d i (switch_enabled enabled (c i))) (\<lambda>d'.
          and_then (switch_loop uc tz single enabled c is d') (\<lambda>(d'', n). Inr (d'', Suc n)))
     else switch_loop uc tz single enabled c is d))"

definition set_enabled ::
  "unicode \<Rightarrow> timezones \<Rightarrow> ID option \<Rightarrow> bool \<Rightarrow> (ID \<Rightarrow> time) \<Rightarrow> db \<Rightarrow> go_error + db \<times> nat" where
  "set_enabled uc tz target enabled c d =
     (let ids = (case target of Some i \<Rightarrow> [i]
                 | None \<Rightarrow> take (max_configured_agents + 1) (sort (map (\<lambda>r. sAgentID (srSettings r)) (settings d))))
      in if target = None \<and> length ids > max_configured_agents then Inl (invalid_generation ''agents'')
         else and_then (lock_all d ids) (\<lambda>bs. switch_loop uc tz (target \<noteq> None) enabled c (zip ids bs) d))"

definition pause_agent :: "unicode \<Rightarrow> timezones \<Rightarrow> ID \<Rightarrow> (ID \<Rightarrow> time) \<Rightarrow> db \<Rightarrow> go_error + db" where
  "pause_agent uc tz i c d = and_then (set_enabled uc tz (Some i) False c d) (\<lambda>(d', _). Inr d')"

definition resume_agent :: "unicode \<Rightarrow> timezones \<Rightarrow> ID \<Rightarrow> (ID \<Rightarrow> time) \<Rightarrow> db \<Rightarrow> go_error + db" where
  "resume_agent uc tz i c d = and_then (set_enabled uc tz (Some i) True c d) (\<lambda>(d', _). Inr d')"

section \<open>Scheduling\<close>

record schedule_result =
  agents_visited :: int
  invalid_agents :: int
  jobs_enqueued :: int
  slots_denied :: int
  jobs_expired :: int

definition no_schedule :: schedule_result where
  "no_schedule = \<lparr>agents_visited = 0, invalid_agents = 0, jobs_enqueued = 0, slots_denied = 0, jobs_expired = 0\<rparr>"

definition schedule_batch :: nat where "schedule_batch = 32"

text \<open>
  Settings whose inspection lies in the future come first, then the ones inspected longest ago.
\<close>

definition schedule_order :: "time \<Rightarrow> ID \<times> time \<Rightarrow> bool \<times> time \<times> ID" where
  "schedule_order clock x = (\<not> snd x > clock, snd x, fst x)"

definition schedule_rows :: "db \<Rightarrow> (AgentSettings \<times> Account) list" where
  "schedule_rows d =
     take (max_configured_agents + 1)
       (concat (map (\<lambda>i. case (settings_by_id d i, account_by_id d i) of
            (Some r, Some a) \<Rightarrow> [(srSettings r, a)] | _ \<Rightarrow> [])
          (sort (map (\<lambda>r. sAgentID (srSettings r)) (settings d)))))"

definition schedule_candidates :: "time \<Rightarrow> db \<Rightarrow> go_error + ID list" where
  "schedule_candidates clock d =
     (let rows = schedule_rows d in
      if length rows > max_configured_agents then Inl (Errorf ''generation configuration exceeds 1000 agents'')
      else Inr (map fst (take schedule_batch (sort_key (schedule_order clock)
             (map (\<lambda>(s, a). (sAgentID s, sUpdatedAt s))
               (filter (\<lambda>(s, a). sEnabled s \<and> DisabledAt a = None) rows))))))"

definition scheduled_job :: "ID \<Rightarrow> AgentSettings \<Rightarrow> string \<Rightarrow> time \<Rightarrow> time \<Rightarrow> GenerationJob" where
  "scheduled_job i s key clock expires =
     no_root\<lparr>jID := i, jAgentID := sAgentID s, jPersonaVersion := sPersonaVersion s, jTriggerKind := TriggerScheduled,
       jTriggerKey := key, jOutputKind := OutputPost, jRootJobID := i, jMaxChainDepth := pMaxChainDepth (sPolicy s),
       jMaxChainJobs := pMaxChainJobs (sPolicy s), jStatus := JobPending, jAvailableAt := clock, jExpiresAt := expires,
       jCreatedAt := clock\<rparr>"

text \<open>A due slot: the day's reservations and the spacing, then the job.\<close>

definition enqueue_slot :: "timezones \<Rightarrow> ID \<Rightarrow> AgentSettings \<Rightarrow> ScheduledSlot \<Rightarrow> time \<Rightarrow> db \<Rightarrow> go_error + db \<times> bool" where
  "enqueue_slot tz fresh_id s slot clock d =
     (let p = sPolicy s; mine = (\<lambda>j. jAgentID j = sAgentID s);
          (start, stop) = local_day_bounds clock (policy_location tz p)
      in if count_jobs d (\<lambda>j. mine j \<and> jOutputKind j = OutputPost \<and> start \<le> jCreatedAt j \<and> jCreatedAt j < stop)
              \<ge> pScheduledPostCapPerDay p
         then Inr (d, False)
         else if list_ex (\<lambda>j. mine j \<and> (jOutputKind j = OutputPost \<or> response_output (jOutputKind j)) \<and>
                   jCreatedAt j > clock - pMinSpacingSeconds p * second) (jobs d)
         then Inr (d, False)
         else
           (case scheduled_key (slotAt slot) of
              Inl _ \<Rightarrow> Inl ErrUnavailable
            | Inr key \<Rightarrow>
                let j = scheduled_job fresh_id s key clock (slotExpiresAt slot) in
                if validate_job j \<noteq> None then Inl ErrUnavailable else insert_job j d))"

definition schedule_valid ::
  "unicode \<Rightarrow> timezones \<Rightarrow> ID \<Rightarrow> time \<Rightarrow> draws \<Rightarrow> AgentSettings \<Rightarrow> db \<Rightarrow> go_error + db \<times> schedule_result" where
  "schedule_valid uc tz fresh_id clock draw s d =
     (let visited = no_schedule\<lparr>agents_visited := 1\<rparr>; invalid = visited\<lparr>invalid_agents := 1\<rparr> in
      case persona_by_key d (sAgentID s) (sPersonaVersion s) of
        None \<Rightarrow> Inl ErrNotFound
      | Some p \<Rightarrow>
          if validate_persona uc p \<noteq> None then Inr (d, invalid)
          else
            (case the (advance_schedule tz draw s clock) of
               Inl _ \<Rightarrow> Inr (d, invalid)
             | Inr (s', slot) \<Rightarrow>
                 and_then (update_settings d (sAgentID s) (\<lambda>x. x\<lparr>sNextPostAt := sNextPostAt s',
                     sScheduleDate := sScheduleDate s', sRemainingSlots := sRemainingSlots s'\<rparr>)) (\<lambda>d1.
                 (case slot of
                    None \<Rightarrow> Inr (d1, visited)
                  | Some sl \<Rightarrow>
                      and_then (enqueue_slot tz fresh_id s sl clock d1) (\<lambda>(d2, ok).
                      Inr (d2, visited\<lparr>jobs_enqueued := if ok then 1 else 0, slots_denied := if ok then 0 else 1\<rparr>))))))"

definition schedule_agent ::
  "unicode \<Rightarrow> timezones \<Rightarrow> ID \<Rightarrow> time \<Rightarrow> draws \<Rightarrow> ID \<Rightarrow> db \<Rightarrow> go_error + db \<times> schedule_result" where
  "schedule_agent uc tz fresh_id c draw i d =
     (case (account_by_id d i, settings_by_id d i) of
        (Some a, Some r) \<Rightarrow>
          let s = (srSettings r)\<lparr>sPauseRevision := 0\<rparr>; clock = generation_instant c in
          if DisabledAt a \<noteq> None \<or> \<not> sEnabled s then Inr (d, no_schedule)
          else
            and_then (update_settings d i (\<lambda>x. x\<lparr>sUpdatedAt := clock\<rparr>)) (\<lambda>d1.
            if \<not> srDecodable r \<or> acc_Type a \<noteq> AccountAgent \<or> validate_settings tz s \<noteq> None
            then Inr (d1, no_schedule\<lparr>agents_visited := 1, invalid_agents := 1\<rparr>)
            else schedule_valid uc tz fresh_id clock draw s d1)
      | _ \<Rightarrow> Inl ErrNotFound)"

text \<open>
  One pass: discovery, expiry, then a transaction per agent; \<open>c k\<close>, \<open>draw k\<close> and \<open>fresh k\<close> are what the
  \<open>k\<close>-th agent's transaction reads.  Counts of committed agents accompany a later failure.
\<close>

definition add_results :: "schedule_result \<Rightarrow> schedule_result \<Rightarrow> schedule_result" where
  "add_results r x =
     r\<lparr>agents_visited := agents_visited r + agents_visited x, invalid_agents := invalid_agents r + invalid_agents x,
       jobs_enqueued := jobs_enqueued r + jobs_enqueued x, slots_denied := slots_denied r + slots_denied x\<rparr>"

fun schedule_agents ::
  "unicode \<Rightarrow> timezones \<Rightarrow> (nat \<Rightarrow> ID) \<Rightarrow> (nat \<Rightarrow> time) \<Rightarrow> (nat \<Rightarrow> draws) \<Rightarrow> nat \<Rightarrow> ID list \<Rightarrow> schedule_result \<Rightarrow> db \<Rightarrow>
   db \<times> schedule_result \<times> go_error option" where
  "schedule_agents uc tz fresh c draw k [] r d = (d, r, None)"
| "schedule_agents uc tz fresh c draw k (i # is) r d =
     (case schedule_agent uc tz (fresh k) (c k) (draw k) i d of
        Inl e \<Rightarrow> (d, r, Some e)
      | Inr (d', x) \<Rightarrow> schedule_agents uc tz fresh c draw (Suc k) is (add_results r x) d')"

definition schedule_generation ::
  "unicode \<Rightarrow> timezones \<Rightarrow> (nat \<Rightarrow> ID) \<Rightarrow> (nat \<Rightarrow> time) \<Rightarrow> (nat \<Rightarrow> draws) \<Rightarrow> (ID \<Rightarrow> bool) \<Rightarrow> time \<Rightarrow> time \<Rightarrow> time \<Rightarrow> db \<Rightarrow>
   db \<times> schedule_result \<times> go_error option" where
  "schedule_generation uc tz fresh c draw locked c0 c1 c2 d =
     (case schedule_candidates c0 d of
        Inl e \<Rightarrow> (d, no_schedule, Some e)
      | Inr ids \<Rightarrow>
          (case expire_jobs locked c1 c2 d of
             Inl e \<Rightarrow> (d, no_schedule, Some e)
           | Inr (d', n) \<Rightarrow>
               schedule_agents uc tz fresh c draw 0 ids (no_schedule\<lparr>jobs_expired := int n\<rparr>) d'))"

section \<open>Controls as effects\<close>

lemma settings_elsewhere: "update_settings d i f = Inr d' \<Longrightarrow> effects d d'"
  by (intro same_work_effects update_settings_work)

lemma create_persona_effects: "create_persona uc p d = Inr d' \<Longrightarrow> effects d d'"
  by (auto simp: create_persona_def if_Inl intro: effects_elsewhere)

lemma initialize_settings_effects: "initialize_settings uc tz s d = Inr (d', s') \<Longrightarrow> effects d d'"
  by (auto simp: initialize_settings_def if_Inl Let_def intro: effects_elsewhere)

lemma create_job_effects:
  assumes "create_job uc j d = Inr d'"
  shows "effects d d'"
proof -
  from assms have v: "validate_job (stored_job j) = None" "jStatus (stored_job j) = JobPending"
    by (auto simp: create_job_def if_Inl stored_job_def)
  from assms obtain b where "insert_job (stored_job j) d = Inr (d', b)" by (auto simp: create_job_def if_Inl split: if_splits)
  from insert_job_effects [OF this v] show ?thesis .
qed

lemma select_persona_effects: "select_persona uc i v c d = Inr d' \<Longrightarrow> effects d d'"
  by (auto simp: select_persona_def dest: settings_elsewhere)

lemma create_and_select_effects: "create_and_select uc p c d = Inr d' \<Longrightarrow> effects d d'"
  by (auto simp: create_and_select_def dest!: create_persona_effects select_persona_effects)

lemma set_policy_cases:
  assumes "set_policy tz i p c d = Inr d'"
  shows "\<exists>s s'. read_settings tz d i = Inr s \<and> change_policy tz s p (generation_instant c) = (s', None) \<and>
    update_settings d i (\<lambda>x. x\<lparr>sPolicy := p, sNextPostAt := sNextPostAt s', sScheduleDate := sScheduleDate s',
      sRemainingSlots := sRemainingSlots s', sUpdatedAt := generation_instant c\<rparr>) = Inr d'"
proof -
  from assms obtain s where s: "read_settings tz d i = Inr s" by (auto simp: set_policy_def if_Inl)
  obtain s' e where c: "change_policy tz s p (generation_instant c) = (s', e)" by (cases "change_policy tz s p (generation_instant c)")
  from assms s c show ?thesis by (cases e) (auto simp: set_policy_def if_Inl Let_def)
qed

lemma set_policy_effects: "set_policy tz i p c d = Inr d' \<Longrightarrow> effects d d'"
  by (drule set_policy_cases) (auto dest: settings_elsewhere)

lemma switch_loop_effects: "switch_loop uc tz single enabled c is d = Inr (d', n) \<Longrightarrow> effects d d'"
proof (induction uc tz single enabled c "is" d arbitrary: n rule: switch_loop.induct)
  case (2 uc tz single enabled c i disabled "is" d)
  from "2.prems" obtain go where rest: "(if go
     then and_then (update_settings d i (switch_enabled enabled (c i))) (\<lambda>d'.
          and_then (switch_loop uc tz single enabled c is d') (\<lambda>(d'', n). Inr (d'', Suc n)))
     else switch_loop uc tz single enabled c is d) = Inr (d', n)"
    by (simp only: switch_loop.simps and_then_Inr) blast
  show ?case
  proof (cases go)
    case True
    with rest obtain d1 m where 1: "update_settings d i (switch_enabled enabled (c i)) = Inr d1"
      "switch_loop uc tz single enabled c is d1 = Inr (d', m)" by auto
    from "2.IH"(1) [OF True 1(2)] settings_elsewhere [OF 1(1)] show ?thesis by (rule rtranclp_trans [rotated])
  next
    case False
    with rest "2.IH"(2) [OF False] show ?thesis by simp
  qed
qed simp

lemma set_enabled_effects: "set_enabled uc tz target enabled c d = Inr (d', n) \<Longrightarrow> effects d d'"
  by (auto simp: set_enabled_def Let_def if_Inl dest: switch_loop_effects)

lemma enqueue_slot_effects:
  assumes "enqueue_slot tz i s slot clock d = Inr (d', b)"
  shows "effects d d'"
proof -
  from assms consider "d' = d"
    | key where "validate_job (scheduled_job i s key clock (slotExpiresAt slot)) = None"
      "insert_job (scheduled_job i s key clock (slotExpiresAt slot)) d = Inr (d', b)"
    by (auto simp: enqueue_slot_def Let_def split: if_splits prod.splits sum.splits)
  then show ?thesis
  proof cases
    case 2
    have "jStatus (scheduled_job i s key clock (slotExpiresAt slot)) = JobPending" by (simp add: scheduled_job_def)
    from insert_job_effects [OF 2(2,1) this] show ?thesis .
  qed simp
qed

lemma schedule_valid_effects:
  assumes "schedule_valid uc tz i clock draw s d = Inr (d', r)"
  shows "effects d d'"
proof -
  from assms consider "d' = d"
    | f where "update_settings d (sAgentID s) f = Inr d'"
    | f d1 slot b where "update_settings d (sAgentID s) f = Inr d1" "enqueue_slot tz i s slot clock d1 = Inr (d', b)"
    by (auto simp: schedule_valid_def Let_def split: if_splits option.splits sum.splits)
  then show ?thesis
    by cases (auto dest!: settings_elsewhere enqueue_slot_effects)
qed

lemma schedule_agent_effects:
  assumes "schedule_agent uc tz k c draw i d = Inr (d', r)"
  shows "effects d d'"
proof -
  from assms obtain a x where ax: "account_by_id d i = Some a" "settings_by_id d i = Some x"
    by (auto simp: schedule_agent_def split: option.splits)
  with assms consider "d' = d" | f where "update_settings d i f = Inr d'"
    | f d1 s where "update_settings d i f = Inr d1" "schedule_valid uc tz k (generation_instant c) draw s d1 = Inr (d', r)"
    by (auto simp: schedule_agent_def Let_def split: if_splits)
  then show ?thesis
    by cases (auto dest!: settings_elsewhere schedule_valid_effects)
qed

lemma schedule_agents_effects: "schedule_agents uc tz fresh c draw k is r d = (d', r', e) \<Longrightarrow> effects d d'"
proof (induction uc tz fresh c draw k "is" r d rule: schedule_agents.induct)
  case (2 uc tz fresh c draw k i "is" r d)
  show ?case
  proof (cases "schedule_agent uc tz (fresh k) (c k) (draw k) i d")
    case (Inl e1)
    with "2.prems" show ?thesis by simp
  next
    case (Inr y)
    obtain d1 x where y: "y = (d1, x)" by (cases y)
    from schedule_agent_effects Inr y have "effects d d1" by blast
    moreover from "2.IH" [OF Inr y [symmetric]] "2.prems" Inr y have "effects d1 d'" by simp
    ultimately show ?thesis by (rule rtranclp_trans)
  qed
qed simp

lemma schedule_generation_effects:
  assumes "schedule_generation uc tz fresh c draw locked c0 c1 c2 d = (d', r, e)" "rows_ok d"
  shows "effects d d'"
  using assms
  by (auto simp: schedule_generation_def split: sum.splits
        dest!: schedule_agents_effects expire_jobs_changes job_changes_effects)

end
