(* ===== verification/Base64.thy ===== *)
theory Base64
  imports GoString
begin

text \<open>
  What the code uses of \<open>encoding/base64\<close>: the unpadded standard and URL alphabets, encoding, and strict
  decoding (the unused bits of the last character must be zero; line breaks are skipped).
\<close>

definition alnum_alphabet :: string where
  "alnum_alphabet = ''ABCDEFGHIJKLMNOPQRSTUVWXYZabcdefghijklmnopqrstuvwxyz0123456789''"

definition std_alphabet :: string where "std_alphabet = alnum_alphabet @ ''+/''"
definition url_alphabet :: string where "url_alphabet = alnum_alphabet @ ''-_''"

definition is_alphabet :: "string \<Rightarrow> bool" where
  "is_alphabet al \<longleftrightarrow> length al = 64 \<and> distinct al \<and> CHR 0x0A \<notin> set al \<and> CHR 0x0D \<notin> set al"

lemma alphabets: "is_alphabet std_alphabet" "is_alphabet url_alphabet"
  by (simp_all add: is_alphabet_def std_alphabet_def url_alphabet_def alnum_alphabet_def)

section \<open>Encoding\<close>

fun b64_digits :: "nat list \<Rightarrow> nat list" where
  "b64_digits [] = []"
| "b64_digits [a] = [a div 4, a mod 4 * 16]"
| "b64_digits [a, b] = [a div 4, a mod 4 * 16 + b div 16, b mod 16 * 4]"
| "b64_digits (a # b # c # r) = a div 4 # (a mod 4 * 16 + b div 16) # (b mod 16 * 4 + c div 64) # c mod 64 # b64_digits r"

definition b64_encode :: "string \<Rightarrow> string \<Rightarrow> string" where
  "b64_encode al s = map (\<lambda>k. al ! k) (b64_digits (map byte s))"

section \<open>Decoding\<close>

fun index_of :: "'a \<Rightarrow> 'a list \<Rightarrow> nat option" where
  "index_of x [] = None"
| "index_of x (y # ys) = (if x = y then Some 0 else map_option Suc (index_of x ys))"

fun b64_bytes :: "nat list \<Rightarrow> nat list option" where
  "b64_bytes [] = Some []"
| "b64_bytes [a] = None"
| "b64_bytes [a, b] = (if b mod 16 \<noteq> 0 then None else Some [a * 4 + b div 16])"
| "b64_bytes [a, b, c] = (if c mod 4 \<noteq> 0 then None else Some [a * 4 + b div 16, b mod 16 * 16 + c div 4])"
| "b64_bytes (a # b # c # d # r) =
     map_option (\<lambda>bs. [a * 4 + b div 16, b mod 16 * 16 + c div 4, c mod 4 * 64 + d] @ bs) (b64_bytes r)"

fun all_some :: "'a option list \<Rightarrow> 'a list option" where
  "all_some [] = Some []"
| "all_some (None # xs) = None"
| "all_some (Some x # xs) = map_option ((#) x) (all_some xs)"

definition b64_decode :: "string \<Rightarrow> string \<Rightarrow> string option" where
  "b64_decode al s =
     (case all_some (map (\<lambda>c. index_of c al) (filter (\<lambda>c. c \<noteq> CHR 0x0A \<and> c \<noteq> CHR 0x0D) s)) of
        None \<Rightarrow> None
      | Some ks \<Rightarrow> map_option (map char_of) (b64_bytes ks))"

section \<open>Round trip\<close>

lemma index_of_nth: "distinct al \<Longrightarrow> k < length al \<Longrightarrow> index_of (al ! k) al = Some k"
proof (induction al arbitrary: k)
  case (Cons x xs)
  then show ?case by (cases k) auto
qed simp

lemma b64_digits_less: "\<forall>b \<in> set bs. b < 256 \<Longrightarrow> \<forall>k \<in> set (b64_digits bs). k < 64"
proof (induction bs rule: b64_digits.induct)
  case (4 a b c r)
  then show ?case by (auto; linarith)
qed (auto; linarith)+

lemma b64_bytes_digits: "\<forall>b \<in> set bs. b < 256 \<Longrightarrow> b64_bytes (b64_digits bs) = Some bs"
proof (induction bs rule: b64_digits.induct)
  case (3 a b)
  then have "b div 16 < 16" by auto
  then have "a = a div 4 * 4 + (a mod 4 * 16 + b div 16) div 16" "b = (a mod 4 * 16 + b div 16) mod 16 * 16 + b mod 16 * 4 div 4"
    by (simp_all add: mod_mult_self3)
  then show ?case by simp
next
  case (4 a b c r)
  then have "b div 16 < 16" "c div 64 < 4" by auto
  then have "a = a div 4 * 4 + (a mod 4 * 16 + b div 16) div 16"
    "b = (a mod 4 * 16 + b div 16) mod 16 * 16 + (b mod 16 * 4 + c div 64) div 4"
    "c = (b mod 16 * 4 + c div 64) mod 4 * 64 + c mod 64"
    by (simp_all add: mod_mult_self3)
  with 4 show ?case by simp
qed (auto; presburger)+

lemma all_some_map: "all_some (map (\<lambda>k. Some (f k)) ks) = Some (map f ks)"
  by (induction ks) auto

lemma b64_decode_encode:
  assumes "is_alphabet al"
  shows "b64_decode al (b64_encode al s) = Some s"
proof -
  let ?ks = "b64_digits (map byte s)"
  have less: "\<forall>k \<in> set ?ks. k < 64" by (rule b64_digits_less) auto
  have "al ! k \<in> set al" if "k \<in> set ?ks" for k using that less assms by (auto simp: is_alphabet_def)
  then have "filter (\<lambda>c. c \<noteq> CHR 0x0A \<and> c \<noteq> CHR 0x0D) (b64_encode al s) = b64_encode al s"
    using assms by (fastforce simp: b64_encode_def is_alphabet_def filter_id_conv)
  moreover have "map (\<lambda>c. index_of c al) (b64_encode al s) = map (\<lambda>k. Some k) ?ks"
    using less assms by (auto simp: b64_encode_def is_alphabet_def index_of_nth)
  ultimately have "b64_decode al (b64_encode al s) = map_option (map char_of) (b64_bytes ?ks)"
    using all_some_map [of "\<lambda>k. k" ?ks] by (simp add: b64_decode_def)
  also have "b64_bytes ?ks = Some (map byte s)" by (rule b64_bytes_digits) auto
  finally show ?thesis by (simp add: map_idI)
qed

lemma length_b64_digits: "length (b64_digits bs) = (4 * length bs + 2) div 3"
  by (induction bs rule: b64_digits.induct) auto

lemma length_b64_encode: "length (b64_encode al s) = (4 * length s + 2) div 3"
  by (simp add: b64_encode_def length_b64_digits)

lemma b64_encode_set: "is_alphabet al \<Longrightarrow> set (b64_encode al s) \<subseteq> set al"
  using b64_digits_less [of "map byte s"] by (auto simp: b64_encode_def is_alphabet_def)

end
