(* ===== verification/Auth.thy ===== *)
theory Auth
  imports Posting Base64
begin

text \<open>
  Accounts and sessions: password hashes (\<open>internal/app/password.go\<close>), registration and login
  (\<open>internal/app/auth.go\<close>) against the interface \<open>AuthStore\<close>, and the PostgreSQL store that provides it
  (\<open>internal/postgres/auth.go\<close>, \<open>accounts.go\<close>, \<open>operator.go\<close>).  Argon2 is the parameter \<open>kdf\<close> (password, salt),
  \<open>free\<close> tells whether one of the two hashing slots is free, \<open>salt\<close> and \<open>raw\<close> are the random bytes.
\<close>

section \<open>Passwords\<close>

definition password_prefix :: string where "password_prefix = ''$argon2id$v=19$m=65536,t=3,p=2$''"

definition dummy_password_hash :: string where
  "dummy_password_hash = password_prefix @ replicate 22 CHR ''A'' @ ''$'' @ replicate 43 CHR ''A''"

definition valid_password :: "string \<Rightarrow> bool" where
  "valid_password p \<longleftrightarrow> length p \<ge> 12 \<and> length p \<le> 1024 \<and> valid_utf8 p"

definition password_key :: "(string \<Rightarrow> string \<Rightarrow> string) \<Rightarrow> bool \<Rightarrow> string \<Rightarrow> string \<Rightarrow> go_error + string" where
  "password_key kdf free p salt = (if free then Inr (kdf p salt) else Inl ErrBusy)"

definition hash_password :: "(string \<Rightarrow> string \<Rightarrow> string) \<Rightarrow> bool \<Rightarrow> string \<Rightarrow> string \<Rightarrow> go_error + string" where
  "hash_password kdf free salt p =
     (if \<not> valid_password p then Inl (ValidationError [(''password'', ''Must contain 12-1024 UTF-8 bytes'')])
      else and_then (password_key kdf free p salt) (\<lambda>key.
           Inr (password_prefix @ b64_encode std_alphabet salt @ ''$'' @ b64_encode std_alphabet key)))"

fun split_on :: "char \<Rightarrow> string \<Rightarrow> string list" where
  "split_on c [] = [[]]"
| "split_on c (x # xs) = (if x = c then [] # split_on c xs
     else case split_on c xs of [] \<Rightarrow> [[x]] | y # ys \<Rightarrow> (x # y) # ys)"

definition verify_password :: "(string \<Rightarrow> string \<Rightarrow> string) \<Rightarrow> bool \<Rightarrow> string \<Rightarrow> string \<Rightarrow> go_error + bool" where
  "verify_password kdf free p encoded =
     (if \<not> valid_password p then Inr False
      else if length encoded \<noteq> length dummy_password_hash \<or> \<not> has_prefix encoded password_prefix then Inl ErrUnavailable
      else
        (case split_on CHR ''$'' (drop (length password_prefix) encoded) of
           [s, k] \<Rightarrow>
             (case (b64_decode std_alphabet s, b64_decode std_alphabet k) of
                (Some salt, Some expected) \<Rightarrow>
                  if length salt \<noteq> 16 \<or> length expected \<noteq> 32 then Inl ErrUnavailable
                  else and_then (password_key kdf free p salt) (\<lambda>actual. Inr (actual = expected))
              | _ \<Rightarrow> Inl ErrUnavailable)
         | _ \<Rightarrow> Inl ErrUnavailable))"

section \<open>Sessions\<close>

definition session_lifetime :: duration where "session_lifetime = 7 * 24 * 3600 * second"

definition session_hash :: "string \<Rightarrow> string" where
  "session_hash token =
     (if length token \<noteq> 43 then []
      else (case b64_decode url_alphabet token of
              None \<Rightarrow> []
            | Some raw \<Rightarrow> if length raw \<noteq> 32 then [] else hex_encode (sha256 token)))"

definition new_session :: "ID \<Rightarrow> string \<Rightarrow> time \<Rightarrow> Session \<times> string" where
  "new_session i raw now =
     (let token = b64_encode url_alphabet raw
      in (\<lparr>seTokenHash = session_hash token, seAccountID = i, seCreatedAt = now, seExpiresAt = now + session_lifetime\<rparr>, token))"

section \<open>Registration and login\<close>

text \<open>The operations of \<open>AuthStore\<close> that the services call are arguments.\<close>

fun username_error :: "go_error \<Rightarrow> go_error" where
  "username_error (ValidationError fs) =
     (case map_of fs ''handle'' of
        Some m \<Rightarrow> if m \<noteq> [] then ValidationError ((''username'', m) # filter (\<lambda>f. fst f \<noteq> ''handle'') fs) else ValidationError fs
      | None \<Rightarrow> ValidationError fs)"
| "username_error e = e"

definition auth_register ::
  "(Account \<Rightarrow> string \<Rightarrow> Session \<Rightarrow> string \<Rightarrow> 's \<Rightarrow> go_error + 's) \<Rightarrow> (string \<Rightarrow> string \<Rightarrow> string) \<Rightarrow> bool \<Rightarrow> ID \<Rightarrow> string \<Rightarrow>
   string \<Rightarrow> time \<Rightarrow> time \<Rightarrow> string \<Rightarrow> string \<Rightarrow> string \<Rightarrow> string \<Rightarrow> 's \<Rightarrow> go_error + 's \<times> Account \<times> string" where
  "auth_register register kdf free fresh salt raw now now' username password display previous st =
     (case new_account fresh AccountHuman username display now of
        Inl e \<Rightarrow> Inl (username_error e)
      | Inr account \<Rightarrow>
          and_then (hash_password kdf free salt password) (\<lambda>h.
          let (session, token) = new_session (acc_ID account) raw now' in
          and_then (register account h session (session_hash previous) st) (\<lambda>st'. Inr (st', account, token))))"

definition login_credential ::
  "('s \<Rightarrow> string \<Rightarrow> go_error + Account \<times> string) \<Rightarrow> 's \<Rightarrow> string \<Rightarrow> go_error + (Account \<times> string) option" where
  "login_credential credential st username =
     (case normalize_handle username of
        Inl _ \<Rightarrow> Inr None
      | Inr h \<Rightarrow> (case credential st h of Inl e \<Rightarrow> if e = ErrNotFound then Inr None else Inl e | Inr x \<Rightarrow> Inr (Some x)))"

definition auth_login ::
  "('s \<Rightarrow> string \<Rightarrow> go_error + Account \<times> string) \<Rightarrow> (Session \<Rightarrow> string \<Rightarrow> 's \<Rightarrow> go_error + 's) \<Rightarrow>
   (string \<Rightarrow> string \<Rightarrow> string) \<Rightarrow> bool \<Rightarrow> string \<Rightarrow> time \<Rightarrow> string \<Rightarrow> string \<Rightarrow> string \<Rightarrow> 's \<Rightarrow> go_error + 's \<times> Account \<times> string" where
  "auth_login credential rotation kdf free raw now username password previous st =
     (if \<not> valid_password password then Inl ErrInvalidCredentials
      else
        and_then (login_credential credential st username) (\<lambda>found.
        and_then (verify_password kdf free password (case found of None \<Rightarrow> dummy_password_hash | Some (_, h) \<Rightarrow> h)) (\<lambda>valid.
        (case found of
           None \<Rightarrow> Inl ErrInvalidCredentials
         | Some (account, _) \<Rightarrow>
             if \<not> valid \<or> acc_Type account \<noteq> AccountHuman \<or> DisabledAt account \<noteq> None then Inl ErrInvalidCredentials
             else
               let (session, token) = new_session (acc_ID account) raw now in
               (case rotation session (session_hash previous) st of
                  Inl e \<Rightarrow> Inl (if e = ErrUnauthenticated then ErrInvalidCredentials else e)
                | Inr st' \<Rightarrow> Inr (st', account, token))))))"

section \<open>The store\<close>

text \<open>Stored instants have the precision of PostgreSQL.\<close>

definition create_account :: "Account \<Rightarrow> db \<Rightarrow> go_error + db" where
  "create_account a d =
     (if acc_ID a \<in> acc_ID ` set (accounts d) \<or> Handle a \<in> Handle ` set (accounts d) then Inl ErrConflict
      else Inr (d\<lparr>accounts := accounts d @ [a\<lparr>acc_CreatedAt := generation_instant (acc_CreatedAt a),
             acc_UpdatedAt := generation_instant (acc_UpdatedAt a)\<rparr>]\<rparr>))"

definition revoke_session :: "string \<Rightarrow> db \<Rightarrow> db" where
  "revoke_session h d = (if h = [] then d else d\<lparr>sessions := filter (\<lambda>s. seTokenHash s \<noteq> h) (sessions d)\<rparr>)"

definition replace_session :: "Session \<Rightarrow> string \<Rightarrow> db \<Rightarrow> go_error + db" where
  "replace_session s previous d =
     (let d1 = revoke_session previous d in
      if seTokenHash s \<in> seTokenHash ` set (sessions d1) then Inl ErrConflict
      else Inr (d1\<lparr>sessions := sessions d1 @ [s\<lparr>seCreatedAt := generation_instant (seCreatedAt s),
             seExpiresAt := generation_instant (seExpiresAt s)\<rparr>]\<rparr>))"

definition register_human :: "Account \<Rightarrow> string \<Rightarrow> Session \<Rightarrow> string \<Rightarrow> db \<Rightarrow> go_error + db" where
  "register_human a h s previous d =
     (if acc_Type a \<noteq> AccountHuman \<or> DisabledAt a \<noteq> None \<or> seAccountID s \<noteq> acc_ID a then Inl ErrForbidden
      else
        and_then (create_account a d) (\<lambda>d1.
        if acc_ID a \<in> fst ` set (credentials d1) then Inl ErrConflict
        else replace_session s previous (d1\<lparr>credentials := credentials d1 @ [(acc_ID a, h)]\<rparr>)))"

text \<open>Only the columns that the queries select are read.\<close>

definition login_columns :: "Account \<Rightarrow> Account" where
  "login_columns a = a\<lparr>Bio := [], RoleLabel := [], Specialty := [], acc_CreatedAt := 0, acc_UpdatedAt := 0\<rparr>"

definition credential_by_handle :: "db \<Rightarrow> string \<Rightarrow> go_error + Account \<times> string" where
  "credential_by_handle d h =
     (case find (\<lambda>a. Handle a = h \<and> acc_Type a = AccountHuman) (accounts d) of
        None \<Rightarrow> Inl ErrNotFound
      | Some a \<Rightarrow> (case map_of (credentials d) (acc_ID a) of None \<Rightarrow> Inl ErrNotFound | Some p \<Rightarrow> Inr (login_columns a, p)))"

definition rotate_session :: "Session \<Rightarrow> string \<Rightarrow> db \<Rightarrow> go_error + db" where
  "rotate_session s previous d =
     (case account_by_id d (seAccountID s) of
        None \<Rightarrow> Inl ErrUnauthenticated
      | Some a \<Rightarrow> if acc_Type a \<noteq> AccountHuman \<or> DisabledAt a \<noteq> None then Inl ErrUnauthenticated
                  else replace_session s previous d)"

definition session_account :: "time \<Rightarrow> db \<Rightarrow> string \<Rightarrow> go_error + Account" where
  "session_account c d h =
     (case session_by_hash d h of
        None \<Rightarrow> Inl ErrUnauthenticated
      | Some s \<Rightarrow>
          (case account_by_id d (seAccountID s) of
             None \<Rightarrow> Inl ErrUnauthenticated
           | Some a \<Rightarrow> if \<not> seExpiresAt s > c \<or> DisabledAt a \<noteq> None \<or> acc_Type a \<noteq> AccountHuman
                       then Inl ErrUnauthenticated else Inr a))"

definition disable_account :: "ID \<Rightarrow> time \<Rightarrow> time \<Rightarrow> db \<Rightarrow> go_error + db" where
  "disable_account i c c' d =
     (case parse_id i of Inl _ \<Rightarrow> Inl (invalid_generation ''account_id'') | Inr j \<Rightarrow>
      (case account_by_id d j of
         None \<Rightarrow> Inl ErrNotFound
       | Some a \<Rightarrow>
           Inr (d\<lparr>accounts := (if DisabledAt a = None
                    then map (\<lambda>x. if acc_ID x = j then x\<lparr>DisabledAt := Some (generation_instant c), acc_UpdatedAt := generation_instant c'\<rparr> else x) (accounts d)
                    else accounts d),
                  sessions := filter (\<lambda>s. seAccountID s \<noteq> j) (sessions d)\<rparr>)))"

text \<open>The operator's removals: no actor, otherwise those of the author.\<close>

definition remove_post :: "(ID \<Rightarrow> bool) \<Rightarrow> ID \<Rightarrow> time \<Rightarrow> time \<Rightarrow> db \<Rightarrow> go_error + db" where
  "remove_post locked i c c' d =
     (case parse_id i of Inl _ \<Rightarrow> Inl (invalid_generation ''post_id'') | Inr j \<Rightarrow>
      (case post_by_id d j of
         None \<Rightarrow> Inl ErrNotFound
       | Some p \<Rightarrow>
           if poDeletedAt p \<noteq> None then Inl ErrDeleted
           else and_then (cancel_removed_sources locked j c' (mark_post j (generation_instant c) d)) (\<lambda>(d', _). Inr d')))"

definition remove_reply :: "(ID \<Rightarrow> bool) \<Rightarrow> ID \<Rightarrow> time \<Rightarrow> time \<Rightarrow> db \<Rightarrow> go_error + db" where
  "remove_reply locked i c c' d =
     (case parse_id i of Inl _ \<Rightarrow> Inl (invalid_generation ''reply_id'') | Inr j \<Rightarrow>
      (case reply_by_id d j of
         None \<Rightarrow> Inl ErrNotFound
       | Some r \<Rightarrow>
           (case post_by_id d (rePostID r) of
              None \<Rightarrow> Inl ErrNotFound
            | Some p \<Rightarrow>
                if poDeletedAt p \<noteq> None then Inl ErrDeleted
                else if reDeletedAt r \<noteq> None then Inl ErrDeleted
                else and_then (cancel_removed_sources locked (poID p) c' (mark_reply j (generation_instant c) d)) (\<lambda>(d', _).
                     Inr d'))))"

section \<open>Profiles\<close>

record AccountProfile =
  prAccount :: Account
  prFollowerCount :: int
  prFollowingCount :: int
  prPostCount :: int
  prViewerFollowing :: "bool option"

definition profile :: "(Account \<Rightarrow> bool) \<Rightarrow> ID \<Rightarrow> db \<Rightarrow> go_error + AccountProfile" where
  "profile which viewer d =
     (case find (\<lambda>a. which a \<and> DisabledAt a = None) (accounts d) of
        None \<Rightarrow> Inl ErrNotFound
      | Some a \<Rightarrow> Inr \<lparr>prAccount = a,
          prFollowerCount = int (length (filter (\<lambda>f. foFollowedID f = acc_ID a) (follows d))),
          prFollowingCount = int (length (filter (\<lambda>f. foFollowerID f = acc_ID a) (follows d))),
          prPostCount = int (length (filter (\<lambda>p. poAuthorID p = acc_ID a \<and> poDeletedAt p = None) (posts d))),
          prViewerFollowing = (if viewer = [] then None
            else Some (list_ex (\<lambda>f. foFollowerID f = viewer \<and> foFollowedID f = acc_ID a) (follows d)))\<rparr>)"

definition profile_by_id :: "ID \<Rightarrow> ID \<Rightarrow> db \<Rightarrow> go_error + AccountProfile" where
  "profile_by_id i = profile (\<lambda>a. acc_ID a = i)"

definition profile_by_handle :: "string \<Rightarrow> ID \<Rightarrow> db \<Rightarrow> go_error + AccountProfile" where
  "profile_by_handle h = profile (\<lambda>a. Handle a = h)"

definition follow_profile :: "string \<Rightarrow> ID \<Rightarrow> bool \<Rightarrow> time \<Rightarrow> db \<Rightarrow> go_error + db \<times> AccountProfile" where
  "follow_profile session target follow c d =
     and_then (set_follow session target follow c d) (\<lambda>(d', actor).
     and_then (profile_by_id target actor d') (\<lambda>p. Inr (d', p)))"

section \<open>Passwords and tokens are read back\<close>

lemma split_on_plain: "c \<notin> set s \<Longrightarrow> split_on c s = [s]"
  by (induction s) auto

lemma split_on_append: "c \<notin> set s \<Longrightarrow> split_on c (s @ c # t) = s # split_on c t"
  by (induction s) auto

lemma dollar_not_std: "CHR ''$'' \<notin> set (b64_encode std_alphabet s)"
proof -
  have "CHR ''$'' \<notin> set std_alphabet" by (simp add: std_alphabet_def alnum_alphabet_def)
  then show ?thesis using b64_encode_set [OF alphabets(1)] by blast
qed

lemma split_encoded: "split_on CHR ''$'' (b64_encode std_alphabet s @ CHR ''$'' # b64_encode std_alphabet k) = [b64_encode std_alphabet s, b64_encode std_alphabet k]"
  by (simp add: split_on_append split_on_plain dollar_not_std)

definition encoded_hash :: "string \<Rightarrow> string \<Rightarrow> string" where
  "encoded_hash salt key = password_prefix @ b64_encode std_alphabet salt @ ''$'' @ b64_encode std_alphabet key"

lemma hash_password_Inr:
  "hash_password kdf free salt p = Inr h \<longleftrightarrow> valid_password p \<and> free \<and> h = encoded_hash salt (kdf p salt)"
  by (auto simp: hash_password_def password_key_def encoded_hash_def)

lemma verify_encoded:
  assumes "length salt = 16" "length key = 32"
  shows "verify_password kdf free p (encoded_hash salt key) =
    (if \<not> valid_password p then Inr False else if \<not> free then Inl ErrBusy else Inr (kdf p salt = key))"
proof -
  have "length (encoded_hash salt key) = length dummy_password_hash"
    using assms by (simp add: encoded_hash_def dummy_password_hash_def length_b64_encode)
  moreover have "has_prefix (encoded_hash salt key) password_prefix"
    and "drop (length password_prefix) (encoded_hash salt key) = b64_encode std_alphabet salt @ CHR ''$'' # b64_encode std_alphabet key"
    by (simp_all add: encoded_hash_def has_prefix_append)
  ultimately show ?thesis
    using assms by (simp add: verify_password_def split_encoded b64_decode_encode alphabets password_key_def)
qed

lemma dummy_encoded: "dummy_password_hash = encoded_hash (replicate 16 (CHR 0x00)) (replicate 32 (CHR 0x00))"
  by code_simp

lemma session_hash_token:
  assumes "length raw = 32"
  shows "session_hash (b64_encode url_alphabet raw) = hex_encode (sha256 (b64_encode url_alphabet raw))"
  using assms by (simp add: session_hash_def length_b64_encode b64_decode_encode alphabets)

lemma session_hash_nonempty: "length raw = 32 \<Longrightarrow> session_hash (b64_encode url_alphabet raw) \<noteq> []"
proof -
  assume r: "length raw = 32"
  have "length (session_hash (b64_encode url_alphabet raw)) = 64" by (simp add: session_hash_token r)
  then show ?thesis by auto
qed


section \<open>What the services rely on\<close>

text \<open>
  The part of \<open>AuthStore\<close> that registration and login use: a registered human is found by the handle with
  the stored hash, a stored session resolves to its account until it expires, and the session that it
  replaces does not resolve any more.
\<close>

definition usable_human :: "ID \<Rightarrow> Account \<Rightarrow> bool" where
  "usable_human i a \<longleftrightarrow> acc_ID a = i \<and> acc_Type a = AccountHuman \<and> DisabledAt a = None"

locale auth_store =
  fixes inv :: "'s \<Rightarrow> bool"
    and register :: "Account \<Rightarrow> string \<Rightarrow> Session \<Rightarrow> string \<Rightarrow> 's \<Rightarrow> go_error + 's"
    and credential :: "'s \<Rightarrow> string \<Rightarrow> go_error + Account \<times> string"
    and rotation :: "Session \<Rightarrow> string \<Rightarrow> 's \<Rightarrow> go_error + 's"
    and resolve :: "time \<Rightarrow> 's \<Rightarrow> string \<Rightarrow> go_error + Account"
  assumes register_inv: "inv s \<Longrightarrow> register a h se previous s = Inr s' \<Longrightarrow> inv s'"
    and register_credential: "inv s \<Longrightarrow> register a h se previous s = Inr s' \<Longrightarrow>
      \<exists>x. credential s' (Handle a) = Inr (x, h) \<and> usable_human (acc_ID a) x"
    and register_session: "inv s \<Longrightarrow> register a h se previous s = Inr s' \<Longrightarrow> c < generation_instant (seExpiresAt se) \<Longrightarrow>
      \<exists>x. resolve c s' (seTokenHash se) = Inr x \<and> usable_human (acc_ID a) x"
    and rotation_session: "inv s \<Longrightarrow> rotation se previous s = Inr s' \<Longrightarrow> c < generation_instant (seExpiresAt se) \<Longrightarrow>
      \<exists>x. resolve c s' (seTokenHash se) = Inr x \<and> usable_human (seAccountID se) x"
    and rotation_revokes: "inv s \<Longrightarrow> rotation se previous s = Inr s' \<Longrightarrow> previous \<noteq> [] \<Longrightarrow> previous \<noteq> seTokenHash se \<Longrightarrow>
      resolve c s' previous = Inl ErrUnauthenticated"
begin

lemma registered:
  assumes "auth_register register kdf free fresh salt raw now now' username password display previous s = Inr (s', a, token)"
  shows "normalize_handle username = Inr (Handle a) \<and> acc_ID a = fresh \<and> valid_password password \<and> free \<and>
    token = b64_encode url_alphabet raw \<and>
    register a (encoded_hash salt (kdf password salt)) (fst (new_session fresh raw now')) (session_hash previous) s = Inr s'"
proof -
  from assms obtain a' where a': "new_account fresh AccountHuman username display now = Inr a'"
    unfolding auth_register_def by (cases "new_account fresh AccountHuman username display now") simp_all
  then have "normalize_handle username = Inr (Handle a')" "acc_ID a' = fresh"
    by (auto simp: new_account_def Let_def split: if_splits sum.splits)
  with a' assms show ?thesis
    by (auto simp: auth_register_def hash_password_Inr new_session_def Let_def)
qed

text \<open>The session of a registration resolves to the new account for seven days.\<close>

lemma session_after_register:
  assumes "inv s" "auth_register register kdf free fresh salt raw now now' username password display previous s = Inr (s', a, token)"
    "length raw = 32" "c < generation_instant (now' + session_lifetime)"
  shows "\<exists>x. resolve c s' (session_hash token) = Inr x \<and> usable_human fresh x"
  using registered [OF assms(2)] register_session [OF assms(1), of a _ "fst (new_session fresh raw now')" "session_hash previous" s' c] assms(4)
  by (auto simp: new_session_def Let_def)

text \<open>The password of a registration, and no password with another key, opens the account.\<close>

lemma login_after_register:
  assumes "inv s" "auth_register register kdf free fresh salt raw now now' username password display previous s = Inr (s', a, token)"
    "length salt = 16" "length (kdf password salt) = 32"
  shows "\<exists>x. usable_human fresh x \<and>
    (auth_login credential rotation kdf True raw' time username given presented s' =
      (if \<not> valid_password given \<or> kdf given salt \<noteq> kdf password salt then Inl ErrInvalidCredentials
       else case rotation (fst (new_session fresh raw' time)) (session_hash presented) s' of
              Inl e \<Rightarrow> Inl (if e = ErrUnauthenticated then ErrInvalidCredentials else e)
            | Inr s'' \<Rightarrow> Inr (s'', x, b64_encode url_alphabet raw')))"
proof -
  note r = registered [OF assms(2)]
  obtain x where x: "credential s' (Handle a) = Inr (x, encoded_hash salt (kdf password salt))" "usable_human fresh x"
    using r register_credential [OF assms(1)] by blast
  have found: "login_credential credential s' username = Inr (Some (x, encoded_hash salt (kdf password salt)))"
    using r x(1) by (simp add: login_credential_def)
  show ?thesis
  proof (intro exI conjI)
    show "usable_human fresh x" by (rule x(2))
    show "auth_login credential rotation kdf True raw' time username given presented s' =
      (if \<not> valid_password given \<or> kdf given salt \<noteq> kdf password salt then Inl ErrInvalidCredentials
       else case rotation (fst (new_session fresh raw' time)) (session_hash presented) s' of
              Inl e \<Rightarrow> Inl (if e = ErrUnauthenticated then ErrInvalidCredentials else e)
            | Inr s'' \<Rightarrow> Inr (s'', x, b64_encode url_alphabet raw'))"
      using x(2) by (simp add: auth_login_def found verify_encoded [OF assms(3,4)] usable_human_def new_session_def Let_def
          split: sum.split)
  qed
qed

text \<open>A login that succeeds has proved the stored password of a human account that is not disabled.\<close>

lemma login_requires:
  assumes "auth_login credential rotation kdf free raw now username password previous s = Inr (s', a, token)"
  shows "\<exists>h p. normalize_handle username = Inr h \<and> credential s h = Inr (a, p) \<and> verify_password kdf free password p = Inr True \<and>
    usable_human (acc_ID a) a \<and> token = b64_encode url_alphabet raw \<and>
    rotation (fst (new_session (acc_ID a) raw now)) (session_hash previous) s = Inr s'"
proof -
  from assms obtain found where f: "login_credential credential s username = Inr found" and v: "valid_password password"
    by (auto simp: auth_login_def if_Inl)
  then obtain p where p: "found = Some (a, p)" "verify_password kdf free password p = Inr True" "usable_human (acc_ID a) a"
    and o: "token = b64_encode url_alphabet raw" "rotation (fst (new_session (acc_ID a) raw now)) (session_hash previous) s = Inr s'"
    using assms by (auto simp: auth_login_def if_Inl usable_human_def new_session_def Let_def split: option.splits sum.splits)
  from f p(1) obtain h where "normalize_handle username = Inr h" "credential s h = Inr (a, p)"
    by (auto simp: login_credential_def split: sum.splits if_splits)
  with p o show ?thesis by blast
qed

text \<open>The new session works and the presented one stops working.\<close>

lemma login_rotates:
  assumes "inv s" "auth_login credential rotation kdf free raw now username password previous s = Inr (s', a, token)" "length raw = 32"
  shows "(c < generation_instant (now + session_lifetime) \<longrightarrow>
      (\<exists>x. resolve c s' (session_hash token) = Inr x \<and> usable_human (acc_ID a) x)) \<and>
    (session_hash previous \<noteq> [] \<and> session_hash previous \<noteq> session_hash token \<longrightarrow>
      resolve c s' (session_hash previous) = Inl ErrUnauthenticated)"
proof -
  obtain h p where r: "token = b64_encode url_alphabet raw"
    "rotation (fst (new_session (acc_ID a) raw now)) (session_hash previous) s = Inr s'"
    using login_requires [OF assms(2)] by blast
  from rotation_session [OF assms(1) r(2), of c] rotation_revokes [OF assms(1) r(2), of c] r(1)
  show ?thesis by (simp add: new_session_def Let_def)
qed

text \<open>Registration followed by a login that presents the first session.\<close>

lemma register_then_login:
  assumes "inv s" "auth_register register kdf free fresh salt raw now now' username password display previous s = Inr (s1, a, token)"
    "auth_login credential rotation kdf free' raw' time username' password' token s1 = Inr (s2, b, token')"
    "length raw = 32" "length raw' = 32" "session_hash token \<noteq> session_hash token'" "c < generation_instant (time + session_lifetime)"
  shows "(\<exists>x. resolve c s2 (session_hash token') = Inr x \<and> usable_human (acc_ID b) x) \<and>
    resolve c s2 (session_hash token) = Inl ErrUnauthenticated"
proof -
  note r = registered [OF assms(2)]
  then have "inv s1" using register_inv [OF assms(1)] by blast
  moreover have "session_hash token \<noteq> []" using r session_hash_nonempty [OF assms(4)] by simp
  ultimately show ?thesis using login_rotates [OF _ assms(3,5), of c] assms(6,7) by simp
qed

end

section \<open>The store of the program\<close>

definition auth_ok :: "db \<Rightarrow> bool" where
  "auth_ok d \<longleftrightarrow> distinct (map acc_ID (accounts d)) \<and> distinct (map Handle (accounts d)) \<and>
     distinct (map fst (credentials d)) \<and> distinct (map seTokenHash (sessions d)) \<and>
     fst ` set (credentials d) \<subseteq> acc_ID ` set (accounts d)"

lemma replace_session_cases:
  assumes "replace_session s previous d = Inr d'"
  shows "d' = (revoke_session previous d)\<lparr>sessions := sessions (revoke_session previous d) @
      [s\<lparr>seCreatedAt := generation_instant (seCreatedAt s), seExpiresAt := generation_instant (seExpiresAt s)\<rparr>]\<rparr> \<and>
    seTokenHash s \<notin> seTokenHash ` set (sessions (revoke_session previous d))"
  using assms by (simp add: replace_session_def Let_def if_Inl)

lemma register_human_cases:
  assumes "register_human a h s previous d = Inr d'"
  obtains "usable_human (acc_ID a) a" "seAccountID s = acc_ID a"
    "acc_ID a \<notin> acc_ID ` set (accounts d)" "Handle a \<notin> Handle ` set (accounts d)" "acc_ID a \<notin> fst ` set (credentials d)"
    "replace_session s previous (d\<lparr>accounts := accounts d @ [a\<lparr>acc_CreatedAt := generation_instant (acc_CreatedAt a),
        acc_UpdatedAt := generation_instant (acc_UpdatedAt a)\<rparr>], credentials := credentials d @ [(acc_ID a, h)]\<rparr>) = Inr d'"
  using assms by (auto simp: register_human_def create_account_def usable_human_def if_Inl split: if_splits)

lemma rotate_session_cases:
  assumes "rotate_session s previous d = Inr d'"
  obtains a where "account_by_id d (seAccountID s) = Some a" "usable_human (seAccountID s) a" "replace_session s previous d = Inr d'"
  using assms by (auto simp: rotate_session_def usable_human_def account_by_id_def if_Inl dest!: find_in_set split: option.splits if_splits)

lemma revoke_fields [simp]:
  "accounts (revoke_session h d) = accounts d" "credentials (revoke_session h d) = credentials d"
  "jobs (revoke_session h d) = jobs d" "attempts (revoke_session h d) = attempts d"
  by (simp_all add: revoke_session_def)

lemma revoke_sessions: "distinct (map seTokenHash (sessions d)) \<Longrightarrow> distinct (map seTokenHash (sessions (revoke_session h d)))"
  by (simp add: revoke_session_def distinct_map_filter)

lemma find_key_None: "find (\<lambda>x. k x = i) xs = None \<longleftrightarrow> i \<notin> k ` set xs"
  by (induction xs) auto

lemma find_key_guard_None: "i \<notin> k ` set xs \<Longrightarrow> find (\<lambda>x. k x = i \<and> P x) xs = None"
  by (induction xs) auto

lemma replaced_resolves:
  assumes "replace_session s previous d = Inr d'" "account_by_id d (seAccountID s) = Some a" "usable_human (seAccountID s) a"
    "c < generation_instant (seExpiresAt s)"
  shows "session_account c d' (seTokenHash s) = Inr a"
proof -
  note r = replace_session_cases [OF assms(1)]
  have "find (\<lambda>x. seTokenHash x = seTokenHash s) (sessions (revoke_session previous d)) = None"
    using r unfolding find_key_None by blast
  with r have "session_by_hash d' (seTokenHash s) =
      Some (s\<lparr>seCreatedAt := generation_instant (seCreatedAt s), seExpiresAt := generation_instant (seExpiresAt s)\<rparr>)"
    by (simp add: session_by_hash_def find_append)
  moreover have "account_by_id d' i = account_by_id d i" for i using r by (simp add: account_by_id_def)
  ultimately show ?thesis using assms(2-4) by (simp add: session_account_def usable_human_def)
qed

lemma replaced_revokes:
  assumes "replace_session s previous d = Inr d'" "previous \<noteq> []" "previous \<noteq> seTokenHash s"
  shows "session_account c d' previous = Inl ErrUnauthenticated"
proof -
  note r = replace_session_cases [OF assms(1)]
  have "find (\<lambda>x. seTokenHash x = previous) (filter (\<lambda>x. seTokenHash x \<noteq> previous) (sessions d)) = None"
    by (auto simp: find_None_iff)
  with r assms(2,3) have "session_by_hash d' previous = None"
    by (auto simp: session_by_hash_def find_append revoke_session_def)
  then show ?thesis by (simp add: session_account_def)
qed

lemma replaced_ok: "replace_session s previous d = Inr d' \<Longrightarrow> auth_ok d \<Longrightarrow> auth_ok d'"
  by (drule replace_session_cases) (auto simp: auth_ok_def revoke_sessions)

definition stored_account :: "Account \<Rightarrow> Account" where
  "stored_account a = a\<lparr>acc_CreatedAt := generation_instant (acc_CreatedAt a), acc_UpdatedAt := generation_instant (acc_UpdatedAt a)\<rparr>"

definition with_human :: "Account \<Rightarrow> string \<Rightarrow> db \<Rightarrow> db" where
  "with_human a h d = d\<lparr>accounts := accounts d @ [stored_account a], credentials := credentials d @ [(acc_ID a, h)]\<rparr>"

lemma stored_account_fields [simp]:
  "acc_ID (stored_account a) = acc_ID a" "Handle (stored_account a) = Handle a" "acc_Type (stored_account a) = acc_Type a"
  "DisabledAt (stored_account a) = DisabledAt a" "usable_human i (stored_account a) = usable_human i a"
  by (simp_all add: stored_account_def usable_human_def)

lemma register_human_stored:
  assumes "register_human a h s previous d = Inr d'"
  shows "usable_human (acc_ID a) a \<and> seAccountID s = acc_ID a \<and> acc_ID a \<notin> acc_ID ` set (accounts d) \<and>
    Handle a \<notin> Handle ` set (accounts d) \<and> acc_ID a \<notin> fst ` set (credentials d) \<and> replace_session s previous (with_human a h d) = Inr d'"
  using assms unfolding register_human_def create_account_def with_human_def stored_account_def usable_human_def
  by (simp add: if_Inl)

lemma with_human_ok:
  "auth_ok d \<Longrightarrow> acc_ID a \<notin> acc_ID ` set (accounts d) \<Longrightarrow> Handle a \<notin> Handle ` set (accounts d) \<Longrightarrow>
   acc_ID a \<notin> fst ` set (credentials d) \<Longrightarrow> auth_ok (with_human a h d)"
  by (auto simp: auth_ok_def with_human_def)

lemma with_human_by_id: "acc_ID a \<notin> acc_ID ` set (accounts d) \<Longrightarrow> account_by_id (with_human a h d) (acc_ID a) = Some (stored_account a)"
  using find_key_None [of acc_ID "acc_ID a" "accounts d"] by (simp add: account_by_id_def find_append with_human_def)

lemma credential_with_human:
  assumes "Handle a \<notin> Handle ` set (accounts d)" "acc_ID a \<notin> fst ` set (credentials d)" "usable_human (acc_ID a) a"
    "accounts d' = accounts (with_human a h d)" "credentials d' = credentials (with_human a h d)"
  shows "credential_by_handle d' (Handle a) = Inr (login_columns (stored_account a), h)"
proof -
  have "find (\<lambda>x. Handle x = Handle a \<and> acc_Type x = AccountHuman) (accounts d) = None"
    using assms(1) by (rule find_key_guard_None)
  then have "find (\<lambda>x. Handle x = Handle a \<and> acc_Type x = AccountHuman) (accounts d') = Some (stored_account a)"
    using assms(3) unfolding assms(4) by (simp add: with_human_def find_append usable_human_def)
  moreover have "map_of (credentials d') (acc_ID a) = Some h"
    using assms(2) map_of_eq_None_iff [of "credentials d" "acc_ID a"] unfolding assms(5) by (simp add: with_human_def map_add_def)
  ultimately show ?thesis by (simp add: credential_by_handle_def)
qed

lemma usable_login_columns [simp]: "usable_human i (login_columns a) = usable_human i a"
  by (simp add: usable_human_def login_columns_def)

interpretation auth: auth_store auth_ok register_human credential_by_handle rotate_session session_account
proof
  fix s s' :: db and a h se previous
  assume ok: "auth_ok s" and r: "register_human a h se previous s = Inr s'"
  note u = register_human_stored [OF r]
  then have p: "replace_session se previous (with_human a h s) = Inr s'" by blast
  show "auth_ok s'" using replaced_ok [OF p] with_human_ok [OF ok] u by blast
  have "accounts s' = accounts (with_human a h s)" "credentials s' = credentials (with_human a h s)"
    using replace_session_cases [OF p] by simp_all
  with u have "credential_by_handle s' (Handle a) = Inr (login_columns (stored_account a), h)"
    by (intro credential_with_human) blast+
  moreover have "usable_human (acc_ID a) (login_columns (stored_account a))" using u by simp
  ultimately show "\<exists>x. credential_by_handle s' (Handle a) = Inr (x, h) \<and> usable_human (acc_ID a) x" by blast
  have "account_by_id (with_human a h s) (seAccountID se) = Some (stored_account a)" "usable_human (seAccountID se) (stored_account a)"
    using u with_human_by_id [of a s h] by simp_all
  from replaced_resolves [OF p this]
  show "\<exists>x. session_account c s' (seTokenHash se) = Inr x \<and> usable_human (acc_ID a) x"
    if "c < generation_instant (seExpiresAt se)" for c
    using that u by simp
next
  fix s s' :: db and se previous c
  assume r: "rotate_session se previous s = Inr s'"
  then obtain a where a: "account_by_id s (seAccountID se) = Some a" "usable_human (seAccountID se) a" and p: "replace_session se previous s = Inr s'"
    by (rule rotate_session_cases)
  show "\<exists>x. session_account c s' (seTokenHash se) = Inr x \<and> usable_human (seAccountID se) x"
    if "c < generation_instant (seExpiresAt se)"
    using replaced_resolves [OF p a that] a(2) by blast
  show "session_account c s' previous = Inl ErrUnauthenticated" if "previous \<noteq> []" "previous \<noteq> seTokenHash se"
    using replaced_revokes [OF p that] .
qed

section \<open>The generation tables are left alone\<close>

lemma create_account_effects: "create_account a d = Inr d' \<Longrightarrow> effects d d'"
  by (auto simp: create_account_def if_Inl intro: effects_elsewhere)

lemma replace_session_effects: "replace_session s previous d = Inr d' \<Longrightarrow> effects d d'"
  by (drule replace_session_cases) (auto intro: effects_elsewhere)

lemma register_human_effects: "register_human a h s previous d = Inr d' \<Longrightarrow> effects d d'"
  by (erule register_human_cases, drule replace_session_cases) (auto intro: effects_elsewhere)

lemma rotate_session_effects: "rotate_session s previous d = Inr d' \<Longrightarrow> effects d d'"
  by (erule rotate_session_cases) (rule replace_session_effects)

lemma revoke_session_effects: "effects d (revoke_session h d)"
  by (rule effects_elsewhere) simp_all

lemma disable_account_effects: "disable_account i c c' d = Inr d' \<Longrightarrow> effects d d'"
  by (auto simp: disable_account_def split: sum.splits option.splits intro!: effects_elsewhere)

lemma remove_post_effects:
  assumes "remove_post locked i c c' d = Inr d'" "rows_ok d"
  shows "effects d d'"
proof -
  have m: "effects d (mark_post j (generation_instant c) d)" for j by (rule effects_elsewhere) (simp_all add: mark_post_def)
  from assms(1) obtain j n where "cancel_removed_sources locked j c' (mark_post j (generation_instant c) d) = Inr (d', n)"
    by (auto simp: remove_post_def if_Inl split: sum.splits option.splits)
  then show ?thesis using cancel_effects assms(2) m by blast
qed

lemma remove_reply_effects:
  assumes "remove_reply locked i c c' d = Inr d'" "rows_ok d"
  shows "effects d d'"
proof -
  have m: "effects d (mark_reply j (generation_instant c) d)" for j by (rule effects_elsewhere) (simp_all add: mark_reply_def)
  from assms(1) obtain j k n where "cancel_removed_sources locked k c' (mark_reply j (generation_instant c) d) = Inr (d', n)"
    by (auto simp: remove_reply_def if_Inl split: sum.splits option.splits)
  then show ?thesis using cancel_effects assms(2) m by blast
qed

lemma follow_profile_effects: "follow_profile session target follow c d = Inr (d', p) \<Longrightarrow> effects d d'"
  by (auto simp: follow_profile_def dest: set_follow_effects)

section \<open>Properties\<close>

text \<open>
  C27: A password is verified against the hash that \<open>hashPassword\<close> made of another one exactly when it is a valid
  password with the same key; in particular the hash of a password verifies that password.
\<close>

theorem password_roundtrip:
  assumes "hash_password kdf True salt p = Inr h" "length salt = 16" "length (kdf p salt) = 32"
  shows "verify_password kdf True p' h = Inr (valid_password p' \<and> kdf p' salt = kdf p salt) \<and>
    verify_password kdf True p h = Inr True"
  using assms(1) verify_encoded [OF assms(2,3), of kdf True] unfolding hash_password_Inr by simp

definition sample_kdf :: "string \<Rightarrow> string \<Rightarrow> string" where
  "sample_kdf p s = take 32 (p @ s @ replicate 32 CHR ''x'')"

lemma length_sample_kdf [simp]: "length (sample_kdf p s) = 32"
  by (simp add: sample_kdf_def)

lemma sample_password_valid: "valid_password ''correct horse''" "valid_password ''another horse''"
  by (simp_all add: valid_password_def valid_utf8_ascii)

lemma sample_kdf_differs:
  "sample_kdf ''another horse'' (replicate 16 CHR ''s'') \<noteq> sample_kdf ''correct horse'' (replicate 16 CHR ''s'')"
  by (simp add: sample_kdf_def)

theorem password_roundtrip_witness:
  "\<exists>h. hash_password sample_kdf True (replicate 16 CHR ''s'') ''correct horse'' = Inr h \<and>
     verify_password sample_kdf True ''another horse'' h = Inr False \<and> verify_password sample_kdf True ''correct horse'' h = Inr True"
proof -
  let ?salt = "replicate 16 CHR ''s''"
  have h: "hash_password sample_kdf True ?salt ''correct horse'' = Inr (encoded_hash ?salt (sample_kdf ''correct horse'' ?salt))"
    using sample_password_valid by (simp add: hash_password_Inr)
  have r: "verify_password sample_kdf True ''another horse'' (encoded_hash ?salt (sample_kdf ''correct horse'' ?salt)) =
      Inr (valid_password ''another horse'' \<and> sample_kdf ''another horse'' ?salt = sample_kdf ''correct horse'' ?salt) \<and>
      verify_password sample_kdf True ''correct horse'' (encoded_hash ?salt (sample_kdf ''correct horse'' ?salt)) = Inr True"
    by (rule password_roundtrip [OF h]) simp_all
  with h sample_kdf_differs show ?thesis by (intro exI conjI) auto
qed

text \<open>
  After a registration against the store, a login with the same user name succeeds for exactly the passwords
  with the registered key, up to the rotation of the session; every other password gets \<open>ErrInvalidCredentials\<close>,
  and the session of the registration resolves to the account until it expires.
\<close>

theorem registration_opens_login:
  assumes "auth_ok d" "auth_register register_human kdf free fresh salt raw now now' username password display previous d = Inr (d1, a, token)"
    "length salt = 16" "length (kdf password salt) = 32" "length raw = 32"
  shows "(\<exists>x. usable_human fresh x \<and>
      auth_login credential_by_handle rotate_session kdf True raw' time username given presented d1 =
        (if \<not> valid_password given \<or> kdf given salt \<noteq> kdf password salt then Inl ErrInvalidCredentials
         else case rotate_session (fst (new_session fresh raw' time)) (session_hash presented) d1 of
                Inl e \<Rightarrow> Inl (if e = ErrUnauthenticated then ErrInvalidCredentials else e)
              | Inr d2 \<Rightarrow> Inr (d2, x, b64_encode url_alphabet raw'))) \<and>
    (c < generation_instant (now' + session_lifetime) \<longrightarrow>
      (\<exists>x. session_account c d1 (session_hash token) = Inr x \<and> usable_human fresh x))"
  using auth.login_after_register [OF assms(1,2,3,4)] auth.session_after_register [OF assms(1,2,5)] by blast

definition alice :: Account where
  "alice = \<lparr>acc_ID = sample_id CHR ''1'', acc_Type = AccountHuman, Handle = ''alice'', DisplayName = ''Alice'', Initials = [],
     Bio = [], RoleLabel = [], StatusText = [], Specialty = [], AppearanceKey = None, VerifiedAt = None,
     acc_CreatedAt = 0, acc_UpdatedAt = 0, DisabledAt = None\<rparr>"

lemma alice_handle: "normalize_handle ''alice'' = Inr ''alice''"
  by (rule normalize_canonical) (simp add: canonical_handle_def class_defs)

lemma new_alice: "new_account (sample_id CHR ''1'') AccountHuman ''alice'' ''Alice'' 0 = Inr alice"
proof -
  have "trim_space ''Alice'' = ''Alice''" by code_simp
  moreover have "valid_display_name ''Alice''"
    by (simp add: valid_display_name_def valid_utf8_ascii rune_count_def runes_ascii)
  ultimately show ?thesis by (simp add: new_account_def alice_handle alice_def)
qed

lemma auth_ok_empty: "auth_ok empty_db"
  by (simp add: auth_ok_def empty_db_def)

lemma register_alice:
  "\<exists>d1 token. auth_register register_human sample_kdf True (sample_id CHR ''1'') (replicate 16 CHR ''s'') (replicate 32 CHR ''r'') 0 0
     ''alice'' ''correct horse'' ''Alice'' [] empty_db = Inr (d1, alice, token)"
proof -
  have h: "hash_password sample_kdf True (replicate 16 CHR ''s'') ''correct horse'' =
      Inr (encoded_hash (replicate 16 CHR ''s'') (sample_kdf ''correct horse'' (replicate 16 CHR ''s'')))"
    using sample_password_valid by (simp add: hash_password_Inr)
  have a: "acc_Type alice = AccountHuman" "DisabledAt alice = None" by (simp_all add: alice_def)
  show ?thesis
    by (simp add: auth_register_def new_alice h new_session_def Let_def register_human_def a create_account_def empty_db_def
        replace_session_def revoke_session_def)
qed

theorem registration_opens_login_witness:
  "\<exists>d1 token x. usable_human (sample_id CHR ''1'') x \<and> session_account 0 d1 (session_hash token) = Inr x \<and>
     auth_login credential_by_handle rotate_session sample_kdf True [] 0 ''alice'' ''another horse'' [] d1 = Inl ErrInvalidCredentials"
proof -
  obtain d1 token where r: "auth_register register_human sample_kdf True (sample_id CHR ''1'') (replicate 16 CHR ''s'') (replicate 32 CHR ''r'') 0 0
     ''alice'' ''correct horse'' ''Alice'' [] empty_db = Inr (d1, alice, token)" using register_alice by blast
  note k = sample_kdf_differs
  have "0 < generation_instant (0 + session_lifetime)" by code_simp
  with registration_opens_login [OF auth_ok_empty r, of "[]" 0 "''another horse''" "[]" 0] k show ?thesis by auto
qed

text \<open>
  C25: A login that succeeds has found a human account that is not disabled under the normalised user name and has
  verified the password against its stored hash; it changes nothing but the sessions, where the presented one
  makes room for a new one of that account that lasts seven days.
\<close>

theorem login_authority:
  assumes "auth_login credential_by_handle rotate_session kdf free raw now username password previous d = Inr (d', a, token)"
  shows "\<exists>h p row. normalize_handle username = Inr h \<and> row \<in> set (accounts d) \<and> Handle row = h \<and> usable_human (acc_ID a) row \<and>
    map_of (credentials d) (acc_ID a) = Some p \<and> verify_password kdf free password p = Inr True \<and>
    d' = d\<lparr>sessions := sessions (revoke_session (session_hash previous) d) @
      [\<lparr>seTokenHash = session_hash token, seAccountID = acc_ID a, seCreatedAt = generation_instant now,
        seExpiresAt = generation_instant (now + session_lifetime)\<rparr>]\<rparr>"
proof -
  obtain h p where l: "normalize_handle username = Inr h" "credential_by_handle d h = Inr (a, p)" "verify_password kdf free password p = Inr True"
      "usable_human (acc_ID a) a" "token = b64_encode url_alphabet raw"
    and r: "rotate_session (fst (new_session (acc_ID a) raw now)) (session_hash previous) d = Inr d'"
    using auth.login_requires [OF assms] by blast
  from l(2) obtain row where row: "find (\<lambda>a. Handle a = h \<and> acc_Type a = AccountHuman) (accounts d) = Some row" "a = login_columns row"
    "map_of (credentials d) (acc_ID row) = Some p"
    by (auto simp: credential_by_handle_def split: option.splits)
  from row(2) l(4) have "usable_human (acc_ID a) row" "acc_ID row = acc_ID a"
    by (simp_all add: usable_human_def login_columns_def)
  moreover from r have "replace_session (fst (new_session (acc_ID a) raw now)) (session_hash previous) d = Inr d'"
    by (auto elim: rotate_session_cases)
  then have "d' = d\<lparr>sessions := sessions (revoke_session (session_hash previous) d) @
      [\<lparr>seTokenHash = session_hash token, seAccountID = acc_ID a, seCreatedAt = generation_instant now,
        seExpiresAt = generation_instant (now + session_lifetime)\<rparr>]\<rparr>"
    using l(5) by (auto simp: new_session_def Let_def revoke_session_def dest!: replace_session_cases)
  ultimately show ?thesis using l(1,3) row find_in_set [OF row(1)] by auto
qed

theorem login_authority_witness:
  "\<exists>d d' a token h p. auth_login credential_by_handle rotate_session sample_kdf True (replicate 32 CHR ''r'') 5 ''alice'' ''correct horse'' [] d = Inr (d', a, token) \<and>
     normalize_handle ''alice'' = Inr h \<and> map_of (credentials d) (acc_ID a) = Some p \<and> verify_password sample_kdf True ''correct horse'' p = Inr True \<and>
     length (sessions d') = 1"
proof -
  let ?p = "encoded_hash (replicate 16 CHR ''s'') (sample_kdf ''correct horse'' (replicate 16 CHR ''s''))"
  let ?d = "empty_db\<lparr>accounts := [alice], credentials := [(sample_id CHR ''1'', ?p)]\<rparr>"
  note n = alice_handle
  have v: "verify_password sample_kdf True ''correct horse'' ?p = Inr True"
    using sample_password_valid by (simp add: verify_encoded)
  have "\<exists>d' a token. auth_login credential_by_handle rotate_session sample_kdf True (replicate 32 CHR ''r'') 5 ''alice'' ''correct horse'' [] ?d = Inr (d', a, token)"
    using sample_password_valid
    by (simp add: auth_login_def login_credential_def n credential_by_handle_def v alice_def login_columns_def rotate_session_def
        account_by_id_def new_session_def Let_def replace_session_def revoke_session_def session_hash_def empty_db_def)
  then obtain d' a token where l: "auth_login credential_by_handle rotate_session sample_kdf True (replicate 32 CHR ''r'') 5 ''alice'' ''correct horse'' [] ?d = Inr (d', a, token)"
    by blast
  from login_authority [OF l] have "length (sessions d') = 1" by (auto simp: revoke_session_def empty_db_def)
  with l login_authority [OF l] show ?thesis by blast
qed

text \<open>
  Whatever is wrong with a login, an unknown or malformed user name, a wrong password, a disabled account, the
  answer is \<open>ErrInvalidCredentials\<close>; with stored hashes in the current format the only other failure is a new
  session whose token hash is taken.
\<close>

theorem login_uniform_failure:
  assumes "\<forall>(i, h) \<in> set (credentials d). \<exists>salt key. length salt = 16 \<and> length key = 32 \<and> h = encoded_hash salt key"
    "auth_login credential_by_handle rotate_session kdf True raw now username password previous d = Inl e"
  shows "e = ErrInvalidCredentials \<or>
    e = ErrConflict \<and> session_hash (b64_encode url_alphabet raw) \<in> seTokenHash ` set (sessions d)"
proof (cases "valid_password password")
  case False
  with assms(2) show ?thesis by (simp add: auth_login_def)
next
  case v: True
  have "credential_by_handle d h = Inl e' \<Longrightarrow> e' = ErrNotFound" for h e'
    by (auto simp: credential_by_handle_def split: option.splits)
  then obtain found where f: "login_credential credential_by_handle d username = Inr found"
    by (fastforce simp: login_credential_def split: sum.splits)
  have "\<exists>ok. verify_password kdf True password (case found of None \<Rightarrow> dummy_password_hash | Some (_, h) \<Rightarrow> h) = Inr ok"
  proof (cases found)
    case None
    then show ?thesis using v by (simp add: dummy_encoded verify_encoded)
  next
    case (Some x)
    obtain a h where x: "x = (a, h)" by (cases x)
    with f Some have "\<exists>i. (i, h) \<in> set (credentials d)"
      by (auto simp: login_credential_def credential_by_handle_def split: sum.splits option.splits if_splits dest: map_of_SomeD)
    with assms(1) obtain salt key where "length salt = 16" "length key = 32" "h = encoded_hash salt key" by fastforce
    with Some x v show ?thesis by (simp add: verify_encoded)
  qed
  then obtain ok where ok: "verify_password kdf True password (case found of None \<Rightarrow> dummy_password_hash | Some (_, h) \<Rightarrow> h) = Inr ok" by blast
  have "e' = ErrConflict \<and> seTokenHash s \<in> seTokenHash ` set (sessions d)"
    if "rotate_session s pr d = Inl e'" "e' \<noteq> ErrUnauthenticated" for s pr e'
    using that by (auto simp: rotate_session_def replace_session_def revoke_session_def Let_def split: option.splits if_splits)
  from this [of "fst (new_session i raw now)" for i] assms(2) v f ok show ?thesis
    by (cases found) (auto simp: auth_login_def new_session_def Let_def split: if_splits sum.splits; blast)+
qed

theorem login_uniform_failure_witness:
  "auth_login credential_by_handle rotate_session sample_kdf True [] 0 ''alice'' ''correct horse'' [] empty_db = Inl ErrInvalidCredentials"
proof -
  note n = alice_handle
  have e: "credentials empty_db = []" "sessions empty_db = []" "accounts empty_db = []" by (simp_all add: empty_db_def)
  have "sample_kdf ''correct horse'' (replicate 16 CHR 0x00) \<noteq> replicate 32 CHR 0x00"
    by (simp add: sample_kdf_def eval_nat_numeral)
  then have "verify_password sample_kdf True ''correct horse'' dummy_password_hash = Inr False"
    using sample_password_valid by (simp add: dummy_encoded verify_encoded)
  then have "\<exists>e. auth_login credential_by_handle rotate_session sample_kdf True [] 0 ''alice'' ''correct horse'' [] empty_db = Inl e"
    using sample_password_valid by (simp add: auth_login_def login_credential_def n credential_by_handle_def e)
  then obtain x where x: "auth_login credential_by_handle rotate_session sample_kdf True [] 0 ''alice'' ''correct horse'' [] empty_db = Inl x" by blast
  with login_uniform_failure [OF _ x] e show ?thesis by simp
qed

end
