(* ===== verification/System.thy ===== *)
theory System
  imports Controls Auth
begin

text \<open>
  The service as a whole: every state-changing operation that the store offers to the workers, the HTTP handlers and
  the operator's commands, as the steps of one transition system over the database, and what holds in every state
  that any interleaving of their transactions reaches.  Answers of the environment (clocks, locks, fresh identifiers,
  random draws, inputs) are arbitrary; reserving, retrying and publishing first read the database at an
  earlier moment of the history.
\<close>

section \<open>The jobs of a database\<close>

text \<open>
  Every job row is valid, its agent and trigger key identify it, and it is the root of its chain or continues a
  stored root with the same limits.
\<close>

definition trigger_id :: "GenerationJob \<Rightarrow> ID \<times> string" where
  "trigger_id j = (jAgentID j, jTriggerKey j)"

definition registry :: "db \<Rightarrow> bool" where
  "registry d \<longleftrightarrow> (\<forall>j \<in> set (jobs d). validate_job j = None \<and> root_ok d j) \<and> distinct (map trigger_id (jobs d))"

text \<open>A change of job rows that keeps what identifies them.\<close>

definition same_place :: "GenerationJob \<Rightarrow> GenerationJob \<Rightarrow> bool" where
  "same_place j k \<longleftrightarrow> jID k = jID j \<and> jAgentID k = jAgentID j \<and> jTriggerKey k = jTriggerKey j \<and> jRootJobID k = jRootJobID j \<and>
     jChainDepth k = jChainDepth j \<and> jMaxChainDepth k = jMaxChainDepth j \<and> jMaxChainJobs k = jMaxChainJobs j"

lemma registry_rows:
  assumes "registry d" "\<And>x. jID (f x) = jID x" "\<And>x. x \<in> set (jobs d) \<Longrightarrow> same_place x (f x) \<and> validate_job (f x) = None"
  shows "registry (d\<lparr>jobs := map f (jobs d)\<rparr>)"
proof -
  have "map trigger_id (map f (jobs d)) = map trigger_id (jobs d)"
    using assms(3) by (simp add: trigger_id_def same_place_def)
  then have "distinct (map trigger_id (map f (jobs d)))" using assms(1) by (simp only: registry_def)
  moreover have "root_ok (d\<lparr>jobs := map f (jobs d)\<rparr>) (f x)" if x: "x \<in> set (jobs d)" for x
  proof (cases "jRootJobID x = jID x")
    case True
    then show ?thesis using assms(3) [OF x] by (simp add: root_ok_def same_place_def)
  next
    case False
    then obtain r where r: "job_row d (jRootJobID x) = Some r" "jChainDepth r = 0" "jMaxChainDepth r = jMaxChainDepth x" "jMaxChainJobs r = jMaxChainJobs x"
      using assms(1) x by (auto simp: registry_def root_ok_def split: option.splits)
    have "r \<in> set (jobs d)" using r(1) by (simp add: job_row_def find_in_set)
    with assms(3) [of r] assms(3) [OF x] r show ?thesis by (simp add: root_ok_def job_row_map assms(2) same_place_def)
  qed
  ultimately show ?thesis using assms(1,3) by (auto simp: registry_def)
qed

lemma job_state_detached [simp]: "job_state (j\<lparr>jSourceRepostID := r\<rparr>) = job_state j"
  by (cases "jStatus j") (simp_all add: job_state_def no_result_def job_result_def)

lemma detach_valid:
  assumes "validate_job j = None"
  shows "validate_job (detach_repost r j) = None"
proof (cases "jSourceRepostID j = Some r")
  case True
  with assms show ?thesis
    by (auto simp: validate_job_iff job_core_def detach_repost_def validate_trigger_def first_error_None
        split: GenerationTrigger.splits if_splits)
next
  case False
  with assms show ?thesis by (simp add: detach_repost_def)
qed

lemma registry_same_jobs: "registry d \<Longrightarrow> jobs d' = jobs d \<Longrightarrow> registry d'"
  by (simp add: registry_def root_ok_def job_row_def)

lemma registry_created:
  assumes "registry d" "creatable d j"
  shows "registry (d\<lparr>jobs := jobs d @ [j]\<rparr>)"
proof -
  have new: "job_row d (jID j) = None" "validate_job j = None" "\<not> list_ex (same_trigger j) (jobs d)" "root_ok d j"
    using assms(2) by (simp_all add: creatable_def)
  have "trigger_id j \<notin> trigger_id ` set (jobs d)"
    using new(3) by (auto simp: list_ex_iff same_trigger_def trigger_id_def)
  moreover have "root_ok (d\<lparr>jobs := jobs d @ [j]\<rparr>) x" if "root_ok d x" for x
    using that by (auto simp: root_ok_def job_row_append split: option.splits)
  ultimately show ?thesis using assms(1) new by (auto simp: registry_def)
qed

interpretation registry: effect_invariant registry
proof
  fix d d' assume r: "registry d" "rows_ok d" and c: "job_change d d'"
  then obtain b a where b: "b \<in> set (jobs d)" "moves b a" "d' = replace_job a d" by (auto simp: job_change_def)
  have i: "inj_on jID (set (jobs d))" using r(2) by (simp add: rows_ok_def distinct_map)
  have ab: "jID a = jID b" using b(2) by (rule moves_id)
  have e: "x = b" if "x \<in> set (jobs d)" "jID x = jID a" for x using inj_onD [OF i _ that(1) b(1)] that(2) ab by simp
  have "same_place b a \<and> validate_job a = None"
    using moves_facts(1,5,6) [OF b(2)] by (simp add: same_place_def same_identity_def validate_job_iff)
  then have "registry (d\<lparr>jobs := map (\<lambda>j. if jID j = jID a then a else j) (jobs d)\<rparr>)"
    using e r(1) by (intro registry_rows [OF r(1)]) (auto simp: same_place_def registry_def)
  then show "registry d'" by (simp add: b(3) replace_job_def)
next
  fix d b a assume "registry d"
  then show "registry (replace_attempt a d)" by (rule registry_same_jobs) (simp add: replace_attempt_def)
next
  fix d t assume "registry d"
  then show "registry (d\<lparr>attempts := attempts d @ [t]\<rparr>)" by (rule registry_same_jobs) simp
next
  fix d j assume "registry d" "creatable d j"
  then show "registry (d\<lparr>jobs := jobs d @ [j]\<rparr>)" by (rule registry_created)
next
  fix d i assume r: "registry d"
  show "registry (d\<lparr>jobs := map (detach_repost i) (jobs d)\<rparr>)"
    by (rule registry_rows [OF r]) (use r in \<open>auto simp: registry_def detach_valid same_place_def\<close>, auto simp: detach_repost_def)
next
  fix d d' :: db assume "registry d" "jobs d' = jobs d" "attempts d' = attempts d"
  then show "registry d'" using registry_same_jobs by blast
qed

lemma registry_empty: "registry empty_db"
  by (simp add: registry_def empty_db_def)

section \<open>Operations as steps\<close>

inductive worker_step :: "unicode \<Rightarrow> timezones \<Rightarrow> db \<Rightarrow> db \<Rightarrow> db \<Rightarrow> bool" for uc tz d0 d where
  claim: "claim_generation locked c1 c2 d = Inr (d', r) \<Longrightarrow> worker_step uc tz d0 d d'"
| renew: "renew_generation i v c d = Inr (d', u) \<Longrightarrow> worker_step uc tz d0 d d'"
| expire: "expire_jobs locked c1 c2 d = Inr (d', n) \<Longrightarrow> worker_step uc tz d0 d d'"
| deny: "deny_generation i v denial c d = Inr (d', s) \<Longrightarrow> worker_step uc tz d0 d d'"
| complete: "complete_generation i v att jitter c d = Inr (d', s) \<Longrightarrow> worker_step uc tz d0 d d'"
| reserve: "reserve_generation uc tz fresh d0 c1 c2 c3 i v input d = Inr (d', a) \<Longrightarrow> worker_step uc tz d0 d d'"
| settle: "settle_generation reserved outcome request c d = Inr (d', ok) \<Longrightarrow> worker_step uc tz d0 d d'"
| recover: "recover_attempts locked c clocks d = Inr (d', n) \<Longrightarrow> worker_step uc tz d0 d d'"
| publish: "publish_generation uc tz ids d0 c1 c2 c3 draw i v att result d = Inr (d', j) \<Longrightarrow> worker_step uc tz d0 d d'"
| schedule: "schedule_generation uc tz ids clocks draws locked c0 c1 c2 d = (d', r, e) \<Longrightarrow> worker_step uc tz d0 d d'"
| continue: "enqueue_continuations uc tz ids i c draw d = Inr (d', n) \<Longrightarrow> worker_step uc tz d0 d d'"

inductive social_step :: "unicode \<Rightarrow> timezones \<Rightarrow> db \<Rightarrow> db \<Rightarrow> bool" for uc tz d where
  create_post: "create_post uc tz ids session key p c c' draw d = Inr (d', i, a) \<Longrightarrow> social_step uc tz d d'"
| create_reply: "create_reply uc tz ids session key q c c' draw d = Inr (d', i) \<Longrightarrow> social_step uc tz d d'"
| delete_post: "delete_post locked session i c c' d = Inr d' \<Longrightarrow> social_step uc tz d d'"
| delete_reply: "delete_reply locked session i c c' d = Inr d' \<Longrightarrow> social_step uc tz d d'"
| reaction: "set_reaction session i kind c d = Inr (d', a) \<Longrightarrow> social_step uc tz d d'"
| repost: "set_repost uc tz ids locked session i on c c' draw d = Inr (d', a) \<Longrightarrow> social_step uc tz d d'"
| bookmark: "set_bookmark session i on c d = Inr (d', a) \<Longrightarrow> social_step uc tz d d'"
| follow: "follow_profile session i on c d = Inr (d', pr) \<Longrightarrow> social_step uc tz d d'"
| registration: "register_human a h s previous d = Inr d' \<Longrightarrow> social_step uc tz d d'"
| login: "rotate_session s previous d = Inr d' \<Longrightarrow> social_step uc tz d d'"
| logout: "social_step uc tz d (revoke_session h d)"

inductive operator_step :: "unicode \<Rightarrow> timezones \<Rightarrow> db \<Rightarrow> db \<Rightarrow> db \<Rightarrow> bool" for uc tz d0 d where
  account: "create_account a d = Inr d' \<Longrightarrow> operator_step uc tz d0 d d'"
| disable: "disable_account i c c' d = Inr d' \<Longrightarrow> operator_step uc tz d0 d d'"
| remove_post: "remove_post locked i c c' d = Inr d' \<Longrightarrow> operator_step uc tz d0 d d'"
| remove_reply: "remove_reply locked i c c' d = Inr d' \<Longrightarrow> operator_step uc tz d0 d d'"
| retry: "retry_generation uc tz d0 c i d = Inr (d', j) \<Longrightarrow> operator_step uc tz d0 d d'"
| persona: "create_persona uc p d = Inr d' \<Longrightarrow> operator_step uc tz d0 d d'"
| select: "select_persona uc i v c d = Inr d' \<Longrightarrow> operator_step uc tz d0 d d'"
| create_and_select: "create_and_select uc p c d = Inr d' \<Longrightarrow> operator_step uc tz d0 d d'"
| initialize: "initialize_settings uc tz s d = Inr (d', s') \<Longrightarrow> operator_step uc tz d0 d d'"
| policy: "set_policy tz i q c d = Inr d' \<Longrightarrow> operator_step uc tz d0 d d'"
| enabled: "set_enabled uc tz target on clock d = Inr (d', n) \<Longrightarrow> operator_step uc tz d0 d d'"
| job: "create_job uc j d = Inr d' \<Longrightarrow> operator_step uc tz d0 d d'"

definition store_step :: "unicode \<Rightarrow> timezones \<Rightarrow> db \<Rightarrow> db \<Rightarrow> db \<Rightarrow> bool" where
  "store_step uc tz d0 d d' \<longleftrightarrow> worker_step uc tz d0 d d' \<or> social_step uc tz d d' \<or> operator_step uc tz d0 d d'"

lemma worker_step_effects: "worker_step uc tz d0 d d' \<Longrightarrow> rows_ok d0 \<Longrightarrow> rows_ok d \<Longrightarrow> effects d d'"
proof (induction rule: worker_step.induct)
  case (claim locked c1 c2 d' r)
  then have "job_changes d d'" using claim_generation_cases [OF claim(1) claim(3)] job_changeD by auto
  then show ?case by (rule job_changes_effects)
next
  case (reserve fresh c1 c2 c3 i v input d' a)
  then show ?case using reserve_generation_cases by blast
next
  case (recover locked c clocks d' n)
  then show ?case by (blast intro: recover_attempts_effects)
next
  case (publish ids c1 c2 c3 draw i v att result d' j)
  then show ?case by (blast intro: publish_generation_effects)
next
  case (continue ids i c draw d' n)
  then show ?case by (blast intro: enqueue_continuations_effects)
qed (blast intro: job_changes_effects renew_generation_changes expire_jobs_changes deny_generation_changes
    complete_generation_changes settle_generation_effects schedule_generation_effects)+

lemma social_step_effects: "social_step uc tz d d' \<Longrightarrow> rows_ok d \<Longrightarrow> effects d d'"
  by (induction rule: social_step.induct)
     (blast intro: create_post_effects create_reply_effects delete_post_effects delete_reply_effects set_reaction_effects
       set_repost_effects set_bookmark_effects follow_profile_effects register_human_effects rotate_session_effects
       revoke_session_effects)+

lemma operator_step_effects: "operator_step uc tz d0 d d' \<Longrightarrow> rows_ok d \<Longrightarrow> effects d d'"
proof (induction rule: operator_step.induct)
  case (retry c i d' j)
  then have "job_change d d'" using retry_generation_cases by blast
  then show ?case by (intro job_changes_effects job_changeD)
qed (blast intro: create_account_effects disable_account_effects remove_post_effects remove_reply_effects create_persona_effects
    select_persona_effects create_and_select_effects initialize_settings_effects set_policy_effects set_enabled_effects
    create_job_effects)+

lemma store_step_effects: "store_step uc tz d0 d d' \<Longrightarrow> rows_ok d0 \<Longrightarrow> rows_ok d \<Longrightarrow> effects d d'"
  unfolding store_step_def using worker_step_effects social_step_effects operator_step_effects by blast

text \<open>The states that a deployment goes through from a first one, the newest first.\<close>

inductive history :: "unicode \<Rightarrow> timezones \<Rightarrow> db \<Rightarrow> db list \<Rightarrow> bool" for uc tz s where
  start: "history uc tz s [s]"
| step: "history uc tz s (d # ds) \<Longrightarrow> d0 \<in> set (d # ds) \<Longrightarrow> store_step uc tz d0 d d' \<Longrightarrow> history uc tz s (d' # d # ds)"

lemma history_effects:
  "history uc tz s ds \<Longrightarrow> rows_ok s \<Longrightarrow> (\<forall>d \<in> set ds. rows_ok d \<and> effects s d \<and> effects d (hd ds))"
proof (induction rule: history.induct)
  case start
  then show ?case by simp
next
  case (step d ds d0 d')
  then have ih: "\<forall>x \<in> set (d # ds). rows_ok x \<and> effects s x \<and> effects x d" by simp
  then have "rows_ok d0" "rows_ok d" "effects s d" using step.hyps(2) by auto
  with step.hyps(3) have e: "effects d d'" using store_step_effects by blast
  have "rows_ok d'" using e \<open>rows_ok d\<close> by (rule effects_rows_ok)
  moreover have "effects x d'" if "effects x d" for x using that e by (rule rtranclp_trans)
  ultimately show ?case using ih \<open>effects s d\<close> by simp
qed

lemma history_tail: "history uc tz s (d # ds) \<Longrightarrow> ds \<noteq> [] \<Longrightarrow> history uc tz s ds"
  by (erule history.cases) auto

context effect_invariant
begin

lemma in_history: "history uc tz s ds \<Longrightarrow> rows_ok s \<Longrightarrow> inv s \<Longrightarrow> d \<in> set ds \<Longrightarrow> inv d"
  using history_effects [of uc tz s ds] forever [of s d] by blast

end

section \<open>Rows over time\<close>

text \<open>A job row moves along its lifecycle and may lose the reference to a deleted repost; an attempt row may be settled once.\<close>

definition evolves :: "GenerationJob \<Rightarrow> GenerationJob \<Rightarrow> bool" where
  "evolves j k \<longleftrightarrow> moves_on j k \<or> (\<exists>r. k = detach_repost r j)"

lemma effect_job_row_evolves:
  assumes "effect d d'" "rows_ok d" "job_row d i = Some j"
  shows "\<exists>k. job_row d' i = Some k \<and> evolves j k"
  using assms
proof (induction rule: effect.induct)
  case (moved d d')
  then show ?case using job_change_row [of d d' i] by (auto simp: evolves_def)
next
  case (created d j')
  then show ?case by (auto simp: evolves_def job_row_append)
next
  case (detached d r)
  then show ?case by (auto simp: evolves_def job_row_map)
qed (auto simp: evolves_def job_row_def replace_attempt_def)

lemma effects_job_row_evolves:
  "effects d d' \<Longrightarrow> rows_ok d \<Longrightarrow> job_row d i = Some j \<Longrightarrow> \<exists>k. job_row d' i = Some k \<and> evolves\<^sup>*\<^sup>* j k"
proof (induction rule: rtranclp_induct)
  case (step y z)
  then obtain k where k: "job_row y i = Some k" "evolves\<^sup>*\<^sup>* j k" by blast
  from effect_job_row_evolves [OF step.hyps(2) effects_rows_ok [OF step.hyps(1) step.prems(1)] k(1)] k(2)
  show ?case by (meson rtranclp.rtrancl_into_rtrancl)
qed blast

text \<open>So the row of a job only takes the steps of \<open>row_step\<close>, over which fencing and finality are proved.\<close>

lemma detach_row_step: "detach_repost r j = j \<or> row_step j (detach_repost r j)"
  by (simp add: detach_repost_def row_step_def clear_repost_def)

lemma evolves_row_steps: "evolves j k \<Longrightarrow> row_steps j k"
  unfolding evolves_def using detach_row_step moves_on_row_steps by (metis r_into_rtranclp rtranclp.rtrancl_refl)

lemma effects_row_steps:
  assumes "effects d d'" "rows_ok d" "job_row d i = Some j"
  shows "\<exists>k. job_row d' i = Some k \<and> row_steps j k"
proof -
  obtain k where k: "job_row d' i = Some k" "evolves\<^sup>*\<^sup>* j k" using effects_job_row_evolves [OF assms] by blast
  from k(2) have "row_steps j k" by (induction rule: rtranclp_induct) (auto dest: evolves_row_steps)
  with k(1) show ?thesis by blast
qed

lemma detach_final [simp]: "final (detach_repost r j) = final j"
  by (simp add: detach_repost_def final_def)

lemma evolves_final:
  "evolves\<^sup>*\<^sup>* j k \<Longrightarrow> final j \<Longrightarrow> final k \<and> (k = j \<or> k = j\<lparr>jSourceRepostID := None\<rparr>)"
proof (induction rule: rtranclp_induct)
  case (step y z)
  then have y: "final y" "y = j \<or> y = j\<lparr>jSourceRepostID := None\<rparr>" by blast+
  from step.hyps(2) y(1) have "z = y \<or> (\<exists>r. z = detach_repost r y)"
    using moves_on_final [of y z] by (auto simp: evolves_def)
  then have "z = y \<or> z = y\<lparr>jSourceRepostID := None\<rparr>" by (auto simp: detach_repost_def)
  with y show ?case by (auto simp: final_def)
qed simp

definition attempt_evolves :: "GenerationAttempt \<Rightarrow> GenerationAttempt \<Rightarrow> bool" where
  "attempt_evolves b a \<longleftrightarrow> a = b \<or> validate_attempt_transition b a = None"

lemma attempt_transition_final: "validate_attempt_transition b a = None \<Longrightarrow> aStatus b = AttemptReserved \<and> aStatus a \<noteq> AttemptReserved \<and> same_reservation b a"
  using attempt_core_same [of b a] by (auto simp: attempt_transition_iff validate_attempt_iff)

lemma effect_attempt_row:
  assumes "effect d d'" "rows_ok d" "attempt_row d i = Some b"
  shows "\<exists>a. attempt_row d' i = Some a \<and> attempt_evolves b a"
  using assms
proof (induction rule: effect.induct)
  case (moved d d')
  then show ?case by (auto simp: attempt_evolves_def attempt_row_def job_change_def replace_job_def)
next
  case (settled b' d a)
  have i: "aID a = aID b'" using attempt_transition_final [OF settled(2)] by (simp add: same_reservation_def)
  have "attempt_row (replace_attempt a d) i = (if aID a = i \<and> attempt_row d i \<noteq> None then Some a else attempt_row d i)"
    by (simp add: attempt_row_def replace_attempt_def find_replace)
  moreover have "b = b'" if "i = aID b'"
    using settled(1,3,4) that find_key [of aID "attempts d" i b] by (auto simp: attempt_row_def rows_ok_def distinct_map inj_on_def)
  ultimately show ?case using settled(2,4) i by (auto simp: attempt_evolves_def)
next
  case (reserved d t)
  then show ?case by (auto simp: attempt_evolves_def attempt_row_def find_append)
qed (auto simp: attempt_evolves_def attempt_row_def)

lemma effects_attempt_row:
  "effects d d' \<Longrightarrow> rows_ok d \<Longrightarrow> attempt_row d i = Some b \<Longrightarrow> \<exists>a. attempt_row d' i = Some a \<and> attempt_evolves b a"
proof (induction rule: rtranclp_induct)
  case (step y z)
  then obtain k where k: "attempt_row y i = Some k" "attempt_evolves b k" by blast
  from effect_attempt_row [OF step.hyps(2) effects_rows_ok [OF step.hyps(1) step.prems(1)] k(1)]
  obtain a where a: "attempt_row z i = Some a" "attempt_evolves k a" by blast
  with k(2) show ?case using attempt_transition_final unfolding attempt_evolves_def by blast
qed (auto simp: attempt_evolves_def)

end
