(* ===== verification/Safety.thy ===== *)
theory Safety
  imports System
begin

text \<open>
  What holds in every state that the service reaches: the spending limits, the soundness of the job table, the
  finality of outcomes and of settlements, and the progress of claims; with one concrete history that the
  witnesses use.
\<close>

section \<open>A history\<close>

text \<open>An agent with one persona, a scheduled job that a worker claims, and its denial.\<close>

definition bot :: Account where
  "bot = \<lparr>acc_ID = sample_id CHR ''2'', acc_Type = AccountAgent, Handle = ''bot'', DisplayName = ''Bot'', Initials = [],
     Bio = [], RoleLabel = [], StatusText = [], Specialty = [], AppearanceKey = None, VerifiedAt = None,
     acc_CreatedAt = 0, acc_UpdatedAt = 0, DisabledAt = None\<rparr>"

definition bot_persona :: Persona where
  "bot_persona = \<lparr>perAgentID = sample_id CHR ''2'', perVersion = 1, perInstructions = ''Kindly'', perTopicTags = [''go''],
     perCreatedAt = 1000\<rparr>"

definition plan :: GenerationJob where
  "plan = \<lparr>jID = sample_id CHR ''1'', jAgentID = sample_id CHR ''2'', jPersonaVersion = 1,
     jTriggerKind = TriggerScheduled, jTriggerKey = ''scheduled:k'', jTriggerActorID = None, jCooldownKey = [],
     jSourcePostID = None, jSourceReplyID = None, jSourceRepostID = None, jOutputKind = OutputPost,
     jRootJobID = sample_id CHR ''1'', jChainDepth = 0, jMaxChainDepth = 2, jMaxChainJobs = 4,
     jStatus = JobPending, jAvailableAt = 1000000, jExpiresAt = 9000000, jLeaseVersion = 0,
     jLeaseExpiresAt = None, jResultPostID = None, jResultReplyID = None, jPublishedAttemptID = None,
     jReasonCode = [], jCreatedAt = 1000000, jFinishedAt = None\<rparr>"

definition plan_claimed :: GenerationJob where
  "plan_claimed = plan\<lparr>jStatus := JobRunning, jLeaseVersion := 1, jLeaseExpiresAt := Some (2000000 + lease_duration)\<rparr>"

definition plan_denied :: GenerationJob where
  "plan_denied = plan_claimed\<lparr>jStatus := JobCancelled, jReasonCode := denial_code GenerationExecutionCancelled,
     jLeaseExpiresAt := None, jFinishedAt := Some 3000000\<rparr>"

definition state1 :: db where "state1 = empty_db\<lparr>accounts := [bot]\<rparr>"
definition state2 :: db where "state2 = state1\<lparr>personas := [bot_persona]\<rparr>"
definition state3 :: db where "state3 = state2\<lparr>jobs := [plan]\<rparr>"
definition state4 :: db where "state4 = state2\<lparr>jobs := [plan_claimed]\<rparr>"
definition state5 :: db where "state5 = state2\<lparr>jobs := [plan_denied]\<rparr>"

lemmas state_defs = state1_def state2_def state3_def state4_def state5_def empty_db_def

lemma plan_valid: "validate_job plan = None"
  by (simp add: validate_job_iff job_core_def job_state_def no_result_def plan_def validate_trigger_def visible_text class_defs)

lemma plan_stored: "stored_job plan = plan"
  by (simp add: stored_job_def plan_def generation_instant_def)

lemma plan_claimed_valid: "validate_job plan_claimed = None"
  using plan_valid
  by (simp add: validate_job_iff job_core_def job_state_def no_result_def plan_claimed_def plan_def validate_trigger_def lease_duration_def)

lemma bot_persona_valid: "validate_persona uc bot_persona = None"
  unfolding validate_persona_def or_else_None first_error_None
  by (simp add: bot_persona_def to_lower_ascii visible_text class_defs is_tag_character_def ascii_lower_def)

lemma state1_step: "operator_step uc tz d0 empty_db state1"
  by (rule operator_step.account [of bot]) (simp add: create_account_def state_defs bot_def generation_instant_def)

lemma state2_step: "operator_step uc tz d0 state1 state2"
  by (rule operator_step.persona [of _ bot_persona])
     (simp add: create_persona_def bot_persona_valid, simp add: state_defs lock_agent_def account_by_id_def persona_by_key_def bot_def bot_persona_def generation_instant_def)

lemma state3_step: "operator_step uc tz d0 state2 state3"
proof (rule operator_step.job [of _ plan])
  have p: "persona_by_version uc state2 (jAgentID plan) (jPersonaVersion plan) = Inr bot_persona"
    using bot_persona_valid by (simp add: persona_by_version_def persona_by_key_def account_by_id_def state_defs plan_def bot_def bot_persona_def)
  have "insert_job plan state2 = Inr (state3, True)" "lock_agent (jAgentID plan) state2 = Inr ()"
    by (simp_all add: insert_job_def job_references_ok_def persona_by_key_def job_row_def root_ok_def lock_agent_def account_by_id_def
        state_defs plan_def bot_persona_def bot_def)
  then show "create_job uc plan state2 = Inr state3"
    using p plan_valid plan_stored by (simp add: create_job_def) (simp add: plan_def)
qed


lemma job_by_id_state:
  "job_by_id state3 (sample_id CHR ''1'') = Inr plan" "job_by_id state4 (sample_id CHR ''1'') = Inr plan_claimed"
  using plan_valid plan_claimed_valid
  by (simp_all add: job_by_id_def job_row_def account_by_id_def state_defs plan_def plan_claimed_def bot_def)

lemma plan_claim_step: "validate_transition plan plan_claimed 0 2000000 None = None"
proof -
  have "job_step 2000000 None plan (plan\<lparr>jStatus := JobRunning, jLeaseVersion := jLeaseVersion plan + 1,
      jLeaseExpiresAt := Some (2000000 + lease_duration), jReasonCode := []\<rparr>)"
    by (intro job_step.claim) (simp_all add: plan_def queued_def max_int64_def removed_repost_def lease_duration_def)
  moreover have "plan_claimed = plan\<lparr>jStatus := JobRunning, jLeaseVersion := jLeaseVersion plan + 1,
      jLeaseExpiresAt := Some (2000000 + lease_duration), jReasonCode := []\<rparr>"
    by (simp add: plan_claimed_def plan_def)
  ultimately show ?thesis
    using job_step_accepted [of 2000000 None plan plan_claimed] plan_valid by (simp add: validate_job_iff plan_def)
qed

lemma plan_denied_close: "plan_denied = close_job JobCancelled (denial_code GenerationExecutionCancelled) 3000000 plan_claimed"
  by (simp add: plan_denied_def close_job_def)

lemma plan_deny_step: "validate_transition plan_claimed plan_denied 1 3000000 None = None"
proof -
  have "job_step 3000000 None plan_claimed plan_denied"
    unfolding plan_denied_close
    by (intro job_step.finish) (simp_all add: plan_claimed_def plan_def lease_live_def closing_def removed_repost_def lease_duration_def)
  then show ?thesis
    using job_step_accepted [of 3000000 None plan_claimed plan_denied] plan_claimed_valid
    by (simp add: validate_job_iff plan_claimed_def plan_def)
qed

lemma state3_claim: "claim_generation (\<lambda>_. False) 2000000 2000000 state3 = Inr (state4, Some plan_claimed)"
proof -
  have "filter (\<lambda>j. claimable 2000000 j \<and> True) (jobs state3) = [plan]"
    by (simp add: state_defs claimable_def plan_def)
  moreover have "update_jobs state3 (fenced plan) (\<lambda>j. j\<lparr>jStatus := JobRunning, jLeaseVersion := jLeaseVersion plan + 1,
      jLeaseExpiresAt := Some (2000000 + lease_duration), jReasonCode := []\<rparr>) = Inr state4"
    by (simp add: update_jobs_def fenced_def state_defs) (simp add: plan_claimed_def plan_def)
  moreover have "plan\<lparr>jStatus := JobRunning, jLeaseVersion := jLeaseVersion plan + 1,
      jLeaseExpiresAt := Some (2000000 + lease_duration), jReasonCode := []\<rparr> = plan_claimed"
    by (simp add: plan_claimed_def plan_def)
  moreover have "jID plan = sample_id CHR ''1''" "jExpiresAt plan = 9000000" "\<not> removed_repost plan" "jLeaseVersion plan = 0"
    by (simp_all add: plan_def removed_repost_def)
  ultimately show ?thesis
    using plan_claim_step
    by (simp add: claim_generation_def generation_instant_def job_by_id_state max_int64_def Let_def)
qed

lemma state4_step: "worker_step uc tz d0 state3 state4"
  by (rule worker_step.claim [OF state3_claim])

lemma state5_step: "worker_step uc tz d0 state4 state5"
proof (rule worker_step.deny [of "sample_id CHR ''1''" 1 GenerationExecutionCancelled 3000000 _ _ JobCancelled])
  have "finish_job state4 plan_claimed JobCancelled (denial_code GenerationExecutionCancelled) 3000000 3000000 = Inr state5"
  proof -
    have "plan_claimed\<lparr>jStatus := JobCancelled, jReasonCode := denial_code GenerationExecutionCancelled,
        jLeaseExpiresAt := None, jFinishedAt := Some 3000000\<rparr> = plan_denied" by (simp add: plan_denied_def)
    moreover have "validate_lease plan_claimed 1 3000000 = None"
      by (simp add: validate_lease_iff plan_claimed_def plan_def lease_duration_def)
    moreover have "jLeaseVersion plan_claimed = 1" "jStatus plan_claimed = JobRunning" by (simp_all add: plan_claimed_def)
    moreover have "update_jobs state4 (fenced plan_claimed) (\<lambda>j. j\<lparr>jStatus := JobCancelled, jReasonCode := denial_code GenerationExecutionCancelled,
        jLeaseExpiresAt := None, jAvailableAt := jAvailableAt plan_claimed, jFinishedAt := Some 3000000\<rparr>) = Inr state5"
      by (simp add: update_jobs_def fenced_def state_defs) (simp add: plan_denied_def plan_claimed_def plan_def)
    ultimately show ?thesis using plan_deny_step by (simp add: finish_job_def Let_def)
  qed
  moreover have "jLeaseVersion plan_claimed = 1" "jStatus plan_claimed = JobRunning" "jExpiresAt plan_claimed = 9000000" "\<not> removed_repost plan_claimed"
    by (simp_all add: plan_claimed_def plan_def removed_repost_def)
  ultimately show "deny_generation (sample_id CHR ''1'') 1 GenerationExecutionCancelled 3000000 state4 = Inr (state5, JobCancelled)"
    by (simp add: deny_generation_def terminal_status_def job_by_id_state generation_instant_def)
qed

lemma sample_history: "history uc tz empty_db [state5, state4, state3, state2, state1, empty_db]"
  using state1_step state2_step state3_step state4_step state5_step
  by (blast intro: history.start history.step [where ?d0.0 = empty_db] list.set_intros store_step_def [THEN iffD2])

text \<open>An open attempt of the claimed job, and its settlement as timed out.\<close>

definition spent :: GenerationAttempt where
  "spent = \<lparr>aID = sample_id CHR ''6'', aJobID = sample_id CHR ''1'', aAttemptNumber = 1, aLeaseVersion = 1, aPauseRevision = Some 0,
     aProvider = ''together'', aModel = ''m'', aProviderRequestID = [], aContextHash = hex_encode (replicate 32 CHR ''a''),
     aContextBuilderVersion = ''v1'', aOutputDigest = [], aDecision = NoDecision, aSkipReason = [], aNotBefore = None,
     aBudgetDay = ''0001-01-01'', aReservedTokens = ReservedTokensPerCall, aInputTokens = None, aOutputTokens = None,
     aStatus = AttemptReserved, aErrorCode = [], aStartedAt = 2500000, aFinishedAt = None\<rparr>"

definition spent_unknown :: GenerationAttempt where
  "spent_unknown = settle_fields (failed_outcome GenerationTimeout) ''r1'' 2600000 spent"

definition state4a :: db where "state4a = state4\<lparr>attempts := [spent]\<rparr>"
definition state4b :: db where "state4b = state4\<lparr>attempts := [spent_unknown]\<rparr>"

lemma spent_valid: "validate_attempt spent = None"
proof -
  have d: "valid_generation_date ''0001-01-01''" "format_date 2500000 = ''0001-01-01''" by code_simp+
  have h: "sha256_hex (hex_encode (replicate 32 CHR ''a''))" by (simp add: sha256_hex_def)
  have "valid_generation_code ''together''" "valid_generation_code ''v1''" "valid_generation_text ''m'' 128"
    by (simp_all add: valid_code_ascii visible_text class_defs)
  with d h show ?thesis
    by (simp add: validate_attempt_iff attempt_core_def attempt_state_def spent_def ReservedTokensPerCall_def
        ContextWindowTokens_def MaxOutputTokens_def class_defs)
qed

lemma timeout_normal: "normalize_outcome (failed_outcome GenerationTimeout) = Inr (failed_outcome GenerationTimeout)"
  by (simp add: normalize_outcome_def validate_outcome_def failed_outcome_def first_error_None failure_valid_def known_failures_def
      empty_result_def digest_def Let_def)

lemma state4b_step: "worker_step uc tz d0 state4a state4b"
proof (rule worker_step.settle [of spent "failed_outcome GenerationTimeout" "''r1''" 2600000 _ _ True])
  have rows: "attempt_row state4a (sample_id CHR ''6'') = Some spent" "job_row state4a (aJobID spent) = Some plan_claimed"
    "account_by_id state4a (jAgentID plan_claimed) = Some bot" "acc_Type bot = AccountAgent"
    by (simp_all add: attempt_row_def job_row_def account_by_id_def state4a_def state_defs spent_def plan_claimed_def plan_def bot_def)
  then have f: "attempt_by_id state4a (sample_id CHR ''6'') = Inr spent" "aStatus spent = AttemptReserved" "aID spent = sample_id CHR ''6''"
    using spent_valid by (simp_all add: attempt_by_id_def) (simp_all add: spent_def)
  have r: "safe_request_id_text ''r1''" by (simp add: safe_request_id_text_def runes_ascii request_id_char_def class_defs)
  have i: "same_reservation spent spent" by (simp add: same_reservation_def)
  have k: "settle_kind state4a spent (failed_outcome GenerationTimeout) = Inr ()"
    by (simp add: settle_kind_def failed_outcome_def empty_result_def digest_def)
  have v: "validate_attempt_transition spent spent_unknown = None"
    using spent_valid unfolding attempt_transition_iff validate_attempt_iff
    by (simp add: attempt_state_def spent_unknown_def settle_fields_def settled_status_def failed_outcome_def empty_result_def digest_def
        same_reservation_def spent_def request_ok_def visible_text usage_ok_def class_defs)
  have u: "update_attempts state4a (\<lambda>t. aID t = sample_id CHR ''6'' \<and> aStatus t = AttemptReserved) (settle_row spent_unknown) = Inr state4b"
    by (simp add: update_attempts_def state4a_def state4b_def settle_row_def spent_unknown_def settle_fields_def spent_def Let_def)
  show "settle_generation spent (failed_outcome GenerationTimeout) ''r1'' 2600000 state4a = Inr (state4b, True)"
    using spent_valid f r i k v u
    by (simp add: settle_generation_def timeout_normal spent_unknown_def [symmetric] generation_instant_def Let_def)
qed

lemma spend_history: "history uc tz state4a [state4b, state4a]" "rows_ok state4a"
proof -
  have "store_step uc tz state4a state4a state4b" unfolding store_step_def using state4b_step by blast
  then show "history uc tz state4a [state4b, state4a]" by (intro history.step [OF history.start, where ?d0.0 = state4a]) simp_all
  show "rows_ok state4a" by (simp add: rows_ok_def state4a_def state_defs)
qed

section \<open>Every reachable state\<close>

text \<open>
  C19: Whatever the order of the transactions, no day's attempts cost more than the global budget of 500000 tokens,
  and a job has at most three attempts, numbered in order, under different lease versions, of which only the last
  may still be open.
\<close>

theorem spend_limits:
  assumes "history uc tz empty_db ds" "d \<in> set ds"
  shows "global_spent d day \<le> generation_daily_budget \<and> length (attempts_of d i) \<le> 3 \<and>
    map aAttemptNumber (attempts_of d i) = map int [1..<Suc (length (attempts_of d i))] \<and>
    distinct (map aLeaseVersion (attempts_of d i)) \<and> (\<forall>t \<in> set (butlast (attempts_of d i)). aStatus t \<noteq> AttemptReserved)"
proof -
  have "ledger d" using ledger.in_history [OF assms(1) _ _ assms(2)] ledger_empty by blast
  then show ?thesis by (simp only: ledger_def numbered_def MaxGenerationAttempts_def) simp
qed

theorem spend_limits_witness:
  "global_spent state5 ''2024-03-10'' \<le> generation_daily_budget \<and> length (attempts_of state5 (sample_id CHR ''1'')) \<le> 3"
  using spend_limits [OF sample_history [of ascii_unicode sample_tz], of state5 "''2024-03-10''" "sample_id CHR ''1''"] by simp

text \<open>
  C20: In every reachable state every job row satisfies \<open>GenerationJob.Validate\<close>, no agent has two jobs under one trigger
  key, and every continuation hangs below a stored root with the same chain limits.
\<close>

theorem job_table_sound:
  assumes "history uc tz empty_db ds" "d \<in> set ds"
  shows "(\<forall>j \<in> set (jobs d). validate_job j = None \<and>
      (jRootJobID j = jID j \<or> (\<exists>r. job_row d (jRootJobID j) = Some r \<and> jChainDepth r = 0 \<and>
         jMaxChainDepth r = jMaxChainDepth j \<and> jMaxChainJobs r = jMaxChainJobs j))) \<and>
    distinct (map jID (jobs d)) \<and> distinct (map (\<lambda>j. (jAgentID j, jTriggerKey j)) (jobs d))"
proof -
  have r: "registry d" using registry.in_history [OF assms(1) _ registry_empty assms(2)] ledger_empty by blast
  moreover have "rows_ok d" using history_effects [OF assms(1)] assms(2) ledger_empty by blast
  ultimately show ?thesis unfolding registry_def root_ok_def rows_ok_def trigger_id_def by (auto split: option.splits)
qed

theorem job_table_sound_witness: "validate_job plan_denied = None \<and> jobs state5 = [plan_denied]"
proof -
  have "jobs state5 = [plan_denied]" by (simp add: state_defs)
  with job_table_sound [OF sample_history [of ascii_unicode sample_tz], of state5] show ?thesis by simp
qed

text \<open>
  Once a job has succeeded, was skipped or cancelled, no later state of any history changes its row, except that
  the reference to its repost disappears when that repost is deleted.
\<close>

theorem outcome_stays:
  assumes "history uc tz s (new # ds)" "rows_ok s" "d \<in> set (new # ds)" "job_row d i = Some j"
    "jStatus j \<in> {JobSucceeded, JobSkipped, JobCancelled}"
  shows "job_row new i = Some j \<or> job_row new i = Some (j\<lparr>jSourceRepostID := None\<rparr>)"
proof -
  have "effects d new" "rows_ok d" using history_effects [OF assms(1,2)] assms(3) by auto
  from effects_job_row_evolves [OF this assms(4)] obtain k where k: "job_row new i = Some k" "evolves\<^sup>*\<^sup>* j k" by blast
  have "final j" using assms(5) by (simp add: final_def)
  with evolves_final [OF k(2)] k(1) show ?thesis by auto
qed

theorem outcome_stays_witness:
  "job_row state5 (sample_id CHR ''1'') = Some plan_denied \<or>
   job_row state5 (sample_id CHR ''1'') = Some (plan_denied\<lparr>jSourceRepostID := None\<rparr>)"
proof (rule outcome_stays [OF sample_history [of ascii_unicode sample_tz]])
  show "rows_ok empty_db" using ledger_empty by blast
  show "state5 \<in> set [state5, state4, state3, state2, state1, empty_db]" by simp
  show "job_row state5 (sample_id CHR ''1'') = Some plan_denied"
    by (simp add: state_defs job_row_def plan_denied_def plan_claimed_def plan_def)
  show "jStatus plan_denied \<in> {JobSucceeded, JobSkipped, JobCancelled}" by (simp add: plan_denied_def)
qed

text \<open>
  C24: A settled attempt is never rewritten: a later state has the same row.  An open one keeps its reservation, and if
  it changed it is settled by a step that \<open>ValidateGenerationAttemptTransition\<close> accepts.
\<close>

theorem settlement_stays:
  assumes "history uc tz s (new # ds)" "rows_ok s" "d \<in> set (new # ds)" "attempt_row d i = Some b"
  shows "\<exists>a. attempt_row new i = Some a \<and> same_reservation b a \<and>
    (aStatus b \<noteq> AttemptReserved \<longrightarrow> a = b) \<and> (a \<noteq> b \<longrightarrow> validate_attempt_transition b a = None)"
proof -
  have "effects d new" "rows_ok d" using history_effects [OF assms(1,2)] assms(3) by auto
  from effects_attempt_row [OF this assms(4)] obtain a where a: "attempt_row new i = Some a" "attempt_evolves b a" by blast
  then have "a = b \<or> validate_attempt_transition b a = None" by (simp add: attempt_evolves_def)
  moreover have "same_reservation b b" by (simp add: same_reservation_def)
  ultimately show ?thesis using a attempt_transition_final by blast
qed

theorem settlement_stays_witness:
  "\<exists>a. attempt_row state4b (sample_id CHR ''6'') = Some a \<and> same_reservation spent a \<and> aStatus a = AttemptUnknown"
proof -
  have r: "attempt_row state4a (sample_id CHR ''6'') = Some spent" by (simp add: attempt_row_def state4a_def spent_def)
  obtain a where a: "attempt_row state4b (sample_id CHR ''6'') = Some a" "same_reservation spent a"
    using settlement_stays [OF spend_history(1) [of ascii_unicode sample_tz] spend_history(2) _ r] by auto
  moreover have "attempt_row state4b (sample_id CHR ''6'') = Some spent_unknown"
    by (simp add: attempt_row_def state4b_def spent_unknown_def settle_fields_def spent_def Let_def)
  moreover have "aStatus spent_unknown = AttemptUnknown"
    by (simp add: spent_unknown_def settle_fields_def settled_status_def failed_outcome_def Let_def)
  ultimately show ?thesis by auto
qed

end
