(* ===== verification/WorkerStore.thy ===== *)
theory WorkerStore
  imports Worker Snapshot Safety
begin

text \<open>
  The worker's pass on the PostgreSQL store: every operation of \<open>ExecutionStore\<close> is a transaction on the current
  database, other processes work in between, and any transaction may be refused or lose the answer to
  its commit.  The pass is then a part of the history of the service, and it fulfils the contract of
  \<open>settling_store\<close>: what it reserves it settles.
\<close>

section \<open>Transactions\<close>

text \<open>
  \<open>Store.transaction\<close>: the callback may not run to its commit (\<open>Refused\<close>), or the commit may succeed with its answer
  lost (\<open>Lost\<close>); the first component is what was committed.
\<close>

datatype fault = NoFault | Refused exec_error | Lost exec_error

definition transaction ::
  "fault \<Rightarrow> (db \<Rightarrow> go_error + db \<times> 'a) \<Rightarrow> db \<Rightarrow> (db \<times> 'a) option \<times> (exec_error + 'a)" where
  "transaction fault f d =
     (case fault of
        Refused e \<Rightarrow> (None, Inl e)
      | Lost e \<Rightarrow> (case f d of Inl _ \<Rightarrow> (None, Inl e) | Inr (d', x) \<Rightarrow> (Some (d', x), Inl e))
      | NoFault \<Rightarrow> (case f d of Inl e \<Rightarrow> (None, Inl (Service e)) | Inr (d', x) \<Rightarrow> (Some (d', x), Inr x)))"

section \<open>The world of a pass\<close>

text \<open>
  What the environment answers at the \<open>n\<close>-th operation: what others did before it (\<open>evOthers\<close>, on the states so far, newest
  first), the fault, the readiness check, which earlier state an unlocked first read sees, clocks, locks, identifiers,
  draws, the end of the context, the jitter, the renewals and the provider's answer.
\<close>

record pass_env =
  evOthers :: "nat \<Rightarrow> db list \<Rightarrow> db list"
  evFault :: "nat \<Rightarrow> fault"
  evReady :: "nat \<Rightarrow> exec_error option"
  evBefore :: "nat \<Rightarrow> nat"
  evClock :: "nat \<Rightarrow> nat \<Rightarrow> time"
  evClocks :: "nat \<Rightarrow> time list"
  evLocked :: "nat \<Rightarrow> ID \<Rightarrow> bool"
  evID :: "nat \<Rightarrow> nat \<Rightarrow> ID"
  evDraws :: "nat \<Rightarrow> draws"
  evEnded :: "nat \<Rightarrow> exec_error option"
  evRenewEnded :: "nat \<Rightarrow> bool"
  evJitter :: "nat \<Rightarrow> duration"
  evTicks :: "nat \<Rightarrow> nat"
  evAnswer :: "nat \<Rightarrow> GenerationOutcome \<times> bool \<times> bool"

record world =
  wStates :: "db list"
  wOwned :: "ID set"
  wCount :: nat

definition committed :: "('a \<Rightarrow> ID set) \<Rightarrow> (db \<times> 'a) option \<Rightarrow> db list \<Rightarrow> ID set \<Rightarrow> nat \<Rightarrow> world" where
  "committed own c ds ids n =
     (case c of
        None \<Rightarrow> \<lparr>wStates = ds, wOwned = ids, wCount = n + 1\<rparr>
      | Some (d', x) \<Rightarrow> \<lparr>wStates = (if d' = hd ds then ds else d' # ds), wOwned = own x \<union> ids, wCount = n + 1\<rparr>)"

definition store_op ::
  "pass_env \<Rightarrow> ('a \<Rightarrow> ID set) \<Rightarrow> (nat \<Rightarrow> db \<Rightarrow> db \<Rightarrow> go_error + db \<times> 'a) \<Rightarrow> (world, 'a) op" where
  "store_op ev own f w =
     (let n = wCount w; ds = evOthers ev n (wStates w); d0 = ds ! (evBefore ev n mod length ds);
          (c, r) = transaction (evFault ev n) (f n d0) (hd ds)
      in (committed own c ds (wOwned w) n, r))"

definition change_op :: "pass_env \<Rightarrow> (nat \<Rightarrow> db \<Rightarrow> db \<Rightarrow> go_error + db \<times> 'a) \<Rightarrow> (world, 'a) op" where
  "change_op ev f = store_op ev (\<lambda>_. {}) f"

definition read_op :: "pass_env \<Rightarrow> (nat \<Rightarrow> db \<Rightarrow> go_error + 'a) \<Rightarrow> (world, 'a) op" where
  "read_op ev f = change_op ev (\<lambda>n _ d. and_then (f n d) (\<lambda>x. Inr (d, x)))"

definition env_op :: "pass_env \<Rightarrow> (nat \<Rightarrow> 'a) \<Rightarrow> world \<Rightarrow> world \<times> 'a" where
  "env_op ev f w =
     (\<lparr>wStates = evOthers ev (wCount w) (wStates w), wOwned = wOwned w, wCount = wCount w + 1\<rparr>, f (wCount w))"

definition ready_op :: "pass_env \<Rightarrow> (world, unit) op" where
  "ready_op ev w =
     (case env_op ev (evReady ev) w of (w', None) \<Rightarrow> (w', Inr ()) | (w', Some e) \<Rightarrow> (w', Inl e))"

definition own_attempt :: "admission \<Rightarrow> ID set" where
  "own_attempt a = (case fst a of None \<Rightarrow> {} | Some t \<Rightarrow> {aID t})"

definition pg_store :: "unicode \<Rightarrow> timezones \<Rightarrow> pass_env \<Rightarrow> world execution_store" where
  "pg_store uc tz ev =
     \<lparr>esReady = ready_op ev,
      esRecover = change_op ev (\<lambda>n _ d. recover_attempts (evLocked ev n) (evClock ev n 0) (evClocks ev n) d),
      esExpire = change_op ev (\<lambda>n _ d. expire_jobs (evLocked ev n) (evClock ev n 0) (evClock ev n 1) d),
      esClaim = change_op ev (\<lambda>n _ d. claim_generation (evLocked ev n) (evClock ev n 0) (evClock ev n 1) d),
      esLatest = (\<lambda>i. read_op ev (\<lambda>n d. latest_attempt d i)),
      esContext = (\<lambda>i v. read_op ev (\<lambda>n d. generation_context uc (evClock ev n 0) (evClock ev n 1) i v d)),
      esReserve = (\<lambda>i v input. store_op ev own_attempt (\<lambda>n d0 d.
        reserve_generation uc tz (evID ev n 0) d0 (evClock ev n 0) (evClock ev n 1) (evClock ev n 2) i v input d)),
      esRenew = (\<lambda>i v. change_op ev (\<lambda>n _ d. renew_generation i v (evClock ev n 0) d)),
      esSettle = (\<lambda>t outcome q. change_op ev (\<lambda>n _ d. settle_generation t outcome q (evClock ev n 0) d)),
      esComplete = (\<lambda>i v k jitter. change_op ev (\<lambda>n _ d. complete_generation i v k jitter (evClock ev n 0) d)),
      esPublish = (\<lambda>i v k result. change_op ev (\<lambda>n d0 d.
        publish_generation uc tz (evID ev n) d0 (evClock ev n 0) (evClock ev n 1) (evClock ev n 2) (evDraws ev n) i v k result d)),
      esDeny = (\<lambda>i v reason. change_op ev (\<lambda>n _ d. deny_generation i v reason (evClock ev n 0) d))\<rparr>"

text \<open>The jitter is drawn below \<open>MaxGenerationRetryJitter + 1\<close>.\<close>

definition pg_env :: "pass_env \<Rightarrow> world execution_env" where
  "pg_env ev =
     \<lparr>enErr = env_op ev (evEnded ev), enJitter = env_op ev (\<lambda>n. evJitter ev n mod (MaxGenerationRetryJitter + 1)),
      enRenewEnded = env_op ev (evRenewEnded ev), enTicks = (\<lambda>_ _. env_op ev (evTicks ev)),
      enProvider = (\<lambda>_ _ _. env_op ev (evAnswer ev))\<rparr>"

section \<open>Honest environments\<close>

text \<open>
  Others only take steps of the service, failures of the connection are the uncertain errors, and neither the
  readiness check nor the end of a context looks like a code of the worker.
\<close>

definition honest :: "unicode \<Rightarrow> timezones \<Rightarrow> db \<Rightarrow> pass_env \<Rightarrow> bool" where
  "honest uc tz s ev \<longleftrightarrow>
     (\<forall>n ds. history uc tz s ds \<longrightarrow> history uc tz s (evOthers ev n ds) \<and> (\<exists>es. evOthers ev n ds = es @ ds)) \<and>
     (\<forall>n e. evFault ev n = Refused e \<or> evFault ev n = Lost e \<longrightarrow> uncertain e) \<and>
     (\<forall>n c. evReady ev n \<noteq> Some (Safe c) \<and> evEnded ev n \<noteq> Some (Safe c))"

definition world_ok :: "unicode \<Rightarrow> timezones \<Rightarrow> db \<Rightarrow> pass_env \<Rightarrow> world \<Rightarrow> bool" where
  "world_ok uc tz s ev w \<longleftrightarrow>
     rows_ok s \<and> honest uc tz s ev \<and> history uc tz s (wStates w) \<and> finite (wOwned w) \<and>
     (\<forall>i \<in> wOwned w. attempt_row (hd (wStates w)) i \<noteq> None)"

definition open_rows :: "world \<Rightarrow> ID set" where
  "open_rows w = {i \<in> wOwned w. case attempt_row (hd (wStates w)) i of None \<Rightarrow> False | Some a \<Rightarrow> aStatus a = AttemptReserved}"

lemma history_nonempty: "history uc tz s ds \<Longrightarrow> ds \<noteq> []"
  by (erule history.cases) simp_all

lemma history_effects_from:
  assumes "history uc tz s (es @ ds)" "rows_ok s" "ds \<noteq> []"
  shows "effects (hd ds) (hd (es @ ds))" "rows_ok (hd (es @ ds))" "rows_ok (hd ds)"
  using history_effects [OF assms(1,2)] assms(3) by (cases es; cases ds; auto)+

lemma open_rows_effects:
  assumes "effects d d'" "rows_ok d" "\<forall>i \<in> ids. attempt_row d i \<noteq> None"
  shows "\<forall>i \<in> ids. attempt_row d' i \<noteq> None"
    "{i \<in> ids. case attempt_row d' i of None \<Rightarrow> False | Some a \<Rightarrow> aStatus a = AttemptReserved} \<subseteq>
     {i \<in> ids. case attempt_row d i of None \<Rightarrow> False | Some a \<Rightarrow> aStatus a = AttemptReserved}"
proof -
  have row: "\<exists>b a. attempt_row d i = Some b \<and> attempt_row d' i = Some a \<and> attempt_evolves b a" if "i \<in> ids" for i
    using assms(3) that effects_attempt_row [OF assms(1,2), of i] by fastforce
  then show "\<forall>i \<in> ids. attempt_row d' i \<noteq> None" by fastforce
  show "{i \<in> ids. case attempt_row d' i of None \<Rightarrow> False | Some a \<Rightarrow> aStatus a = AttemptReserved} \<subseteq>
     {i \<in> ids. case attempt_row d i of None \<Rightarrow> False | Some a \<Rightarrow> aStatus a = AttemptReserved}"
  proof clarify
    fix i assume i: "i \<in> ids" and r: "case attempt_row d' i of None \<Rightarrow> False | Some a \<Rightarrow> aStatus a = AttemptReserved"
    from row [OF i] obtain b a where ba: "attempt_row d i = Some b" "attempt_row d' i = Some a" "attempt_evolves b a" by blast
    then have "aStatus b = AttemptReserved" using r attempt_transition_final by (auto simp: attempt_evolves_def)
    then show "case attempt_row d i of None \<Rightarrow> False | Some a \<Rightarrow> aStatus a = AttemptReserved" by (simp add: ba)
  qed
qed

text \<open>What others do in between.\<close>

lemma others_ok:
  assumes "world_ok uc tz s ev w" "ds = evOthers ev n (wStates w)"
  shows "history uc tz s ds" "ds \<noteq> []" "rows_ok (hd ds)" "\<forall>i \<in> wOwned w. attempt_row (hd ds) i \<noteq> None"
    "\<And>ids m. ids = wOwned w \<Longrightarrow> open_rows \<lparr>wStates = ds, wOwned = ids, wCount = m\<rparr> \<subseteq> open_rows w"
proof -
  have h: "history uc tz s (wStates w)" "rows_ok s" "\<forall>i \<in> wOwned w. attempt_row (hd (wStates w)) i \<noteq> None"
    using assms(1) by (simp_all add: world_ok_def)
  have "honest uc tz s ev" using assms(1) by (simp add: world_ok_def)
  then have "history uc tz s ds \<and> (\<exists>es. ds = es @ wStates w)" using h(1) assms(2) by (simp add: honest_def)
  then obtain es where es: "ds = es @ wStates w" "history uc tz s ds" by blast
  show "history uc tz s ds" by fact
  then show "ds \<noteq> []" by (rule history_nonempty)
  note later_on = history_effects_from [OF es(2) [unfolded es(1)] h(2) history_nonempty [OF h(1)]]
  show "rows_ok (hd ds)" using later_on(2) es(1) by simp
  show "\<forall>i \<in> wOwned w. attempt_row (hd ds) i \<noteq> None" using open_rows_effects(1) [OF later_on(1,3) h(3)] es(1) by simp
  show "open_rows \<lparr>wStates = ds, wOwned = ids, wCount = m\<rparr> \<subseteq> open_rows w" if "ids = wOwned w" for ids m
    using open_rows_effects(2) [OF later_on(1,3) h(3)] es(1) that by (simp add: open_rows_def)
qed

text \<open>What a committed step of the worker does.\<close>

lemma step_ok:
  assumes "world_ok uc tz s ev w" "ds = evOthers ev n (wStates w)" "d0 \<in> set ds" "d' = hd ds \<or> worker_step uc tz d0 (hd ds) d'"
  shows "history uc tz s (if d' = hd ds then ds else d' # ds)" "effects (hd ds) d'"
    "hd (if d' = hd ds then ds else d' # ds) = d'"
proof -
  note o = others_ok [OF assms(1,2)]
  have s: "worker_step uc tz d0 (hd ds) d'" if "d' \<noteq> hd ds" using assms(4) that by blast
  show "history uc tz s (if d' = hd ds then ds else d' # ds)"
    using o(1,2) s assms(3) by (cases ds) (auto intro: history.step simp: store_step_def)
  have "rows_ok d0" using history_effects [OF o(1)] assms(1,3) by (simp add: world_ok_def)
  then show "effects (hd ds) d'" using assms(4) worker_step_effects o(3) by blast
  show "hd (if d' = hd ds then ds else d' # ds) = d'" by simp
qed

lemma transaction_cases:
  assumes "transaction fault f d = (c, r)"
  shows "(\<forall>d' x. c = Some (d', x) \<longrightarrow> f d = Inr (d', x))"
    "(\<exists>e. r = Inl (Service e) \<and> c = None) \<or> (\<exists>e. r = Inl e \<and> (fault = Refused e \<or> fault = Lost e) \<and> (fault = Refused e \<longrightarrow> c = None)) \<or>
     (\<exists>d' x. r = Inr x \<and> c = Some (d', x))"
  using assms by (auto simp: transaction_def split: fault.splits sum.splits prod.splits)

lemma change_op_ok:
  assumes w: "world_ok uc tz s ev w" and op: "change_op ev f w = (w', r)"
    and step: "\<And>n d0 d d' x. f n d0 d = Inr (d', x) \<Longrightarrow> d' = d \<or> worker_step uc tz d0 d d'"
  shows "world_ok uc tz s ev w' \<and> wOwned w' = wOwned w \<and> open_rows w' \<subseteq> open_rows w \<and> not_safe r"
proof -
  let ?n = "wCount w" and ?ds = "evOthers ev (wCount w) (wStates w)"
  let ?d0 = "?ds ! (evBefore ev ?n mod length ?ds)"
  note o = others_ok [OF w, of ?ds ?n, OF refl]
  have d0: "?d0 \<in> set ?ds" using o(2) by (simp add: nth_mem)
  obtain c where c: "transaction (evFault ev ?n) (f ?n ?d0) (hd ?ds) = (c, r)" "w' = committed (\<lambda>_. {}) c ?ds (wOwned w) ?n"
    using op by (auto simp: change_op_def store_op_def Let_def split: prod.splits)
  note t = transaction_cases [OF c(1)]
  have safe: "not_safe r"
    using t(2) w by (auto simp: not_safe_def world_ok_def honest_def uncertain_def) 
  show ?thesis
  proof (cases c)
    case None
    then show ?thesis using c(2) o w safe by (simp add: committed_def world_ok_def)
  next
    case (Some p)
    obtain d' x where p: "p = (d', x)" by (cases p)
    with Some t(1) step have st: "d' = hd ?ds \<or> worker_step uc tz ?d0 (hd ?ds) d'" by blast
    note k = step_ok [OF w, of ?ds ?n, OF refl d0 st]
    note e = open_rows_effects [OF k(2) o(3,4)]
    have w': "w' = \<lparr>wStates = (if d' = hd ?ds then ?ds else d' # ?ds), wOwned = wOwned w, wCount = ?n + 1\<rparr>"
      using c(2) Some p by (simp add: committed_def)
    have "world_ok uc tz s ev w'" using w k(1) e(1) o(4) unfolding w' by (simp add: world_ok_def)
    moreover have "open_rows w' \<subseteq> open_rows w"
      using e(2) o(5) [OF refl, of 0] k(3) unfolding w' open_rows_def by (simp add: open_rows_def) blast
    ultimately show ?thesis using safe w' by simp
  qed
qed

section \<open>The contract on the store\<close>

lemma read_op_ok:
  assumes "world_ok uc tz s ev w" "read_op ev f w = (w', r)"
  shows "world_ok uc tz s ev w' \<and> wOwned w' = wOwned w \<and> open_rows w' \<subseteq> open_rows w \<and> not_safe r"
  using change_op_ok [OF assms(1) assms(2) [unfolded read_op_def]] by auto

lemma env_op_ok:
  assumes "world_ok uc tz s ev w" "env_op ev f w = (w', x)"
  shows "world_ok uc tz s ev w' \<and> wOwned w' = wOwned w \<and> open_rows w' \<subseteq> open_rows w \<and> x = f (wCount w)"
  using others_ok [OF assms(1), of "evOthers ev (wCount w) (wStates w)" "wCount w", OF refl] assms by (auto simp: env_op_def world_ok_def)

lemma ready_op_ok:
  assumes "world_ok uc tz s ev w" "ready_op ev w = (w', r)"
  shows "world_ok uc tz s ev w' \<and> wOwned w' = wOwned w \<and> open_rows w' \<subseteq> open_rows w \<and> not_safe r"
proof -
  obtain w1 x where e: "env_op ev (evReady ev) w = (w1, x)" by (cases "env_op ev (evReady ev) w")
  have "x \<noteq> Some (Safe c)" for c using env_op_ok [OF assms(1) e] assms(1) by (simp add: world_ok_def honest_def)
  with env_op_ok [OF assms(1) e] assms(2) e show ?thesis by (auto simp: ready_op_def not_safe_def split: option.splits)
qed

text \<open>A settlement that is answered leaves its attempt settled.\<close>

lemma settled_row:
  assumes "settle_generation t outcome q c d = Inr (d', ok)" "rows_ok d"
  shows "\<exists>a. attempt_row d' (aID t) = Some a \<and> aStatus a \<noteq> AttemptReserved"
  using assms
proof (cases rule: settle_generation_cases)
  case (repeated o1 b)
  have "aID b = aID t" using repeated(4) by (simp add: same_reservation_def)
  then have "attempt_row d' (aID t) = Some b"
    using repeated(1,3) assms(2) find_key [of aID "attempts d" "aID t" b] by (auto simp: attempt_row_def rows_ok_def)
  with repeated(5) show ?thesis by blast
next
  case (settled o1 b)
  let ?a = "settle_fields o1 q (generation_instant c) t"
  have a: "aID ?a = aID b" "aStatus ?a \<noteq> AttemptReserved"
    using attempt_transition_final [OF settled(6)] by (simp_all add: same_reservation_def)
  have b: "aID b = aID t" using settled(3) by (simp add: same_reservation_def)
  have "attempt_row d (aID t) = Some b"
    using settled(2) b assms(2) find_key [of aID "attempts d" "aID t" b] by (auto simp: attempt_row_def rows_ok_def)
  then have "attempt_row d' (aID t) = Some ?a"
    using a(1) b find_replace [of aID "aID t" ?a "attempts d"]
    unfolding settled(7) attempt_row_def replace_attempt_def by simp
  with a(2) show ?thesis by blast
qed

lemma settle_op_ok:
  assumes w: "world_ok uc tz s ev w" and op: "esSettle (pg_store uc tz ev) t outcome q w = (w', r)"
  shows "(\<forall>ok. r = Inr ok \<longrightarrow> aID t \<notin> open_rows w')"
proof -
  let ?n = "wCount w" and ?ds = "evOthers ev (wCount w) (wStates w)"
  let ?f = "\<lambda>n _ d. settle_generation t outcome q (evClock ev n 0) d"
  have op': "change_op ev ?f w = (w', r)" using op by (simp add: pg_store_def)
  have "aID t \<notin> open_rows w'" if ok: "r = Inr ok" for ok
  proof -
    obtain c where c: "transaction (evFault ev ?n) (?f ?n (?ds ! (evBefore ev ?n mod length ?ds))) (hd ?ds) = (c, r)"
        "w' = committed (\<lambda>_. {}) c ?ds (wOwned w) ?n"
      using op' by (auto simp: change_op_def store_op_def Let_def split: prod.splits)
    obtain d' where d': "c = Some (d', ok)" using transaction_cases(2) [OF c(1)] ok by auto
    then have "settle_generation t outcome q (evClock ev ?n 0) (hd ?ds) = Inr (d', ok)" using transaction_cases(1) [OF c(1)] by simp
    from settled_row [OF this others_ok(3) [OF w refl]] d' c(2) show ?thesis
      by (auto simp: committed_def open_rows_def split: if_splits)
  qed
  then show ?thesis by blast
qed

lemma reserve_op_ok:
  assumes w: "world_ok uc tz s ev w" and op: "esReserve (pg_store uc tz ev) i v input w = (w', r)"
  shows "world_ok uc tz s ev w' \<and> not_safe r \<and>
      (case r of
         Inr (Some t, why) \<Rightarrow> aID t \<notin> wOwned w \<and> wOwned w' = insert (aID t) (wOwned w) \<and> open_rows w' \<subseteq> insert (aID t) (open_rows w)
       | Inr (None, why) \<Rightarrow> wOwned w' = wOwned w \<and> open_rows w' \<subseteq> open_rows w
       | Inl e \<Rightarrow> wOwned w' = wOwned w \<and> open_rows w' \<subseteq> open_rows w \<or> uncertain e \<and> wOwned w \<subseteq> wOwned w')"
proof -
  let ?n = "wCount w" and ?ds = "evOthers ev (wCount w) (wStates w)"
  let ?d0 = "?ds ! (evBefore ev ?n mod length ?ds)"
  let ?f = "\<lambda>n d0 d. reserve_generation uc tz (evID ev n 0) d0 (evClock ev n 0) (evClock ev n 1) (evClock ev n 2) i v input d"
  note o = others_ok [OF w, of ?ds ?n, OF refl]
  have d0: "?d0 \<in> set ?ds" using o(2) by (simp add: nth_mem)
  obtain c where c: "transaction (evFault ev ?n) (?f ?n ?d0) (hd ?ds) = (c, r)" "w' = committed own_attempt c ?ds (wOwned w) ?n"
    using op by (auto simp: pg_store_def store_op_def Let_def split: prod.splits)
  note t = transaction_cases [OF c(1)]
  have safe: "not_safe r" and transient: "\<And>e. r = Inl e \<Longrightarrow> c \<noteq> None \<Longrightarrow> uncertain e"
    using t(2) w by (auto simp: not_safe_def world_ok_def honest_def uncertain_def)
  show ?thesis
  proof (cases c)
    case None
    with t(2) have "\<exists>e. r = Inl e" by auto
    then show ?thesis using c(2) o w safe None by (auto simp: committed_def world_ok_def)
  next
    case (Some p)
    obtain d' a where p: "c = Some (d', a)" using Some by (cases p) simp
    with t(1) have f: "?f ?n ?d0 (hd ?ds) = Inr (d', a)" by blast
    then have st: "d' = hd ?ds \<or> worker_step uc tz ?d0 (hd ?ds) d'" by (blast intro: worker_step.reserve)
    note k = step_ok [OF w, of ?ds ?n, OF refl d0 st]
    note e = open_rows_effects [OF k(2) o(3,4)]
    note res = reserve_generation_cases [OF f o(3)]
    obtain D where D: "D = (if d' = hd ?ds then ?ds else d' # ?ds)" by blast
    have w': "w' = \<lparr>wStates = D, wOwned = own_attempt a \<union> wOwned w, wCount = ?n + 1\<rparr>"
      using c(2) p unfolding D by (simp add: committed_def)
    have hd: "hd D = d'" unfolding D by (rule k(3))
    have hist: "history uc tz s D" unfolding D by (rule k(1))
    have fin: "finite (own_attempt a)" by (simp add: own_attempt_def split: option.split)
    have new: "attempt_row (hd ?ds) (aID t) = None \<and> attempt_row d' (aID t) = Some t"
      if "fst a = Some t" for t
    proof -
      have r: "reservable (hd ?ds) t" "d' = hd ?ds\<lparr>attempts := attempts (hd ?ds) @ [t]\<rparr>" using res that by blast+
      have none: "attempt_row (hd ?ds) (aID t) = None" using r(1) by (simp add: reservable_def attempt_row_def find_key_None)
      then show ?thesis using r(2) by (simp add: attempt_row_def find_append)
    qed
    have rows: "\<forall>i \<in> own_attempt a \<union> wOwned w. attempt_row d' i \<noteq> None"
      using e(1) new by (auto simp: own_attempt_def split: option.splits)
    have ok: "world_ok uc tz s ev w'"
      using w hist rows hd fin unfolding w' by (simp add: world_ok_def)
    have opened: "open_rows w' \<subseteq> own_attempt a \<union> open_rows w"
      using e(2) o(5) [OF refl, of 0] hd unfolding w' open_rows_def by auto
    show ?thesis
    proof (cases r)
      case (Inl er)
      with transient Some have "uncertain er" by simp
      then show ?thesis using ok safe Inl w' by auto
    next
      case (Inr x)
      with t(2) p have x: "x = a" by auto
      have "aID u \<notin> wOwned w" if "fst a = Some u" for u using new [OF that] o(4) by auto
      then show ?thesis using ok safe opened Inr x w' by (cases a) (auto simp: own_attempt_def split: option.splits)
    qed
  qed
qed

lemma quiet_change:
  assumes "\<And>n d0 d d' x. f n d0 d = Inr (d', x) \<Longrightarrow> worker_step uc tz d0 d d'"
  shows "quiet (world_ok uc tz s ev) wOwned open_rows (change_op ev f)"
proof -
  have "world_ok uc tz s ev w' \<and> wOwned w' = wOwned w \<and> open_rows w' \<subseteq> open_rows w \<and> not_safe r"
    if "world_ok uc tz s ev w" "change_op ev f w = (w', r)" for w w' r
    using that by (rule change_op_ok) (rule disjI2, erule assms)
  then show ?thesis unfolding quiet_def quiet_env_def by blast
qed

lemma quiet_read: "quiet (world_ok uc tz s ev) wOwned open_rows (read_op ev f)"
  unfolding quiet_def quiet_env_def using read_op_ok by blast

lemma quiet_ready: "quiet (world_ok uc tz s ev) wOwned open_rows (ready_op ev)"
  unfolding quiet_def quiet_env_def using ready_op_ok by blast

lemma quiet_answer: "quiet_env (world_ok uc tz s ev) wOwned open_rows (env_op ev f)"
  unfolding quiet_env_def by (intro allI impI) (drule (1) env_op_ok, simp)

lemma pg_quiet:
  "quiet (world_ok uc tz s ev) wOwned open_rows (esReady (pg_store uc tz ev))"
  "quiet (world_ok uc tz s ev) wOwned open_rows (esRecover (pg_store uc tz ev))"
  "quiet (world_ok uc tz s ev) wOwned open_rows (esExpire (pg_store uc tz ev))"
  "quiet (world_ok uc tz s ev) wOwned open_rows (esClaim (pg_store uc tz ev))"
  "quiet (world_ok uc tz s ev) wOwned open_rows (esLatest (pg_store uc tz ev) i)"
  "quiet (world_ok uc tz s ev) wOwned open_rows (esContext (pg_store uc tz ev) i v)"
  "quiet (world_ok uc tz s ev) wOwned open_rows (esRenew (pg_store uc tz ev) i v)"
  "quiet (world_ok uc tz s ev) wOwned open_rows (esSettle (pg_store uc tz ev) t outcome q)"
  "quiet (world_ok uc tz s ev) wOwned open_rows (esComplete (pg_store uc tz ev) i v k jit)"
  "quiet (world_ok uc tz s ev) wOwned open_rows (esPublish (pg_store uc tz ev) i v k result)"
  "quiet (world_ok uc tz s ev) wOwned open_rows (esDeny (pg_store uc tz ev) i v reason)"
  by (simp_all only: pg_store_def execution_store.simps)
     (rule quiet_ready | rule quiet_read | (rule quiet_change, erule worker_step.intros))+

lemma pg_env_quiet:
  "quiet_env (world_ok uc tz s ev) wOwned open_rows (enErr (pg_env ev))"
  "quiet_env (world_ok uc tz s ev) wOwned open_rows (enJitter (pg_env ev))"
  "quiet_env (world_ok uc tz s ev) wOwned open_rows (enRenewEnded (pg_env ev))"
  "quiet_env (world_ok uc tz s ev) wOwned open_rows (enTicks (pg_env ev) job input)"
  "quiet_env (world_ok uc tz s ev) wOwned open_rows (enProvider (pg_env ev) job input lost)"
  by (simp_all add: pg_env_def quiet_answer)

interpretation pass: settling_store "pg_store uc tz ev" "pg_env ev" "world_ok uc tz s ev" wOwned open_rows
  for uc tz s ev
proof (unfold_locales)
  show "aID t \<notin> open_rows w'"
    if "world_ok uc tz s ev w" "esSettle (pg_store uc tz ev) t outcome q w = (w', Inr ok)" for w t outcome q w' ok
    using settle_op_ok [OF that] by simp
  show "world_ok uc tz s ev w' \<and> not_safe l \<and>
      (case l of
         Inl e \<Rightarrow> wOwned w' = wOwned w \<and> open_rows w' \<subseteq> open_rows w \<or> uncertain e \<and> wOwned w \<subseteq> wOwned w'
       | Inr (None, why) \<Rightarrow> wOwned w' = wOwned w \<and> open_rows w' \<subseteq> open_rows w
       | Inr (Some t, why) \<Rightarrow> aID t \<notin> wOwned w \<and> wOwned w' = insert (aID t) (wOwned w) \<and> open_rows w' \<subseteq> insert (aID t) (open_rows w))"
    if "world_ok uc tz s ev w" "esReserve (pg_store uc tz ev) i v input w = (w', l)" for w i v input w' l
    using that by (rule reserve_op_ok)
  show "finite (wOwned w)" if "world_ok uc tz s ev w" for w
    using that by (simp add: world_ok_def)
qed (rule pg_quiet pg_env_quiet)+

section \<open>A pass at work\<close>

text \<open>A pass that claims the sample job and finds its lease lapsed when it reads the context.\<close>

definition sample_env :: pass_env where
  "sample_env = \<lparr>evOthers = (\<lambda>_ ds. ds), evFault = (\<lambda>_. NoFault), evReady = (\<lambda>_. None), evBefore = (\<lambda>_. 0),
     evClock = (\<lambda>n _. if n = 7 then 100 * second else 2000000), evClocks = (\<lambda>_. []), evLocked = (\<lambda>_ _. False),
     evID = (\<lambda>_ _. sample_id CHR ''7''), evDraws = (\<lambda>_. []), evEnded = (\<lambda>_. None), evRenewEnded = (\<lambda>_. False),
     evJitter = (\<lambda>_. 0), evTicks = (\<lambda>_. 0), evAnswer = (\<lambda>_. (failed_outcome GenerationTransient, False, False))\<rparr>"

definition sample_world :: "db list \<Rightarrow> nat \<Rightarrow> world" where
  "sample_world ds n = \<lparr>wStates = ds, wOwned = {}, wCount = n\<rparr>"

definition sample_states :: "db list" where
  "sample_states = [state3, state2, state1, empty_db]"

lemma sample_honest: "honest uc tz empty_db sample_env"
  by (simp add: honest_def sample_env_def)

lemma sample_states_history: "history uc tz empty_db sample_states"
  unfolding sample_states_def using state1_step state2_step state3_step
  by (blast intro: history.start history.step [where ?d0.0 = empty_db] list.set_intros store_step_def [THEN iffD2])

lemma sample_world_ok: "world_ok uc tz empty_db sample_env (sample_world sample_states 0)"
  using sample_honest sample_states_history
  by (simp add: world_ok_def sample_world_def rows_ok_def empty_db_def)

lemma sample_answers [simp]:
  "enErr (pg_env sample_env) (sample_world ds n) = (sample_world ds (Suc n), None)"
  "esReady (pg_store uc tz sample_env) (sample_world ds n) = (sample_world ds (Suc n), Inr ())"
  by (simp_all add: pg_env_def pg_store_def ready_op_def env_op_def sample_env_def sample_world_def)

lemma sample_change:
  "change_op sample_env f (sample_world (d # ds) n) =
     (case f n ((d # ds) ! 0) d of
        Inl e \<Rightarrow> (sample_world (d # ds) (Suc n), Inl (Service e))
      | Inr (d', x) \<Rightarrow> (sample_world (if d' = d then d # ds else d' # d # ds) (Suc n), Inr x))"
  by (simp add: change_op_def store_op_def transaction_def committed_def sample_env_def sample_world_def split: sum.split prod.split)

lemma sample_idle: "claim_generation (\<lambda>_. False) 2000000 2000000 state4 = Inr (state4, None)"
  by (simp add: claim_generation_def claimable_def state_defs plan_claimed_def plan_def generation_instant_def lease_duration_def)

lemma sample_idle_probes:
  "7 < n \<Longrightarrow> probe_loop (pg_store uc tz sample_env) (pg_env sample_env) k ((sample_world (state4 # ds) n, m)) =
     ((sample_world (state4 # ds) (n + 2 * k + 1), m\<lparr>smProbes := smProbes m + int k\<rparr>), Inr ())"
proof (induction k arbitrary: n m)
  case 0
  then show ?case by (simp add: check_context_def bind_op_def attempt_op_def ask_def return_op_def)
next
  case (Suc k)
  have "esClaim (pg_store uc tz sample_env) (sample_world (state4 # ds) (Suc n)) = (sample_world (state4 # ds) (Suc (Suc n)), Inr None)"
    using Suc.prems sample_idle by (simp add: pg_store_def sample_change) (simp add: sample_env_def)
  then show ?case
    using Suc.IH [of "Suc (Suc n)"] Suc.prems
    by (simp add: check_context_def bind_op_def attempt_op_def ask_def return_op_def tally_def on_store_def)
qed

lemma sample_first_probe:
  "probe_loop (pg_store uc tz sample_env) (pg_env sample_env) 8 ((sample_world sample_states 4, m)) =
     ((sample_world (state4 # sample_states) 23, m\<lparr>smProbes := smProbes m + 8, smClaimed := smClaimed m + 1, smDenied := smDenied m + 1\<rparr>), Inr ())"
proof -
  let ?es = "pg_store uc tz sample_env" and ?en = "pg_env sample_env"
  have new: "state4 \<noteq> state3" by (simp add: state_defs plan_claimed_def plan_def)
  have claim: "esClaim ?es (sample_world sample_states 5) = (sample_world (state4 # sample_states) 6, Inr (Some plan_claimed))"
    using state3_claim new by (simp add: pg_store_def sample_states_def sample_change) (simp add: sample_env_def)
  have latest: "esLatest ?es i (sample_world (state4 # sample_states) 6) = (sample_world (state4 # sample_states) 7, Inr None)" for i
    by (simp add: pg_store_def read_op_def sample_change latest_attempt_def) (simp add: state_defs)
  have "generation_context uc (100 * second) (100 * second) (jID plan_claimed) (jLeaseVersion plan_claimed) state4 = Inl ErrConflict"
  proof -
    have "job_by_id state4 (jID plan_claimed) = Inr plan_claimed" using job_by_id_state(2) by (simp add: plan_claimed_def plan_def)
    moreover obtain e where "validate_lease plan_claimed (jLeaseVersion plan_claimed) (100 * second) = Some e"
      using validate_lease_iff [of plan_claimed "jLeaseVersion plan_claimed" "100 * second"]
      by (cases "validate_lease plan_claimed (jLeaseVersion plan_claimed) (100 * second)") (auto simp: plan_claimed_def lease_duration_def)
    ultimately show ?thesis by (simp add: generation_context_def context_lease_def generation_instant_def ensure_def)
  qed
  then have snapshot: "esContext ?es (jID plan_claimed) (jLeaseVersion plan_claimed) (sample_world (state4 # sample_states) 7) =
      (sample_world (state4 # sample_states) 8, Inl (Service ErrConflict))"
    by (simp add: pg_store_def read_op_def sample_change) (simp add: sample_env_def)
  have job: "execute_job ?es ?en plan_claimed (sample_world (state4 # sample_states) 6, m') =
      ((sample_world (state4 # sample_states) 8, count_denied m'), Inr ())" for m'
    by (simp add: execute_job_def bind_op_def attempt_op_def on_store_def latest reserve_and_call_def snapshot rejection_def tally_def)
  have eight: "(8 :: nat) = Suc 7" by simp
  show ?thesis unfolding eight probe_loop.simps(2)
    by (simp add: check_context_def bind_op_def attempt_op_def ask_def return_op_def tally_def on_store_def claim job sample_idle_probes count_denied_def)
qed

lemma sample_pass:
  "execute (pg_store uc tz sample_env) (pg_env sample_env) (sample_world sample_states 0) =
     (sample_world (state4 # sample_states) 23, empty_summary\<lparr>smProbes := 8, smClaimed := 1, smDenied := 1\<rparr>, None)"
proof -
  let ?es = "pg_store uc tz sample_env" and ?en = "pg_env sample_env"
  have recover: "esRecover ?es (sample_world sample_states n) = (sample_world sample_states (Suc n), Inr 0)" for n
    by (simp add: pg_store_def sample_states_def sample_change recover_attempts_def) (simp add: state_defs)
  have expire: "esExpire ?es (sample_world sample_states (Suc (Suc (Suc 0)))) = (sample_world sample_states 4, Inr 0)"
  proof -
    have "expire_jobs (\<lambda>_. False) 2000000 2000000 state3 = Inr (state3, 0)"
      by (simp add: expire_jobs_def state3_def plan_def generation_instant_def)
    then show ?thesis
      by (simp add: pg_store_def sample_states_def sample_change) (simp add: sample_env_def eval_nat_numeral)
  qed
  show ?thesis
    by (simp add: execute_def run_pass_def check_context_def bind_op_def attempt_op_def ask_def return_op_def tally_def on_store_def recover expire
        max_claim_probes_def sample_first_probe empty_summary_def)
qed

section \<open>Properties\<close>

text \<open>
  C22: A pass of the worker that ends, or stops at a recorded provider outcome, leaves no reservation of its own open: every attempt it
  reserved is settled in the database, whatever other processes do in between, however the provider answers and however
  often leases are lost.  Only a storage failure or a stop can leave one to the recovery of a later pass.
\<close>

theorem pass_settles:
  assumes "world_ok uc tz s ev w" "execute (pg_store uc tz ev) (pg_env ev) w = (w', m, result)"
    "result \<notin> {Some ExecutionStorage, Some ExecutionStopped}"
  shows "\<forall>i \<in> wOwned w' - wOwned w. \<exists>a. attempt_row (hd (wStates w')) i = Some a \<and> aStatus a \<noteq> AttemptReserved"
proof
  fix i assume i: "i \<in> wOwned w' - wOwned w"
  note e = pass.execute_settles [OF assms(1,2)]
  have "open_rows w' \<subseteq> open_rows w" using e assms(3) by simp
  then have "i \<notin> open_rows w'" using i by (auto simp: open_rows_def)
  moreover have "attempt_row (hd (wStates w')) i \<noteq> None" using e i by (auto simp: world_ok_def)
  ultimately show "\<exists>a. attempt_row (hd (wStates w')) i = Some a \<and> aStatus a \<noteq> AttemptReserved"
    using i by (auto simp: open_rows_def)
qed

theorem pass_settles_witness:
  "{i \<in> wOwned (sample_world (state4 # sample_states) 23) - wOwned (sample_world sample_states 0).
     \<not> (\<exists>a. attempt_row (hd (wStates (sample_world (state4 # sample_states) 23))) i = Some a \<and> aStatus a \<noteq> AttemptReserved)} = {}"
  using pass_settles [OF sample_world_ok sample_pass] by (simp del: ex_simps) blast

text \<open>
  A pass performs at most eight probes; each claims at most one job, each claimed job is sent to the provider at most once, and
  at most every call succeeds.
\<close>

theorem pass_bounds:
  "case execute es en s of (_, m, _) \<Rightarrow>
     0 \<le> smCallsSucceeded m \<and> smCallsSucceeded m \<le> smCalls m \<and> smCalls m \<le> smClaimed m \<and> smClaimed m \<le> smProbes m \<and> smProbes m \<le> 8"
proof -
  obtain s1 m1 r where r: "run_pass es en (s, empty_summary) = ((s1, m1), r)" by (metis prod.collapse)
  have b: "probes_between 8 0 empty_summary m1" using countsD [OF counts_pass r] by simp
  have "fst (snd (execute es en s)) = m1"
    by (simp add: execute_def r split: sum.split exec_error.split prod.split)
  with b show ?thesis by (simp add: probes_between_def empty_summary_def prod.case_eq_if)
qed

text \<open>
  C23: A pass is a part of the history of the service: it only takes the steps of the store's operations, so every state it passes
  through keeps the spending limits; and each provider call it makes is covered by a reservation that
  it committed before and nobody else owned.
\<close>

theorem pass_refines_history:
  assumes "world_ok uc tz s ev w" "ledger s" "execute (pg_store uc tz ev) (pg_env ev) w = (w', m, result)"
  shows "history uc tz s (wStates w') \<and> (\<forall>d \<in> set (wStates w'). ledger d) \<and> wOwned w \<subseteq> wOwned w' \<and>
    smCalls m \<le> int (card (wOwned w' - wOwned w))"
proof -
  note e = pass.execute_settles [OF assms(1,3)]
  have h: "history uc tz s (wStates w')" "rows_ok s" using e by (simp_all add: world_ok_def)
  have "finite (wOwned w)" using assms(1) by (simp add: world_ok_def)
  then have "card (wOwned w' - wOwned w) = card (wOwned w') - card (wOwned w)" using e by (simp add: card_Diff_subset)
  then show ?thesis using e h ledger.in_history [OF h(1,2) assms(2)] by auto
qed

theorem pass_refines_history_witness:
  "history ascii_unicode sample_tz empty_db (state4 # sample_states) \<and> ledger state4 \<and>
     smCalls (empty_summary\<lparr>smProbes := 8, smClaimed := 1, smDenied := 1\<rparr>) \<le>
       int (card (wOwned (sample_world (state4 # sample_states) 23) - wOwned (sample_world sample_states 0)))"
  using pass_refines_history [OF sample_world_ok ledger_empty [THEN conjunct1] sample_pass, of ascii_unicode sample_tz]
  unfolding sample_world_def world.simps by simp

text \<open>
  C28: The context given to a provider belongs to a job whose lease holds, stays within 24 KiB with its instructions, and is the
  builder's result on the public snapshot with the longest newest part of the optional history that fits: only the
  oldest entries are ever dropped, and none without need.
\<close>

theorem context_keeps_newest:
  assumes "generation_context uc c1 c2 i v d = Inr built"
  shows "\<exists>job persona actor items n.
    job_by_id d i = Inr job \<and> validate_lease job v (generation_instant c2) = None \<and> source_valid d job = Inr True \<and>
    context_items uc d (context_keys d job) = Inr items \<and> n \<le> length (optional_items items) \<and>
    build_generation_context uc job persona (with_history (public_context actor items) (drop n (optional_items items))) = Inr built \<and>
    (\<forall>k < n. \<exists>e. build_generation_context uc job persona (with_history (public_context actor items) (drop k (optional_items items))) = Inl e) \<and>
    context_matches built job \<and> length (gcPublicJSON built) + length (gcInstructions built) \<le> MaxGenerationContextBytes"
proof (rule generation_context_cases [OF assms])
  fix job persona actor items
  assume r: "job_by_id d i = Inr job" "validate_lease job v (generation_instant c2) = None" "source_valid d job = Inr True"
    "context_items uc d (context_keys d job) = Inr items"
    "trim_history (build_generation_context uc job persona) (public_context actor items) (optional_items items) = Inr built"
  from trim_history_longest [OF r(5)] obtain n where n: "n \<le> length (optional_items items)"
    "build_generation_context uc job persona (with_history (public_context actor items) (drop n (optional_items items))) = Inr built"
    "\<forall>k < n. \<exists>e. build_generation_context uc job persona (with_history (public_context actor items) (drop k (optional_items items))) = Inl e"
    by blast
  with build_context_matches [OF n(2)] r show ?thesis by blast
qed

definition sample_context :: GenerationContext where
  "sample_context = \<lparr>gcJobID = sample_id CHR ''1'', gcAgentID = sample_id CHR ''2'', gcPersonaVersion = 1,
     gcTriggerKind = TriggerScheduled, gcSourcePostID = [], gcSourceReplyID = [], gcSourceRepostID = [],
     gcInstructions = ''Kindly'', gcPublicJSON = json_public ''none'' (public_context None []), gcKind = OutputPost\<rparr>"

lemma sample_context_read: "generation_context uc 3000000 3000000 (sample_id CHR ''1'') 1 state4 = Inr sample_context"
proof -
  have j: "job_by_id state4 (sample_id CHR ''1'') = Inr plan_claimed" by (rule job_by_id_state)
  have l: "validate_lease plan_claimed 1 3000000 = None"
    by (simp add: validate_lease_iff plan_claimed_def plan_def lease_duration_def)
  have p: "execution_persona uc state4 plan_claimed = Inr bot_persona"
    using bot_persona_valid [of uc]
    by (simp add: execution_persona_def persona_by_key_def state_defs plan_claimed_def plan_def) (simp add: bot_persona_def)
  have k: "context_keys state4 plan_claimed = []"
    by (simp add: context_keys_def source_key_def trigger_key_def reply_keys_def recent_keys_def newest_keys_def state_defs plan_claimed_def plan_def)
  have s: "source_valid state4 plan_claimed = Inr True"
    using plan_claimed_valid by (simp add: source_valid_def) (simp add: plan_claimed_def plan_def)
  have a: "repost_actor state4 plan_claimed = Inr None" by (simp add: repost_actor_def plan_claimed_def plan_def)
  have n: "length (json_public ''none'' (public_context None [])) \<le> 200" by code_simp
  have b: "build_generation_context uc plan_claimed bot_persona (public_context None []) = Inr sample_context"
    using n plan_claimed_valid bot_persona_valid [of uc]
    by (simp add: build_generation_context_def context_shape_bad_def normalize_source_def normalize_trigger_def normalize_actor_def
        public_context_def pinned_item_def section_items_def context_interaction_def Let_def sample_context_def MaxGenerationContextBytes_def
        context_id_def)
       (simp add: plan_claimed_def plan_def bot_persona_def public_context_def pinned_item_def section_items_def)
  show ?thesis
    by (simp add: generation_context_def j context_lease_def generation_instant_def l s p a k b optional_items_def trim_history.simps Let_def)
qed

theorem context_keeps_newest_witness:
  "\<exists>job persona actor items n.
    job_by_id state4 (sample_id CHR ''1'') = Inr job \<and> validate_lease job 1 (generation_instant 3000000) = None \<and> source_valid state4 job = Inr True \<and>
    context_items ascii_unicode state4 (context_keys state4 job) = Inr items \<and> n \<le> length (optional_items items) \<and>
    build_generation_context ascii_unicode job persona (with_history (public_context actor items) (drop n (optional_items items))) = Inr sample_context \<and>
    (\<forall>k < n. \<exists>e. build_generation_context ascii_unicode job persona (with_history (public_context actor items) (drop k (optional_items items))) = Inl e) \<and>
    context_matches sample_context job \<and> length (gcPublicJSON sample_context) + length (gcInstructions sample_context) \<le> MaxGenerationContextBytes"
  by (rule context_keeps_newest [OF sample_context_read])

end
