(* ===== verification/Paging.thy ===== *)
theory Paging
  imports Main
begin

text \<open>
  Keyset pagination, as every listing of the service does it: the rows after a position in a strict order, one more than
  the limit is read, and the key of the last row returned is the next position when there was one more.  A client
  that follows the positions over an unchanging table reads every row exactly once, in order.
\<close>

definition after_position :: "('k \<Rightarrow> 'k \<Rightarrow> bool) \<Rightarrow> ('r \<Rightarrow> 'k) \<Rightarrow> 'k option \<Rightarrow> 'r list \<Rightarrow> 'r list" where
  "after_position before key position rows =
     (case position of None \<Rightarrow> rows | Some p \<Rightarrow> filter (\<lambda>r. before p (key r)) rows)"

text \<open>The page among the rows that were read: the limit and the position of its last row.\<close>

definition cut_page :: "('r \<Rightarrow> 'k) \<Rightarrow> nat \<Rightarrow> 'r list \<Rightarrow> 'r list \<times> 'k option" where
  "cut_page key n found =
     (if length found > n then (take n found, Some (key (last (take n found)))) else (found, None))"

definition keyset_page ::
  "('k \<Rightarrow> 'k \<Rightarrow> bool) \<Rightarrow> ('r \<Rightarrow> 'k) \<Rightarrow> nat \<Rightarrow> 'k option \<Rightarrow> 'r list \<Rightarrow> 'r list \<times> 'k option" where
  "keyset_page before key n position rows =
     cut_page key n (take (n + 1) (after_position before key position rows))"

text \<open>A client that follows the positions, at most \<open>k\<close> requests long; \<open>fetch\<close> is the listing.\<close>

fun follow_pages :: "('p option \<Rightarrow> 'r list \<times> 'p option) \<Rightarrow> nat \<Rightarrow> 'p option \<Rightarrow> 'r list \<times> 'p option" where
  "follow_pages fetch 0 position = ([], position)"
| "follow_pages fetch (Suc k) position =
     (case fetch position of
        (items, None) \<Rightarrow> (items, None)
      | (items, Some p) \<Rightarrow> (case follow_pages fetch k (Some p) of (rest, end_position) \<Rightarrow> (items @ rest, end_position)))"

section \<open>One page\<close>

lemma cut_page_short [simp]: "length found \<le> n \<Longrightarrow> cut_page key n found = (found, None)"
  by (simp add: cut_page_def)

lemma cut_page_length: "cut_page key n found = (items, next_position) \<Longrightarrow> length items \<le> n"
  by (auto simp: cut_page_def split: if_splits)

lemma cut_page_items: "cut_page key n found = (items, next_position) \<Longrightarrow> items = take n found"
  by (auto simp: cut_page_def split: if_splits)

lemma keyset_page_length: "keyset_page before key n position rows = (items, next_position) \<Longrightarrow> length items \<le> n"
  unfolding keyset_page_def by (rule cut_page_length)

lemma after_position_subset: "set (after_position before key position rows) \<subseteq> set rows"
  by (auto simp: after_position_def split: option.splits)

lemma keyset_page_subset: "keyset_page before key n position rows = (items, next_position) \<Longrightarrow> set items \<subseteq> set rows"
  unfolding keyset_page_def
  using cut_page_items [of key n _ items next_position] after_position_subset [of before key position rows]
  by (fastforce dest: in_set_takeD)

text \<open>Resuming after the key of a row of a strictly ordered list leaves what follows the row.\<close>

lemma filter_after_split:
  assumes "sorted_wrt (\<lambda>a b. before (key a) (key b)) (xs @ x # ys)" "asymp before" "irreflp before"
  shows "filter (\<lambda>r. before (key x) (key r)) (xs @ x # ys) = ys"
proof -
  have "\<not> before (key x) (key a)" if "a \<in> set xs" for a
    using assms(1,2) that by (auto simp: sorted_wrt_append dest: asympD)
  moreover have "before (key x) (key b)" if "b \<in> set ys" for b using assms(1) that by (simp add: sorted_wrt_append)
  moreover have "\<not> before (key x) (key x)" using assms(3) by (simp add: irreflp_def)
  ultimately show ?thesis by (simp add: filter_empty_conv)
qed

lemma after_last:
  assumes "sorted_wrt (\<lambda>a b. before (key a) (key b)) rows" "asymp before" "irreflp before" "transp before"
    "after_position before key position rows = found" "0 < n" "n \<le> length found"
  shows "after_position before key (Some (key (last (take n found)))) rows = drop n found"
proof -
  let ?x = "last (take n found)"
  have split: "found = take (n - 1) found @ ?x # drop n found"
    using assms(6,7) by (cases n) (simp_all add: take_Suc_conv_app_nth Cons_nth_drop_Suc)
  have "?x \<in> set found" using assms(6,7) by (metis in_set_takeD last_in_set length_greater_0_conv length_take min.absorb2)
  then have p: "p = None \<or> (\<exists>q. p = Some q \<and> before q (key ?x))" if "p = position" for p
    using assms(5) that by (auto simp: after_position_def split: option.splits)
  have "filter (\<lambda>r. before (key ?x) (key r)) rows = filter (\<lambda>r. before (key ?x) (key r)) found"
  proof (cases position)
    case None
    then show ?thesis using assms(5) by (simp add: after_position_def)
  next
    case (Some q)
    then have q: "before q (key ?x)" using p by auto
    have "found = filter (\<lambda>r. before q (key r)) rows" using assms(5) Some by (simp add: after_position_def)
    moreover have "before (key ?x) (key r) \<longleftrightarrow> before q (key r) \<and> before (key ?x) (key r)" for r
      using q assms(4) by (blast dest: transpD)
    ultimately show ?thesis by simp
  qed
  moreover have s: "sorted_wrt (\<lambda>a b. before (key a) (key b)) found"
    using assms(1,5) by (auto simp: after_position_def sorted_wrt_filter split: option.splits)
  moreover have "filter (\<lambda>r. before (key ?x) (key r)) found = drop n found"
    using s filter_after_split [of before key "take (n - 1) found" ?x "drop n found", OF _ assms(2,3)] unfolding split [symmetric] by blast
  ultimately show ?thesis by (simp add: after_position_def)
qed

section \<open>All pages\<close>

theorem follow_pages_all:
  assumes "sorted_wrt (\<lambda>a b. before (key a) (key b)) rows" "asymp before" "irreflp before" "transp before" "0 < n"
    "length (after_position before key position rows) < k * n \<or> length (after_position before key position rows) = 0 \<and> 0 < k"
  shows "follow_pages (\<lambda>p. keyset_page before key n p rows) k position = (after_position before key position rows, None)"
  using assms(6)
proof (induction k arbitrary: position)
  case (Suc k)
  let ?found = "after_position before key position rows"
  show ?case
  proof (cases "length ?found > n")
    case False
    then show ?thesis by (simp add: keyset_page_def)
  next
    case True
    have page: "keyset_page before key n position rows = (take n ?found, Some (key (last (take n ?found))))"
      using True by (simp add: keyset_page_def cut_page_def min_def take_take)
    have rest: "after_position before key (Some (key (last (take n ?found)))) rows = drop n ?found"
      using True assms(5) by (intro after_last [OF assms(1-4) refl]) simp_all
    have "length (drop n ?found) < k * n" using Suc.prems True by auto
    then show ?thesis using Suc.IH [of "Some (key (last (take n ?found)))"] rest page by simp
  qed
qed simp

text \<open>A listing that only translates positions and rows of another one is followed alike.\<close>

lemma follow_pages_map:
  assumes "\<And>p. p \<in> P \<Longrightarrow> fetch' (map_option f p) = (case fetch p of (xs, q) \<Rightarrow> (g xs, map_option f q))"
    "\<And>p xs q. p \<in> P \<Longrightarrow> fetch p = (xs, Some q) \<Longrightarrow> Some q \<in> P"
    "g [] = []" "\<And>xs ys. g (xs @ ys) = g xs @ g ys" "p \<in> P"
  shows "follow_pages fetch' k (map_option f p) = (case follow_pages fetch k p of (xs, q) \<Rightarrow> (g xs, map_option f q))"
  using assms(5)
proof (induction k arbitrary: p)
  case 0
  then show ?case using assms(3) by simp
next
  case (Suc k)
  obtain xs q where x: "fetch p = (xs, q)" by (cases "fetch p")
  show ?case
  proof (cases q)
    case None
    then show ?thesis using assms(1) [OF Suc.prems] x by simp
  next
    case (Some r)
    then have "Some r \<in> P" using assms(2) [OF Suc.prems] x by simp
    from Suc.IH [OF this] show ?thesis
      using assms(1) [OF Suc.prems] x Some assms(4) by (simp split: prod.split)
  qed
qed

text \<open>The next position is always the key of one of the rows.\<close>

lemma keyset_page_next:
  assumes "keyset_page before key n position rows = (items, Some q)" "0 < n"
  shows "q \<in> key ` set rows"
proof -
  let ?found = "take (n + 1) (after_position before key position rows)"
  have q: "q = key (last (take n ?found))" "length ?found > n"
    using assms(1) by (auto simp: keyset_page_def cut_page_def split: if_splits)
  then have "last (take n ?found) \<in> set ?found"
    using assms(2) by (metis in_set_takeD last_in_set length_greater_0_conv length_take min.absorb4)
  then show ?thesis using q(1) after_position_subset [of before key position rows] by (auto dest: in_set_takeD)
qed

end
