(* ===== verification/Reading.thy ===== *)
theory Reading
  imports Auth Paging
begin

text \<open>
  The read side of content (\<open>internal/postgres/content_read.go\<close>, \<open>bookmarks.go\<close>, types of
  \<open>internal/app/content.go\<close>): the projection of posts with tags, counts, viewer state and reply previews, the reply
  pages and the private bookmarks.  Each listing reads one snapshot \<open>d\<close>; \<open>c\<close> is its statement timestamp.
  The absent viewer and the unset ceiling are \<open>[]\<close> and \<open>0\<close>, as in the code.
\<close>

section \<open>Projections\<close>

datatype ContentAvailability = ContentAvailable | ContentDeleted

record QuotePost =
  quID :: ID
  quAvailability :: ContentAvailability
  quAuthor :: "Account option"
  quBody :: string

record ReactionCounts =
  rcUseful :: int
  rcAgree :: int
  rcBrilliant :: int
  rcSpicy :: int
  rcShip :: int

record PostCounts =
  pcReplies :: int
  pcReposts :: int
  pcReactionsTotal :: int
  pcReactions :: ReactionCounts

record Repost =
  rtID :: ID
  rtPostID :: ID
  rtAccountID :: ID
  rtCreatedAt :: time

record PostViewer =
  pvReaction :: "ReactionKind option"
  pvReposted :: bool
  pvBookmarked :: bool
  pvViewerRepost :: "Repost option"

record Reply =
  ryID :: ID
  ryPostID :: ID
  ryAuthor :: Account
  ryBody :: string
  ryIsGenerated :: bool
  ryCreatedAt :: time

record KeysetPosition =
  ksTimestamp :: time
  ksID :: ID

record ReplyPreview =
  rvItems :: "Reply list"
  rvNextPosition :: "KeysetPosition option"
  rvCeiling :: time

record Post =
  ptID :: ID
  ptAuthor :: Account
  ptContent :: Content
  ptQuote :: "QuotePost option"
  ptIsSpicy :: bool
  ptIsGenerated :: bool
  ptCreatedAt :: time
  ptCounts :: PostCounts
  ptViewer :: "PostViewer option"
  ptReplyPreview :: ReplyPreview

record ReplyPage =
  rgItems :: "Reply list"
  rgNextPosition :: "KeysetPosition option"
  rgCeiling :: time
  rgReplyTotal :: int

record PostPage =
  pgItems :: "Post list"
  pgNextPosition :: "KeysetPosition option"
  pgCeiling :: time

datatype ReplySort = ReplySortOldest | ReplySortNewest | ReplySortOther string

record ReadWindow =
  rwSort :: ReplySort
  rwLimit :: int
  rwPosition :: "KeysetPosition option"
  rwInitialCeiling :: time

definition DefaultReadLimit :: int where "DefaultReadLimit = 20"
definition MaxReadLimit :: int where "MaxReadLimit = 50"

section \<open>Hydration\<close>

definition generated_post :: "db \<Rightarrow> ID \<Rightarrow> bool" where
  "generated_post d i \<longleftrightarrow> list_ex (\<lambda>j. jResultPostID j = Some i \<and> jStatus j = JobSucceeded) (jobs d)"

definition generated_reply :: "db \<Rightarrow> ID \<Rightarrow> bool" where
  "generated_reply d i \<longleftrightarrow> list_ex (\<lambda>j. jResultReplyID j = Some i \<and> jStatus j = JobSucceeded) (jobs d)"

text \<open>An author that is missing from a left join reads as an account of zero values.\<close>

definition null_account :: Account where
  "null_account = \<lparr>acc_ID = [], acc_Type = AccountTypeOther [], Handle = [], DisplayName = [], Initials = [], Bio = [],
     RoleLabel = [], StatusText = [], Specialty = [], AppearanceKey = None, VerifiedAt = None, acc_CreatedAt = 0,
     acc_UpdatedAt = 0, DisabledAt = None\<rparr>"

definition quote_of :: "db \<Rightarrow> post_row \<Rightarrow> QuotePost option" where
  "quote_of d p =
     (case Option.bind (poQuotedPostID p) (post_by_id d) of
        None \<Rightarrow> None
      | Some q \<Rightarrow> Some
          (if poDeletedAt q \<noteq> None
           then \<lparr>quID = poID q, quAvailability = ContentDeleted, quAuthor = None, quBody = []\<rparr>
           else \<lparr>quID = poID q, quAvailability = ContentAvailable,
                  quAuthor = Some (case account_by_id d (poAuthorID q) of None \<Rightarrow> null_account | Some a \<Rightarrow> a),
                  quBody = poBody q\<rparr>))"

text \<open>\<open>hydrateTags\<close>: the stored display names of the tags that the body itself names, in the order of the body.\<close>

definition stored_tag :: "db \<Rightarrow> ID \<Rightarrow> string \<Rightarrow> tag_row option" where
  "stored_tag d post slug = find (\<lambda>t. trSlug t = slug \<and> (post, trID t) \<in> set (post_tags d)) (tags d)"

definition hydrate_tags :: "unicode \<Rightarrow> db \<Rightarrow> ID \<Rightarrow> string \<Rightarrow> Tag list" where
  "hydrate_tags uc d post body =
     concat (map (\<lambda>t. case stored_tag d post (tgSlug t) of
                        None \<Rightarrow> [] | Some r \<Rightarrow> [\<lparr>tgSlug = tgSlug t, tgDisplayName = trDisplayName r\<rparr>])
       (extract_tags uc body))"

definition count_of :: "('a \<Rightarrow> bool) \<Rightarrow> 'a list \<Rightarrow> int" where
  "count_of P xs = int (length (filter P xs))"

definition hydrate_counts :: "db \<Rightarrow> ID \<Rightarrow> PostCounts" where
  "hydrate_counts d post =
     (let kind = (\<lambda>k. count_of (\<lambda>x. rxPostID x = post \<and> rxKind x = k) (reactions d)) in
      \<lparr>pcReplies = count_of (\<lambda>r. rePostID r = post \<and> reDeletedAt r = None) (replies d),
       pcReposts = count_of (\<lambda>r. rpPostID r = post) (reposts d),
       pcReactionsTotal = count_of (\<lambda>x. rxPostID x = post) (reactions d),
       pcReactions = \<lparr>rcUseful = kind ReactionUseful, rcAgree = kind ReactionAgree, rcBrilliant = kind ReactionBrilliant,
         rcSpicy = kind ReactionSpicy, rcShip = kind ReactionShip\<rparr>\<rparr>)"

definition hydrate_viewer :: "db \<Rightarrow> ID \<Rightarrow> ID \<Rightarrow> PostViewer option" where
  "hydrate_viewer d viewer post =
     (if viewer = [] then None
      else
        (let r = find (\<lambda>r. rpPostID r = post \<and> rpAccountID r = viewer) (reposts d) in
         Some \<lparr>pvReaction = map_option rxKind (find (\<lambda>x. rxPostID x = post \<and> rxAccountID x = viewer) (reactions d)),
               pvReposted = (r \<noteq> None),
               pvBookmarked = list_ex (\<lambda>b. bkPostID b = post \<and> bkAccountID b = viewer) (bookmarks d),
               pvViewerRepost = map_option (\<lambda>x. \<lparr>rtID = rpID x, rtPostID = post, rtAccountID = viewer,
                 rtCreatedAt = rpCreatedAt x\<rparr>) r\<rparr>))"

text \<open>A reply joined with its author.\<close>

definition reply_of :: "db \<Rightarrow> reply_row \<Rightarrow> Reply list" where
  "reply_of d r =
     (case account_by_id d (reAuthorID r) of
        None \<Rightarrow> []
      | Some a \<Rightarrow> [\<lparr>ryID = reID r, ryPostID = rePostID r, ryAuthor = a, ryBody = reBody r,
                     ryIsGenerated = generated_reply d (reID r), ryCreatedAt = reCreatedAt r\<rparr>])"

definition reply_key :: "reply_row \<Rightarrow> time \<times> ID" where
  "reply_key r = (reCreatedAt r, reID r)"

definition reply_position :: "Reply \<Rightarrow> KeysetPosition" where
  "reply_position r = \<lparr>ksTimestamp = ryCreatedAt r, ksID = ryID r\<rparr>"

definition live_replies :: "db \<Rightarrow> ID \<Rightarrow> time \<Rightarrow> reply_row list" where
  "live_replies d post ceiling = filter (\<lambda>r. rePostID r = post \<and> reDeletedAt r = None \<and> reCreatedAt r \<le> ceiling) (replies d)"

text \<open>\<open>hydrateReplyPreviews\<close>: of the three oldest replies two are shown; the third only gives the next position.\<close>

definition hydrate_preview :: "db \<Rightarrow> ID \<Rightarrow> time \<Rightarrow> ReplyPreview" where
  "hydrate_preview d post ceiling =
     (let oldest = take 3 (sort_key reply_key (live_replies d post ceiling));
          items = concat (map (reply_of d) (take 2 oldest));
          third = concat (map (reply_of d) (drop 2 oldest))
      in \<lparr>rvItems = items, rvNextPosition = (if third = [] then None else Some (reply_position (last items))),
          rvCeiling = ceiling\<rparr>)"

definition project_post :: "unicode \<Rightarrow> db \<Rightarrow> time \<Rightarrow> ID \<Rightarrow> post_row \<Rightarrow> Account \<Rightarrow> Post" where
  "project_post uc d ceiling viewer p a =
     \<lparr>ptID = poID p, ptAuthor = a,
      ptContent = \<lparr>ctBody = poBody p, ctTags = hydrate_tags uc d (poID p) (poBody p), ctCode = poCode p\<rparr>,
      ptQuote = quote_of d p, ptIsSpicy = poIsSpicy p, ptIsGenerated = generated_post d (poID p), ptCreatedAt = poCreatedAt p,
      ptCounts = hydrate_counts d (poID p), ptViewer = hydrate_viewer d viewer (poID p),
      ptReplyPreview = hydrate_preview d (poID p) ceiling\<rparr>"

definition hydrate_post :: "unicode \<Rightarrow> time \<Rightarrow> db \<Rightarrow> ID \<Rightarrow> ID \<Rightarrow> Post list" where
  "hydrate_post uc c d viewer i =
     (case find (\<lambda>p. poID p = i \<and> poDeletedAt p = None) (posts d) of
        None \<Rightarrow> []
      | Some p \<Rightarrow> (case account_by_id d (poAuthorID p) of
                     None \<Rightarrow> [] | Some a \<Rightarrow> [project_post uc d (generation_instant c) viewer p a]))"

text \<open>\<open>hydratePosts\<close> keeps the order and the repetitions of the identifiers asked for.\<close>

definition hydrate_posts :: "unicode \<Rightarrow> time \<Rightarrow> db \<Rightarrow> ID list \<Rightarrow> ID \<Rightarrow> Post list" where
  "hydrate_posts uc c d ids viewer = concat (map (hydrate_post uc c d viewer) ids)"

section \<open>One post\<close>

definition parse_viewer :: "ID \<Rightarrow> go_error + ID" where
  "parse_viewer viewer = (if viewer = [] then Inr [] else parse_id viewer)"

definition read_post :: "unicode \<Rightarrow> time \<Rightarrow> ID \<Rightarrow> ID \<Rightarrow> db \<Rightarrow> go_error + Post" where
  "read_post uc c i viewer d =
     and_then (parse_id i) (\<lambda>parsed.
     and_then (parse_viewer viewer) (\<lambda>_.
     case hydrate_posts uc c d [parsed] viewer of
       p # _ \<Rightarrow> Inr p
     | [] \<Rightarrow> if post_by_id d parsed = None then Inl ErrNotFound else Inl ErrDeleted))"

section \<open>Windows\<close>

definition field_error :: "string \<Rightarrow> string \<Rightarrow> go_error" where
  "field_error f message = ValidationError [(f, message)]"

definition check_position :: "ReadWindow \<Rightarrow> go_error option" where
  "check_position w =
     (case rwPosition w of
        None \<Rightarrow> None
      | Some p \<Rightarrow>
          (case parse_id (ksID p) of
             Inl e \<Rightarrow> Some e
           | Inr _ \<Rightarrow>
               first_error
                 [(ksTimestamp p = 0, field_error ''position'' ''Must include a timestamp''),
                  (rwInitialCeiling w = 0, field_error ''ceiling'' ''Required with a position''),
                  (ksTimestamp p > rwInitialCeiling w, field_error ''position'' ''Must not be after the ceiling'')]))"

definition window_limit :: "ReadWindow \<Rightarrow> go_error + ReadWindow" where
  "window_limit w =
     (let w = (if rwLimit w = 0 then w\<lparr>rwLimit := DefaultReadLimit\<rparr> else w) in
      if rwLimit w < 1 \<or> rwLimit w > MaxReadLimit then Inl (field_error ''limit'' ''Must be between 1 and 50'')
      else (case check_position w of None \<Rightarrow> Inr w | Some e \<Rightarrow> Inl e))"

definition validate_read_window :: "ReadWindow \<Rightarrow> go_error + ReadWindow" where
  "validate_read_window w =
     (let w = (if rwSort w = ReplySortOther [] then w\<lparr>rwSort := ReplySortOldest\<rparr> else w) in
      if rwSort w \<noteq> ReplySortOldest \<and> rwSort w \<noteq> ReplySortNewest then Inl (field_error ''sort'' ''Must be oldest or newest'')
      else window_limit w)"

definition validate_bookmark_window :: "ReadWindow \<Rightarrow> go_error + ReadWindow" where
  "validate_bookmark_window w =
     (let w = (if rwSort w = ReplySortOther [] then w\<lparr>rwSort := ReplySortNewest\<rparr> else w) in
      if rwSort w \<noteq> ReplySortNewest then Inl (field_error ''sort'' ''Must be newest'') else window_limit w)"

definition page_ceiling :: "time \<Rightarrow> time \<Rightarrow> time" where
  "page_ceiling initial c = (if initial = 0 then generation_instant c else initial)"

definition position_pair :: "KeysetPosition \<Rightarrow> time \<times> ID" where
  "position_pair p = (ksTimestamp p, ksID p)"

section \<open>Replies and bookmarks\<close>

definition ascending :: "('r \<Rightarrow> 'k :: linorder) \<Rightarrow> 'r list \<Rightarrow> 'r list" where
  "ascending key rows = sort_key key rows"

definition descending :: "('r \<Rightarrow> 'k :: linorder) \<Rightarrow> 'r list \<Rightarrow> 'r list" where
  "descending key rows = rev (sort_key key rows)"

text \<open>The rows of a reply listing in its order, joined with their authors.\<close>

definition reply_listing :: "db \<Rightarrow> ID \<Rightarrow> ReplySort \<Rightarrow> time \<Rightarrow> reply_row list" where
  "reply_listing d post order ceiling =
     (if order = ReplySortNewest then descending reply_key else ascending reply_key)
       (filter (\<lambda>r. account_by_id d (reAuthorID r) \<noteq> None) (live_replies d post ceiling))"

definition reply_before :: "ReplySort \<Rightarrow> time \<times> ID \<Rightarrow> time \<times> ID \<Rightarrow> bool" where
  "reply_before order a b \<longleftrightarrow> (if order = ReplySortNewest then b < a else a < b)"

definition pair_position :: "time \<times> ID \<Rightarrow> KeysetPosition" where
  "pair_position k = \<lparr>ksTimestamp = fst k, ksID = snd k\<rparr>"

definition list_replies :: "time \<Rightarrow> ID \<Rightarrow> ReadWindow \<Rightarrow> db \<Rightarrow> go_error + ReplyPage" where
  "list_replies c post window d =
     and_then (parse_id post) (\<lambda>parsed.
     and_then (validate_read_window window) (\<lambda>w.
     case post_by_id d parsed of
       None \<Rightarrow> Inl ErrNotFound
     | Some p \<Rightarrow>
         if poDeletedAt p \<noteq> None then Inl ErrDeleted
         else
           let ceiling = page_ceiling (rwInitialCeiling w) c;
               (rows, next_key) = keyset_page (reply_before (rwSort w)) reply_key (nat (rwLimit w))
                 (map_option position_pair (rwPosition w)) (reply_listing d parsed (rwSort w) ceiling)
           in Inr \<lparr>rgItems = concat (map (reply_of d) rows), rgNextPosition = map_option pair_position next_key,
                   rgCeiling = ceiling,
                   rgReplyTotal = count_of (\<lambda>r. rePostID r = parsed \<and> reDeletedAt r = None) (replies d)\<rparr>))"

definition bookmark_key :: "bookmark_row \<Rightarrow> time \<times> ID" where
  "bookmark_key b = (bkCreatedAt b, bkPostID b)"

definition bookmark_listing :: "db \<Rightarrow> ID \<Rightarrow> time \<Rightarrow> bookmark_row list" where
  "bookmark_listing d account ceiling =
     descending bookmark_key
       (filter (\<lambda>b. bkAccountID b = account \<and> bkCreatedAt b \<le> ceiling \<and>
          (case post_by_id d (bkPostID b) of None \<Rightarrow> False | Some p \<Rightarrow> poDeletedAt p = None)) (bookmarks d))"

definition list_bookmarks :: "unicode \<Rightarrow> time \<Rightarrow> time \<Rightarrow> string \<Rightarrow> ReadWindow \<Rightarrow> db \<Rightarrow> go_error + PostPage" where
  "list_bookmarks uc c0 c session window d =
     and_then (validate_bookmark_window window) (\<lambda>w.
     and_then (session_account c0 d session) (\<lambda>account.
     let ceiling = page_ceiling (rwInitialCeiling w) c;
         (rows, next_key) = keyset_page (\<lambda>a b. b < a) bookmark_key (nat (rwLimit w))
           (map_option position_pair (rwPosition w)) (bookmark_listing d (acc_ID account) ceiling)
     in Inr \<lparr>pgItems = hydrate_posts uc c d (map bkPostID rows) (acc_ID account),
             pgNextPosition = map_option pair_position next_key, pgCeiling = ceiling\<rparr>))"

section \<open>Orders\<close>

lemma strict_order_facts:
  fixes before :: "'k :: linorder \<Rightarrow> 'k \<Rightarrow> bool"
  assumes "before = (<) \<or> before = (\<lambda>a b. b < a)"
  shows "asymp before" "irreflp before" "transp before"
  using assms by (auto simp: asymp_on_def irreflp_def transp_on_def)

lemma sort_key_strict:
  assumes "inj_on key (set rows)" "distinct rows"
  shows "sorted_wrt (\<lambda>a b. key a < key b) (sort_key key rows)"
proof -
  have d: "distinct (map key (sort_key key rows))" using assms by (simp add: distinct_map)
  have "sorted_wrt (<) (map key (sort_key key rows))"
    using d by (simp add: strict_sorted_iff)
  then show ?thesis by (simp add: sorted_wrt_map)
qed

lemma descending_strict:
  assumes "inj_on key (set rows)" "distinct rows"
  shows "sorted_wrt (\<lambda>a b. key b < key a) (descending key rows)"
  using sort_key_strict [OF assms] by (simp add: descending_def sorted_wrt_rev)

lemma strictly_sorted_distinct:
  assumes "sorted_wrt (\<lambda>a b. before (key a) (key b)) rows" "irreflp before"
  shows "distinct rows"
  using assms by (induction rows) (auto simp: irreflp_def)

section \<open>Following the pages of replies\<close>

text \<open>Reply rows as the schema keeps them: canonical unique identifiers and creation times.\<close>

definition replies_stored :: "db \<Rightarrow> bool" where
  "replies_stored d \<longleftrightarrow>
     distinct (map reID (replies d)) \<and> (\<forall>r \<in> set (replies d). parse_id (reID r) = Inr (reID r) \<and> reCreatedAt r \<noteq> 0)"

definition fetch_replies :: "time \<Rightarrow> ID \<Rightarrow> ReadWindow \<Rightarrow> db \<Rightarrow> KeysetPosition option \<Rightarrow> Reply list \<times> KeysetPosition option" where
  "fetch_replies c post w d p =
     (case list_replies c post (w\<lparr>rwPosition := p\<rparr>) d of
        Inl _ \<Rightarrow> ([], None)
      | Inr page \<Rightarrow> (rgItems page, rgNextPosition page))"

lemma position_pair_inverse [simp]: "position_pair (pair_position k) = k" "pair_position (position_pair p) = p"
  by (simp_all add: position_pair_def pair_position_def)

lemma position_pair_map [simp]: "map_option position_pair (map_option pair_position k) = k"
  by (cases k) simp_all

lemma reply_listing_rows:
  "set (reply_listing d post order ceiling) \<subseteq> {r \<in> set (replies d). rePostID r = post \<and> reDeletedAt r = None \<and> reCreatedAt r \<le> ceiling}"
  by (auto simp: reply_listing_def ascending_def descending_def live_replies_def)

lemma reply_listing_sorted:
  assumes "distinct (map reID (replies d))"
  shows "sorted_wrt (\<lambda>a b. reply_before order (reply_key a) (reply_key b)) (reply_listing d post order ceiling)"
proof -
  let ?rows = "filter (\<lambda>r. account_by_id d (reAuthorID r) \<noteq> None) (live_replies d post ceiling)"
  have "inj_on reply_key (set (replies d))"
    using assms by (auto simp: reply_key_def distinct_map inj_on_def)
  then have "inj_on reply_key (set ?rows)" "distinct ?rows"
    using assms by (auto simp: live_replies_def distinct_map inj_on_def)
  from sort_key_strict [OF this] descending_strict [OF this] show ?thesis
    by (simp add: reply_listing_def ascending_def reply_before_def)
qed

lemma validated_window:
  assumes "validate_read_window w = Inr w'" "rwPosition w = None"
  shows "rwPosition w' = None" "rwInitialCeiling w' = rwInitialCeiling w" "1 \<le> rwLimit w'" "rwLimit w' \<le> 50"
    "check_position (w\<lparr>rwPosition := p\<rparr>) = None \<Longrightarrow> validate_read_window (w\<lparr>rwPosition := p\<rparr>) = Inr (w'\<lparr>rwPosition := p\<rparr>)"
  using assms
  by (auto simp: validate_read_window_def window_limit_def Let_def check_position_def MaxReadLimit_def DefaultReadLimit_def
      split: if_splits option.splits sum.splits)

lemma reply_order: "asymp (reply_before order)" "irreflp (reply_before order)" "transp (reply_before order)"
  by (rule strict_order_facts, auto simp: reply_before_def fun_eq_iff)+

lemma fetch_replies_page:
  assumes post: "parse_id post = Inr post" "post_by_id d post = Some p" "poDeletedAt p = None"
    and w: "validate_read_window w = Inr w'" "rwPosition w = None" "rwInitialCeiling w \<noteq> 0"
    and st: "replies_stored d" and q: "q = None \<or> (\<exists>r \<in> set (reply_listing d post (rwSort w') (rwInitialCeiling w)). q = Some (reply_key r))"
  shows "fetch_replies c post w d (map_option pair_position q) =
    (case keyset_page (reply_before (rwSort w')) reply_key (nat (rwLimit w')) q (reply_listing d post (rwSort w') (rwInitialCeiling w)) of
       (rows, next_key) \<Rightarrow> (concat (map (reply_of d) rows), map_option pair_position next_key))"
proof -
  have "check_position (w\<lparr>rwPosition := map_option pair_position q\<rparr>) = None"
  proof (cases q)
    case (Some k)
    with q obtain r where r: "r \<in> set (reply_listing d post (rwSort w') (rwInitialCeiling w))" "k = reply_key r" by auto
    then have "parse_id (reID r) = Inr (reID r)" "reCreatedAt r \<noteq> 0" "reCreatedAt r \<le> rwInitialCeiling w"
      using reply_listing_rows [of d post "rwSort w'" "rwInitialCeiling w"] st by (auto simp: replies_stored_def)
    then show ?thesis using w(3) Some r(2) by (simp add: check_position_def pair_position_def reply_key_def first_error_None)
  qed (simp add: check_position_def)
  from validated_window(5) [OF w(1,2) this] validated_window(2) [OF w(1,2)] show ?thesis
    using post w(3) by (simp add: fetch_replies_def list_replies_def page_ceiling_def split: prod.split)
qed

lemma follow_replies:
  assumes post: "parse_id post = Inr post" "post_by_id d post = Some p" "poDeletedAt p = None"
    and w: "validate_read_window w = Inr w'" "rwPosition w = None" "rwInitialCeiling w \<noteq> 0"
    and st: "replies_stored d" and k: "length (replies d) < k"
  shows "follow_pages (fetch_replies c post w d) k None =
    (concat (map (reply_of d) (reply_listing d post (rwSort w') (rwInitialCeiling w))), None)"
proof -
  let ?rows = "reply_listing d post (rwSort w') (rwInitialCeiling w)" and ?n = "nat (rwLimit w')"
  let ?fetch = "\<lambda>q. keyset_page (reply_before (rwSort w')) reply_key ?n q ?rows"
  let ?P = "insert None (Some ` reply_key ` set ?rows)"
  have n: "0 < ?n" using validated_window(3) [OF w(1,2)] by simp
  have "follow_pages (fetch_replies c post w d) k (map_option pair_position None) =
      (case follow_pages ?fetch k None of (xs, q) \<Rightarrow> (concat (map (reply_of d) xs), map_option pair_position q))"
  proof (rule follow_pages_map [where P = ?P])
    show "fetch_replies c post w d (map_option pair_position q) =
        (case ?fetch q of (xs, r) \<Rightarrow> (concat (map (reply_of d) xs), map_option pair_position r))" if "q \<in> ?P" for q
      using that by (intro fetch_replies_page [OF post w st]) auto
    show "Some q \<in> ?P" if "?fetch r = (xs, Some q)" for r xs q
      using keyset_page_next [OF that n] by blast
  qed simp_all
  moreover have "length ?rows \<le> length (replies d)"
    by (simp add: reply_listing_def ascending_def descending_def live_replies_def)
  then have "length ?rows < k * ?n" using k n by (metis le_less_trans less_le_trans mult_le_mono2 mult.right_neutral Suc_leI One_nat_def)
  then have "follow_pages ?fetch k None = (?rows, None)"
    using follow_pages_all [of "reply_before (rwSort w')" reply_key ?rows ?n None k] n
      reply_listing_sorted [of d "rwSort w'" post "rwInitialCeiling w"] st reply_order [of "rwSort w'"]
    by (simp add: after_position_def replies_stored_def)
  ultimately show ?thesis by simp
qed

lemma hydrate_postD:
  assumes "p \<in> set (hydrate_post uc c d viewer i)"
  shows "\<exists>row a. row \<in> set (posts d) \<and> poID row = i \<and> poDeletedAt row = None \<and> account_by_id d (poAuthorID row) = Some a \<and>
    p = project_post uc d (generation_instant c) viewer row a"
proof -
  obtain row where row: "find (\<lambda>p. poID p = i \<and> poDeletedAt p = None) (posts d) = Some row"
    using assms by (cases "find (\<lambda>p. poID p = i \<and> poDeletedAt p = None) (posts d)") (auto simp: hydrate_post_def)
  moreover obtain a where "account_by_id d (poAuthorID row) = Some a"
    using assms row by (cases "account_by_id d (poAuthorID row)") (auto simp: hydrate_post_def)
  moreover have "row \<in> set (posts d) \<and> poID row = i \<and> poDeletedAt row = None"
    using row by (auto simp: find_Some_iff in_set_conv_nth)
  ultimately show ?thesis using assms by (auto simp: hydrate_post_def)
qed

section \<open>Properties\<close>

text \<open>
  C29: A reader that follows the next positions of a post's replies over unchanging rows, whatever the page size and in either
  order, gets every visible reply up to the first page's ceiling exactly once, in order, and then no further position.
\<close>

theorem replies_read_once:
  assumes "parse_id post = Inr post" "post_by_id d post = Some p" "poDeletedAt p = None"
    "validate_read_window w = Inr w'" "rwPosition w = None" "rwInitialCeiling w \<noteq> 0" "replies_stored d" "length (replies d) < k"
  shows "\<exists>rows. follow_pages (fetch_replies c post w d) k None = (concat (map (reply_of d) rows), None) \<and> distinct rows \<and>
    set rows = {r \<in> set (replies d). rePostID r = post \<and> reDeletedAt r = None \<and> reCreatedAt r \<le> rwInitialCeiling w \<and>
      account_by_id d (reAuthorID r) \<noteq> None} \<and>
    sorted_wrt (\<lambda>a b. reply_before (rwSort w') (reply_key a) (reply_key b)) rows"
proof (intro exI conjI)
  let ?rows = "reply_listing d post (rwSort w') (rwInitialCeiling w)"
  show "follow_pages (fetch_replies c post w d) k None = (concat (map (reply_of d) ?rows), None)"
    by (rule follow_replies [OF assms])
  show s: "sorted_wrt (\<lambda>a b. reply_before (rwSort w') (reply_key a) (reply_key b)) ?rows"
    using assms(7) by (intro reply_listing_sorted) (simp add: replies_stored_def)
  show "distinct ?rows"
    using s reply_order(2) by (rule strictly_sorted_distinct)
  show "set ?rows = {r \<in> set (replies d). rePostID r = post \<and> reDeletedAt r = None \<and> reCreatedAt r \<le> rwInitialCeiling w \<and>
      account_by_id d (reAuthorID r) \<noteq> None}"
    by (auto simp: reply_listing_def ascending_def descending_def live_replies_def)
qed

text \<open>A post with two replies, read one at a time from the newest.\<close>

definition reader :: Account where
  "reader = null_account\<lparr>acc_ID := sample_id CHR ''3'', acc_Type := AccountHuman, Handle := ''ada''\<rparr>"

definition topic :: post_row where
  "topic = \<lparr>poID = sample_id CHR ''4'', poAuthorID = sample_id CHR ''3'', poBody = ''Hello'', poQuotedPostID = None, poCode = None,
     poIsSpicy = True, poCreatedAt = 1000, poDeletedAt = None\<rparr>"

definition answer :: "char \<Rightarrow> time \<Rightarrow> reply_row" where
  "answer x t = \<lparr>reID = sample_id x, rePostID = sample_id CHR ''4'', reAuthorID = sample_id CHR ''3'', reBody = ''Hi'', reCreatedAt = t,
     reDeletedAt = None\<rparr>"

definition reading_db :: db where
  "reading_db = empty_db\<lparr>accounts := [reader], posts := [topic], replies := [answer CHR ''5'' 3000, answer CHR ''6'' 2000]\<rparr>"

definition newest_window :: ReadWindow where
  "newest_window = \<lparr>rwSort = ReplySortNewest, rwLimit = 1, rwPosition = None, rwInitialCeiling = 5000\<rparr>"

lemma reading_ids: "parse_id (sample_id CHR ''4'') = Inr (sample_id CHR ''4'')" "parse_id (sample_id CHR ''5'') = Inr (sample_id CHR ''5'')"
  "parse_id (sample_id CHR ''6'') = Inr (sample_id CHR ''6'')" "parse_id (sample_id CHR ''3'') = Inr (sample_id CHR ''3'')"
  by code_simp+

theorem replies_read_once_witness:
  "\<exists>rows. follow_pages (fetch_replies 0 (sample_id CHR ''4'') newest_window reading_db) 3 None = (concat (map (reply_of reading_db) rows), None) \<and>
    distinct rows \<and> set rows = {answer CHR ''5'' 3000, answer CHR ''6'' 2000}"
proof -
  have p: "post_by_id reading_db (sample_id CHR ''4'') = Some topic"
    by (simp add: post_by_id_def reading_db_def topic_def)
  have w: "validate_read_window newest_window = Inr newest_window" "rwPosition newest_window = None" "rwInitialCeiling newest_window \<noteq> 0"
    by (simp_all add: validate_read_window_def window_limit_def check_position_def newest_window_def MaxReadLimit_def)
  have s: "replies_stored reading_db" "length (replies reading_db) < 3"
    by (simp_all add: replies_stored_def reading_db_def answer_def reading_ids)
  have e: "{r \<in> set (replies reading_db). rePostID r = sample_id CHR ''4'' \<and> reDeletedAt r = None \<and> reCreatedAt r \<le> rwInitialCeiling newest_window \<and>
      account_by_id reading_db (reAuthorID r) \<noteq> None} = {answer CHR ''5'' 3000, answer CHR ''6'' 2000}"
    by (auto simp: reading_db_def answer_def newest_window_def account_by_id_def reader_def null_account_def)
  show ?thesis
    using replies_read_once [OF reading_ids(1) p _ w s, of 0] e by (auto simp: topic_def)
qed

text \<open>
  C30: The bookmarks page of a session shows only posts that the session's own account bookmarked, never a deleted post nor the text or
  author of a deleted quoted post, and never more posts than the validated limit of at most 50.
\<close>

theorem bookmarks_private:
  assumes "list_bookmarks uc c0 c session w d = Inr page"
  shows "\<exists>account. session_account c0 d session = Inr account \<and> length (pgItems page) \<le> 50 \<and>
    (\<forall>p \<in> set (pgItems page).
      (\<exists>b \<in> set (bookmarks d). bkAccountID b = acc_ID account \<and> bkPostID b = ptID p) \<and>
      (\<exists>row \<in> set (posts d). poID row = ptID p \<and> poDeletedAt row = None) \<and>
      (\<forall>q. ptQuote p = Some q \<and> quAvailability q = ContentDeleted \<longrightarrow> quBody q = [] \<and> quAuthor q = None))"
proof -
  from assms obtain w' account where v: "validate_bookmark_window w = Inr w'" "session_account c0 d session = Inr account"
    by (auto simp: list_bookmarks_def)
  obtain rows next_key where k: "keyset_page (\<lambda>a b. b < a) bookmark_key (nat (rwLimit w'))
      (map_option position_pair (rwPosition w')) (bookmark_listing d (acc_ID account) (page_ceiling (rwInitialCeiling w') c)) = (rows, next_key)"
    by fastforce
  have items: "pgItems page = hydrate_posts uc c d (map bkPostID rows) (acc_ID account)"
    using assms v k by (auto simp: list_bookmarks_def)
  have limit: "rwLimit w' \<le> 50"
    using v(1) by (auto simp: validate_bookmark_window_def window_limit_def MaxReadLimit_def Let_def split: if_splits option.splits)
  have one: "length (hydrate_post uc c d viewer i) \<le> 1" for viewer i
    by (auto simp: hydrate_post_def split: option.split)
  have "length (concat (map (hydrate_post uc c d viewer) xs)) \<le> length xs" for viewer xs
  proof (induction xs)
    case (Cons x xs)
    then show ?case using one [of viewer x] by simp
  qed simp
  then have len: "length (pgItems page) \<le> 50"
    using keyset_page_length [OF k] limit items unfolding hydrate_posts_def by (metis (no_types, lifting) le_trans length_map nat_le_iff of_nat_numeral)
  have own: "b \<in> set (bookmarks d) \<and> bkAccountID b = acc_ID account" if "b \<in> set rows" for b
    using keyset_page_subset [OF k] that by (auto simp: bookmark_listing_def descending_def)
  show ?thesis
  proof (intro exI conjI ballI)
    show "session_account c0 d session = Inr account" "length (pgItems page) \<le> 50" by fact+
    fix p assume "p \<in> set (pgItems page)"
    then obtain b where b: "b \<in> set rows" "p \<in> set (hydrate_post uc c d (acc_ID account) (bkPostID b))"
      unfolding items hydrate_posts_def by auto
    from hydrate_postD [OF b(2)] obtain row a where f: "row \<in> set (posts d)" "poID row = bkPostID b" "poDeletedAt row = None"
      and row: "p = project_post uc d (generation_instant c) (acc_ID account) row a" by blast
    then have id: "ptID p = bkPostID b" using row f by (simp add: project_post_def)
    show "\<exists>b \<in> set (bookmarks d). bkAccountID b = acc_ID account \<and> bkPostID b = ptID p" using own [OF b(1)] id by auto
    show "\<exists>row \<in> set (posts d). poID row = ptID p \<and> poDeletedAt row = None" using f id by auto
    show "\<forall>q. ptQuote p = Some q \<and> quAvailability q = ContentDeleted \<longrightarrow> quBody q = [] \<and> quAuthor q = None"
      using row by (auto simp: project_post_def quote_of_def split: option.splits if_splits)
  qed
qed

definition bookmark_db :: db where
  "bookmark_db = reading_db\<lparr>sessions := [\<lparr>seTokenHash = ''h'', seAccountID = sample_id CHR ''3'', seCreatedAt = 0, seExpiresAt = 9000\<rparr>],
     bookmarks := [\<lparr>bkAccountID = sample_id CHR ''3'', bkPostID = sample_id CHR ''4'', bkCreatedAt = 3000\<rparr>]\<rparr>"

theorem bookmarks_private_witness:
  "\<exists>page. list_bookmarks ascii_unicode 1000 1000 ''h'' newest_window bookmark_db = Inr page \<and> length (pgItems page) \<le> 50 \<and>
    map ptID (pgItems page) = [sample_id CHR ''4''] \<and>
    (\<forall>p \<in> set (pgItems page). \<exists>b \<in> set (bookmarks bookmark_db). bkAccountID b = sample_id CHR ''3'' \<and> bkPostID b = ptID p)"
proof -
  have s: "session_account 1000 bookmark_db ''h'' = Inr reader"
    by (simp add: session_account_def session_by_hash_def bookmark_db_def reading_db_def account_by_id_def reader_def null_account_def)
  have w: "validate_bookmark_window newest_window = Inr newest_window"
    by (simp add: validate_bookmark_window_def window_limit_def check_position_def newest_window_def MaxReadLimit_def)
  have l: "bookmark_listing bookmark_db (acc_ID reader) 5000 = bookmarks bookmark_db"
    by (simp add: bookmark_listing_def descending_def bookmark_db_def reading_db_def reader_def post_by_id_def topic_def)
  obtain page where p: "list_bookmarks ascii_unicode 1000 1000 ''h'' newest_window bookmark_db = Inr page"
    "pgItems page = hydrate_posts ascii_unicode 1000 bookmark_db [sample_id CHR ''4''] (acc_ID reader)"
    using s w l by (simp add: list_bookmarks_def newest_window_def page_ceiling_def keyset_page_def after_position_def)
      (simp add: bookmark_db_def)
  have "map ptID (pgItems page) = [sample_id CHR ''4'']"
    unfolding p(2)
    by (simp add: hydrate_posts_def hydrate_post_def bookmark_db_def reading_db_def topic_def account_by_id_def reader_def null_account_def project_post_def)
  with bookmarks_private [OF p(1)] p(1) s show ?thesis by (auto simp: reader_def)
qed

end
