(* ===== verification/JsonObject.thy ===== *)
theory JsonObject
  imports Json GoTime
begin

text \<open>
  Flat JSON objects, as the cursors, the policies and the persona files are: the encoding of integers, and the round trip
  of an object whose members are strings and integers, through the decoder and through raw messages.
\<close>

section \<open>Integers\<close>

text \<open>\<open>strconv.AppendInt\<close> in base 10.\<close>

definition json_int :: "int \<Rightarrow> string" where
  "json_int v = (if v < 0 then ''-'' else []) @ dec_digits (nat \<bar>v\<bar>)"

definition number_end :: "string \<Rightarrow> bool" where
  "number_end r \<longleftrightarrow> r = [] \<or> hd r \<in> {CHR '','', CHR ''}'', CHR '']''}"

lemma number_end_plain:
  assumes "number_end r"
  shows "takeWhile digit_char r = []" "dropWhile digit_char r = r"
    "scan_fraction r = Some ([], r)" "scan_exponent r = Some ([], r)" "\<not> head_is (CHR ''.'') r"
  using assms by (auto simp: number_end_def digit_char_def is_digit_def scan_fraction_def scan_exponent_def head_is_def; cases r; auto)+

lemma dec_digits_nonempty [simp]: "dec_digits n \<noteq> []"
  by (subst dec_digits.simps) simp

lemma dec_digits_digit_char: "list_all digit_char (dec_digits n)"
  using dec_digits_digit [of _ n] by (auto simp: list_all_iff digit_char_def)

text \<open>No leading zero.\<close>

lemma dec_digits_hd: "0 < n \<Longrightarrow> hd (dec_digits n) \<noteq> CHR ''0''"
proof (induction n rule: less_induct)
  case (less n)
  show ?case
  proof (cases "n < 10")
    case True
    have "char_of (48 + n) = CHR ''0'' \<longleftrightarrow> (48 + n) mod 256 = 48" by (simp add: char_of_eq_iff take_bit_eq_mod)
    with True less.prems show ?thesis by (subst dec_digits.simps) simp
  next
    case False
    then have "hd (dec_digits n) = hd (dec_digits (n div 10))"
      by (subst dec_digits.simps) simp
    then show ?thesis using less.IH [of "n div 10"] False by simp
  qed
qed

lemma takeWhile_digits_append: "list_all digit_char ds \<Longrightarrow> number_end r \<Longrightarrow> takeWhile digit_char (ds @ r) = ds"
  using number_end_plain(1) [of r] by (simp add: list_all_iff)

lemma scan_integer_digits:
  assumes "number_end r"
  shows "scan_integer (dec_digits n @ r) = Some (dec_digits n, r)"
proof (cases "n = 0")
  case True
  have "char_of (48 :: nat) = CHR ''0''" by code_simp
  with True have "dec_digits n = ''0''" by (subst dec_digits.simps) simp
  then show ?thesis by (simp add: scan_integer_def)
next
  case False
  then have h: "hd (dec_digits n @ r) \<noteq> CHR ''0''" using dec_digits_hd [of n] by simp
  show ?thesis
    using h takeWhile_digits_append [OF dec_digits_digit_char assms, of n] by (simp add: scan_integer_def scan_digits_def)
qed

lemma hd_dec_digits: "digit_char (hd (dec_digits n @ r))"
  using dec_digits_digit_char [of n] dec_digits_nonempty [of n] by (cases "dec_digits n") auto

lemma scan_number_int:
  assumes "number_end r"
  shows "scan_number (json_int v @ r) = Some (json_int v, r)"
proof -
  have m: "hd (dec_digits n @ r) \<noteq> CHR ''-''" for n
    using hd_dec_digits [of n r] by (auto simp: digit_char_def is_digit_def)
  show ?thesis
    using scan_integer_digits [OF assms] number_end_plain(3,4) [OF assms] m
    by (simp add: scan_number_def json_int_def Let_def)
qed

lemma foldl_dec_digits: "foldl (\<lambda>n c. 10 * n + (int (byte c) - 48)) 0 (dec_digits n) = int n"
  using dec_value_digits [of n] by (simp add: dec_value_def)

lemma json_int64_int:
  assumes "- (2 ^ 63) \<le> v" "v < 2 ^ 63"
  shows "json_int64 (json_int v) = Some v"
proof -
  have m: "\<not> head_is (CHR ''-'') (dec_digits n)" for n
    using hd_dec_digits [of n "[]"] by (auto simp: head_is_def digit_char_def is_digit_def)
  have m': "head_is (CHR ''-'') (''-'' @ s)" for s by (simp add: head_is_def)
  show ?thesis
  proof (cases "v < 0")
    case True
    then have "json_int v = CHR ''-'' # dec_digits (nat (- v))" by (simp add: json_int_def)
    with True assms show ?thesis
      using dec_digits_digit_char [of "nat (- v)"] foldl_dec_digits [of "nat (- v)"] m' [of "dec_digits (nat (- v))"]
      by (simp add: json_int64_def Let_def)
  next
    case False
    then have "json_int v = dec_digits (nat v)" by (simp add: json_int_def)
    with False assms show ?thesis
      using dec_digits_digit_char [of "nat v"] foldl_dec_digits [of "nat v"] m [of "nat v"]
      by (simp add: json_int64_def Let_def)
  qed
qed

section \<open>Members\<close>

text \<open>A text that stands for a value wherever a member ends behind it.\<close>

definition stands_for :: "string \<Rightarrow> json \<Rightarrow> bool" where
  "stands_for v j \<longleftrightarrow> (\<forall>n r. number_end r \<longrightarrow> parse_value (Suc n) (v @ r) = Some (j, r)) \<and> v \<noteq> [] \<and> \<not> json_space (hd v)"

lemma stands_for_quote [intro]: "valid_utf8 s \<Longrightarrow> stands_for (json_quote s) (JString s)"
  using parse_json_quote [of s] by (simp add: stands_for_def json_quote_def json_space_def)

lemma json_int_head: "hd (json_int v @ r) = CHR ''-'' \<or> digit_char (hd (json_int v @ r))" "json_int v \<noteq> []"
  using hd_dec_digits by (simp_all add: json_int_def)

lemma stands_for_int [intro]: "stands_for (json_int v) (JNumber (json_int v))"
proof -
  have h: "\<not> json_space (hd (json_int v @ r)) \<and> hd (json_int v @ r) \<notin> {quote, CHR ''{'', CHR ''['', CHR ''t'', CHR ''f'', CHR ''n''}" for r
    using json_int_head(1) [of v r] by (auto simp: json_space_def digit_char_def is_digit_def)
  have skip: "skip_ws (json_int v @ r) = json_int v @ r" for r
    using h [of r] json_int_head(2) [of v] by (cases "json_int v") auto
  show ?thesis
    unfolding stands_for_def
    using h [of "[]"] h json_int_head(2) [of v] skip scan_number_int [of _ v]
    by (simp add: Let_def)
qed

lemma stands_forD:
  assumes "stands_for v j"
  shows "number_end r \<Longrightarrow> parse_value (Suc n) (v @ r) = Some (j, r)" "skip_ws (v @ r) = v @ r"
  using assms unfolding stands_for_def by (simp, cases v) auto

text \<open>The members of an object, joined as \<open>Marshal\<close> does.\<close>

definition member_texts :: "(string \<times> string) list \<Rightarrow> string" where
  "member_texts fs = intersperse_comma (map (\<lambda>(k, v). json_quote k @ '':'' @ v) fs)"

lemma json_object_texts: "json_object fs = CHR ''{'' # member_texts fs @ ''}''"
  by (simp add: json_object_def member_texts_def)

lemma member_texts_simps [simp]:
  "member_texts [(k, v)] = json_quote k @ CHR '':'' # v"
  "member_texts ((k, v) # f # fs) = json_quote k @ CHR '':'' # v @ CHR '','' # member_texts (f # fs)"
  by (simp_all add: member_texts_def)

lemma number_end_simps [simp]: "number_end []" "number_end (CHR '','' # r)" "number_end (CHR ''}'' # r)" "number_end (CHR '']'' # r)"
  by (simp_all add: number_end_def)

lemma no_space [simp]: "\<not> json_space CHR '':''" "\<not> json_space CHR '',''" "\<not> json_space CHR ''}''" "\<not> json_space CHR '']''"
  "\<not> json_space CHR ''{''" "\<not> json_space quote"
  by (simp_all add: json_space_def)

lemma scan_key: "head_is quote (json_quote k @ r) \<and> skip_ws (json_quote k @ r) = json_quote k @ r \<and> scan_string (tl (json_quote k @ r)) = Some (json_escape k, r)"
  using scan_escape [of k r] by (simp add: json_quote_def head_is_def)

lemma parse_member_texts:
  assumes "fs \<noteq> []" "list_all2 (\<lambda>(k, v) (k', j). k' = k \<and> valid_utf8 k \<and> stands_for v j) fs js" "length fs < n"
  shows "parse_members n (member_texts fs @ CHR ''}'' # t) = Some (js, t)"
  using assms
proof (induction fs arbitrary: n js)
  case (Cons f fs)
  obtain m where n: "n = Suc (Suc m)" using Cons.prems(3) by (cases n; cases "n - 1") auto
  obtain k v where f: "f = (k, v)" by (cases f)
  obtain j js' where js: "js = (k, j) # js'" "valid_utf8 k" "stands_for v j"
    "list_all2 (\<lambda>(k, v) (k', j). k' = k \<and> valid_utf8 k \<and> stands_for v j) fs js'"
    using Cons.prems(2) by (auto simp: f list_all2_Cons1)
  note v = stands_forD [OF js(3)]
  show ?case
  proof (cases fs)
    case Nil
    then show ?thesis
      using js v(1) [of "CHR ''}'' # t" m] v(2) [of "CHR ''}'' # t"] scan_key [of k "CHR '':'' # v @ CHR ''}'' # t"]
      by (simp add: n f unquote_escape head_is_def del: parse_value.simps)
  next
    case (Cons g gs)
    have "parse_members (Suc m) (member_texts fs @ CHR ''}'' # t) = Some (js', t)"
      using Cons.IH [of js' "Suc m"] Cons.prems n Cons js(4) by simp
    then show ?thesis
      using js v(1) [of "CHR '','' # member_texts fs @ CHR ''}'' # t" m] v(2) [of "CHR '','' # member_texts fs @ CHR ''}'' # t"]
        scan_key [of k "CHR '':'' # v @ CHR '','' # member_texts fs @ CHR ''}'' # t"]
      by (simp add: n f Cons unquote_escape head_is_def del: parse_value.simps parse_members.simps
        add: parse_members.simps(2) [of "Suc m"])
  qed
qed simp

text \<open>A flat object reads as its members; as raw messages, as the texts of the members.\<close>

lemma json_object_head:
  assumes "fs \<noteq> []"
  shows "skip_ws (json_object fs) = json_object fs" "hd (json_object fs) = CHR ''{''" "json_object fs \<noteq> []"
    "tl (json_object fs) = member_texts fs @ ''}''" "\<not> head_is (CHR ''}'') (skip_ws (tl (json_object fs)))"
proof -
  obtain k v gs where "fs = (k, v) # gs" using assms by (metis neq_Nil_conv surj_pair)
  then have "\<exists>u. member_texts fs @ ''}'' = quote # u" by (cases gs) (simp_all add: json_quote_def)
  then show "skip_ws (json_object fs) = json_object fs" "hd (json_object fs) = CHR ''{''" "json_object fs \<noteq> []"
    "tl (json_object fs) = member_texts fs @ ''}''" "\<not> head_is (CHR ''}'') (skip_ws (tl (json_object fs)))"
    by (auto simp: json_object_texts head_is_def)
qed

lemma length_member_texts: "length fs \<le> length (member_texts fs)"
proof (induction fs rule: induct_list012)
  case (2 f)
  then show ?case by (cases f) (simp add: json_quote_def)
next
  case (3 f g fs)
  then show ?case by (cases f) (simp add: json_quote_def)
qed simp

lemma parse_json_stands_for:
  assumes "stands_for v j"
  shows "parse_json v = Some j"
  using stands_forD(1) [OF assms, of "[]" "2 * length v + 1"] by (simp add: parse_json_def del: parse_value.simps)

lemma parse_json_object:
  assumes "fs \<noteq> []" "list_all2 (\<lambda>(k, v) (k', j). k' = k \<and> valid_utf8 k \<and> stands_for v j) fs js"
  shows "parse_json (json_object fs) = Some (JObject js)"
proof -
  have l: "length fs < 2 * length (json_object fs) + 1"
    using length_member_texts [of fs] by (simp add: json_object_texts)
  have "parse_members (2 * length (json_object fs) + 1) (member_texts fs @ CHR ''}'' # []) = Some (js, [])"
    using assms l by (intro parse_member_texts) simp_all
  then have "parse_value (Suc (2 * length (json_object fs) + 1)) (json_object fs) = Some (JObject js, [])"
    using json_object_head [OF assms(1)] by (simp add: Let_def del: parse_members.simps)
  then show ?thesis by (simp add: parse_json_def del: parse_value.simps)
qed

lemma raw_member_texts:
  assumes "fs \<noteq> []" "\<forall>(k, v) \<in> set fs. valid_utf8 k \<and> (\<exists>j. stands_for v j)" "length fs < n"
  shows "raw_members n (member_texts fs @ CHR ''}'' # t) = Some (fs, t)"
  using assms
proof (induction fs arbitrary: n)
  case (Cons f fs)
  obtain m where n: "n = Suc (Suc m)" using Cons.prems(3) by (cases n; cases "n - 1") auto
  obtain k v where f: "f = (k, v)" by (cases f)
  obtain j where js: "valid_utf8 k" "stands_for v j" using Cons.prems(2) by (auto simp: f)
  have raw: "number_end r \<Longrightarrow> raw_value (Suc m) (v @ r) = Some (v, r)" for r
    using stands_forD [OF js(2)] by (simp add: raw_value_def Let_def del: parse_value.simps)
  have skip: "skip_ws (v @ r) = v @ r" for r using stands_forD [OF js(2)] by simp
  show ?case
  proof (cases fs)
    case Nil
    then show ?thesis
      using js raw [of "CHR ''}'' # t"] scan_key [of k "CHR '':'' # v @ CHR ''}'' # t"]
      by (simp add: n f unquote_escape head_is_def)
  next
    case (Cons g gs)
    have "raw_members (Suc m) (member_texts fs @ CHR ''}'' # t) = Some (fs, t)"
      using Cons.IH [of "Suc m"] Cons.prems n Cons by simp
    then show ?thesis
      using js raw [of "CHR '','' # member_texts fs @ CHR ''}'' # t"]
        scan_key [of k "CHR '':'' # v @ CHR '','' # member_texts fs @ CHR ''}'' # t"]
      by (simp add: n f Cons unquote_escape head_is_def del: raw_members.simps add: raw_members.simps(2) [of "Suc m"])
  qed
qed simp

lemma raw_json_object:
  assumes "fs \<noteq> []" "\<forall>(k, v) \<in> set fs. valid_utf8 k \<and> (\<exists>j. stands_for v j)"
  shows "raw_object (json_object fs) = Some fs"
proof -
  have "length fs < 2 * length (json_object fs) + 2"
    using length_member_texts [of fs] by (simp add: json_object_texts)
  from raw_member_texts [OF assms this, of "[]"] show ?thesis
    using json_object_head [OF assms(1)] by (simp add: raw_object_def at_end_def head_is_def Let_def del: raw_members.simps)
qed

end
