(* ===== verification/Documents.thy ===== *)
theory Documents
  imports JsonObject Schedule Trigger "HOL-Library.Multiset"
begin

text \<open>
  The documents that operators hand in and the database stores: \<open>DecodeGenerationPolicy\<close>
  (\<open>internal/app/generation_policy.go\<close>), \<open>DecodeAdminPersona\<close> and \<open>DecodeAdminPolicy\<close>
  (\<open>internal/app/generation_admin.go\<close>).  Every refusal is an error without echo of the input; where the code words the
  defects of one syntactic step differently, one message stands for them.
\<close>

section \<open>Strict objects\<close>

text \<open>
  \<open>parseStrictJSONObject\<close>, and the first pass of \<open>DecodeGenerationPolicy\<close>: one object, no duplicate key, no null value,
  nothing behind it.  A raw value is the text of a value, so it trims to \<open>null\<close> exactly when it reads as null.
\<close>

definition strict_object :: "string \<Rightarrow> (string \<times> string) list option" where
  "strict_object data =
     (case raw_object data of
        None \<Rightarrow> None
      | Some fs \<Rightarrow> if \<not> distinct (map fst fs) \<or> list_ex (\<lambda>(_, v). parse_json v = Some JNull) fs then None else Some fs)"

definition int_member :: "(string \<times> string) list \<Rightarrow> string \<Rightarrow> int option" where
  "int_member fs k =
     (case map_of fs k of None \<Rightarrow> None
      | Some v \<Rightarrow> (case parse_json v of Some (JNumber l) \<Rightarrow> json_int64 l | _ \<Rightarrow> None))"

definition string_member :: "(string \<times> string) list \<Rightarrow> string \<Rightarrow> string option" where
  "string_member fs k =
     (case map_of fs k of None \<Rightarrow> None
      | Some v \<Rightarrow> (case parse_json v of Some (JString s) \<Rightarrow> Some s | _ \<Rightarrow> None))"

section \<open>Policies\<close>

definition policy_strings :: "string list" where
  "policy_strings = [''timezone'', ''active_start'', ''active_end'']"

definition policy_integers :: "string list" where
  "policy_integers =
     [''version'', ''scheduled_min_per_day'', ''scheduled_max_per_day'', ''min_spacing_seconds'',
      ''response_min_delay_seconds'', ''response_max_delay_seconds'', ''source_max_age_seconds'',
      ''reply_probability_bps'', ''repost_probability_bps'', ''quote_probability_bps'', ''human_post_probability_bps'',
      ''continuation_probability_bps'', ''cooldown_seconds'', ''scheduled_post_cap_per_day'', ''reply_cap_per_day'',
      ''reply_cap_per_conversation'', ''max_agents_per_trigger'', ''human_trigger_cap_per_window'',
      ''human_trigger_window_seconds'', ''max_chain_depth'', ''max_chain_jobs'', ''daily_token_budget'']"

definition policy_of_members :: "(string \<times> string) list \<Rightarrow> GenerationPolicy" where
  "policy_of_members fs =
     (let i = \<lambda>k. the (int_member fs k); s = \<lambda>k. the (string_member fs k) in
      \<lparr>pVersion = i ''version'', pTimezone = s ''timezone'', pActiveStart = s ''active_start'', pActiveEnd = s ''active_end'',
       pScheduledMinPerDay = i ''scheduled_min_per_day'', pScheduledMaxPerDay = i ''scheduled_max_per_day'',
       pMinSpacingSeconds = i ''min_spacing_seconds'', pResponseMinDelaySeconds = i ''response_min_delay_seconds'',
       pResponseMaxDelaySeconds = i ''response_max_delay_seconds'', pSourceMaxAgeSeconds = i ''source_max_age_seconds'',
       pReplyProbabilityBPS = i ''reply_probability_bps'', pRepostProbabilityBPS = i ''repost_probability_bps'',
       pQuoteProbabilityBPS = i ''quote_probability_bps'', pHumanPostProbabilityBPS = i ''human_post_probability_bps'',
       pContinuationProbabilityBPS = i ''continuation_probability_bps'', pCooldownSeconds = i ''cooldown_seconds'',
       pScheduledPostCapPerDay = i ''scheduled_post_cap_per_day'', pReplyCapPerDay = i ''reply_cap_per_day'',
       pReplyCapPerConversation = i ''reply_cap_per_conversation'', pMaxAgentsPerTrigger = i ''max_agents_per_trigger'',
       pHumanTriggerCapPerWindow = i ''human_trigger_cap_per_window'',
       pHumanTriggerWindowSeconds = i ''human_trigger_window_seconds'', pMaxChainDepth = i ''max_chain_depth'',
       pMaxChainJobs = i ''max_chain_jobs'', pDailyTokenBudget = i ''daily_token_budget''\<rparr>)"

definition decode_policy :: "timezones \<Rightarrow> string \<Rightarrow> go_error + GenerationPolicy" where
  "decode_policy tz data =
     (if length data > 8192 then Inl (Errorf ''generation policy exceeds 8192 bytes'')
      else case strict_object data of
        None \<Rightarrow> Inl (Errorf ''invalid policy object'')
      | Some fs \<Rightarrow>
          if list_ex (\<lambda>k. map_of fs k = None) (policy_strings @ policy_integers) then Inl (Errorf ''missing policy field'')
          else if length fs \<noteq> length (policy_strings @ policy_integers) then Inl (Errorf ''unknown policy field'')
          else if list_ex (\<lambda>k. string_member fs k = None) policy_strings \<or> list_ex (\<lambda>k. int_member fs k = None) policy_integers
          then Inl (Errorf ''invalid generation policy'')
          else (case validate_policy tz (policy_of_members fs) of Some e \<Rightarrow> Inl e | None \<Rightarrow> Inr (policy_of_members fs)))"

text \<open>\<open>json.Marshal\<close> of a policy.\<close>

definition policy_members :: "GenerationPolicy \<Rightarrow> (string \<times> string) list" where
  "policy_members p =
     [(''version'', json_int (pVersion p)), (''timezone'', json_quote (pTimezone p)),
      (''active_start'', json_quote (pActiveStart p)), (''active_end'', json_quote (pActiveEnd p)),
      (''scheduled_min_per_day'', json_int (pScheduledMinPerDay p)), (''scheduled_max_per_day'', json_int (pScheduledMaxPerDay p)),
      (''min_spacing_seconds'', json_int (pMinSpacingSeconds p)),
      (''response_min_delay_seconds'', json_int (pResponseMinDelaySeconds p)),
      (''response_max_delay_seconds'', json_int (pResponseMaxDelaySeconds p)),
      (''source_max_age_seconds'', json_int (pSourceMaxAgeSeconds p)),
      (''reply_probability_bps'', json_int (pReplyProbabilityBPS p)), (''repost_probability_bps'', json_int (pRepostProbabilityBPS p)),
      (''quote_probability_bps'', json_int (pQuoteProbabilityBPS p)),
      (''human_post_probability_bps'', json_int (pHumanPostProbabilityBPS p)),
      (''continuation_probability_bps'', json_int (pContinuationProbabilityBPS p)),
      (''cooldown_seconds'', json_int (pCooldownSeconds p)),
      (''scheduled_post_cap_per_day'', json_int (pScheduledPostCapPerDay p)), (''reply_cap_per_day'', json_int (pReplyCapPerDay p)),
      (''reply_cap_per_conversation'', json_int (pReplyCapPerConversation p)),
      (''max_agents_per_trigger'', json_int (pMaxAgentsPerTrigger p)),
      (''human_trigger_cap_per_window'', json_int (pHumanTriggerCapPerWindow p)),
      (''human_trigger_window_seconds'', json_int (pHumanTriggerWindowSeconds p)), (''max_chain_depth'', json_int (pMaxChainDepth p)),
      (''max_chain_jobs'', json_int (pMaxChainJobs p)), (''daily_token_budget'', json_int (pDailyTokenBudget p))]"

section \<open>Instants of operators\<close>

text \<open>
  \<open>time.Parse(time.RFC3339Nano, s)\<close> in full: an hour of one or two digits, a fraction of any length after a point or a comma of
  which nine digits count, and \<open>Z\<close> or an offset.
\<close>

definition parse_hour :: "string \<Rightarrow> (int \<times> string) option" where
  "parse_hour s =
     (case s of
        [] \<Rightarrow> None
      | a # r \<Rightarrow>
          (case digits_val [a] of
             None \<Rightarrow> None
           | Some x \<Rightarrow>
               (case (case r of [] \<Rightarrow> None | b # _ \<Rightarrow> digits_val [a, b]) of
                  None \<Rightarrow> Some (x, r)
                | Some y \<Rightarrow> Some (y, tl r))))"

definition parse_two :: "char \<Rightarrow> string \<Rightarrow> (int \<times> string) option" where
  "parse_two sep s =
     (if length s < 3 \<or> hd s \<noteq> sep then None else map_option (\<lambda>v. (v, drop 3 s)) (digits_val (take 2 (tl s))))"

definition parse_long_fraction :: "string \<Rightarrow> int \<times> string" where
  "parse_long_fraction s =
     (let ds = takeWhile (\<lambda>c. is_digit (byte c)) (tl s) in
      if s = [] \<or> hd s \<notin> {CHR ''.'', CHR '',''} \<or> ds = [] then (0, s)
      else (the (digits_val (take 9 (ds @ replicate 9 CHR ''0''))), drop (length ds) (tl s)))"

definition parse_offset :: "string \<Rightarrow> duration option" where
  "parse_offset s =
     (if s = ''Z'' then Some 0
      else if length s \<noteq> 6 \<or> s ! 3 \<noteq> CHR '':'' \<or> hd s \<notin> {CHR ''+'', CHR ''-''} then None
      else case (digits_val (take 2 (tl s)), digits_val (drop 4 s)) of
        (Some h, Some m) \<Rightarrow>
          if h > 24 \<or> m > 60 then None else Some ((if hd s = CHR ''-'' then - 1 else 1) * (3600 * h + 60 * m) * second)
      | _ \<Rightarrow> None)"

definition parse_rfc3339 :: "string \<Rightarrow> time option" where
  "parse_rfc3339 s =
     (case parse_date (take 10 s) of
        None \<Rightarrow> None
      | Some d \<Rightarrow>
          if length s < 11 \<or> s ! 10 \<noteq> CHR ''T'' then None
          else case parse_hour (drop 11 s) of None \<Rightarrow> None | Some (h, r1) \<Rightarrow>
               (case parse_two CHR '':'' r1 of None \<Rightarrow> None | Some (m, r2) \<Rightarrow>
               (case parse_two CHR '':'' r2 of None \<Rightarrow> None | Some (x, r3) \<Rightarrow>
                  let (f, r4) = parse_long_fraction r3 in
                  (case parse_offset r4 of
                     None \<Rightarrow> None
                   | Some z \<Rightarrow> if h < 24 \<and> m < 60 \<and> x < 60 then Some (d + (3600 * h + 60 * m + x) * second + f - z) else None))))"

section \<open>Persona files\<close>

definition MaxAdminPersonaFileBytes :: nat where "MaxAdminPersonaFileBytes = 65552"
definition MaxAdminPolicyFileBytes :: nat where "MaxAdminPolicyFileBytes = 8192"

text \<open>\<open>json.Unmarshal\<close> into a list of strings: a null element leaves the empty string.\<close>

definition strings_member :: "(string \<times> string) list \<Rightarrow> string \<Rightarrow> string list option" where
  "strings_member fs k =
     (case map_of fs k of None \<Rightarrow> None
      | Some v \<Rightarrow>
          (case parse_json v of
             Some (JArray xs) \<Rightarrow>
               if list_all (\<lambda>x. case x of JString _ \<Rightarrow> True | JNull \<Rightarrow> True | _ \<Rightarrow> False) xs
               then Some (map (\<lambda>x. case x of JString s \<Rightarrow> s | _ \<Rightarrow> []) xs) else None
           | _ \<Rightarrow> None))"

definition invalid_persona :: go_error where "invalid_persona = Errorf ''invalid persona payload''"

definition decode_admin_persona :: "unicode \<Rightarrow> string \<Rightarrow> ID \<Rightarrow> go_error + Persona" where
  "decode_admin_persona uc data agent =
     (if length data > MaxAdminPersonaFileBytes then Inl (Errorf ''persona file exceeds size limit'')
      else if \<not> valid_utf8 data then Inl invalid_persona
      else case strict_object data of
        None \<Rightarrow> Inl invalid_persona
      | Some fs \<Rightarrow>
          if list_ex (\<lambda>(k, _). k \<notin> {''version'', ''instructions'', ''topic_tags'', ''created_at''}) fs then Inl invalid_persona
          else
            (case (int_member fs ''version'', string_member fs ''instructions'', strings_member fs ''topic_tags'',
                   string_member fs ''created_at'') of
               (Some v, Some instructions, Some topic_tags, Some created) \<Rightarrow>
                 (case parse_rfc3339 created of
                    None \<Rightarrow> Inl invalid_persona
                  | Some at \<Rightarrow>
                      let p = \<lparr>perAgentID = agent, perVersion = v, perInstructions = instructions, perTopicTags = topic_tags, perCreatedAt = at\<rparr>
                      in if validate_persona uc p \<noteq> None then Inl invalid_persona else Inr p)
             | _ \<Rightarrow> Inl invalid_persona))"

definition decode_admin_policy :: "timezones \<Rightarrow> string \<Rightarrow> go_error + GenerationPolicy" where
  "decode_admin_policy tz data =
     (if length data > MaxAdminPolicyFileBytes then Inl (Errorf ''policy file exceeds size limit'')
      else case decode_policy tz data of Inl _ \<Rightarrow> Inl (Errorf ''invalid policy payload'') | Inr p \<Rightarrow> Inr p)"

section \<open>Round trips\<close>

lemma append_int_cons:
  assumes "0 \<le> x" "x < 100"
  shows "\<exists>a b. append_int x 2 = [a, b] \<and> digits_val [a, b] = Some x \<and> digits_val [a] \<noteq> None"
proof -
  have l: "length (append_int x 2) = 2" "digits_val (append_int x 2) = Some x" using append_int_2 [OF assms] by simp_all
  then obtain a b where e: "append_int x 2 = [a, b]" by (metis One_nat_def Suc_1 length_0_conv length_Suc_conv)
  moreover have "digits_val [a] \<noteq> None" using l(2) unfolding e by (auto simp: digits_val_def split: if_splits)
  ultimately show ?thesis using l(2) by auto
qed

lemma parse_two_append:
  assumes "0 \<le> x" "x < 100"
  shows "parse_two sep (sep # append_int x 2 @ r) = Some (x, r)"
  using append_int_cons [OF assms] by (auto simp: parse_two_def)

lemma parse_hour_append:
  assumes "0 \<le> x" "x < 100"
  shows "parse_hour (append_int x 2 @ r) = Some (x, r)"
  using append_int_cons [OF assms] by (auto simp: parse_hour_def)

lemma parse_fraction_append:
  assumes "0 \<le> n" "n < 1000000000"
  shows "parse_long_fraction (format_fraction n @ ''Z'') = (n, ''Z'')"
proof (cases "n = 0")
  case True
  then show ?thesis by (simp add: parse_long_fraction_def format_fraction_def is_digit_def)
next
  case False
  define ds where "ds = rev (dropWhile (\<lambda>c. c = CHR ''0'') (rev (append_int n 9)))"
  have f: "format_fraction n = CHR ''.'' # ds" using False by (simp add: format_fraction_def ds_def)
  have p: "ds \<noteq> []" "length ds \<le> 9" "digits_val (ds @ replicate (9 - length ds) CHR ''0'') = Some n"
    using parse_format_fraction [OF assms] by (auto simp: f parse_fraction_def split: if_splits)
  have d: "\<forall>c \<in> set ds. is_digit (byte c)" using p(3) by (auto simp: digits_val_def split: if_splits)
  then have t: "takeWhile (\<lambda>c. is_digit (byte c)) (ds @ ''Z'') = ds" by (simp add: is_digit_def)
  have "take 9 (ds @ replicate 9 CHR ''0'') = ds @ replicate (9 - length ds) CHR ''0''" using p(2) by (simp add: min_def)
  with p t show ?thesis by (simp add: parse_long_fraction_def f Let_def)
qed

text \<open>The parser of the operators reads every instant that the service writes.\<close>

lemma parse_rfc3339_format:
  assumes "0 \<le> utc_year t" "utc_year t \<le> 9999"
  shows "parse_rfc3339 (format_instant t) = Some t"
proof -
  define s where "s = t mod day_ns div second"
  obtain y m d where n: "date_of_day (utc_day t) = (y, m, d)" by (metis prod.collapse)
  then have y: "0 \<le> y" "y \<le> 9999" using assms by (simp_all add: utc_year_def)
  note parts = clock_parts [of t, folded s_def]
  have date: "parse_date (format_date t) = Some (utc_day t * day_ns)" "length (format_date t) = 10"
    using parse_format_day [OF n y] length_format_day [OF n y] by (simp_all add: format_date_def)
  have f: "0 \<le> t mod second" "t mod second < 1000000000" by simp_all
  have m: "0 \<le> s div 60 mod 60" "s div 60 mod 60 < 100" "0 \<le> s mod 60" "s mod 60 < 100" "s div 60 mod 60 < 60" "s mod 60 < 60"
    "s div 3600 < 100" using parts(2) by simp_all
  define r3 where "r3 = format_fraction (t mod second) @ ''Z''"
  define r2 where "r2 = CHR '':'' # append_int (s mod 60) 2 @ r3"
  define r1 where "r1 = CHR '':'' # append_int (s div 60 mod 60) 2 @ r2"
  have e: "format_instant t = format_date t @ CHR ''T'' # append_int (s div 3600) 2 @ r1"
    by (simp add: format_instant_def Let_def s_def r1_def r2_def r3_def)
  have "parse_hour (append_int (s div 3600) 2 @ r1) = Some (s div 3600, r1)" using parts(1) m(7) by (rule parse_hour_append)
  moreover have "parse_two CHR '':'' r1 = Some (s div 60 mod 60, r2)" unfolding r1_def using m(1,2) by (rule parse_two_append)
  moreover have "parse_two CHR '':'' r2 = Some (s mod 60, r3)" unfolding r2_def using m(3,4) by (rule parse_two_append)
  moreover have "parse_long_fraction r3 = (t mod second, ''Z'')" unfolding r3_def using f by (rule parse_fraction_append)
  moreover have "utc_day t * day_ns + (3600 * (s div 3600) + 60 * (s div 60 mod 60) + s mod 60) * second + t mod second = t"
  proof -
    have "t = utc_day t * day_ns + t mod day_ns" by (simp add: utc_day_def)
    then show ?thesis using parts(3) by linarith
  qed
  moreover have "parse_offset ''Z'' = Some 0" by (simp add: parse_offset_def)
  ultimately show ?thesis
    using date parts(2) m(5,6) unfolding parse_rfc3339_def e by (simp add: nth_append)
qed

lemma map_of_mset:
  assumes "distinct (map fst xs)" "mset xs = mset ys"
  shows "map_of xs = map_of ys" "distinct (map fst ys)" "set xs = set ys"
proof -
  have "mset (map fst xs) = mset (map fst ys)" using assms(2) by simp
  then show d: "distinct (map fst ys)" using assms(1) by (metis distinct_count_atmost_1 mset_eq_setD)
  show s: "set xs = set ys" using assms(2) by (rule mset_eq_setD)
  show "map_of xs = map_of ys" using assms(1) d s by (simp add: map_of_inject_set)
qed

lemma policy_members_names: "map fst (policy_members p) =
   [''version'', ''timezone'', ''active_start'', ''active_end'', ''scheduled_min_per_day'', ''scheduled_max_per_day'', ''min_spacing_seconds'',
    ''response_min_delay_seconds'', ''response_max_delay_seconds'', ''source_max_age_seconds'', ''reply_probability_bps'',
    ''repost_probability_bps'', ''quote_probability_bps'', ''human_post_probability_bps'', ''continuation_probability_bps'',
    ''cooldown_seconds'', ''scheduled_post_cap_per_day'', ''reply_cap_per_day'', ''reply_cap_per_conversation'',
    ''max_agents_per_trigger'', ''human_trigger_cap_per_window'', ''human_trigger_window_seconds'', ''max_chain_depth'',
    ''max_chain_jobs'', ''daily_token_budget'']"
  by (simp add: policy_members_def)

lemma policy_values:
  assumes "validate_policy tz p = None"
  shows "\<forall>(_, v, lo, hi) \<in> set (policy_bounds p). lo \<le> v \<and> v \<le> hi" "pVersion p = 1"
    "clock_bad (pActiveStart p) = False" "clock_bad (pActiveEnd p) = False"
proof -
  note v = assms [unfolded validate_policy_def first_error_None]
  show "\<forall>(_, v, lo, hi) \<in> set (policy_bounds p). lo \<le> v \<and> v \<le> hi" using v by (fastforce simp: list_all_iff)
  show "pVersion p = 1" "clock_bad (pActiveStart p) = False" "clock_bad (pActiveEnd p) = False" using v by simp_all
qed

lemma append_int_ascii: "\<forall>c \<in> set (append_int x w). byte c < (128 :: nat)"
  using dec_digits_digit by (fastforce simp: append_int_def pad_left_def is_digit_def)

lemma clock_utf8: "\<not> clock_bad s \<Longrightarrow> valid_utf8 s"
  by (rule ascii_valid) (auto simp: clock_bad_def format_clock_def append_int_ascii list_all_iff split: option.splits)

lemma policy_int64:
  assumes "validate_policy tz p = None" "v \<in> (fst \<circ> snd) ` set (policy_bounds p)"
  shows "json_int64 (json_int v) = Some v"
proof -
  obtain name lo hi where b: "(name, v, lo, hi) \<in> set (policy_bounds p)" using assms(2) by force
  then have "lo \<le> v" "v \<le> hi" using policy_values(1) [OF assms(1)] by auto
  moreover have "0 \<le> lo" "hi \<le> 10000000" using b by (auto simp: policy_bounds_def)
  ultimately show ?thesis by (intro json_int64_int) simp_all
qed

text \<open>Looking the members up gives the fields.\<close>

lemma policy_read:
  assumes "validate_policy tz p = None" "valid_utf8 (pTimezone p)" "map_of fs = map_of (policy_members p)"
  shows "policy_of_members fs = p"
    "\<not> list_ex (\<lambda>k. map_of fs k = None) (policy_strings @ policy_integers)"
    "\<not> list_ex (\<lambda>k. string_member fs k = None) policy_strings" "\<not> list_ex (\<lambda>k. int_member fs k = None) policy_integers"
proof -
  note b = policy_int64 [OF assms(1), unfolded policy_bounds_def, simplified]
  have v: "json_int64 (json_int (pVersion p)) = Some (pVersion p)" using policy_values(2) [OF assms(1)] by (simp add: json_int64_int)
  have i: "int_member fs k = json_int64 (json_int v)" if "map_of (policy_members p) k = Some (json_int v)" for k v
    using that by (simp add: int_member_def assms(3) parse_json_stands_for [OF stands_for_int])
  have s: "string_member fs k = Some v" if "map_of (policy_members p) k = Some (json_quote v)" "valid_utf8 v" for k v
    using that by (simp add: string_member_def assms(3) parse_json_stands_for [OF stands_for_quote])
  have strings: "string_member fs ''timezone'' = Some (pTimezone p)" "string_member fs ''active_start'' = Some (pActiveStart p)"
    "string_member fs ''active_end'' = Some (pActiveEnd p)"
    using assms(2) policy_values(3,4) [OF assms(1)] by (intro s; simp add: policy_members_def clock_utf8)+
  show "policy_of_members fs = p"
    unfolding policy_of_members_def Let_def strings by (simp add: i policy_members_def b v)
  show "\<not> list_ex (\<lambda>k. map_of fs k = None) (policy_strings @ policy_integers)"
    unfolding assms(3) by (simp add: policy_strings_def policy_integers_def policy_members_def)
  show "\<not> list_ex (\<lambda>k. string_member fs k = None) policy_strings" using strings by (simp add: policy_strings_def)
  show "\<not> list_ex (\<lambda>k. int_member fs k = None) policy_integers"
    by (simp add: policy_integers_def i policy_members_def b v)
qed

lemma policy_members_stand:
  assumes "validate_policy tz p = None" "valid_utf8 (pTimezone p)" "(k, v) \<in> set (policy_members p)"
  shows "valid_utf8 k \<and> (\<exists>j. stands_for v j \<and> j \<noteq> JNull)"
proof -
  have "valid_utf8 (pActiveStart p)" "valid_utf8 (pActiveEnd p)" using policy_values(3,4) [OF assms(1)] clock_utf8 by simp_all
  then have v: "\<exists>j. stands_for v j \<and> j \<noteq> JNull"
    using assms(2,3) unfolding policy_members_def by (auto intro: stands_for_quote stands_for_int)
  have "k \<in> set (map fst (policy_members p))" using assms(3) by force
  then have "valid_utf8 k" unfolding policy_members_names by (auto simp: valid_utf8_ascii)
  with v show ?thesis by blast
qed


lemma member_texts_bound:
  assumes "\<forall>(k, v) \<in> set fs. length (json_quote k) + length v + 2 \<le> b"
  shows "length (member_texts fs) \<le> length fs * b"
  using assms
proof (induction fs rule: induct_list012)
  case (2 f)
  then show ?case by (cases f) simp
next
  case (3 f g fs)
  then show ?case by (cases f) simp
qed (simp add: member_texts_def)

lemma length_json_int: "0 \<le> v \<Longrightarrow> v < 10 ^ 9 \<Longrightarrow> length (json_int v) \<le> 9"
  using length_dec_digits [of "nat v" 8] by (simp add: json_int_def nat_less_iff)


end
