(* ===== verification/Admin.thy ===== *)
theory Admin
  imports Reading Safety Documents
begin

text \<open>
  The reports of the operators, \<open>internal/postgres/generation_admin.go\<close>: job pages under a textual keyset cursor, one
  job with its attempts, the token usage of a day, and the status of the service.  Each report reads one snapshot.
\<close>

section \<open>Cursors\<close>

record AdminJobCursor =
  acCreatedAt :: time
  acJobID :: ID

definition admin_job_page_size :: int where "admin_job_page_size = 64"
definition admin_attempt_page_size :: nat where "admin_attempt_page_size = nat (MaxGenerationAttempts + 1)"
definition admin_job_cursor_max_len :: nat where "admin_job_cursor_max_len = 256"

definition invalid_cursor :: go_error where "invalid_cursor = invalid_generation ''cursor''"

text \<open>\<open>strings.SplitN(token, "|", 2)\<close>: up to the first bar, and what follows it.\<close>

definition split_bar :: "string \<Rightarrow> (string \<times> string) option" where
  "split_bar s =
     (let a = takeWhile (\<lambda>c. c \<noteq> CHR ''|'') s in
      if length a = length s then None else Some (a, drop (length a + 1) s))"

definition decode_admin_cursor :: "string \<Rightarrow> go_error + AdminJobCursor" where
  "decode_admin_cursor token =
     (if length token > admin_job_cursor_max_len then Inl invalid_cursor
      else case split_bar token of
        None \<Rightarrow> Inl invalid_cursor
      | Some (a, b) \<Rightarrow>
          (case parse_rfc3339 a of
             None \<Rightarrow> Inl invalid_cursor
           | Some at \<Rightarrow>
               if at = 0 then Inl invalid_cursor
               else case parse_id b of Inl _ \<Rightarrow> Inl invalid_cursor | Inr _ \<Rightarrow> Inr \<lparr>acCreatedAt = at, acJobID = b\<rparr>))"

definition admin_token :: "AdminJobCursor \<Rightarrow> string" where
  "admin_token c = format_instant (acCreatedAt c) @ ''|'' @ acJobID c"

definition valid_admin_limit :: "int \<Rightarrow> int" where
  "valid_admin_limit limit = (if limit < 1 then admin_job_page_size else min limit admin_job_page_size)"

section \<open>Listing jobs\<close>

record AdminJobFilter =
  afAgentID :: ID
  afStatus :: string
  afCursor :: "AdminJobCursor option"
  afLimit :: int

definition status_text :: "GenerationJobStatus \<Rightarrow> string" where
  "status_text s =
     (case s of JobPending \<Rightarrow> ''pending'' | JobRunning \<Rightarrow> ''running'' | JobRetryWait \<Rightarrow> ''retry_wait''
      | JobSucceeded \<Rightarrow> ''succeeded'' | JobSkipped \<Rightarrow> ''skipped'' | JobCancelled \<Rightarrow> ''cancelled'' | JobFailed \<Rightarrow> ''failed''
      | JobStatusOther t \<Rightarrow> t)"

definition check_admin_filter :: "AdminJobFilter \<Rightarrow> go_error option" where
  "check_admin_filter f =
     first_error
       [(afAgentID f \<noteq> [] \<and> isl (parse_id (afAgentID f)), invalid_generation ''agent_id''),
        (afStatus f \<notin> {[], ''pending'', ''running'', ''retry_wait'', ''succeeded'', ''skipped'', ''cancelled'', ''failed''},
         invalid_generation ''status''),
        (case afCursor f of None \<Rightarrow> False | Some c \<Rightarrow> acCreatedAt c = 0 \<or> isl (parse_id (acJobID c)), invalid_cursor)]"

definition job_key :: "GenerationJob \<Rightarrow> time \<times> ID" where "job_key j = (jCreatedAt j, jID j)"

text \<open>Identifiers compare as \<open>uuid\<close> values, which the canonical spelling represents.\<close>

definition canonical_id :: "ID \<Rightarrow> ID" where
  "canonical_id i = (case parse_id i of Inr c \<Rightarrow> c | Inl _ \<Rightarrow> i)"

definition admin_listing :: "db \<Rightarrow> AdminJobFilter \<Rightarrow> GenerationJob list" where
  "admin_listing d f =
     descending job_key
       (filter (\<lambda>j. (afAgentID f = [] \<or> jAgentID j = canonical_id (afAgentID f)) \<and> (afStatus f = [] \<or> status_text (jStatus j) = afStatus f))
         (jobs d))"

fun read_jobs :: "db \<Rightarrow> ID list \<Rightarrow> go_error + GenerationJob list" where
  "read_jobs d [] = Inr []"
| "read_jobs d (i # is) = and_then (job_by_id d i) (\<lambda>j. and_then (read_jobs d is) (\<lambda>js. Inr (j # js)))"

definition list_generation_jobs :: "AdminJobFilter \<Rightarrow> db \<Rightarrow> go_error + GenerationJob list \<times> string option" where
  "list_generation_jobs f d =
     (case check_admin_filter f of Some e \<Rightarrow> Inl e | None \<Rightarrow>
      let (keys, next_key) = keyset_page (\<lambda>a b. b < a) job_key (nat (valid_admin_limit (afLimit f)))
            (map_option (\<lambda>c. (acCreatedAt c, canonical_id (acJobID c))) (afCursor f)) (admin_listing d f)
      in and_then (read_jobs d (map jID keys)) (\<lambda>js.
         Inr (js, map_option (\<lambda>(at, i). admin_token \<lparr>acCreatedAt = at, acJobID = i\<rparr>) next_key)))"

section \<open>Inspecting a job\<close>

record AdminJobInspection =
  inJob :: GenerationJob
  inAttempts :: "GenerationAttempt list"
  inComplete :: bool

definition execution_attempts_bounded :: "db \<Rightarrow> ID \<Rightarrow> nat \<Rightarrow> go_error + GenerationAttempt list" where
  "execution_attempts_bounded d i limit =
     all_attempts d (map aID (take limit (sort_key aAttemptNumber (filter (\<lambda>t. aJobID t = i) (attempts d)))))"

definition inspect_generation :: "ID \<Rightarrow> db \<Rightarrow> go_error + AdminJobInspection" where
  "inspect_generation i d =
     and_then (job_by_id d i) (\<lambda>job.
     and_then (execution_attempts_bounded d (jID job) admin_attempt_page_size) (\<lambda>ts.
     Inr (if int (length ts) > MaxGenerationAttempts
          then \<lparr>inJob = job, inAttempts = take (nat MaxGenerationAttempts) ts, inComplete = False\<rparr>
          else \<lparr>inJob = job, inAttempts = ts, inComplete = True\<rparr>)))"

section \<open>Usage of a day\<close>

record AdminAgentUsage =
  auAgentID :: ID
  auAttempts :: int
  auKnownTokens :: int
  auChargedTokens :: int

record AdminDayUsage =
  duDay :: string
  duAttempts :: int
  duKnownTokens :: int
  duChargedTokens :: int
  duAgents :: "AdminAgentUsage list"

text \<open>The two cost columns of the query; an unknown cost is null and sums as nothing.\<close>

definition known_tokens :: "GenerationAttempt \<Rightarrow> int option" where
  "known_tokens t =
     (if aStatus t = AttemptReserved \<or> aStatus t = AttemptUnknown \<or> aInputTokens t = None \<or> aOutputTokens t = None \<or>
         the (aInputTokens t) < 1 \<or> the (aInputTokens t) > MaxInputTokens \<or>
         the (aOutputTokens t) < 0 \<or> the (aOutputTokens t) > MaxOutputTokens \<or>
         aErrorCode t = ''unsupported_accounting''
      then None else Some (the (aInputTokens t) + the (aOutputTokens t)))"

definition charged_tokens :: "GenerationAttempt \<Rightarrow> int" where
  "charged_tokens t =
     (if aStatus t = AttemptReserved \<or> aStatus t = AttemptUnknown \<or> aInputTokens t = None \<or> aOutputTokens t = None \<or>
         the (aInputTokens t) < 1 \<or> the (aInputTokens t) > MaxInputTokens \<or>
         the (aOutputTokens t) < 0 \<or> the (aOutputTokens t) > MaxOutputTokens \<or>
         aErrorCode t = ''unsupported_accounting''
      then aReservedTokens t else the (aInputTokens t) + the (aOutputTokens t))"

definition attempt_agent :: "db \<Rightarrow> GenerationAttempt \<Rightarrow> ID option" where
  "attempt_agent d t = map_option jAgentID (job_row d (aJobID t))"

definition usage_row :: "db \<Rightarrow> string \<Rightarrow> ID \<Rightarrow> AdminAgentUsage" where
  "usage_row d day agent =
     (let ts = filter (\<lambda>t. aBudgetDay t = day \<and> attempt_agent d t = Some agent) (attempts d) in
      \<lparr>auAgentID = agent, auAttempts = int (length ts), auKnownTokens = sum_list (map (\<lambda>t. case known_tokens t of None \<Rightarrow> 0 | Some n \<Rightarrow> n) ts),
       auChargedTokens = sum_list (map charged_tokens ts)\<rparr>)"

definition usage_agents :: "db \<Rightarrow> string \<Rightarrow> ID \<Rightarrow> ID list" where
  "usage_agents d day agent =
     sort (remdups (filter (\<lambda>a. agent = [] \<or> a = canonical_id agent)
       (map (\<lambda>t. the (attempt_agent d t)) (filter (\<lambda>t. aBudgetDay t = day \<and> attempt_agent d t \<noteq> None) (attempts d)))))"

text \<open>\<open>addInt64\<close> and, on 64-bit targets, \<open>addInt\<close>; the counts and sums of a row must fit their columns.\<close>

definition min_int64 :: int where "min_int64 = - (2 ^ 63)"

definition add_int64 :: "int \<Rightarrow> int \<Rightarrow> go_error + int" where
  "add_int64 target v =
     (if v > 0 \<and> target > max_int64 - v \<or> v < 0 \<and> target < min_int64 - v then Inl (invalid_generation ''usage'') else Inr (target + v))"

definition scan_usage :: "AdminAgentUsage \<Rightarrow> go_error + AdminAgentUsage" where
  "scan_usage r =
     (if auAttempts r > 2147483647 \<or> auKnownTokens r < min_int64 \<or> auKnownTokens r > max_int64 \<or>
         auChargedTokens r < min_int64 \<or> auChargedTokens r > max_int64 then Inl ErrUnavailable else Inr r)"

fun sum_usage :: "AdminAgentUsage list \<Rightarrow> AdminDayUsage \<Rightarrow> go_error + AdminDayUsage" where
  "sum_usage [] u = Inr u"
| "sum_usage (r0 # rs) u =
     and_then (scan_usage r0) (\<lambda>r.
     if length (duAgents u) = max_configured_agents then Inl (invalid_generation ''agents'')
     else
       and_then (add_int64 (duAttempts u) (auAttempts r)) (\<lambda>n.
       and_then (add_int64 (duKnownTokens u) (auKnownTokens r)) (\<lambda>known.
       and_then (add_int64 (duChargedTokens u) (auChargedTokens r)) (\<lambda>charged.
       sum_usage rs (u\<lparr>duAttempts := n, duKnownTokens := known, duChargedTokens := charged, duAgents := duAgents u @ [r]\<rparr>)))))"

definition no_usage_on :: "string \<Rightarrow> AdminDayUsage" where
  "no_usage_on day = \<lparr>duDay = day, duAttempts = 0, duKnownTokens = 0, duChargedTokens = 0, duAgents = []\<rparr>"

text \<open>\<open>dayGenerationUsage\<close>: the empty day is the database's current one; the type \<open>date\<close> has no year 0.\<close>

definition usage_on :: "time \<Rightarrow> string \<Rightarrow> ID \<Rightarrow> db \<Rightarrow> go_error + AdminDayUsage" where
  "usage_on now day0 agent d =
     (let day = (if day0 = [] then format_date now else day0) in
      if (case parse_date day of None \<Rightarrow> True | Some t \<Rightarrow> utc_year t = 0) then Inl ErrUnavailable
      else sum_usage (map (usage_row d day) (take (max_configured_agents + 1) (usage_agents d day agent))) (no_usage_on day))"

definition day_generation_usage :: "time \<Rightarrow> string \<Rightarrow> ID \<Rightarrow> db \<Rightarrow> go_error + AdminDayUsage" where
  "day_generation_usage now day agent d =
     (if day \<noteq> [] \<and> parse_date day = None then Inl (invalid_generation ''day'')
      else if agent \<noteq> [] \<and> isl (parse_id agent) then Inl (invalid_generation ''agent_id'')
      else usage_on now day agent d)"

section \<open>Configuration and status\<close>

definition configuration_valid :: "unicode \<Rightarrow> timezones \<Rightarrow> db \<Rightarrow> settings_row \<Rightarrow> bool" where
  "configuration_valid uc tz d r \<longleftrightarrow>
     srDecodable r \<and> validate_settings tz (srSettings r) = None \<and>
     (case persona_by_key d (sAgentID (srSettings r)) (sPersonaVersion (srSettings r)) of
        None \<Rightarrow> False | Some p \<Rightarrow> validate_persona uc p = None) \<and>
     (case account_by_id d (sAgentID (srSettings r)) of None \<Rightarrow> False | Some a \<Rightarrow> acc_Type a = AccountAgent)"

fun count_rows :: "unicode \<Rightarrow> timezones \<Rightarrow> db \<Rightarrow> settings_row list \<Rightarrow> int \<times> int \<Rightarrow> go_error + int \<times> int" where
  "count_rows uc tz d [] c = Inr c"
| "count_rows uc tz d (r # rs) c =
     (if fst c = int max_configured_agents then Inl (Errorf ''generation configuration exceeds 1000 agents'')
      else if \<not> configuration_valid uc tz d r then Inl ErrUnavailable
      else count_rows uc tz d rs (fst c + 1, if sEnabled (srSettings r) then snd c + 1 else snd c))"

definition count_generation_configuration :: "unicode \<Rightarrow> timezones \<Rightarrow> db \<Rightarrow> go_error + int \<times> int" where
  "count_generation_configuration uc tz d =
     count_rows uc tz d (take (max_configured_agents + 1) (sort_key (\<lambda>r. sAgentID (srSettings r)) (settings d))) (0, 0)"

text \<open>\<open>CheckGenerationConfiguration\<close> is the count in a snapshot of its own.\<close>

definition check_generation_configuration :: "unicode \<Rightarrow> timezones \<Rightarrow> db \<Rightarrow> go_error + int \<times> int" where
  "check_generation_configuration uc tz d = count_generation_configuration uc tz d"

record AdminQueueStatus =
  quPending :: int
  quRetryWait :: int
  quRunning :: int
  quSucceeded :: int
  quSkipped :: int
  quCancelled :: int
  quFailed :: int
  quOldestDue :: "time option"
  quOldestFailed :: "time option"

record AdminStatus =
  stConfigured :: int
  stEnabled :: int
  stQueue :: AdminQueueStatus
  stTodayUsage :: AdminDayUsage

definition count_status_rows :: "db \<Rightarrow> GenerationJobStatus \<Rightarrow> int" where
  "count_status_rows d s = int (length (filter (\<lambda>j. jStatus j = s) (jobs d)))"

definition oldest :: "time list \<Rightarrow> time option" where
  "oldest ts = (case ts of [] \<Rightarrow> None | t # us \<Rightarrow> Some (fold min us t))"

definition queue_status :: "time \<Rightarrow> db \<Rightarrow> AdminQueueStatus" where
  "queue_status now d =
     \<lparr>quPending = count_status_rows d JobPending, quRetryWait = count_status_rows d JobRetryWait,
      quRunning = count_status_rows d JobRunning, quSucceeded = count_status_rows d JobSucceeded,
      quSkipped = count_status_rows d JobSkipped, quCancelled = count_status_rows d JobCancelled,
      quFailed = count_status_rows d JobFailed,
      quOldestDue = oldest (map jAvailableAt (filter (\<lambda>j. (jStatus j = JobPending \<or> jStatus j = JobRetryWait) \<and>
        jAvailableAt j \<le> now \<and> now < jExpiresAt j) (jobs d))),
      quOldestFailed = oldest (map jCreatedAt (filter (\<lambda>j. jStatus j = JobFailed) (jobs d)))\<rparr>"

definition generation_status :: "unicode \<Rightarrow> timezones \<Rightarrow> time \<Rightarrow> db \<Rightarrow> go_error + AdminStatus" where
  "generation_status uc tz now d =
     and_then (count_generation_configuration uc tz d) (\<lambda>(configured, enabled).
     and_then (usage_on now (format_date now) [] d) (\<lambda>usage.
     Inr \<lparr>stConfigured = configured, stEnabled = enabled, stQueue = queue_status now d, stTodayUsage = usage\<lparr>duAgents := []\<rparr>\<rparr>))"

section \<open>What the usage report charges\<close>

lemma charged_tokens_spent: "charged_tokens = spent_cost"
  by (rule ext) (simp add: charged_tokens_def spent_cost_def)

lemma sum_groups:
  fixes f :: "'a \<Rightarrow> int"
  assumes "distinct as" "\<forall>t \<in> set ts. g t \<in> set as"
  shows "sum_list (map (\<lambda>a. sum_list (map f (filter (\<lambda>t. g t = a) ts))) as) = sum_list (map f ts)"
  using assms(2)
proof (induction ts)
  case (Cons t ts)
  have "sum_list (map (\<lambda>a. if g t = a then f t else 0) as) = f t"
    using assms(1) Cons.prems by (simp add: sum_list_distinct_conv_sum_set)
  moreover have "sum_list (map (\<lambda>a. sum_list (map f (filter (\<lambda>t. g t = a) (t # ts)))) as) =
      sum_list (map (\<lambda>a. if g t = a then f t else 0) as) + sum_list (map (\<lambda>a. sum_list (map f (filter (\<lambda>t. g t = a) ts))) as)"
    unfolding sum_list_addf [symmetric] by (rule arg_cong [where f = sum_list]) simp
  ultimately show ?case using Cons by simp
qed simp

lemma sum_usage_Inr:
  assumes "sum_usage rows u = Inr u'" "length (duAgents u) \<le> max_configured_agents"
  shows "duAgents u' = duAgents u @ rows \<and> duDay u' = duDay u \<and> length (duAgents u') \<le> max_configured_agents \<and>
    duAttempts u' = duAttempts u + sum_list (map auAttempts rows) \<and>
    duChargedTokens u' = duChargedTokens u + sum_list (map auChargedTokens rows) \<and>
    duKnownTokens u' = duKnownTokens u + sum_list (map auKnownTokens rows)"
  using assms
proof (induction rows arbitrary: u)
  case (Cons r rs)
  obtain n known charged where s: "length (duAgents u) \<noteq> max_configured_agents" "add_int64 (duAttempts u) (auAttempts r) = Inr n"
    "add_int64 (duKnownTokens u) (auKnownTokens r) = Inr known" "add_int64 (duChargedTokens u) (auChargedTokens r) = Inr charged"
    "sum_usage rs (u\<lparr>duAttempts := n, duKnownTokens := known, duChargedTokens := charged, duAgents := duAgents u @ [r]\<rparr>) = Inr u'"
    using Cons.prems(1) by (auto simp: scan_usage_def split: if_splits)
  moreover have "n = duAttempts u + auAttempts r" "known = duKnownTokens u + auKnownTokens r" "charged = duChargedTokens u + auChargedTokens r"
    using s(2-4) by (auto simp: add_int64_def split: if_splits)
  ultimately show ?case using Cons.IH [OF s(5)] Cons.prems(2) by auto
qed simp

lemma spent_on_agent:
  "filter (\<lambda>t. aBudgetDay t = day \<and> attempt_agent d t = Some agent) (attempts d) =
   filter (\<lambda>t. the (attempt_agent d t) = agent) (spent_on d day)"
  by (auto simp: spent_on_def attempt_agent_def intro!: filter_cong)

lemma agent_spent_row: "agent_spent d day agent = auChargedTokens (usage_row d day agent)"
proof -
  have "filter (\<lambda>t. map_option jAgentID (job_row d (aJobID t)) = Some agent) (spent_on d day) =
      filter (\<lambda>t. aBudgetDay t = day \<and> attempt_agent d t = Some agent) (attempts d)"
    by (auto simp: spent_on_def attempt_agent_def intro!: filter_cong)
  then show ?thesis by (simp add: agent_spent_def usage_row_def charged_tokens_spent Let_def)
qed

text \<open>
  C34: The usage report charges exactly what admission counts against the budgets: the day's total is the sum that a new
  reservation is checked against, each agent's row is the agent's own, and every attempt of the day is in one row.
\<close>

theorem usage_matches_admission:
  assumes "day_generation_usage now day [] d = Inr u"
  shows "duChargedTokens u = global_spent d (duDay u) \<and> duAttempts u = int (length (spent_on d (duDay u))) \<and>
    (\<forall>r \<in> set (duAgents u). auChargedTokens r = agent_spent d (duDay u) (auAgentID r)) \<and>
    (day \<noteq> [] \<longrightarrow> duDay u = day) \<and> (day = [] \<longrightarrow> duDay u = format_date now)"
proof -
  define today where "today = (if day = [] then format_date now else day)"
  let ?agents = "usage_agents d today []" and ?row = "usage_row d today"
  have s: "sum_usage (map ?row (take (max_configured_agents + 1) ?agents)) (no_usage_on today) = Inr u"
    using assms by (simp add: day_generation_usage_def usage_on_def Let_def today_def split: if_splits)
  have "length (duAgents (no_usage_on today)) \<le> max_configured_agents" by (simp add: no_usage_on_def)
  note R = sum_usage_Inr [OF s this, unfolded no_usage_on_def AdminDayUsage.simps append_Nil add_0]
  then have r: "duAgents u = map ?row (take (max_configured_agents + 1) ?agents)" "duDay u = today"
    "length (duAgents u) \<le> max_configured_agents" by blast+
  have sums: "duAttempts u = sum_list (map auAttempts (duAgents u))" "duChargedTokens u = sum_list (map auChargedTokens (duAgents u))"
    using R by (simp_all only:)
  have "length ?agents \<le> max_configured_agents" using r(1,3) by (auto simp: min_def split: if_splits)
  then have agents: "duAgents u = map ?row ?agents" and day: "duDay u = today" using r(1,2) by simp_all
  have all: "distinct ?agents" "\<forall>t \<in> set (spent_on d today). the (attempt_agent d t) \<in> set ?agents"
    by (auto simp: usage_agents_def spent_on_def attempt_agent_def)
  have "sum_list (map (\<lambda>a. auChargedTokens (?row a)) ?agents) = global_spent d today"
    using sum_groups [OF all, of spent_cost] by (simp add: usage_row_def spent_on_agent global_spent_def charged_tokens_spent Let_def)
  moreover have "sum_list (map (\<lambda>a. auAttempts (?row a)) ?agents) = int (length (spent_on d today))"
    using sum_groups [OF all, of "\<lambda>_. 1"] by (simp add: usage_row_def spent_on_agent Let_def sum_list_triv)
  ultimately have "duChargedTokens u = global_spent d today" "duAttempts u = int (length (spent_on d today))"
    unfolding sums agents map_map o_def by simp_all
  moreover have "auChargedTokens r = agent_spent d today (auAgentID r)" if "r \<in> set (duAgents u)" for r
    using that unfolding agents agent_spent_row by (auto simp: usage_row_def Let_def)
  ultimately show ?thesis using day by (simp add: today_def)
qed

lemma sample_usage:
  "day_generation_usage 0 ''0001-01-01'' [] state4b =
     Inr \<lparr>duDay = ''0001-01-01'', duAttempts = 1, duKnownTokens = 0, duChargedTokens = ReservedTokensPerCall,
       duAgents = [\<lparr>auAgentID = sample_id CHR ''2'', auAttempts = 1, auKnownTokens = 0, auChargedTokens = ReservedTokensPerCall\<rparr>]\<rparr>"
proof -
  have d: "parse_date ''0001-01-01'' = Some 0" "utc_year 0 = 1" by code_simp+
  have a: "attempt_agent state4b spent_unknown = Some (sample_id CHR ''2'')" "attempts state4b = [spent_unknown]"
    by (simp_all add: attempt_agent_def state4b_def state_defs job_row_def)
       (simp_all add: spent_unknown_def settle_fields_def spent_def plan_claimed_def plan_def Let_def)
  have u: "aBudgetDay spent_unknown = ''0001-01-01''" "known_tokens spent_unknown = None" "charged_tokens spent_unknown = ReservedTokensPerCall"
    by (simp_all add: known_tokens_def charged_tokens_def spent_unknown_def settle_fields_def settled_status_def failed_outcome_def spent_def Let_def)
  have "usage_agents state4b ''0001-01-01'' [] = [sample_id CHR ''2'']" using a u by (simp add: usage_agents_def)
  moreover have "usage_row state4b ''0001-01-01'' (sample_id CHR ''2'') =
      \<lparr>auAgentID = sample_id CHR ''2'', auAttempts = 1, auKnownTokens = 0, auChargedTokens = ReservedTokensPerCall\<rparr>"
    using a u by (simp add: usage_row_def)
  ultimately show ?thesis
    using d by (simp add: day_generation_usage_def usage_on_def scan_usage_def add_int64_def no_usage_on_def min_int64_def max_int64_def
        max_configured_agents_def ReservedTokensPerCall_def ContextWindowTokens_def MaxOutputTokens_def)
qed

theorem usage_matches_admission_witness:
  "global_spent state4b ''0001-01-01'' = ReservedTokensPerCall \<and> agent_spent state4b ''0001-01-01'' (sample_id CHR ''2'') = ReservedTokensPerCall"
  using usage_matches_admission [OF sample_usage] by simp

section \<open>Reading all jobs\<close>

text \<open>Jobs as the store keeps them: readable, with instants that a token can carry.\<close>

definition jobs_stored :: "db \<Rightarrow> bool" where
  "jobs_stored d \<longleftrightarrow> distinct (jobs d) \<and>
     (\<forall>j \<in> set (jobs d). job_by_id d (jID j) = Inr j \<and> jCreatedAt j \<noteq> 0 \<and> 0 \<le> utc_year (jCreatedAt j) \<and> utc_year (jCreatedAt j) \<le> 9999)"

lemma stored_ids:
  assumes "jobs_stored d"
  shows "inj_on jID (set (jobs d))" "j \<in> set (jobs d) \<Longrightarrow> valid_generation_id (jID j)"
proof -
  show "inj_on jID (set (jobs d))" using assms by (intro inj_onI) (metis jobs_stored_def sum.inject(2))
  show "valid_generation_id (jID j)" if "j \<in> set (jobs d)"
  proof -
    have "job_by_id d (jID j) = Inr j" using assms that by (simp add: jobs_stored_def)
    then have "validate_job j = None" by (auto simp: job_by_id_def split: option.splits if_splits)
    then show ?thesis by (simp add: validate_job_iff job_core_def)
  qed
qed

lemma append_int_chars: "c \<in> set (append_int x w) \<Longrightarrow> is_digit (byte c) \<or> c = CHR ''-''"
  using dec_digits_digit by (auto simp: append_int_def pad_left_def is_digit_def split: if_splits)

lemma format_instant_plain: "CHR ''|'' \<notin> set (format_instant t)"
proof -
  have "\<not> (is_digit (byte CHR ''|'') \<or> CHR ''|'' = CHR ''-'')" by (simp add: is_digit_def)
  then have a: "CHR ''|'' \<notin> set (append_int x w)" for x w using append_int_chars by blast
  have "CHR ''|'' \<notin> set (dropWhile P (rev (append_int x 9)))" for P x
    using a [of x 9] set_dropWhileD [of _ P "rev (append_int x 9)"] by auto
  then show ?thesis using a
    by (auto simp: format_instant_def format_date_def format_day_def format_fraction_def Let_def split: prod.splits)
qed

lemma format_instant_length:
  assumes "0 \<le> utc_year t" "utc_year t \<le> 9999"
  shows "length (format_instant t) \<le> 30"
proof -
  obtain y m d where n: "date_of_day (utc_day t) = (y, m, d)" by (metis prod.collapse)
  then have "0 \<le> y" "y \<le> 9999" using assms by (simp_all add: utc_year_def)
  then have date: "length (format_date t) = 10" using length_format_day [OF n] by (simp add: format_date_def)
  have two: "length (append_int x 2) = 2" if "0 \<le> x" "x < 100" for x using append_int_2 [OF that] by simp
  define s where "s = t mod day_ns div second"
  have "length (append_int (s div 3600) 2) = 2" "length (append_int (s div 60 mod 60) 2) = 2" "length (append_int (s mod 60) 2) = 2"
    using clock_parts(1,2) [of t, folded s_def] by (intro two; simp)+
  moreover have "length (format_fraction (t mod second)) \<le> 10"
  proof -
    have "length (append_int (t mod second) 9) = 9" using append_int_9 [of "t mod second"] by simp
    then show ?thesis using length_dropWhile_le [of "\<lambda>c. c = CHR ''0''" "rev (append_int (t mod second) 9)"]
      by (simp add: format_fraction_def)
  qed
  ultimately show ?thesis using date by (simp add: format_instant_def Let_def flip: s_def)
qed

text \<open>A token is read back as the cursor it was made from.\<close>

lemma admin_token_roundtrip:
  assumes "valid_generation_id (acJobID c)" "acCreatedAt c \<noteq> 0" "0 \<le> utc_year (acCreatedAt c)" "utc_year (acCreatedAt c) \<le> 9999"
  shows "decode_admin_cursor (admin_token c) = Inr c"
proof -
  have "takeWhile (\<lambda>c. c \<noteq> CHR ''|'') (format_instant t @ CHR ''|'' # r) = format_instant t" for t r
    using format_instant_plain [of t] by (simp add: takeWhile_tail takeWhile_append2 [of "format_instant t"])
       (metis (mono_tags, lifting) takeWhile_eq_all_conv)
  then have s: "split_bar (admin_token c) = Some (format_instant (acCreatedAt c), acJobID c)"
    by (simp add: split_bar_def admin_token_def Let_def)
  have "length (admin_token c) \<le> admin_job_cursor_max_len"
    using format_instant_length [OF assms(3,4)] generation_id_length [OF assms(1)]
    by (simp add: admin_token_def admin_job_cursor_max_len_def)
  moreover have "parse_id (acJobID c) = Inr (acJobID c)" using assms(1) by (simp add: valid_generation_id_def)
  ultimately show ?thesis
    using s parse_rfc3339_format [OF assms(3,4)] assms(2) by (simp add: decode_admin_cursor_def)
qed

text \<open>A client that follows the tokens of a filter.\<close>

definition fetch_jobs :: "AdminJobFilter \<Rightarrow> db \<Rightarrow> string option \<Rightarrow> GenerationJob list \<times> string option" where
  "fetch_jobs f d token =
     (case (case token of None \<Rightarrow> Inr None | Some t \<Rightarrow> and_then (decode_admin_cursor t) (\<lambda>c. Inr (Some c))) of
        Inl _ \<Rightarrow> ([], None)
      | Inr c \<Rightarrow> (case list_generation_jobs (f\<lparr>afCursor := c\<rparr>) d of Inl _ \<Rightarrow> ([], None) | Inr p \<Rightarrow> p))"

definition key_token :: "time \<times> ID \<Rightarrow> string" where
  "key_token k = admin_token \<lparr>acCreatedAt = fst k, acJobID = snd k\<rparr>"

lemma read_jobs_stored: "jobs_stored d \<Longrightarrow> set js \<subseteq> set (jobs d) \<Longrightarrow> read_jobs d (map jID js) = Inr js"
  by (induction js) (auto simp: jobs_stored_def)

lemma admin_listing_subset: "set (admin_listing d f) \<subseteq> set (jobs d)"
  by (auto simp: admin_listing_def descending_def)

lemma fetch_jobs_page:
  assumes "check_admin_filter f = None" "afCursor f = None" "jobs_stored d" "q = None \<or> (\<exists>j \<in> set (jobs d). q = Some (job_key j))"
  shows "fetch_jobs f d (map_option key_token q) =
    (case keyset_page (\<lambda>a b. b < a) job_key (nat (valid_admin_limit (afLimit f))) q (admin_listing d f) of
       (js, next_key) \<Rightarrow> (js, map_option key_token next_key))"
proof -
  define c where "c = map_option (\<lambda>k. \<lparr>acCreatedAt = fst k, acJobID = snd k\<rparr>) q"
  have k: "valid_generation_id (snd k) \<and> fst k \<noteq> 0 \<and> 0 \<le> utc_year (fst k) \<and> utc_year (fst k) \<le> 9999" if "q = Some k" for k
    using assms(3,4) that stored_ids(2) [OF assms(3)] by (auto simp: job_key_def jobs_stored_def)
  have token: "(case map_option key_token q of None \<Rightarrow> Inr None | Some t \<Rightarrow> and_then (decode_admin_cursor t) (\<lambda>c. Inr (Some c))) = Inr c"
    using k admin_token_roundtrip by (cases q) (simp_all add: c_def key_token_def)
  have canon: "canonical_id (snd k) = snd k \<and> \<not> isl (parse_id (snd k))" if "q = Some k" for k
    using k [OF that] by (simp add: canonical_id_def valid_generation_id_def)
  have check: "check_admin_filter (f\<lparr>afCursor := c\<rparr>) = None"
    using assms(1) k canon unfolding check_admin_filter_def first_error_None c_def by (cases q) simp_all
  have pos: "map_option (\<lambda>c. (acCreatedAt c, canonical_id (acJobID c))) c = q"
    using canon by (cases q) (simp_all add: c_def)
  have same: "admin_listing d (f\<lparr>afCursor := c\<rparr>) = admin_listing d f" by (simp add: admin_listing_def)
  obtain js next_key where p: "keyset_page (\<lambda>a b. b < a) job_key (nat (valid_admin_limit (afLimit f))) q (admin_listing d f) = (js, next_key)"
    by (metis prod.collapse)
  have "set js \<subseteq> set (jobs d)" using keyset_page_subset [OF p] admin_listing_subset by blast
  then have "read_jobs d (map jID js) = Inr js" by (rule read_jobs_stored [OF assms(3)])
  then show ?thesis
    unfolding fetch_jobs_def token using check p
    by (simp add: list_generation_jobs_def pos same key_token_def) (cases next_key; auto simp: key_token_def)
qed

lemma job_key_inj: "jobs_stored d \<Longrightarrow> inj_on job_key (set (jobs d))"
  using stored_ids(1) [of d] by (auto simp: inj_on_def job_key_def)

text \<open>
  Operators who follow the textual tokens of a job listing, whatever the filter and page size, read every matching job
  exactly once, newest first; the tokens are decoded to the keys they were made of, and the last page has none.
\<close>

theorem admin_jobs_read_once:
  assumes "check_admin_filter f = None" "afCursor f = None" "jobs_stored d" "length (jobs d) < k"
  shows "\<exists>js. follow_pages (fetch_jobs f d) k None = (js, None) \<and> distinct js \<and>
    set js = {j \<in> set (jobs d). (afAgentID f = [] \<or> jAgentID j = canonical_id (afAgentID f)) \<and>
      (afStatus f = [] \<or> status_text (jStatus j) = afStatus f)} \<and>
    sorted_wrt (\<lambda>a b. job_key b < job_key a) js"
proof (intro exI conjI)
  let ?rows = "admin_listing d f" and ?n = "nat (valid_admin_limit (afLimit f))"
  let ?fetch = "\<lambda>q. keyset_page (\<lambda>a b. b < a) job_key ?n q ?rows" and ?P = "insert None (Some ` job_key ` set (jobs d))"
  have n: "0 < ?n" by (simp add: valid_admin_limit_def admin_job_page_size_def)
  have d: "distinct (jobs d)" using assms(3) by (simp add: jobs_stored_def)
  show s: "sorted_wrt (\<lambda>a b. job_key b < job_key a) ?rows"
    unfolding admin_listing_def using job_key_inj [OF assms(3)] d by (intro descending_strict) (auto intro: inj_on_subset)
  have o: "asymp (\<lambda>a b :: time \<times> ID. b < a)" "irreflp (\<lambda>a b :: time \<times> ID. b < a)" "transp (\<lambda>a b :: time \<times> ID. b < a)"
    by (rule strict_order_facts, simp)+
  show "distinct ?rows" using s o(2) by (rule strictly_sorted_distinct)
  show "set ?rows = {j \<in> set (jobs d). (afAgentID f = [] \<or> jAgentID j = canonical_id (afAgentID f)) \<and>
      (afStatus f = [] \<or> status_text (jStatus j) = afStatus f)}"
    by (auto simp: admin_listing_def descending_def)
  have "length ?rows \<le> length (jobs d)" by (simp add: admin_listing_def descending_def)
  then have "length ?rows < k * ?n" using assms(4) n by (metis le_less_trans less_le_trans mult_le_mono2 mult.right_neutral Suc_leI One_nat_def)
  then have all: "follow_pages ?fetch k None = (?rows, None)"
    using follow_pages_all [OF s o n, of None k] by (simp add: after_position_def)
  have "follow_pages (fetch_jobs f d) k (map_option key_token None) = (case follow_pages ?fetch k None of (xs, q) \<Rightarrow> (xs, map_option key_token q))"
  proof (rule follow_pages_map [where P = ?P])
    show "fetch_jobs f d (map_option key_token q) = (case ?fetch q of (xs, q) \<Rightarrow> (xs, map_option key_token q))" if "q \<in> ?P" for q
      using that by (intro fetch_jobs_page [OF assms(1-3)]) auto
    show "Some q \<in> ?P" if "?fetch p = (xs, Some q)" for p xs q
      using keyset_page_next [OF that n] admin_listing_subset [of d f] by blast
  qed simp_all
  then show "follow_pages (fetch_jobs f d) k None = (?rows, None)" using all by simp
qed

text \<open>Two jobs of one agent, listed one at a time.\<close>

definition second_plan :: GenerationJob where
  "second_plan = plan\<lparr>jID := sample_id CHR ''9'', jRootJobID := sample_id CHR ''9'', jTriggerKey := ''scheduled:k2'', jCreatedAt := 2000000,
     jAvailableAt := 2000000\<rparr>"

definition planned_db :: db where "planned_db = state2\<lparr>jobs := [plan, second_plan]\<rparr>"

definition pending_filter :: AdminJobFilter where
  "pending_filter = \<lparr>afAgentID = [], afStatus = ''pending'', afCursor = None, afLimit = 1\<rparr>"

lemma planned_db_stored: "jobs_stored planned_db"
proof -
  have "validate_job second_plan = None"
    using plan_valid by (simp add: validate_job_iff job_core_def job_state_def no_result_def second_plan_def plan_def validate_trigger_def visible_text class_defs)
  moreover have "jID plan \<noteq> jID second_plan" by (simp add: plan_def second_plan_def sample_id_eq)
  moreover have "utc_year 1000000 = 1" "utc_year 2000000 = 1" by code_simp+
  moreover have "jAgentID plan = sample_id CHR ''2''" "jAgentID second_plan = sample_id CHR ''2''" "jCreatedAt plan = 1000000"
    "jCreatedAt second_plan = 2000000" by (simp_all add: plan_def second_plan_def)
  ultimately show ?thesis
    using plan_valid by (auto simp: jobs_stored_def planned_db_def state_defs job_by_id_def job_row_def account_by_id_def bot_def)
qed

theorem admin_jobs_read_once_witness:
  "follow_pages (fetch_jobs pending_filter planned_db) 3 None = ([second_plan, plan], None)"
proof -
  have c: "check_admin_filter pending_filter = None" by (simp add: check_admin_filter_def pending_filter_def)
  obtain js where js: "follow_pages (fetch_jobs pending_filter planned_db) 3 None = (js, None)" "distinct js"
    "set js = {j \<in> set (jobs planned_db). (afAgentID pending_filter = [] \<or> jAgentID j = canonical_id (afAgentID pending_filter)) \<and>
      (afStatus pending_filter = [] \<or> status_text (jStatus j) = afStatus pending_filter)}"
    "sorted_wrt (\<lambda>a b. job_key b < job_key a) js"
    using admin_jobs_read_once [OF c _ planned_db_stored, of 3] by (auto simp: pending_filter_def planned_db_def)
  have s: "set js = {plan, second_plan}"
    unfolding js(3) by (auto simp: pending_filter_def planned_db_def plan_def second_plan_def status_text_def)
  have lt: "job_key plan < job_key second_plan" by (simp add: job_key_def plan_def second_plan_def)
  then have "length js = 2" using distinct_card [OF js(2)] s by (cases "plan = second_plan") auto
  then obtain a b where ab: "js = [a, b]" by (metis length_0_conv length_Suc_conv numeral_2_eq_2)
  then have "job_key b < job_key a" "{a, b} = {plan, second_plan}" using js(4) s by simp_all
  then have "a = second_plan \<and> b = plan" using lt by (auto simp: doubleton_eq_iff)
  then show ?thesis using js(1) ab by simp
qed

end
