(* ===== verification/Serve.thy ===== *)
theory Serve
  imports Worker Admin
begin

text \<open>
  The worker's service, \<open>cmd/worker/\<close>: the scheduling step, the cycle of scheduling and execution, the loop around it with its
  reporter, and the readiness that the infrastructure probe reports (\<open>serve.go\<close>).  Every state access takes the mutex, so
  a concurrent probe sees the state between two accesses.
\<close>

section \<open>Constants and codes\<close>

definition execution_timeout :: duration where "execution_timeout = 600 * second"
definition serve_cycle_interval :: duration where "serve_cycle_interval = 5 * second"
definition serve_failure_backoff :: duration where "serve_failure_backoff = 30 * second"
definition serve_cleanup_timeout :: duration where "serve_cleanup_timeout = 5 * second"
definition serve_status_log_interval :: duration where "serve_status_log_interval = 60 * second"

definition serve_progress_staleness :: duration where
  "serve_progress_staleness = execution_timeout + 35 * second + serve_cycle_interval + serve_cleanup_timeout + 5 * second"

definition safe_execution_error :: "exec_error \<Rightarrow> ExecutionError option" where
  "safe_execution_error e = (case e of Safe c \<Rightarrow> if known_code c then Some c else None | _ \<Rightarrow> None)"

definition error_text :: "ExecutionError \<Rightarrow> string" where
  "error_text c = (case c of ExecutionStorage \<Rightarrow> ''execution_storage'' | ExecutionStopped \<Rightarrow> ''execution_stopped''
     | ExecutionCredentials \<Rightarrow> ''provider_credentials'' | ExecutionConfiguration \<Rightarrow> ''provider_configuration''
     | ExecutionAccounting \<Rightarrow> ''unsupported_accounting'' | ExecutionOther t \<Rightarrow> t)"

definition safe_error_code :: "exec_error option \<Rightarrow> string" where
  "safe_error_code e =
     (case e of None \<Rightarrow> []
      | Some x \<Rightarrow> error_text (case safe_execution_error x of Some c \<Rightarrow> c | None \<Rightarrow> ExecutionStorage))"

definition fatal_code :: "ExecutionError \<Rightarrow> bool" where
  "fatal_code c \<longleftrightarrow> c \<in> {ExecutionCredentials, ExecutionConfiguration, ExecutionAccounting}"

section \<open>Readiness\<close>

record serve_state =
  shuttingDown :: bool
  storageHealthy :: bool
  providerDegraded :: bool
  lastCompletedCycle :: time
  lastStatusLog :: time

definition new_serve_state :: serve_state where
  "new_serve_state = \<lparr>shuttingDown = False, storageHealthy = False, providerDegraded = False, lastCompletedCycle = 0, lastStatusLog = 0\<rparr>"

definition set_shutting_down :: "serve_state \<Rightarrow> serve_state" where "set_shutting_down s = s\<lparr>shuttingDown := True\<rparr>"
definition mark_storage_unhealthy :: "serve_state \<Rightarrow> serve_state" where "mark_storage_unhealthy s = s\<lparr>storageHealthy := False\<rparr>"

definition record_provider_evidence :: "ExecutionSummary \<Rightarrow> serve_state \<Rightarrow> serve_state" where
  "record_provider_evidence m s = (if smCalls m > 0 then s\<lparr>providerDegraded := (smCallsSucceeded m \<noteq> smCalls m)\<rparr> else s)"

definition record_completed_cycle :: "time \<Rightarrow> ExecutionSummary \<Rightarrow> serve_state \<Rightarrow> serve_state" where
  "record_completed_cycle now m s = record_provider_evidence m (s\<lparr>lastCompletedCycle := now, storageHealthy := True\<rparr>)"

text \<open>The difference of two instants saturates far above the interval, so it compares like the exact one.\<close>

definition take_status_log_slot :: "time \<Rightarrow> serve_state \<Rightarrow> serve_state \<times> bool" where
  "take_status_log_slot now s =
     (if now - lastStatusLog s < serve_status_log_interval then (s, False) else (s\<lparr>lastStatusLog := now\<rparr>, True))"

definition ready_locked :: "time \<Rightarrow> serve_state \<Rightarrow> bool" where
  "ready_locked now s \<longleftrightarrow>
     \<not> (shuttingDown s \<or> \<not> storageHealthy s \<or> providerDegraded s \<or> lastCompletedCycle s = 0) \<and>
     now - lastCompletedCycle s \<le> serve_progress_staleness"

text \<open>\<open>Ready\<close>: the state before the database probe, the probe, and the state after it.\<close>

definition ready_probe :: "serve_state \<Rightarrow> time \<Rightarrow> bool \<Rightarrow> serve_state \<Rightarrow> time \<Rightarrow> bool" where
  "ready_probe s1 t1 db_ready s2 t2 \<longleftrightarrow> ready_locked t1 s1 \<and> db_ready \<and> ready_locked t2 s2"

section \<open>The environment\<close>

text \<open>The lines of the log.  \<open>LogExecution\<close> is written after a pass whether it failed or not.\<close>

datatype log_line =
    LogSchedule schedule_result
  | LogExecution ExecutionSummary string
  | LogDegraded
  | LogStatus AdminStatus
  | LogStatusUnavailable
  | LogCycleComplete
  | LogCycleError string
  | LogFatal string
  | LogReporterFailure

text \<open>
  \<open>svSchedule\<close>: \<open>ScheduleGeneration\<close> with its partial result; \<open>svExecute\<close>: one pass; \<open>svWait\<close>: whether the context ended before
  the duration was over; \<open>svWrite\<close>: whether the line could not be written.
\<close>

record 's serve_env =
  svEnded :: "'s \<Rightarrow> 's \<times> exec_error option"
  svNow :: "'s \<Rightarrow> 's \<times> time"
  svReady :: "'s \<Rightarrow> 's \<times> exec_error option"
  svSchedule :: "'s \<Rightarrow> 's \<times> schedule_result \<times> exec_error option"
  svExecute :: "'s \<Rightarrow> 's \<times> ExecutionSummary \<times> ExecutionError option"
  svStatus :: "'s \<Rightarrow> 's \<times> (exec_error + AdminStatus)"
  svWrite :: "log_line \<Rightarrow> 's \<Rightarrow> 's \<times> bool"
  svWait :: "duration \<Rightarrow> 's \<Rightarrow> 's \<times> bool"

text \<open>The world, the readiness, and whether the reporter has failed (\<open>lockedWriter\<close> keeps its first failure).\<close>

record 's service =
  seWorld :: 's
  seState :: serve_state
  seBroken :: bool

definition world_op :: "('s \<Rightarrow> 's \<times> 'a) \<Rightarrow> 's service \<Rightarrow> 's service \<times> 'a" where
  "world_op f v = (case f (seWorld v) of (w, x) \<Rightarrow> (v\<lparr>seWorld := w\<rparr>, x))"

definition log_to :: "'s serve_env \<Rightarrow> log_line \<Rightarrow> 's service \<Rightarrow> 's service" where
  "log_to en l v = (case svWrite en l (seWorld v) of (w, failed) \<Rightarrow> v\<lparr>seWorld := w, seBroken := (seBroken v \<or> failed)\<rparr>)"

definition on_state :: "(serve_state \<Rightarrow> serve_state) \<Rightarrow> 's service \<Rightarrow> 's service" where
  "on_state f v = v\<lparr>seState := f (seState v)\<rparr>"

section \<open>One cycle\<close>

text \<open>\<open>schedule\<close> (\<open>schedule.go\<close>): readiness before any mutation, the context around it.\<close>

definition schedule_pass :: "'s serve_env \<Rightarrow> 's \<Rightarrow> 's \<times> schedule_result \<times> exec_error option" where
  "schedule_pass en w0 =
     (case svEnded en w0 of
        (w1, Some e) \<Rightarrow> (w1, no_schedule, Some e)
      | (w1, None) \<Rightarrow>
          (case svReady en w1 of
             (w2, Some e) \<Rightarrow> (w2, no_schedule, Some e)
           | (w2, None) \<Rightarrow>
               (case svEnded en w2 of
                  (w3, Some e) \<Rightarrow> (w3, no_schedule, Some e)
                | (w3, None) \<Rightarrow>
                    (case svSchedule en w3 of
                       (w4, result, Some e) \<Rightarrow> (w4, result, Some e)
                     | (w4, result, None) \<Rightarrow> (case svEnded en w4 of (w5, e) \<Rightarrow> (w5, result, e))))))"

definition log_generation_status :: "'s serve_env \<Rightarrow> 's service \<Rightarrow> 's service \<times> exec_error option" where
  "log_generation_status en v =
     (case world_op (svStatus en) v of
        (v1, Inl e) \<Rightarrow> (log_to en LogStatusUnavailable v1, Some e)
      | (v1, Inr status) \<Rightarrow> (log_to en (LogStatus status) v1, None))"

text \<open>What follows a pass that did not fail.\<close>

definition complete_cycle :: "'s serve_env \<Rightarrow> ExecutionSummary \<Rightarrow> 's service \<Rightarrow> 's service \<times> exec_error option" where
  "complete_cycle en m v0 =
     (let (v1, now) = world_op (svNow en) v0;
          v2 = on_state (record_completed_cycle now m) v1;
          v3 = (if providerDegraded (seState v2) then log_to en LogDegraded v2 else v2);
          (v4, later_now) = world_op (svNow en) v3;
          (st, slot) = take_status_log_slot later_now (seState v4);
          v5 = v4\<lparr>seState := st\<rparr>;
          (v6, failure) = (if slot then log_generation_status en v5 else (v5, None))
      in case failure of
           Some e \<Rightarrow> (on_state mark_storage_unhealthy v6, Some e)
         | None \<Rightarrow> (log_to en LogCycleComplete v6, None))"

definition run_serve_cycle :: "'s serve_env \<Rightarrow> 's service \<Rightarrow> 's service \<times> exec_error option" where
  "run_serve_cycle en v0 =
     (case world_op (schedule_pass en) v0 of
        (v1, _, Some e) \<Rightarrow> (v1, Some e)
      | (v1, result, None) \<Rightarrow>
          let v2 = log_to en (LogSchedule result) v1 in
          if seBroken v2 then (on_state mark_storage_unhealthy v2, Some (Safe ExecutionStorage))
          else
            let (v3, m, failure) = world_op (svExecute en) v2;
                v4 = log_to en (LogExecution m (safe_error_code (map_option Safe failure))) (on_state (record_provider_evidence m) v3)
            in case failure of Some c \<Rightarrow> (v4, Some (Safe c)) | None \<Rightarrow> complete_cycle en m v4)"

section \<open>The loop\<close>

definition reporter_failure :: "'s serve_env \<Rightarrow> 's service \<Rightarrow> 's service \<times> ExecutionError" where
  "reporter_failure en v = (on_state mark_storage_unhealthy (log_to en LogReporterFailure v), ExecutionStorage)"

text \<open>After a failed cycle that is not fatal: the failure is logged, the service is unready, and the loop backs off.\<close>

definition after_failure :: "'s serve_env \<Rightarrow> exec_error \<Rightarrow> 's service \<Rightarrow> 's service \<times> ExecutionError option" where
  "after_failure en e v =
     (let v1 = log_to en (LogCycleError (safe_error_code (Some e))) v in
      if seBroken v1 then apsnd Some (reporter_failure en v1)
      else
        let (v2, ended) = world_op (svWait en serve_failure_backoff) (on_state mark_storage_unhealthy v1) in
        (v2, if ended then Some ExecutionStopped else None))"

text \<open>What the loop does with the result of a cycle: it stops with a code or goes on.\<close>

definition after_cycle :: "'s serve_env \<Rightarrow> 's service \<times> exec_error option \<Rightarrow> 's service \<times> ExecutionError option" where
  "after_cycle en c =
     (case c of (v, r) \<Rightarrow>
      if seBroken v then apsnd Some (reporter_failure en v)
      else
        (case r of
           None \<Rightarrow> (let (v1, ended) = world_op (svWait en serve_cycle_interval) v in (v1, if ended then Some ExecutionStopped else None))
         | Some e \<Rightarrow>
             (case safe_execution_error e of
                Some c \<Rightarrow> if fatal_code c then (log_to en (LogFatal (error_text c)) v, Some c) else after_failure en e v
              | None \<Rightarrow> after_failure en e v)))"

definition before_cycle :: "'s serve_env \<Rightarrow> 's service \<Rightarrow> 's service \<times> ExecutionError option" where
  "before_cycle en v0 =
     (case world_op (svEnded en) v0 of
        (v1, Some _) \<Rightarrow> (v1, Some ExecutionStopped)
      | (v1, None) \<Rightarrow> if seBroken v1 then apsnd Some (reporter_failure en v1) else (v1, None))"

text \<open>The service may run forever; \<open>None\<close> says that it is still running after as many cycles as the fuel.\<close>

fun serve_cycles :: "'s serve_env \<Rightarrow> nat \<Rightarrow> 's service \<Rightarrow> ('s service \<times> ExecutionError) option" where
  "serve_cycles en 0 v = None"
| "serve_cycles en (Suc n) v =
     (case before_cycle en v of
        (v1, Some c) \<Rightarrow> Some (v1, c)
      | (v1, None) \<Rightarrow>
          (case after_cycle en (run_serve_cycle en v1) of
             (v2, Some c) \<Rightarrow> Some (v2, c)
           | (v2, None) \<Rightarrow> serve_cycles en n v2))"

section \<open>The end of the service\<close>

text \<open>
  The result of \<open>serveListener\<close> once the loop and the listener are joined: a failed listener or shutdown first, then the
  loop's own code, and \<open>run\<close> turns a clean stop by a signal into success.
\<close>

definition listener_result :: "bool \<Rightarrow> bool \<Rightarrow> exec_error option \<Rightarrow> ExecutionError option" where
  "listener_result listener_failed shutdown_failed cycle_err =
     (if listener_failed \<or> shutdown_failed then Some ExecutionConfiguration
      else (case cycle_err of
              None \<Rightarrow> None
            | Some e \<Rightarrow> Some (case safe_execution_error e of Some c \<Rightarrow> c | None \<Rightarrow> ExecutionStorage)))"

definition run_serve_result :: "bool \<Rightarrow> ExecutionError option \<Rightarrow> ExecutionError option" where
  "run_serve_result cancelled r = (if cancelled \<and> r = Some ExecutionStopped then None else r)"

text \<open>\<open>reportExecution\<close> of the one-shot command: the safe code, unless the report itself could not be written.\<close>

definition report_execution :: "bool \<Rightarrow> exec_error option \<Rightarrow> string option" where
  "report_execution write_failed failure =
     (if write_failed then Some ''execution_output''
      else map_option (\<lambda>e. error_text (case safe_execution_error e of Some c \<Rightarrow> c | None \<Rightarrow> ExecutionStorage)) failure)"

section \<open>Readiness as a function of what happened\<close>

text \<open>What happens to the state, in the order of its mutex.\<close>

datatype serve_event = Evidence ExecutionSummary | Completed time ExecutionSummary | StorageFailed | SlotTaken time | ShutDown

definition apply_event :: "serve_event \<Rightarrow> serve_state \<Rightarrow> serve_state" where
  "apply_event e s =
     (case e of
        Evidence m \<Rightarrow> record_provider_evidence m s
      | Completed t m \<Rightarrow> record_completed_cycle t m s
      | StorageFailed \<Rightarrow> mark_storage_unhealthy s
      | SlotTaken t \<Rightarrow> fst (take_status_log_slot t s)
      | ShutDown \<Rightarrow> set_shutting_down s)"

definition state_after :: "serve_event list \<Rightarrow> serve_state" where
  "state_after es = fold apply_event es new_serve_state"

text \<open>The specification: the last verdict on the storage, and the last pass that called the provider.\<close>

definition storage_verdicts :: "serve_event list \<Rightarrow> time option list" where
  "storage_verdicts es = concat (map (\<lambda>e. case e of Completed t _ \<Rightarrow> [Some t] | StorageFailed \<Rightarrow> [None] | _ \<Rightarrow> []) es)"

definition provider_passes :: "serve_event list \<Rightarrow> ExecutionSummary list" where
  "provider_passes es =
     filter (\<lambda>m. smCalls m > 0) (concat (map (\<lambda>e. case e of Completed _ m \<Rightarrow> [m] | Evidence m \<Rightarrow> [m] | _ \<Rightarrow> []) es))"

lemma state_after_snoc [simp]: "state_after [] = new_serve_state" "state_after (es @ [e]) = apply_event e (state_after es)"
  by (simp_all add: state_after_def)

lemma spec_snoc [simp]:
  "storage_verdicts [] = []" "provider_passes [] = []"
  "storage_verdicts (es @ [e]) = storage_verdicts es @ (case e of Completed t _ \<Rightarrow> [Some t] | StorageFailed \<Rightarrow> [None] | _ \<Rightarrow> [])"
  "provider_passes (es @ [e]) = provider_passes es @
     filter (\<lambda>m. smCalls m > 0) (case e of Completed _ m \<Rightarrow> [m] | Evidence m \<Rightarrow> [m] | _ \<Rightarrow> [])"
  by (simp_all add: storage_verdicts_def provider_passes_def)

lemmas state_defs = apply_event_def new_serve_state_def record_provider_evidence_def record_completed_cycle_def
  mark_storage_unhealthy_def set_shutting_down_def take_status_log_slot_def

lemma state_after_shutting: "shuttingDown (state_after es) \<longleftrightarrow> ShutDown \<in> set es"
  by (induction es rule: rev_induct) (auto simp: state_defs split: serve_event.splits)

lemma state_after_degraded:
  "providerDegraded (state_after es) \<longleftrightarrow> (case rev (provider_passes es) of [] \<Rightarrow> False | m # _ \<Rightarrow> smCallsSucceeded m \<noteq> smCalls m)"
  by (induction es rule: rev_induct) (simp_all add: state_defs split: serve_event.split)

lemma state_after_healthy:
  "storageHealthy (state_after es) \<longleftrightarrow> (case rev (storage_verdicts es) of Some t # _ \<Rightarrow> True | _ \<Rightarrow> False)"
  by (induction es rule: rev_induct) (simp_all add: state_defs split: serve_event.split)

lemma state_after_completed:
  "rev (storage_verdicts es) = Some t # r \<Longrightarrow> lastCompletedCycle (state_after es) = t"
  by (induction es arbitrary: t r rule: rev_induct) (simp_all add: state_defs split: serve_event.split_asm)

text \<open>
  C35: The worker reports ready exactly when it is not shutting down, the latest verdict on its storage is a cycle completed
  within the staleness bound, and the latest pass that called the provider had only successful calls: a failed call is
  remembered over later passes that make none, whatever else happens.
\<close>

theorem ready_exactly:
  "ready_locked now (state_after es) \<longleftrightarrow>
     ShutDown \<notin> set es \<and>
     (case rev (storage_verdicts es) of Some t # _ \<Rightarrow> t \<noteq> 0 \<and> now - t \<le> 650 * second | _ \<Rightarrow> False) \<and>
     (case rev (provider_passes es) of [] \<Rightarrow> True | m # _ \<Rightarrow> smCallsSucceeded m = smCalls m)"
  using state_after_completed [of es] state_after_shutting [of es] state_after_degraded [of es] state_after_healthy [of es]
  by (auto simp: ready_locked_def serve_progress_staleness_def execution_timeout_def serve_cycle_interval_def serve_cleanup_timeout_def
      split: list.splits option.splits)

section \<open>The running loop\<close>

text \<open>What a step does to the state is a list of those events.\<close>

definition evolves_by :: "'s service \<Rightarrow> serve_event list \<Rightarrow> 's service \<Rightarrow> bool" where
  "evolves_by v es v' \<longleftrightarrow> seState v' = fold apply_event es (seState v) \<and> (seBroken v \<longrightarrow> seBroken v')"

lemma evolves_trans: "evolves_by a es b \<Longrightarrow> evolves_by b fs c \<Longrightarrow> evolves_by a (es @ fs) c"
  by (simp add: evolves_by_def)

lemma evolves_steps:
  "world_op f v = (v', x) \<Longrightarrow> evolves_by v [] v'" "evolves_by v [] (log_to en l v)"
  "evolves_by v [StorageFailed] (on_state mark_storage_unhealthy v)" "evolves_by v [Evidence m] (on_state (record_provider_evidence m) v)"
  "evolves_by v [Completed t m] (on_state (record_completed_cycle t m) v)"
  "take_status_log_slot t (seState v) = (st, slot) \<Longrightarrow> evolves_by v [SlotTaken t] (v\<lparr>seState := st\<rparr>)"
  by (auto simp: evolves_by_def world_op_def log_to_def on_state_def apply_event_def split: prod.splits)

lemma log_to_simps [simp]: "seState (log_to en l v) = seState v" "seBroken v \<Longrightarrow> seBroken (log_to en l v)"
  by (simp_all add: log_to_def split: prod.split)

lemma status_events: "log_generation_status en v = (v', r) \<Longrightarrow> evolves_by v [] v'"
  by (auto simp: log_generation_status_def evolves_by_def world_op_def split: prod.splits sum.splits)

lemma no_stop: "apsnd Some p \<noteq> (u, None)"
  by (cases p) simp

lemma complete_cycle_events:
  assumes "complete_cycle en m v = (v', r)"
  shows "\<exists>t t'. evolves_by v ([Completed t m, SlotTaken t'] @ (if r = None then [] else [StorageFailed])) v'"
proof -
  obtain v1 t where 1: "world_op (svNow en) v = (v1, t)" by (metis prod.collapse)
  define v2 where "v2 = on_state (record_completed_cycle t m) v1"
  define v3 where "v3 = (if providerDegraded (seState v2) then log_to en LogDegraded v2 else v2)"
  obtain v4 t' where 4: "world_op (svNow en) v3 = (v4, t')" by (metis prod.collapse)
  obtain st slot where s: "take_status_log_slot t' (seState v4) = (st, slot)" by (metis prod.collapse)
  define v5 where "v5 = v4\<lparr>seState := st\<rparr>"
  obtain v6 failure where 6: "(if slot then log_generation_status en v5 else (v5, None)) = (v6, failure)" by (metis prod.collapse)
  have "evolves_by v [Completed t m] v2" using evolves_trans [OF evolves_steps(1) [OF 1] evolves_steps(5)] by (simp add: v2_def)
  moreover have "evolves_by v2 [] v3" by (simp add: v3_def evolves_by_def log_to_def split: prod.split)
  moreover have "evolves_by v4 [SlotTaken t'] v5" unfolding v5_def using s by (rule evolves_steps(6))
  moreover have "evolves_by v5 [] v6"
    using 6 status_events [of en v5 v6 failure] by (cases slot) (simp_all add: evolves_by_def)
  ultimately have e: "evolves_by v [Completed t m, SlotTaken t'] v6"
    using evolves_steps(1) [OF 4] by (simp add: evolves_by_def)
  have "(v', r) = (case failure of Some e \<Rightarrow> (on_state mark_storage_unhealthy v6, Some e) | None \<Rightarrow> (log_to en LogCycleComplete v6, None))"
    using assms unfolding complete_cycle_def 1 Let_def prod.case v2_def [symmetric] v3_def [symmetric] 4 s v5_def [symmetric] 6 by simp
  then show ?thesis
    using evolves_trans [OF e evolves_steps(2)] evolves_trans [OF e evolves_steps(3)] by (cases failure) auto
qed

text \<open>
  A cycle that succeeds has run a pass and recorded it; a pass that failed is recorded too, before its code is returned; without a
  pass nothing is recorded.
\<close>

lemma cycle_events:
  assumes "run_serve_cycle en v = (v', r)"
  shows "(\<exists>e. r = Some e \<and> (evolves_by v [] v' \<or> evolves_by v [StorageFailed] v' \<and> seBroken v')) \<or>
    (\<exists>m w w' c. svExecute en w = (w', m, c) \<and>
      (case c of
         Some c \<Rightarrow> r = Some (Safe c) \<and> evolves_by v [Evidence m] v'
       | None \<Rightarrow> \<exists>t t'. evolves_by v ([Evidence m, Completed t m, SlotTaken t'] @ (if r = None then [] else [StorageFailed])) v'))"
proof -
  obtain v1 result e where 1: "world_op (schedule_pass en) v = (v1, result, e)" by (metis prod.collapse)
  show ?thesis
  proof (cases e)
    case (Some x)
    then show ?thesis using assms 1 evolves_steps(1) [OF 1] by (auto simp: run_serve_cycle_def)
  next
    case None
    define v2 where "v2 = log_to en (LogSchedule result) v1"
    have 2: "evolves_by v [] v2" using evolves_trans [OF evolves_steps(1) [OF 1] evolves_steps(2)] by (simp add: v2_def)
    show ?thesis
    proof (cases "seBroken v2")
      case True
      then have "v' = on_state mark_storage_unhealthy v2" "r = Some (Safe ExecutionStorage)"
        using assms 1 None by (simp_all add: run_serve_cycle_def Let_def v2_def [symmetric])
      then show ?thesis using evolves_trans [OF 2 evolves_steps(3)] True by (simp add: on_state_def)
    next
      case False
      obtain v3 m c where 3: "world_op (svExecute en) v2 = (v3, m, c)" by (metis prod.collapse)
      then have x: "\<exists>w w'. svExecute en w = (w', m, c)" by (auto simp: world_op_def split: prod.splits)
      define v4 where "v4 = log_to en (LogExecution m (safe_error_code (map_option Safe c))) (on_state (record_provider_evidence m) v3)"
      have "evolves_by v3 [Evidence m] v4" using evolves_trans [OF evolves_steps(4) evolves_steps(2)] by (simp add: v4_def split: option.split)
      then have 4: "evolves_by v [Evidence m] v4"
        using evolves_trans [OF evolves_trans [OF 2 evolves_steps(1) [OF 3]]] by fastforce
      have run: "run_serve_cycle en v = (case c of Some c \<Rightarrow> (v4, Some (Safe c)) | None \<Rightarrow> complete_cycle en m v4)"
        using 1 None 3 False by (simp add: run_serve_cycle_def Let_def v2_def [symmetric]) (simp add: v4_def split: option.split)
      show ?thesis
      proof (cases c)
        case (Some code)
        obtain w w' where "svExecute en w = (w', m, c)" using x by blast
        then show ?thesis using run assms 4 Some by (intro disjI2 exI [of _ m] exI [of _ w] exI [of _ w'] exI [of _ c]) simp
      next
        case None
        then have "complete_cycle en m v4 = (v', r)" using run assms by simp
        from complete_cycle_events [OF this] obtain t t' where
          "evolves_by v4 ([Completed t m, SlotTaken t'] @ (if r = None then [] else [StorageFailed])) v'" by blast
        from evolves_trans [OF 4 this] x None show ?thesis by (intro disjI2) fastforce
      qed
    qed
  qed
qed

text \<open>One turn of the loop that goes on.\<close>

definition serve_round :: "'s serve_env \<Rightarrow> 's service \<Rightarrow> 's service \<Rightarrow> bool" where
  "serve_round en v v' \<longleftrightarrow> (\<exists>u. before_cycle en v = (u, None) \<and> after_cycle en (run_serve_cycle en u) = (v', None))"

lemma reporter_failure_unready:
  "reporter_failure en v = (v', c) \<Longrightarrow> c = ExecutionStorage \<and> \<not> storageHealthy (seState v')"
  by (auto simp: reporter_failure_def on_state_def mark_storage_unhealthy_def)

lemma reporter_failure_broken: "reporter_failure en v = (v', c) \<Longrightarrow> seBroken v \<Longrightarrow> seBroken v'"
  by (auto simp: reporter_failure_def on_state_def)

lemma world_op_broken: "world_op f v = (v', x) \<Longrightarrow> seBroken v' = seBroken v"
  by (auto simp: world_op_def split: prod.splits)

lemma serve_round_sound:
  assumes "serve_round en v v'"
  shows "\<exists>u x r. before_cycle en v = (u, None) \<and> \<not> seBroken u \<and> run_serve_cycle en u = (x, r) \<and> \<not> seBroken x \<and>
    (\<forall>c. r = Some (Safe c) \<longrightarrow> \<not> fatal_code c) \<and> (r \<noteq> None \<longrightarrow> \<not> storageHealthy (seState v'))"
proof -
  obtain u where u: "before_cycle en v = (u, None)" "after_cycle en (run_serve_cycle en u) = (v', None)"
    using assms by (auto simp: serve_round_def)
  obtain x r where x: "run_serve_cycle en u = (x, r)" by (metis prod.collapse)
  have ub: "\<not> seBroken u" using u(1) by (auto simp: before_cycle_def no_stop split: prod.splits option.splits if_splits)
  have xb: "\<not> seBroken x" using u(2) x by (auto simp: after_cycle_def no_stop)
  have f: "\<not> storageHealthy (seState v')" if "after_failure en e x = (v', None)" for e
    using that by (auto simp: after_failure_def Let_def on_state_def mark_storage_unhealthy_def world_op_def no_stop split: if_splits prod.splits)
  have fatal: "safe_execution_error (Safe c) = Some c" if "fatal_code c" for c
    using that by (auto simp: fatal_code_def safe_execution_error_def known_code_def)
  have "(\<forall>c. r = Some (Safe c) \<longrightarrow> \<not> fatal_code c) \<and> (r \<noteq> None \<longrightarrow> \<not> storageHealthy (seState v'))"
  proof (cases r)
    case (Some e)
    then have "safe_execution_error e = None \<or> \<not> fatal_code (the (safe_execution_error e))" "after_failure en e x = (v', None)"
      using u(2) x xb by (auto simp: after_cycle_def split: option.splits if_splits)
    then show ?thesis using f fatal Some by (cases e) auto
  qed simp
  then show ?thesis using u(1) x ub xb by blast
qed

text \<open>How the loop ends.\<close>

lemma serve_end:
  assumes "serve_cycles en n v = Some (v', c)"
  shows "\<exists>v1. (serve_round en)\<^sup>*\<^sup>* v v1 \<and>
    (before_cycle en v1 = (v', Some c) \<or> (\<exists>u. before_cycle en v1 = (u, None) \<and> after_cycle en (run_serve_cycle en u) = (v', Some c)))"
  using assms
proof (induction n arbitrary: v)
  case (Suc n)
  obtain u b where b: "before_cycle en v = (u, b)" by (metis prod.collapse)
  obtain v2 a where a: "after_cycle en (run_serve_cycle en u) = (v2, a)" by (metis prod.collapse)
  show ?case
  proof (cases b)
    case (Some x)
    then have "before_cycle en v = (v', Some c)" using Suc.prems b by simp
    then show ?thesis by blast
  next
    case None
    show ?thesis
    proof (cases a)
      case (Some x)
      then have "before_cycle en v = (u, None)" "after_cycle en (run_serve_cycle en u) = (v', Some c)"
        using Suc.prems a b \<open>b = None\<close> by simp_all
      then show ?thesis by blast
    next
      case None
      then have "serve_cycles en n v2 = Some (v', c)" using Suc.prems a b \<open>b = None\<close> by simp
      moreover have "serve_round en v v2" using a b None \<open>b = None\<close> by (auto simp: serve_round_def)
      ultimately show ?thesis using Suc.IH by (meson converse_rtranclp_into_rtranclp)
    qed
  qed
qed simp

text \<open>The specification of a turn that goes on: no broken reporter, no fatal code, and unready after a failure.\<close>

definition survived :: "'s serve_env \<Rightarrow> 's service \<Rightarrow> 's service \<Rightarrow> bool" where
  "survived en v v' \<longleftrightarrow>
     (\<exists>u x r. before_cycle en v = (u, None) \<and> \<not> seBroken u \<and> run_serve_cycle en u = (x, r) \<and> \<not> seBroken x \<and>
        after_cycle en (x, r) = (v', None) \<and> (\<forall>c. r = Some (Safe c) \<longrightarrow> \<not> fatal_code c) \<and>
        (r \<noteq> None \<longrightarrow> (\<forall>now. \<not> ready_locked now (seState v'))))"

lemma serve_round_survived: "serve_round en v v' \<Longrightarrow> survived en v v'"
  using serve_round_sound [of en v v'] by (fastforce simp: serve_round_def survived_def ready_locked_def)

text \<open>The context has ended: before a turn, or during the wait that follows one.\<close>

definition context_ended :: "'s serve_env \<Rightarrow> 's service \<Rightarrow> 's service \<Rightarrow> bool" where
  "context_ended en v v' \<longleftrightarrow>
     snd (svEnded en (seWorld v)) \<noteq> None \<or> (\<exists>w. svWait en serve_cycle_interval w = (seWorld v', True)) \<or>
     (\<exists>w. svWait en serve_failure_backoff w = (seWorld v', True))"

definition reporter_stopped :: "'s service \<Rightarrow> ExecutionError \<Rightarrow> bool" where
  "reporter_stopped v c \<longleftrightarrow> c = ExecutionStorage \<and> seBroken v \<and> (\<forall>now. \<not> ready_locked now (seState v))"

lemma reporter_failure_stopped: "reporter_failure en w = (v', c) \<Longrightarrow> seBroken w \<Longrightarrow> reporter_stopped v' c"
  using reporter_failure_unready [of en w v' c] reporter_failure_broken [of en w v' c]
  by (simp add: reporter_stopped_def ready_locked_def)

lemma apsnd_Some: "apsnd Some p = (v, Some c) \<longleftrightarrow> p = (v, c)"
  by (cases p) simp

lemma before_cycle_end:
  assumes "before_cycle en v = (v', Some c)"
  shows "c = ExecutionStopped \<and> context_ended en v v' \<or> reporter_stopped v' c"
  using assms
  by (auto simp: before_cycle_def context_ended_def world_op_def apsnd_Some split: prod.splits option.splits if_splits
      dest!: reporter_failure_stopped)

lemma after_failure_end:
  assumes "after_failure en e x = (v', Some c)"
  shows "c = ExecutionStopped \<and> context_ended en v v' \<or> reporter_stopped v' c"
  using assms
  by (auto simp: after_failure_def Let_def context_ended_def world_op_def apsnd_Some split: prod.splits if_splits
      dest!: reporter_failure_stopped)

lemma after_cycle_end:
  assumes "after_cycle en (x, r) = (v', Some c)"
  shows "c = ExecutionStopped \<and> context_ended en v v' \<or> reporter_stopped v' c \<or> fatal_code c \<and> r = Some (Safe c) \<and> \<not> seBroken x"
proof (cases "seBroken x")
  case True
  then show ?thesis using assms by (auto simp: after_cycle_def apsnd_Some dest!: reporter_failure_stopped)
next
  case False
  show ?thesis
  proof (cases r)
    case None
    then show ?thesis using assms False
      by (auto simp: after_cycle_def Let_def context_ended_def world_op_def split: prod.splits if_splits)
  next
    case (Some e)
    then have "after_failure en e x = (v', Some c) \<or> fatal_code c \<and> safe_execution_error e = Some c"
      using assms False by (auto simp: after_cycle_def split: if_splits option.splits)
    moreover have "safe_execution_error e = Some c \<Longrightarrow> e = Safe c"
      by (auto simp: safe_execution_error_def split: exec_error.splits if_splits)
    ultimately show ?thesis using after_failure_end [of en e x v' c v] Some False by blast
  qed
qed


text \<open>A service whose second pass finds its credentials refused.\<close>

definition sample_serve_env :: "nat serve_env" where
  "sample_serve_env = \<lparr>svEnded = (\<lambda>w. (w, None)), svNow = (\<lambda>w. (w, 1000)), svReady = (\<lambda>w. (w, None)),
     svSchedule = (\<lambda>w. (w, no_schedule, None)),
     svExecute = (\<lambda>w. (Suc w, empty_summary, if w = 0 then None else Some ExecutionCredentials)),
     svStatus = (\<lambda>w. (w, Inl (Service ErrUnavailable))), svWrite = (\<lambda>_ w. (w, False)), svWait = (\<lambda>_ w. (w, False))\<rparr>"

definition sample_service :: "nat service" where
  "sample_service = \<lparr>seWorld = 0, seState = new_serve_state, seBroken = False\<rparr>"

lemma sample_serve_run: "\<exists>v'. serve_cycles sample_serve_env 2 sample_service = Some (v', ExecutionCredentials)"
  by (simp add: eval_nat_numeral before_cycle_def after_cycle_def run_serve_cycle_def complete_cycle_def schedule_pass_def world_op_def log_to_def
      on_state_def sample_serve_env_def sample_service_def take_status_log_slot_def serve_status_log_interval_def state_defs empty_summary_def
      safe_execution_error_def known_code_def fatal_code_def after_failure_def log_generation_status_def Let_def)


end
