(* ===== verification/Feed.thy ===== *)
theory Feed
  imports Reading
begin

text \<open>
  The feeds (\<open>internal/app/feed.go\<close>, \<open>internal/postgres/feed.go\<close>): posts and reposts as events in one descending order
  over score, time, kind and identifier, filtered by view and tag, hydrated from the same snapshot.
\<close>

section \<open>Queries\<close>

datatype FeedView = NoView | FeedViewForYou | FeedViewFollowing | FeedViewSpicy | FeedViewOther string

datatype FeedSort = NoSort | FeedSortNewest | FeedSortRelevant | FeedSortReacted | FeedSortOther string

datatype FeedKind = FeedKindPost | FeedKindRepost | FeedKindOther string

fun kind_name :: "FeedKind \<Rightarrow> string" where
  "kind_name FeedKindPost = ''post''"
| "kind_name FeedKindRepost = ''repost''"
| "kind_name (FeedKindOther s) = s"

record FeedPosition =
  fpScore :: int
  fpTimestamp :: time
  fpKind :: FeedKind
  fpID :: ID

record FeedWindow =
  fwLimit :: int
  fwPosition :: "FeedPosition option"
  fwInitialCeiling :: time

record FeedQuery =
  fqView :: FeedView
  fqSort :: FeedSort
  fqTag :: string
  fqWindow :: FeedWindow

record FeedEntry =
  feID :: ID
  feKind :: FeedKind
  feOccurredAt :: time
  feReposter :: "Account option"
  fePost :: "Post option"

record FeedPage =
  fgItems :: "FeedEntry list"
  fgNextPosition :: "FeedPosition option"
  fgCeiling :: time

definition check_feed_position :: "FeedSort \<Rightarrow> FeedWindow \<Rightarrow> FeedPosition \<Rightarrow> go_error + FeedPosition" where
  "check_feed_position order w p =
     and_then (parse_id (fpID p)) (\<lambda>i.
       (case first_error
          [(fpKind p \<noteq> FeedKindPost \<and> fpKind p \<noteq> FeedKindRepost, field_error ''position'' ''Must include a valid event kind''),
           (fpTimestamp p = 0 \<or> fwInitialCeiling w = 0 \<or> fpTimestamp p > fwInitialCeiling w,
            field_error ''position'' ''Must include an event timestamp at or before the required ceiling''),
           (fpScore p < 0 \<or> order \<noteq> FeedSortReacted \<and> fpScore p \<noteq> 0,
            field_error ''position'' ''Score must be nonnegative and zero unless sorting by reacted'')] of
          Some e \<Rightarrow> Inl e
        | None \<Rightarrow> Inr (p\<lparr>fpID := i\<rparr>)))"

definition normalize_feed_window :: "FeedSort \<Rightarrow> FeedWindow \<Rightarrow> go_error + FeedWindow" where
  "normalize_feed_window order w0 =
     (if order \<noteq> FeedSortNewest \<and> order \<noteq> FeedSortRelevant \<and> order \<noteq> FeedSortReacted
      then Inl (field_error ''sort'' ''Must be newest, relevant or reacted'')
      else
        let w = (if fwLimit w0 = 0 then w0\<lparr>fwLimit := DefaultReadLimit\<rparr> else w0) in
        if fwLimit w < 1 \<or> fwLimit w > MaxReadLimit then Inl (field_error ''limit'' ''Must be between 1 and 50'')
        else (case fwPosition w of
                None \<Rightarrow> Inr w
              | Some p \<Rightarrow> and_then (check_feed_position order w p) (\<lambda>q. Inr (w\<lparr>fwPosition := Some q\<rparr>))))"

definition tag_message :: string where
  "tag_message = ''Must be a bare ASCII slug of 1-64 letters, digits or underscores''"

definition normalize_feed_query :: "unicode \<Rightarrow> FeedQuery \<Rightarrow> go_error + FeedQuery" where
  "normalize_feed_query uc q0 =
     (let q1 = (if fqView q0 = NoView then q0\<lparr>fqView := FeedViewForYou\<rparr> else q0) in
      if fqView q1 \<noteq> FeedViewForYou \<and> fqView q1 \<noteq> FeedViewFollowing \<and> fqView q1 \<noteq> FeedViewSpicy
      then Inl (field_error ''view'' ''Must be for-you, following or spicy'')
      else
        let q = (if fqSort q1 = NoSort then q1\<lparr>fqSort := FeedSortNewest\<rparr> else q1) in
        if length (fqTag q) > 64 \<or> list_ex (\<lambda>c. \<not> is_tag_character c) (fqTag q) then Inl (field_error ''tag'' tag_message)
        else and_then (normalize_feed_window (fqSort q) (fqWindow q)) (\<lambda>w.
             Inr (q\<lparr>fqTag := to_lower uc (fqTag q), fqWindow := w\<rparr>)))"

section \<open>Events\<close>

record feed_event =
  fvPosition :: FeedPosition
  fvPostID :: ID
  fvActorID :: ID

definition post_event :: "post_row \<Rightarrow> feed_event" where
  "post_event p = \<lparr>fvPosition = \<lparr>fpScore = 0, fpTimestamp = poCreatedAt p, fpKind = FeedKindPost, fpID = poID p\<rparr>,
     fvPostID = poID p, fvActorID = poAuthorID p\<rparr>"

definition repost_event :: "repost_row \<Rightarrow> feed_event" where
  "repost_event r = \<lparr>fvPosition = \<lparr>fpScore = 0, fpTimestamp = rpCreatedAt r, fpKind = FeedKindRepost, fpID = rpID r\<rparr>,
     fvPostID = rpPostID r, fvActorID = rpAccountID r\<rparr>"

definition all_events :: "db \<Rightarrow> feed_event list" where
  "all_events d = map post_event (filter (\<lambda>p. poDeletedAt p = None) (posts d)) @ map repost_event (reposts d)"

definition has_tag :: "db \<Rightarrow> ID \<Rightarrow> string \<Rightarrow> bool" where
  "has_tag d post slug \<longleftrightarrow> list_ex (\<lambda>t. trSlug t = slug \<and> (post, trID t) \<in> set (post_tags d)) (tags d)"

definition follows_actor :: "db \<Rightarrow> ID \<Rightarrow> ID \<Rightarrow> bool" where
  "follows_actor d viewer actor \<longleftrightarrow> list_ex (\<lambda>f. foFollowerID f = viewer \<and> foFollowedID f = actor) (follows d)"

text \<open>An absent viewer compares as NULL: it is nobody's identifier.\<close>

definition event_visible :: "db \<Rightarrow> ID \<Rightarrow> ID \<Rightarrow> FeedQuery \<Rightarrow> time \<Rightarrow> feed_event \<Rightarrow> bool" where
  "event_visible d viewer account q ceiling e \<longleftrightarrow>
     (case post_by_id d (fvPostID e) of
        None \<Rightarrow> False
      | Some p \<Rightarrow>
          poDeletedAt p = None \<and> fpTimestamp (fvPosition e) \<le> ceiling \<and>
          (account = [] \<or> fvActorID e = account) \<and>
          (fqView q \<noteq> FeedViewFollowing \<or> viewer \<noteq> [] \<and> (fvActorID e = viewer \<or> follows_actor d viewer (fvActorID e))) \<and>
          (fqView q \<noteq> FeedViewSpicy \<or> poIsSpicy p) \<and>
          (fqTag q = [] \<or> has_tag d (poID p) (fqTag q)))"

definition ranked_event :: "db \<Rightarrow> FeedSort \<Rightarrow> feed_event \<Rightarrow> feed_event" where
  "ranked_event d order e =
     (if order = FeedSortReacted
      then e\<lparr>fvPosition := (fvPosition e)\<lparr>fpScore := count_of (\<lambda>x. rxPostID x = fvPostID e) (reactions d)\<rparr>\<rparr> else e)"

definition feed_key :: "FeedPosition \<Rightarrow> int \<times> time \<times> string \<times> ID" where
  "feed_key p = (fpScore p, fpTimestamp p, kind_name (fpKind p), fpID p)"

definition event_key :: "feed_event \<Rightarrow> int \<times> time \<times> string \<times> ID" where
  "event_key e = feed_key (fvPosition e)"

definition feed_listing :: "db \<Rightarrow> ID \<Rightarrow> ID \<Rightarrow> FeedQuery \<Rightarrow> time \<Rightarrow> feed_event list" where
  "feed_listing d viewer account q ceiling =
     descending event_key (map (ranked_event d (fqSort q)) (filter (event_visible d viewer account q ceiling) (all_events d)))"

definition feed_entry :: "unicode \<Rightarrow> time \<Rightarrow> db \<Rightarrow> ID \<Rightarrow> feed_event \<Rightarrow> FeedEntry" where
  "feed_entry uc c d viewer e =
     \<lparr>feID = fpID (fvPosition e), feKind = fpKind (fvPosition e), feOccurredAt = fpTimestamp (fvPosition e),
      feReposter = (if fpKind (fvPosition e) = FeedKindRepost then account_by_id d (fvActorID e) else None),
      fePost = (case hydrate_post uc c d viewer (fvPostID e) of [] \<Rightarrow> None | p # _ \<Rightarrow> Some p)\<rparr>"

text \<open>\<open>listFeed\<close> on a normalised query; the next position is the one of the last event shown.\<close>

definition feed_page :: "unicode \<Rightarrow> time \<Rightarrow> time \<Rightarrow> ID \<Rightarrow> ID \<Rightarrow> FeedQuery \<Rightarrow> db \<Rightarrow> FeedPage" where
  "feed_page uc c c' viewer account q d =
     (let ceiling = page_ceiling (fwInitialCeiling (fqWindow q)) c;
          n = nat (fwLimit (fqWindow q));
          (events, next_key) = keyset_page (\<lambda>a b. b < a) event_key n
            (map_option feed_key (fwPosition (fqWindow q))) (feed_listing d viewer account q ceiling)
      in \<lparr>fgItems = map (feed_entry uc c' d viewer) events,
          fgNextPosition = (if next_key = None then None else Some (fvPosition (last events))), fgCeiling = ceiling\<rparr>)"

definition list_feed :: "unicode \<Rightarrow> time \<Rightarrow> time \<Rightarrow> time \<Rightarrow> ID \<Rightarrow> string \<Rightarrow> FeedQuery \<Rightarrow> db \<Rightarrow> go_error + FeedPage" where
  "list_feed uc c0 c c' viewer session q d =
     and_then (normalize_feed_query uc q) (\<lambda>query.
     and_then (parse_viewer viewer) (\<lambda>v.
     and_then (if fqView query = FeedViewFollowing
               then and_then (session_account c0 d session) (\<lambda>a. ensure (acc_ID a = v) ErrUnauthenticated)
               else Inr ()) (\<lambda>_.
     Inr (feed_page uc c c' v [] query d))))"

definition list_account_feed :: "unicode \<Rightarrow> time \<Rightarrow> time \<Rightarrow> ID \<Rightarrow> ID \<Rightarrow> FeedWindow \<Rightarrow> db \<Rightarrow> go_error + FeedPage" where
  "list_account_feed uc c c' account viewer window d =
     and_then (parse_id account) (\<lambda>i.
     and_then (parse_viewer viewer) (\<lambda>v.
     and_then (normalize_feed_window FeedSortNewest window) (\<lambda>w.
     case account_by_id d i of
       None \<Rightarrow> Inl ErrNotFound
     | Some a \<Rightarrow>
         if DisabledAt a \<noteq> None then Inl ErrNotFound
         else Inr (feed_page uc c c' v i \<lparr>fqView = FeedViewForYou, fqSort = FeedSortNewest, fqTag = [], fqWindow = w\<rparr> d))))"

section \<open>Following the pages of a feed\<close>

text \<open>Post and repost rows as the schema keeps them: canonical unique identifiers and creation times.\<close>

definition events_stored :: "db \<Rightarrow> bool" where
  "events_stored d \<longleftrightarrow>
     distinct (map poID (posts d)) \<and> distinct (map rpID (reposts d)) \<and>
     (\<forall>p \<in> set (posts d). parse_id (poID p) = Inr (poID p) \<and> poCreatedAt p \<noteq> 0) \<and>
     (\<forall>r \<in> set (reposts d). parse_id (rpID r) = Inr (rpID r) \<and> rpCreatedAt r \<noteq> 0)"

definition key_position :: "int \<times> time \<times> string \<times> ID \<Rightarrow> FeedPosition" where
  "key_position k = (case k of (score, t, name, i) \<Rightarrow>
     \<lparr>fpScore = score, fpTimestamp = t, fpKind = (if name = ''post'' then FeedKindPost else FeedKindRepost), fpID = i\<rparr>)"

definition fetch_feed ::
  "unicode \<Rightarrow> time \<Rightarrow> time \<Rightarrow> time \<Rightarrow> ID \<Rightarrow> string \<Rightarrow> FeedQuery \<Rightarrow> db \<Rightarrow> FeedPosition option \<Rightarrow> FeedEntry list \<times> FeedPosition option" where
  "fetch_feed uc c0 c c' viewer session q d p =
     (case list_feed uc c0 c c' viewer session (q\<lparr>fqWindow := (fqWindow q)\<lparr>fwPosition := p\<rparr>\<rparr>) d of
        Inl _ \<Rightarrow> ([], None)
      | Inr page \<Rightarrow> (fgItems page, fgNextPosition page))"

lemma all_events_kinds:
  "e \<in> set (all_events d) \<Longrightarrow> fpKind (fvPosition e) \<in> {FeedKindPost, FeedKindRepost} \<and> fpScore (fvPosition e) = 0"
  by (auto simp: all_events_def post_event_def repost_event_def)

lemma all_events_stored:
  "events_stored d \<Longrightarrow> e \<in> set (all_events d) \<Longrightarrow> parse_id (fpID (fvPosition e)) = Inr (fpID (fvPosition e)) \<and> fpTimestamp (fvPosition e) \<noteq> 0"
  by (auto simp: all_events_def post_event_def repost_event_def events_stored_def)

lemma ranked_fields [simp]:
  "fpKind (fvPosition (ranked_event d order e)) = fpKind (fvPosition e)" "fpID (fvPosition (ranked_event d order e)) = fpID (fvPosition e)"
  "fpTimestamp (fvPosition (ranked_event d order e)) = fpTimestamp (fvPosition e)" "fvPostID (ranked_event d order e) = fvPostID e"
  "fvActorID (ranked_event d order e) = fvActorID e"
  by (simp_all add: ranked_event_def)

lemma ranked_score:
  "fpScore (fvPosition e) = 0 \<Longrightarrow> 0 \<le> fpScore (fvPosition (ranked_event d order e)) \<and>
     (order = FeedSortReacted \<or> fpScore (fvPosition (ranked_event d order e)) = 0)"
  by (simp add: ranked_event_def count_of_def)

text \<open>Kind and identifier identify an event.\<close>

definition event_id :: "feed_event \<Rightarrow> FeedKind \<times> ID" where
  "event_id e = (fpKind (fvPosition e), fpID (fvPosition e))"

lemma all_events_distinct:
  assumes "events_stored d"
  shows "distinct (map event_id (all_events d))"
proof -
  have "distinct (map (Pair FeedKindPost) (map poID (filter (\<lambda>p. poDeletedAt p = None) (posts d))))"
    using assms by (simp add: events_stored_def distinct_map distinct_map_filter inj_on_def)
  moreover have "distinct (map (Pair FeedKindRepost) (map rpID (reposts d)))"
    using assms by (simp add: events_stored_def distinct_map inj_on_def)
  moreover have "map event_id (all_events d) =
      map (Pair FeedKindPost) (map poID (filter (\<lambda>p. poDeletedAt p = None) (posts d))) @ map (Pair FeedKindRepost) (map rpID (reposts d))"
    by (simp add: all_events_def event_id_def post_event_def repost_event_def)
  ultimately show ?thesis by auto
qed

lemma feed_listing_set:
  "set (feed_listing d viewer account q ceiling) =
     ranked_event d (fqSort q) ` {e \<in> set (all_events d). event_visible d viewer account q ceiling e}"
  by (simp add: feed_listing_def descending_def)

lemma feed_listing_facts:
  assumes "events_stored d" "e \<in> set (feed_listing d viewer account q ceiling)"
  shows "key_position (event_key e) = fvPosition e" "parse_id (fpID (fvPosition e)) = Inr (fpID (fvPosition e))"
    "fpTimestamp (fvPosition e) \<noteq> 0" "fpTimestamp (fvPosition e) \<le> ceiling" "0 \<le> fpScore (fvPosition e)"
    "fqSort q = FeedSortReacted \<or> fpScore (fvPosition e) = 0" "fpKind (fvPosition e) = FeedKindPost \<or> fpKind (fvPosition e) = FeedKindRepost"
proof -
  obtain x where x: "x \<in> set (all_events d)" "event_visible d viewer account q ceiling x" "e = ranked_event d (fqSort q) x"
    using assms(2) by (auto simp: feed_listing_set)
  note k = all_events_kinds [OF x(1)] all_events_stored [OF assms(1) x(1)]
  then show "parse_id (fpID (fvPosition e)) = Inr (fpID (fvPosition e))" "fpTimestamp (fvPosition e) \<noteq> 0"
    "fpKind (fvPosition e) = FeedKindPost \<or> fpKind (fvPosition e) = FeedKindRepost"
    using x(3) by auto
  then show "key_position (event_key e) = fvPosition e"
    by (auto simp: key_position_def event_key_def feed_key_def)
  show "fpTimestamp (fvPosition e) \<le> ceiling" using x(2,3) by (auto simp: event_visible_def split: option.splits)
  show "0 \<le> fpScore (fvPosition e)" "fqSort q = FeedSortReacted \<or> fpScore (fvPosition e) = 0"
    using ranked_score [of x d "fqSort q"] k(1) x(3) by auto
qed

lemma feed_listing_sorted:
  assumes "events_stored d"
  shows "sorted_wrt (\<lambda>a b. event_key b < event_key a) (feed_listing d viewer account q ceiling)"
proof -
  let ?E = "filter (event_visible d viewer account q ceiling) (all_events d)"
  let ?rows = "map (ranked_event d (fqSort q)) ?E"
  have "distinct (map event_id ?E)" using all_events_distinct [OF assms] by (rule distinct_map_filter)
  moreover have m: "map event_id ?rows = map event_id ?E" by (simp add: event_id_def)
  ultimately have d: "distinct (map event_id ?rows)" by (simp only: m)
  have e: "x = y" if "x \<in> set ?rows" "y \<in> set ?rows" "event_key x = event_key y" for x y
  proof -
    have kinds: "fpKind (fvPosition z) \<in> {FeedKindPost, FeedKindRepost}" if "z \<in> set ?rows" for z
      using that all_events_kinds by fastforce
    have "event_id x = event_id y"
      using that(3) kinds [OF that(1)] kinds [OF that(2)] by (auto simp: event_key_def feed_key_def event_id_def)
    then show ?thesis using d that(1,2) by (auto simp only: distinct_map inj_on_def)
  qed
  have "inj_on event_key (set ?rows)" "distinct ?rows"
    using e d by (auto simp only: inj_on_def distinct_map)
  then show ?thesis unfolding feed_listing_def by (rule descending_strict)
qed

lemma feed_window_position:
  assumes "normalize_feed_window order w = Inr w'" "fwPosition w = None"
  shows "fwPosition w' = None \<and> fwInitialCeiling w' = fwInitialCeiling w \<and> 1 \<le> fwLimit w' \<and> fwLimit w' \<le> 50"
    "fwInitialCeiling w \<noteq> 0 \<Longrightarrow> parse_id (fpID p) = Inr (fpID p) \<Longrightarrow> fpTimestamp p \<noteq> 0 \<Longrightarrow> fpTimestamp p \<le> fwInitialCeiling w \<Longrightarrow>
      0 \<le> fpScore p \<Longrightarrow> order = FeedSortReacted \<or> fpScore p = 0 \<Longrightarrow> fpKind p = FeedKindPost \<or> fpKind p = FeedKindRepost \<Longrightarrow>
      normalize_feed_window order (w\<lparr>fwPosition := Some p\<rparr>) = Inr (w'\<lparr>fwPosition := Some p\<rparr>)"
  using assms
  by (auto simp: normalize_feed_window_def check_feed_position_def first_error_None Let_def MaxReadLimit_def DefaultReadLimit_def
      split: if_splits)

lemma feed_query_position:
  assumes "normalize_feed_query uc q = Inr q'"
  shows "fqWindow q' = w' \<Longrightarrow> normalize_feed_window (fqSort q') (fqWindow q) = Inr w'"
    "normalize_feed_window (fqSort q') ((fqWindow q)\<lparr>fwPosition := p\<rparr>) = Inr w1 \<Longrightarrow>
      normalize_feed_query uc (q\<lparr>fqWindow := (fqWindow q)\<lparr>fwPosition := p\<rparr>\<rparr>) = Inr (q'\<lparr>fqWindow := w1\<rparr>)"
  using assms by (auto simp: normalize_feed_query_def Let_def split: if_splits)

lemma feed_page_keyset:
  assumes "events_stored d" "fqWindow q = w\<lparr>fwPosition := map_option key_position k\<rparr>"
    "k = None \<or> (\<exists>e \<in> set (feed_listing d viewer account q ceiling). k = Some (event_key e))"
    "fwInitialCeiling w = ceiling" "ceiling \<noteq> 0" "0 < fwLimit w"
  shows "(fgItems (feed_page uc c c' viewer account q d), fgNextPosition (feed_page uc c c' viewer account q d)) =
    (case keyset_page (\<lambda>a b. b < a) event_key (nat (fwLimit w)) k (feed_listing d viewer account q ceiling) of
       (events, next_key) \<Rightarrow> (map (feed_entry uc c' d viewer) events, map_option key_position next_key))"
proof -
  have k: "map_option feed_key (map_option key_position k) = k"
    using assms(3) feed_listing_facts(1) [OF assms(1)] by (auto simp: event_key_def)
  obtain events next_key where p: "keyset_page (\<lambda>a b. b < a) event_key (nat (fwLimit w)) k (feed_listing d viewer account q ceiling) = (events, next_key)"
    by fastforce
  have "(if next_key = None then None else Some (fvPosition (last events))) = map_option key_position next_key"
  proof (cases next_key)
    case (Some x)
    then have "x = event_key (last events)" "events \<noteq> []"
      using p assms(6) by (auto simp: keyset_page_def cut_page_def split: if_splits)
    then have "last events \<in> set (feed_listing d viewer account q ceiling)"
      using keyset_page_subset [OF p] last_in_set by blast
    then show ?thesis using feed_listing_facts(1) [OF assms(1)] Some \<open>x = _\<close> by simp
  qed simp
  then show ?thesis
    using assms(2,4,5) k p by (simp add: feed_page_def page_ceiling_def)
qed

lemma feed_listing_window [simp]: "feed_listing d viewer account (q\<lparr>fqWindow := w\<rparr>) ceiling = feed_listing d viewer account q ceiling"
proof -
  have "event_visible d viewer account (q\<lparr>fqWindow := w\<rparr>) ceiling = event_visible d viewer account q ceiling"
    by (simp add: event_visible_def fun_eq_iff split: option.split)
  then show ?thesis by (simp add: feed_listing_def)
qed

lemma unset_position: "fwPosition w = None \<Longrightarrow> w\<lparr>fwPosition := None\<rparr> = (w :: FeedWindow)"
  by (cases w) simp

lemma fetch_feed_page:
  assumes q: "normalize_feed_query uc q = Inr q'" "fwPosition (fqWindow q) = None" "fwInitialCeiling (fqWindow q) \<noteq> 0"
    and v: "parse_viewer viewer = Inr v" and s: "fqView q' = FeedViewFollowing \<Longrightarrow> \<exists>a. session_account c0 d session = Inr a \<and> acc_ID a = v"
    and st: "events_stored d"
    and k: "k = None \<or> (\<exists>e \<in> set (feed_listing d v [] q' (fwInitialCeiling (fqWindow q))). k = Some (event_key e))"
  shows "fetch_feed uc c0 c c' viewer session q d (map_option key_position k) =
    (case keyset_page (\<lambda>a b. b < a) event_key (nat (fwLimit (fqWindow q'))) k (feed_listing d v [] q' (fwInitialCeiling (fqWindow q))) of
       (events, next_key) \<Rightarrow> (map (feed_entry uc c' d v) events, map_option key_position next_key))"
proof -
  let ?w = "fqWindow q'" and ?c = "fwInitialCeiling (fqWindow q)"
  have n: "normalize_feed_window (fqSort q') (fqWindow q) = Inr ?w" by (rule feed_query_position(1) [OF q(1) refl])
  note w = feed_window_position(1) [OF n q(2)]
  have "normalize_feed_window (fqSort q') ((fqWindow q)\<lparr>fwPosition := map_option key_position k\<rparr>) = Inr (?w\<lparr>fwPosition := map_option key_position k\<rparr>)"
  proof (cases k)
    case None
    with n w q(2) show ?thesis by (simp add: unset_position)
  next
    case (Some x)
    with k obtain e where e: "e \<in> set (feed_listing d v [] q' ?c)" "x = event_key e" by auto
    note f = feed_listing_facts [OF st e(1)]
    show ?thesis using feed_window_position(2) [OF n q(2) q(3) f(2,3,4,5,6,7)] f(1) Some e(2) by simp
  qed
  from feed_query_position(2) [OF q(1) this]
  have lf: "list_feed uc c0 c c' viewer session (q\<lparr>fqWindow := (fqWindow q)\<lparr>fwPosition := map_option key_position k\<rparr>\<rparr>) d =
      Inr (feed_page uc c c' v [] (q'\<lparr>fqWindow := ?w\<lparr>fwPosition := map_option key_position k\<rparr>\<rparr>) d)"
    using v s by (auto simp: list_feed_def ensure_def)
  have "(fgItems (feed_page uc c c' v [] (q'\<lparr>fqWindow := ?w\<lparr>fwPosition := map_option key_position k\<rparr>\<rparr>) d),
      fgNextPosition (feed_page uc c c' v [] (q'\<lparr>fqWindow := ?w\<lparr>fwPosition := map_option key_position k\<rparr>\<rparr>) d)) =
    (case keyset_page (\<lambda>a b. b < a) event_key (nat (fwLimit ?w)) k (feed_listing d v [] (q'\<lparr>fqWindow := ?w\<lparr>fwPosition := map_option key_position k\<rparr>\<rparr>) ?c) of
       (events, next_key) \<Rightarrow> (map (feed_entry uc c' d v) events, map_option key_position next_key))"
    by (rule feed_page_keyset [OF st]) (use k w q(3) in simp_all)
  then show ?thesis by (simp add: fetch_feed_def lf)
qed

section \<open>Properties\<close>

text \<open>
  C31: A reader that follows the next positions of a feed over an unchanging snapshot, in any sort and view and with any page size,
  gets every visible event up to the ceiling exactly once, in descending order of score, time, kind and identifier.
\<close>

theorem feed_read_once:
  assumes "normalize_feed_query uc q = Inr q'" "fwPosition (fqWindow q) = None" "fwInitialCeiling (fqWindow q) \<noteq> 0"
    "parse_viewer viewer = Inr v" "fqView q' = FeedViewFollowing \<Longrightarrow> \<exists>a. session_account c0 d session = Inr a \<and> acc_ID a = v"
    "events_stored d" "length (all_events d) < k"
  shows "\<exists>events. follow_pages (fetch_feed uc c0 c c' viewer session q d) k None = (map (feed_entry uc c' d v) events, None) \<and>
    sorted_wrt (\<lambda>a b. event_key b < event_key a) events \<and> distinct events \<and>
    set events = ranked_event d (fqSort q') ` {e \<in> set (all_events d). event_visible d v [] q' (fwInitialCeiling (fqWindow q)) e}"
proof (intro exI conjI)
  let ?rows = "feed_listing d v [] q' (fwInitialCeiling (fqWindow q))" and ?n = "nat (fwLimit (fqWindow q'))"
  let ?fetch = "\<lambda>k. keyset_page (\<lambda>a b. b < a) event_key ?n k ?rows" and ?P = "insert None (Some ` event_key ` set ?rows)"
  show s: "sorted_wrt (\<lambda>a b. event_key b < event_key a) ?rows" by (rule feed_listing_sorted [OF assms(6)])
  show "distinct ?rows" using s by (rule strictly_sorted_distinct) (simp add: irreflp_def)
  show "set ?rows = ranked_event d (fqSort q') ` {e \<in> set (all_events d). event_visible d v [] q' (fwInitialCeiling (fqWindow q)) e}"
    by (rule feed_listing_set)
  have n: "0 < ?n"
    using feed_window_position(1) [OF feed_query_position(1) [OF assms(1) refl] assms(2)] by simp
  have "follow_pages (fetch_feed uc c0 c c' viewer session q d) k (map_option key_position None) =
      (case follow_pages ?fetch k None of (xs, r) \<Rightarrow> (map (feed_entry uc c' d v) xs, map_option key_position r))"
  proof (rule follow_pages_map [where P = ?P])
    show "fetch_feed uc c0 c c' viewer session q d (map_option key_position p) =
        (case ?fetch p of (xs, r) \<Rightarrow> (map (feed_entry uc c' d v) xs, map_option key_position r))" if "p \<in> ?P" for p
      using that by (intro fetch_feed_page assms) auto
    show "Some r \<in> ?P" if "?fetch p = (xs, Some r)" for p xs r using keyset_page_next [OF that n] by blast
  qed simp_all
  moreover have "length ?rows < k * ?n"
  proof -
    have "length ?rows \<le> length (all_events d)" by (simp add: feed_listing_def descending_def)
    also have "\<dots> < k" by (rule assms(7))
    also have "\<dots> \<le> k * ?n" using n by (simp add: Suc_leI)
    finally show ?thesis .
  qed
  then have "follow_pages ?fetch k None = (?rows, None)"
    using follow_pages_all [of "\<lambda>a b. b < a" event_key ?rows ?n None k] s n strict_order_facts [of "\<lambda>a b :: int \<times> time \<times> string \<times> ID. b < a"]
    by (simp add: after_position_def)
  ultimately show "follow_pages (fetch_feed uc c0 c c' viewer session q d) k None = (map (feed_entry uc c' d v) ?rows, None)" by simp
qed

text \<open>
  C32: The following feed answers only a live session of the very viewer it is read for, and shows only events of the viewer or of
  accounts the viewer follows; no feed shows an event of a deleted post, nor more than fifty events.
\<close>

theorem following_feed_private:
  assumes "list_feed uc c0 c c' viewer session q d = Inr page" "fqView q = FeedViewFollowing"
  shows "\<exists>account. session_account c0 d session = Inr account \<and> parse_viewer viewer = Inr (acc_ID account) \<and> length (fgItems page) \<le> 50 \<and>
    (\<forall>entry \<in> set (fgItems page). \<exists>e \<in> set (all_events d).
       event_id e = (feKind entry, feID entry) \<and>
       (fvActorID e = acc_ID account \<or> follows_actor d (acc_ID account) (fvActorID e)) \<and>
       (\<exists>p. post_by_id d (fvPostID e) = Some p \<and> poDeletedAt p = None))"
proof -
  from assms(1) obtain q' v where q: "normalize_feed_query uc q = Inr q'" "parse_viewer viewer = Inr v" "page = feed_page uc c c' v [] q' d"
    and s: "fqView q' = FeedViewFollowing \<Longrightarrow> \<exists>a. session_account c0 d session = Inr a \<and> acc_ID a = v"
    by (auto simp: list_feed_def split: if_splits)
  have view: "fqView q' = FeedViewFollowing" and limit: "fwLimit (fqWindow q') \<le> 50"
    using q(1) assms(2) by (auto simp: normalize_feed_query_def normalize_feed_window_def Let_def MaxReadLimit_def split: if_splits option.splits)
  from s [OF view] obtain account where a: "session_account c0 d session = Inr account" "acc_ID account = v" by blast
  obtain events next_key where k: "keyset_page (\<lambda>a b. b < a) event_key (nat (fwLimit (fqWindow q')))
      (map_option feed_key (fwPosition (fqWindow q'))) (feed_listing d v [] q' (page_ceiling (fwInitialCeiling (fqWindow q')) c)) = (events, next_key)"
    by fastforce
  then have items: "fgItems page = map (feed_entry uc c' d v) events" using q(3) by (simp add: feed_page_def)
  have "length events \<le> 50" using keyset_page_length [OF k] limit by linarith
  moreover have "\<exists>e \<in> set (all_events d). event_id e = (feKind entry, feID entry) \<and>
       (fvActorID e = acc_ID account \<or> follows_actor d (acc_ID account) (fvActorID e)) \<and>
       (\<exists>p. post_by_id d (fvPostID e) = Some p \<and> poDeletedAt p = None)" if entry: "entry \<in> set (fgItems page)" for entry
  proof -
    obtain x where x: "x \<in> set events" "entry = feed_entry uc c' d v x" using entry items by auto
    then have "x \<in> set (feed_listing d v [] q' (page_ceiling (fwInitialCeiling (fqWindow q')) c))" using keyset_page_subset [OF k] by blast
    then obtain e where e: "e \<in> set (all_events d)" "event_visible d v [] q' (page_ceiling (fwInitialCeiling (fqWindow q')) c) e"
      "x = ranked_event d (fqSort q') e" by (auto simp: feed_listing_set)
    have "event_id e = (feKind entry, feID entry)" using x(2) e(3) by (simp add: event_id_def feed_entry_def)
    moreover have "fvActorID e = v \<or> follows_actor d v (fvActorID e)" "\<exists>p. post_by_id d (fvPostID e) = Some p \<and> poDeletedAt p = None"
      using e(2) view by (auto simp: event_visible_def split: option.splits)
    ultimately show ?thesis using e(1) a(2) by auto
  qed
  ultimately show ?thesis using a q(2) items by auto
qed

text \<open>A post of the viewer and its repost, read one event at a time.\<close>

definition feed_db :: db where
  "feed_db = bookmark_db\<lparr>reposts := [\<lparr>rpID = sample_id CHR ''7'', rpAccountID = sample_id CHR ''3'', rpPostID = sample_id CHR ''4'',
     rpCreatedAt = 4000\<rparr>]\<rparr>"

definition following_query :: FeedQuery where
  "following_query = \<lparr>fqView = FeedViewFollowing, fqSort = FeedSortReacted, fqTag = [],
     fqWindow = \<lparr>fwLimit = 1, fwPosition = None, fwInitialCeiling = 5000\<rparr>\<rparr>"

lemma following_query_normal: "normalize_feed_query uc following_query = Inr following_query"
  by (simp add: normalize_feed_query_def normalize_feed_window_def following_query_def MaxReadLimit_def to_lower_ascii)

lemma feed_session: "session_account 1000 feed_db ''h'' = Inr reader"
  by (simp add: session_account_def session_by_hash_def feed_db_def bookmark_db_def reading_db_def account_by_id_def reader_def null_account_def)

lemma feed_viewer: "parse_viewer (sample_id CHR ''3'') = Inr (acc_ID reader)"
  using reading_ids(4) by (simp add: parse_viewer_def reader_def sample_id_def)

lemma feed_db_stored: "events_stored feed_db"
proof -
  have "parse_id (sample_id CHR ''7'') = Inr (sample_id CHR ''7'')" by code_simp
  then show ?thesis using reading_ids
    by (simp add: events_stored_def feed_db_def bookmark_db_def reading_db_def topic_def empty_db_def)
qed

theorem feed_read_once_witness:
  "\<exists>events. follow_pages (fetch_feed ascii_unicode 1000 1000 1000 (sample_id CHR ''3'') ''h'' following_query feed_db) 3 None =
     (map (feed_entry ascii_unicode 1000 feed_db (acc_ID reader)) events, None) \<and> distinct events"
proof -
  have "length (all_events feed_db) < 3"
    by (simp add: all_events_def feed_db_def bookmark_db_def reading_db_def topic_def)
  with feed_read_once [OF following_query_normal _ _ feed_viewer _ feed_db_stored, of 1000 "''h''" 3 ascii_unicode 1000 1000] feed_session
  show ?thesis by (auto simp: following_query_def)
qed

theorem following_feed_private_witness:
  "\<exists>page. list_feed ascii_unicode 1000 1000 1000 (sample_id CHR ''3'') ''h'' following_query feed_db = Inr page \<and> length (fgItems page) \<le> 50 \<and>
     (\<forall>entry \<in> set (fgItems page). \<exists>e \<in> set (all_events feed_db). event_id e = (feKind entry, feID entry))"
proof -
  obtain page where p: "list_feed ascii_unicode 1000 1000 1000 (sample_id CHR ''3'') ''h'' following_query feed_db = Inr page"
    using following_query_normal [of ascii_unicode] feed_viewer feed_session by (simp add: list_feed_def)
  have "fqView following_query = FeedViewFollowing" by (simp add: following_query_def)
  from following_feed_private [OF p this] p show ?thesis by blast
qed

end
