(* ===== verification/Discovery.thy ===== *)
theory Discovery
  imports Feed
begin

text \<open>
  Discovery (\<open>internal/app/discovery.go\<close>, \<open>discovery_suggestions.go\<close> and their stores): the post search with its author
  patterns and excerpts, agent suggestions in follower order, and tag trends over two adjacent days.
  The text search of PostgreSQL is the parameter \<open>text_match body query\<close>, its case-insensitive pattern match \<open>ilike\<close>, and
  its decimal percentage \<open>percent\<close>.
\<close>

section \<open>Search\<close>

definition DefaultSearchLimit :: int where "DefaultSearchLimit = 4"
definition MaxSearchLimit :: int where "MaxSearchLimit = 20"

record SearchPosition =
  spCreatedAt :: time
  spID :: ID

record SearchWindow =
  swLimit :: int
  swPosition :: "SearchPosition option"
  swInitialCeiling :: time

record SearchQuery =
  sqText :: string
  sqWindow :: SearchWindow

record SearchItem =
  siPost :: Post
  siSnippet :: string

record SearchPage =
  sgItems :: "SearchItem list"
  sgNextPosition :: "SearchPosition option"
  sgCeiling :: time

definition check_search_position :: "SearchWindow \<Rightarrow> go_error + SearchWindow" where
  "check_search_position w =
     (case swPosition w of
        None \<Rightarrow> Inr w
      | Some p \<Rightarrow>
          (case parse_id (spID p) of
             Inl _ \<Rightarrow> Inl (field_error ''cursor'' ''Must contain a valid search position'')
           | Inr i \<Rightarrow>
               if spCreatedAt p = 0 \<or> swInitialCeiling w = 0 \<or> spCreatedAt p > swInitialCeiling w
               then Inl (field_error ''cursor'' ''Must contain a valid search position'')
               else Inr (w\<lparr>swPosition := Some (p\<lparr>spID := i\<rparr>)\<rparr>)))"

definition normalize_search :: "SearchQuery \<Rightarrow> go_error + SearchQuery" where
  "normalize_search q =
     (let text = trim_space (sqText q) in
      if \<not> valid_utf8 text \<or> 0 \<in> set (runes text) \<or> rune_count text < 2 \<or> rune_count text > 100
      then Inl (field_error ''q'' ''Must be 2-100 Unicode code points'')
      else
        let w = (if swLimit (sqWindow q) = 0 then (sqWindow q)\<lparr>swLimit := DefaultSearchLimit\<rparr> else sqWindow q) in
        if swLimit w < 1 \<or> swLimit w > MaxSearchLimit then Inl (field_error ''limit'' ''Must be between 1 and 20'')
        else and_then (check_search_position w) (\<lambda>w'. Inr \<lparr>sqText = text, sqWindow = w'\<rparr>))"

text \<open>\<open>SearchSnippet\<close>: 159 code points and an ellipsis when there are more than 160.\<close>

definition search_snippet :: "string \<Rightarrow> string" where
  "search_snippet body =
     (if length (runes body) \<le> 160 then body
      else concat (map encode_rune (take 159 (runes body))) @ encode_rune 8230)"

text \<open>The pattern for authors: the text with its wildcards escaped by backslashes, anywhere in the name.\<close>

definition escape_like :: "string \<Rightarrow> string" where
  "escape_like text =
     concat (map (\<lambda>c. if c = CHR 92 \<or> c = CHR ''%'' \<or> c = CHR ''_'' then [CHR 92, c] else [c]) text)"

definition like_pattern :: "string \<Rightarrow> string" where
  "like_pattern text = ''%'' @ escape_like text @ ''%''"

definition search_matches ::
  "(string \<Rightarrow> string \<Rightarrow> bool) \<Rightarrow> (string \<Rightarrow> string \<Rightarrow> bool) \<Rightarrow> db \<Rightarrow> string \<Rightarrow> post_row \<Rightarrow> bool" where
  "search_matches text_match ilike d text p =
     (case account_by_id d (poAuthorID p) of
        None \<Rightarrow> False
      | Some a \<Rightarrow> text_match (poBody p) text \<or> ilike (DisplayName a) (like_pattern text) \<or> ilike (Handle a) (like_pattern text))"

definition post_key :: "post_row \<Rightarrow> time \<times> ID" where
  "post_key p = (poCreatedAt p, poID p)"

definition search_listing ::
  "(string \<Rightarrow> string \<Rightarrow> bool) \<Rightarrow> (string \<Rightarrow> string \<Rightarrow> bool) \<Rightarrow> db \<Rightarrow> string \<Rightarrow> time \<Rightarrow> post_row list" where
  "search_listing text_match ilike d text ceiling =
     descending post_key
       (filter (\<lambda>p. poDeletedAt p = None \<and> poCreatedAt p \<le> ceiling \<and> search_matches text_match ilike d text p) (posts d))"

definition search_pair :: "SearchPosition \<Rightarrow> time \<times> ID" where
  "search_pair p = (spCreatedAt p, spID p)"

definition search_posts ::
  "unicode \<Rightarrow> (string \<Rightarrow> string \<Rightarrow> bool) \<Rightarrow> (string \<Rightarrow> string \<Rightarrow> bool) \<Rightarrow> time \<Rightarrow> time \<Rightarrow> ID \<Rightarrow> SearchQuery \<Rightarrow> db \<Rightarrow>
   go_error + SearchPage" where
  "search_posts uc text_match ilike c c' viewer q d =
     and_then (parse_viewer viewer) (\<lambda>v.
     and_then (normalize_search q) (\<lambda>query.
     let w = sqWindow query; ceiling = page_ceiling (swInitialCeiling w) c;
         (rows, next_key) = keyset_page (\<lambda>a b. b < a) post_key (nat (swLimit w)) (map_option search_pair (swPosition w))
           (search_listing text_match ilike d (sqText query) ceiling)
     in Inr \<lparr>sgItems = map (\<lambda>p. \<lparr>siPost = p, siSnippet = search_snippet (ctBody (ptContent p))\<rparr>)
               (hydrate_posts uc c' d (map poID rows) v),
             sgNextPosition = map_option (\<lambda>k. \<lparr>spCreatedAt = fst k, spID = snd k\<rparr>) next_key, sgCeiling = ceiling\<rparr>))"

section \<open>Suggestions\<close>

definition normalize_limit :: "int \<Rightarrow> int \<Rightarrow> string \<Rightarrow> int \<Rightarrow> go_error + int" where
  "normalize_limit standard maximum message n =
     (let m = (if n = 0 then standard else n) in if m < 1 \<or> m > maximum then Inl (field_error ''limit'' message) else Inr m)"

definition normalize_suggestions :: "int \<Rightarrow> go_error + int" where
  "normalize_suggestions = normalize_limit 3 20 ''Must be between 1 and 20''"

definition normalize_trends :: "int \<Rightarrow> go_error + int" where
  "normalize_trends = normalize_limit 4 6 ''Must be between 1 and 6''"

definition followers :: "db \<Rightarrow> ID \<Rightarrow> int" where
  "followers d i = count_of (\<lambda>f. foFollowedID f = i) (follows d)"

definition suggestable :: "db \<Rightarrow> ID \<Rightarrow> Account \<Rightarrow> bool" where
  "suggestable d viewer a \<longleftrightarrow>
     acc_Type a = AccountAgent \<and> DisabledAt a = None \<and>
     (viewer = [] \<or> acc_ID a \<noteq> viewer \<and> \<not> follows_actor d viewer (acc_ID a))"

definition suggestion_order :: "db \<Rightarrow> Account \<Rightarrow> int \<times> ID" where
  "suggestion_order d a = (- followers d (acc_ID a), acc_ID a)"

definition suggested_profile :: "db \<Rightarrow> ID \<Rightarrow> Account \<Rightarrow> AccountProfile" where
  "suggested_profile d viewer a =
     \<lparr>prAccount = a, prFollowerCount = followers d (acc_ID a),
      prFollowingCount = count_of (\<lambda>f. foFollowerID f = acc_ID a) (follows d),
      prPostCount = count_of (\<lambda>p. poAuthorID p = acc_ID a \<and> poDeletedAt p = None) (posts d),
      prViewerFollowing = (if viewer = [] then None else Some False)\<rparr>"

definition suggested_agents :: "ID \<Rightarrow> int \<Rightarrow> db \<Rightarrow> go_error + AccountProfile list" where
  "suggested_agents viewer limit d =
     and_then (normalize_suggestions limit) (\<lambda>n.
     and_then (parse_viewer viewer) (\<lambda>v.
     Inr (map (suggested_profile d v)
       (take (nat n) (sort_key (suggestion_order d) (filter (suggestable d v) (accounts d)))))))"

section \<open>Trends\<close>

record 'f Trend =
  tdSlug :: string
  tdDisplayName :: string
  tdPostCount :: int
  tdPreviousPostCount :: int
  tdChangePercent :: "'f option"

text \<open>Posts of a tag created in a window; \<open>now\<close> is the transaction timestamp.\<close>

definition day :: duration where "day = 24 * 3600 * second"

definition tagged_posts :: "db \<Rightarrow> tag_row \<Rightarrow> time \<Rightarrow> time \<Rightarrow> int" where
  "tagged_posts d t from_time until =
     count_of (\<lambda>(i, tag). tag = trID t \<and>
       (case post_by_id d i of
          None \<Rightarrow> False
        | Some p \<Rightarrow> poDeletedAt p = None \<and> poCreatedAt p \<ge> from_time \<and> poCreatedAt p < until)) (post_tags d)"

definition trend_of :: "(int \<Rightarrow> int \<Rightarrow> 'f) \<Rightarrow> db \<Rightarrow> time \<Rightarrow> tag_row \<Rightarrow> 'f Trend" where
  "trend_of percent d now t =
     (let current = tagged_posts d t (now - day) now; previous = tagged_posts d t (now - 2 * day) (now - day) in
      \<lparr>tdSlug = trSlug t, tdDisplayName = trDisplayName t, tdPostCount = current, tdPreviousPostCount = previous,
       tdChangePercent = (if previous = 0 then None else Some (percent current previous))\<rparr>)"

definition trends :: "(int \<Rightarrow> int \<Rightarrow> 'f) \<Rightarrow> time \<Rightarrow> int \<Rightarrow> db \<Rightarrow> go_error + 'f Trend list" where
  "trends percent c limit d =
     and_then (normalize_trends limit) (\<lambda>n.
     Inr (take (nat n) (sort_key (\<lambda>t. (- tdPostCount t, tdSlug t))
       (filter (\<lambda>t. tdPostCount t > 0) (map (trend_of percent d (generation_instant c)) (tags d))))))"

section \<open>Pattern matching\<close>

text \<open>
  The documented meaning of an SQL pattern with the backslash as escape: \<open>%\<close> stands for any sequence, \<open>_\<close> for any single
  character, and an escaped character for itself.
\<close>

fun like_match :: "string \<Rightarrow> string \<Rightarrow> bool" where
  "like_match [] s = (s = [])"
| "like_match (c # p) s =
     (if c = CHR ''%'' then list_ex (\<lambda>k. like_match p (drop k s)) [0..<Suc (length s)]
      else if c = CHR 92
      then (case p of [] \<Rightarrow> False
            | x # p' \<Rightarrow> (case s of [] \<Rightarrow> False | y # s' \<Rightarrow> x = y \<and> like_match p' s'))
      else (case s of [] \<Rightarrow> False | y # s' \<Rightarrow> (c = CHR ''_'' \<or> c = y) \<and> like_match p s'))"

definition wildcard :: "char \<Rightarrow> bool" where
  "wildcard c \<longleftrightarrow> c = CHR 92 \<or> c = CHR ''%'' \<or> c = CHR ''_''"

lemma byte_char_eq: "byte c = (n :: nat) \<longleftrightarrow> n < 256 \<and> c = char_of n"
  by (metis byte_less_256 char_of_char of_char_of of_char_mod_256 mod_less)

lemma like_match_escaped: "like_match (escape_like word @ p) s \<longleftrightarrow> (\<exists>r. s = word @ r \<and> like_match p r)"
proof (induction word arbitrary: s)
  case (Cons c word)
  then show ?case by (cases s) (auto simp: escape_like_def)
qed (simp add: escape_like_def)

lemma like_match_pattern: "like_match (like_pattern word) s \<longleftrightarrow> (\<exists>pre post. s = pre @ word @ post)"
proof -
  have step: "like_match (CHR ''%'' # p) r \<longleftrightarrow> (\<exists>k \<le> length r. like_match p (drop k r))" for p r
    by (simp add: list_ex_iff Bex_def less_Suc_eq_le conj_commute del: upt_Suc)
  have "like_match ''%'' r" for r unfolding step by (intro exI [of _ "length r"]) simp
  then have "like_match (like_pattern word) s \<longleftrightarrow> (\<exists>k \<le> length s. \<exists>r. drop k s = word @ r)"
    unfolding like_pattern_def append_Cons append_Nil step like_match_escaped by simp
  also have "\<dots> \<longleftrightarrow> (\<exists>pre post. s = pre @ word @ post)"
    by (metis append_eq_conv_conj append_take_drop_id length_append le_add1)
  finally show ?thesis .
qed

lemma map_escape_like:
  assumes "\<And>c. wildcard c \<Longrightarrow> lower c = c" "\<And>c. wildcard (lower c) \<longleftrightarrow> wildcard c"
  shows "map lower (escape_like word) = escape_like (map lower word)"
proof -
  have b: "lower (CHR 92) = CHR 92" using assms(1) [of "CHR 92"] by (simp add: wildcard_def)
  have e: "escape_like s = concat (map (\<lambda>c. if wildcard c then [CHR 92, c] else [c]) s)" for s
    by (simp add: escape_like_def wildcard_def)
  show ?thesis unfolding e by (induction word) (simp_all add: assms b)
qed

section \<open>Properties\<close>

text \<open>
  Searching authors matches literal substrings: for a pattern match with the documented meaning that folds single characters, the
  escaped pattern matches exactly the names that contain the word, wildcards and backslashes of the word included.
\<close>

theorem author_search_literal:
  assumes "\<And>s p. ilike s p \<longleftrightarrow> like_match (map lower p) (map lower s)"
    "\<And>c. wildcard c \<Longrightarrow> lower c = c" "\<And>c. wildcard (lower c) \<longleftrightarrow> wildcard c"
  shows "ilike name (like_pattern word) \<longleftrightarrow> (\<exists>pre post. map lower name = pre @ map lower word @ post)"
proof -
  have "lower CHR ''%'' = CHR ''%''" using assms(2) [of "CHR ''%''"] by (simp add: wildcard_def)
  then have "map lower (like_pattern word) = like_pattern (map lower word)"
    using map_escape_like [of lower word, OF assms(2,3)] by (simp add: like_pattern_def)
  then show ?thesis by (simp add: assms(1) like_match_pattern)
qed

definition fold_ascii :: "char \<Rightarrow> char" where "fold_ascii = ascii_lower"

theorem author_search_literal_witness:
  "like_match (map fold_ascii (like_pattern ''A_b'')) (map fold_ascii ''xa_By'') \<and>
   \<not> like_match (map fold_ascii (like_pattern ''A_b'')) (map fold_ascii ''xacby'')"
proof -
  have w: "fold_ascii c = c" if "wildcard c" for c using that by (auto simp: wildcard_def fold_ascii_def ascii_lower_def class_defs)
  have w': "wildcard (fold_ascii c) \<longleftrightarrow> wildcard c" for c
  proof -
    have "char_of (92 :: nat) = CHR 92" "char_of (37 :: nat) = CHR ''%''" "char_of (95 :: nat) = CHR ''_''" by code_simp+
    then have "wildcard c \<longleftrightarrow> byte c \<in> {92, 37, 95 :: nat}" for c
      by (simp add: wildcard_def byte_char_eq)
    then show ?thesis by (auto simp: fold_ascii_def byte_ascii_lower class_defs)
  qed
  note a = author_search_literal [of "\<lambda>s p. like_match (map fold_ascii p) (map fold_ascii s)" fold_ascii, OF refl w w']
  have "map fold_ascii ''xa_By'' = ''x'' @ map fold_ascii ''A_b'' @ ''y''" by code_simp
  moreover have "CHR ''_'' \<notin> set (map fold_ascii ''xacby'')" "CHR ''_'' \<in> set (map fold_ascii ''A_b'')" by code_simp+
  then have "\<nexists>pre post. map fold_ascii ''xacby'' = pre @ map fold_ascii ''A_b'' @ post"
    by (metis Un_iff set_append)
  ultimately show ?thesis using a by blast
qed

text \<open>
  Suggested agents are the most followed of all active agents that the viewer is not and does not follow, ties broken by
  identifier: at most twenty, in order, and no candidate that was left out comes before one that is listed.
\<close>

theorem suggestions_best:
  assumes "suggested_agents viewer limit d = Inr profiles"
  shows "\<exists>v n. parse_viewer viewer = Inr v \<and> 1 \<le> n \<and> n \<le> 20 \<and>
    length profiles = min n (length (filter (suggestable d v) (accounts d))) \<and>
    sorted (map (suggestion_order d \<circ> prAccount) profiles) \<and>
    (\<forall>p \<in> set profiles. prAccount p \<in> set (accounts d) \<and> acc_Type (prAccount p) = AccountAgent \<and> DisabledAt (prAccount p) = None \<and>
       (v \<noteq> [] \<longrightarrow> acc_ID (prAccount p) \<noteq> v \<and> \<not> follows_actor d v (acc_ID (prAccount p)))) \<and>
    (\<forall>a \<in> set (accounts d). suggestable d v a \<longrightarrow> a \<in> prAccount ` set profiles \<or>
       (\<forall>p \<in> set profiles. suggestion_order d (prAccount p) \<le> suggestion_order d a))"
proof -
  from assms obtain n v where n: "normalize_suggestions limit = Inr n" and v: "parse_viewer viewer = Inr v"
    and p: "profiles = map (suggested_profile d v) (take (nat n) (sort_key (suggestion_order d) (filter (suggestable d v) (accounts d))))"
    by (auto simp: suggested_agents_def)
  let ?s = "sort_key (suggestion_order d) (filter (suggestable d v) (accounts d))"
  have b: "1 \<le> n" "n \<le> 20" using n by (auto simp: normalize_suggestions_def normalize_limit_def Let_def split: if_splits)
  have a [simp]: "prAccount (suggested_profile d v a) = a" for a by (simp add: suggested_profile_def)
  have m: "map (suggestion_order d \<circ> prAccount) profiles = take (nat n) (map (suggestion_order d) ?s)"
    unfolding p by (simp add: take_map o_def)
  have "sorted (map (suggestion_order d) ?s)" by simp
  then have "sorted (map (suggestion_order d \<circ> prAccount) profiles)" unfolding m by (rule sorted_wrt_take)
  moreover have "a \<in> prAccount ` set profiles \<or> (\<forall>p \<in> set profiles. suggestion_order d (prAccount p) \<le> suggestion_order d a)"
    if "a \<in> set (accounts d)" "suggestable d v a" for a
  proof -
    have "a \<in> set ?s" using that by simp
    then have "a \<in> set (take (nat n) ?s) \<or> a \<in> set (drop (nat n) ?s)" by (metis append_take_drop_id Un_iff set_append)
    moreover have "suggestion_order d x \<le> suggestion_order d y" if "x \<in> set (take (nat n) ?s)" "y \<in> set (drop (nat n) ?s)" for x y
    proof -
      have "sorted (map (suggestion_order d) (take (nat n) ?s @ drop (nat n) ?s))" by simp
      then show ?thesis using that unfolding map_append sorted_append by auto
    qed
    ultimately show ?thesis unfolding p by force
  qed
  moreover have "length profiles = min (nat n) (length (filter (suggestable d v) (accounts d)))" unfolding p by simp
  moreover have "prAccount x \<in> set (accounts d) \<and> acc_Type (prAccount x) = AccountAgent \<and> DisabledAt (prAccount x) = None \<and>
      (v \<noteq> [] \<longrightarrow> acc_ID (prAccount x) \<noteq> v \<and> \<not> follows_actor d v (acc_ID (prAccount x)))" if "x \<in> set profiles" for x
    using that unfolding p by (auto simp: suggestable_def dest!: in_set_takeD)
  ultimately show ?thesis using v b by (intro exI [of _ v] exI [of _ "nat n"]) auto
qed

definition helper :: Account where
  "helper = null_account\<lparr>acc_ID := sample_id CHR ''8'', acc_Type := AccountAgent, Handle := ''bot''\<rparr>"

definition agents_db :: db where
  "agents_db = feed_db\<lparr>accounts := [reader, helper]\<rparr>"

theorem suggestions_best_witness:
  "\<exists>profiles. suggested_agents [] 0 agents_db = Inr profiles \<and> length profiles = 1 \<and> (\<forall>p \<in> set profiles. prAccount p = helper)"
proof -
  have n: "normalize_suggestions 0 = Inr 3" "parse_viewer [] = Inr []"
    by (simp_all add: normalize_suggestions_def normalize_limit_def parse_viewer_def)
  then obtain profiles where p: "suggested_agents [] 0 agents_db = Inr profiles" by (simp add: suggested_agents_def)
  have f: "filter (suggestable agents_db []) (accounts agents_db) = [helper]"
    by (simp add: suggestable_def agents_db_def) (simp add: helper_def reader_def null_account_def)
  have s: "suggestable agents_db [] a \<Longrightarrow> a \<in> set (accounts agents_db) \<Longrightarrow> a = helper" for a
    using arg_cong [OF f, of set] by auto
  obtain v k where k: "parse_viewer [] = Inr v" "1 \<le> k" "length profiles = min k (length (filter (suggestable agents_db v) (accounts agents_db)))"
    "\<forall>p \<in> set profiles. prAccount p \<in> set (accounts agents_db) \<and> acc_Type (prAccount p) = AccountAgent \<and> DisabledAt (prAccount p) = None"
    using suggestions_best [OF p] by blast
  with n have v: "v = []" by simp
  have "\<forall>p \<in> set profiles. prAccount p = helper" using k(4) s by (simp add: suggestable_def)
  with k(2,3) f p v show ?thesis by simp
qed

end
