(* ===== verification/Cursor.thy ===== *)
theory Cursor
  imports Admin Discovery
begin

text \<open>
  The signed page tokens of the HTTP interface (\<open>internal/api/cursor.go\<close>, \<open>feed_cursor.go\<close>, \<open>discovery.go\<close>): a canonical
  JSON payload with its HMAC-SHA256, both in unpadded URL base64.  The three kinds of payload share the envelope and the
  locale of canonical payloads.
\<close>

section \<open>The envelope\<close>

text \<open>\<open>hmac.New(sha256.New, key)\<close> over one message.\<close>

definition hmac_sha256 :: "string \<Rightarrow> string \<Rightarrow> string" where
  "hmac_sha256 key m =
     (let k = (if length key > 64 then sha256 key else key);
          block = map byte (k @ replicate (64 - length k) CHR 0x00);
          pad = \<lambda>x. map (\<lambda>b. char_of (b XOR x)) block
      in sha256 (pad 0x5c @ sha256 (pad (0x36 :: nat) @ m)))"

definition max_cursor_bytes :: nat where "max_cursor_bytes = 2048"

definition raw_url :: "string \<Rightarrow> string" where "raw_url s = b64_encode url_alphabet s"

text \<open>The decoder accepts line breaks and the code re-encodes, so only the one spelling of the bytes is accepted.\<close>

definition strict_raw_url :: "string \<Rightarrow> string option" where
  "strict_raw_url s = (case b64_decode url_alphabet s of None \<Rightarrow> None | Some c \<Rightarrow> if raw_url c = s then Some c else None)"

definition sign_contents :: "string \<Rightarrow> string \<Rightarrow> string" where
  "sign_contents key contents = raw_url contents @ ''.'' @ raw_url (hmac_sha256 key contents)"

text \<open>\<open>None\<close> is \<open>errInvalidCursor\<close>.\<close>

definition open_contents :: "string \<Rightarrow> string \<Rightarrow> string option" where
  "open_contents key token =
     (if token = [] \<or> length token > max_cursor_bytes \<or> length (filter (\<lambda>c. c = CHR ''.'') token) \<noteq> 1 then None
      else
        let a = takeWhile (\<lambda>c. c \<noteq> CHR ''.'') token; b = drop (length a + 1) token in
        case strict_raw_url a of None \<Rightarrow> None | Some contents \<Rightarrow>
        (case strict_raw_url b of None \<Rightarrow> None | Some signature \<Rightarrow>
           if length signature \<noteq> 32 \<or> signature \<noteq> hmac_sha256 key contents then None else Some contents))"

section \<open>Payloads\<close>

text \<open>
  A payload is a flat object of integers and strings.  The code decodes it, encodes the result again and compares; that
  comparison also refuses null, missing, repeated, unknown and differently spelled members, which the decoder alone would
  let pass.
\<close>

datatype scalar = IntField int | TextField string

type_synonym scalars = "(string \<times> scalar) list"

fun scalar_text :: "scalar \<Rightarrow> string" where
  "scalar_text (IntField v) = json_int v"
| "scalar_text (TextField s) = json_quote s"

definition read_scalar :: "json \<Rightarrow> scalar option" where
  "read_scalar j = (case j of JNumber l \<Rightarrow> map_option IntField (json_int64 l) | JString s \<Rightarrow> Some (TextField s) | _ \<Rightarrow> None)"

definition read_scalars :: "string \<Rightarrow> scalars option" where
  "read_scalars contents =
     (case parse_json contents of
        Some (JObject ms) \<Rightarrow> all_some (map (\<lambda>(k, j). map_option (Pair k) (read_scalar j)) ms)
      | _ \<Rightarrow> None)"

definition int_of :: "scalars \<Rightarrow> string \<Rightarrow> int option" where
  "int_of fs k = (case map_of fs k of Some (IntField v) \<Rightarrow> Some v | _ \<Rightarrow> None)"

definition text_of :: "scalars \<Rightarrow> string \<Rightarrow> string option" where
  "text_of fs k = (case map_of fs k of Some (TextField s) \<Rightarrow> Some s | _ \<Rightarrow> None)"

definition marshal_payload :: "('p \<Rightarrow> scalars) \<Rightarrow> 'p \<Rightarrow> string" where
  "marshal_payload fields_of p = json_object (map (apsnd scalar_text) (fields_of p))"

definition unmarshal_payload :: "('p \<Rightarrow> scalars) \<Rightarrow> (scalars \<Rightarrow> 'p option) \<Rightarrow> string \<Rightarrow> 'p option" where
  "unmarshal_payload fields_of of_fields contents =
     (case Option.bind (read_scalars contents) of_fields of
        None \<Rightarrow> None
      | Some p \<Rightarrow> if marshal_payload fields_of p = contents then Some p else None)"

text \<open>An instant as the code writes it.\<close>

definition canonical_instant :: "string \<Rightarrow> time option" where
  "canonical_instant s =
     (case parse_rfc3339 s of None \<Rightarrow> None | Some t \<Rightarrow> if t = 0 \<or> format_instant t \<noteq> s then None else Some t)"

section \<open>Reply and bookmark pages\<close>

record cursorPayload =
  cpVersion :: int
  cpKind :: string
  cpTarget :: string
  cpViewer :: string
  cpSort :: string
  cpCeiling :: string
  cpPosition :: string
  cpID :: string

fun reply_sort_name :: "ReplySort \<Rightarrow> string" where
  "reply_sort_name ReplySortOldest = ''oldest''"
| "reply_sort_name ReplySortNewest = ''newest''"
| "reply_sort_name (ReplySortOther s) = s"

definition cursor_fields :: "cursorPayload \<Rightarrow> scalars" where
  "cursor_fields p =
     [(''version'', IntField (cpVersion p)), (''kind'', TextField (cpKind p)), (''target'', TextField (cpTarget p)),
      (''viewer'', TextField (cpViewer p)), (''sort'', TextField (cpSort p)), (''ceiling'', TextField (cpCeiling p)),
      (''position'', TextField (cpPosition p)), (''id'', TextField (cpID p))]"

definition cursor_of_fields :: "scalars \<Rightarrow> cursorPayload option" where
  "cursor_of_fields fs =
     (case (int_of fs ''version'', text_of fs ''kind'', text_of fs ''target'', text_of fs ''viewer'', text_of fs ''sort'',
            text_of fs ''ceiling'', text_of fs ''position'', text_of fs ''id'') of
        (Some v, Some k, Some t, Some w, Some s, Some c, Some p, Some i) \<Rightarrow>
          Some \<lparr>cpVersion = v, cpKind = k, cpTarget = t, cpViewer = w, cpSort = s, cpCeiling = c, cpPosition = p, cpID = i\<rparr>
      | _ \<Rightarrow> None)"

definition cursor_payload :: "string \<Rightarrow> ID \<Rightarrow> ID \<Rightarrow> ReplySort \<Rightarrow> time \<Rightarrow> KeysetPosition \<Rightarrow> cursorPayload" where
  "cursor_payload kind target viewer order ceiling p =
     \<lparr>cpVersion = 1, cpKind = kind, cpTarget = target, cpViewer = viewer, cpSort = reply_sort_name order,
      cpCeiling = format_instant ceiling, cpPosition = format_instant (ksTimestamp p), cpID = ksID p\<rparr>"

definition encode_cursor :: "string \<Rightarrow> string \<Rightarrow> ID \<Rightarrow> ID \<Rightarrow> ReplySort \<Rightarrow> time \<Rightarrow> KeysetPosition option \<Rightarrow> string option" where
  "encode_cursor key kind target viewer order ceiling next_position =
     map_option (\<lambda>p. sign_contents key (marshal_payload cursor_fields (cursor_payload kind target viewer order ceiling p))) next_position"

definition cursor_position :: "cursorPayload \<Rightarrow> (KeysetPosition \<times> time) option" where
  "cursor_position p =
     (case canonical_instant (cpCeiling p) of None \<Rightarrow> None | Some ceiling \<Rightarrow>
      (case canonical_instant (cpPosition p) of None \<Rightarrow> None | Some at \<Rightarrow>
         if at > ceiling \<or> \<not> valid_generation_id (cpID p) then None
         else Some (\<lparr>ksTimestamp = at, ksID = cpID p\<rparr>, ceiling)))"

definition decode_cursor :: "string \<Rightarrow> string \<Rightarrow> string \<Rightarrow> ID \<Rightarrow> ID \<Rightarrow> ReplySort \<Rightarrow> (KeysetPosition \<times> time) option" where
  "decode_cursor key token kind target viewer order =
     (case Option.bind (open_contents key token) (unmarshal_payload cursor_fields cursor_of_fields) of
        None \<Rightarrow> None
      | Some p \<Rightarrow>
          if cpVersion p \<noteq> 1 \<or> cpKind p \<noteq> kind \<or> cpTarget p \<noteq> target \<or> cpViewer p \<noteq> viewer \<or> cpSort p \<noteq> reply_sort_name order
          then None else cursor_position p)"

section \<open>Search pages\<close>

record searchCursorPayload =
  scVersion :: int
  scScope :: string
  scViewer :: string
  scQuery :: string
  scCeiling :: string
  scPosition :: string
  scID :: string

definition search_fields :: "searchCursorPayload \<Rightarrow> scalars" where
  "search_fields p =
     [(''version'', IntField (scVersion p)), (''scope'', TextField (scScope p)), (''viewer'', TextField (scViewer p)),
      (''query'', TextField (scQuery p)), (''ceiling'', TextField (scCeiling p)), (''position'', TextField (scPosition p)),
      (''id'', TextField (scID p))]"

definition search_of_fields :: "scalars \<Rightarrow> searchCursorPayload option" where
  "search_of_fields fs =
     (case (int_of fs ''version'', text_of fs ''scope'', text_of fs ''viewer'', text_of fs ''query'', text_of fs ''ceiling'',
            text_of fs ''position'', text_of fs ''id'') of
        (Some v, Some s, Some w, Some q, Some c, Some p, Some i) \<Rightarrow>
          Some \<lparr>scVersion = v, scScope = s, scViewer = w, scQuery = q, scCeiling = c, scPosition = p, scID = i\<rparr>
      | _ \<Rightarrow> None)"

definition query_hash :: "string \<Rightarrow> string" where "query_hash text = raw_url (sha256 text)"

definition search_payload :: "ID \<Rightarrow> string \<Rightarrow> time \<Rightarrow> SearchPosition \<Rightarrow> searchCursorPayload" where
  "search_payload viewer text ceiling p =
     \<lparr>scVersion = 1, scScope = ''search-posts-newest'', scViewer = viewer, scQuery = query_hash text,
      scCeiling = format_instant ceiling, scPosition = format_instant (spCreatedAt p), scID = spID p\<rparr>"

definition encode_search_cursor :: "string \<Rightarrow> ID \<Rightarrow> string \<Rightarrow> time \<Rightarrow> SearchPosition option \<Rightarrow> string option" where
  "encode_search_cursor key viewer text ceiling next_position =
     map_option (\<lambda>p. sign_contents key (marshal_payload search_fields (search_payload viewer text ceiling p))) next_position"

definition decode_search_cursor :: "string \<Rightarrow> string \<Rightarrow> ID \<Rightarrow> string \<Rightarrow> (SearchPosition \<times> time) option" where
  "decode_search_cursor key token viewer text =
     (case Option.bind (open_contents key token) (unmarshal_payload search_fields search_of_fields) of
        None \<Rightarrow> None
      | Some p \<Rightarrow>
          if scVersion p \<noteq> 1 \<or> scScope p \<noteq> ''search-posts-newest'' \<or> scViewer p \<noteq> viewer \<or> scQuery p \<noteq> query_hash text then None
          else case canonical_instant (scCeiling p) of None \<Rightarrow> None | Some ceiling \<Rightarrow>
               (case canonical_instant (scPosition p) of None \<Rightarrow> None | Some at \<Rightarrow>
                  if at > ceiling \<or> \<not> valid_generation_id (scID p) then None
                  else Some (\<lparr>spCreatedAt = at, spID = scID p\<rparr>, ceiling)))"

section \<open>Feed pages\<close>

record feedCursorBinding =
  fbScope :: string
  fbTarget :: ID
  fbViewer :: ID
  fbView :: FeedView
  fbTag :: string
  fbSort :: FeedSort

record feedCursorPayload =
  fcVersion :: int
  fcBinding :: feedCursorBinding
  fcCeiling :: string
  fcTimestamp :: string
  fcKind :: FeedKind
  fcID :: ID
  fcScore :: int

fun view_name :: "FeedView \<Rightarrow> string" where
  "view_name NoView = []"
| "view_name FeedViewForYou = ''for-you''"
| "view_name FeedViewFollowing = ''following''"
| "view_name FeedViewSpicy = ''spicy''"
| "view_name (FeedViewOther s) = s"

fun feed_sort_name :: "FeedSort \<Rightarrow> string" where
  "feed_sort_name NoSort = []"
| "feed_sort_name FeedSortNewest = ''newest''"
| "feed_sort_name FeedSortRelevant = ''relevant''"
| "feed_sort_name FeedSortReacted = ''reacted''"
| "feed_sort_name (FeedSortOther s) = s"

text \<open>The constants that a string of the type denotes.\<close>

definition named_view :: "string \<Rightarrow> FeedView" where
  "named_view s = (if s = [] then NoView else if s = ''for-you'' then FeedViewForYou else if s = ''following'' then FeedViewFollowing
     else if s = ''spicy'' then FeedViewSpicy else FeedViewOther s)"

definition named_feed_sort :: "string \<Rightarrow> FeedSort" where
  "named_feed_sort s = (if s = [] then NoSort else if s = ''newest'' then FeedSortNewest else if s = ''relevant'' then FeedSortRelevant
     else if s = ''reacted'' then FeedSortReacted else FeedSortOther s)"

definition named_kind :: "string \<Rightarrow> FeedKind" where
  "named_kind s = (if s = ''post'' then FeedKindPost else if s = ''repost'' then FeedKindRepost else FeedKindOther s)"

definition feed_fields :: "feedCursorPayload \<Rightarrow> scalars" where
  "feed_fields p =
     (let b = fcBinding p in
      [(''version'', IntField (fcVersion p)), (''scope'', TextField (fbScope b)), (''target'', TextField (fbTarget b)),
       (''viewer'', TextField (fbViewer b)), (''view'', TextField (view_name (fbView b))), (''tag'', TextField (fbTag b)),
       (''sort'', TextField (feed_sort_name (fbSort b))), (''ceiling'', TextField (fcCeiling p)),
       (''timestamp'', TextField (fcTimestamp p)), (''kind'', TextField (kind_name (fcKind p))), (''id'', TextField (fcID p)),
       (''score'', IntField (fcScore p))])"

definition feed_of_fields :: "scalars \<Rightarrow> feedCursorPayload option" where
  "feed_of_fields fs =
     (case (int_of fs ''version'', text_of fs ''scope'', text_of fs ''target'', text_of fs ''viewer'', text_of fs ''view'', text_of fs ''tag'') of
        (Some v, Some scope, Some target, Some viewer, Some view, Some tag) \<Rightarrow>
          (case (text_of fs ''sort'', text_of fs ''ceiling'', text_of fs ''timestamp'', text_of fs ''kind'', text_of fs ''id'', int_of fs ''score'') of
             (Some order, Some ceiling, Some at, Some kind, Some i, Some score) \<Rightarrow>
               Some \<lparr>fcVersion = v,
                 fcBinding = \<lparr>fbScope = scope, fbTarget = target, fbViewer = viewer, fbView = named_view view, fbTag = tag, fbSort = named_feed_sort order\<rparr>,
                 fcCeiling = ceiling, fcTimestamp = at, fcKind = named_kind kind, fcID = i, fcScore = score\<rparr>
           | _ \<Rightarrow> None)
      | _ \<Rightarrow> None)"

definition canonical_feed_id :: "ID \<Rightarrow> bool" where
  "canonical_feed_id i \<longleftrightarrow> valid_generation_id i"

definition binding_valid :: "unicode \<Rightarrow> feedCursorBinding \<Rightarrow> bool" where
  "binding_valid uc b \<longleftrightarrow>
     (fbViewer b = [] \<or> canonical_feed_id (fbViewer b)) \<and>
     (if fbScope b = ''feed'' then
        (case normalize_feed_query uc \<lparr>fqView = fbView b, fqSort = fbSort b, fqTag = fbTag b,
            fqWindow = \<lparr>fwLimit = 0, fwPosition = None, fwInitialCeiling = 0\<rparr>\<rparr> of
           Inl _ \<Rightarrow> False
         | Inr q \<Rightarrow> fbTarget b = [] \<and> fqView q = fbView b \<and> fqSort q = fbSort b \<and> fqTag q = fbTag b \<and>
             (fbView b \<noteq> FeedViewFollowing \<or> fbViewer b \<noteq> []))
      else fbScope b = ''account-feed'' \<and> canonical_feed_id (fbTarget b) \<and> fbView b = NoView \<and> fbTag b = [] \<and> fbSort b = FeedSortNewest)"

definition feed_position :: "unicode \<Rightarrow> feedCursorPayload \<Rightarrow> (FeedPosition \<times> time) option" where
  "feed_position uc p =
     (if fcVersion p \<noteq> 1 \<or> \<not> binding_valid uc (fcBinding p) \<or> \<not> canonical_feed_id (fcID p) then None
      else case canonical_instant (fcCeiling p) of None \<Rightarrow> None | Some ceiling \<Rightarrow>
           (case canonical_instant (fcTimestamp p) of None \<Rightarrow> None | Some at \<Rightarrow>
              let q = \<lparr>fpScore = fcScore p, fpTimestamp = at, fpKind = fcKind p, fpID = fcID p\<rparr> in
              if isl (normalize_feed_window (fbSort (fcBinding p)) \<lparr>fwLimit = 0, fwPosition = Some q, fwInitialCeiling = ceiling\<rparr>)
              then None else Some (q, ceiling)))"

definition feed_payload :: "feedCursorBinding \<Rightarrow> time \<Rightarrow> FeedPosition \<Rightarrow> feedCursorPayload" where
  "feed_payload b ceiling p =
     \<lparr>fcVersion = 1, fcBinding = b, fcCeiling = format_instant ceiling, fcTimestamp = format_instant (fpTimestamp p),
      fcKind = fpKind p, fcID = fpID p, fcScore = fpScore p\<rparr>"

text \<open>\<open>Inl\<close> is the error of an invalid position or of a token that would be too long.\<close>

definition encode_feed_cursor :: "unicode \<Rightarrow> string \<Rightarrow> feedCursorBinding \<Rightarrow> time \<Rightarrow> FeedPosition option \<Rightarrow> unit + string option" where
  "encode_feed_cursor uc key b ceiling next_position =
     (case next_position of
        None \<Rightarrow> Inr None
      | Some p \<Rightarrow>
          let payload = feed_payload b ceiling p; token = sign_contents key (marshal_payload feed_fields payload) in
          if feed_position uc payload = None \<or> length token > max_cursor_bytes then Inl () else Inr (Some token))"

definition decode_feed_cursor :: "unicode \<Rightarrow> string \<Rightarrow> string \<Rightarrow> feedCursorBinding \<Rightarrow> (FeedPosition \<times> time) option" where
  "decode_feed_cursor uc key token b =
     (case Option.bind (open_contents key token) (unmarshal_payload feed_fields feed_of_fields) of
        None \<Rightarrow> None
      | Some p \<Rightarrow> if fcBinding p \<noteq> b then None else feed_position uc p)"

section \<open>The envelope is opened by its key\<close>

lemma length_hmac [simp]: "length (hmac_sha256 key m) = 32"
  by (simp add: hmac_sha256_def Let_def)

lemma raw_url_plain: "CHR ''.'' \<notin> set (raw_url s)"
  using b64_encode_set [OF alphabets(2), of s] by (auto simp: raw_url_def url_alphabet_def alnum_alphabet_def)

lemma strict_raw_url_encode [simp]: "strict_raw_url (raw_url s) = Some s"
  by (simp add: strict_raw_url_def raw_url_def b64_decode_encode alphabets)

lemma strict_raw_urlD: "strict_raw_url s = Some c \<Longrightarrow> raw_url c = s"
  by (auto simp: strict_raw_url_def split: option.splits if_splits)

lemma raw_url_inj: "raw_url a = raw_url b \<longleftrightarrow> a = b"
  by (metis option.inject strict_raw_url_encode)

lemma takeWhile_dot: "CHR ''.'' \<notin> set a \<Longrightarrow> takeWhile (\<lambda>c. c \<noteq> CHR ''.'') (a @ CHR ''.'' # b) = a"
  by (induction a) auto

lemma no_dots: "CHR ''.'' \<notin> set a \<Longrightarrow> filter (\<lambda>c. c = CHR ''.'') a = []"
  by (auto simp: filter_empty_conv)

theorem open_signed:
  assumes "length (sign_contents key contents) \<le> max_cursor_bytes"
  shows "open_contents key (sign_contents key contents) = Some contents"
proof -
  have "length (filter (\<lambda>c. c = CHR ''.'') (sign_contents key contents)) = 1" "sign_contents key contents \<noteq> []"
    by (simp_all add: sign_contents_def no_dots raw_url_plain)
  moreover have "takeWhile (\<lambda>c. c \<noteq> CHR ''.'') (sign_contents key contents) = raw_url contents"
    by (simp add: sign_contents_def takeWhile_dot raw_url_plain)
  moreover have "drop (length (raw_url contents) + 1) (sign_contents key contents) = raw_url (hmac_sha256 key contents)"
    by (simp add: sign_contents_def)
  ultimately show ?thesis using assms by (simp add: open_contents_def)
qed

lemma split_dot:
  assumes "CHR ''.'' \<in> set t"
  shows "t = takeWhile (\<lambda>c. c \<noteq> CHR ''.'') t @ CHR ''.'' # drop (length (takeWhile (\<lambda>c. c \<noteq> CHR ''.'') t) + 1) t"
  using assms by (induction t) auto

lemma open_contentsD:
  assumes "open_contents key token = Some contents"
  shows "token = sign_contents key contents" "length token \<le> max_cursor_bytes"
proof -
  define a where "a = takeWhile (\<lambda>c. c \<noteq> CHR ''.'') token"
  define b where "b = drop (length a + 1) token"
  have c: "length (filter (\<lambda>c. c = CHR ''.'') token) = 1" "strict_raw_url a = Some contents" "strict_raw_url b = Some (hmac_sha256 key contents)"
    and l: "length token \<le> max_cursor_bytes"
    using assms unfolding open_contents_def Let_def a_def [symmetric] b_def [symmetric] by (auto split: if_splits option.splits)
  have "CHR ''.'' \<in> set token" using c(1) by (metis no_dots list.size(3) zero_neq_one)
  from split_dot [OF this] have "token = a @ CHR ''.'' # b" by (simp add: a_def b_def)
  then show "token = sign_contents key contents" using c(2,3) [THEN strict_raw_urlD] by (simp add: sign_contents_def)
  show "length token \<le> max_cursor_bytes" by (rule l)
qed

lemma length_sign: "length (sign_contents key contents) = (4 * length contents + 2) div 3 + 44"
  by (simp add: sign_contents_def raw_url_def length_b64_encode)

section \<open>Canonical payloads\<close>

definition storable :: "scalars \<Rightarrow> bool" where
  "storable fs \<longleftrightarrow> (\<forall>(k, f) \<in> set fs. valid_utf8 k \<and> (case f of IntField v \<Rightarrow> - (2 ^ 63) \<le> v \<and> v < 2 ^ 63 | TextField s \<Rightarrow> valid_utf8 s))"

lemma read_scalar_text:
  assumes "storable fs" "(k, f) \<in> set fs"
  shows "\<exists>j. stands_for (scalar_text f) j \<and> read_scalar j = Some f \<and> valid_utf8 k"
proof (cases f)
  case (IntField v)
  then have "valid_utf8 k" "- (2 ^ 63) \<le> v" "v < 2 ^ 63" using assms by (auto simp: storable_def)
  then show ?thesis using stands_for_int [of v] json_int64_int [of v] IntField by (intro exI [of _ "JNumber (json_int v)"]) (simp add: read_scalar_def)
next
  case (TextField s)
  then have "valid_utf8 k" "valid_utf8 s" using assms by (auto simp: storable_def)
  then show ?thesis using stands_for_quote [of s] TextField by (intro exI [of _ "JString s"]) (simp add: read_scalar_def)
qed

lemma parsed_scalars:
  assumes "storable fs"
  shows "\<exists>js. list_all2 (\<lambda>(k, v) (k', j). k' = k \<and> valid_utf8 k \<and> stands_for v j) (map (apsnd scalar_text) fs) js \<and>
    all_some (map (\<lambda>(k, j). map_option (Pair k) (read_scalar j)) js) = Some fs"
  using assms
proof (induction fs)
  case (Cons e fs)
  obtain k f where kf: "e = (k, f)" by (cases e)
  have s: "storable fs" using Cons.prems by (simp add: storable_def)
  obtain js where js: "list_all2 (\<lambda>(k, v) (k', j). k' = k \<and> valid_utf8 k \<and> stands_for v j) (map (apsnd scalar_text) fs) js"
    "all_some (map (\<lambda>(k, j). map_option (Pair k) (read_scalar j)) js) = Some fs" using Cons.IH [OF s] by blast
  obtain j where "stands_for (scalar_text f) j" "read_scalar j = Some f" "valid_utf8 k"
    using read_scalar_text [OF Cons.prems, of k f] kf by auto
  then show ?case using js kf by (intro exI [of _ "(k, j) # js"]) simp
qed simp

lemma read_scalars_object:
  assumes "storable fs" "fs \<noteq> []"
  shows "read_scalars (json_object (map (apsnd scalar_text) fs)) = Some fs"
proof -
  obtain js where js: "list_all2 (\<lambda>(k, v) (k', j). k' = k \<and> valid_utf8 k \<and> stands_for v j) (map (apsnd scalar_text) fs) js"
    "all_some (map (\<lambda>(k, j). map_option (Pair k) (read_scalar j)) js) = Some fs" using parsed_scalars [OF assms(1)] by blast
  have "map (apsnd scalar_text) fs \<noteq> []" using assms(2) by simp
  from parse_json_object [OF this js(1)] js(2) show ?thesis by (simp add: read_scalars_def)
qed

locale canonical_payload =
  fixes fields_of :: "'p \<Rightarrow> scalars" and of_fields :: "scalars \<Rightarrow> 'p option" and normal :: "'p \<Rightarrow> bool"
  assumes read_back: "normal p \<Longrightarrow> of_fields (fields_of p) = Some p"
    and some_field: "fields_of p \<noteq> []"
begin

lemma unmarshal_marshal:
  "normal p \<Longrightarrow> storable (fields_of p) \<Longrightarrow> unmarshal_payload fields_of of_fields (marshal_payload fields_of p) = Some p"
  using read_scalars_object [OF _ some_field] read_back by (simp add: unmarshal_payload_def marshal_payload_def)

lemma unmarshal_canonical: "unmarshal_payload fields_of of_fields contents = Some p \<Longrightarrow> contents = marshal_payload fields_of p"
  by (auto simp: unmarshal_payload_def split: option.splits if_splits)

lemma token_accepted:
  assumes "normal p" "storable (fields_of p)" "length (sign_contents key (marshal_payload fields_of p)) \<le> max_cursor_bytes"
  shows "Option.bind (open_contents key (sign_contents key (marshal_payload fields_of p))) (unmarshal_payload fields_of of_fields) = Some p"
  using open_signed [OF assms(3)] unmarshal_marshal [OF assms(1,2)] by simp

lemma token_issued:
  assumes "Option.bind (open_contents key token) (unmarshal_payload fields_of of_fields) = Some p"
  shows "token = sign_contents key (marshal_payload fields_of p)"
  using assms open_contentsD(1) unmarshal_canonical by (auto simp: bind_eq_Some_conv)

end

lemma field_lookups [simp]: "int_of ((k, f) # fs) k' = (if k = k' then (case f of IntField v \<Rightarrow> Some v | _ \<Rightarrow> None) else int_of fs k')"
  "text_of ((k, f) # fs) k' = (if k = k' then (case f of TextField s \<Rightarrow> Some s | _ \<Rightarrow> None) else text_of fs k')"
  by (simp_all add: int_of_def text_of_def)

interpretation reply_cursor: canonical_payload cursor_fields cursor_of_fields "\<lambda>_. True"
  by unfold_locales (simp_all add: cursor_fields_def cursor_of_fields_def)

interpretation search_cursor: canonical_payload search_fields search_of_fields "\<lambda>_. True"
  by unfold_locales (simp_all add: search_fields_def search_of_fields_def)

text \<open>A feed payload whose typed strings are constants of their types where they can be.\<close>

definition named_payload :: "feedCursorPayload \<Rightarrow> bool" where
  "named_payload p \<longleftrightarrow> named_view (view_name (fbView (fcBinding p))) = fbView (fcBinding p) \<and>
     named_feed_sort (feed_sort_name (fbSort (fcBinding p))) = fbSort (fcBinding p) \<and> named_kind (kind_name (fcKind p)) = fcKind p"

lemma feed_lookups:
  "int_of (feed_fields p) ''version'' = Some (fcVersion p)" "text_of (feed_fields p) ''scope'' = Some (fbScope (fcBinding p))"
  "text_of (feed_fields p) ''target'' = Some (fbTarget (fcBinding p))" "text_of (feed_fields p) ''viewer'' = Some (fbViewer (fcBinding p))"
  "text_of (feed_fields p) ''view'' = Some (view_name (fbView (fcBinding p)))" "text_of (feed_fields p) ''tag'' = Some (fbTag (fcBinding p))"
  "text_of (feed_fields p) ''sort'' = Some (feed_sort_name (fbSort (fcBinding p)))" "text_of (feed_fields p) ''ceiling'' = Some (fcCeiling p)"
  "text_of (feed_fields p) ''timestamp'' = Some (fcTimestamp p)" "text_of (feed_fields p) ''kind'' = Some (kind_name (fcKind p))"
  "text_of (feed_fields p) ''id'' = Some (fcID p)" "int_of (feed_fields p) ''score'' = Some (fcScore p)"
  by (simp_all add: feed_fields_def Let_def)

interpretation feed_cursor: canonical_payload feed_fields feed_of_fields named_payload
proof
  show "feed_of_fields (feed_fields p) = Some p" if "named_payload p" for p
    using that unfolding feed_of_fields_def feed_lookups by (simp add: named_payload_def)
  show "feed_fields p \<noteq> []" for p by (simp add: feed_fields_def Let_def)
qed

section \<open>What can be stored\<close>

lemma hex_ascii: "is_hex c \<Longrightarrow> byte c < (128 :: nat)"
  by (auto simp: is_hex_def hex_value_def Let_def split: if_splits)

lemma uuid_ascii:
  assumes "uuid_shape s"
  shows "\<forall>c \<in> set s. byte c < (128 :: nat)"
proof -
  have l: "length s = 36" and h: "\<forall>g \<in> set (uuid_groups s). \<forall>c \<in> set g. is_hex c"
    and d: "s ! 8 = CHR ''-''" "s ! 13 = CHR ''-''" "s ! 18 = CHR ''-''" "s ! 23 = CHR ''-''"
    using assms by (simp_all add: uuid_shape_def)
  have g: "\<forall>g \<in> set (uuid_groups s). \<forall>c \<in> set g. byte c < (128 :: nat)" using h hex_ascii by blast
  have "set s = set (take 8 s @ s ! 8 # take 4 (drop 9 s) @ s ! 13 # take 4 (drop 14 s) @ s ! 18 # take 4 (drop 19 s) @ s ! 23 # drop 24 s)"
    by (rule arg_cong [OF uuid_split [OF l]])
  also have "\<dots> = {CHR ''-''} \<union> (\<Union>g \<in> set (uuid_groups s). set g)" unfolding d by (simp add: uuid_groups_def)
  finally have "set s = {CHR ''-''} \<union> (\<Union>g \<in> set (uuid_groups s). set g)" .
  then show ?thesis using g by auto
qed

lemma generation_id_utf8: "valid_generation_id i \<Longrightarrow> valid_utf8 i"
  using uuid_ascii by (intro ascii_valid) (auto simp: valid_generation_id_def parse_id_shape split: if_splits)

lemma instant_ascii: "c \<in> set (format_instant t) \<Longrightarrow> byte c < (128 :: nat)"
proof -
  have a: "byte c < (128 :: nat)" if "c \<in> set (append_int x w)" for c x w
    using append_int_chars [OF that] by (auto simp: is_digit_def)
  have "byte c < (128 :: nat)" if "c \<in> set (dropWhile P (rev (append_int x 9)))" for c P x
    using a [of c x 9] set_dropWhileD [OF that] by simp
  then show "byte c < (128 :: nat)" if "c \<in> set (format_instant t)"
    using that a by (auto simp: format_instant_def format_date_def format_day_def format_fraction_def Let_def split: prod.splits if_splits)
qed

lemma instant_utf8: "valid_utf8 (format_instant t)"
  using instant_ascii by (intro ascii_valid) blast

definition storable_instant :: "time \<Rightarrow> bool" where
  "storable_instant t \<longleftrightarrow> t \<noteq> 0 \<and> 0 \<le> utc_year t \<and> utc_year t \<le> 9999"

lemma canonical_instant_format: "storable_instant t \<Longrightarrow> canonical_instant (format_instant t) = Some t"
  by (simp add: canonical_instant_def storable_instant_def parse_rfc3339_format)

lemma canonical_instantD: "canonical_instant s = Some t \<Longrightarrow> format_instant t = s \<and> t \<noteq> 0"
  by (auto simp: canonical_instant_def split: option.splits if_splits)

section \<open>The length of a token\<close>

lemma length_escape_step: "s \<noteq> [] \<Longrightarrow> length (escape_step s) \<le> 6 * snd (decode_rune s)"
  using decode_rune_width [of s]
  by (auto simp: escape_step_def escape_ascii_def Let_def min_def)

lemma length_escape: "length (json_escape s) \<le> 6 * length s"
proof (induction s rule: length_induct)
  case (1 s)
  show ?case
  proof (cases "s = []")
    case False
    define w where "w = snd (decode_rune s)"
    have w: "0 < w" "w \<le> length s" using decode_rune_width [OF False] by (simp_all add: w_def)
    have "length (json_escape (drop w s)) \<le> 6 * length (drop w s)" using w by (intro 1 [rule_format]) simp
    then show ?thesis using json_escape_step [OF False] length_escape_step [OF False] w by (simp flip: w_def)
  qed simp
qed

lemma length_quote: "length (json_quote s) \<le> 6 * length s + 2"
  using length_escape [of s] by (simp add: json_quote_def)

lemma length_member_sum: "length (member_texts fs) \<le> sum_list (map (\<lambda>(k, v). length (json_quote k) + length v + 2) fs)"
proof (induction fs rule: induct_list012)
  case (2 f)
  then show ?case by (cases f) simp
next
  case (3 f g fs)
  then show ?case by (cases f) simp
qed (simp add: member_texts_def)

section \<open>Reply and bookmark tokens\<close>

definition binding_id :: "ID \<Rightarrow> bool" where
  "binding_id i \<longleftrightarrow> i = [] \<or> valid_generation_id i"

lemma binding_id_facts: "binding_id i \<Longrightarrow> valid_utf8 i \<and> length i \<le> 36"
  using generation_id_utf8 generation_id_length by (auto simp: binding_id_def)

lemma cursor_members: "json_object (map (apsnd scalar_text) (cursor_fields p)) = CHR ''{'' # member_texts (map (apsnd scalar_text) (cursor_fields p)) @ ''}''"
  by (rule json_object_texts)

lemma cursor_keys:
  "length (json_quote ''version'') = 9" "length (json_quote ''kind'') = 6" "length (json_quote ''target'') = 8" "length (json_quote ''viewer'') = 8"
  "length (json_quote ''sort'') = 6" "length (json_quote ''ceiling'') = 9" "length (json_quote ''position'') = 10" "length (json_quote ''id'') = 4"
  "length (json_int 1) = 1"
  by code_simp+

lemma cursor_token_length:
  assumes "cpVersion p = 1" "length (cpKind p) \<le> 9" "length (cpTarget p) \<le> 36" "length (cpViewer p) \<le> 36" "length (cpSort p) \<le> 6"
    "length (cpCeiling p) \<le> 30" "length (cpPosition p) \<le> 30" "length (cpID p) \<le> 36"
  shows "length (sign_contents key (marshal_payload cursor_fields p)) \<le> max_cursor_bytes"
proof -
  have q: "length (json_quote s) \<le> 6 * n + 2" if "length s \<le> n" for s n using length_quote [of s] that by linarith
  note b = assms(2-) [THEN q]
  have "length (member_texts (map (apsnd scalar_text) (cursor_fields p))) \<le> 1400"
    by (rule order_trans [OF length_member_sum]) (use b assms(1) in \<open>simp add: cursor_fields_def cursor_keys\<close>)
  then have "length (marshal_payload cursor_fields p) \<le> 1402" by (simp add: marshal_payload_def json_object_texts)
  then have "(4 * length (marshal_payload cursor_fields p) + 2) div 3 \<le> (4 * 1402 + 2) div 3" by (intro div_le_mono) simp
  then show ?thesis by (simp add: length_sign max_cursor_bytes_def)
qed

lemma issued_accepted:
  assumes "kind \<in> {''replies'', ''bookmarks''}" "order \<in> {ReplySortOldest, ReplySortNewest}" "binding_id target" "binding_id viewer"
    "valid_generation_id (ksID p)" "storable_instant (ksTimestamp p)" "storable_instant ceiling" "ksTimestamp p \<le> ceiling"
    and token: "token = sign_contents key (marshal_payload cursor_fields (cursor_payload kind target viewer order ceiling p))"
  shows "length token \<le> max_cursor_bytes \<and> decode_cursor key token kind target viewer order = Some (p, ceiling)"
proof -
  let ?q = "cursor_payload kind target viewer order ceiling p"
  have plain: "valid_utf8 kind \<and> length kind \<le> 9" "valid_utf8 (reply_sort_name order) \<and> length (reply_sort_name order) \<le> 6"
    using assms(1,2) by (auto simp: valid_utf8_ascii)
  note ids = binding_id_facts [OF assms(3)] binding_id_facts [OF assms(4)]
  have i: "valid_utf8 (ksID p)" "length (ksID p) = 36" using generation_id_utf8 [OF assms(5)] generation_id_length [OF assms(5)] by simp_all
  have at: "length (format_instant (ksTimestamp p)) \<le> 30" "length (format_instant ceiling) \<le> 30"
    using assms(6,7) format_instant_length by (simp_all add: storable_instant_def)
  have l: "length (sign_contents key (marshal_payload cursor_fields ?q)) \<le> max_cursor_bytes"
    by (rule cursor_token_length) (use plain ids i at in \<open>simp_all add: cursor_payload_def\<close>)
  have names: "valid_utf8 ''version''" "valid_utf8 ''kind''" "valid_utf8 ''target''" "valid_utf8 ''viewer''" "valid_utf8 ''sort''"
    "valid_utf8 ''ceiling''" "valid_utf8 ''position''" "valid_utf8 ''id''" by (simp_all add: valid_utf8_ascii)
  have "storable (cursor_fields ?q)"
    using plain ids i instant_utf8 names by (simp add: storable_def cursor_fields_def cursor_payload_def)
  from reply_cursor.token_accepted [OF TrueI this l] show ?thesis
    using l assms(5,8) canonical_instant_format [OF assms(6)] canonical_instant_format [OF assms(7)]
    by (simp add: token decode_cursor_def cursor_position_def cursor_payload_def)
qed

text \<open>
  C37: A page token of replies or bookmarks fits its bound and opens, for the same viewer, target and order, as the position
  and the ceiling it was issued for.
\<close>

theorem cursor_roundtrip:
  assumes "kind \<in> {''replies'', ''bookmarks''}" "order \<in> {ReplySortOldest, ReplySortNewest}" "binding_id target" "binding_id viewer"
    "valid_generation_id (ksID p)" "storable_instant (ksTimestamp p)" "storable_instant ceiling" "ksTimestamp p \<le> ceiling"
  shows "\<exists>token. encode_cursor key kind target viewer order ceiling (Some p) = Some token \<and> length token \<le> max_cursor_bytes \<and>
    decode_cursor key token kind target viewer order = Some (p, ceiling)"
  using issued_accepted [OF assms refl] by (simp add: encode_cursor_def)

lemma decode_cursorD:
  assumes "decode_cursor key token kind target viewer order = Some (p, ceiling)"
  obtains q where "Option.bind (open_contents key token) (unmarshal_payload cursor_fields cursor_of_fields) = Some q"
    "q = cursor_payload kind target viewer order ceiling p" "cursor_position q = Some (p, ceiling)"
proof -
  obtain q where q: "Option.bind (open_contents key token) (unmarshal_payload cursor_fields cursor_of_fields) = Some q"
    "cpVersion q = 1" "cpKind q = kind" "cpTarget q = target" "cpViewer q = viewer" "cpSort q = reply_sort_name order"
    "cursor_position q = Some (p, ceiling)"
    using assms by (auto simp: decode_cursor_def split: option.splits if_splits)
  moreover have "cpCeiling q = format_instant ceiling" "cpPosition q = format_instant (ksTimestamp p)" "cpID q = ksID p"
    using q(7) canonical_instantD by (auto simp: cursor_position_def split: option.splits if_splits)
  ultimately show thesis using that [of q] by (simp add: cursor_payload_def)
qed

text \<open>The second member tells a reply payload from the others.\<close>

lemma second_member:
  "member_texts (map (apsnd scalar_text) (cursor_fields p)) = json_quote ''version'' @ CHR '':'' # json_int (cpVersion p) @ CHR '','' # json_quote ''kind'' @ CHR '':'' #
     json_quote (cpKind p) @ CHR '','' # member_texts (drop 2 (map (apsnd scalar_text) (cursor_fields p)))"
  "\<exists>r. member_texts (map (apsnd scalar_text) (search_fields s)) = json_quote ''version'' @ CHR '':'' # json_int (scVersion s) @ CHR '','' # json_quote ''scope'' @ CHR '':'' # r"
  "\<exists>r. member_texts (map (apsnd scalar_text) (feed_fields f)) = json_quote ''version'' @ CHR '':'' # json_int (fcVersion f) @ CHR '','' # json_quote ''scope'' @ CHR '':'' # r"
  by (simp_all add: cursor_fields_def search_fields_def feed_fields_def Let_def)

lemma scope_not_kind: "json_quote ''scope'' @ r \<noteq> json_quote ''kind'' @ r'" "json_quote ''kind'' @ r' \<noteq> json_quote ''scope'' @ r"
proof -
  have "json_quote ''scope'' = CHR 34 # ''scope'' @ [CHR 34]" "json_quote ''kind'' = CHR 34 # ''kind'' @ [CHR 34]" by code_simp+
  then show "json_quote ''scope'' @ r \<noteq> json_quote ''kind'' @ r'" "json_quote ''kind'' @ r' \<noteq> json_quote ''scope'' @ r" by simp_all
qed

lemma other_payloads:
  assumes "cpVersion p = 1"
  shows "scVersion s = 1 \<Longrightarrow> marshal_payload search_fields s \<noteq> marshal_payload cursor_fields p"
    "fcVersion f = 1 \<Longrightarrow> marshal_payload feed_fields f \<noteq> marshal_payload cursor_fields p"
  using second_member(1) [of p] second_member(2) [of s] second_member(3) [of f] assms scope_not_kind
  by (auto simp: marshal_payload_def json_object_texts)

text \<open>
  C26: A token that is accepted for a page is, byte for byte, the one that the server issues for that very page under its key:
  no other kind, target, viewer or order accepts it, and neither the feed nor the search does.
\<close>

theorem cursor_bound:
  assumes "decode_cursor key token kind target viewer order = Some (p, ceiling)"
  shows "encode_cursor key kind target viewer order ceiling (Some p) = Some token \<and>
    (\<forall>kind' target' viewer' order' r. decode_cursor key token kind' target' viewer' order' = Some r \<longrightarrow>
       kind' = kind \<and> target' = target \<and> viewer' = viewer \<and> reply_sort_name order' = reply_sort_name order \<and> r = (p, ceiling)) \<and>
    (\<forall>viewer' words. decode_search_cursor key token viewer' words = None) \<and> (\<forall>uc b. decode_feed_cursor uc key token b = None)"
proof -
  obtain q where q: "Option.bind (open_contents key token) (unmarshal_payload cursor_fields cursor_of_fields) = Some q"
    "q = cursor_payload kind target viewer order ceiling p" "cursor_position q = Some (p, ceiling)"
    using decode_cursorD [OF assms] by blast
  obtain contents where c: "open_contents key token = Some contents" "contents = marshal_payload cursor_fields q"
    using q(1) reply_cursor.unmarshal_canonical by (auto simp: bind_eq_Some_conv)
  have v: "cpVersion q = 1" by (simp add: q(2) cursor_payload_def)
  have issued: "token = sign_contents key (marshal_payload cursor_fields q)" using reply_cursor.token_issued [OF q(1)] .
  have same: "kind' = kind \<and> target' = target \<and> viewer' = viewer \<and> reply_sort_name order' = reply_sort_name order \<and> r = (p, ceiling)"
    if "decode_cursor key token kind' target' viewer' order' = Some r" for kind' target' viewer' order' r
    using that q(1,3) by (auto simp: decode_cursor_def q(2) cursor_payload_def split: if_splits)
  have "decode_search_cursor key token viewer' words = None" for viewer' words
  proof (rule ccontr)
    assume "decode_search_cursor key token viewer' words \<noteq> None"
    then obtain s where "unmarshal_payload search_fields search_of_fields contents = Some s" "scVersion s = 1"
      using c(1) by (auto simp: decode_search_cursor_def split: option.splits if_splits)
    from search_cursor.unmarshal_canonical [OF this(1)] other_payloads(1) [OF v this(2)] c(2) show False by simp
  qed
  moreover have "decode_feed_cursor uc key token b = None" for uc b
  proof (rule ccontr)
    assume "decode_feed_cursor uc key token b \<noteq> None"
    then obtain f where "unmarshal_payload feed_fields feed_of_fields contents = Some f" "fcVersion f = 1"
      using c(1) by (auto simp: decode_feed_cursor_def feed_position_def split: option.splits if_splits)
    from feed_cursor.unmarshal_canonical [OF this(1)] other_payloads(2) [OF v this(2)] c(2) show False by simp
  qed
  moreover have "encode_cursor key kind target viewer order ceiling (Some p) = Some token" using issued by (simp add: encode_cursor_def q(2))
  ultimately show ?thesis using same by blast
qed

section \<open>Feed tokens\<close>

lemma tag_utf8: "list_all is_tag_character tag \<Longrightarrow> valid_utf8 tag"
  by (rule ascii_valid) (auto simp: list_all_iff is_tag_character_def class_defs)

lemma normal_feed_query:
  assumes "normalize_feed_query uc q = Inr q'"
  shows "fqView q' \<in> {FeedViewForYou, FeedViewFollowing, FeedViewSpicy}" "fqSort q' \<in> {FeedSortNewest, FeedSortRelevant, FeedSortReacted}"
    "list_all is_tag_character (fqTag q)"
  using assms by (auto simp: normalize_feed_query_def normalize_feed_window_def Let_def list_all_iff list_ex_iff split: if_splits)

lemma binding_valid_facts:
  assumes "binding_valid uc b"
  shows "named_view (view_name (fbView b)) = fbView b \<and> named_feed_sort (feed_sort_name (fbSort b)) = fbSort b \<and>
    valid_utf8 (fbScope b) \<and> valid_utf8 (fbTarget b) \<and> valid_utf8 (fbViewer b) \<and> valid_utf8 (fbTag b) \<and>
    valid_utf8 (view_name (fbView b)) \<and> valid_utf8 (feed_sort_name (fbSort b))"
proof -
  have viewer: "valid_utf8 (fbViewer b)" using assms generation_id_utf8 by (auto simp: binding_valid_def canonical_feed_id_def)
  have names: "v \<in> {FeedViewForYou, FeedViewFollowing, FeedViewSpicy, NoView} \<Longrightarrow> named_view (view_name v) = v"
    "o' \<in> {FeedSortNewest, FeedSortRelevant, FeedSortReacted} \<Longrightarrow> named_feed_sort (feed_sort_name o') = o'" for v o'
    by (auto simp: named_view_def named_feed_sort_def)
  show ?thesis
  proof (cases "fbScope b = ''feed''")
    case True
    then obtain q where q: "normalize_feed_query uc \<lparr>fqView = fbView b, fqSort = fbSort b, fqTag = fbTag b,
        fqWindow = \<lparr>fwLimit = 0, fwPosition = None, fwInitialCeiling = 0\<rparr>\<rparr> = Inr q"
      "fbTarget b = []" "fqView q = fbView b" "fqSort q = fbSort b"
      using assms by (auto simp: binding_valid_def split: sum.splits)
    then have k: "fbView b \<in> {FeedViewForYou, FeedViewFollowing, FeedViewSpicy}" "fbSort b \<in> {FeedSortNewest, FeedSortRelevant, FeedSortReacted}"
      and tag: "valid_utf8 (fbTag b)"
      using normal_feed_query [OF q(1)] tag_utf8 by simp_all
    have "valid_utf8 (view_name (fbView b))" "valid_utf8 (feed_sort_name (fbSort b))" using k by (auto simp: valid_utf8_ascii)
    moreover have "named_view (view_name (fbView b)) = fbView b" "named_feed_sort (feed_sort_name (fbSort b)) = fbSort b"
      using names(1) [of "fbView b"] names(2) [of "fbSort b"] k by blast+
    ultimately show ?thesis using viewer q(2) tag True by (simp add: valid_utf8_ascii)
  next
    case False
    then have "fbScope b = ''account-feed''" "valid_generation_id (fbTarget b)" "fbView b = NoView" "fbTag b = []" "fbSort b = FeedSortNewest"
      using assms by (auto simp: binding_valid_def canonical_feed_id_def)
    then show ?thesis using viewer generation_id_utf8 by (simp add: valid_utf8_ascii named_view_def named_feed_sort_def)
  qed
qed

text \<open>
  A feed token that the server issues is accepted under its own binding - scope, target, viewer, view, tag and order - and
  gives back its position and ceiling; under any other binding it is refused.
\<close>

theorem feed_token_exact:
  assumes "encode_feed_cursor uc key b ceiling (Some p) = Inr (Some token)" "storable_instant (fpTimestamp p)" "storable_instant ceiling"
    "fpScore p < 2 ^ 63"
  shows "decode_feed_cursor uc key token b' = (if b' = b then Some (p, ceiling) else None)"
proof -
  let ?q = "feed_payload b ceiling p"
  have t: "token = sign_contents key (marshal_payload feed_fields ?q)" "length token \<le> max_cursor_bytes" and f: "feed_position uc ?q \<noteq> None"
    using assms(1) by (auto simp: encode_feed_cursor_def Let_def split: if_splits)
  obtain r where r: "feed_position uc ?q = Some r" using f by blast
  have at: "canonical_instant (format_instant (fpTimestamp p)) = Some (fpTimestamp p)" "canonical_instant (format_instant ceiling) = Some ceiling"
    using assms(2,3) canonical_instant_format by simp_all
  have v: "binding_valid uc b" "valid_generation_id (fpID p)" and r': "r = (p, ceiling)"
    and n: "\<not> isl (normalize_feed_window (fbSort b) \<lparr>fwLimit = 0, fwPosition = Some p, fwInitialCeiling = ceiling\<rparr>)"
    using r at by (cases p, auto simp: feed_position_def feed_payload_def canonical_feed_id_def Let_def split: if_splits)+
  obtain w where "check_feed_position (fbSort b) \<lparr>fwLimit = DefaultReadLimit, fwPosition = Some p, fwInitialCeiling = ceiling\<rparr> p = Inr w"
    using n by (auto simp: normalize_feed_window_def isl_def Let_def and_then_def split: if_splits sum.splits)
  then have k: "fpKind p = FeedKindPost \<or> fpKind p = FeedKindRepost" "0 \<le> fpScore p"
    by (auto simp: check_feed_position_def split: option.splits if_splits)
  have "named_payload ?q"
    using binding_valid_facts [OF v(1)] k(1) by (auto simp: named_payload_def feed_payload_def named_kind_def)
  moreover have "storable (feed_fields ?q)"
  proof -
    have "valid_utf8 ''version''" "valid_utf8 ''scope''" "valid_utf8 ''target''" "valid_utf8 ''viewer''" "valid_utf8 ''view''" "valid_utf8 ''tag''"
      "valid_utf8 ''sort''" "valid_utf8 ''ceiling''" "valid_utf8 ''timestamp''" "valid_utf8 ''kind''" "valid_utf8 ''id''" "valid_utf8 ''score''"
      by (simp_all add: valid_utf8_ascii)
    moreover have "valid_utf8 (view_name (fbView b))" "valid_utf8 (feed_sort_name (fbSort b))" "valid_utf8 (kind_name (fpKind p))"
      using binding_valid_facts [OF v(1)] k(1) by (auto simp: valid_utf8_ascii)
    ultimately show ?thesis
      using binding_valid_facts [OF v(1)] generation_id_utf8 [OF v(2)] instant_utf8 k(2) assms(4)
      by (simp add: storable_def feed_fields_def feed_payload_def)
  qed
  ultimately have "Option.bind (open_contents key token) (unmarshal_payload feed_fields feed_of_fields) = Some ?q"
    unfolding t(1) using t by (intro feed_cursor.token_accepted) simp_all
  then show ?thesis using r r' by (simp add: decode_feed_cursor_def) (simp add: feed_payload_def)
qed

text \<open>Pages of a sample viewer under any key.\<close>

definition sample_position :: KeysetPosition where
  "sample_position = \<lparr>ksTimestamp = 1000, ksID = sample_id CHR ''7''\<rparr>"

definition sample_feed_position :: FeedPosition where
  "sample_feed_position = \<lparr>fpScore = 0, fpTimestamp = 1000, fpKind = FeedKindRepost, fpID = sample_id CHR ''7''\<rparr>"

definition sample_binding :: feedCursorBinding where
  "sample_binding = \<lparr>fbScope = ''account-feed'', fbTarget = sample_id CHR ''2'', fbViewer = [], fbView = NoView, fbTag = [], fbSort = FeedSortNewest\<rparr>"

lemma sample_instants: "storable_instant 1000" "storable_instant 2000"
  by (simp_all add: storable_instant_def) code_simp+

lemma sample_ids [simp]: "valid_generation_id (sample_id CHR ''7'')" "valid_generation_id (sample_id CHR ''2'')" "valid_generation_id (sample_id CHR ''5'')"
  by (simp_all add: is_digit_def)

theorem cursor_roundtrip_witness:
  "\<exists>token. encode_cursor ''k'' ''replies'' (sample_id CHR ''5'') [] ReplySortNewest 2000 (Some sample_position) = Some token \<and>
     length token \<le> 2048 \<and> decode_cursor ''k'' token ''replies'' (sample_id CHR ''5'') [] ReplySortNewest = Some (sample_position, 2000)"
  using cursor_roundtrip [of "''replies''" ReplySortNewest "sample_id CHR ''5''" "[]" sample_position 2000 "''k''"] sample_instants
  by (simp add: sample_position_def binding_id_def max_cursor_bytes_def)

theorem cursor_bound_witness:
  "\<exists>token. decode_cursor ''k'' token ''replies'' (sample_id CHR ''5'') [] ReplySortNewest = Some (sample_position, 2000) \<and>
     decode_cursor ''k'' token ''replies'' (sample_id CHR ''2'') [] ReplySortNewest = None \<and>
     decode_cursor ''k'' token ''replies'' (sample_id CHR ''5'') (sample_id CHR ''7'') ReplySortNewest = None \<and>
     decode_search_cursor ''k'' token [] ''go'' = None"
proof -
  have "\<exists>token. decode_cursor ''k'' token ''replies'' (sample_id CHR ''5'') [] ReplySortNewest = Some (sample_position, 2000)"
    by (rule exI, rule conjunct2 [OF issued_accepted [OF _ _ _ _ _ _ _ _ refl]])
       (use sample_instants in \<open>simp_all add: sample_position_def binding_id_def\<close>)
  then obtain token where d: "decode_cursor ''k'' token ''replies'' (sample_id CHR ''5'') [] ReplySortNewest = Some (sample_position, 2000)"
    by blast
  note bound = cursor_bound [OF d]
  have other: "decode_cursor ''k'' token ''replies'' target viewer ReplySortNewest = None"
    if "target \<noteq> sample_id CHR ''5'' \<or> viewer \<noteq> []" for target viewer
    using bound that by (metis not_None_eq)
  have "sample_id CHR ''2'' \<noteq> sample_id CHR ''5''" "sample_id CHR ''7'' \<noteq> []" by (simp, simp add: sample_id_def)
  then show ?thesis using d other bound by blast
qed

lemma feed_keys:
  "length (json_quote ''scope'') = 7" "length (json_quote ''view'') = 6" "length (json_quote ''tag'') = 5" "length (json_quote ''timestamp'') = 11"
  "length (json_quote ''score'') = 7" "length (json_int 0) = 1"
  by code_simp+

theorem feed_token_exact_witness:
  "\<exists>token. encode_feed_cursor ascii_unicode ''k'' sample_binding 2000 (Some sample_feed_position) = Inr (Some token) \<and>
     decode_feed_cursor ascii_unicode ''k'' token sample_binding = Some (sample_feed_position, 2000) \<and>
     decode_feed_cursor ascii_unicode ''k'' token (sample_binding\<lparr>fbTarget := sample_id CHR ''5''\<rparr>) = None"
proof -
  let ?q = "feed_payload sample_binding 2000 sample_feed_position"
  have at: "length (format_instant 1000) \<le> 30" "length (format_instant 2000) \<le> 30"
    using sample_instants format_instant_length by (simp_all add: storable_instant_def)
  have "length (json_quote s) \<le> 6 * n + 2" if "length s \<le> n" for s n using length_quote [of s] that by linarith
  note b = this [OF at(1)] this [OF at(2)] this [of "sample_id CHR ''2''" 36] this [of "sample_id CHR ''7''" 36] this [of "''account-feed''" 12]
    this [of "''newest''" 6] this [of "''repost''" 6] this [of "[]" 0]
  have "length (member_texts (map (apsnd scalar_text) (feed_fields ?q))) \<le> 1400"
    by (rule order_trans [OF length_member_sum])
       (use b in \<open>simp add: feed_fields_def feed_payload_def sample_binding_def sample_feed_position_def cursor_keys feed_keys generation_id_length\<close>)
  then have "length (marshal_payload feed_fields ?q) \<le> 1402" by (simp add: marshal_payload_def json_object_texts)
  then have "(4 * length (marshal_payload feed_fields ?q) + 2) div 3 \<le> (4 * 1402 + 2) div 3" by (intro div_le_mono) simp
  then have "length (sign_contents ''k'' (marshal_payload feed_fields ?q)) \<le> max_cursor_bytes" by (simp add: length_sign max_cursor_bytes_def)
  moreover have "feed_position ascii_unicode ?q \<noteq> None"
    using canonical_instant_format [OF sample_instants(1)] canonical_instant_format [OF sample_instants(2)]
      sample_ids(1) [unfolded valid_generation_id_def]
    by (simp add: feed_position_def feed_payload_def sample_binding_def sample_feed_position_def binding_valid_def canonical_feed_id_def Let_def
        normalize_feed_window_def check_feed_position_def DefaultReadLimit_def MaxReadLimit_def)
  ultimately obtain token where t: "encode_feed_cursor ascii_unicode ''k'' sample_binding 2000 (Some sample_feed_position) = Inr (Some token)"
    by (simp add: encode_feed_cursor_def Let_def)
  have "decode_feed_cursor ascii_unicode ''k'' token b' = (if b' = sample_binding then Some (sample_feed_position, 2000) else None)" for b'
    by (rule feed_token_exact [OF t]) (use sample_instants in \<open>simp_all add: sample_feed_position_def\<close>)
  then show ?thesis using t by (auto simp: sample_binding_def sample_id_def)
qed

end
