(* ===== verification/Ratelimit.thy ===== *)
theory Ratelimit
  imports Prelude
begin

text \<open>
  The fixed-window rate limiter of \<open>internal/api/limit.go\<close>: \<open>rateWindow\<close> and \<open>rateLimiter\<close> are
  records, the \<open>clients\<close> map is an association list with distinct keys, and \<open>allow\<close> returns the
  limiter it leaves behind with the delay it answers (0 is admission).  The mutex makes calls
  atomic, so a concurrent execution is a list of calls.
\<close>

section \<open>State\<close>

definition rateCleanupInterval :: duration where
  "rateCleanupInterval = second"

record rateWindow =
  used :: int
  expires :: time

record rateLimiter =
  clients :: "(string \<times> rateWindow) list"
  requests :: int
  maxClients :: int
  window :: duration
  nextSweep :: time

definition newRateLimiter :: "int \<Rightarrow> duration \<Rightarrow> int \<Rightarrow> rateLimiter" where
  "newRateLimiter n w m = \<lparr>clients = [], requests = n, maxClients = m, window = w, nextSweep = 0\<rparr>"

section \<open>Operations\<close>

definition sweep :: "rateLimiter \<Rightarrow> time \<Rightarrow> rateLimiter" where
  "sweep l now =
     (if \<not> now < nextSweep l
      then l\<lparr>clients := filter (\<lambda>(k, w). now < expires w) (clients l),
             nextSweep := now + rateCleanupInterval\<rparr>
      else l)"

definition current_window :: "rateLimiter \<Rightarrow> string \<Rightarrow> time \<Rightarrow> rateWindow" where
  "current_window l key now =
     (case map_of (clients l) key of
        None \<Rightarrow> \<lparr>used = 0, expires = now + window l\<rparr>
      | Some w \<Rightarrow> if \<not> now < expires w then \<lparr>used = 0, expires = now + window l\<rparr> else w)"

definition allow :: "rateLimiter \<Rightarrow> string \<Rightarrow> time \<Rightarrow> rateLimiter \<times> duration" where
  "allow l0 key now =
     (let l = sweep l0 now in
      if map_of (clients l) key = None \<and> int (length (clients l)) \<ge> maxClients l
      then (l, nextSweep l - now)
      else let w = current_window l key now in
           if used w \<ge> requests l then (l, expires w - now)
           else (l\<lparr>clients := AList.update key (w\<lparr>used := used w + 1\<rparr>) (clients l)\<rparr>, 0))"

text \<open>A run: the calls of all clients in the order the mutex admits them.\<close>

fun calls :: "rateLimiter \<Rightarrow> (string \<times> time) list \<Rightarrow> rateLimiter \<times> duration list" where
  "calls l [] = (l, [])"
| "calls l ((k, t) # cs) =
     (let (l', d) = allow l k t; (l'', ds) = calls l' cs in (l'', d # ds))"

section \<open>Invariant\<close>

definition limiter_ok :: "rateLimiter \<Rightarrow> bool" where
  "limiter_ok l \<longleftrightarrow>
     distinct (map fst (clients l)) \<and> int (length (clients l)) \<le> maxClients l \<and>
     (\<forall>(k, w) \<in> set (clients l). 0 \<le> used w \<and> used w \<le> requests l)"

lemma sweep_params [simp]:
  "requests (sweep l t) = requests l" "maxClients (sweep l t) = maxClients l"
  "window (sweep l t) = window l"
  by (simp_all add: sweep_def)

lemma sweep_next: "t < nextSweep (sweep l t)"
  by (auto simp: sweep_def rateCleanupInterval_def)

lemma sweep_ok: "limiter_ok l \<Longrightarrow> limiter_ok (sweep l t)"
  by (auto simp: limiter_ok_def sweep_def distinct_filter_keys
           intro: order_trans [OF of_nat_mono [OF length_filter_le]])

lemma allow_params [simp]:
  "requests (fst (allow l k t)) = requests l" "maxClients (fst (allow l k t)) = maxClients l"
  "window (fst (allow l k t)) = window l"
  by (auto simp: allow_def Let_def)

text \<open>The three outcomes of a call: a full table, an exhausted window, an admission.\<close>

lemma allow_cases [consumes 0, case_names full quota admit]:
  fixes l k t
  defines "s \<equiv> sweep l t" and "w \<equiv> current_window (sweep l t) k t"
  obtains
    "map_of (clients s) k = None" "maxClients l \<le> int (length (clients s))"
      "allow l k t = (s, nextSweep s - t)"
  | "requests l \<le> used w" "allow l k t = (s, expires w - t)"
  | "used w < requests l" "map_of (clients s) k = None \<Longrightarrow> int (length (clients s)) < maxClients l"
      "allow l k t = (s\<lparr>clients := AList.update k (w\<lparr>used := used w + 1\<rparr>) (clients s)\<rparr>, 0)"
  by (cases "map_of (clients s) k = None \<and> maxClients l \<le> int (length (clients s))";
      cases "requests l \<le> used w")
     (auto simp: allow_def Let_def assms)

lemma current_window_used: "limiter_ok l \<Longrightarrow> 0 \<le> used (current_window l k t)"
  by (auto simp: current_window_def limiter_ok_def dest!: map_of_SomeD split: option.splits)

lemma current_window_live: "0 < window l \<Longrightarrow> t < expires (current_window l k t)"
  by (auto simp: current_window_def split: option.splits)

lemma allow_ok:
  assumes "limiter_ok l"
  shows "limiter_ok (fst (allow l k t))"
proof (cases rule: allow_cases [of l t k])
  case admit
  let ?w = "current_window (sweep l t) k t"
  have "set (AList.update k (?w\<lparr>used := used ?w + 1\<rparr>) (clients (sweep l t)))
        \<subseteq> insert (k, ?w\<lparr>used := used ?w + 1\<rparr>) (set (clients (sweep l t)))"
    by (rule set_alist_update)
  with admit sweep_ok [OF assms, of t] current_window_used [OF sweep_ok [OF assms], of t k t]
  show ?thesis
    by (fastforce simp: limiter_ok_def length_alist_update distinct_update)
qed (use assms sweep_ok in auto)

text \<open>A denial always reports a positive delay, so the delay 0 identifies an admission.\<close>

lemma allow_delay_nonneg: "0 < window l \<Longrightarrow> 0 \<le> snd (allow l k t)"
  using sweep_next [of t l] current_window_live [of "sweep l t" t k]
  by (cases rule: allow_cases [of l t k]) auto

section \<open>What a client can obtain\<close>

definition admissions :: "string \<Rightarrow> (string \<times> time) list \<Rightarrow> duration list \<Rightarrow> nat" where
  "admissions k cs ds = length (filter (\<lambda>((k', t), d). k' = k \<and> d = 0) (zip cs ds))"

text \<open>
  What key \<open>k\<close> can still obtain before instant \<open>e\<close>: an entry that outlives \<open>e\<close> leaves what its own
  window has left, any other state leaves at most one more whole window besides.
\<close>

definition remaining :: "rateLimiter \<Rightarrow> string \<Rightarrow> time \<Rightarrow> int" where
  "remaining l k e =
     (case map_of (clients l) k of
        None \<Rightarrow> requests l
      | Some w \<Rightarrow> (if e \<le> expires w then 0 else requests l) + (requests l - used w))"

lemma remaining_bounds:
  assumes "limiter_ok l" "0 \<le> requests l"
  shows "0 \<le> remaining l k e" "remaining l k e \<le> 2 * requests l"
  using assms
  by (auto simp: remaining_def limiter_ok_def dest!: map_of_SomeD split: option.splits)

lemma remaining_sweep:
  assumes "limiter_ok l" "0 \<le> requests l" "t < e"
  shows "remaining (sweep l t) k e \<le> remaining l k e"
  using assms
  by (auto simp: remaining_def sweep_def limiter_ok_def map_of_filter_key
           dest!: map_of_SomeD split: option.splits)

lemma remaining_other:
  "k' \<noteq> k \<Longrightarrow>
   remaining (l\<lparr>clients := AList.update k' w (clients l)\<rparr>) k e = remaining l k e"
  by (auto simp: remaining_def split: option.splits)

lemma remaining_allow:
  assumes "limiter_ok l" "0 \<le> requests l" "0 < window l"
    and "t0 \<le> t" "t < t0 + window l"
  shows "remaining (fst (allow l k' t)) k (t0 + window l)
           + (if k' = k \<and> snd (allow l k' t) = 0 then 1 else 0)
         \<le> remaining l k (t0 + window l)"
proof -
  let ?s = "sweep l t" and ?e = "t0 + window l"
  have s: "limiter_ok ?s" using assms(1) by (rule sweep_ok)
  have r: "remaining ?s k ?e \<le> remaining l k ?e"
    using assms(1,2,5) by (rule remaining_sweep)
  have "remaining (fst (allow l k' t)) k ?e
          + (if k' = k \<and> snd (allow l k' t) = 0 then 1 else 0) \<le> remaining ?s k ?e"
  proof (cases rule: allow_cases [of l t k'])
    case admit
    then show ?thesis
      using s assms(2-5)
      by (cases "k' = k")
         (auto simp: remaining_other remaining_def limiter_ok_def current_window_def
               dest!: map_of_SomeD split: option.splits)
  qed (use sweep_next [of t l] current_window_live [of "sweep l t" t k'] assms(3) in auto)
  with r show ?thesis by linarith
qed

lemma calls_admissions:
  assumes "limiter_ok l" "0 \<le> requests l" "0 < window l"
    and "\<forall>(k', t) \<in> set cs. t0 \<le> t \<and> t < t0 + window l"
  shows "int (admissions k cs (snd (calls l cs))) \<le> remaining l k (t0 + window l)"
  using assms
proof (induction cs arbitrary: l)
  case Nil
  then show ?case by (simp add: admissions_def remaining_bounds)
next
  case (Cons c cs)
  obtain k' t where c: "c = (k', t)" by force
  let ?l = "fst (allow l k' t)"
  have "int (admissions k cs (snd (calls ?l cs))) \<le> remaining ?l k (t0 + window ?l)"
    using Cons.prems c by (intro Cons.IH) (auto simp: allow_ok)
  moreover have "remaining ?l k (t0 + window l)
           + (if k' = k \<and> snd (allow l k' t) = 0 then 1 else 0) \<le> remaining l k (t0 + window l)"
    using Cons.prems c by (intro remaining_allow) auto
  ultimately show ?case
    by (cases "k' = k") (auto simp: c admissions_def split_beta Let_def)
qed

lemma calls_params [simp]:
  "requests (fst (calls l cs)) = requests l" "maxClients (fst (calls l cs)) = maxClients l"
  "window (fst (calls l cs)) = window l"
  by (induction cs arbitrary: l) (auto simp: split_beta Let_def)

lemma calls_ok: "limiter_ok l \<Longrightarrow> limiter_ok (fst (calls l cs))"
  by (induction cs arbitrary: l) (auto simp: split_beta Let_def allow_ok)

lemma newRateLimiter_ok: "0 \<le> m \<Longrightarrow> limiter_ok (newRateLimiter n w m)"
  by (simp add: limiter_ok_def newRateLimiter_def)

lemma newRateLimiter_params [simp]:
  "requests (newRateLimiter n w m) = n" "window (newRateLimiter n w m) = w"
  "maxClients (newRateLimiter n w m) = m"
  by (simp_all add: newRateLimiter_def)

text \<open>A client whose window has expired is admitted again.\<close>

lemma expired_readmitted:
  assumes "limiter_ok l" "1 \<le> requests l" "map_of (clients l) k = Some w" "expires w \<le> t"
  shows "snd (allow l k t) = 0"
proof -
  have used0: "used (current_window (sweep l t) k t) = 0"
    using assms by (auto simp: current_window_def sweep_def map_of_filter_key limiter_ok_def)
  have "int (length (clients (sweep l t))) < maxClients l"
    if "map_of (clients (sweep l t)) k = None"
  proof -
    have "clients (sweep l t) = filter (\<lambda>(k, w). t < expires w) (clients l)"
      using that assms(3) by (auto simp: sweep_def split: if_splits)
    moreover have "length (filter (\<lambda>(k, w). t < expires w) (clients l)) < length (clients l)"
      using assms(3,4) by (intro length_filter_less [of "(k, w)"]) (auto dest: map_of_SomeD)
    ultimately show ?thesis using assms(1) by (simp add: limiter_ok_def)
  qed
  then show ?thesis
    using used0 assms(2) by (cases rule: allow_cases [of l t k]) auto
qed

text \<open>
  C4: the burst bound of the fixed windows.  However the calls of all clients interleave before and
  inside it, no time span shorter than one window admits a client more than twice the configured
  number of requests.
\<close>

theorem rate_limit_burst:
  assumes "0 \<le> n" "0 < w" "0 \<le> m"
    and "\<forall>(k', t) \<in> set cs. t0 \<le> t \<and> t < t0 + w"
  shows "int (admissions k cs (snd (calls (fst (calls (newRateLimiter n w m) before)) cs))) \<le> 2 * n"
proof -
  let ?l = "fst (calls (newRateLimiter n w m) before)"
  have ok: "limiter_ok ?l" using assms by (intro calls_ok newRateLimiter_ok) auto
  have "int (admissions k cs (snd (calls ?l cs))) \<le> remaining ?l k (t0 + window ?l)"
    using ok assms by (intro calls_admissions) auto
  also have "\<dots> \<le> 2 * n" using remaining_bounds(2) [OF ok] assms by simp
  finally show ?thesis .
qed

theorem rate_limit_burst_witness:
  "int (admissions ''a'' [(''a'', 5), (''a'', 6), (''b'', 6), (''a'', 7)]
     (snd (calls (fst (calls (newRateLimiter 2 10 5) [(''a'', 1)]))
                 [(''a'', 5), (''a'', 6), (''b'', 6), (''a'', 7)]))) \<le> 4"
  using rate_limit_burst [of 2 10 5 "[(''a'', 5), (''a'', 6), (''b'', 6), (''a'', 7)]" 0 "''a''"
    "[(''a'', 1)]"] by simp

text \<open>
  C5: the table is bounded and counts are sound in every reachable state: never more than
  \<open>maxClients\<close> keys, no duplicate key, and no window over its quota.
\<close>

theorem rate_limit_table_bounded:
  assumes "0 \<le> m"
  shows "limiter_ok (fst (calls (newRateLimiter n w m) cs)) \<and>
    int (length (clients (fst (calls (newRateLimiter n w m) cs)))) \<le> m"
  using calls_ok [OF newRateLimiter_ok [OF assms], of n w cs]
  by (simp add: limiter_ok_def)

theorem rate_limit_table_bounded_witness:
  "int (length (clients (fst (calls (newRateLimiter 2 10 1) [(''a'', 5), (''b'', 6)])))) \<le> 1"
  using rate_limit_table_bounded [of 1 2 10 "[(''a'', 5), (''b'', 6)]"] by simp

text \<open>
  C6: a denial is honest.  The delay is positive, and a client turned away by its own quota is
  admitted if it waits exactly that long; the only other denial is a full table.
\<close>

theorem rate_limit_retry_honoured:
  assumes "limiter_ok l" "1 \<le> requests l" "0 < window l"
    and "allow l k t = (l', d)" and "d \<noteq> 0"
  shows "0 < d \<and>
    (map_of (clients l') k = None \<and> maxClients l' \<le> int (length (clients l'))
     \<or> snd (allow l' k (t + d)) = 0)"
proof (cases rule: allow_cases [of l t k])
  case full
  then show ?thesis using assms allow_delay_nonneg [of l k t] by auto
next
  case quota
  let ?s = "sweep l t"
  have eq: "l' = ?s" "t + d = expires (current_window ?s k t)" using quota assms by auto
  obtain w where w: "map_of (clients ?s) k = Some w" "t < expires w" "t + d = expires w"
    using quota assms(2) eq
    by (auto simp: current_window_def split: option.splits if_splits)
  have "snd (allow ?s k (expires w)) = 0"
    using sweep_ok [OF assms(1)] w assms(2) expired_readmitted by auto
  with eq w show ?thesis by auto
next
  case admit
  with assms show ?thesis by simp
qed

theorem rate_limit_retry_honoured_witness:
  "snd (allow (fst (allow (newRateLimiter 1 10 5) ''a'' 3)) ''a'' 4) = 9 \<and>
   snd (allow (fst (allow (fst (allow (newRateLimiter 1 10 5) ''a'' 3)) ''a'' 4)) ''a'' 13) = 0"
proof -
  let ?l = "fst (allow (newRateLimiter 1 10 5) ''a'' 3)"
  have d: "allow ?l ''a'' 4 = (?l, 9)"
    by (simp add: allow_def sweep_def newRateLimiter_def current_window_def rateCleanupInterval_def)
  have ok: "limiter_ok ?l" by (intro allow_ok newRateLimiter_ok) simp
  have k: "map_of (clients ?l) ''a'' \<noteq> None"
    by (simp add: allow_def sweep_def newRateLimiter_def current_window_def rateCleanupInterval_def)
  show ?thesis
    using rate_limit_retry_honoured [OF ok _ _ d] d k by simp
qed

end
