(* ===== verification/Http.thy ===== *)
theory Http
  imports Cursor Ratelimit
begin

text \<open>
  The HTTP interface (\<open>internal/api/\<close>): the decoding of bodies, queries and page windows, the projections of the responses,
  the guards of writes and credentials, every handler, and the controls around them.  A handler passes the site through its
  steps and stops at the first response.  The store and the authentication service are a record of operations, as the
  interface \<open>Store\<close> of the package is.  What \<open>net/http\<close> has already parsed - header values, cookies, path
  values, the matched pattern, the media type, whether the path is clean - is part of the request.
\<close>

section \<open>Requests and responses\<close>

datatype route =
    RouteRegister | RouteLogin | RouteMe | RouteLogout | RouteAccountByID | RouteAccountByHandle | RouteFollow
  | RouteCreatePost | RouteGetPost | RouteDeletePost | RouteListReplies | RouteCreateReply | RouteDeleteReply
  | RouteReaction | RouteRepost | RouteBookmark | RouteListBookmarks | RouteListFeed | RouteSearch | RouteSuggested
  | RouteTrends | RouteAccountResource | RouteHealth | RouteReady

text \<open>
  \<open>rqMedia\<close> is the media type and its character set, \<open>rqPeer\<close> the unmapped connection peer, \<open>rqAllowed\<close> the methods for which
  the multiplexer has a pattern, \<open>rqEnded\<close> whether the context of the request has ended.
\<close>

datatype failure = Service go_error | RequestError int string | DeadlineExceeded | Canceled

record request =
  rqMethod :: string
  rqPath :: string
  rqPathClean :: bool
  rqRoute :: "route option"
  rqAllowed :: "string list"
  rqPathValues :: "(string \<times> string) list"
  rqRawQuery :: string
  rqOrigins :: "string list"
  rqRequestMethods :: "string list"
  rqRequestHeaders :: "string list"
  rqCSRFTokens :: "string list"
  rqIdempotencyKeys :: "string list"
  rqCookies :: "(string \<times> string) list"
  rqMedia :: "(string \<times> string) option"
  rqEncoding :: string
  rqBody :: string
  rqContentLength :: int
  rqPeer :: string
  rqEnded :: "failure option"

record accountSummary =
  asID :: ID
  asType :: AccountType
  asHandle :: string
  asDisplayName :: string
  asInitials :: string
  asStatusText :: string
  asAppearanceKey :: "string option"
  asIsVerified :: bool

record accountProfile =
  afSummary :: accountSummary
  afBio :: string
  afRoleLabel :: string
  afSpecialty :: string
  afFollowerCount :: int
  afFollowingCount :: int
  afPostCount :: int
  afViewerFollowing :: "bool option"

record replyResponse =
  rrID :: ID
  rrPostID :: ID
  rrAuthor :: accountSummary
  rrBody :: string
  rrIsGenerated :: bool
  rrCreatedAt :: string

record quoteResponse =
  qrID :: ID
  qrAvailability :: ContentAvailability
  qrAuthor :: "accountSummary option"
  qrBody :: string

record postResponse =
  prsID :: ID
  prsAuthor :: accountSummary
  prsBody :: string
  prsTags :: "(string \<times> string) list"
  prsCode :: "Code option"
  prsQuote :: "quoteResponse option"
  prsIsSpicy :: bool
  prsIsGenerated :: bool
  prsCreatedAt :: string
  prsCounts :: PostCounts
  prsViewer :: "(ReactionKind option \<times> bool \<times> bool) option"
  prsReplies :: "replyResponse list"
  prsNextCursor :: "string option"

record feedEntryResponse =
  fsID :: string
  fsKind :: FeedKind
  fsOccurredAt :: string
  fsReposter :: "accountSummary option"
  fsPost :: "postResponse option"

datatype 'f body =
    StatusBody string
  | MeBody "(accountSummary \<times> string) option"
  | ProfileBody accountProfile
  | PostBody postResponse
  | RepostBody postResponse "(string \<times> string) option"
  | ReplyBody replyResponse int
  | RepliesBody "replyResponse list" int "string option"
  | BookmarksBody "postResponse list" "string option"
  | FeedBody "feedEntryResponse list" "string option"
  | SearchBody "(postResponse \<times> string) list" "string option"
  | AgentsBody "accountProfile list"
  | TrendsBody "'f Trend list"

text \<open>The messages of errors, which are constant for each place, are left out; the fields of a validation error are kept.\<close>

record 'f response =
  rsStatus :: int
  rsError :: "(string \<times> (string \<times> string) list) option"
  rsBody :: "'f body option"
  rsLocation :: "string option"
  rsRetryAfter :: "int option"
  rsCookie :: "string option"
  rsAllow :: "string list"
  rsPreflight :: bool
  rsAllowOrigin :: "string option"

definition plain_response :: "int \<Rightarrow> 'f response" where
  "plain_response status = \<lparr>rsStatus = status, rsError = None, rsBody = None, rsLocation = None, rsRetryAfter = None,
     rsCookie = None, rsAllow = [], rsPreflight = False, rsAllowOrigin = None\<rparr>"

definition write_error_fields :: "int \<Rightarrow> string \<Rightarrow> (string \<times> string) list \<Rightarrow> 'f response" where
  "write_error_fields status code details = (plain_response status)\<lparr>rsError := Some (code, details)\<rparr>"

definition write_error :: "int \<Rightarrow> string \<Rightarrow> 'f response" where
  "write_error status code = write_error_fields status code []"

definition write_json :: "int \<Rightarrow> 'f body \<Rightarrow> 'f response" where
  "write_json status b = (plain_response status)\<lparr>rsBody := Some b\<rparr>"

fun write_failure :: "failure \<Rightarrow> 'f response" where
  "write_failure (RequestError status code) = write_error status code"
| "write_failure (Service (ValidationError fs)) = write_error_fields 422 ''validation_failed'' fs"
| "write_failure (Service ErrInvalidID) = write_error 400 ''invalid_id''"
| "write_failure (Service ErrInvalidIdempotencyKey) = write_error 400 ''invalid_idempotency_key''"
| "write_failure (Service ErrInvalidReactionKind) = write_error_fields 422 ''validation_failed'' [(''kind'', ''invalid reaction kind'')]"
| "write_failure (Service ErrInvalidHandle) = write_error_fields 422 ''validation_failed'' [(''handle'', ''handle must contain 3-32 ASCII letters, digits, or underscores'')]"
| "write_failure (Service ErrUnauthenticated) = write_error 401 ''unauthenticated''"
| "write_failure (Service ErrInvalidCredentials) = write_error 401 ''invalid_credentials''"
| "write_failure (Service ErrBusy) = (write_error 503 ''unavailable'')\<lparr>rsRetryAfter := Some 1\<rparr>"
| "write_failure (Service ErrForbidden) = write_error 403 ''forbidden''"
| "write_failure (Service ErrNotFound) = write_error 404 ''not_found''"
| "write_failure (Service ErrConflict) = write_error 409 ''conflict''"
| "write_failure (Service ErrDeleted) = write_error 410 ''deleted''"
| "write_failure DeadlineExceeded = write_error 503 ''request_timeout''"
| "write_failure Canceled = write_error 503 ''request_cancelled''"
| "write_failure (Service ErrUnavailable) = write_error 503 ''unavailable''"
| "write_failure (Service _) = write_error 500 ''internal_error''"

definition invalid_query :: failure where "invalid_query = RequestError 400 ''invalid_query''"
definition invalid_cursor_error :: failure where "invalid_cursor_error = RequestError 400 ''invalid_cursor''"
definition invalid_json :: failure where "invalid_json = RequestError 400 ''invalid_json''"

section \<open>Handlers\<close>

record limiters =
  liPeers :: rateLimiter
  liCredentialPeers :: rateLimiter
  liUsernames :: rateLimiter
  liAccounts :: rateLimiter

record 's site =
  siStore :: 's
  siLimiters :: limiters

type_synonym ('s, 'f, 'a) handler = "'s site \<Rightarrow> 's site \<times> ('f response + 'a)"

definition hbind :: "('s, 'f, 'a) handler \<Rightarrow> ('a \<Rightarrow> ('s, 'f, 'b) handler) \<Rightarrow> ('s, 'f, 'b) handler" where
  "hbind m f w = (case m w of (w', Inl r) \<Rightarrow> (w', Inl r) | (w', Inr x) \<Rightarrow> f x w')"

definition respond :: "'a \<Rightarrow> ('s, 'f, 'a) handler" where
  "respond x w = (w, Inr x)"

definition refuse_with :: "'f response \<Rightarrow> ('s, 'f, 'a) handler" where
  "refuse_with r w = (w, Inl r)"

text \<open>A step that may fail: \<open>if err != nil { writeFailure(w, err); return }\<close>.\<close>

definition attempt :: "failure + 'a \<Rightarrow> ('s, 'f, 'a) handler" where
  "attempt x w = (case x of Inl e \<Rightarrow> (w, Inl (write_failure e)) | Inr y \<Rightarrow> (w, Inr y))"

definition service :: "go_error + 'a \<Rightarrow> failure + 'a" where
  "service x = (case x of Inl e \<Rightarrow> Inl (Service e) | Inr y \<Rightarrow> Inr y)"

definition call_store :: "('s \<Rightarrow> 's \<times> (failure + 'a)) \<Rightarrow> ('s, 'f, 'a) handler" where
  "call_store f w = (case f (siStore w) of (s, x) \<Rightarrow> attempt x (w\<lparr>siStore := s\<rparr>))"

text \<open>The operations that the package calls: \<open>Store\<close>, \<open>Auth\<close> and the clock.\<close>

record ('s, 'f) api_store =
  apNow :: "'s \<Rightarrow> 's \<times> time"
  apReady :: "'s \<Rightarrow> 's \<times> (failure + unit)"
  apSessionAccount :: "string \<Rightarrow> 's \<Rightarrow> 's \<times> (failure + Account)"
  apRegister :: "string \<Rightarrow> string \<Rightarrow> string \<Rightarrow> string \<Rightarrow> 's \<Rightarrow> 's \<times> (failure + Account \<times> string)"
  apLogin :: "string \<Rightarrow> string \<Rightarrow> string \<Rightarrow> 's \<Rightarrow> 's \<times> (failure + Account \<times> string)"
  apRevokeSession :: "string \<Rightarrow> 's \<Rightarrow> 's \<times> (failure + unit)"
  apProfileByID :: "ID \<Rightarrow> ID \<Rightarrow> 's \<Rightarrow> 's \<times> (failure + AccountProfile)"
  apProfileByHandle :: "string \<Rightarrow> ID \<Rightarrow> 's \<Rightarrow> 's \<times> (failure + AccountProfile)"
  apSetFollow :: "string \<Rightarrow> ID \<Rightarrow> bool \<Rightarrow> 's \<Rightarrow> 's \<times> (failure + AccountProfile)"
  apCreatePost :: "string \<Rightarrow> string \<Rightarrow> PostCreation \<Rightarrow> 's \<Rightarrow> 's \<times> (failure + Post)"
  apPostByID :: "ID \<Rightarrow> ID \<Rightarrow> 's \<Rightarrow> 's \<times> (failure + Post)"
  apDeletePost :: "string \<Rightarrow> ID \<Rightarrow> 's \<Rightarrow> 's \<times> (failure + unit)"
  apCreateReply :: "string \<Rightarrow> string \<Rightarrow> ReplyCreation \<Rightarrow> 's \<Rightarrow> 's \<times> (failure + Reply \<times> int)"
  apListReplies :: "ID \<Rightarrow> ReadWindow \<Rightarrow> 's \<Rightarrow> 's \<times> (failure + ReplyPage)"
  apDeleteReply :: "string \<Rightarrow> ID \<Rightarrow> 's \<Rightarrow> 's \<times> (failure + unit)"
  apSetReaction :: "string \<Rightarrow> ID \<Rightarrow> ReactionKind option \<Rightarrow> 's \<Rightarrow> 's \<times> (failure + Post)"
  apSetRepost :: "string \<Rightarrow> ID \<Rightarrow> bool \<Rightarrow> 's \<Rightarrow> 's \<times> (failure + Post)"
  apSetBookmark :: "string \<Rightarrow> ID \<Rightarrow> bool \<Rightarrow> 's \<Rightarrow> 's \<times> (failure + Post)"
  apListBookmarks :: "string \<Rightarrow> ReadWindow \<Rightarrow> 's \<Rightarrow> 's \<times> (failure + PostPage)"
  apListFeed :: "ID \<Rightarrow> string \<Rightarrow> FeedQuery \<Rightarrow> 's \<Rightarrow> 's \<times> (failure + FeedPage)"
  apListAccountFeed :: "ID \<Rightarrow> ID \<Rightarrow> FeedWindow \<Rightarrow> 's \<Rightarrow> 's \<times> (failure + FeedPage)"
  apSearchPosts :: "ID \<Rightarrow> SearchQuery \<Rightarrow> 's \<Rightarrow> 's \<times> (failure + SearchPage)"
  apSuggestedAgents :: "ID \<Rightarrow> int \<Rightarrow> 's \<Rightarrow> 's \<times> (failure + AccountProfile list)"
  apTrends :: "int \<Rightarrow> 's \<Rightarrow> 's \<times> (failure + 'f Trend list)"

text \<open>The configuration of a server.\<close>

record server =
  svOrigins :: "string list"
  svCSRFKey :: string
  svCursorKey :: string
  svSecureCookies :: bool
  svUnicode :: unicode

definition newServerLimiters :: limiters where
  "newServerLimiters = \<lparr>liPeers = newRateLimiter 120 (60 * second) 10000, liCredentialPeers = newRateLimiter 20 (900 * second) 10000,
     liUsernames = newRateLimiter 10 (900 * second) 10000, liAccounts = newRateLimiter 60 (60 * second) 10000\<rparr>"

section \<open>Bodies\<close>

text \<open>\<open>encoding/json\<close> matches a member by its exact name, then by its folded one; two letters beyond ASCII fold into it.\<close>

definition fold_rune :: "nat \<Rightarrow> nat" where
  "fold_rune r = (if is_lower r then r - 32 else if r = 383 then 83 else if r = 8490 then 75 else r)"

definition field_named :: "string list \<Rightarrow> string \<Rightarrow> string option" where
  "field_named names k =
     (if k \<in> set names then Some k else find (\<lambda>n. map fold_rune (runes n) = map fold_rune (runes k)) names)"

definition media_ok :: "request \<Rightarrow> bool" where
  "media_ok r \<longleftrightarrow> (case rqMedia r of None \<Rightarrow> False
     | Some (t, charset) \<Rightarrow> t = ''application/json'' \<and> (charset = [] \<or> map ascii_lower charset = ''utf-8''))"

definition max_body_bytes :: nat where "max_body_bytes = 65536"

definition body_space :: "char \<Rightarrow> bool" where
  "body_space c \<longleftrightarrow> c = CHR '' '' \<or> c = CHR 0x09 \<or> c = CHR 0x0D \<or> c = CHR 0x0A"

definition trim_body :: "string \<Rightarrow> string" where
  "trim_body s = rev (dropWhile body_space (rev (dropWhile body_space s)))"

text \<open>\<open>decodeJSON\<close> up to the destination: the members of the object, in the order of the body.\<close>

definition decode_json :: "request \<Rightarrow> failure + (string \<times> json) list" where
  "decode_json r =
     (if \<not> media_ok r \<or> rqEncoding r \<noteq> [] \<and> rqEncoding r \<noteq> ''identity'' then Inl (RequestError 415 ''unsupported_media_type'')
      else if length (rqBody r) > max_body_bytes then Inl (RequestError 413 ''body_too_large'')
      else
        let contents = trim_body (rqBody r) in
        if contents = [] \<or> hd contents \<noteq> CHR ''{'' \<or> \<not> valid_utf8 contents then Inl invalid_json
        else (case parse_json contents of Some (JObject ms) \<Rightarrow> Inr ms | _ \<Rightarrow> Inl invalid_json))"

text \<open>Into a structure of strings: a later member wins, null leaves the field, any other value or name is an error.\<close>

fun read_strings :: "string list \<Rightarrow> (string \<times> json) list \<Rightarrow> (string \<times> string) list \<Rightarrow> (string \<times> string) list option" where
  "read_strings names [] acc = Some acc"
| "read_strings names ((k, v) # ms) acc =
     (case field_named names k of
        None \<Rightarrow> None
      | Some n \<Rightarrow>
          (case v of
             JNull \<Rightarrow> read_strings names ms acc
           | JString s \<Rightarrow> read_strings names ms ((n, s) # acc)
           | _ \<Rightarrow> None))"

definition field_of :: "(string \<times> string) list \<Rightarrow> string \<Rightarrow> string" where
  "field_of fs k = (case map_of fs k of None \<Rightarrow> [] | Some v \<Rightarrow> v)"

definition decode_strings :: "request \<Rightarrow> string list \<Rightarrow> failure + (string \<times> string) list" where
  "decode_strings r names =
     and_then (decode_json r) (\<lambda>ms. case read_strings names ms [] of None \<Rightarrow> Inl invalid_json | Some fs \<Rightarrow> Inr fs)"

record post_input =
  piBody :: string
  piQuotedPostID :: "ID option"
  piCode :: "Code option"

definition read_code :: "(string \<times> json) list \<Rightarrow> Code option \<Rightarrow> Code option" where
  "read_code ms old =
     (let acc = (case old of None \<Rightarrow> [] | Some c \<Rightarrow> [(''language'', cdLanguage c), (''filename'', cdFilename c), (''source'', cdSource c)]) in
      map_option (\<lambda>fs. \<lparr>cdLanguage = field_of fs ''language'', cdFilename = field_of fs ''filename'', cdSource = field_of fs ''source''\<rparr>)
        (read_strings [''language'', ''filename'', ''source''] ms acc))"

text \<open>Pointers: null sets them to nil, and an object decodes into the structure that is already there.\<close>

definition read_post_member :: "string \<Rightarrow> json \<Rightarrow> post_input \<Rightarrow> post_input option" where
  "read_post_member n v p =
     (if n = ''body'' then (case v of JNull \<Rightarrow> Some p | JString s \<Rightarrow> Some (p\<lparr>piBody := s\<rparr>) | _ \<Rightarrow> None)
      else if n = ''quoted_post_id''
      then (case v of JNull \<Rightarrow> Some (p\<lparr>piQuotedPostID := None\<rparr>) | JString s \<Rightarrow> Some (p\<lparr>piQuotedPostID := Some s\<rparr>) | _ \<Rightarrow> None)
      else (case v of
              JNull \<Rightarrow> Some (p\<lparr>piCode := None\<rparr>)
            | JObject cs \<Rightarrow> map_option (\<lambda>c. p\<lparr>piCode := Some c\<rparr>) (read_code cs (piCode p))
            | _ \<Rightarrow> None))"

fun read_post_input :: "(string \<times> json) list \<Rightarrow> post_input \<Rightarrow> post_input option" where
  "read_post_input [] p = Some p"
| "read_post_input ((k, v) # ms) p =
     (case field_named [''body'', ''quoted_post_id'', ''code''] k of
        None \<Rightarrow> None
      | Some n \<Rightarrow> (case read_post_member n v p of None \<Rightarrow> None | Some q \<Rightarrow> read_post_input ms q))"

definition decode_post_input :: "request \<Rightarrow> failure + post_input" where
  "decode_post_input r =
     and_then (decode_json r) (\<lambda>ms.
       case read_post_input ms \<lparr>piBody = [], piQuotedPostID = None, piCode = None\<rparr> of None \<Rightarrow> Inl invalid_json | Some p \<Rightarrow> Inr p)"

definition idempotency_key :: "request \<Rightarrow> failure + string" where
  "idempotency_key r =
     (case rqIdempotencyKeys r of
        [k] \<Rightarrow> if validate_idempotency_key k \<noteq> None then Inl (Service ErrInvalidIdempotencyKey) else Inr k
      | _ \<Rightarrow> Inl (Service ErrInvalidIdempotencyKey))"

definition path_id :: "request \<Rightarrow> string \<Rightarrow> failure + ID" where
  "path_id r k = service (parse_id (field_of (rqPathValues r) k))"

section \<open>Queries\<close>

text \<open>\<open>url.ParseQuery\<close> and \<open>url.QueryUnescape\<close>.\<close>

fun query_unescape :: "string \<Rightarrow> string option" where
  "query_unescape [] = Some []"
| "query_unescape (c # s) =
     (if c = CHR ''%'' then
        (case s of
           a # b # t \<Rightarrow>
             (case (hex_value a, hex_value b) of
                (Some x, Some y) \<Rightarrow> map_option ((#) (char_of (16 * x + y))) (query_unescape t)
              | _ \<Rightarrow> None)
         | _ \<Rightarrow> None)
      else map_option ((#) (if c = CHR ''+'' then CHR '' '' else c)) (query_unescape s))"

definition query_pair :: "string \<Rightarrow> (string \<times> string) option" where
  "query_pair seg =
     (if CHR '';'' \<in> set seg then None
      else
        let k = takeWhile (\<lambda>c. c \<noteq> CHR ''='') seg in
        case (query_unescape k, query_unescape (drop (length k + 1) seg)) of
          (Some a, Some b) \<Rightarrow> Some (a, b)
        | _ \<Rightarrow> None)"

definition parse_query :: "string \<Rightarrow> (string \<times> string) list option" where
  "parse_query raw = all_some (map query_pair (filter (\<lambda>seg. seg \<noteq> []) (split_on CHR ''&'' raw)))"

definition strict_query :: "string \<Rightarrow> string list \<Rightarrow> failure + (string \<times> string) list" where
  "strict_query raw allowed =
     (case parse_query raw of
        None \<Rightarrow> Inl invalid_query
      | Some vs \<Rightarrow>
          if distinct (map fst vs) \<and> list_all (\<lambda>(k, v). k \<in> set allowed \<and> v \<noteq> []) vs then Inr vs else Inl invalid_query)"

text \<open>\<open>strconv.Atoi\<close>.\<close>

definition atoi :: "string \<Rightarrow> int option" where
  "atoi s =
     (let signed = s \<noteq> [] \<and> (hd s = CHR ''-'' \<or> hd s = CHR ''+''); ds = (if signed then tl s else s) in
      if ds = [] then None
      else case digits_val ds of
        None \<Rightarrow> None
      | Some n \<Rightarrow> let v = (if signed \<and> hd s = CHR ''-'' then - n else n) in if min_int64 \<le> v \<and> v \<le> max_int64 then Some v else None)"

definition query_limit :: "(string \<times> string) list \<Rightarrow> int \<Rightarrow> int \<Rightarrow> failure + int" where
  "query_limit values start high =
     (let raw = field_of values ''limit'' in
      if raw = [] then Inr start
      else case atoi raw of None \<Rightarrow> Inl invalid_query | Some n \<Rightarrow> if n < 1 \<or> n > high then Inl invalid_query else Inr n)"

definition read_window :: "server \<Rightarrow> (string \<times> string) list \<Rightarrow> string \<Rightarrow> ID \<Rightarrow> ID \<Rightarrow> ReplySort \<Rightarrow> failure + ReadWindow" where
  "read_window sv values kind target viewer order =
     and_then (query_limit values DefaultReadLimit MaxReadLimit) (\<lambda>limit.
     let raw = field_of values ''cursor'' in
     if raw = [] then Inr \<lparr>rwSort = order, rwLimit = limit, rwPosition = None, rwInitialCeiling = 0\<rparr>
     else case decode_cursor (svCursorKey sv) raw kind target viewer order of
       None \<Rightarrow> Inl invalid_cursor_error
     | Some (p, ceiling) \<Rightarrow> Inr \<lparr>rwSort = order, rwLimit = limit, rwPosition = Some p, rwInitialCeiling = ceiling\<rparr>)"

definition feed_window :: "server \<Rightarrow> (string \<times> string) list \<Rightarrow> feedCursorBinding \<Rightarrow> failure + FeedWindow" where
  "feed_window sv values b =
     and_then (query_limit values DefaultReadLimit MaxReadLimit) (\<lambda>limit.
     let raw = field_of values ''cursor'' in
     if raw = [] then Inr \<lparr>fwLimit = limit, fwPosition = None, fwInitialCeiling = 0\<rparr>
     else case decode_feed_cursor (svUnicode sv) (svCursorKey sv) raw b of
       None \<Rightarrow> Inl invalid_cursor_error
     | Some (p, ceiling) \<Rightarrow> Inr \<lparr>fwLimit = limit, fwPosition = Some p, fwInitialCeiling = ceiling\<rparr>)"

definition search_window :: "server \<Rightarrow> (string \<times> string) list \<Rightarrow> ID \<Rightarrow> string \<Rightarrow> failure + SearchWindow" where
  "search_window sv values viewer words =
     and_then (query_limit values DefaultSearchLimit MaxSearchLimit) (\<lambda>limit.
     let raw = field_of values ''cursor'' in
     if raw = [] then Inr \<lparr>swLimit = limit, swPosition = None, swInitialCeiling = 0\<rparr>
     else case decode_search_cursor (svCursorKey sv) raw viewer words of
       None \<Rightarrow> Inl invalid_cursor_error
     | Some (p, ceiling) \<Rightarrow> Inr \<lparr>swLimit = limit, swPosition = Some p, swInitialCeiling = ceiling\<rparr>)"

text \<open>The two discovery limits: an absent one is 0, which \<open>Normalize\<close> turns into its default.\<close>

definition discovery_limit :: "(int \<Rightarrow> go_error + int) \<Rightarrow> string \<Rightarrow> failure + int" where
  "discovery_limit check raw =
     (case (if raw = [] then Some 0 else (case atoi raw of None \<Rightarrow> None | Some n \<Rightarrow> if n < 1 then None else Some n)) of
        None \<Rightarrow> Inl invalid_query
      | Some n \<Rightarrow> (case check n of Inl _ \<Rightarrow> Inl invalid_query | Inr m \<Rightarrow> Inr m))"

definition suggestion_query :: "string \<Rightarrow> failure + int" where "suggestion_query = discovery_limit normalize_suggestions"
definition trend_query :: "string \<Rightarrow> failure + int" where "trend_query = discovery_limit normalize_trends"

section \<open>Projections\<close>

definition summarize_account :: "Account \<Rightarrow> accountSummary" where
  "summarize_account a = \<lparr>asID = acc_ID a, asType = acc_Type a, asHandle = Handle a, asDisplayName = DisplayName a,
     asInitials = Initials a, asStatusText = StatusText a, asAppearanceKey = AppearanceKey a, asIsVerified = (VerifiedAt a \<noteq> None)\<rparr>"

definition profile_dto :: "AccountProfile \<Rightarrow> accountProfile" where
  "profile_dto p = \<lparr>afSummary = summarize_account (prAccount p), afBio = Bio (prAccount p), afRoleLabel = RoleLabel (prAccount p),
     afSpecialty = Specialty (prAccount p), afFollowerCount = prFollowerCount p, afFollowingCount = prFollowingCount p,
     afPostCount = prPostCount p, afViewerFollowing = prViewerFollowing p\<rparr>"

definition reply_dto :: "Reply \<Rightarrow> replyResponse" where
  "reply_dto r = \<lparr>rrID = ryID r, rrPostID = ryPostID r, rrAuthor = summarize_account (ryAuthor r), rrBody = ryBody r,
     rrIsGenerated = ryIsGenerated r, rrCreatedAt = format_instant (ryCreatedAt r)\<rparr>"

definition quote_dto :: "QuotePost \<Rightarrow> quoteResponse" where
  "quote_dto q =
     (case (quAvailability q, quAuthor q) of
        (ContentAvailable, Some a) \<Rightarrow> \<lparr>qrID = quID q, qrAvailability = quAvailability q, qrAuthor = Some (summarize_account a), qrBody = quBody q\<rparr>
      | _ \<Rightarrow> \<lparr>qrID = quID q, qrAvailability = quAvailability q, qrAuthor = None, qrBody = []\<rparr>)"

text \<open>A reply preview continues without a viewer, in the oldest order.\<close>

definition post_dto :: "server \<Rightarrow> Post \<Rightarrow> postResponse" where
  "post_dto sv p =
     \<lparr>prsID = ptID p, prsAuthor = summarize_account (ptAuthor p), prsBody = ctBody (ptContent p),
      prsTags = map (\<lambda>t. (tgSlug t, tgDisplayName t)) (ctTags (ptContent p)), prsCode = ctCode (ptContent p),
      prsQuote = map_option quote_dto (ptQuote p), prsIsSpicy = ptIsSpicy p, prsIsGenerated = ptIsGenerated p,
      prsCreatedAt = format_instant (ptCreatedAt p), prsCounts = ptCounts p,
      prsViewer = map_option (\<lambda>v. (pvReaction v, pvReposted v, pvBookmarked v)) (ptViewer p),
      prsReplies = map reply_dto (rvItems (ptReplyPreview p)),
      prsNextCursor = encode_cursor (svCursorKey sv) ''replies'' (ptID p) [] ReplySortOldest (rvCeiling (ptReplyPreview p))
        (rvNextPosition (ptReplyPreview p))\<rparr>"

definition feed_entry_dto :: "server \<Rightarrow> FeedEntry \<Rightarrow> feedEntryResponse" where
  "feed_entry_dto sv e =
     \<lparr>fsID = kind_name (feKind e) @ '':'' @ feID e, fsKind = feKind e, fsOccurredAt = format_instant (feOccurredAt e),
      fsReposter = map_option summarize_account (feReposter e), fsPost = map_option (post_dto sv) (fePost e)\<rparr>"

section \<open>Guards\<close>

definition trusted_origin :: "server \<Rightarrow> request \<Rightarrow> bool" where
  "trusted_origin sv r \<longleftrightarrow> (case rqOrigins r of [o'] \<Rightarrow> o' \<in> set (svOrigins sv) | _ \<Rightarrow> False)"

definition cookie_name :: "server \<Rightarrow> string" where
  "cookie_name sv = (if svSecureCookies sv then ''__Host-stacktrace_session'' else ''stacktrace_session_dev'')"

definition session_token :: "server \<Rightarrow> request \<Rightarrow> string" where
  "session_token sv r =
     (case filter (\<lambda>(k, v). k = cookie_name sv) (rqCookies r) of
        [(_, v)] \<Rightarrow> if session_hash v = [] then [] else v
      | _ \<Rightarrow> [])"

definition csrf_token :: "server \<Rightarrow> string \<Rightarrow> string" where
  "csrf_token sv token = raw_url (hmac_sha256 (svCSRFKey sv) token)"

text \<open>A stale session is anonymous, the account of zero values; an outage is not.\<close>

definition viewer :: "server \<Rightarrow> ('s, 'f) api_store \<Rightarrow> request \<Rightarrow> ('s, 'f, Account) handler" where
  "viewer sv st r w =
     (let token = session_token sv r in
      if token = [] then (w, Inr null_account)
      else (case apSessionAccount st (session_hash token) (siStore w) of
              (s, x) \<Rightarrow> if x = Inl (Service ErrUnauthenticated) then (w\<lparr>siStore := s\<rparr>, Inr null_account) else attempt x (w\<lparr>siStore := s\<rparr>)))"

definition rate_limited :: "duration \<Rightarrow> 'f response" where
  "rate_limited retry = (write_error 429 ''rate_limited'')\<lparr>rsRetryAfter := Some (max 1 ((retry + second - 1) div second))\<rparr>"

definition allow_rate :: "('s, 'f) api_store \<Rightarrow> (limiters \<Rightarrow> rateLimiter) \<Rightarrow> (rateLimiter \<Rightarrow> limiters \<Rightarrow> limiters) \<Rightarrow> string \<Rightarrow> ('s, 'f, unit) handler" where
  "allow_rate st limiter update key w =
     (case apNow st (siStore w) of (s, now) \<Rightarrow>
      (case allow (limiter (siLimiters w)) key now of (l, retry) \<Rightarrow>
         let w' = w\<lparr>siStore := s, siLimiters := update l (siLimiters w)\<rparr> in
         if retry > 0 then (w', Inl (rate_limited retry)) else (w', Inr ())))"

definition set_peers :: "rateLimiter \<Rightarrow> limiters \<Rightarrow> limiters" where "set_peers l ls = ls\<lparr>liPeers := l\<rparr>"
definition set_credential_peers :: "rateLimiter \<Rightarrow> limiters \<Rightarrow> limiters" where "set_credential_peers l ls = ls\<lparr>liCredentialPeers := l\<rparr>"
definition set_usernames :: "rateLimiter \<Rightarrow> limiters \<Rightarrow> limiters" where "set_usernames l ls = ls\<lparr>liUsernames := l\<rparr>"
definition set_accounts :: "rateLimiter \<Rightarrow> limiters \<Rightarrow> limiters" where "set_accounts l ls = ls\<lparr>liAccounts := l\<rparr>"

definition guard :: "bool \<Rightarrow> go_error \<Rightarrow> ('s, 'f, unit) handler" where
  "guard b e = (if b then respond () else refuse_with (write_failure (Service e)))"

definition require_write :: "server \<Rightarrow> ('s, 'f) api_store \<Rightarrow> request \<Rightarrow> ('s, 'f, Account) handler" where
  "require_write sv st r =
     hbind (guard (trusted_origin sv r) ErrForbidden) (\<lambda>_.
     hbind (viewer sv st r) (\<lambda>account.
     hbind (guard (acc_ID account \<noteq> []) ErrUnauthenticated) (\<lambda>_.
     hbind (guard (rqCSRFTokens r = [csrf_token sv (session_token sv r)]) ErrForbidden) (\<lambda>_.
     hbind (allow_rate st liAccounts set_accounts (acc_ID account)) (\<lambda>_.
     respond account)))))"

definition credential_attempt :: "server \<Rightarrow> ('s, 'f) api_store \<Rightarrow> request \<Rightarrow> ('s, 'f, unit) handler" where
  "credential_attempt sv st r =
     hbind (guard (trusted_origin sv r) ErrForbidden) (\<lambda>_. allow_rate st liCredentialPeers set_credential_peers (rqPeer r))"

definition allow_username :: "('s, 'f) api_store \<Rightarrow> string \<Rightarrow> ('s, 'f, unit) handler" where
  "allow_username st username =
     allow_rate st liUsernames set_usernames
       (hex_encode (sha256 (case normalize_handle username of Inl _ \<Rightarrow> [] | Inr h \<Rightarrow> h)))"

definition caller :: "server \<Rightarrow> request \<Rightarrow> string" where
  "caller sv r = session_hash (session_token sv r)"

section \<open>Accounts and sessions\<close>

definition me_body :: "server \<Rightarrow> Account \<Rightarrow> string \<Rightarrow> 'f body" where
  "me_body sv a token = MeBody (Some (summarize_account a, csrf_token sv token))"

definition register_account :: "server \<Rightarrow> ('s, 'f) api_store \<Rightarrow> request \<Rightarrow> ('s, 'f, 'f response) handler" where
  "register_account sv st r =
     hbind (credential_attempt sv st r) (\<lambda>_.
     hbind (attempt (decode_strings r [''username'', ''password'', ''display_name''])) (\<lambda>fs.
     hbind (allow_username st (field_of fs ''username'')) (\<lambda>_.
     hbind (call_store (apRegister st (field_of fs ''username'') (field_of fs ''password'') (field_of fs ''display_name'') (session_token sv r))) (\<lambda>(account, token).
     respond ((write_json 201 (me_body sv account token))\<lparr>rsCookie := Some token, rsLocation := Some (''/api/v1/accounts/'' @ acc_ID account)\<rparr>)))))"

definition login :: "server \<Rightarrow> ('s, 'f) api_store \<Rightarrow> request \<Rightarrow> ('s, 'f, 'f response) handler" where
  "login sv st r =
     hbind (credential_attempt sv st r) (\<lambda>_.
     hbind (attempt (decode_strings r [''username'', ''password''])) (\<lambda>fs.
     hbind (allow_username st (field_of fs ''username'')) (\<lambda>_.
     hbind (call_store (apLogin st (field_of fs ''username'') (field_of fs ''password'') (session_token sv r))) (\<lambda>(account, token).
     respond ((write_json 200 (me_body sv account token))\<lparr>rsCookie := Some token\<rparr>)))))"

definition me :: "server \<Rightarrow> ('s, 'f) api_store \<Rightarrow> request \<Rightarrow> ('s, 'f, 'f response) handler" where
  "me sv st r =
     hbind (viewer sv st r) (\<lambda>account.
     respond (write_json 200 (if acc_ID account = [] then MeBody None else me_body sv account (session_token sv r))))"

definition logout :: "server \<Rightarrow> ('s, 'f) api_store \<Rightarrow> request \<Rightarrow> ('s, 'f, 'f response) handler" where
  "logout sv st r =
     hbind (require_write sv st r) (\<lambda>_.
     hbind (call_store (apRevokeSession st (caller sv r))) (\<lambda>_.
     respond ((plain_response 204)\<lparr>rsCookie := Some []\<rparr>)))"

definition account_by_id_handler :: "server \<Rightarrow> ('s, 'f) api_store \<Rightarrow> request \<Rightarrow> ('s, 'f, 'f response) handler" where
  "account_by_id_handler sv st r =
     hbind (attempt (path_id r ''accountID'')) (\<lambda>i.
     hbind (viewer sv st r) (\<lambda>account.
     hbind (call_store (apProfileByID st i (acc_ID account))) (\<lambda>p.
     respond (write_json 200 (ProfileBody (profile_dto p))))))"

definition account_by_handle_handler :: "server \<Rightarrow> ('s, 'f) api_store \<Rightarrow> request \<Rightarrow> ('s, 'f, 'f response) handler" where
  "account_by_handle_handler sv st r =
     hbind (attempt (service (normalize_handle (field_of (rqPathValues r) ''handle'')))) (\<lambda>h.
     hbind (viewer sv st r) (\<lambda>account.
     hbind (call_store (apProfileByHandle st h (acc_ID account))) (\<lambda>p.
     respond (write_json 200 (ProfileBody (profile_dto p))))))"

definition follow :: "server \<Rightarrow> ('s, 'f) api_store \<Rightarrow> request \<Rightarrow> ('s, 'f, 'f response) handler" where
  "follow sv st r =
     hbind (require_write sv st r) (\<lambda>_.
     hbind (attempt (path_id r ''accountID'')) (\<lambda>i.
     hbind (call_store (apSetFollow st (caller sv r) i (rqMethod r = ''PUT''))) (\<lambda>p.
     respond (write_json 200 (ProfileBody (profile_dto p))))))"

section \<open>Posts and replies\<close>

definition create_post_handler :: "server \<Rightarrow> ('s, 'f) api_store \<Rightarrow> request \<Rightarrow> ('s, 'f, 'f response) handler" where
  "create_post_handler sv st r =
     hbind (require_write sv st r) (\<lambda>_.
     hbind (attempt (idempotency_key r)) (\<lambda>key.
     hbind (attempt (decode_post_input r)) (\<lambda>p.
     hbind (attempt (service (new_post_creation (svUnicode sv) (piBody p) (piQuotedPostID p) (piCode p)))) (\<lambda>creation.
     hbind (call_store (apCreatePost st (caller sv r) key creation)) (\<lambda>post.
     respond ((write_json 201 (PostBody (post_dto sv post)))\<lparr>rsLocation := Some (''/api/v1/posts/'' @ ptID post)\<rparr>))))))"

definition get_post :: "server \<Rightarrow> ('s, 'f) api_store \<Rightarrow> request \<Rightarrow> ('s, 'f, 'f response) handler" where
  "get_post sv st r =
     hbind (attempt (path_id r ''postID'')) (\<lambda>i.
     hbind (viewer sv st r) (\<lambda>account.
     hbind (call_store (apPostByID st i (acc_ID account))) (\<lambda>post.
     respond (write_json 200 (PostBody (post_dto sv post))))))"

definition delete_post_handler :: "server \<Rightarrow> ('s, 'f) api_store \<Rightarrow> request \<Rightarrow> ('s, 'f, 'f response) handler" where
  "delete_post_handler sv st r =
     hbind (require_write sv st r) (\<lambda>_.
     hbind (attempt (path_id r ''postID'')) (\<lambda>i.
     hbind (call_store (apDeletePost st (caller sv r) i)) (\<lambda>_.
     respond (plain_response 204))))"

definition reaction_kind :: "request \<Rightarrow> failure + ReactionKind option" where
  "reaction_kind r =
     (if rqMethod r \<noteq> ''PUT'' then Inr None
      else and_then (decode_strings r [''kind'']) (\<lambda>fs. and_then (service (parse_reaction_kind (field_of fs ''kind''))) (\<lambda>k. Inr (Some k))))"

definition reaction :: "server \<Rightarrow> ('s, 'f) api_store \<Rightarrow> request \<Rightarrow> ('s, 'f, 'f response) handler" where
  "reaction sv st r =
     hbind (require_write sv st r) (\<lambda>_.
     hbind (attempt (path_id r ''postID'')) (\<lambda>i.
     hbind (attempt (reaction_kind r)) (\<lambda>kind.
     hbind (call_store (apSetReaction st (caller sv r) i kind)) (\<lambda>post.
     respond (write_json 200 (PostBody (post_dto sv post)))))))"

definition repost_entry :: "Post \<Rightarrow> (string \<times> string) option" where
  "repost_entry p =
     map_option (\<lambda>x. (''repost:'' @ rtID x, format_instant (rtCreatedAt x))) (Option.bind (ptViewer p) pvViewerRepost)"

definition repost :: "server \<Rightarrow> ('s, 'f) api_store \<Rightarrow> request \<Rightarrow> ('s, 'f, 'f response) handler" where
  "repost sv st r =
     hbind (require_write sv st r) (\<lambda>_.
     hbind (attempt (path_id r ''postID'')) (\<lambda>i.
     hbind (call_store (apSetRepost st (caller sv r) i (rqMethod r = ''PUT''))) (\<lambda>post.
     respond (write_json 200 (RepostBody (post_dto sv post) (repost_entry post))))))"

definition bookmark :: "server \<Rightarrow> ('s, 'f) api_store \<Rightarrow> request \<Rightarrow> ('s, 'f, 'f response) handler" where
  "bookmark sv st r =
     hbind (require_write sv st r) (\<lambda>_.
     hbind (attempt (path_id r ''postID'')) (\<lambda>i.
     hbind (call_store (apSetBookmark st (caller sv r) i (rqMethod r = ''PUT''))) (\<lambda>post.
     respond (write_json 200 (PostBody (post_dto sv post))))))"

definition create_reply_handler :: "server \<Rightarrow> ('s, 'f) api_store \<Rightarrow> request \<Rightarrow> ('s, 'f, 'f response) handler" where
  "create_reply_handler sv st r =
     hbind (require_write sv st r) (\<lambda>_.
     hbind (attempt (idempotency_key r)) (\<lambda>key.
     hbind (attempt (path_id r ''postID'')) (\<lambda>i.
     hbind (attempt (decode_strings r [''body''])) (\<lambda>fs.
     hbind (attempt (service (new_reply_creation i (field_of fs ''body'')))) (\<lambda>creation.
     hbind (call_store (apCreateReply st (caller sv r) key creation)) (\<lambda>(reply, total).
     respond (write_json 201 (ReplyBody (reply_dto reply) total))))))))"

definition delete_reply_handler :: "server \<Rightarrow> ('s, 'f) api_store \<Rightarrow> request \<Rightarrow> ('s, 'f, 'f response) handler" where
  "delete_reply_handler sv st r =
     hbind (require_write sv st r) (\<lambda>_.
     hbind (attempt (path_id r ''replyID'')) (\<lambda>i.
     hbind (call_store (apDeleteReply st (caller sv r) i)) (\<lambda>_.
     respond (plain_response 204))))"

section \<open>Lists\<close>

definition reply_order :: "string \<Rightarrow> failure + ReplySort" where
  "reply_order raw =
     (if raw = [] \<or> raw = ''oldest'' then Inr ReplySortOldest else if raw = ''newest'' then Inr ReplySortNewest else Inl invalid_query)"

definition list_replies_handler :: "server \<Rightarrow> ('s, 'f) api_store \<Rightarrow> request \<Rightarrow> ('s, 'f, 'f response) handler" where
  "list_replies_handler sv st r =
     hbind (attempt (path_id r ''postID'')) (\<lambda>i.
     hbind (attempt (strict_query (rqRawQuery r) [''sort'', ''limit'', ''cursor''])) (\<lambda>values.
     hbind (attempt (reply_order (field_of values ''sort''))) (\<lambda>order.
     hbind (attempt (read_window sv values ''replies'' i [] order)) (\<lambda>window.
     hbind (viewer sv st r) (\<lambda>_.
     hbind (call_store (apListReplies st i window)) (\<lambda>page.
     respond (write_json 200 (RepliesBody (map reply_dto (rgItems page)) (rgReplyTotal page)
       (encode_cursor (svCursorKey sv) ''replies'' i [] order (rgCeiling page) (rgNextPosition page))))))))))"

definition list_bookmarks_handler :: "server \<Rightarrow> ('s, 'f) api_store \<Rightarrow> request \<Rightarrow> ('s, 'f, 'f response) handler" where
  "list_bookmarks_handler sv st r =
     hbind (viewer sv st r) (\<lambda>account.
     hbind (guard (acc_ID account \<noteq> []) ErrUnauthenticated) (\<lambda>_.
     hbind (attempt (strict_query (rqRawQuery r) [''limit'', ''cursor''])) (\<lambda>values.
     hbind (attempt (read_window sv values ''bookmarks'' [] (acc_ID account) ReplySortNewest)) (\<lambda>window.
     hbind (call_store (apListBookmarks st (caller sv r) window)) (\<lambda>page.
     respond (write_json 200 (BookmarksBody (map (post_dto sv) (pgItems page))
       (encode_cursor (svCursorKey sv) ''bookmarks'' [] (acc_ID account) ReplySortNewest (pgCeiling page) (pgNextPosition page)))))))))"

definition feed_response :: "server \<Rightarrow> FeedPage \<Rightarrow> feedCursorBinding \<Rightarrow> 'f response" where
  "feed_response sv page b =
     (case encode_feed_cursor (svUnicode sv) (svCursorKey sv) b (fgCeiling page) (fgNextPosition page) of
        Inl _ \<Rightarrow> write_error 500 ''internal_error''
      | Inr next_cursor \<Rightarrow> write_json 200 (FeedBody (map (feed_entry_dto sv) (fgItems page)) next_cursor))"

definition feed_query :: "unicode \<Rightarrow> (string \<times> string) list \<Rightarrow> failure + FeedQuery" where
  "feed_query uc values =
     (case normalize_feed_query uc \<lparr>fqView = named_view (field_of values ''view''), fqSort = named_feed_sort (field_of values ''sort''),
          fqTag = field_of values ''tag'', fqWindow = \<lparr>fwLimit = 0, fwPosition = None, fwInitialCeiling = 0\<rparr>\<rparr> of
        Inl _ \<Rightarrow> Inl invalid_query
      | Inr q \<Rightarrow> Inr q)"

definition list_feed_handler :: "server \<Rightarrow> ('s, 'f) api_store \<Rightarrow> request \<Rightarrow> ('s, 'f, 'f response) handler" where
  "list_feed_handler sv st r =
     hbind (attempt (strict_query (rqRawQuery r) [''view'', ''sort'', ''tag'', ''limit'', ''cursor''])) (\<lambda>values.
     hbind (attempt (feed_query (svUnicode sv) values)) (\<lambda>q.
     hbind (viewer sv st r) (\<lambda>account.
     hbind (guard (fqView q \<noteq> FeedViewFollowing \<or> acc_ID account \<noteq> []) ErrUnauthenticated) (\<lambda>_.
     let b = \<lparr>fbScope = ''feed'', fbTarget = [], fbViewer = acc_ID account, fbView = fqView q, fbTag = fqTag q, fbSort = fqSort q\<rparr> in
     hbind (attempt (feed_window sv values b)) (\<lambda>window.
     hbind (call_store (apListFeed st (acc_ID account) (caller sv r) (q\<lparr>fqWindow := window\<rparr>))) (\<lambda>page.
     respond (feed_response sv page b)))))))"

definition search_query :: "(string \<times> string) list \<Rightarrow> failure + string" where
  "search_query values =
     (case normalize_search \<lparr>sqText = field_of values ''q'', sqWindow = \<lparr>swLimit = 0, swPosition = None, swInitialCeiling = 0\<rparr>\<rparr> of
        Inl _ \<Rightarrow> Inl invalid_query
      | Inr q \<Rightarrow> Inr (sqText q))"

definition search_handler :: "server \<Rightarrow> ('s, 'f) api_store \<Rightarrow> request \<Rightarrow> ('s, 'f, 'f response) handler" where
  "search_handler sv st r =
     hbind (attempt (strict_query (rqRawQuery r) [''q'', ''limit'', ''cursor''])) (\<lambda>values.
     hbind (attempt (search_query values)) (\<lambda>words.
     hbind (viewer sv st r) (\<lambda>account.
     hbind (attempt (search_window sv values (acc_ID account) words)) (\<lambda>window.
     hbind (call_store (apSearchPosts st (acc_ID account) \<lparr>sqText = words, sqWindow = window\<rparr>)) (\<lambda>page.
     respond (write_json 200 (SearchBody (map (\<lambda>x. (post_dto sv (siPost x), siSnippet x)) (sgItems page))
       (encode_search_cursor (svCursorKey sv) (acc_ID account) words (sgCeiling page) (sgNextPosition page)))))))))"

definition suggested_handler :: "server \<Rightarrow> ('s, 'f) api_store \<Rightarrow> request \<Rightarrow> ('s, 'f, 'f response) handler" where
  "suggested_handler sv st r =
     hbind (attempt (strict_query (rqRawQuery r) [''limit''])) (\<lambda>values.
     hbind (attempt (suggestion_query (field_of values ''limit''))) (\<lambda>limit.
     hbind (viewer sv st r) (\<lambda>account.
     hbind (call_store (apSuggestedAgents st (acc_ID account) limit)) (\<lambda>ps.
     respond (write_json 200 (AgentsBody (map profile_dto ps)))))))"

definition trends_handler :: "server \<Rightarrow> ('s, 'f) api_store \<Rightarrow> request \<Rightarrow> ('s, 'f, 'f response) handler" where
  "trends_handler sv st r =
     hbind (attempt (strict_query (rqRawQuery r) [''limit''])) (\<lambda>values.
     hbind (attempt (trend_query (field_of values ''limit''))) (\<lambda>limit.
     hbind (call_store (apTrends st limit)) (\<lambda>ts.
     respond (write_json 200 (TrendsBody ts)))))"

section \<open>Routes\<close>

definition method_not_allowed :: "string list \<Rightarrow> 'f response" where
  "method_not_allowed allowed = (write_error 405 ''method_not_allowed'')\<lparr>rsAllow := allowed\<rparr>"

definition not_found :: "request \<Rightarrow> 'f response" where
  "not_found r = (if rqAllowed r \<noteq> [] then method_not_allowed (rqAllowed r) else write_error 404 ''not_found'')"

text \<open>The resource of an account that the wildcard pattern matches is the feed or nothing.\<close>

definition account_feed_handler :: "server \<Rightarrow> ('s, 'f) api_store \<Rightarrow> request \<Rightarrow> ('s, 'f, 'f response) handler" where
  "account_feed_handler sv st r =
     (if field_of (rqPathValues r) ''resource'' \<noteq> ''feed'' then refuse_with (not_found r)
      else
        hbind (attempt (path_id r ''accountID'')) (\<lambda>i.
        hbind (attempt (strict_query (rqRawQuery r) [''limit'', ''cursor''])) (\<lambda>values.
        hbind (viewer sv st r) (\<lambda>account.
        let b = \<lparr>fbScope = ''account-feed'', fbTarget = i, fbViewer = acc_ID account, fbView = NoView, fbTag = [], fbSort = FeedSortNewest\<rparr> in
        hbind (attempt (feed_window sv values b)) (\<lambda>window.
        hbind (call_store (apListAccountFeed st i (acc_ID account) window)) (\<lambda>page.
        respond (feed_response sv page b)))))))"

definition ready_handler :: "('s, 'f) api_store \<Rightarrow> ('s, 'f, 'f response) handler" where
  "ready_handler st w =
     (case apReady st (siStore w) of
        (s, Inl _) \<Rightarrow> (w\<lparr>siStore := s\<rparr>, Inl (write_error 503 ''unavailable''))
      | (s, Inr _) \<Rightarrow> (w\<lparr>siStore := s\<rparr>, Inr (write_json 200 (StatusBody ''ready''))))"

fun run_route :: "server \<Rightarrow> ('s, 'f) api_store \<Rightarrow> route \<Rightarrow> request \<Rightarrow> ('s, 'f, 'f response) handler" where
  "run_route sv st RouteRegister r = register_account sv st r"
| "run_route sv st RouteLogin r = login sv st r"
| "run_route sv st RouteMe r = me sv st r"
| "run_route sv st RouteLogout r = logout sv st r"
| "run_route sv st RouteAccountByID r = account_by_id_handler sv st r"
| "run_route sv st RouteAccountByHandle r = account_by_handle_handler sv st r"
| "run_route sv st RouteFollow r = follow sv st r"
| "run_route sv st RouteCreatePost r = create_post_handler sv st r"
| "run_route sv st RouteGetPost r = get_post sv st r"
| "run_route sv st RouteDeletePost r = delete_post_handler sv st r"
| "run_route sv st RouteListReplies r = list_replies_handler sv st r"
| "run_route sv st RouteCreateReply r = create_reply_handler sv st r"
| "run_route sv st RouteDeleteReply r = delete_reply_handler sv st r"
| "run_route sv st RouteReaction r = reaction sv st r"
| "run_route sv st RouteRepost r = repost sv st r"
| "run_route sv st RouteBookmark r = bookmark sv st r"
| "run_route sv st RouteListBookmarks r = list_bookmarks_handler sv st r"
| "run_route sv st RouteListFeed r = list_feed_handler sv st r"
| "run_route sv st RouteSearch r = search_handler sv st r"
| "run_route sv st RouteSuggested r = suggested_handler sv st r"
| "run_route sv st RouteTrends r = trends_handler sv st r"
| "run_route sv st RouteAccountResource r = account_feed_handler sv st r"
| "run_route sv st RouteHealth r = respond (write_json 200 (StatusBody ''ok''))"
| "run_route sv st RouteReady r = ready_handler st"

section \<open>Controls around every request\<close>

definition allowed_headers :: "string list" where
  "allowed_headers = [''content-type'', ''x-csrf-token'', ''idempotency-key'']"

text \<open>\<open>None\<close>: \<open>cors\<close> lets the request through.\<close>

definition cors :: "server \<Rightarrow> request \<Rightarrow> 'f response option" where
  "cors sv r =
     (if \<not> has_prefix (rqPath r) ''/api/'' \<or> rqMethod r \<noteq> ''OPTIONS'' then None
      else Some
        (case rqRequestMethods r of
           [m] \<Rightarrow>
             if \<not> trusted_origin sv r then write_error 403 ''forbidden''
             else if \<not> rqPathClean r then write_error 404 ''not_found''
             else if m \<notin> set [''GET'', ''HEAD'', ''POST'', ''PUT'', ''DELETE''] then write_error 403 ''forbidden''
             else if list_ex (\<lambda>line. list_ex (\<lambda>h. to_lower (svUnicode sv) (trim_space h) \<notin> set allowed_headers) (split_on CHR '','' line)) (rqRequestHeaders r)
             then write_error 403 ''forbidden''
             else if m \<notin> set (rqAllowed r) then write_error 404 ''not_found''
             else (plain_response 204)\<lparr>rsPreflight := True\<rparr>
         | _ \<Rightarrow> write_error 403 ''forbidden''))"

definition is_probe :: "request \<Rightarrow> bool" where
  "is_probe r \<longleftrightarrow> (rqMethod r = ''GET'' \<or> rqMethod r = ''HEAD'') \<and> (rqPath r = ''/healthz'' \<or> rqPath r = ''/readyz'')"

definition dispatch :: "server \<Rightarrow> ('s, 'f) api_store \<Rightarrow> request \<Rightarrow> ('s, 'f, 'f response) handler" where
  "dispatch sv st r =
     (if \<not> rqPathClean r then refuse_with (write_error 404 ''not_found'')
      else case rqRoute r of None \<Rightarrow> refuse_with (not_found r) | Some rt \<Rightarrow> run_route sv st rt r)"

definition middleware :: "server \<Rightarrow> ('s, 'f) api_store \<Rightarrow> request \<Rightarrow> ('s, 'f, 'f response) handler" where
  "middleware sv st r =
     (case cors sv r of
        Some resp \<Rightarrow> refuse_with resp
      | None \<Rightarrow>
          if rqContentLength r > int max_body_bytes then refuse_with (write_error 413 ''body_too_large'')
          else
            hbind (if is_probe r then respond () else allow_rate st liPeers set_peers (rqPeer r)) (\<lambda>_.
            hbind (case rqEnded r of None \<Rightarrow> respond () | Some e \<Rightarrow> refuse_with (write_failure e)) (\<lambda>_.
            dispatch sv st r)))"

text \<open>The headers that \<open>cors\<close> sets before anything else: only a trusted origin is echoed, with credentials.\<close>

definition cors_headers :: "server \<Rightarrow> request \<Rightarrow> 'f response \<Rightarrow> 'f response" where
  "cors_headers sv r resp =
     (if has_prefix (rqPath r) ''/api/'' \<and> trusted_origin sv r then resp\<lparr>rsAllowOrigin := Some (hd (rqOrigins r))\<rparr> else resp)"

definition serve_request :: "server \<Rightarrow> ('s, 'f) api_store \<Rightarrow> request \<Rightarrow> 's site \<Rightarrow> 's site \<times> 'f response" where
  "serve_request sv st r w = (case middleware sv st r w of (w', Inl resp) \<Rightarrow> (w', cors_headers sv r resp) | (w', Inr resp) \<Rightarrow> (w', cors_headers sv r resp))"

section \<open>What a step leaves alone\<close>

text \<open>\<open>data\<close> is what of the store counts; a step keeps it, or keeps it unless its response is one that a write may give.\<close>

definition keeps :: "('s \<Rightarrow> 'd) \<Rightarrow> ('s, 'f, 'a) handler \<Rightarrow> bool" where
  "keeps data m \<longleftrightarrow> (\<forall>w. data (siStore (fst (m w))) = data (siStore w))"

definition refusal_codes :: "string list" where
  "refusal_codes = [''invalid_json'', ''invalid_query'', ''invalid_cursor'', ''invalid_idempotency_key'', ''unsupported_media_type'',
     ''body_too_large'', ''validation_failed'', ''unauthenticated'', ''invalid_credentials'', ''forbidden'', ''conflict'',
     ''method_not_allowed'', ''rate_limited'']"

definition refused :: "'f response \<Rightarrow> bool" where
  "refused resp \<longleftrightarrow> (case rsError resp of None \<Rightarrow> False | Some (code, _) \<Rightarrow> code \<in> set refusal_codes)"

lemma refused_headers [simp]: "refused (cors_headers sv r resp) = refused resp"
  by (simp add: refused_def cors_headers_def)

definition outcome_response :: "'f response + 'f response \<Rightarrow> 'f response" where
  "outcome_response x = (case x of Inl resp \<Rightarrow> resp | Inr resp \<Rightarrow> resp)"

definition spares :: "('s \<Rightarrow> 'd) \<Rightarrow> ('s, 'f, 'f response) handler \<Rightarrow> bool" where
  "spares data m \<longleftrightarrow>
     (\<forall>w. refused (outcome_response (snd (m w))) \<longrightarrow> data (siStore (fst (m w))) = data (siStore w))"

lemma keeps_hbind [intro]: "keeps data m \<Longrightarrow> (\<And>x. keeps data (f x)) \<Longrightarrow> keeps data (hbind m f)"
  unfolding keeps_def hbind_def by (auto split: prod.splits sum.splits) (metis fst_conv)+

lemma keeps_simple [intro, simp]: "keeps data (respond x)" "keeps data (refuse_with resp)" "keeps data (attempt y)" "keeps data (guard b e)"
  by (auto simp: keeps_def respond_def refuse_with_def attempt_def guard_def split: sum.splits)

lemma keeps_call [intro]: "(\<And>s. data (fst (f s)) = data s) \<Longrightarrow> keeps data (call_store f)"
  by (auto simp: keeps_def call_store_def attempt_def split: prod.splits sum.splits) (metis fst_conv)+

lemma spares_keeps [intro]: "keeps data m \<Longrightarrow> spares data m"
  by (simp add: keeps_def spares_def)

lemma spares_hbind [intro]: "keeps data m \<Longrightarrow> (\<And>x. spares data (f x)) \<Longrightarrow> spares data (hbind m f)"
  unfolding keeps_def spares_def hbind_def by (auto split: prod.splits sum.splits) (metis fst_conv snd_conv)+

text \<open>A write that fails with a refusal has changed nothing, and what follows its success is not a refusal.\<close>

definition write_spares :: "('s \<Rightarrow> 'd) \<Rightarrow> ('s \<Rightarrow> 's \<times> (failure + 'a)) \<Rightarrow> bool" where
  "write_spares data f \<longleftrightarrow>
     (\<forall>s s' e. f s = (s', Inl e) \<and> refused (write_failure e :: unit response) \<longrightarrow> data s' = data s)"

lemma refused_failure: "refused (write_failure e :: 'f response) \<longleftrightarrow> refused (write_failure e :: unit response)"
  by (cases e rule: write_failure.cases) (simp_all add: refused_def write_error_def write_error_fields_def plain_response_def)

lemma spares_write:
  fixes g :: "'b \<Rightarrow> 'f response"
  assumes "write_spares data f" "\<And>x. \<not> refused (g x)"
  shows "spares data (hbind (call_store f) (\<lambda>x. respond (g x)))"
  unfolding spares_def
proof (intro allI impI)
  fix w :: "'a site" assume r: "refused (outcome_response (snd (hbind (call_store f) (\<lambda>x. respond (g x)) w)))"
  obtain s x where f: "f (siStore w) = (s, x)" by (metis prod.collapse)
  show "data (siStore (fst (hbind (call_store f) (\<lambda>x. respond (g x)) w))) = data (siStore w)"
  proof (cases x)
    case (Inl e)
    then have "refused (write_failure e :: 'f response)"
      using r f by (simp add: hbind_def call_store_def attempt_def outcome_response_def)
    then have "refused (write_failure e :: unit response)" by (rule refused_failure [THEN iffD1])
    then show ?thesis using assms(1) f Inl by (simp add: write_spares_def hbind_def call_store_def attempt_def)
  next
    case (Inr y)
    then show ?thesis using r f assms(2) by (simp add: hbind_def call_store_def attempt_def respond_def outcome_response_def)
  qed
qed

lemma not_refused [simp]: "\<not> refused (write_json status b)" "\<not> refused ((write_json status b)\<lparr>rsLocation := l\<rparr>)"
  "\<not> refused ((write_json status b)\<lparr>rsCookie := c\<rparr>)" "\<not> refused ((write_json status b)\<lparr>rsCookie := c, rsLocation := l\<rparr>)"
  "\<not> refused (plain_response status)" "\<not> refused ((plain_response status)\<lparr>rsCookie := c\<rparr>)"
  by (simp_all add: refused_def write_json_def plain_response_def)

text \<open>
  The routes that write, and what entitles a request to write: a trusted origin, one CSRF token that is the session's, a
  session that resolves to an account, and room in that account's limiter; for credentials, a trusted origin and room in
  the limiter of the peer.
\<close>

definition write_routes :: "route list" where
  "write_routes = [RouteLogout, RouteFollow, RouteCreatePost, RouteDeletePost, RouteCreateReply, RouteDeleteReply, RouteReaction,
     RouteRepost, RouteBookmark]"

definition credential_routes :: "route list" where
  "credential_routes = [RouteRegister, RouteLogin]"

definition write_permitted :: "server \<Rightarrow> ('s, 'f) api_store \<Rightarrow> ('s \<Rightarrow> 'd) \<Rightarrow> request \<Rightarrow> 's site \<Rightarrow> bool" where
  "write_permitted sv st data r w \<longleftrightarrow>
     trusted_origin sv r \<and> rqCSRFTokens r = [csrf_token sv (session_token sv r)] \<and>
     (\<exists>a s s' now. data s = data (siStore w) \<and> apSessionAccount st (caller sv r) s = (s', Inr a) \<and> acc_ID a \<noteq> [] \<and>
        snd (allow (liAccounts (siLimiters w)) (acc_ID a) now) \<le> 0)"

definition credentials_permitted :: "server \<Rightarrow> request \<Rightarrow> 's site \<Rightarrow> bool" where
  "credentials_permitted sv r w \<longleftrightarrow>
     trusted_origin sv r \<and> (\<exists>now. snd (allow (liCredentialPeers (siLimiters w)) (rqPeer r) now) \<le> 0)"

definition changes :: "('s \<Rightarrow> 'd) \<Rightarrow> ('s, 'f, 'a) handler \<Rightarrow> 's site \<Rightarrow> bool" where
  "changes data m w \<longleftrightarrow> data (siStore (fst (m w))) \<noteq> data (siStore w)"

lemma keeps_unchanged: "keeps data m \<Longrightarrow> \<not> changes data m w"
  by (simp add: keeps_def changes_def)

lemma hbind_changes:
  assumes "changes data (hbind m f) w" "keeps data m"
  obtains w1 x where "m w = (w1, Inr x)" "data (siStore w1) = data (siStore w)" "changes data (f x) w1"
proof -
  obtain w1 y where m: "m w = (w1, y)" by (metis prod.collapse)
  have d: "data (siStore w1) = data (siStore w)" using assms(2) m unfolding keeps_def by (metis fst_conv)
  show thesis
  proof (cases y)
    case (Inl r)
    then show ?thesis using assms(1) m d by (simp add: changes_def hbind_def)
  next
    case (Inr x)
    then show ?thesis using that [OF _ d, of x] assms(1) m d by (simp add: changes_def hbind_def)
  qed
qed

lemma guard_Inr: "guard b e w = (w1, Inr x) \<longleftrightarrow> b \<and> w1 = w"
  by (auto simp: guard_def respond_def refuse_with_def)

lemma respond_Inr: "respond x w = (w1, Inr y) \<longleftrightarrow> w1 = w \<and> y = x"
  by (auto simp: respond_def)

lemma hbind_Inr: "hbind m f w = (w2, Inr y) \<longleftrightarrow> (\<exists>w1 x. m w = (w1, Inr x) \<and> f x w1 = (w2, Inr y))"
  by (auto simp: hbind_def split: prod.splits sum.splits)

lemma allow_rate_Inr:
  assumes "allow_rate st limiter update key w = (w1, Inr x)"
  shows "\<exists>now. snd (allow (limiter (siLimiters w)) key now) \<le> 0"
proof -
  obtain s now where n: "apNow st (siStore w) = (s, now)" by (metis prod.collapse)
  obtain l retry where l: "allow (limiter (siLimiters w)) key now = (l, retry)" by (metis prod.collapse)
  have "retry \<le> 0" using assms by (simp add: allow_rate_def n l Let_def split: if_splits)
  then show ?thesis using l by (metis snd_conv)
qed

lemma viewer_Inr:
  assumes "viewer sv st r w = (w1, Inr a)" "acc_ID a \<noteq> []"
  shows "\<exists>s'. apSessionAccount st (caller sv r) (siStore w) = (s', Inr a) \<and> siLimiters w1 = siLimiters w"
  using assms by (auto simp: viewer_def caller_def null_account_def attempt_def Let_def split: if_splits prod.splits sum.splits)

lemma credential_attempt_Inr:
  "credential_attempt sv st r w = (w1, Inr x) \<Longrightarrow> credentials_permitted sv r w"
  using allow_rate_Inr [of st liCredentialPeers set_credential_peers "rqPeer r" w w1 x]
  by (auto simp: credential_attempt_def hbind_Inr guard_Inr credentials_permitted_def)

lemma require_write_Inr:
  assumes "require_write sv st r w = (w1, Inr x)"
  shows "write_permitted sv st data r w"
proof -
  obtain a w2 w3 where a: "trusted_origin sv r" "viewer sv st r w = (w2, Inr a)" "acc_ID a \<noteq> []"
    "rqCSRFTokens r = [csrf_token sv (session_token sv r)]" "allow_rate st liAccounts set_accounts (acc_ID a) w2 = (w3, Inr ())"
    using assms by (auto simp: require_write_def hbind_Inr guard_Inr respond_Inr)
  then show ?thesis using viewer_Inr [OF a(2,3)] allow_rate_Inr [OF a(5)] unfolding write_permitted_def by metis
qed

lemma permitted_elsewhere:
  assumes "data (siStore w1) = data (siStore w)" "liAccounts (siLimiters w1) = liAccounts (siLimiters w)"
    "liCredentialPeers (siLimiters w1) = liCredentialPeers (siLimiters w)"
  shows "write_permitted sv st data r w1 = write_permitted sv st data r w" "credentials_permitted sv r w1 = credentials_permitted sv r w"
  using assms by (simp_all add: write_permitted_def credentials_permitted_def)

section \<open>The contract of the store\<close>

text \<open>Reads and the clock keep the data; a write that answers with a refusal has kept it.\<close>

locale api_contract =
  fixes st :: "('s, 'f) api_store" and data :: "'s \<Rightarrow> 'd"
  assumes reads:
    "data (fst (apNow st s)) = data s" "data (fst (apReady st s)) = data s" "data (fst (apSessionAccount st h s)) = data s"
    "data (fst (apProfileByID st i v s)) = data s" "data (fst (apProfileByHandle st n v s)) = data s" "data (fst (apPostByID st i v s)) = data s"
    "data (fst (apListReplies st i rw s)) = data s" "data (fst (apListBookmarks st h rw s)) = data s" "data (fst (apListFeed st v h fq s)) = data s"
    "data (fst (apListAccountFeed st i v fw s)) = data s" "data (fst (apSearchPosts st v sq s)) = data s"
    "data (fst (apSuggestedAgents st v k s)) = data s" "data (fst (apTrends st k s)) = data s"
  and writes:
    "write_spares data (apRegister st n p dn prev)" "write_spares data (apLogin st n p prev)" "write_spares data (apRevokeSession st h)"
    "write_spares data (apSetFollow st h i b)" "write_spares data (apCreatePost st h key pc)" "write_spares data (apDeletePost st h i)"
    "write_spares data (apCreateReply st h key rc)" "write_spares data (apDeleteReply st h i)" "write_spares data (apSetReaction st h i rk)"
    "write_spares data (apSetRepost st h i b)" "write_spares data (apSetBookmark st h i b)"
begin

lemma viewer_keeps [intro, simp]: "keeps data (viewer sv st r)"
  unfolding keeps_def viewer_def attempt_def Let_def using reads(3)
  by (auto split: prod.splits sum.splits if_splits) (metis fst_conv)+

lemma allow_rate_keeps [intro, simp]: "keeps data (allow_rate st limiter update key)"
  unfolding keeps_def allow_rate_def Let_def using reads(1) by (auto split: prod.splits if_splits) (metis fst_conv)+

lemma guards_keep [intro, simp]:
  "keeps data (require_write sv st r)" "keeps data (credential_attempt sv st r)" "keeps data (allow_username st u)"
  unfolding require_write_def credential_attempt_def allow_username_def by (intro keeps_hbind keeps_simple viewer_keeps allow_rate_keeps)+

lemmas step_rules = keeps_hbind keeps_simple keeps_call viewer_keeps allow_rate_keeps guards_keep reads

lemma route_keeps:
  assumes "rt \<notin> set (write_routes @ credential_routes)"
  shows "keeps data (run_route sv st rt r)"
proof (cases rt)
  case RouteMe
  then show ?thesis by (simp add: me_def) (intro step_rules)
next
  case RouteAccountByID
  then show ?thesis by (simp add: account_by_id_handler_def) (intro step_rules)
next
  case RouteAccountByHandle
  then show ?thesis by (simp add: account_by_handle_handler_def) (intro step_rules)
next
  case RouteGetPost
  then show ?thesis by (simp add: get_post_def) (intro step_rules)
next
  case RouteListReplies
  then show ?thesis by (simp add: list_replies_handler_def) (intro step_rules)
next
  case RouteListBookmarks
  then show ?thesis by (simp add: list_bookmarks_handler_def) (intro step_rules)
next
  case RouteListFeed
  then show ?thesis by (simp add: list_feed_handler_def Let_def) (intro step_rules)
next
  case RouteSearch
  then show ?thesis by (simp add: search_handler_def) (intro step_rules)
next
  case RouteSuggested
  then show ?thesis by (simp add: suggested_handler_def) (intro step_rules)
next
  case RouteTrends
  then show ?thesis by (simp add: trends_handler_def) (intro step_rules)
next
  case RouteAccountResource
  then show ?thesis by (simp add: account_feed_handler_def Let_def) (intro impI conjI step_rules)
next
  case RouteHealth
  then show ?thesis by simp
next
  case RouteReady
  then show ?thesis using reads(2) by (simp add: keeps_def ready_handler_def split: prod.split sum.split) (metis fst_conv)
qed (use assms in \<open>simp_all add: write_routes_def credential_routes_def\<close>)

lemmas write_rules = spares_hbind spares_write writes guards_keep keeps_simple not_refused

lemma route_spares: "spares data (run_route sv st rt r)"
proof (cases rt)
  case RouteRegister
  then show ?thesis by (simp add: register_account_def case_prod_unfold) (intro write_rules)
next
  case RouteLogin
  then show ?thesis by (simp add: login_def case_prod_unfold) (intro write_rules)
next
  case RouteLogout
  then show ?thesis by (simp add: logout_def) (intro write_rules)
next
  case RouteFollow
  then show ?thesis by (simp add: follow_def) (intro write_rules)
next
  case RouteCreatePost
  then show ?thesis by (simp add: create_post_handler_def) (intro write_rules)
next
  case RouteDeletePost
  then show ?thesis by (simp add: delete_post_handler_def) (intro write_rules)
next
  case RouteCreateReply
  then show ?thesis by (simp add: create_reply_handler_def case_prod_unfold) (intro write_rules)
next
  case RouteDeleteReply
  then show ?thesis by (simp add: delete_reply_handler_def) (intro write_rules)
next
  case RouteReaction
  then show ?thesis by (simp add: reaction_def) (intro write_rules)
next
  case RouteRepost
  then show ?thesis by (simp add: repost_def) (intro write_rules)
next
  case RouteBookmark
  then show ?thesis by (simp add: bookmark_def) (intro write_rules)
qed (rule spares_keeps, rule route_keeps, simp add: write_routes_def credential_routes_def)+

lemma write_route_permitted:
  assumes "rt \<in> set write_routes" "changes data (run_route sv st rt r) w"
  shows "write_permitted sv st data r w"
proof -
  obtain f :: "Account \<Rightarrow> ('s, 'f, 'f response) handler" where "run_route sv st rt r = hbind (require_write sv st r) f"
    using assms(1) by (auto simp: write_routes_def logout_def follow_def create_post_handler_def delete_post_handler_def
        create_reply_handler_def delete_reply_handler_def reaction_def repost_def bookmark_def)
  then have "changes data (hbind (require_write sv st r) f) w" using assms(2) by simp
  then obtain w1 x where "require_write sv st r w = (w1, Inr x)" by (rule hbind_changes) (rule guards_keep)
  then show ?thesis by (rule require_write_Inr)
qed

lemma credential_route_permitted:
  assumes "rt \<in> set credential_routes" "changes data (run_route sv st rt r) w"
  shows "credentials_permitted sv r w"
proof -
  obtain f :: "unit \<Rightarrow> ('s, 'f, 'f response) handler" where "run_route sv st rt r = hbind (credential_attempt sv st r) f"
    using assms(1) by (auto simp: credential_routes_def register_account_def login_def)
  then have "changes data (hbind (credential_attempt sv st r) f) w" using assms(2) by simp
  then obtain w1 x where "credential_attempt sv st r w = (w1, Inr x)" by (rule hbind_changes) (rule guards_keep)
  then show ?thesis by (rule credential_attempt_Inr)
qed

lemma dispatch_spares: "spares data (dispatch sv st r)"
  by (auto simp: dispatch_def spares_keeps route_spares split: option.split)

lemma dispatch_changes:
  "changes data (dispatch sv st r) w \<Longrightarrow> \<exists>rt. rqRoute r = Some rt \<and> rqPathClean r \<and> changes data (run_route sv st rt r) w"
  by (auto simp: dispatch_def keeps_unchanged split: if_splits option.splits)

lemma middleware_spares: "spares data (middleware sv st r)"
  by (auto simp: middleware_def spares_keeps dispatch_spares split: option.split intro!: spares_hbind)

lemma peers_keep_others:
  "allow_rate st liPeers set_peers key w = (w1, x) \<Longrightarrow>
     liAccounts (siLimiters w1) = liAccounts (siLimiters w) \<and> liCredentialPeers (siLimiters w1) = liCredentialPeers (siLimiters w)"
  by (auto simp: allow_rate_def set_peers_def Let_def split: prod.splits if_splits)

lemma middleware_changes:
  assumes "changes data (middleware sv st r) w"
  obtains w1 where "changes data (dispatch sv st r) w1" "data (siStore w1) = data (siStore w)"
    "liAccounts (siLimiters w1) = liAccounts (siLimiters w)" "liCredentialPeers (siLimiters w1) = liCredentialPeers (siLimiters w)"
proof -
  let ?limit = "(if is_probe r then respond () else allow_rate st liPeers set_peers (rqPeer r)) :: ('s, 'f, unit) handler"
  let ?ended = "(case rqEnded r of None \<Rightarrow> respond () | Some e \<Rightarrow> refuse_with (write_failure e)) :: ('s, 'f, unit) handler"
  have m: "changes data (hbind ?limit (\<lambda>_. hbind ?ended (\<lambda>_. dispatch sv st r))) w"
    using assms by (auto simp: middleware_def keeps_unchanged split: option.splits if_splits)
  have k: "keeps data ?limit" "keeps data ?ended" by (auto split: option.split)
  from m k(1) obtain w1 where w1: "?limit w = (w1, Inr ())" "data (siStore w1) = data (siStore w)"
    "changes data (hbind ?ended (\<lambda>_. dispatch sv st r)) w1" by (rule hbind_changes) simp
  from w1(3) k(2) obtain w2 where w2: "?ended w1 = (w2, Inr ())" "changes data (dispatch sv st r) w2" by (rule hbind_changes) simp
  have "w2 = w1" using w2(1) by (auto simp: respond_def refuse_with_def split: option.splits)
  moreover have "liAccounts (siLimiters w1) = liAccounts (siLimiters w) \<and> liCredentialPeers (siLimiters w1) = liCredentialPeers (siLimiters w)"
    using w1(1) peers_keep_others by (auto simp: respond_def split: if_splits)
  ultimately show thesis using that w1(2) w2(2) by blast
qed

lemma serve_request_parts:
  "fst (serve_request sv st r w) = fst (middleware sv st r w)" "snd (serve_request sv st r w) = cors_headers sv r (outcome_response (snd (middleware sv st r w)))"
  by (auto simp: serve_request_def outcome_response_def split: prod.split sum.split)

text \<open>The data changes only through a route that writes, by a request that is entitled to it.\<close>

lemma changed_entitled:
  assumes "data (siStore (fst (serve_request sv st r w))) \<noteq> data (siStore w)"
  shows "\<exists>rt. rqRoute r = Some rt \<and> rqPathClean r \<and>
    (rt \<in> set write_routes \<and> write_permitted sv st data r w \<or> rt \<in> set credential_routes \<and> credentials_permitted sv r w)"
proof -
  have "changes data (middleware sv st r) w" using assms by (simp add: changes_def serve_request_parts)
  then obtain w1 where w1: "changes data (dispatch sv st r) w1" "data (siStore w1) = data (siStore w)"
    "liAccounts (siLimiters w1) = liAccounts (siLimiters w)" "liCredentialPeers (siLimiters w1) = liCredentialPeers (siLimiters w)"
    by (rule middleware_changes)
  obtain rt where rt: "rqRoute r = Some rt" "rqPathClean r" "changes data (run_route sv st rt r) w1" using dispatch_changes [OF w1(1)] by blast
  have "rt \<in> set (write_routes @ credential_routes)" using rt(3) route_keeps keeps_unchanged by metis
  then consider "rt \<in> set write_routes" | "rt \<in> set credential_routes" by auto
  then show ?thesis
    using rt write_route_permitted [OF _ rt(3)] credential_route_permitted [OF _ rt(3)] permitted_elsewhere [OF w1(2-4)] by metis
qed

lemma refusal_keeps:
  assumes "refused (snd (serve_request sv st r w))"
  shows "data (siStore (fst (serve_request sv st r w))) = data (siStore w)"
  using middleware_spares [of sv r] assms unfolding spares_def serve_request_parts by simp

end

end
