(* ===== verification/Startup.thy ===== *)
theory Startup
  imports Http Serve
begin

text \<open>
  What a process settles before it works: the environment settings of a role (\<open>internal/config/config.go\<close>), the schema
  migrations and the readiness check over their history (\<open>internal/postgres/migrate.go\<close>), and the preflight of the worker
  (\<open>internal/worker/check.go\<close>).  \<open>url.Parse\<close>, the loopback test of \<open>net.ParseIP\<close> and the effect of a migration script are
  parameters.
\<close>

section \<open>Configuration\<close>

datatype Role = Server | Database | WorkerExecute | WorkerServe | RoleOther string

record Config =
  cfEnvironment :: string
  cfDatabaseURL :: string
  cfHTTPAddr :: string
  cfAPIPublicOrigin :: string
  cfClientOrigins :: "string list"
  cfCSRFSigningKey :: string
  cfCursorSigningKey :: string
  cfSecureCookies :: bool
  cfTogetherAPIKey :: string

text \<open>What the code reads of a parsed URL, and the two library functions that it calls.\<close>

record parsed_url =
  puScheme :: string
  puHostname :: string
  puHost :: string
  puPort :: string
  puUser :: bool
  puOpaque :: string
  puPath :: string
  puRawQuery :: string
  puForceQuery :: bool
  puFragment :: string

record net_library =
  nlParse :: "string \<Rightarrow> parsed_url option"
  nlLoopback :: "string \<Rightarrow> bool"

datatype config_error =
    UnsupportedRole | BadEnvironment | BadDatabaseURL | MissingProviderKey | BadListener string | BadPort
  | BadPublicOrigin | BadClientOrigins | BadCSRFKey | BadCursorKey | SameKeys

definition port_ok :: "string \<Rightarrow> bool" where
  "port_ok port \<longleftrightarrow> (case atoi port of None \<Rightarrow> False | Some n \<Rightarrow> 1 \<le> n \<and> n \<le> 65535)"

definition valid_origin :: "net_library \<Rightarrow> string \<Rightarrow> string \<Rightarrow> bool" where
  "valid_origin nl raw environment =
     (case nlParse nl raw of
        None \<Rightarrow> False
      | Some u \<Rightarrow>
          if puHostname u = [] \<or> puUser u \<or> puOpaque u \<noteq> [] then False
          else if puPath u \<noteq> [] \<or> puRawQuery u \<noteq> [] \<or> puForceQuery u \<or> puFragment u \<noteq> [] then False
          else if list_ex (\<lambda>c. c \<in> {CHR ''*'', CHR ''#'', CHR 92}) raw \<or> puHost u \<noteq> [] \<and> last (puHost u) = CHR '':'' then False
          else if puPort u \<noteq> [] \<and> \<not> port_ok (puPort u) then False
          else if puScheme u = ''https'' then True
          else environment = ''development'' \<and> puScheme u = ''http'' \<and> (puHostname u = ''localhost'' \<or> nlLoopback nl (puHostname u)))"

text \<open>\<open>net.SplitHostPort\<close>: the port after the last colon, of an address whose brackets and colons are in order.\<close>

definition split_host_port :: "string \<Rightarrow> (string \<times> string) option" where
  "split_host_port address =
     (let before = rev (dropWhile (\<lambda>c. c \<noteq> CHR '':'') (rev address)); port = drop (length before) address; host = butlast before in
      if before = [] then None
      else if hd address = CHR ''['' then
        (let inside = takeWhile (\<lambda>c. c \<noteq> CHR '']'') (tl address); rest = drop (length inside + 2) address in
         if CHR '']'' \<notin> set (tl address) \<or> length inside + 2 \<noteq> length host then None
         else if CHR ''['' \<in> set (tl address) \<or> CHR '']'' \<in> set rest then None
         else Some (inside, port))
      else if CHR '':'' \<in> set host then None
      else if CHR ''['' \<in> set address \<or> CHR '']'' \<in> set address then None
      else Some (host, port))"

definition listener_address :: "(string \<Rightarrow> string) \<Rightarrow> string \<Rightarrow> string \<Rightarrow> config_error + string" where
  "listener_address getenv name default_address =
     and_then
       (if getenv name \<noteq> [] then Inr (getenv name)
        else if getenv ''PORT'' = [] then Inr default_address
        else if \<not> port_ok (getenv ''PORT'') \<or> digits_val (getenv ''PORT'') = None then Inl BadPort
        else Inr (CHR '':'' # getenv ''PORT''))
     (\<lambda>address.
       case split_host_port address of
         None \<Rightarrow> Inl (BadListener name)
       | Some (_, port) \<Rightarrow> if \<not> port_ok port then Inl (BadListener name) else Inr address)"

fun client_origins :: "(string \<Rightarrow> bool) \<Rightarrow> string list \<Rightarrow> string list \<Rightarrow> string list option" where
  "client_origins valid [] acc = Some acc"
| "client_origins valid (raw # raws) acc =
     (let origin = trim_space raw in
      if \<not> valid origin then None else client_origins valid raws (if origin \<in> set acc then acc else acc @ [origin]))"

definition signing_key :: "config_error \<Rightarrow> string \<Rightarrow> config_error + string" where
  "signing_key e raw =
     (case hex_decode raw of None \<Rightarrow> Inl e | Some k \<Rightarrow> if length k \<noteq> 32 then Inl e else Inr k)"

definition load_server :: "net_library \<Rightarrow> (string \<Rightarrow> string) \<Rightarrow> Config \<Rightarrow> config_error + Config" where
  "load_server nl getenv c =
     and_then (listener_address getenv ''HTTP_ADDR'' (if cfEnvironment c = ''development'' then ''127.0.0.1:8080'' else '':8080'')) (\<lambda>address.
     let origin = getenv ''API_PUBLIC_ORIGIN'' in
     if \<not> valid_origin nl origin (cfEnvironment c) then Inl BadPublicOrigin
     else case client_origins (\<lambda>o'. valid_origin nl o' (cfEnvironment c)) (split_on CHR '','' (getenv ''CLIENT_ORIGINS'')) [] of
       None \<Rightarrow> Inl BadClientOrigins
     | Some origins \<Rightarrow>
         and_then (signing_key BadCSRFKey (getenv ''CSRF_SIGNING_KEY'')) (\<lambda>csrf.
         and_then (signing_key BadCursorKey (getenv ''CURSOR_SIGNING_KEY'')) (\<lambda>cursor.
         if cursor = csrf then Inl SameKeys
         else Inr (c\<lparr>cfHTTPAddr := address, cfAPIPublicOrigin := origin, cfClientOrigins := origins, cfCSRFSigningKey := csrf,
                cfCursorSigningKey := cursor, cfSecureCookies := has_prefix origin ''https://''\<rparr>))))"

definition database_url_ok :: "net_library \<Rightarrow> string \<Rightarrow> bool" where
  "database_url_ok nl raw \<longleftrightarrow>
     (case nlParse nl raw of
        None \<Rightarrow> False
      | Some u \<Rightarrow> (puScheme u = ''postgres'' \<or> puScheme u = ''postgresql'') \<and> puHostname u \<noteq> [] \<and> puFragment u = [])"

definition load :: "net_library \<Rightarrow> Role \<Rightarrow> (string \<Rightarrow> string) \<Rightarrow> config_error + Config" where
  "load nl role getenv =
     (if role \<notin> {Server, Database, WorkerExecute, WorkerServe} then Inl UnsupportedRole
      else
        let environment = (if getenv ''APP_ENV'' = [] then ''production'' else getenv ''APP_ENV'');
            c = \<lparr>cfEnvironment = environment, cfDatabaseURL = getenv ''DATABASE_URL'', cfHTTPAddr = [], cfAPIPublicOrigin = [],
              cfClientOrigins = [], cfCSRFSigningKey = [], cfCursorSigningKey = [], cfSecureCookies = False, cfTogetherAPIKey = []\<rparr> in
        if environment \<noteq> ''development'' \<and> environment \<noteq> ''production'' then Inl BadEnvironment
        else if \<not> database_url_ok nl (cfDatabaseURL c) then Inl BadDatabaseURL
        else if role = Database then Inr c
        else if role = Server then load_server nl getenv c
        else
          let key = getenv ''TOGETHER_API_KEY'' in
          if key = [] then Inl MissingProviderKey
          else if role = WorkerExecute then Inr (c\<lparr>cfTogetherAPIKey := key\<rparr>)
          else and_then (listener_address getenv ''WORKER_HTTP_ADDR'' ''127.0.0.1:8081'') (\<lambda>address.
               Inr (c\<lparr>cfTogetherAPIKey := key, cfHTTPAddr := address\<rparr>)))"

section \<open>What a loaded configuration guarantees\<close>

lemma client_origins_sound:
  assumes "client_origins valid raws acc = Some origins" "distinct acc" "\<forall>o' \<in> set acc. valid o'" "raws \<noteq> [] \<or> acc \<noteq> []"
  shows "distinct origins \<and> origins \<noteq> [] \<and> (\<forall>o' \<in> set origins. valid o')"
  using assms
proof (induction valid raws acc rule: client_origins.induct)
  case (2 valid raw raws acc)
  let ?acc = "if trim_space raw \<in> set acc then acc else acc @ [trim_space raw]"
  have v: "valid (trim_space raw)" "client_origins valid raws ?acc = Some origins"
    using "2.prems"(1) by (auto simp: Let_def split: if_splits)
  show ?case by (rule "2.IH" [OF refl _ v(2)]) (use "2.prems" v(1) in auto)
qed auto

lemma split_on_nonempty: "split_on c s \<noteq> []"
  by (induction s) (auto split: list.split)

lemma valid_origin_scheme:
  assumes "valid_origin nl raw environment"
  obtains u where "nlParse nl raw = Some u" "puHostname u \<noteq> []" "\<not> puUser u"
    "puScheme u = ''https'' \<or> environment = ''development'' \<and> puScheme u = ''http'' \<and> (puHostname u = ''localhost'' \<or> nlLoopback nl (puHostname u))"
  using assms by (auto simp: valid_origin_def split: option.splits if_splits)

lemma signing_key_Inr: "signing_key e raw = Inr k \<longleftrightarrow> hex_decode raw = Some k \<and> length k = 32"
  by (auto simp: signing_key_def split: option.splits if_splits)

lemma load_server_parts:
  assumes "load_server nl getenv c = Inr c'"
  obtains address csrf cursor origins where
    "valid_origin nl (getenv ''API_PUBLIC_ORIGIN'') (cfEnvironment c)"
    "client_origins (\<lambda>o'. valid_origin nl o' (cfEnvironment c)) (split_on CHR '','' (getenv ''CLIENT_ORIGINS'')) [] = Some origins"
    "length csrf = 32" "length cursor = 32" "cursor \<noteq> csrf"
    "c' = c\<lparr>cfHTTPAddr := address, cfAPIPublicOrigin := getenv ''API_PUBLIC_ORIGIN'', cfClientOrigins := origins, cfCSRFSigningKey := csrf,
       cfCursorSigningKey := cursor, cfSecureCookies := has_prefix (getenv ''API_PUBLIC_ORIGIN'') ''https://''\<rparr>"
  using assms unfolding load_server_def Let_def and_then_Inr
  by (auto simp only: and_then_Inr signing_key_Inr sum.inject split: if_splits option.splits)

lemma load_server_Inr:
  assumes "load_server nl getenv c = Inr c'"
  shows "cfEnvironment c' = cfEnvironment c" "valid_origin nl (cfAPIPublicOrigin c') (cfEnvironment c)"
    "cfSecureCookies c' = has_prefix (cfAPIPublicOrigin c') ''https://''"
    "length (cfCSRFSigningKey c') = 32" "length (cfCursorSigningKey c') = 32" "cfCSRFSigningKey c' \<noteq> cfCursorSigningKey c'"
    "distinct (cfClientOrigins c') \<and> cfClientOrigins c' \<noteq> [] \<and> (\<forall>o' \<in> set (cfClientOrigins c'). valid_origin nl o' (cfEnvironment c))"
proof -
  obtain address csrf cursor origins where v: "valid_origin nl (getenv ''API_PUBLIC_ORIGIN'') (cfEnvironment c)"
    and o: "client_origins (\<lambda>o'. valid_origin nl o' (cfEnvironment c)) (split_on CHR '','' (getenv ''CLIENT_ORIGINS'')) [] = Some origins"
    and k: "length csrf = 32" "length cursor = 32" "cursor \<noteq> csrf"
    and c: "c' = c\<lparr>cfHTTPAddr := address, cfAPIPublicOrigin := getenv ''API_PUBLIC_ORIGIN'', cfClientOrigins := origins, cfCSRFSigningKey := csrf,
       cfCursorSigningKey := cursor, cfSecureCookies := has_prefix (getenv ''API_PUBLIC_ORIGIN'') ''https://''\<rparr>"
    using load_server_parts [OF assms] by metis
  show "distinct (cfClientOrigins c') \<and> cfClientOrigins c' \<noteq> [] \<and> (\<forall>o' \<in> set (cfClientOrigins c'). valid_origin nl o' (cfEnvironment c))"
    using client_origins_sound [OF o] split_on_nonempty by (simp add: c)
  show "cfEnvironment c' = cfEnvironment c" "valid_origin nl (cfAPIPublicOrigin c') (cfEnvironment c)"
    "cfSecureCookies c' = has_prefix (cfAPIPublicOrigin c') ''https://''"
    "length (cfCSRFSigningKey c') = 32" "length (cfCursorSigningKey c') = 32" "cfCSRFSigningKey c' \<noteq> cfCursorSigningKey c'"
    using k v by (simp_all add: c)
qed

lemma load_Server: "load nl Server getenv = Inr c \<Longrightarrow> \<exists>c0. load_server nl getenv c0 = Inr c"
  unfolding load_def Let_def by (simp split: if_splits) blast+

definition safe_origin :: "net_library \<Rightarrow> string \<Rightarrow> string \<Rightarrow> bool" where
  "safe_origin nl environment raw \<longleftrightarrow>
     (\<exists>u. nlParse nl raw = Some u \<and> puHostname u \<noteq> [] \<and> \<not> puUser u \<and>
       (puScheme u = ''https'' \<or> environment = ''development'' \<and> puScheme u = ''http'' \<and>
          (puHostname u = ''localhost'' \<or> nlLoopback nl (puHostname u))))"

lemma valid_origin_safe: "valid_origin nl raw environment \<Longrightarrow> safe_origin nl environment raw"
  by (rule valid_origin_scheme) (auto simp: safe_origin_def)

text \<open>
  C38: A configuration that a server starts with has two different signing keys of 32 bytes; its public origin and every client
  origin, of which there is at least one and none twice, parse with a host and without credentials and are https, or http on
  a loopback host in the development environment.  Cookies are secure exactly when the public origin is spelled with https.
\<close>

theorem configuration_safe:
  assumes "load nl Server getenv = Inr c"
  shows "length (cfCSRFSigningKey c) = 32 \<and> length (cfCursorSigningKey c) = 32 \<and> cfCSRFSigningKey c \<noteq> cfCursorSigningKey c \<and>
    distinct (cfClientOrigins c) \<and> cfClientOrigins c \<noteq> [] \<and> list_all (safe_origin nl (cfEnvironment c)) (cfAPIPublicOrigin c # cfClientOrigins c) \<and>
    cfSecureCookies c = has_prefix (cfAPIPublicOrigin c) ''https://''"
proof -
  obtain c0 where s: "load_server nl getenv c0 = Inr c" using load_Server [OF assms] by blast
  note facts = load_server_Inr [OF s]
  have "list_all (safe_origin nl (cfEnvironment c)) (cfAPIPublicOrigin c # cfClientOrigins c)"
    using facts(1,2,7) valid_origin_safe by (auto simp: list_all_iff)
  then show ?thesis using facts(3-7) by simp
qed

text \<open>
  \<open>url.Parse\<close> lowers the scheme, and the cookies of the server are decided by the text: a production server whose public
  origin is spelled \<open>HTTPS://\<close> starts, with cookies that are not secure.
\<close>

definition sample_net :: net_library where
  "sample_net = \<lparr>nlParse = (\<lambda>raw.
     if raw = ''postgres://db'' then Some \<lparr>puScheme = ''postgres'', puHostname = ''db'', puHost = ''db'', puPort = [], puUser = False,
       puOpaque = [], puPath = [], puRawQuery = [], puForceQuery = False, puFragment = []\<rparr>
     else if raw \<in> {''https://a.example'', ''HTTPS://a.example''} then Some \<lparr>puScheme = ''https'', puHostname = ''a.example'',
       puHost = ''a.example'', puPort = [], puUser = False, puOpaque = [], puPath = [], puRawQuery = [], puForceQuery = False,
       puFragment = []\<rparr>
     else None), nlLoopback = (\<lambda>host. False)\<rparr>"

definition sample_settings_of :: "string \<Rightarrow> string \<Rightarrow> string" where
  "sample_settings_of origin name =
     (if name = ''DATABASE_URL'' then ''postgres://db'' else if name = ''API_PUBLIC_ORIGIN'' then origin
      else if name = ''CLIENT_ORIGINS'' then ''https://a.example, https://a.example''
      else if name = ''CSRF_SIGNING_KEY'' then hex_encode (replicate 32 CHR ''a'')
      else if name = ''CURSOR_SIGNING_KEY'' then hex_encode (replicate 32 CHR ''b'') else [])"

lemma sample_origins:
  "client_origins (\<lambda>o'. valid_origin sample_net o' ''production'') (split_on CHR '','' ''https://a.example, https://a.example'') [] =
    Some [''https://a.example'']"
  by code_simp

lemma sample_address: "listener_address (sample_settings_of origin) ''HTTP_ADDR'' '':8080'' = Inr '':8080''"
proof -
  have "sample_settings_of origin ''HTTP_ADDR'' = []" "sample_settings_of origin ''PORT'' = []" by (simp_all add: sample_settings_of_def)
  moreover have "split_host_port '':8080'' = Some ([], ''8080'')" "port_ok ''8080''" by code_simp+
  ultimately show ?thesis by (simp add: listener_address_def)
qed

lemma sample_load:
  assumes "origin \<in> {''https://a.example'', ''HTTPS://a.example''}"
  shows "\<exists>c. load sample_net Server (sample_settings_of origin) = Inr c \<and> cfEnvironment c = ''production'' \<and>
    cfClientOrigins c = [''https://a.example''] \<and> cfAPIPublicOrigin c = origin \<and> cfSecureCookies c = has_prefix origin ''https://''"
proof -
  have v: "valid_origin sample_net origin ''production''" using assms by (auto simp: valid_origin_def sample_net_def)
  have n: "database_url_ok sample_net ''postgres://db''" by (simp add: database_url_ok_def sample_net_def)
  have s: "sample_settings_of origin ''APP_ENV'' = []" "sample_settings_of origin ''DATABASE_URL'' = ''postgres://db''"
    "sample_settings_of origin ''API_PUBLIC_ORIGIN'' = origin" "sample_settings_of origin ''CLIENT_ORIGINS'' = ''https://a.example, https://a.example''"
    "sample_settings_of origin ''CSRF_SIGNING_KEY'' = hex_encode (replicate 32 CHR ''a'')"
    "sample_settings_of origin ''CURSOR_SIGNING_KEY'' = hex_encode (replicate 32 CHR ''b'')"
    by (simp_all add: sample_settings_of_def)
  have "\<exists>c'. load_server sample_net (sample_settings_of origin) c = Inr c' \<and> cfEnvironment c' = ''production'' \<and>
      cfClientOrigins c' = [''https://a.example''] \<and> cfAPIPublicOrigin c' = origin \<and> cfSecureCookies c' = has_prefix origin ''https://''"
    if "cfEnvironment c = ''production''" for c
    unfolding load_server_def Let_def s that sample_origins
    by (simp add: v that sample_address signing_key_def hex_decode_encode del: client_origins.simps split_on.simps)
  then show ?thesis unfolding load_def Let_def s by (simp add: n)
qed

theorem configuration_safe_witness:
  "\<exists>c. load sample_net Server (sample_settings_of ''https://a.example'') = Inr c \<and> cfSecureCookies c \<and>
    cfCSRFSigningKey c \<noteq> cfCursorSigningKey c \<and> length (cfCSRFSigningKey c) = 32"
proof -
  obtain c where c: "load sample_net Server (sample_settings_of ''https://a.example'') = Inr c"
    "cfAPIPublicOrigin c = ''https://a.example''" using sample_load by blast
  from configuration_safe [OF c(1)] c show ?thesis by (auto simp: has_prefix_def)
qed

lemma uppercase_origin_insecure:
  "\<exists>c. load sample_net Server (sample_settings_of ''HTTPS://a.example'') = Inr c \<and> cfEnvironment c = ''production'' \<and> \<not> cfSecureCookies c"
  using sample_load [of "''HTTPS://a.example''"] by (auto simp: has_prefix_def)

section \<open>Migrations\<close>

record migration =
  mgVersion :: int
  mgName :: string
  mgChecksum :: string
  mgSQL :: string

datatype schema_error =
    ErrSchemaMismatch | NoMigrations | InvalidFilename | NotConsecutive | UnreadableMigration
  | DatabaseError go_error | MigrationFailed int go_error

text \<open>The pattern of a file name: three digits, an underscore, a name of lower case letters, digits and underscores, \<open>.sql\<close>.\<close>

definition file_version :: "string \<Rightarrow> int option" where
  "file_version n =
     (if length n \<ge> 9 \<and> n ! 3 = CHR ''_'' \<and> drop (length n - 4) n = ''.sql'' \<and>
         list_all (\<lambda>c. is_lower (byte c) \<or> is_digit (byte c) \<or> c = CHR ''_'') (take (length n - 8) (drop 4 n))
      then digits_val (take 3 n) else None)"

text \<open>The embedded files with their contents, in the order of the glob; \<open>None\<close> is a file that cannot be read.\<close>

fun read_catalog :: "int \<Rightarrow> (string \<times> string option) list \<Rightarrow> schema_error + migration list" where
  "read_catalog index [] = Inr []"
| "read_catalog index ((name, contents) # files) =
     (case file_version name of
        None \<Rightarrow> Inl InvalidFilename
      | Some v \<Rightarrow>
          if v \<noteq> index + 1 then Inl NotConsecutive
          else case contents of
            None \<Rightarrow> Inl UnreadableMigration
          | Some sql \<Rightarrow>
              and_then (read_catalog (index + 1) files) (\<lambda>ms.
              Inr (\<lparr>mgVersion = v, mgName = name, mgChecksum = hex_encode (sha256 sql), mgSQL = sql\<rparr> # ms)))"

definition load_migrations :: "(string \<times> string option) list \<Rightarrow> schema_error + migration list" where
  "load_migrations files = (if files = [] then Inl NoMigrations else read_catalog 0 files)"

text \<open>The table of applied migrations, absent before the first run, and what the scripts act on.\<close>

type_synonym applied_row = "int \<times> string \<times> string"

record 'w schema =
  shHistory :: "applied_row list option"
  shTables :: 'w

definition history_row :: "migration \<Rightarrow> applied_row" where
  "history_row m = (mgVersion m, mgName m, mgChecksum m)"

fun match_history :: "migration list \<Rightarrow> applied_row list \<Rightarrow> schema_error + nat" where
  "match_history catalog [] = Inr 0"
| "match_history [] (r # rs) = Inl ErrSchemaMismatch"
| "match_history (m # ms) (r # rs) = (if r \<noteq> history_row m then Inl ErrSchemaMismatch else and_then (match_history ms rs) (\<lambda>n. Inr (Suc n)))"

definition check_history :: "migration list \<Rightarrow> applied_row list option \<Rightarrow> schema_error + nat" where
  "check_history catalog recorded =
     (case recorded of None \<Rightarrow> Inl ErrSchemaMismatch | Some rows \<Rightarrow> match_history catalog (sort_key fst rows))"

definition insert_history :: "migration \<Rightarrow> applied_row list \<Rightarrow> schema_error + applied_row list" where
  "insert_history m rows =
     (if list_ex (\<lambda>(v, n, c). v = mgVersion m \<or> n = mgName m) rows then Inl (DatabaseError ErrConflict)
      else if mgVersion m \<le> 0 \<or> length (mgChecksum m) \<noteq> 64 \<or> \<not> list_all (\<lambda>c. c \<in> set ''0123456789abcdef'') (mgChecksum m)
      then Inl (DatabaseError ErrUnavailable)
      else Inr (rows @ [history_row m]))"

text \<open>The loop over the pending scripts; any failure leaves the transaction, and with it nothing.\<close>

fun apply_scripts :: "(string \<Rightarrow> 'w \<Rightarrow> go_error + 'w) \<Rightarrow> migration list \<Rightarrow> applied_row list \<times> 'w \<Rightarrow> schema_error + applied_row list \<times> 'w" where
  "apply_scripts run [] s = Inr s"
| "apply_scripts run (m # ms) (rows, w) =
     (case run (mgSQL m) w of
        Inl e \<Rightarrow> Inl (MigrationFailed (mgVersion m) e)
      | Inr w' \<Rightarrow> and_then (insert_history m rows) (\<lambda>rows'. apply_scripts run ms (rows', w')))"

definition migrate :: "(string \<Rightarrow> 'w \<Rightarrow> go_error + 'w) \<Rightarrow> migration list \<Rightarrow> 'w schema \<Rightarrow> schema_error + 'w schema" where
  "migrate run catalog s =
     (let rows = (case shHistory s of None \<Rightarrow> [] | Some rows \<Rightarrow> rows) in
      and_then (check_history catalog (Some rows)) (\<lambda>applied.
      and_then (apply_scripts run (drop applied catalog) (rows, shTables s)) (\<lambda>(rows', w).
      Inr \<lparr>shHistory = Some rows', shTables = w\<rparr>)))"

definition schema_ready :: "(string \<times> string option) list \<Rightarrow> 'w schema \<Rightarrow> schema_error option" where
  "schema_ready files s =
     (case load_migrations files of
        Inl e \<Rightarrow> Some e
      | Inr catalog \<Rightarrow>
          (case check_history catalog (shHistory s) of
             Inl e \<Rightarrow> Some e
           | Inr applied \<Rightarrow> if applied \<noteq> length catalog then Some ErrSchemaMismatch else None))"

lemma match_history_iff: "match_history catalog rows = Inr n \<longleftrightarrow> n = length rows \<and> n \<le> length catalog \<and> rows = map history_row (take n catalog)"
proof (induction catalog arbitrary: rows n)
  case (Cons m ms)
  then show ?case by (cases rows; cases n) auto
qed (case_tac rows; auto)

lemma insert_history_Inr: "insert_history m rows = Inr rows' \<Longrightarrow> rows' = rows @ [history_row m]"
  by (auto simp: insert_history_def split: if_splits)

lemma read_catalog_versions:
  assumes "read_catalog index files = Inr ms"
  shows "map mgVersion ms = map (\<lambda>k. index + 1 + int k) [0..<length ms] \<and> map mgName ms = map fst files"
  using assms
proof (induction index files arbitrary: ms rule: read_catalog.induct)
  case (2 index name contents files)
  then obtain sql ms' where m: "file_version name = Some (index + 1)" "contents = Some sql" "read_catalog (index + 1) files = Inr ms'"
    "ms = \<lparr>mgVersion = index + 1, mgName = name, mgChecksum = hex_encode (sha256 sql), mgSQL = sql\<rparr> # ms'"
    by (auto split: option.splits if_splits)
  from "2.IH" [OF m(1) _ m(2) m(3)] show ?case by (simp add: m(4) upt_conv_Cons map_Suc_upt [symmetric] del: upt_Suc)
qed simp

lemma read_catalog_append:
  "read_catalog index (fs @ gs) = Inr ms \<Longrightarrow> read_catalog index fs = Inr ms1 \<Longrightarrow> \<exists>ms2. ms = ms1 @ ms2"
  by (induction index fs arbitrary: ms ms1 rule: read_catalog.induct) (force split: option.splits if_splits)+

lemma apply_scripts_rows:
  "apply_scripts run ms (rows, w) = Inr (rows', w') \<Longrightarrow> rows' = rows @ map history_row ms"
  by (induction ms arbitrary: rows w) (fastforce dest!: insert_history_Inr split: sum.splits)+

lemma apply_scripts_append:
  "apply_scripts run (ms @ ns) s = and_then (apply_scripts run ms s) (apply_scripts run ns)"
  by (induction ms arbitrary: s) (auto split: sum.split simp: and_then_def)

text \<open>A catalog that loads is numbered from one; a database that it matches has the rows of a prefix.\<close>

definition numbered :: "migration list \<Rightarrow> bool" where
  "numbered catalog \<longleftrightarrow> map mgVersion catalog = map (\<lambda>k. 1 + int k) [0..<length catalog]"

lemma load_numbered: "load_migrations files = Inr catalog \<Longrightarrow> numbered catalog"
  using read_catalog_versions [of 0 files] by (auto simp: load_migrations_def numbered_def split: if_splits)

lemma history_keys: "map fst (map history_row ms) = map mgVersion ms"
  by (simp add: history_row_def)

lemma numbered_sorted:
  assumes "numbered catalog"
  shows "sorted (map fst (map history_row catalog))" "distinct (map fst (map history_row catalog))"
  using assms unfolding history_keys numbered_def
  by (simp_all add: sorted_iff_nth_mono distinct_map inj_on_def)

lemma sort_history:
  assumes "numbered catalog" "mset rows = mset (map history_row catalog)"
  shows "sort_key fst rows = map history_row catalog"
proof -
  have "inj_on fst (set rows)"
    using numbered_sorted(2) [OF assms(1)] mset_eq_setD [OF assms(2)] by (simp add: distinct_map inj_on_imageI)
  from sort_key_inj_key_eq [OF assms(2) this numbered_sorted(1) [OF assms(1)]] show ?thesis .
qed

lemma extended_history:
  assumes "numbered catalog" "sort_key fst rows = map history_row (take n catalog)"
  shows "sort_key fst (rows @ map history_row (drop n catalog)) = map history_row catalog"
proof (rule sort_history [OF assms(1)])
  have "mset rows = mset (map history_row (take n catalog))" using assms(2) by (metis mset_sort)
  then show "mset (rows @ map history_row (drop n catalog)) = mset (map history_row catalog)"
    by (metis append_take_drop_id map_append mset_append)
qed

lemma migrate_cases:
  assumes "migrate run catalog s = Inr s'"
  obtains rows n w where "(case shHistory s of None \<Rightarrow> [] | Some rows \<Rightarrow> rows) = rows" "n \<le> length catalog"
    "sort_key fst rows = map history_row (take n catalog)" "apply_scripts run (drop n catalog) (rows, shTables s) = Inr (rows @ map history_row (drop n catalog), w)"
    "s' = \<lparr>shHistory = Some (rows @ map history_row (drop n catalog)), shTables = w\<rparr>"
  using assms by (auto simp: migrate_def check_history_def match_history_iff Let_def dest: apply_scripts_rows)

text \<open>
  C39: An upgrade may go through any intermediate release: once a release with an initial part of the migrations has run, the
  full catalog does to the database exactly what it would have done at once, on the tables and on the history, and fails where
  it would have failed.
\<close>

theorem migrate_staged:
  assumes "load_migrations (early @ late) = Inr catalog" "load_migrations early = Inr first" "migrate run first s = Inr s1"
  shows "migrate run catalog s1 = migrate run catalog s"
proof -
  obtain rest where c: "catalog = first @ rest"
    using assms(1,2) read_catalog_append [of 0 early late catalog first] by (auto simp: load_migrations_def split: if_splits)
  obtain rows n w where m: "(case shHistory s of None \<Rightarrow> [] | Some rows \<Rightarrow> rows) = rows" "n \<le> length first"
    "sort_key fst rows = map history_row (take n first)"
    "apply_scripts run (drop n first) (rows, shTables s) = Inr (rows @ map history_row (drop n first), w)"
    "s1 = \<lparr>shHistory = Some (rows @ map history_row (drop n first)), shTables = w\<rparr>"
    using migrate_cases [OF assms(3)] by blast
  have h: "sort_key fst (rows @ map history_row (drop n first)) = map history_row (take (length first) catalog)"
    using extended_history [OF load_numbered [OF assms(2)] m(3)] by (simp add: c)
  have "match_history catalog (sort_key fst rows) = Inr n"
    using m(2,3) by (simp add: match_history_iff c)
  moreover have "match_history catalog (sort_key fst (rows @ map history_row (drop n first))) = Inr (length first)"
    unfolding match_history_iff h by (simp add: c)
  moreover have "drop n catalog = drop n first @ rest" "drop (length first) catalog = rest" using m(2) by (simp_all add: c)
  ultimately show ?thesis
    by (simp add: migrate_def check_history_def m(1) apply_scripts_append m(4)) (simp add: m(5))
qed

text \<open>Two releases of one script each over a list of the scripts that ran.\<close>

lemma hex_digit_range:
  assumes "n < 16"
  shows "hex_digit n \<in> set ''0123456789abcdef''"
proof -
  have "list_all (\<lambda>n. hex_digit n \<in> set ''0123456789abcdef'') [0..<16]" by code_simp
  then show ?thesis using assms unfolding list_all_iff by (metis atLeastLessThan_iff le0 set_upt)
qed

lemma insert_checksum:
  assumes "mgChecksum m = hex_encode (sha256 sql)" "0 < mgVersion m" "mgVersion m \<notin> fst ` set rows" "mgName m \<notin> (fst \<circ> snd) ` set rows"
  shows "insert_history m rows = Inr (rows @ [history_row m])"
proof -
  have "list_all (\<lambda>c. c \<in> set ''0123456789abcdef'') (mgChecksum m)"
    unfolding assms(1) hex_encode_def list_all_iff
  proof
    fix c assume "c \<in> set (concat (map (\<lambda>c. [hex_digit (byte c div 16), hex_digit (byte c mod 16)]) (sha256 sql)))"
    then obtain b where "c = hex_digit (byte b div 16) \<or> c = hex_digit (byte b mod 16)" by auto
    moreover have "byte b div 16 < 16" "byte b mod 16 < 16" using byte_less_256 [of b] by (simp_all add: less_mult_imp_div_less)
    ultimately show "c \<in> set ''0123456789abcdef''" using hex_digit_range by metis
  qed
  moreover have "length (mgChecksum m) = 64" by (simp add: assms(1) length_hex_encode)
  ultimately show ?thesis using assms(2-4) by (auto simp: insert_history_def list_ex_iff image_iff simp del: set_simps)
qed

definition first_release :: "(string \<times> string option) list" where "first_release = [(''001_identity.sql'', Some ''a'')]"
definition second_release :: "(string \<times> string option) list" where "second_release = [(''002_content.sql'', Some ''b'')]"

definition release_migration :: "int \<Rightarrow> string \<Rightarrow> string \<Rightarrow> migration" where
  "release_migration v name sql = \<lparr>mgVersion = v, mgName = name, mgChecksum = hex_encode (sha256 sql), mgSQL = sql\<rparr>"

definition append_script :: "string \<Rightarrow> string list \<Rightarrow> go_error + string list" where "append_script sql w = Inr (w @ [sql])"

lemma release_catalogs:
  "load_migrations first_release = Inr [release_migration 1 ''001_identity.sql'' ''a'']"
  "load_migrations (first_release @ second_release) =
     Inr [release_migration 1 ''001_identity.sql'' ''a'', release_migration 2 ''002_content.sql'' ''b'']"
proof -
  have "file_version ''001_identity.sql'' = Some 1" "file_version ''002_content.sql'' = Some 2" by code_simp+
  then show "load_migrations first_release = Inr [release_migration 1 ''001_identity.sql'' ''a'']"
    "load_migrations (first_release @ second_release) =
     Inr [release_migration 1 ''001_identity.sql'' ''a'', release_migration 2 ''002_content.sql'' ''b'']"
    by (simp_all add: load_migrations_def first_release_def second_release_def release_migration_def)
qed

lemma release_inserted:
  "0 < v \<Longrightarrow> v \<notin> fst ` set rows \<Longrightarrow> name \<notin> (fst \<circ> snd) ` set rows \<Longrightarrow>
     insert_history (release_migration v name sql) rows = Inr (rows @ [history_row (release_migration v name sql)])"
  by (rule insert_checksum) (simp_all add: release_migration_def)

theorem migrate_staged_witness:
  "\<exists>s1 s2. migrate append_script [release_migration 1 ''001_identity.sql'' ''a''] \<lparr>shHistory = None, shTables = []\<rparr> = Inr s1 \<and>
     shTables s1 = [''a''] \<and>
     migrate append_script [release_migration 1 ''001_identity.sql'' ''a'', release_migration 2 ''002_content.sql'' ''b''] s1 = Inr s2 \<and>
     shTables s2 = [''a'', ''b'']"
proof -
  let ?m1 = "release_migration 1 ''001_identity.sql'' ''a''" and ?m2 = "release_migration 2 ''002_content.sql'' ''b''"
  let ?s = "\<lparr>shHistory = None, shTables = []\<rparr>"
  have sql: "mgSQL ?m1 = ''a''" "mgSQL ?m2 = ''b''" and row: "history_row ?m1 = (1, ''001_identity.sql'', mgChecksum ?m1)"
    by (simp_all add: release_migration_def history_row_def)
  have i: "insert_history ?m1 [] = Inr [history_row ?m1]" "insert_history ?m2 [history_row ?m1] = Inr [history_row ?m1, history_row ?m2]"
    by (simp_all add: release_inserted) (subst release_inserted, simp_all add: row)
  have a: "apply_scripts append_script [?m1] ([], []) = Inr ([history_row ?m1], [''a''])"
    "apply_scripts append_script [?m1, ?m2] ([], []) = Inr ([history_row ?m1, history_row ?m2], [''a'', ''b''])"
    by (simp_all add: i append_script_def sql)
  have m: "migrate append_script [?m1] ?s = Inr \<lparr>shHistory = Some [history_row ?m1], shTables = [''a'']\<rparr>"
    "migrate append_script [?m1, ?m2] ?s = Inr \<lparr>shHistory = Some [history_row ?m1, history_row ?m2], shTables = [''a'', ''b'']\<rparr>"
    by (simp_all add: migrate_def check_history_def a del: apply_scripts.simps)
  from migrate_staged [OF release_catalogs(2,1) m(1)] m show ?thesis by simp
qed

text \<open>A migrated database is ready for the binary that migrated it, and migrating it again changes nothing.\<close>

lemma migrate_ready:
  assumes "load_migrations files = Inr catalog" "migrate run catalog s = Inr s'"
  shows "schema_ready files s' = None" "migrate run catalog s' = Inr s'"
proof -
  obtain rows n w where m: "sort_key fst rows = map history_row (take n catalog)"
    "s' = \<lparr>shHistory = Some (rows @ map history_row (drop n catalog)), shTables = w\<rparr>"
    using migrate_cases [OF assms(2)] by metis
  have "match_history catalog (map history_row catalog) = Inr (length catalog)" by (simp add: match_history_iff)
  then have c: "match_history catalog (sort_key fst (rows @ map history_row (drop n catalog))) = Inr (length catalog)"
    using extended_history [OF load_numbered [OF assms(1)] m(1)] by simp
  show "schema_ready files s' = None" by (simp add: schema_ready_def assms(1) check_history_def m(2) c)
  show "migrate run catalog s' = Inr s'" by (simp add: migrate_def check_history_def m(2) c)
qed

section \<open>The preflight of the worker\<close>

text \<open>
  \<open>ended\<close> is the error of the context at the two places that ask for it; the errors of the store are kept abstract, and
  \<open>local_error\<close> embeds those of the constants.
\<close>

definition check_worker :: "(go_error \<Rightarrow> 'e) \<Rightarrow> 'e option \<Rightarrow> 'e + unit \<Rightarrow> 'e + int \<times> int \<Rightarrow> 'e option \<Rightarrow> 'e + int \<times> int" where
  "check_worker local_error started ready counted ended =
     (case started of Some e \<Rightarrow> Inl e | None \<Rightarrow>
      (case validate_model Provider Model of Some e \<Rightarrow> Inl (local_error e) | None \<Rightarrow>
      (case token_reservation MaxInputTokens MaxOutputTokens of Inl e \<Rightarrow> Inl (local_error e) | Inr _ \<Rightarrow>
       and_then ready (\<lambda>_.
       and_then counted (\<lambda>summary.
       case ended of Some e \<Rightarrow> Inl e | None \<Rightarrow> Inr summary)))))"

lemma check_worker_iff:
  "check_worker local_error started ready counted ended = Inr summary \<longleftrightarrow>
     started = None \<and> ready = Inr () \<and> counted = Inr summary \<and> ended = None"
  by (cases summary) (auto simp: check_worker_def validate_model_def token_reservation_def token_limits split: option.splits)

end
