(* ===== verification/Site.thy ===== *)
theory Site
  imports Http
begin

text \<open>
  The HTTP interface over the database: the operations of \<open>Store\<close> and \<open>Auth\<close> that the handlers call are those of the store
  theories, each a transaction of its own, and the projection of a written post or reply is a second one after the commit,
  as in \<open>internal/postgres/content.go\<close> and \<open>interactions.go\<close>.  Requests are served one after the other.
\<close>

section \<open>The world of a site\<close>

text \<open>A transaction may be refused by the outside; then nothing of it is kept.\<close>

datatype outage = TimedOut | CallerGone | StoreDown

fun outage_failure :: "outage \<Rightarrow> failure" where
  "outage_failure TimedOut = DeadlineExceeded"
| "outage_failure CallerGone = Canceled"
| "outage_failure StoreDown = Service ErrUnavailable"

text \<open>What a transaction reads from outside: three clock readings, fresh identifiers, random bytes, draws and locked rows.\<close>

record answers =
  anOutage :: "outage option"
  anStart :: time
  anLater :: time
  anLast :: time
  anFresh :: "nat \<Rightarrow> ID"
  anSalt :: string
  anRaw :: string
  anFree :: bool
  anDraws :: draws
  anLocked :: "ID \<Rightarrow> bool"

record web =
  wbDb :: db
  wbAnswers :: "nat \<Rightarrow> answers"
  wbTurn :: nat

text \<open>The parameters of the store: tables, zones, key derivation, text search, pattern match and decimal percentage.\<close>

record 'f store_env =
  seUnicode :: unicode
  seZones :: timezones
  seKdf :: "string \<Rightarrow> string \<Rightarrow> string"
  seTextMatch :: "string \<Rightarrow> string \<Rightarrow> bool"
  seILike :: "string \<Rightarrow> string \<Rightarrow> bool"
  sePercent :: "int \<Rightarrow> int \<Rightarrow> 'f"

definition next_turn :: "web \<Rightarrow> answers \<times> web" where
  "next_turn s = (wbAnswers s (wbTurn s), s\<lparr>wbTurn := Suc (wbTurn s)\<rparr>)"

definition pg_read :: "(answers \<Rightarrow> db \<Rightarrow> go_error + 'a) \<Rightarrow> web \<Rightarrow> web \<times> (failure + 'a)" where
  "pg_read f s0 =
     (case next_turn s0 of (a, s) \<Rightarrow>
        (s, case anOutage a of Some x \<Rightarrow> Inl (outage_failure x) | None \<Rightarrow> service (f a (wbDb s))))"

definition pg_write :: "(answers \<Rightarrow> db \<Rightarrow> go_error + db \<times> 'a) \<Rightarrow> web \<Rightarrow> web \<times> (failure + 'a)" where
  "pg_write f s0 =
     (case next_turn s0 of (a, s) \<Rightarrow>
        (case anOutage a of
           Some x \<Rightarrow> (s, Inl (outage_failure x))
         | None \<Rightarrow> (case f a (wbDb s) of Inl e \<Rightarrow> (s, Inl (Service e)) | Inr (d, x) \<Rightarrow> (s\<lparr>wbDb := d\<rparr>, Inr x))))"

text \<open>A write, and the projection of its result after the commit.\<close>

definition pg_write_read :: "(answers \<Rightarrow> db \<Rightarrow> go_error + db \<times> 'k) \<Rightarrow> ('k \<Rightarrow> answers \<Rightarrow> db \<Rightarrow> go_error + 'a) \<Rightarrow> web \<Rightarrow> web \<times> (failure + 'a)" where
  "pg_write_read f g s0 = (case pg_write f s0 of (s, Inl e) \<Rightarrow> (s, Inl e) | (s, Inr k) \<Rightarrow> pg_read (g k) s)"

section \<open>Its operations\<close>

definition reply_result :: "ID \<Rightarrow> db \<Rightarrow> go_error + Reply \<times> int" where
  "reply_result i d =
     (case reply_by_id d i of
        None \<Rightarrow> Inl ErrNotFound
      | Some r \<Rightarrow>
          (case (post_by_id d (rePostID r), reply_of d r) of
             (Some p, x # _) \<Rightarrow>
               if reDeletedAt r \<noteq> None then Inl ErrDeleted
               else if poDeletedAt p \<noteq> None then Inl ErrDeleted
               else Inr (x, count_of (\<lambda>q. rePostID q = rePostID r \<and> reDeletedAt q = None) (replies d))
           | _ \<Rightarrow> Inl ErrNotFound))"

definition with_unit :: "go_error + db \<Rightarrow> go_error + db \<times> unit" where
  "with_unit x = and_then x (\<lambda>d. Inr (d, ()))"

definition pg_clock :: "web \<Rightarrow> web \<times> time" where
  "pg_clock s0 = (case next_turn s0 of (a, s) \<Rightarrow> (s, anStart a))"

definition read_written :: "'f store_env \<Rightarrow> ID \<Rightarrow> ID \<Rightarrow> answers \<Rightarrow> db \<Rightarrow> go_error + Post" where
  "read_written en i actor a d = read_post (seUnicode en) (anStart a) i actor d"

definition pg_site :: "'f store_env \<Rightarrow> (web, 'f) api_store" where
  "pg_site en = \<lparr>
     apNow = pg_clock,
     apReady = pg_read (\<lambda>a d. Inr ()),
     apSessionAccount = (\<lambda>h. pg_read (\<lambda>a d. session_account (anStart a) d h)),
     apRegister = (\<lambda>n p dn previous. pg_write (\<lambda>a d.
       auth_register register_human (seKdf en) (anFree a) (anFresh a 0) (anSalt a) (anRaw a) (anStart a) (anLater a) n p dn previous d)),
     apLogin = (\<lambda>n p previous. pg_write (\<lambda>a d.
       auth_login credential_by_handle rotate_session (seKdf en) (anFree a) (anRaw a) (anStart a) n p previous d)),
     apRevokeSession = (\<lambda>h. pg_write (\<lambda>a d. Inr (revoke_session h d, ()))),
     apProfileByID = (\<lambda>i v. pg_read (\<lambda>a d. profile_by_id i v d)),
     apProfileByHandle = (\<lambda>n v. pg_read (\<lambda>a d. profile_by_handle n v d)),
     apSetFollow = (\<lambda>h i b. pg_write (\<lambda>a d. follow_profile h i b (anStart a) d)),
     apCreatePost = (\<lambda>h key p. pg_write_read (\<lambda>a d.
       create_post (seUnicode en) (seZones en) (anFresh a) h key p (anStart a) (anLater a) (anDraws a) d) (\<lambda>(i, actor). read_written en i actor)),
     apPostByID = (\<lambda>i v. pg_read (\<lambda>a d. read_post (seUnicode en) (anStart a) i v d)),
     apDeletePost = (\<lambda>h i. pg_write (\<lambda>a d. with_unit (delete_post (anLocked a) h i (anStart a) (anLater a) d))),
     apCreateReply = (\<lambda>h key r. pg_write_read (\<lambda>a d.
       create_reply (seUnicode en) (seZones en) (anFresh a) h key r (anStart a) (anLater a) (anDraws a) d) (\<lambda>i a. reply_result i)),
     apListReplies = (\<lambda>i w. pg_read (\<lambda>a d. list_replies (anStart a) i w d)),
     apDeleteReply = (\<lambda>h i. pg_write (\<lambda>a d. with_unit (delete_reply (anLocked a) h i (anStart a) (anLater a) d))),
     apSetReaction = (\<lambda>h i k. pg_write_read (\<lambda>a d. set_reaction h i k (anStart a) d) (\<lambda>actor. read_written en i actor)),
     apSetRepost = (\<lambda>h i b. pg_write_read (\<lambda>a d.
       set_repost (seUnicode en) (seZones en) (anFresh a) (anLocked a) h i b (anStart a) (anLater a) (anDraws a) d) (\<lambda>actor. read_written en i actor)),
     apSetBookmark = (\<lambda>h i b. pg_write_read (\<lambda>a d. set_bookmark h i b (anStart a) d) (\<lambda>actor. read_written en i actor)),
     apListBookmarks = (\<lambda>h w. pg_read (\<lambda>a d. list_bookmarks (seUnicode en) (anStart a) (anLater a) h w d)),
     apListFeed = (\<lambda>v h q. pg_read (\<lambda>a d. list_feed (seUnicode en) (anStart a) (anLater a) (anLast a) v h q d)),
     apListAccountFeed = (\<lambda>i v w. pg_read (\<lambda>a d. list_account_feed (seUnicode en) (anStart a) (anLater a) i v w d)),
     apSearchPosts = (\<lambda>v q. pg_read (\<lambda>a d. search_posts (seUnicode en) (seTextMatch en) (seILike en) (anStart a) (anLater a) v q d)),
     apSuggestedAgents = (\<lambda>v n. pg_read (\<lambda>a d. suggested_agents v n d)),
     apTrends = (\<lambda>n. pg_read (\<lambda>a d. trends (sePercent en) (anStart a) n d))\<rparr>"

section \<open>The contract holds of the database\<close>

lemma next_turn_db: "next_turn s0 = (a, s) \<Longrightarrow> wbDb s = wbDb s0"
  by (auto simp: next_turn_def)

lemma pg_read_db [simp]: "wbDb (fst (pg_read f s)) = wbDb s"
  by (auto simp: pg_read_def next_turn_def)

lemma pg_clock_db [simp]: "wbDb (fst (pg_clock s)) = wbDb s"
  by (simp add: pg_clock_def next_turn_def)

lemma pg_write_spares: "write_spares wbDb (pg_write f)"
  by (auto simp: write_spares_def pg_write_def next_turn_def split: option.splits sum.splits)

text \<open>A projection fails only in ways that are no refusals.\<close>

definition plain_failure :: "go_error \<Rightarrow> bool" where
  "plain_failure e \<longleftrightarrow> e \<in> {ErrNotFound, ErrDeleted, ErrInvalidID}"

lemma plain_not_refused: "plain_failure e \<Longrightarrow> \<not> refused (write_failure (Service e) :: 'f response)"
  by (auto simp: plain_failure_def refused_def write_error_def write_error_fields_def plain_response_def refusal_codes_def)

lemma outage_not_refused: "\<not> refused (write_failure (outage_failure x) :: 'f response)"
  by (cases x) (simp_all add: refused_def write_error_def write_error_fields_def plain_response_def refusal_codes_def)

lemma parse_id_plain: "parse_id i = Inl e \<Longrightarrow> plain_failure e"
  by (auto simp: parse_id_shape plain_failure_def split: if_splits)

lemma read_post_plain: "read_post uc c i v d = Inl e \<Longrightarrow> plain_failure e"
  using parse_id_plain by (auto simp: read_post_def parse_viewer_def and_then_def plain_failure_def split: sum.splits if_splits list.splits)

lemma reply_result_plain: "reply_result i d = Inl e \<Longrightarrow> plain_failure e"
  by (auto simp: reply_result_def plain_failure_def split: option.splits list.splits if_splits)

lemma pg_write_read_spares:
  assumes "\<And>k a d e. g k a d = Inl e \<Longrightarrow> plain_failure e"
  shows "write_spares wbDb (pg_write_read f g)"
  unfolding write_spares_def
proof (intro allI impI)
  fix s s' e assume e: "pg_write_read f g s = (s', Inl e) \<and> refused (write_failure e :: unit response)"
  obtain s1 x where w: "pg_write f s = (s1, x)" by (metis prod.collapse)
  show "wbDb s' = wbDb s"
  proof (cases x)
    case (Inl e')
    then show ?thesis using e w pg_write_spares unfolding write_spares_def pg_write_read_def by fastforce
  next
    case (Inr k)
    then have "pg_read (g k) s1 = (s', Inl e)" using e w by (simp add: pg_write_read_def)
    then have "\<not> refused (write_failure e :: unit response)"
      using assms plain_not_refused [where 'f = unit] outage_not_refused [where 'f = unit] by (auto simp: pg_read_def next_turn_def service_def split: option.splits sum.splits)
    then show ?thesis using e by blast
  qed
qed

interpretation site: api_contract "pg_site en" wbDb
proof
  show "write_spares wbDb (apCreatePost (pg_site en) h key pc)" for h key pc
    unfolding pg_site_def api_store.simps by (rule pg_write_read_spares) (auto simp: read_written_def dest: read_post_plain)
  show "write_spares wbDb (apCreateReply (pg_site en) h key rc)" for h key rc
    unfolding pg_site_def api_store.simps by (rule pg_write_read_spares) (auto dest: reply_result_plain)
  show "write_spares wbDb (apSetReaction (pg_site en) h i rk)" for h i rk
    unfolding pg_site_def api_store.simps by (rule pg_write_read_spares) (auto simp: read_written_def dest: read_post_plain)
  show "write_spares wbDb (apSetRepost (pg_site en) h i b)" for h i b
    unfolding pg_site_def api_store.simps by (rule pg_write_read_spares) (auto simp: read_written_def dest: read_post_plain)
  show "write_spares wbDb (apSetBookmark (pg_site en) h i b)" for h i b
    unfolding pg_site_def api_store.simps by (rule pg_write_read_spares) (auto simp: read_written_def dest: read_post_plain)
qed (simp_all add: pg_site_def pg_write_spares)

section \<open>Sample requests\<close>

definition sample_server :: server where
  "sample_server = \<lparr>svOrigins = [''https://a.example''], svCSRFKey = ''k'', svCursorKey = ''c'', svSecureCookies = True, svUnicode = ascii_unicode\<rparr>"

definition sample_env :: "unit store_env" where
  "sample_env = \<lparr>seUnicode = ascii_unicode, seZones = sample_tz, seKdf = (\<lambda>_ _. []), seTextMatch = (\<lambda>_ _. False),
     seILike = (\<lambda>_ _. False), sePercent = (\<lambda>_ _. ())\<rparr>"

definition sample_token :: string where
  "sample_token = b64_encode url_alphabet (replicate 32 CHR ''a'')"

definition sample_answers :: answers where
  "sample_answers = \<lparr>anOutage = None, anStart = 0, anLater = 0, anLast = 0, anFresh = (\<lambda>_. []), anSalt = [], anRaw = [], anFree = True,
     anDraws = [], anLocked = (\<lambda>_. False)\<rparr>"

definition sample_site :: "web site" where
  "sample_site = \<lparr>siStore = \<lparr>wbDb = reading_db\<lparr>sessions := [\<lparr>seTokenHash = session_hash sample_token, seAccountID = acc_ID reader,
     seCreatedAt = 0, seExpiresAt = 9\<rparr>]\<rparr>, wbAnswers = (\<lambda>_. sample_answers), wbTurn = 0\<rparr>, siLimiters = newServerLimiters\<rparr>"

definition logout_request :: "string \<Rightarrow> request" where
  "logout_request origin' = \<lparr>rqMethod = ''POST'', rqPath = ''/api/v1/auth/logout'', rqPathClean = True, rqRoute = Some RouteLogout,
     rqAllowed = [''POST''], rqPathValues = [], rqRawQuery = [], rqOrigins = [origin'], rqRequestMethods = [], rqRequestHeaders = [],
     rqCSRFTokens = [csrf_token sample_server sample_token], rqIdempotencyKeys = [], rqCookies = [(cookie_name sample_server, sample_token)],
     rqMedia = None, rqEncoding = [], rqBody = [], rqContentLength = 0, rqPeer = ''10.0.0.1'', rqEnded = None\<rparr>"

lemma sample_hash: "session_hash sample_token \<noteq> []"
  by (simp add: sample_token_def session_hash_nonempty)

lemma sample_token_nonempty: "sample_token \<noteq> []"
  using sample_hash by (auto simp: session_hash_def)

lemma sample_session: "session_token sample_server (logout_request x) = sample_token"
  by (simp add: session_token_def logout_request_def sample_hash)

lemma sample_site_db: "wbDb (siStore sample_site) = reading_db\<lparr>sessions := [\<lparr>seTokenHash = session_hash sample_token,
    seAccountID = acc_ID reader, seCreatedAt = 0, seExpiresAt = 9\<rparr>]\<rparr>"
  by (simp add: sample_site_def)

lemma first_allowed:
  assumes "0 < n" "0 < m"
  shows "snd (allow (newRateLimiter n d m) key now) = 0"
  using assms by (simp add: allow_def newRateLimiter_def sweep_def current_window_def Let_def)

lemma limiters_room:
  "snd (allow (liPeers newServerLimiters) key now) = 0" "snd (allow (liAccounts newServerLimiters) key now) = 0"
  by (simp_all add: newServerLimiters_def first_allowed)

lemma allow_rate_room:
  assumes "snd (allow (limiter (siLimiters w)) key (anStart (wbAnswers (siStore w) (wbTurn (siStore w))))) = 0"
  shows "\<exists>l. allow_rate (pg_site en) limiter update key w =
    (w\<lparr>siStore := (siStore w)\<lparr>wbTurn := Suc (wbTurn (siStore w))\<rparr>, siLimiters := update l (siLimiters w)\<rparr>, Inr ())"
  using assms by (auto simp: allow_rate_def pg_site_def pg_clock_def next_turn_def Let_def split: prod.split)

lemma sample_session_account:
  "session_account c (wbDb (siStore sample_site)) (session_hash sample_token) = (if c < 9 then Inr reader else Inl ErrUnauthenticated)"
  by (simp add: sample_site_db session_account_def session_by_hash_def account_by_id_def reading_db_def reader_def null_account_def)

lemma viewer_reader:
  assumes "wbDb (siStore w) = wbDb (siStore sample_site)" "wbAnswers (siStore w) = (\<lambda>_. sample_answers)"
  shows "viewer sample_server (pg_site en) (logout_request x) w =
    (w\<lparr>siStore := (siStore w)\<lparr>wbTurn := Suc (wbTurn (siStore w))\<rparr>\<rparr>, Inr reader)"
  using assms by (simp add: viewer_def sample_session sample_hash pg_site_def pg_read_def next_turn_def sample_answers_def service_def
      sample_session_account attempt_def sample_token_nonempty Let_def)

lemma logout_run:
  assumes "wbDb (siStore w) = wbDb (siStore sample_site)" "wbAnswers (siStore w) = (\<lambda>_. sample_answers)"
    "liAccounts (siLimiters w) = liAccounts newServerLimiters"
  shows "wbDb (siStore (fst (logout sample_server (pg_site en) (logout_request ''https://a.example'') w))) =
    revoke_session (session_hash sample_token) (wbDb (siStore w))"
proof -
  let ?r = "logout_request ''https://a.example''" and ?w = "w\<lparr>siStore := (siStore w)\<lparr>wbTurn := Suc (wbTurn (siStore w))\<rparr>\<rparr>"
  obtain l where l: "allow_rate (pg_site en) liAccounts set_accounts (acc_ID reader) ?w =
      (?w\<lparr>siStore := (siStore ?w)\<lparr>wbTurn := Suc (wbTurn (siStore ?w))\<rparr>, siLimiters := set_accounts l (siLimiters ?w)\<rparr>, Inr ())"
    using allow_rate_room [of liAccounts ?w "acc_ID reader" en set_accounts] assms(3) limiters_room(2) by auto
  have "require_write sample_server (pg_site en) ?r w =
      (?w\<lparr>siStore := (siStore ?w)\<lparr>wbTurn := Suc (wbTurn (siStore ?w))\<rparr>, siLimiters := set_accounts l (siLimiters ?w)\<rparr>, Inr reader)"
    unfolding require_write_def
    by (simp add: hbind_def guard_def respond_def viewer_reader [OF assms(1,2)] l sample_session)
      (simp add: trusted_origin_def logout_request_def sample_server_def reader_def sample_id_def)
  then show ?thesis
    using assms(2) by (simp add: logout_def hbind_def call_store_def pg_site_def pg_write_def next_turn_def attempt_def respond_def caller_def
        sample_session sample_answers_def)
qed

lemma served_logout:
  "wbDb (siStore (fst (serve_request sample_server (pg_site en) (logout_request ''https://a.example'') sample_site))) =
    revoke_session (session_hash sample_token) (wbDb (siStore sample_site))"
proof -
  let ?r = "logout_request ''https://a.example''"
  obtain l where l: "allow_rate (pg_site en) liPeers set_peers (rqPeer ?r) sample_site =
      (sample_site\<lparr>siStore := (siStore sample_site)\<lparr>wbTurn := Suc (wbTurn (siStore sample_site))\<rparr>, siLimiters := set_peers l (siLimiters sample_site)\<rparr>, Inr ())"
    using allow_rate_room [of liPeers sample_site "rqPeer ?r" en set_peers] limiters_room(1) by (auto simp: sample_site_def)
  have c: "cors sample_server ?r = None" "\<not> is_probe ?r" "rqContentLength ?r = 0" "rqEnded ?r = None" "rqPathClean ?r" "rqRoute ?r = Some RouteLogout"
    by (simp_all add: cors_def is_probe_def logout_request_def)
  have "serve_request sample_server (pg_site en) ?r sample_site =
      (case logout sample_server (pg_site en) ?r (sample_site\<lparr>siStore := (siStore sample_site)\<lparr>wbTurn := Suc (wbTurn (siStore sample_site))\<rparr>,
         siLimiters := set_peers l (siLimiters sample_site)\<rparr>) of (w', Inl resp) \<Rightarrow> (w', cors_headers sample_server ?r resp)
         | (w', Inr resp) \<Rightarrow> (w', cors_headers sample_server ?r resp))"
    unfolding serve_request_def middleware_def by (simp add: c hbind_def l respond_def dispatch_def)
  then show ?thesis
    by (simp add: case_prod_unfold sum.case_eq_if logout_run set_peers_def) (subst logout_run, auto simp: sample_site_def split: sum.splits prod.splits)
qed

section \<open>Who may change the database\<close>

lemma site_session:
  assumes "apSessionAccount (pg_site en) h s = (s', Inr a)"
  shows "session_account (anStart (wbAnswers s (wbTurn s))) (wbDb s) h = Inr a"
  using assms by (auto simp: pg_site_def pg_read_def next_turn_def service_def split: option.splits sum.splits)

lemma session_account_human: "session_account c d h = Inr a \<Longrightarrow> acc_Type a = AccountHuman \<and> DisabledAt a = None"
  by (auto simp: session_account_def split: option.splits if_splits)

text \<open>
  C21: Whatever request is served, the database changes only if the request came from a trusted origin and matched a writing
  route; a credential route had room in the limiter of its peer; any other carried exactly one CSRF token, that of its
  session, and the session belonged to an enabled human whose own limiter had room.  Reads and refused requests never write.
\<close>

theorem database_guarded:
  assumes "wbDb (siStore (fst (serve_request sv (pg_site en) r w))) \<noteq> wbDb (siStore w)"
  shows "trusted_origin sv r \<and> rqPathClean r \<and>
    (\<exists>rt. rqRoute r = Some rt \<and>
      (rt \<in> {RouteRegister, RouteLogin} \<and> (\<exists>now. snd (allow (liCredentialPeers (siLimiters w)) (rqPeer r) now) \<le> 0) \<or>
       rt \<in> set write_routes \<and> rqCSRFTokens r = [csrf_token sv (session_token sv r)] \<and>
       (\<exists>a c now. session_account c (wbDb (siStore w)) (session_hash (session_token sv r)) = Inr a \<and> acc_Type a = AccountHuman \<and>
          DisabledAt a = None \<and> snd (allow (liAccounts (siLimiters w)) (acc_ID a) now) \<le> 0)))"
proof -
  obtain rt where rt: "rqRoute r = Some rt" "rqPathClean r"
    "rt \<in> set write_routes \<and> write_permitted sv (pg_site en) wbDb r w \<or> rt \<in> set credential_routes \<and> credentials_permitted sv r w"
    using site.changed_entitled [OF assms] by blast
  from rt(3) show ?thesis
  proof
    assume p: "rt \<in> set write_routes \<and> write_permitted sv (pg_site en) wbDb r w"
    then obtain a s s' now where s: "wbDb s = wbDb (siStore w)" "apSessionAccount (pg_site en) (caller sv r) s = (s', Inr a)"
      "snd (allow (liAccounts (siLimiters w)) (acc_ID a) now) \<le> 0" by (auto simp: write_permitted_def)
    from site_session [OF s(2)] have a: "session_account (anStart (wbAnswers s (wbTurn s))) (wbDb (siStore w)) (session_hash (session_token sv r)) = Inr a"
      by (simp add: s(1) caller_def)
    then show ?thesis using p rt(1,2) s(3) session_account_human [OF a] unfolding write_permitted_def by blast
  next
    assume "rt \<in> set credential_routes \<and> credentials_permitted sv r w"
    then show ?thesis using rt(1,2) by (auto simp: credential_routes_def credentials_permitted_def)
  qed
qed

lemma logout_route: "rqRoute (logout_request x) = Some RouteLogout"
  by (simp add: logout_request_def)

theorem database_guarded_witness:
  "trusted_origin sample_server (logout_request ''https://a.example'') \<and>
   rqCSRFTokens (logout_request ''https://a.example'') = [csrf_token sample_server sample_token] \<and>
   (\<exists>a c. session_account c (wbDb (siStore sample_site)) (session_hash sample_token) = Inr a \<and> acc_Type a = AccountHuman)"
proof -
  have "sessions (wbDb (siStore sample_site)) \<noteq> []" "sessions (revoke_session (session_hash sample_token) (wbDb (siStore sample_site))) = []"
    by (simp_all add: sample_site_db revoke_session_def sample_hash)
  then have "wbDb (siStore (fst (serve_request sample_server (pg_site sample_env) (logout_request ''https://a.example'') sample_site))) \<noteq>
      wbDb (siStore sample_site)" by (metis served_logout)
  from database_guarded [OF this] show ?thesis by (auto simp: sample_session logout_route)
qed

text \<open>
  A response that refuses a request - invalid input, query, cursor or key, a failed validation, missing authority, a conflict,
  a wrong method or a rate limit - means that the database is as it was; only absence, deletion and outages, which
  the projection after a commit can report too, do not say so.
\<close>

theorem refusal_changes_nothing:
  assumes "refused (snd (serve_request sv (pg_site en) r w))"
  shows "wbDb (siStore (fst (serve_request sv (pg_site en) r w))) = wbDb (siStore w)"
  by (rule site.refusal_keeps [OF assms])

theorem refusal_changes_nothing_witness:
  "let answered = serve_request sample_server (pg_site sample_env) ((logout_request [])\<lparr>rqContentLength := 70000\<rparr>) sample_site in
   rsError (snd answered) = Some (''body_too_large'', []) \<and> wbDb (siStore (fst answered)) = wbDb (siStore sample_site)"
proof -
  let ?r = "(logout_request [])\<lparr>rqContentLength := 70000\<rparr>"
  have e: "rsError (snd (serve_request sample_server (pg_site sample_env) ?r sample_site)) = Some (''body_too_large'', [])"
    by (simp add: serve_request_def middleware_def cors_def logout_request_def max_body_bytes_def refuse_with_def write_error_def
        write_error_fields_def cors_headers_def)
  then have "refused (snd (serve_request sample_server (pg_site sample_env) ?r sample_site))" by (simp add: refused_def refusal_codes_def)
  from e refusal_changes_nothing [OF this] show ?thesis by (simp add: Let_def)
qed

end
