(* ===== verification/Command.thy ===== *)
theory Command
  imports Http Admin System
begin

text \<open>
  The operator's command line (\<open>cmd/admin/main.go\<close>): the parser of the arguments and the dispatch to the store.  Reports are
  values; their JSON text, the connection and the deadline of the command are left out.
\<close>

section \<open>Arguments\<close>

datatype command_error =
    Usage | BadTarget | UnexpectedFlag | DuplicateFlag | MissingValue | BadDay | BadVersion | BadStatus | BadLimit | BadCursor
  | WrongArguments string | FilePathRequired | FileNotReadable | FileTooLarge | UnsupportedCommand | CommandFailed go_error

record adminCommand =
  cmName :: string
  cmAgent :: ID
  cmTarget :: ID
  cmVersion :: int
  cmDay :: string
  cmStatus :: string
  cmCursor :: "AdminJobCursor option"
  cmLimit :: int
  cmAll :: bool
  cmPath :: string

definition no_command :: adminCommand where
  "no_command = \<lparr>cmName = [], cmAgent = [], cmTarget = [], cmVersion = 0, cmDay = [], cmStatus = [], cmCursor = None, cmLimit = 0,
     cmAll = False, cmPath = []\<rparr>"

text \<open>A target is checked, and kept as it was written.\<close>

definition admin_id :: "string \<Rightarrow> command_error + ID" where
  "admin_id v = (case parse_id v of Inl _ \<Rightarrow> Inl BadTarget | Inr _ \<Rightarrow> Inr v)"

definition parse_admin_int :: "string \<Rightarrow> int option" where
  "parse_admin_int v = (if v = [] \<or> hd v = CHR ''+'' \<or> hd v = CHR ''-'' then None else atoi v)"

text \<open>The loop over flags, each with a value: an unknown flag, a repeated one and a missing value stop it.\<close>

fun flag_loop :: "string list \<Rightarrow> (string \<Rightarrow> string \<Rightarrow> adminCommand \<Rightarrow> command_error + adminCommand) \<Rightarrow> string list \<Rightarrow> string list \<Rightarrow>
    adminCommand \<Rightarrow> command_error + adminCommand" where
  "flag_loop allowed set_flag [] seen c = Inr c"
| "flag_loop allowed set_flag (flag # rest) seen c =
     (if flag \<notin> set allowed then Inl UnexpectedFlag
      else if flag \<in> set seen then Inl DuplicateFlag
      else case rest of
        [] \<Rightarrow> Inl MissingValue
      | v # others \<Rightarrow> and_then (set_flag flag v c) (flag_loop allowed set_flag others (flag # seen)))"

definition set_agent :: "string \<Rightarrow> adminCommand \<Rightarrow> command_error + adminCommand" where
  "set_agent v c = and_then (admin_id v) (\<lambda>i. Inr (c\<lparr>cmAgent := i\<rparr>))"

definition set_usage_flag :: "string \<Rightarrow> string \<Rightarrow> adminCommand \<Rightarrow> command_error + adminCommand" where
  "set_usage_flag flag v c =
     (if flag = ''--agent'' then set_agent v c
      else if parse_date v = None then Inl BadDay else Inr (c\<lparr>cmDay := v\<rparr>))"

definition job_statuses :: "string list" where
  "job_statuses = [''pending'', ''running'', ''retry_wait'', ''succeeded'', ''skipped'', ''cancelled'', ''failed'']"

definition set_job_flag :: "string \<Rightarrow> string \<Rightarrow> adminCommand \<Rightarrow> command_error + adminCommand" where
  "set_job_flag flag v c =
     (if flag = ''--agent'' then set_agent v c
      else if flag = ''--status'' then (if v \<in> set job_statuses then Inr (c\<lparr>cmStatus := v\<rparr>) else Inl BadStatus)
      else if flag = ''--limit''
      then (case parse_admin_int v of None \<Rightarrow> Inl BadLimit | Some n \<Rightarrow> if n < 1 \<or> n > 64 then Inl BadLimit else Inr (c\<lparr>cmLimit := n\<rparr>))
      else (case decode_admin_cursor v of Inl _ \<Rightarrow> Inl BadCursor | Inr p \<Rightarrow> Inr (c\<lparr>cmCursor := Some p\<rparr>)))"

definition parse_single_word :: "string list \<Rightarrow> adminCommand \<Rightarrow> command_error + adminCommand" where
  "parse_single_word rest c =
     flag_loop (if cmName c = ''status'' then [] else [''--agent'', ''--day'']) set_usage_flag rest [] c"

definition parse_job_list :: "string list \<Rightarrow> adminCommand \<Rightarrow> command_error + adminCommand" where
  "parse_job_list rest c = flag_loop [''--agent'', ''--status'', ''--limit'', ''--cursor''] set_job_flag rest [] c"

definition parse_agent_file :: "string list \<Rightarrow> adminCommand \<Rightarrow> command_error + adminCommand" where
  "parse_agent_file rest c =
     (case rest of
        [agent, path] \<Rightarrow> and_then (set_agent agent c) (\<lambda>c'. Inr (c'\<lparr>cmPath := path\<rparr>))
      | _ \<Rightarrow> Inl (WrongArguments (cmName c)))"

definition parse_persona_select :: "string list \<Rightarrow> adminCommand \<Rightarrow> command_error + adminCommand" where
  "parse_persona_select rest c =
     (case rest of
        [agent, version] \<Rightarrow>
          and_then (set_agent agent c) (\<lambda>c'.
          case parse_admin_int version of
            None \<Rightarrow> Inl BadVersion
          | Some n \<Rightarrow> if n < 1 then Inl BadVersion else Inr (c'\<lparr>cmVersion := n\<rparr>))
      | _ \<Rightarrow> Inl (WrongArguments (cmName c)))"

definition parse_pause_resume :: "string list \<Rightarrow> adminCommand \<Rightarrow> command_error + adminCommand" where
  "parse_pause_resume rest c =
     (case rest of
        [target] \<Rightarrow> if target = ''--all'' then Inr (c\<lparr>cmAll := True\<rparr>) else set_agent target c
      | _ \<Rightarrow> Inl (WrongArguments (cmName c)))"

definition parse_single_target :: "string list \<Rightarrow> adminCommand \<Rightarrow> command_error + adminCommand" where
  "parse_single_target rest c =
     (case rest of
        [target] \<Rightarrow> and_then (admin_id target) (\<lambda>i. Inr (c\<lparr>cmTarget := i\<rparr>))
      | _ \<Rightarrow> Inl (WrongArguments (cmName c)))"

definition target_commands :: "string list" where
  "target_commands = [''job inspect'', ''job retry'', ''account disable'', ''post remove'', ''reply remove'']"

definition parse_admin_command :: "string list \<Rightarrow> command_error + adminCommand" where
  "parse_admin_command args =
     (case args of
        [] \<Rightarrow> Inl Usage
      | first # rest \<Rightarrow>
          if first = ''status'' \<or> first = ''usage'' then parse_single_word rest (no_command\<lparr>cmName := first\<rparr>)
          else (case rest of
            [] \<Rightarrow> Inl Usage
          | verb # others \<Rightarrow>
              let name = first @ '' '' @ verb; c = no_command\<lparr>cmName := name\<rparr> in
              if name = ''persona create'' \<or> name = ''policy set'' then parse_agent_file others c
              else if name = ''persona select'' then parse_persona_select others c
              else if name = ''agent pause'' \<or> name = ''agent resume'' then parse_pause_resume others c
              else if name = ''job list'' then parse_job_list others c
              else if name \<in> set target_commands then parse_single_target others c
              else Inl Usage))"

section \<open>Execution\<close>

text \<open>
  What a command reads from outside: the file system, clocks, rows that other transactions hold locked, and the earlier state
  that a retry reads before it locks.
\<close>

record operator_world =
  owUnicode :: unicode
  owZones :: timezones
  owFile :: "string \<Rightarrow> string option"
  owNow :: time
  owLater :: time
  owClocks :: "ID \<Rightarrow> time"
  owLocked :: "ID \<Rightarrow> bool"
  owEarlier :: db

datatype report =
    PersonaCreated ID int | PersonaSelected ID int | PolicySet ID | AgentsSwitched string nat | AgentSwitched string ID
  | JobList "GenerationJob list" string | JobInspected AdminJobInspection | JobRetried ID GenerationJobStatus string
  | UsageReport AdminDayUsage | StatusReport AdminStatus | AccountDisabled ID | PostRemoved ID | ReplyRemoved ID

definition read_admin_payload :: "operator_world \<Rightarrow> string \<Rightarrow> nat \<Rightarrow> command_error + string" where
  "read_admin_payload ow path bound =
     (if path = [] then Inl FilePathRequired
      else case owFile ow path of
        None \<Rightarrow> Inl FileNotReadable
      | Some payload \<Rightarrow> if length payload > bound then Inl FileTooLarge else Inr payload)"

definition in_store :: "go_error + 'a \<Rightarrow> command_error + 'a" where
  "in_store x = (case x of Inl e \<Rightarrow> Inl (CommandFailed e) | Inr y \<Rightarrow> Inr y)"

text \<open>A store operation and the report of its success; a report over unchanged rows.\<close>

definition written :: "go_error + db \<Rightarrow> report \<Rightarrow> command_error + db \<times> report" where
  "written x r = and_then (in_store x) (\<lambda>d. Inr (d, r))"

definition reported :: "db \<Rightarrow> go_error + 'a \<Rightarrow> ('a \<Rightarrow> report) \<Rightarrow> command_error + db \<times> report" where
  "reported d x r = and_then (in_store x) (\<lambda>y. Inr (d, r y))"

text \<open>The database takes the identifiers of a command as UUIDs, whose letters have no case.\<close>

definition bound_id :: "ID \<Rightarrow> ID" where
  "bound_id i = (case parse_id i of Inl _ \<Rightarrow> i | Inr j \<Rightarrow> j)"

definition execute_job_list :: "adminCommand \<Rightarrow> db \<Rightarrow> command_error + db \<times> report" where
  "execute_job_list c d =
     reported d (list_generation_jobs \<lparr>afAgentID = bound_id (cmAgent c), afStatus = cmStatus c, afCursor = map_option (\<lambda>p. p\<lparr>acJobID := bound_id (acJobID p)\<rparr>) (cmCursor c), afLimit = cmLimit c\<rparr> d)
       (\<lambda>(js, next_token). JobList js (case next_token of None \<Rightarrow> [] | Some t \<Rightarrow> t))"

definition execute_switch :: "operator_world \<Rightarrow> adminCommand \<Rightarrow> db \<Rightarrow> command_error + db \<times> report" where
  "execute_switch ow c d =
     (let enable = (cmName c = ''agent resume'') in
      if cmAll c
      then and_then (in_store (set_enabled (owUnicode ow) (owZones ow) None enable (owClocks ow) d)) (\<lambda>(d', n). Inr (d', AgentsSwitched (cmName c) n))
      else written ((if enable then resume_agent else pause_agent) (owUnicode ow) (owZones ow) (cmAgent c) (owClocks ow) d)
             (AgentSwitched (cmName c) (cmAgent c)))"

definition execute_persona_create :: "operator_world \<Rightarrow> adminCommand \<Rightarrow> db \<Rightarrow> command_error + db \<times> report" where
  "execute_persona_create ow c d =
     and_then (read_admin_payload ow (cmPath c) MaxAdminPersonaFileBytes) (\<lambda>payload.
     and_then (in_store (decode_admin_persona (owUnicode ow) payload (cmAgent c))) (\<lambda>p.
     written (create_and_select (owUnicode ow) p (owNow ow) d) (PersonaCreated (perAgentID p) (perVersion p))))"

definition execute_policy_set :: "operator_world \<Rightarrow> adminCommand \<Rightarrow> db \<Rightarrow> command_error + db \<times> report" where
  "execute_policy_set ow c d =
     and_then (read_admin_payload ow (cmPath c) MaxAdminPolicyFileBytes) (\<lambda>payload.
     and_then (in_store (decode_admin_policy (owZones ow) payload)) (\<lambda>p.
     written (set_policy (owZones ow) (cmAgent c) p (owNow ow) d) (PolicySet (cmAgent c))))"

definition execute_admin_command :: "operator_world \<Rightarrow> adminCommand \<Rightarrow> db \<Rightarrow> command_error + db \<times> report" where
  "execute_admin_command ow c d =
     (let name = cmName c; uc = owUnicode ow; tz = owZones ow; target = bound_id (cmTarget c) in
      if name = ''persona create'' then execute_persona_create ow c d
      else if name = ''persona select''
      then written (select_persona uc (cmAgent c) (cmVersion c) (owNow ow) d) (PersonaSelected (cmAgent c) (cmVersion c))
      else if name = ''policy set'' then execute_policy_set ow c d
      else if name = ''agent pause'' \<or> name = ''agent resume'' then execute_switch ow c d
      else if name = ''job list'' then execute_job_list c d
      else if name = ''job inspect'' then reported d (inspect_generation target d) JobInspected
      else if name = ''job retry''
      then and_then (in_store (retry_generation uc tz (owEarlier ow) (owNow ow) target d))
             (\<lambda>(d', j). Inr (d', JobRetried (cmTarget c) (jStatus j) (format_instant (jAvailableAt j))))
      else if name = ''usage'' then reported d (day_generation_usage (owNow ow) (cmDay c) (bound_id (cmAgent c)) d) UsageReport
      else if name = ''status'' then reported d (generation_status uc tz (owNow ow) d) StatusReport
      else if name = ''account disable'' then written (disable_account target (owNow ow) (owLater ow) d) (AccountDisabled (cmTarget c))
      else if name = ''post remove''
      then written (remove_post (owLocked ow) target (owNow ow) (owLater ow) d) (PostRemoved (cmTarget c))
      else if name = ''reply remove''
      then written (remove_reply (owLocked ow) target (owNow ow) (owLater ow) d) (ReplyRemoved (cmTarget c))
      else Inl UnsupportedCommand)"

definition run_admin :: "operator_world \<Rightarrow> string list \<Rightarrow> db \<Rightarrow> command_error + db \<times> report" where
  "run_admin ow args d = and_then (parse_admin_command args) (\<lambda>c. execute_admin_command ow c d)"

section \<open>Flags in any order\<close>

definition flag_words :: "(string \<times> string) list \<Rightarrow> string list" where
  "flag_words fs = concat (map (\<lambda>(k, v). [k, v]) fs)"

fun set_all :: "(string \<Rightarrow> string \<Rightarrow> adminCommand \<Rightarrow> command_error + adminCommand) \<Rightarrow> (string \<times> string) list \<Rightarrow> adminCommand \<Rightarrow> command_error + adminCommand" where
  "set_all f [] c = Inr c"
| "set_all f ((k, v) # fs) c = and_then (f k v c) (set_all f fs)"

lemma flag_loop_iff:
  "flag_loop allowed f (flag_words fs) seen c = Inr c' \<longleftrightarrow>
     distinct (map fst fs) \<and> fst ` set fs \<subseteq> set allowed \<and> fst ` set fs \<inter> set seen = {} \<and> set_all f fs c = Inr c'"
proof (induction fs arbitrary: seen c)
  case (Cons kv fs)
  then show ?case by (cases kv) (auto simp: flag_words_def)
qed (simp add: flag_words_def)

text \<open>The contract of a flag setter: two different flags may be set in either order.\<close>

locale flags =
  fixes allowed :: "string list" and f :: "string \<Rightarrow> string \<Rightarrow> adminCommand \<Rightarrow> command_error + adminCommand"
  assumes commute: "\<lbrakk>k \<in> set allowed; k' \<in> set allowed; k \<noteq> k'; f k v c = Inr c1; f k' v' c1 = Inr c2\<rbrakk> \<Longrightarrow>
    \<exists>c1'. f k' v' c = Inr c1' \<and> f k v c1' = Inr c2"
begin

lemma set_first:
  assumes "set_all f (fs @ (k, v) # gs) c = Inr c'" "k \<notin> fst ` set fs" "k \<in> set allowed" "fst ` set fs \<subseteq> set allowed"
  shows "set_all f ((k, v) # fs @ gs) c = Inr c'"
  using assms
proof (induction fs arbitrary: c)
  case (Cons kv fs)
  obtain k' v' where kv: "kv = (k', v')" by (cases kv)
  obtain c1 where c1: "f k' v' c = Inr c1" "set_all f (fs @ (k, v) # gs) c1 = Inr c'" using Cons.prems(1) kv by auto
  have "set_all f ((k, v) # fs @ gs) c1 = Inr c'" by (rule Cons.IH [OF c1(2)]) (use Cons.prems in auto)
  then obtain c2 where c2: "f k v c1 = Inr c2" "set_all f (fs @ gs) c2 = Inr c'" by auto
  have "\<exists>c1'. f k v c = Inr c1' \<and> f k' v' c1' = Inr c2"
    by (rule commute [OF _ _ _ c1(1) c2(1)]) (use Cons.prems kv in auto)
  then show ?case using c2(2) kv by auto
qed simp

lemma set_any_order:
  assumes "mset gs = mset fs" "distinct (map fst fs)" "fst ` set fs \<subseteq> set allowed" "set_all f fs c = Inr c'"
  shows "set_all f gs c = Inr c'"
  using assms
proof (induction gs arbitrary: fs c)
  case (Cons kv gs)
  obtain k v where kv: "kv = (k, v)" by (cases kv)
  have "(k, v) \<in> set fs" using mset_eq_setD [OF Cons.prems(1)] kv by auto
  then obtain pre post where fs: "fs = pre @ (k, v) # post" by (meson split_list)
  have m: "mset gs = mset (pre @ post)" using Cons.prems(1) by (simp add: fs kv)
  have "set_all f ((k, v) # pre @ post) c = Inr c'"
    by (rule set_first) (use Cons.prems fs in \<open>auto simp: image_iff\<close>)
  then obtain c1 where c1: "f k v c = Inr c1" "set_all f (pre @ post) c1 = Inr c'" by auto
  have "set_all f gs c1 = Inr c'" by (rule Cons.IH [OF m _ _ c1(2)]) (use Cons.prems fs in auto)
  then show ?case using c1(1) kv by simp
qed simp

lemma loop_any_order:
  assumes "mset gs = mset fs" "flag_loop allowed f (flag_words fs) seen c = Inr c'"
  shows "flag_loop allowed f (flag_words gs) seen c = Inr c'"
proof -
  have "distinct (map fst gs) = distinct (map fst fs)" "set gs = set fs"
    using assms(1) mset_eq_imp_distinct_iff [of "map fst gs" "map fst fs"] mset_eq_setD by simp_all
  then show ?thesis using assms set_any_order unfolding flag_loop_iff by simp
qed

end

interpretation usage_flags: flags "[''--agent'', ''--day'']" set_usage_flag
  by unfold_locales (auto simp: set_usage_flag_def set_agent_def split: if_splits)

interpretation job_flags: flags "[''--agent'', ''--status'', ''--limit'', ''--cursor'']" set_job_flag
  by unfold_locales (auto simp: set_job_flag_def set_agent_def split: if_splits option.splits sum.splits)

text \<open>
  The flags of a usage report and of a job list may be written in any order: whenever the parser accepts them in one, it
  accepts them in every other, as the same command.
\<close>

theorem command_flag_order:
  assumes "words \<in> {[''usage''], [''job'', ''list'']}" "parse_admin_command (words @ flag_words fs) = Inr c" "mset gs = mset fs"
  shows "parse_admin_command (words @ flag_words gs) = Inr c"
proof -
  consider "words = [''usage'']" | "words = [''job'', ''list'']" using assms(1) by blast
  then show ?thesis
  proof cases
    case 1
    then show ?thesis using assms(2) usage_flags.loop_any_order [OF assms(3)]
      by (simp add: parse_admin_command_def parse_single_word_def no_command_def)
  next
    case 2
    then show ?thesis using assms(2) job_flags.loop_any_order [OF assms(3)]
      by (simp add: parse_admin_command_def parse_job_list_def target_commands_def Let_def)
  qed
qed

theorem command_flag_order_witness:
  "parse_admin_command [''job'', ''list'', ''--limit'', ''5'', ''--status'', ''failed''] =
   parse_admin_command [''job'', ''list'', ''--status'', ''failed'', ''--limit'', ''5''] \<and>
   \<not> isl (parse_admin_command [''job'', ''list'', ''--limit'', ''5'', ''--status'', ''failed''])"
proof -
  let ?c = "no_command\<lparr>cmName := ''job list'', cmStatus := ''failed'', cmLimit := 5\<rparr>"
  have "parse_admin_int ''5'' = Some 5" by code_simp
  then have "parse_admin_command ([''job'', ''list''] @ flag_words [(''--status'', ''failed''), (''--limit'', ''5'')]) = Inr ?c"
    by (simp add: parse_admin_command_def parse_job_list_def flag_words_def set_job_flag_def job_statuses_def target_commands_def no_command_def)
  from command_flag_order [OF _ this, of "[(''--limit'', ''5''), (''--status'', ''failed'')]"] this show ?thesis
    by (simp add: flag_words_def)
qed

section \<open>What a command does to the store\<close>

lemma written_Inr: "written x r = Inr (d', r') \<longleftrightarrow> x = Inr d' \<and> r' = r"
  by (cases x) (auto simp: written_def in_store_def)

lemma reported_Inr: "reported d x r = Inr (d', r') \<longleftrightarrow> d' = d \<and> (\<exists>y. x = Inr y \<and> r' = r y)"
  by (cases x) (auto simp: reported_def in_store_def)

lemma in_store_Inr: "in_store x = Inr y \<longleftrightarrow> x = Inr y"
  by (cases x) (auto simp: in_store_def)

lemma switch_step:
  assumes "execute_switch ow c d = Inr (d', r)"
  shows "operator_step (owUnicode ow) (owZones ow) d0 d d'"
  using assms
  by (auto simp: execute_switch_def Let_def written_Inr in_store_Inr resume_agent_def pause_agent_def split: if_splits intro: operator_step.enabled)

lemma command_step:
  assumes "execute_admin_command ow c d = Inr (d', r)"
  shows "d' = d \<or> operator_step (owUnicode ow) (owZones ow) (owEarlier ow) d d'"
  using assms unfolding execute_admin_command_def Let_def
  by (auto simp: execute_persona_create_def execute_policy_set_def execute_job_list_def written_Inr reported_Inr in_store_Inr
      split: if_splits intro: operator_step.intros switch_step)

end
