(* ===== verification/Seed.thy ===== *)
theory Seed
  imports Safety Documents
begin

text \<open>
  The demonstration fixture: its strict decoder (\<open>internal/postgres/seed_fixture.go\<close>) and the one transaction that plants it
  (\<open>internal/postgres/seed.go\<close>).  The two embedded documents are arguments.
\<close>

section \<open>Decoding\<close>

record demoFixture =
  dfAccounts :: "Account list"
  dfFollows :: "(ID \<times> ID) list"
  dfPersonas :: "Persona list"
  dfSettings :: "AgentSettings list"

text \<open>\<open>decodeFixtureObject\<close>: a strict object with exactly the given keys, with the text of each value.\<close>

definition fixture_object :: "string list \<Rightarrow> string \<Rightarrow> (string \<times> string) list option" where
  "fixture_object keys data =
     (if length data > 128 * 1024 \<or> \<not> valid_utf8 data then None
      else case strict_object data of
        None \<Rightarrow> None
      | Some fs \<Rightarrow> if list_all (\<lambda>(k, _). k \<in> set keys) fs \<and> length fs = length keys then Some fs else None)"

definition array_member :: "(string \<times> string) list \<Rightarrow> string \<Rightarrow> string list option" where
  "array_member fs k = Option.bind (map_of fs k) raw_array"

definition bool_member :: "(string \<times> string) list \<Rightarrow> string \<Rightarrow> bool option" where
  "bool_member fs k = (case map_of fs k of None \<Rightarrow> None | Some v \<Rightarrow> (case parse_json v of Some (JBool b) \<Rightarrow> Some b | _ \<Rightarrow> None))"

text \<open>\<open>time.Time.UnmarshalJSON\<close> reads between the quotes of the text, without resolving escapes.\<close>

definition stamp_member :: "(string \<times> string) list \<Rightarrow> string \<Rightarrow> time option" where
  "stamp_member fs k =
     (case map_of fs k of
        None \<Rightarrow> None
      | Some v \<Rightarrow> if length v < 2 \<or> hd v \<noteq> quote \<or> last v \<noteq> quote then None else parse_rfc3339 (butlast (tl v)))"

definition account_keys :: "string list" where
  "account_keys = [''id'', ''handle'', ''display_name'', ''initials'', ''bio'', ''role_label'', ''specialty'']"

definition fixture_account :: "(string \<Rightarrow> time) \<Rightarrow> Account list \<Rightarrow> string \<Rightarrow> Account option" where
  "fixture_account clock seen data =
     (case fixture_object account_keys data of
        None \<Rightarrow> None
      | Some fs \<Rightarrow>
          if list_ex (\<lambda>k. string_member fs k = None) account_keys then None
          else
            let s = \<lambda>k. the (string_member fs k) in
            (case new_account [] AccountAgent (s ''handle'') (s ''display_name'') (clock data) of
               Inl _ \<Rightarrow> None
             | Inr a \<Rightarrow>
                 if Handle a \<noteq> s ''handle'' \<or> s ''handle'' \<in> Handle ` set seen then None
                 else (case parse_id (s ''id'') of
                   Inl _ \<Rightarrow> None
                 | Inr i \<Rightarrow>
                     if i \<noteq> s ''id'' \<or> i \<in> acc_ID ` set seen \<or> i = ''00000000-0000-0000-0000-000000000000'' then None
                     else if list_ex (\<lambda>k. CHR 0x00 \<in> set (s k)) [''initials'', ''bio'', ''role_label'', ''specialty''] then None
                     else Some (a\<lparr>acc_ID := i, Initials := s ''initials'', Bio := s ''bio'', RoleLabel := s ''role_label'', Specialty := s ''specialty''\<rparr>))))"

fun fixture_accounts :: "(string \<Rightarrow> time) \<Rightarrow> string list \<Rightarrow> Account list \<Rightarrow> Account list option" where
  "fixture_accounts clock [] seen = Some seen"
| "fixture_accounts clock (data # rest) seen =
     (case fixture_account clock seen data of None \<Rightarrow> None | Some a \<Rightarrow> fixture_accounts clock rest (seen @ [a]))"

definition handle_id :: "Account list \<Rightarrow> string \<Rightarrow> ID" where
  "handle_id as h = (case find (\<lambda>a. Handle a = h) as of None \<Rightarrow> [] | Some a \<Rightarrow> acc_ID a)"

fun fixture_follows :: "Account list \<Rightarrow> string list \<Rightarrow> (ID \<times> ID) list \<Rightarrow> (ID \<times> ID) list option" where
  "fixture_follows as [] seen = Some seen"
| "fixture_follows as (data # rest) seen =
     (case fixture_object [''follower'', ''followed''] data of
        None \<Rightarrow> None
      | Some fs \<Rightarrow>
          (case (string_member fs ''follower'', string_member fs ''followed'') of
             (Some a, Some b) \<Rightarrow>
               let pair = (handle_id as a, handle_id as b) in
               if fst pair = [] \<or> snd pair = [] \<or> fst pair = snd pair \<or> pair \<in> set seen then None
               else fixture_follows as rest (seen @ [pair])
           | _ \<Rightarrow> None))"

definition persona_keys :: "string list" where
  "persona_keys = [''agent_id'', ''version'', ''instructions'', ''topic_tags'', ''created_at'', ''enabled'', ''policy'']"

definition seeded_settings :: "ID \<Rightarrow> int \<Rightarrow> GenerationPolicy \<Rightarrow> time \<Rightarrow> AgentSettings" where
  "seeded_settings agent version policy at =
     \<lparr>sAgentID = agent, sPersonaVersion = version, sEnabled = False, sPauseRevision = 0, sPolicy = policy, sNextPostAt = None,
      sScheduleDate = [], sRemainingSlots = 0, sLastPublishedAt = None, sUpdatedAt = at\<rparr>"

definition fixture_persona :: "unicode \<Rightarrow> timezones \<Rightarrow> Account list \<Rightarrow> ID list \<Rightarrow> string \<Rightarrow> (Persona \<times> AgentSettings) option" where
  "fixture_persona uc tz as seen data =
     (case fixture_object persona_keys data of
        None \<Rightarrow> None
      | Some fs \<Rightarrow>
          (case (string_member fs ''agent_id'', int_member fs ''version'', string_member fs ''instructions'', strings_member fs ''topic_tags'',
                 stamp_member fs ''created_at'', bool_member fs ''enabled'', map_of fs ''policy'') of
             (Some agent, Some version, Some instructions, Some topic_tags, Some at, Some enabled, Some policy_text) \<Rightarrow>
               if agent \<notin> acc_ID ` set as \<or> agent \<in> set seen \<or> enabled then None
               else (case decode_policy tz policy_text of
                 Inl _ \<Rightarrow> None
               | Inr policy \<Rightarrow>
                   let p = \<lparr>perAgentID = agent, perVersion = version, perInstructions = instructions, perTopicTags = topic_tags, perCreatedAt = at\<rparr>;
                       s = seeded_settings agent version policy at in
                   if validate_persona uc p \<noteq> None \<or> validate_settings tz s \<noteq> None \<or> at mod 1000 \<noteq> 0 then None else Some (p, s))
           | _ \<Rightarrow> None))"

fun fixture_personas :: "unicode \<Rightarrow> timezones \<Rightarrow> Account list \<Rightarrow> string list \<Rightarrow> (Persona \<times> AgentSettings) list \<Rightarrow> (Persona \<times> AgentSettings) list option" where
  "fixture_personas uc tz as [] seen = Some seen"
| "fixture_personas uc tz as (data # rest) seen =
     (case fixture_persona uc tz as (map (\<lambda>(p, _). perAgentID p) seen) data of
        None \<Rightarrow> None
      | Some x \<Rightarrow> fixture_personas uc tz as rest (seen @ [x]))"

definition identity_rows :: "string \<Rightarrow> (string list \<times> string list) option" where
  "identity_rows demo =
     (case fixture_object [''accounts'', ''follows''] demo of
        None \<Rightarrow> None
      | Some fs \<Rightarrow> (case (array_member fs ''accounts'', array_member fs ''follows'') of
                      (Some a, Some b) \<Rightarrow> if a = [] then None else Some (a, b) | _ \<Rightarrow> None))"

definition version_rows :: "string \<Rightarrow> string list option" where
  "version_rows texts = Option.bind (fixture_object [''personas''] texts) (\<lambda>fs. array_member fs ''personas'')"

definition decode_demo_fixture :: "unicode \<Rightarrow> timezones \<Rightarrow> (string \<Rightarrow> time) \<Rightarrow> string \<Rightarrow> string \<Rightarrow> demoFixture option" where
  "decode_demo_fixture uc tz clock demo texts =
     (case identity_rows demo of None \<Rightarrow> None | Some (account_rows, follow_rows) \<Rightarrow>
     (case fixture_accounts clock account_rows [] of None \<Rightarrow> None | Some as \<Rightarrow>
     (case fixture_follows as follow_rows [] of None \<Rightarrow> None | Some pairs \<Rightarrow>
     (case version_rows texts of None \<Rightarrow> None | Some rows \<Rightarrow>
        if length rows \<noteq> length as then None
        else map_option (\<lambda>ps. \<lparr>dfAccounts = as, dfFollows = pairs, dfPersonas = map fst ps, dfSettings = map snd ps\<rparr>)
               (fixture_personas uc tz as rows [])))))"

section \<open>Planting\<close>

fun seed_all :: "('a \<Rightarrow> db \<Rightarrow> go_error + db) \<Rightarrow> 'a list \<Rightarrow> db \<Rightarrow> go_error + db" where
  "seed_all f [] d = Inr d"
| "seed_all f (x # xs) d = and_then (f x d) (seed_all f xs)"

definition seed_account :: "Account \<Rightarrow> db \<Rightarrow> go_error + db" where
  "seed_account a d =
     (case account_by_id d (acc_ID a) of
        None \<Rightarrow> create_account a d
      | Some x \<Rightarrow> if acc_Type x \<noteq> AccountAgent \<or> Handle x \<noteq> Handle a \<or> DisabledAt x \<noteq> None then Inl ErrConflict else Inr d)"

text \<open>The insertion does nothing on a conflict; its references and the check against following oneself are those of the table.\<close>

definition seed_follow :: "(ID \<times> ID \<Rightarrow> time) \<Rightarrow> ID \<times> ID \<Rightarrow> db \<Rightarrow> go_error + db" where
  "seed_follow clock pair d =
     (if account_by_id d (fst pair) = None \<or> account_by_id d (snd pair) = None \<or> fst pair = snd pair then Inl ErrUnavailable
      else if list_ex (\<lambda>x. foFollowerID x = fst pair \<and> foFollowedID x = snd pair) (follows d) then Inr d
      else Inr (d\<lparr>follows := follows d @ [\<lparr>foFollowerID = fst pair, foFollowedID = snd pair, foCreatedAt = generation_instant (clock pair)\<rparr>]\<rparr>))"

definition seed_version :: "unicode \<Rightarrow> Persona \<Rightarrow> db \<Rightarrow> go_error + db" where
  "seed_version uc p d =
     (case persona_by_version uc d (perAgentID p) (perVersion p) of
        Inr old \<Rightarrow> if validate_persona_unchanged uc old p \<noteq> None then Inl ErrConflict else Inr d
      | Inl e \<Rightarrow> if e = ErrNotFound then create_persona uc p d else Inl e)"

definition seed_persona :: "unicode \<Rightarrow> timezones \<Rightarrow> Persona \<times> AgentSettings \<Rightarrow> db \<Rightarrow> go_error + db" where
  "seed_persona uc tz x d =
     and_then (seed_version uc (fst x) d) (\<lambda>d1.
     and_then (initialize_settings uc tz (snd x) d1) (\<lambda>(d2, saved).
     and_then (persona_by_version uc d2 (sAgentID saved) (sPersonaVersion saved)) (\<lambda>_. Inr d2)))"

definition seed_demo :: "unicode \<Rightarrow> timezones \<Rightarrow> (ID \<times> ID \<Rightarrow> time) \<Rightarrow> demoFixture \<Rightarrow> db \<Rightarrow> go_error + db" where
  "seed_demo uc tz clock f d =
     and_then (seed_all seed_account (dfAccounts f) d) (\<lambda>d1.
     and_then (seed_all (seed_follow clock) (dfFollows f) d1) (\<lambda>d2.
     seed_all (seed_persona uc tz) (zip (dfPersonas f) (dfSettings f)) d2))"

section \<open>Seeding only adds, and settles\<close>

definition grown :: "db \<Rightarrow> db \<Rightarrow> bool" where
  "grown d d' \<longleftrightarrow> (\<exists>as fs ps ss. d' = d\<lparr>accounts := accounts d @ as, follows := follows d @ fs, personas := personas d @ ps, settings := settings d @ ss\<rparr>)"

lemma grown_refl [simp, intro]: "grown d d"
  unfolding grown_def by (rule exI [of _ "[]"])+ simp

lemma grown_trans [trans]: "grown d d1 \<Longrightarrow> grown d1 d2 \<Longrightarrow> grown d d2"
  unfolding grown_def by (elim exE) (simp, metis)

lemma grown_by:
  "grown d (d\<lparr>accounts := accounts d @ as\<rparr>)" "grown d (d\<lparr>follows := follows d @ fs\<rparr>)" "grown d (d\<lparr>personas := personas d @ ps\<rparr>)"
  "grown d (d\<lparr>settings := settings d @ ss\<rparr>)"
proof -
  have g: "d\<lparr>accounts := accounts d @ xs, follows := follows d @ ys, personas := personas d @ zs, settings := settings d @ ws\<rparr> = d'
      \<Longrightarrow> grown d d'" for xs ys zs ws d' unfolding grown_def by blast
  show "grown d (d\<lparr>accounts := accounts d @ as\<rparr>)" by (rule g [where xs = as and ys = "[]" and zs = "[]" and ws = "[]"]) simp
  show "grown d (d\<lparr>follows := follows d @ fs\<rparr>)" by (rule g [where xs = "[]" and ys = fs and zs = "[]" and ws = "[]"]) simp
  show "grown d (d\<lparr>personas := personas d @ ps\<rparr>)" by (rule g [where xs = "[]" and ys = "[]" and zs = ps and ws = "[]"]) simp
  show "grown d (d\<lparr>settings := settings d @ ss\<rparr>)" by (rule g [where xs = "[]" and ys = "[]" and zs = "[]" and ws = ss]) simp
qed

lemma find_append_None: "find P xs = None \<Longrightarrow> find P (xs @ ys) = find P ys"
  by (induction xs) (auto split: if_splits)

lemma find_append_Some: "find P xs = Some x \<Longrightarrow> find P (xs @ ys) = Some x"
  by (induction xs) auto

lemma grown_lookups:
  assumes "grown d d'"
  shows "account_by_id d i = Some a \<Longrightarrow> account_by_id d' i = Some a" "settings_by_id d i = Some s \<Longrightarrow> settings_by_id d' i = Some s"
    "persona_by_key d i v = Some p \<Longrightarrow> persona_by_key d' i v = Some p" "set (follows d) \<subseteq> set (follows d')"
  using assms find_append_Some by (auto simp: grown_def account_by_id_def settings_by_id_def persona_by_key_def)

lemma grown_reads:
  assumes "grown d d'"
  shows "lock_agent i d = Inr u \<Longrightarrow> lock_agent i d' = Inr u" "persona_by_version uc d i v = Inr p \<Longrightarrow> persona_by_version uc d' i v = Inr p"
    "agent_settings tz d i = Inr s \<Longrightarrow> agent_settings tz d' i = Inr s"
  using grown_lookups [OF assms]
  by (auto simp: lock_agent_def persona_by_version_def agent_settings_def read_settings_def split: option.splits sum.splits if_splits go_error.splits)

text \<open>A step settles: it only adds, and over whatever grows out of its result it has nothing left to do.\<close>

definition settles :: "('a \<Rightarrow> db \<Rightarrow> go_error + db) \<Rightarrow> ('a \<Rightarrow> db \<Rightarrow> go_error + db) \<Rightarrow> 'a \<Rightarrow> bool" where
  "settles f g x \<longleftrightarrow> (\<forall>d d1. f x d = Inr d1 \<longrightarrow> grown d d1 \<and> (\<forall>d'. grown d1 d' \<longrightarrow> g x d' = Inr d'))"

lemma seed_all_settles:
  assumes "\<forall>x \<in> set xs. settles f g x" "seed_all f xs d = Inr d1"
  shows "grown d d1 \<and> (\<forall>d'. grown d1 d' \<longrightarrow> seed_all g xs d' = Inr d')"
  using assms
proof (induction xs arbitrary: d)
  case (Cons x xs)
  then obtain d0 where d0: "f x d = Inr d0" "seed_all f xs d0 = Inr d1" by auto
  have "grown d d0" "\<forall>d'. grown d0 d' \<longrightarrow> g x d' = Inr d'" using Cons.prems(1) d0(1) by (auto simp: settles_def)
  moreover have "grown d0 d1" "\<forall>d'. grown d1 d' \<longrightarrow> seed_all g xs d' = Inr d'" using Cons.IH [OF _ d0(2)] Cons.prems(1) by auto
  ultimately show ?case by (auto intro: grown_trans)
qed simp

definition plain_agent :: "Account \<Rightarrow> bool" where
  "plain_agent a \<longleftrightarrow> acc_Type a = AccountAgent \<and> DisabledAt a = None"

lemma seed_account_settles:
  assumes "plain_agent a"
  shows "settles seed_account seed_account a"
  unfolding settles_def
proof (intro allI impI)
  fix d d1 assume s: "seed_account a d = Inr d1"
  have "grown d d1 \<and> (\<exists>x. account_by_id d1 (acc_ID a) = Some x \<and> acc_Type x = AccountAgent \<and> Handle x = Handle a \<and> DisabledAt x = None)"
  proof (cases "account_by_id d (acc_ID a)")
    case None
    then have c: "create_account a d = Inr d1" using s by (simp add: seed_account_def)
    then obtain x where x: "d1 = d\<lparr>accounts := accounts d @ [x]\<rparr>"
      "acc_ID x = acc_ID a" "acc_Type x = acc_Type a" "Handle x = Handle a" "DisabledAt x = DisabledAt a"
      by (auto simp: create_account_def if_Inl)
    then show ?thesis using None assms grown_by(1) by (auto simp: plain_agent_def account_by_id_def find_append_None)
  qed (use s in \<open>auto simp: seed_account_def split: if_splits\<close>)
  then show "grown d d1 \<and> (\<forall>d'. grown d1 d' \<longrightarrow> seed_account a d' = Inr d')"
    using grown_lookups(1) by (auto simp: seed_account_def)
qed

lemma seed_follow_settles: "settles (seed_follow clock) (seed_follow clock') pair"
  unfolding settles_def
proof (intro allI impI)
  fix d d1 assume s: "seed_follow clock pair d = Inr d1"
  let ?row = "\<lambda>x. foFollowerID x = fst pair \<and> foFollowedID x = snd pair"
  have a: "account_by_id d (fst pair) \<noteq> None" "account_by_id d (snd pair) \<noteq> None" "fst pair \<noteq> snd pair"
    using s by (auto simp: seed_follow_def split: if_splits)
  have g: "grown d d1"
  proof (cases "list_ex ?row (follows d)")
    case True
    then show ?thesis using s a by (simp add: seed_follow_def)
  next
    case False
    then have "d1 = d\<lparr>follows := follows d @ [\<lparr>foFollowerID = fst pair, foFollowedID = snd pair, foCreatedAt = generation_instant (clock pair)\<rparr>]\<rparr>"
      using s a by (simp add: seed_follow_def)
    then show ?thesis using grown_by(2) by blast
  qed
  have r: "list_ex ?row (follows d1)"
    using s a by (auto simp: seed_follow_def list_ex_iff split: if_splits)
  have "seed_follow clock' pair d' = Inr d'" if "grown d1 d'" for d'
  proof -
    have "list_ex ?row (follows d')" using r grown_lookups(4) [OF that] by (auto simp: list_ex_iff)
    moreover have "account_by_id d' (fst pair) \<noteq> None" "account_by_id d' (snd pair) \<noteq> None"
      using a grown_lookups(1) [OF grown_trans [OF g that]] by blast+
    ultimately show ?thesis using a(3) by (simp add: seed_follow_def)
  qed
  then show "grown d d1 \<and> (\<forall>d'. grown d1 d' \<longrightarrow> seed_follow clock' pair d' = Inr d')" using g by blast
qed

text \<open>What the decoder requires of a persona and its settings.\<close>

definition plantable :: "unicode \<Rightarrow> timezones \<Rightarrow> Persona \<times> AgentSettings \<Rightarrow> bool" where
  "plantable uc tz x \<longleftrightarrow> (\<exists>p s. x = (p, s) \<and> validate_persona uc p = None \<and> perCreatedAt p mod 1000 = 0 \<and> sAgentID s = perAgentID p \<and>
     sPersonaVersion s = perVersion p)"

lemma created_persona:
  assumes "create_persona uc p d = Inr d1" "perCreatedAt p mod 1000 = 0"
  shows "grown d d1" "persona_by_version uc d1 (perAgentID p) (perVersion p) = Inr p"
proof -
  have c: "d1 = d\<lparr>personas := personas d @ [p]\<rparr>" "persona_by_key d (perAgentID p) (perVersion p) = None" "validate_persona uc p = None"
    "lock_agent (perAgentID p) d = Inr ()"
    using assms by (auto simp: create_persona_def generation_instant_def if_Inl)
  show "grown d d1" unfolding c(1) by (rule grown_by)
  have "persona_by_key d1 (perAgentID p) (perVersion p) = Some p"
    using c(1,2) by (simp add: persona_by_key_def find_append_None)
  then show "persona_by_version uc d1 (perAgentID p) (perVersion p) = Inr p"
    using c(3,4) by (auto simp: persona_by_version_def lock_agent_def account_by_id_def c(1) split: option.splits)
qed

lemma initialized_settings:
  assumes "initialize_settings uc tz s d = Inr (d1, saved)"
  shows "grown d d1 \<and> (\<forall>d'. grown d1 d' \<longrightarrow> initialize_settings uc tz s d' = Inr (d', saved))"
proof -
  obtain p where v: "validate_settings tz s = None" "sPauseRevision s = 0" "lock_agent (sAgentID s) d = Inr ()"
    "persona_by_version uc d (sAgentID s) (sPersonaVersion s) = Inr p"
    "d1 = (if settings_by_id d (sAgentID s) \<noteq> None then d else d\<lparr>settings := settings d @ [\<lparr>srSettings = stored_settings s, srDecodable = True\<rparr>]\<rparr>)"
    "agent_settings tz d1 (sAgentID s) = Inr saved"
    using assms by (auto simp: initialize_settings_def Let_def if_Inl)
  have g: "grown d d1" unfolding v(5) by (auto intro: grown_by)
  have "settings_by_id d1 (sAgentID s) \<noteq> None"
    using v(6) by (auto simp: agent_settings_def read_settings_def split: option.splits)
  then have "initialize_settings uc tz s d' = Inr (d', saved)" if "grown d1 d'" for d'
    using v(1-2) grown_reads(1,2) [OF grown_trans [OF g that]] v(3,4) grown_reads(3) [OF that v(6)] grown_lookups(2) [OF that]
    by (auto simp: initialize_settings_def Let_def)
  then show ?thesis using g by blast
qed

lemma seed_version_settles:
  assumes "seed_version uc p d = Inr d1" "validate_persona uc p = None" "perCreatedAt p mod 1000 = 0"
  shows "grown d d1" "grown d1 d' \<Longrightarrow> seed_version uc p d' = Inr d'"
proof -
  have "grown d d1 \<and> (\<exists>old. persona_by_version uc d1 (perAgentID p) (perVersion p) = Inr old \<and> validate_persona_unchanged uc old p = None)"
  proof (cases "persona_by_version uc d (perAgentID p) (perVersion p)")
    case (Inl e)
    then have "create_persona uc p d = Inr d1" using assms(1) by (simp add: seed_version_def split: if_splits)
    from created_persona [OF this assms(3)] show ?thesis using assms(2) by (simp add: validate_persona_unchanged_def)
  next
    case (Inr old)
    then show ?thesis using assms(1) by (auto simp: seed_version_def split: if_splits)
  qed
  then obtain old where o: "grown d d1" "persona_by_version uc d1 (perAgentID p) (perVersion p) = Inr old" "validate_persona_unchanged uc old p = None"
    by blast
  show "grown d d1" by (rule o(1))
  show "grown d1 d' \<Longrightarrow> seed_version uc p d' = Inr d'" using grown_reads(2) o(2,3) by (simp add: seed_version_def)
qed

lemma seed_persona_settles:
  assumes "plantable uc tz x"
  shows "settles (seed_persona uc tz) (seed_persona uc tz) x"
  unfolding settles_def
proof (intro allI impI)
  fix d d3 assume s: "seed_persona uc tz x d = Inr d3"
  obtain p st where x: "x = (p, st)" "validate_persona uc p = None" "perCreatedAt p mod 1000 = 0" using assms by (auto simp: plantable_def)
  obtain d1 where d1: "seed_version uc p d = Inr d1" using s by (cases "seed_version uc p d") (simp_all add: seed_persona_def x(1))
  obtain d2 saved where d2: "initialize_settings uc tz st d1 = Inr (d2, saved)"
    proof (cases "initialize_settings uc tz st d1")
    case (Inl e)
    then show ?thesis using s by (simp add: seed_persona_def x(1) d1)
  next
    case (Inr r)
    then show ?thesis using that by (cases r) simp
  qed
  obtain q where q: "persona_by_version uc d2 (sAgentID saved) (sPersonaVersion saved) = Inr q" "d2 = d3"
    using s by (cases "persona_by_version uc d2 (sAgentID saved) (sPersonaVersion saved)") (simp_all add: seed_persona_def x(1) d1 d2)
  have i: "grown d1 d3" "\<And>d'. grown d3 d' \<Longrightarrow> initialize_settings uc tz st d' = Inr (d', saved)"
    using initialized_settings [OF d2] unfolding q(2) by blast+
  have "seed_persona uc tz x d' = Inr d'" if g: "grown d3 d'" for d'
  proof -
    have "seed_version uc p d' = Inr d'" by (rule seed_version_settles(2) [OF d1 x(2,3) grown_trans [OF i(1) g]])
    moreover have "persona_by_version uc d' (sAgentID saved) (sPersonaVersion saved) = Inr q" by (rule grown_reads(2) [OF g q(1) [unfolded q(2)]])
    ultimately show ?thesis using i(2) [OF g] by (simp add: seed_persona_def x(1))
  qed
  then show "grown d d3 \<and> (\<forall>d'. grown d3 d' \<longrightarrow> seed_persona uc tz x d' = Inr d')"
    using grown_trans [OF seed_version_settles(1) [OF d1 x(2,3)] i(1)] by blast
qed

lemma fixture_personas_plantable:
  assumes "fixture_personas uc tz as rows seen = Some xs" "list_all (plantable uc tz) seen"
  shows "list_all (plantable uc tz) xs"
  using assms
proof (induction uc tz as rows seen rule: fixture_personas.induct)
  case (2 uc tz as data rest seen)
  then obtain x where x: "fixture_persona uc tz as (map (\<lambda>(p, _). perAgentID p) seen) data = Some x" "fixture_personas uc tz as rest (seen @ [x]) = Some xs"
    by (auto split: option.splits)
  have "plantable uc tz x"
    using x(1) by (auto simp: fixture_persona_def plantable_def seeded_settings_def Let_def split: option.splits sum.splits if_splits)
  then show ?case using "2.IH" [OF x] "2.prems"(2) by simp
qed simp

lemma new_account_plain: "new_account i AccountAgent h n now = Inr b \<Longrightarrow> plain_agent b"
  by (cases "normalize_handle h") (auto simp: new_account_def plain_agent_def Let_def split: if_splits)

lemma fixture_account_plain:
  assumes "fixture_account clock seen data = Some a"
  shows "plain_agent a"
proof -
  obtain fs where fs: "fixture_object account_keys data = Some fs" using assms by (cases "fixture_object account_keys data") (simp_all add: fixture_account_def)
  let ?s = "\<lambda>k. the (string_member fs k)"
  obtain b where b: "new_account [] AccountAgent (?s ''handle'') (?s ''display_name'') (clock data) = Inr b"
    using assms by (cases "new_account [] AccountAgent (?s ''handle'') (?s ''display_name'') (clock data)") (simp_all add: fixture_account_def fs Let_def split: if_splits)
  obtain i where "parse_id (?s ''id'') = Inr i" "a = b\<lparr>acc_ID := i, Initials := ?s ''initials'', Bio := ?s ''bio'', RoleLabel := ?s ''role_label'', Specialty := ?s ''specialty''\<rparr>"
    using assms by (cases "parse_id (?s ''id'')") (simp_all add: fixture_account_def fs b Let_def split: if_splits)
  then show ?thesis using new_account_plain [OF b] by (simp add: plain_agent_def)
qed

lemma fixture_accounts_plain:
  assumes "fixture_accounts clock rows seen = Some as" "list_all plain_agent seen"
  shows "list_all plain_agent as"
  using assms
proof (induction clock rows seen rule: fixture_accounts.induct)
  case (2 clock data rest seen)
  then obtain a where a: "fixture_account clock seen data = Some a" "fixture_accounts clock rest (seen @ [a]) = Some as"
    by (auto split: option.splits)
  have "plain_agent a" using a(1) by (rule fixture_account_plain)
  then show ?case using "2.IH" [OF a] "2.prems"(2) by simp
qed simp

definition plantable_fixture :: "unicode \<Rightarrow> timezones \<Rightarrow> demoFixture \<Rightarrow> bool" where
  "plantable_fixture uc tz f \<longleftrightarrow> list_all plain_agent (dfAccounts f) \<and> list_all (plantable uc tz) (zip (dfPersonas f) (dfSettings f))"

lemma decoded_plantable:
  assumes "decode_demo_fixture uc tz clock demo texts = Some f"
  shows "plantable_fixture uc tz f"
proof -
  obtain account_rows follow_rows where i: "identity_rows demo = Some (account_rows, follow_rows)"
    using assms by (cases "identity_rows demo") (auto simp: decode_demo_fixture_def)
  obtain as where as: "fixture_accounts clock account_rows [] = Some as"
    using assms by (cases "fixture_accounts clock account_rows []") (simp_all add: decode_demo_fixture_def i)
  obtain pairs where pairs: "fixture_follows as follow_rows [] = Some pairs"
    using assms by (cases "fixture_follows as follow_rows []") (simp_all add: decode_demo_fixture_def i as)
  obtain rows where rows: "version_rows texts = Some rows"
    using assms by (cases "version_rows texts") (simp_all add: decode_demo_fixture_def i as pairs)
  obtain ps where ps: "fixture_personas uc tz as rows [] = Some ps"
    "f = \<lparr>dfAccounts = as, dfFollows = pairs, dfPersonas = map fst ps, dfSettings = map snd ps\<rparr>"
    using assms by (cases "fixture_personas uc tz as rows []") (simp_all add: decode_demo_fixture_def i as pairs rows split: if_splits)
  show ?thesis
    using fixture_accounts_plain [OF as] fixture_personas_plantable [OF ps(1)] by (simp add: plantable_fixture_def ps(2) zip_map_fst_snd)
qed

lemma seed_demo_grown:
  assumes "plantable_fixture uc tz f" "seed_demo uc tz clock f d = Inr d3"
  shows "grown d d3" "grown d3 d' \<Longrightarrow> seed_demo uc tz clock' f d' = Inr d'"
proof -
  obtain d1 d2 where d: "seed_all seed_account (dfAccounts f) d = Inr d1" "seed_all (seed_follow clock) (dfFollows f) d1 = Inr d2"
    "seed_all (seed_persona uc tz) (zip (dfPersonas f) (dfSettings f)) d2 = Inr d3"
    using assms(2) by (auto simp: seed_demo_def)
  have p: "\<forall>x \<in> set (dfAccounts f). plain_agent x" "\<forall>x \<in> set (zip (dfPersonas f) (dfSettings f)). plantable uc tz x"
    using assms(1) unfolding plantable_fixture_def list_all_iff by blast+
  have "\<forall>x \<in> set (dfAccounts f). settles seed_account seed_account x" "\<forall>x \<in> set (dfFollows f). settles (seed_follow clock) (seed_follow clock') x"
    "\<forall>x \<in> set (zip (dfPersonas f) (dfSettings f)). settles (seed_persona uc tz) (seed_persona uc tz) x"
    using p seed_account_settles seed_follow_settles seed_persona_settles by blast+
  note s1 = seed_all_settles [OF this(1) d(1)] and s2 = seed_all_settles [OF this(2) d(2)] and s3 = seed_all_settles [OF this(3) d(3)]
  have g: "grown d d1" "grown d1 d2" "grown d2 d3" using s1 s2 s3 by blast+
  have g': "grown d1 d3" by (rule grown_trans [OF g(2,3)])
  show "grown d d3" by (rule grown_trans [OF g(1) g'])
  assume k: "grown d3 d'"
  have "seed_all seed_account (dfAccounts f) d' = Inr d'" "seed_all (seed_follow clock') (dfFollows f) d' = Inr d'"
    "seed_all (seed_persona uc tz) (zip (dfPersonas f) (dfSettings f)) d' = Inr d'"
    using s1 s2 s3 k grown_trans [OF g(3) k] grown_trans [OF g' k] by blast+
  then show "seed_demo uc tz clock' f d' = Inr d'" by (simp only: seed_demo_def and_then_simps)
qed

lemma seed_demo_effects:
  assumes "plantable_fixture uc tz f" "seed_demo uc tz clock f d = Inr d1"
  shows "effects d d1"
  using seed_demo_grown(1) [OF assms] by (auto simp: grown_def intro: effects_elsewhere)

text \<open>An agent with one persona, whose settings start disabled.\<close>

definition sample_fixture :: demoFixture where
  "sample_fixture = \<lparr>dfAccounts = [bot], dfFollows = [], dfPersonas = [bot_persona],
     dfSettings = [seeded_settings (sample_id CHR ''2'') 1 sample_policy 1000]\<rparr>"

lemma sample_seed:
  "plantable_fixture uc sample_tz sample_fixture"
  "seed_demo uc sample_tz at sample_fixture empty_db =
     Inr (state2\<lparr>settings := [\<lparr>srSettings = seeded_settings (sample_id CHR ''2'') 1 sample_policy 1000, srDecodable = True\<rparr>]\<rparr>)"
proof -
  have s: "validate_settings sample_tz (seeded_settings (sample_id CHR ''2'') 1 sample_policy 1000) = None"
    unfolding validate_settings_def or_else_None first_error_None
    using sample_policy_valid by (simp add: seeded_settings_def) (simp add: sample_policy_def is_digit_def)
  let ?s = "seeded_settings (sample_id CHR ''2'') 1 sample_policy 1000"
  let ?d = "state2\<lparr>settings := [\<lparr>srSettings = ?s, srDecodable = True\<rparr>]\<rparr>"
  have st: "stored_settings ?s = ?s" by (simp add: stored_settings_def seeded_settings_def generation_instant_def)
  have a: "seed_account bot empty_db = Inr state1"
    by (simp add: seed_account_def create_account_def state_defs account_by_id_def bot_def generation_instant_def)
  have v: "seed_version uc bot_persona state1 = Inr state2"
    using bot_persona_valid
    by (simp add: seed_version_def persona_by_version_def persona_by_key_def create_persona_def lock_agent_def account_by_id_def
        state_defs bot_def bot_persona_def generation_instant_def)
  have q: "persona_by_version uc ?d (sample_id CHR ''2'') 1 = Inr bot_persona" "persona_by_version uc state2 (sample_id CHR ''2'') 1 = Inr bot_persona"
    using bot_persona_valid [of uc]
    by (simp_all add: persona_by_version_def persona_by_key_def account_by_id_def state_defs bot_def bot_persona_def)
  have i: "initialize_settings uc sample_tz ?s state2 = Inr (?d, ?s)"
  proof -
    have "lock_agent (sample_id CHR ''2'') state2 = Inr ()" "settings_by_id state2 (sample_id CHR ''2'') = None"
      by (simp_all add: lock_agent_def account_by_id_def settings_by_id_def state_defs bot_def)
    moreover have "agent_settings sample_tz ?d (sample_id CHR ''2'') = Inr ?s"
      using s by (simp add: agent_settings_def read_settings_def settings_by_id_def account_by_id_def state_defs bot_def) (simp add: seeded_settings_def)
    moreover have "settings state2 = []" by (simp add: state_defs)
    ultimately show ?thesis using s st q(2) by (simp add: initialize_settings_def Let_def) (simp add: seeded_settings_def)
  qed
  have k: "sAgentID ?s = sample_id CHR ''2''" "sPersonaVersion ?s = 1" by (simp_all add: seeded_settings_def)
  show "plantable_fixture uc sample_tz sample_fixture"
    using bot_persona_valid
    by (simp add: plantable_fixture_def sample_fixture_def plantable_def plain_agent_def bot_def seeded_settings_def) (simp add: bot_persona_def)
  show "seed_demo uc sample_tz at sample_fixture empty_db =
     Inr (state2\<lparr>settings := [\<lparr>srSettings = seeded_settings (sample_id CHR ''2'') 1 sample_policy 1000, srDecodable = True\<rparr>]\<rparr>)"
    by (simp add: seed_demo_def sample_fixture_def a v i seed_persona_def q k del: and_then_Inr)
qed



end
