(* ===== verification/Platform.thy ===== *)
theory Platform
  imports Site Command Seed
begin

text \<open>
  The deployed system as a whole: one database under the requests that the HTTP server serves, the commands that operators run,
  the transactions of workers and the plantings of the demonstration fixture, in any order.  The single entry points reduce to the
  steps of \<open>System\<close>; what holds of every effect on jobs and attempts then holds whatever the deployment does.
\<close>

section \<open>Requests as steps\<close>

text \<open>\<open>moves R data m\<close>: a handler takes the data of its store along \<open>R\<close>.\<close>

definition moves :: "('d \<Rightarrow> 'd \<Rightarrow> bool) \<Rightarrow> ('s \<Rightarrow> 'd) \<Rightarrow> ('s, 'f, 'a) handler \<Rightarrow> bool" where
  "moves R data m \<longleftrightarrow> (\<forall>w. R (data (siStore w)) (data (siStore (fst (m w)))))"

lemma hbind_fst: "fst (hbind m f w) = (case m w of (w1, Inl r) \<Rightarrow> w1 | (w1, Inr x) \<Rightarrow> fst (f x w1))"
  by (simp add: hbind_def split: prod.split sum.split)

lemma keeps_at: "keeps data m \<Longrightarrow> m w = (w1, y) \<Longrightarrow> data (siStore w1) = data (siStore w)"
  unfolding keeps_def by (metis fst_conv)

lemma moves_hbind:
  assumes "keeps data m" "\<And>x. moves R data (f x)" "\<And>d. R d d"
  shows "moves R data (hbind m f)"
  unfolding moves_def
proof
  fix w
  obtain w1 y where m: "m w = (w1, y)" by (metis prod.collapse)
  note k = keeps_at [OF assms(1) m]
  show "R (data (siStore w)) (data (siStore (fst (hbind m f w))))"
  proof (cases y)
    case (Inl r)
    then show ?thesis using k assms(3) by (simp add: hbind_fst m)
  next
    case (Inr x)
    have "R (data (siStore w1)) (data (siStore (fst (f x w1))))" using assms(2) by (simp add: moves_def)
    then show ?thesis using Inr k by (simp add: hbind_fst m)
  qed
qed

lemma moves_write:
  fixes f :: "'s \<Rightarrow> 's \<times> (failure + 'a)" and g :: "'a \<Rightarrow> 'f response"
  assumes "\<And>s. R (data s) (data (fst (f s)))"
  shows "moves R data (hbind (call_store f) (\<lambda>x. respond (g x)))"
  unfolding moves_def
proof
  fix w :: "'s site"
  obtain s x where f: "f (siStore w) = (s, x)" by (metis prod.collapse)
  then have "R (data (siStore w)) (data s)" using assms by (metis fst_conv)
  then show "R (data (siStore w)) (data (siStore (fst (hbind (call_store f) (\<lambda>x. respond (g x)) w))))"
    by (cases x) (simp_all add: hbind_fst call_store_def attempt_def respond_def f)
qed

lemma moves_keeps: "keeps data m \<Longrightarrow> (\<And>d. R d d) \<Longrightarrow> moves R data m"
  by (simp add: keeps_def moves_def)

text \<open>A store whose writes go along a reflexive relation.\<close>

locale api_effects = api_contract st data for st :: "('s, 'f) api_store" and data :: "'s \<Rightarrow> 'd" +
  fixes R :: "'d \<Rightarrow> 'd \<Rightarrow> bool"
  assumes still: "R d d"
    and written:
    "R (data s) (data (fst (apRegister st n p dn prev s)))" "R (data s) (data (fst (apLogin st n p prev s)))"
    "R (data s) (data (fst (apRevokeSession st h s)))" "R (data s) (data (fst (apSetFollow st h i b s)))"
    "R (data s) (data (fst (apCreatePost st h key pc s)))" "R (data s) (data (fst (apDeletePost st h i s)))"
    "R (data s) (data (fst (apCreateReply st h key rc s)))" "R (data s) (data (fst (apDeleteReply st h i s)))"
    "R (data s) (data (fst (apSetReaction st h i rk s)))" "R (data s) (data (fst (apSetRepost st h i b s)))"
    "R (data s) (data (fst (apSetBookmark st h i b s)))"
begin

lemmas move_rules = moves_hbind moves_write written guards_keep keeps_simple still

lemma route_moves: "moves R data (run_route sv st rt r)"
proof (cases rt)
  case RouteRegister
  then show ?thesis by (simp add: register_account_def case_prod_unfold) (intro move_rules)
next
  case RouteLogin
  then show ?thesis by (simp add: login_def case_prod_unfold) (intro move_rules)
next
  case RouteLogout
  then show ?thesis by (simp add: logout_def) (intro move_rules)
next
  case RouteFollow
  then show ?thesis by (simp add: follow_def) (intro move_rules)
next
  case RouteCreatePost
  then show ?thesis by (simp add: create_post_handler_def) (intro move_rules)
next
  case RouteDeletePost
  then show ?thesis by (simp add: delete_post_handler_def) (intro move_rules)
next
  case RouteCreateReply
  then show ?thesis by (simp add: create_reply_handler_def case_prod_unfold) (intro move_rules)
next
  case RouteDeleteReply
  then show ?thesis by (simp add: delete_reply_handler_def) (intro move_rules)
next
  case RouteReaction
  then show ?thesis by (simp add: reaction_def) (intro move_rules)
next
  case RouteRepost
  then show ?thesis by (simp add: repost_def) (intro move_rules)
next
  case RouteBookmark
  then show ?thesis by (simp add: bookmark_def) (intro move_rules)
qed (rule moves_keeps, rule route_keeps, simp add: write_routes_def credential_routes_def, rule still)+

lemma dispatch_moves: "moves R data (dispatch sv st r)"
  by (auto simp: dispatch_def route_moves split: option.split intro: moves_keeps still)

lemma middleware_moves: "moves R data (middleware sv st r)"
  by (auto simp: middleware_def dispatch_moves split: option.split intro!: moves_hbind still intro: moves_keeps)

lemma served_moves: "R (data (siStore w)) (data (siStore (fst (serve_request sv st r w))))"
  using middleware_moves [of sv r] by (simp add: moves_def serve_request_parts)

end

lemma pg_write_moves:
  assumes "\<And>a d d' x. f a d = Inr (d', x) \<Longrightarrow> R d d'" "\<And>d. R d d"
  shows "R (wbDb s) (wbDb (fst (pg_write f s)))"
  using assms by (auto simp: pg_write_def next_turn_def split: option.split sum.split)

lemma pg_write_read_moves:
  assumes "\<And>a d d' x. f a d = Inr (d', x) \<Longrightarrow> R d d'" "\<And>d. R d d"
  shows "R (wbDb s) (wbDb (fst (pg_write_read f g s)))"
proof -
  have "wbDb (fst (pg_write_read f g s)) = wbDb (fst (pg_write f s))"
    by (cases "pg_write f s") (auto simp: pg_write_read_def split: sum.split)
  then show ?thesis using pg_write_moves [of f R s] assms by simp
qed

text \<open>What a request does to the database.\<close>

definition served_step :: "'f store_env \<Rightarrow> db \<Rightarrow> db \<Rightarrow> bool" where
  "served_step en d d' \<longleftrightarrow> d' = d \<or> social_step (seUnicode en) (seZones en) d d'"

lemma registration_step:
  assumes "auth_register register_human kdf free fresh salt raw now now' n p dn previous d = Inr (d', x)"
  shows "social_step uc tz d d'"
proof -
  obtain a token where x: "x = (a, token)" by (cases x)
  show ?thesis using auth.registered [OF assms [unfolded x]] by (blast intro: social_step.registration)
qed

lemma login_step:
  assumes "auth_login credential_by_handle rotate_session kdf free raw now n p previous d = Inr (d', x)"
  shows "social_step uc tz d d'"
proof -
  obtain a token where x: "x = (a, token)" by (cases x)
  show ?thesis using auth.login_requires [OF assms [unfolded x]] by (blast intro: social_step.login)
qed

lemmas served_rules = pg_write_moves pg_write_read_moves

interpretation site_effects: api_effects "pg_site en" wbDb "served_step en"
proof
  show r: "served_step en d d" for d by (simp add: served_step_def)
  note steps = social_step.intros [where uc = "seUnicode en" and tz = "seZones en"] registration_step login_step
  show "served_step en (wbDb s) (wbDb (fst (apRegister (pg_site en) n p dn prev s)))" for n p dn prev s
    unfolding pg_site_def api_store.simps by (rule pg_write_moves [OF _ r]) (simp add: served_step_def registration_step)
  show "served_step en (wbDb s) (wbDb (fst (apLogin (pg_site en) n p prev s)))" for n p prev s
    unfolding pg_site_def api_store.simps by (rule pg_write_moves [OF _ r]) (simp add: served_step_def login_step)
  show "served_step en (wbDb s) (wbDb (fst (apRevokeSession (pg_site en) h s)))" for h s
    unfolding pg_site_def api_store.simps by (rule pg_write_moves [OF _ r]) (auto simp: served_step_def intro: steps)
  show "served_step en (wbDb s) (wbDb (fst (apSetFollow (pg_site en) h i b s)))" for h i b s
    unfolding pg_site_def api_store.simps by (rule pg_write_moves [OF _ r]) (auto simp: served_step_def intro: steps)
  show "served_step en (wbDb s) (wbDb (fst (apCreatePost (pg_site en) h key pc s)))" for h key pc s
    unfolding pg_site_def api_store.simps by (rule pg_write_read_moves [OF _ r]) (auto simp: served_step_def intro: steps)
  show "served_step en (wbDb s) (wbDb (fst (apDeletePost (pg_site en) h i s)))" for h i s
    unfolding pg_site_def api_store.simps by (rule pg_write_moves [OF _ r]) (auto simp: served_step_def with_unit_def intro: steps)
  show "served_step en (wbDb s) (wbDb (fst (apCreateReply (pg_site en) h key rc s)))" for h key rc s
    unfolding pg_site_def api_store.simps by (rule pg_write_read_moves [OF _ r]) (auto simp: served_step_def intro: steps)
  show "served_step en (wbDb s) (wbDb (fst (apDeleteReply (pg_site en) h i s)))" for h i s
    unfolding pg_site_def api_store.simps by (rule pg_write_moves [OF _ r]) (auto simp: served_step_def with_unit_def intro: steps)
  show "served_step en (wbDb s) (wbDb (fst (apSetReaction (pg_site en) h i rk s)))" for h i rk s
    unfolding pg_site_def api_store.simps by (rule pg_write_read_moves [OF _ r]) (auto simp: served_step_def intro: steps)
  show "served_step en (wbDb s) (wbDb (fst (apSetRepost (pg_site en) h i b s)))" for h i b s
    unfolding pg_site_def api_store.simps by (rule pg_write_read_moves [OF _ r]) (auto simp: served_step_def intro: steps)
  show "served_step en (wbDb s) (wbDb (fst (apSetBookmark (pg_site en) h i b s)))" for h i b s
    unfolding pg_site_def api_store.simps by (rule pg_write_read_moves [OF _ r]) (auto simp: served_step_def intro: steps)
qed

section \<open>A deployment\<close>

text \<open>
  The states of the database, the newest first.  A request meets limiters, answers of the outside and an instance of the server in any
  state; a worker's transaction and an operator's retry may have read an earlier state.
\<close>

inductive deployment :: "server \<Rightarrow> 'f store_env \<Rightarrow> db list \<Rightarrow> bool" for sv en where
  empty: "deployment sv en [empty_db]"
| request: "deployment sv en (d # ds) \<Longrightarrow> wbDb (siStore w) = d \<Longrightarrow>
    deployment sv en (wbDb (siStore (fst (serve_request sv (pg_site en) r w))) # d # ds)"
| command: "deployment sv en (d # ds) \<Longrightarrow> owUnicode ow = seUnicode en \<Longrightarrow> owZones ow = seZones en \<Longrightarrow> owEarlier ow \<in> set (d # ds) \<Longrightarrow>
    run_admin ow args d = Inr (d', rep) \<Longrightarrow> deployment sv en (d' # d # ds)"
| worker: "deployment sv en (d # ds) \<Longrightarrow> d0 \<in> set (d # ds) \<Longrightarrow> worker_step (seUnicode en) (seZones en) d0 d d' \<Longrightarrow>
    deployment sv en (d' # d # ds)"
| seed: "deployment sv en (d # ds) \<Longrightarrow> plantable_fixture (seUnicode en) (seZones en) f \<Longrightarrow>
    seed_demo (seUnicode en) (seZones en) clock f d = Inr d' \<Longrightarrow> deployment sv en (d' # d # ds)"

lemma served_effects: "served_step en d d' \<Longrightarrow> rows_ok d \<Longrightarrow> effects d d'"
  using social_step_effects by (auto simp: served_step_def)

lemma command_effects:
  assumes "run_admin ow args d = Inr (d', rep)" "rows_ok d"
  shows "effects d d'"
proof -
  obtain c where "execute_admin_command ow c d = Inr (d', rep)" using assms(1) by (auto simp: run_admin_def)
  from command_step [OF this] show ?thesis using operator_step_effects [OF _ assms(2)] by auto
qed

lemma deployment_effects:
  "deployment sv en ds \<Longrightarrow> \<forall>d \<in> set ds. rows_ok d \<and> effects empty_db d"
proof (induction rule: deployment.induct)
  case empty
  then show ?case using ledger_empty by simp
next
  case (request d ds w r)
  have "effects d (wbDb (siStore (fst (serve_request sv (pg_site en) r w))))"
    using request site_effects.served_moves [of en w sv r] served_effects by auto
  then show ?case using request.IH effects_rows_ok rtranclp_trans [of effect empty_db d] by auto
next
  case (command d ds ow args d' rep)
  then have "effects d d'" using command_effects by auto
  then show ?case using command.IH effects_rows_ok rtranclp_trans [of effect empty_db d] by auto
next
  case (worker d ds d0 d')
  then have "effects d d'" using worker_step_effects by auto
  then show ?case using worker.IH effects_rows_ok rtranclp_trans [of effect empty_db d] by auto
next
  case (seed d ds f clock d')
  then have "effects d d'" using seed_demo_effects by blast
  then show ?case using seed.IH effects_rows_ok rtranclp_trans [of effect empty_db d] by auto
qed

context effect_invariant
begin

lemma deployed: "deployment sv en ds \<Longrightarrow> inv empty_db \<Longrightarrow> d \<in> set ds \<Longrightarrow> inv d"
  using deployment_effects forever ledger_empty by blast

end

text \<open>
  C18: Whatever the deployment does, requests of any content, operator commands, worker transactions over stale reads and plantings in
  any order, no day's attempts cost more than the global budget of 500000 tokens, no job has more than three attempts, every job row
  is valid and no agent has two jobs under one trigger key.
\<close>

theorem deployment_sound:
  assumes "deployment sv en ds" "d \<in> set ds"
  shows "(\<forall>day. global_spent d day \<le> generation_daily_budget) \<and> (\<forall>i. length (attempts_of d i) \<le> 3) \<and>
    list_all (\<lambda>j. validate_job j = None) (jobs d) \<and> distinct (map jID (jobs d)) \<and>
    distinct (map (\<lambda>j. (jAgentID j, jTriggerKey j)) (jobs d))"
proof -
  have "ledger d" using ledger.deployed [OF assms(1) _ assms(2)] ledger_empty by blast
  moreover have "registry d" by (rule registry.deployed [OF assms(1) registry_empty assms(2)])
  moreover have "rows_ok d" using deployment_effects [OF assms(1)] assms(2) by blast
  moreover have "trigger_id = (\<lambda>j. (jAgentID j, jTriggerKey j))" by (rule ext) (simp add: trigger_id_def)
  ultimately show ?thesis
    by (simp only: ledger_def numbered_def MaxGenerationAttempts_def registry_def rows_ok_def list_all_iff) simp
qed

lemma sample_deployment:
  "deployment sample_server sample_env
     [state2\<lparr>settings := [\<lparr>srSettings = seeded_settings (sample_id CHR ''2'') 1 sample_policy 1000, srDecodable = True\<rparr>]\<rparr>, empty_db]"
proof (rule deployment.seed [OF deployment.empty])
  have z: "seZones sample_env = sample_tz" by (simp add: sample_env_def)
  show "plantable_fixture (seUnicode sample_env) (seZones sample_env) sample_fixture" unfolding z by (rule sample_seed)
  show "seed_demo (seUnicode sample_env) (seZones sample_env) (\<lambda>_. 0) sample_fixture empty_db =
    Inr (state2\<lparr>settings := [\<lparr>srSettings = seeded_settings (sample_id CHR ''2'') 1 sample_policy 1000, srDecodable = True\<rparr>]\<rparr>)"
    unfolding z by (rule sample_seed)
qed

theorem deployment_sound_witness:
  "global_spent (state2\<lparr>settings := [\<lparr>srSettings = seeded_settings (sample_id CHR ''2'') 1 sample_policy 1000, srDecodable = True\<rparr>]\<rparr>) ''2024-03-10''
     \<le> generation_daily_budget"
  using deployment_sound [OF sample_deployment, of "state2\<lparr>settings := [\<lparr>srSettings = seeded_settings (sample_id CHR ''2'') 1 sample_policy 1000, srDecodable = True\<rparr>]\<rparr>"]
  by simp

end
