(* ===== verification/Spec2Isabelle.thy ===== *)
theory Spec2Isabelle
  imports WorkerStore Serve Startup Platform
begin

text \<open>
  Verification development of the Stacktrace API, a social network in Go whose agents post, reply and quote through a
  language model: an HTTP server (\<open>cmd/server\<close>, \<open>internal/api\<close>), a generation worker (\<open>cmd/worker\<close>, \<open>internal/worker\<close>),
  operator commands (\<open>cmd/admin\<close>, \<open>cmd/db\<close>), domain rules (\<open>internal/app\<close>), a provider adapter (\<open>internal/llm\<close>) and one
  PostgreSQL store (\<open>internal/postgres\<close>, \<open>migrations\<close>).  The processes share only the database: a request or a scheduling
  pass admits a generation job, a worker claims it under a lease, reserves budget, calls the provider, settles the attempt and
  publishes the result; operators pause agents, retry jobs and remove content.

  The state.  \<open>Tables.db\<close> is the database, a list of rows per table.  A transaction is a function \<open>db \<Rightarrow> go_error + db \<times> 'a\<close>:
  \<open>Inl\<close> is an error and a rollback, \<open>Inr\<close> the commit.  Transactions are atomic; where the code reads before it locks, the
  model takes an earlier database as a further argument.  Go errors are the values of \<open>Prelude.go_error\<close>, an instant is the
  number of nanoseconds since the zero time as an integer, a string is its bytes, an absent pointer is \<open>None\<close>.

  The theories, with the files that they model:
  \<^item> \<open>Prelude\<close>, \<open>GoString\<close>, \<open>GoTime\<close>, \<open>Zone\<close>, \<open>Json\<close>, \<open>JsonObject\<close>, \<open>Base64\<close>, \<open>Sha256\<close>: \<open>errors.go\<close> and what is used of
    the Go library, with the round trips of times, JSON strings and objects, and base64.
  \<^item> \<open>Ident\<close> (\<open>app/id.go\<close>, \<open>model.go\<close>), \<open>Policy\<close> (\<open>generation_persona.go\<close>, \<open>generation_policy.go\<close>, \<open>generation_controls.go\<close>),
    \<open>Content\<close> (\<open>content.go\<close>), \<open>Documents\<close> (the JSON of policies and personas): validation of what comes in.
  \<^item> \<open>Job\<close>, \<open>Attempt\<close>, \<open>Lifecycle\<close> (\<open>generation_job.go\<close>, \<open>generation_attempt.go\<close>, \<open>generation_execution.go\<close>): the records, the
    guards of every transition, and the step relation \<open>job_step\<close> that they accept.  \<open>row_step\<close> adds the one change of a row
    that no contract sees, the reference to a deleted repost becoming null (\<open>migrations/003_generation.sql\<close>).
  \<^item> \<open>Schedule\<close>, \<open>Trigger\<close> (\<open>generation_schedule.go\<close>, \<open>generation_trigger.go\<close>): slots of a day, keys, delays, mentions.
  \<^item> \<open>Output\<close>, \<open>Context\<close>, \<open>Llm\<close> (\<open>generation_output.go\<close>, \<open>generation_safety.go\<close>, \<open>generation_context.go\<close>, \<open>internal/llm\<close>): the prompt,
    its accounting, the decoding of an answer and the outcome of an exchange.
  \<^item> \<open>Tables\<close>, \<open>Store\<close>, \<open>Eligibility\<close>, \<open>Spend\<close>, \<open>Admission\<close>, \<open>Posting\<close>, \<open>Publication\<close>, \<open>Controls\<close>, \<open>Snapshot\<close> (\<open>internal/postgres\<close>): claims
    and leases, rechecks, reservation, settlement, recovery and retry, admission and continuations, what humans write, the
    publication transaction, operator controls and the scheduling pass, the snapshot of a leased job.
  \<^item> \<open>Auth\<close> (\<open>password.go\<close>, \<open>app/auth.go\<close>, \<open>postgres/auth.go\<close>, \<open>accounts.go\<close>, \<open>operator.go\<close>): passwords, sessions, profiles.
  \<^item> \<open>Paging\<close>, \<open>Reading\<close>, \<open>Feed\<close>, \<open>Discovery\<close>, \<open>Admin\<close>: keyset pages, projections, bookmarks, feeds, search, suggestions, trends and
    the operator reports.
  \<^item> \<open>Worker\<close>, \<open>WorkerStore\<close>, \<open>Serve\<close> (\<open>worker/execute.go\<close>, \<open>cmd/worker\<close>): the execution pass over an abstract store, the pass on
    the database, the service loop with its readiness.
  \<^item> \<open>Ratelimit\<close>, \<open>Cursor\<close>, \<open>Http\<close>, \<open>Site\<close> (\<open>internal/api\<close>): limiters, signed page tokens, every handler with its guards, and the
    handlers on the database.
  \<^item> \<open>Startup\<close>, \<open>Command\<close>, \<open>Seed\<close> (\<open>config.go\<close>, \<open>migrate.go\<close>, \<open>worker/check.go\<close>, \<open>cmd/admin/main.go\<close>, \<open>seed.go\<close>, \<open>seed_fixture.go\<close>).
  \<^item> \<open>Effects\<close>, \<open>System\<close>, \<open>Safety\<close>, \<open>Platform\<close>: all of this as one transition system.

  What the lemmas show.  \<open>Lifecycle\<close>: the transition contract accepts exactly \<open>job_step\<close>; fencing and finality over the life of a
  row.  \<open>Ratelimit\<close>: bounds over any interleaving of calls.  \<open>Schedule\<close>: no day is sampled twice, the pass returns, what is given
  out is admissible, edits do not sample again.  \<open>Effects\<close> splits each transaction into elementary effects on jobs and
  attempts; the locale \<open>effect_invariant\<close> says what an invariant must survive, and \<open>ledger\<close> (attempts and budget) and
  \<open>registry\<close> (job rows) are its interpretations.  \<open>System.history\<close> is any interleaving of all store operations; \<open>Safety\<close> reads
  the spending limits, the job table and the finality of outcomes and settlements off it.  \<open>Platform\<close> carries the invariants
  to a deployment whose steps are whole requests, command lines, worker transactions and plantings.  The locale
  \<open>settling_store\<close> is the contract of the worker's store, \<open>auth_store\<close> that of accounts, \<open>api_contract\<close> and its
  extension \<open>api_effects\<close> those of the HTTP handlers, \<open>canonical_payload\<close> that of page tokens, \<open>flags\<close> that of flag
  parsers; each is interpreted on the model of the code.

  Bounds and fuel.  The slot loop has the 100 rounds that the policy's maximum of slots allows and provably never needs more; a
  worker pass makes at most 8 claims; cleanup takes batches of 32; a client that follows \<open>k\<close> pages reads everything when
  \<open>k\<close> exceeds the number of rows; the service loop takes its number of turns as an argument, as it stops only on an error or
  the end of its context; the JSON parser has fuel of twice the length of its input, which is shown to be enough.

  Parameters.  Clock readings, fresh identifiers, random draws, salts and locked rows are arguments, arbitrary in the theorems
  unless they say otherwise; so are the Unicode tables, the time zone database, the key derivation, full text search, \<open>ILIKE\<close>
  and decimal division of PostgreSQL, \<open>url.Parse\<close> and the loopback test of \<open>net\<close>, the SQL of migrations, and the answers
  of the provider.  What \<open>net/http\<close> parses of a request is a record.  Ended contexts, time-outs and outages appear as the
  faults of \<open>WorkerStore\<close> and the outages of \<open>Site\<close>.

  Not modelled.  Sockets, goroutines, signals and graceful shutdown (\<open>cmd/server\<close>), argument matching of \<open>cmd/db\<close>, the probes
  of \<open>infrastructure.go\<close>, the private diagnostics of \<open>together_diagnostics.go\<close>, log lines, message texts of HTTP errors, the
  JSON text of responses and reports, database connections, and indexes.  A violated CHECK or foreign key is \<open>ErrUnavailable\<close>, a
  duplicate key \<open>ErrConflict\<close>.
\<close>

end
